(* ===== verification/Prelude.thy ===== *)
theory Prelude imports Main "HOL-Library.Sublist" "HOL-Library.Multiset" begin

text \<open>
  The shared base of the library: the fact collections, the list searches with which the
  components model \<open>std::string::find\<close>, \<open>std::find_if\<close> and their kin, lists that are
  rebuilt by a loop, and the two interfaces (locales) several components provide: a
  first-in-first-out queue and an insertion that keeps a list ordered.
\<close>

named_theorems edk_defs
  "definitions of the model that a property unfolds on a concrete input"
named_theorems edk_frame
  "what an operation leaves unchanged"

section \<open>Searching a list\<close>

text \<open>
  The position of the first element that satisfies a predicate, counted from a start
  position: \<open>None\<close> is \<open>std::string::npos\<close> or the end iterator.
\<close>

fun find_index :: "('a \<Rightarrow> bool) \<Rightarrow> 'a list \<Rightarrow> nat option" where
  "find_index p [] = None"
| "find_index p (x # xs) = (if p x then Some 0 else map_option Suc (find_index p xs))"

definition find_index_from :: "('a \<Rightarrow> bool) \<Rightarrow> 'a list \<Rightarrow> nat \<Rightarrow> nat option" where
  "find_index_from p xs j = map_option ((+) j) (find_index p (drop j xs))"

lemma find_index_None_iff: "find_index p xs = None \<longleftrightarrow> (\<forall>x\<in>set xs. \<not> p x)"
  by (induction xs) auto

lemma find_index_Some:
  "find_index p xs = Some i \<Longrightarrow>
     i < length xs \<and> p (xs ! i) \<and> (\<forall>k < i. \<not> p (xs ! k))"
proof (induction xs arbitrary: i)
  case (Cons x xs)
  show ?case
  proof (cases "p x")
    case True
    with Cons.prems show ?thesis by simp
  next
    case False
    with Cons.prems obtain j where j: "find_index p xs = Some j" "i = Suc j" by auto
    from Cons.IH[OF j(1)] False j(2) show ?thesis
      by (auto simp: less_Suc_eq_0_disj)
  qed
qed simp

lemma find_index_eq_takeWhile:
  "find_index p xs =
     (if \<exists>x\<in>set xs. p x then Some (length (takeWhile (\<lambda>x. \<not> p x) xs)) else None)"
  by (induction xs) auto

lemma find_index_Some_takeWhile:
  "find_index p xs = Some i \<Longrightarrow> take i xs = takeWhile (\<lambda>x. \<not> p x) xs"
  by (induction xs arbitrary: i) (auto split: if_splits)

lemma find_index_from_None:
  "find_index_from p xs j = None \<longleftrightarrow> (\<forall>x\<in>set (drop j xs). \<not> p x)"
  by (simp add: find_index_from_def find_index_None_iff)

lemma find_index_from_Some:
  assumes "find_index_from p xs j = Some i"
  shows "j \<le> i \<and> i < length xs \<and> p (xs ! i) \<and> (\<forall>x\<in>set (take (i - j) (drop j xs)). \<not> p x)"
proof -
  from assms obtain k where k: "find_index p (drop j xs) = Some k" "i = j + k"
    by (auto simp: find_index_from_def)
  from find_index_Some[OF k(1)] find_index_Some_takeWhile[OF k(1)] k(2) show ?thesis
    by (auto dest: set_takeWhileD)
qed

text \<open>The first position at or after \<open>j\<close> where a string occurs.\<close>

fun find_sub :: "'a list \<Rightarrow> 'a list \<Rightarrow> nat option" where
  "find_sub [] t = (if t = [] then Some 0 else None)"
| "find_sub (x # xs) t =
     (if take (length t) (x # xs) = t then Some 0 else map_option Suc (find_sub xs t))"

definition find_sub_from :: "'a list \<Rightarrow> 'a list \<Rightarrow> nat \<Rightarrow> nat option" where
  "find_sub_from s t j =
     (if j \<le> length s then map_option ((+) j) (find_sub (drop j s) t) else None)"

lemma find_sub_Some:
  "find_sub s t = Some i \<Longrightarrow>
     i + length t \<le> length s \<and> take (length t) (drop i s) = t
     \<and> (\<forall>k < i. take (length t) (drop k s) \<noteq> t)"
proof (induction s arbitrary: i)
  case Nil
  then show ?case by (auto split: if_splits)
next
  case (Cons x xs)
  show ?case
  proof (cases "take (length t) (x # xs) = t")
    case True
    then have "length t \<le> length (x # xs)" by (metis length_take min.cobounded1)
    with True Cons.prems show ?thesis by auto
  next
    case False
    with Cons.prems obtain j where j: "find_sub xs t = Some j" "i = Suc j" by auto
    show ?thesis
    proof (intro conjI allI impI)
      fix k assume "k < i"
      with Cons.IH[OF j(1)] j(2) False show "take (length t) (drop k (x # xs)) \<noteq> t"
        by (cases k) auto
    qed (use Cons.IH[OF j(1)] j(2) in auto)
  qed
qed

lemma find_sub_None:
  "find_sub s t = None \<Longrightarrow> take (length t) (drop k s) \<noteq> t"
proof (induction s arbitrary: k)
  case Nil
  then show ?case by (auto split: if_splits)
next
  case (Cons x xs)
  then show ?case by (cases k) (auto split: if_splits)
qed

lemma find_sub_from_Some:
  assumes "find_sub_from s t j = Some i"
  shows "j \<le> i \<and> i + length t \<le> length s \<and> take (length t) (drop i s) = t
     \<and> (\<forall>k. j \<le> k \<and> k < i \<longrightarrow> take (length t) (drop k s) \<noteq> t)"
proof -
  from assms obtain m where m: "find_sub (drop j s) t = Some m" "i = j + m" "j \<le> length s"
    by (auto simp: find_sub_from_def split: if_splits)
  note f = find_sub_Some[OF m(1)]
  have "take (length t) (drop k s) \<noteq> t" if "j \<le> k" "k < i" for k
    using f m(2) that by (auto dest!: spec[of _ "k - j"])
  with f m show ?thesis by (auto simp: add.commute)
qed

lemma find_sub_from_None:
  assumes "find_sub_from s t j = None" "j \<le> k" "k \<le> length s"
  shows "take (length t) (drop k s) \<noteq> t"
proof -
  from assms have "find_sub (drop j s) t = None"
    by (auto simp: find_sub_from_def split: if_splits)
  from find_sub_None[OF this, of "k - j"] assms(2) show ?thesis by simp
qed

section \<open>Reading and replacing in a list\<close>

lemma take_drop_split: "i \<le> j \<Longrightarrow> take (j - i) (drop i xs) @ drop j xs = drop i xs"
  by (metis append_take_drop_id drop_drop le_add_diff_inverse2)

lemma find_Some_in: "List.find p xs = Some x \<Longrightarrow> x \<in> set xs \<and> p x"
  by (auto simp: find_Some_iff)

lemma filter_map_cong: "(\<And>x. x \<in> set xs \<Longrightarrow> f x = g x) \<Longrightarrow> map f xs = map g xs"
  by simp

section \<open>Transition systems\<close>

text \<open>
  A component that reacts to events is an initial condition and a step relation. A predicate
  that holds at the start and is kept by every step holds in every state that can be reached.
\<close>

locale transition_system =
  fixes initial :: "'s \<Rightarrow> bool" and step :: "'s \<Rightarrow> 's \<Rightarrow> bool" and invariant :: "'s \<Rightarrow> bool"
  assumes invariant_initial: "initial s \<Longrightarrow> invariant s"
    and invariant_step: "invariant s \<Longrightarrow> step s s' \<Longrightarrow> invariant s'"
begin

lemma invariant_steps: "step\<^sup>*\<^sup>* s s' \<Longrightarrow> invariant s \<Longrightarrow> invariant s'"
  by (induction rule: rtranclp_induct) (auto intro: invariant_step)

lemma reachable_invariant: "initial s \<Longrightarrow> step\<^sup>*\<^sup>* s s' \<Longrightarrow> invariant s'"
  using invariant_steps invariant_initial by blast

lemma invariant_fold:
  assumes "\<And>x s. step s (f x s)"
  shows "invariant s \<Longrightarrow> invariant (fold f xs s)"
  by (induction xs arbitrary: s) (auto intro: invariant_step assms)

end

section \<open>First-in-first-out queues\<close>

text \<open>
  What a client of a queue relies on: \<open>contents\<close> lists what is waiting, oldest first. A schedule
  is a list of operations, \<open>Some a\<close> to put \<open>a\<close> into the queue and \<open>None\<close> to take something out if
  there is anything.
\<close>

locale fifo_queue =
  fixes contents :: "'q \<Rightarrow> 'a list" and enqueue :: "'a \<Rightarrow> 'q \<Rightarrow> 'q"
    and dequeue :: "'q \<Rightarrow> ('a \<times> 'q) option"
  assumes contents_enqueue: "contents (enqueue a q) = contents q @ [a]"
    and dequeue_None: "dequeue q = None \<Longrightarrow> contents q = []"
    and dequeue_Some: "dequeue q = Some (a, q') \<Longrightarrow> contents q = a # contents q'"
begin

fun drive :: "'a option list \<Rightarrow> 'q \<Rightarrow> 'a list \<times> 'q" where
  "drive [] q = ([], q)"
| "drive (Some a # ops) q = drive ops (enqueue a q)"
| "drive (None # ops) q =
     (case dequeue q of None \<Rightarrow> drive ops q
      | Some (a, q') \<Rightarrow> (let (out, q'') = drive ops q' in (a # out, q'')))"

lemma drive_order: "drive ops q = (out, q') \<Longrightarrow>
    out @ contents q' = contents q @ List.map_filter (\<lambda>x. x) ops"
proof (induction ops q arbitrary: out rule: drive.induct)
  case (2 a ops q)
  then show ?case by (simp add: contents_enqueue List.map_filter_simps)
next
  case (3 ops q)
  show ?case
  proof (cases "dequeue q")
    case None
    with 3 show ?thesis by (simp add: List.map_filter_simps)
  next
    case (Some aq)
    obtain a q1 where aq: "aq = (a, q1)" by fastforce
    obtain o1 where d: "drive ops q1 = (o1, q')" "out = a # o1"
      using 3(3) Some aq by (auto split: prod.splits)
    from 3(2)[OF Some aq[symmetric] d(1)] dequeue_Some[of q a q1] Some aq d(2)
    show ?thesis by (simp add: List.map_filter_simps)
  qed
qed (simp add: List.map_filter_simps)

end

section \<open>Insertion that keeps a list ordered\<close>

text \<open>
  The element goes before the first one with a greater key, so the list stays ordered by the
  key and elements with equal keys stay in the order in which they were inserted.
\<close>

locale ordered_insertion =
  fixes key :: "'a \<Rightarrow> 'k::linorder" and insert_ordered :: "'a \<Rightarrow> 'a list \<Rightarrow> 'a list"
  assumes insert_split: "insert_ordered x xs =
    takeWhile (\<lambda>y. \<not> key x < key y) xs @ x # dropWhile (\<lambda>y. \<not> key x < key y) xs"
begin

lemma insert_mset: "mset (insert_ordered x xs) = add_mset x (mset xs)"
proof -
  have "mset (takeWhile P xs) + mset (dropWhile P xs) = mset xs" for P :: "'a \<Rightarrow> bool"
    by (metis mset_append takeWhile_dropWhile_id)
  then show ?thesis by (simp add: insert_split)
qed

lemma insert_sorted:
  assumes "sorted (map key xs)"
  shows "sorted (map key (insert_ordered x xs))"
proof -
  let ?P = "\<lambda>y. \<not> key x < key y"
  have split: "sorted (map key (takeWhile ?P xs) @ map key (dropWhile ?P xs))"
    using assms by (metis map_append takeWhile_dropWhile_id)
  have low: "\<forall>y\<in>set (takeWhile ?P xs). key y \<le> key x" by (auto dest: set_takeWhileD)
  have high: "\<forall>y\<in>set (dropWhile ?P xs). key x \<le> key y"
  proof (cases "dropWhile ?P xs")
    case (Cons z zs)
    then have "key x < key z" by (metis hd_dropWhile list.distinct(1) list.sel(1))
    moreover have "sorted (key z # map key zs)" using split Cons by (simp add: sorted_append)
    ultimately show ?thesis using Cons by force
  next
    case Nil
    show ?thesis unfolding Nil by simp
  qed
  show ?thesis using split low high by (force simp: insert_split sorted_append)
qed

lemma insert_stable:
  assumes "sorted (map key xs)"
  shows "filter (\<lambda>y. key y = k) (insert_ordered x xs) =
    filter (\<lambda>y. key y = k) xs @ (if key x = k then [x] else [])"
proof -
  let ?P = "\<lambda>y. \<not> key x < key y"
  have none: "filter (\<lambda>y. key y = k) (dropWhile ?P xs) = []" if "key x = k"
  proof -
    have "\<forall>y\<in>set (dropWhile ?P xs). key x < key y"
    proof (cases "dropWhile ?P xs")
      case (Cons z zs)
      then have "key x < key z" by (metis hd_dropWhile list.distinct(1) list.sel(1))
      moreover have "sorted (map key (dropWhile ?P xs))"
        using assms by (metis map_append sorted_append takeWhile_dropWhile_id)
      ultimately show ?thesis using Cons by force
    next
      case Nil
      show ?thesis unfolding Nil by simp
    qed
    then have "\<forall>y\<in>set (dropWhile ?P xs). key y \<noteq> k" using that by (metis less_irrefl)
    then show ?thesis by (rule filter_False)
  qed
  have both: "filter (\<lambda>y. key y = k) (takeWhile ?P xs) @ filter (\<lambda>y. key y = k) (dropWhile ?P xs)
      = filter (\<lambda>y. key y = k) xs"
    by (metis filter_append takeWhile_dropWhile_id)
  show ?thesis
  proof (cases "key x = k")
    case True
    with both none[OF True] have "filter (\<lambda>y. key y = k) (takeWhile ?P xs) = filter (\<lambda>y. key y = k) xs"
      by (simp only: append_Nil2)
    with none[OF True] True show ?thesis unfolding insert_split by (simp only: filter_append filter.simps if_True)
  next
    case False
    with both show ?thesis by (simp add: insert_split)
  qed
qed

lemma insert_last:
  assumes "\<forall>y\<in>set xs. key y \<le> key x" shows "insert_ordered x xs = xs @ [x]"
proof -
  have "takeWhile (\<lambda>y. \<not> key x < key y) xs = xs" "dropWhile (\<lambda>y. \<not> key x < key y) xs = []"
    using assms by (auto simp: takeWhile_eq_all_conv dropWhile_eq_Nil_conv)
  then show ?thesis by (simp add: insert_split)
qed

lemma rebuild_sorted: "sorted (map key (ys @ xs)) \<Longrightarrow> fold insert_ordered xs ys = ys @ xs"
proof (induction xs arbitrary: ys)
  case (Cons x xs)
  then have "\<forall>y\<in>set ys. key y \<le> key x" by (auto simp: sorted_append)
  then have "insert_ordered x ys = ys @ [x]" by (rule insert_last)
  with Cons show ?case by simp
qed simp

lemma build_sorted: "sorted (map key ys) \<Longrightarrow> sorted (map key (fold insert_ordered xs ys))"
  by (induction xs arbitrary: ys) (simp_all add: insert_sorted)

lemma build_mset: "mset (fold insert_ordered xs ys) = mset xs + mset ys"
  by (induction xs arbitrary: ys) (simp_all add: insert_mset)

lemma build_stable:
  "sorted (map key ys) \<Longrightarrow> filter (\<lambda>y. key y = k) (fold insert_ordered xs ys)
     = filter (\<lambda>y. key y = k) ys @ filter (\<lambda>y. key y = k) xs"
  by (induction xs arbitrary: ys) (simp_all add: insert_sorted insert_stable)

text \<open>Inserting one after the other is the stable sort of the library.\<close>

lemma build_sort_key: "fold insert_ordered xs [] = sort_key key xs"
proof (rule properties_for_sort_key[symmetric])
  show "mset (fold insert_ordered xs []) = mset xs" by (simp add: build_mset)
  show "sorted (map key (fold insert_ordered xs []))" by (rule build_sorted) simp
  show "filter (\<lambda>x. key k = key x) (fold insert_ordered xs []) = filter (\<lambda>x. key k = key x) xs" for k
    using build_stable[of "[]" "key k" xs] by (simp add: eq_commute)
qed

end

end
