(* ===== verification/CStdlib.thy ===== *)
theory CStdlib imports Prelude begin

text \<open>
  The C and C++ standard library functions the sources call on text, as far as they are
  used: the C-locale character classes, the number parsers \<open>strtol\<close>, \<open>strtoll\<close>,
  \<open>strtoull\<close>, \<open>std::stoi\<close> and \<open>std::stoul\<close>, and the decimal and hexadecimal output of an
  integer. A \<open>std::string\<close> is a list of characters, each character is a byte, and \<open>byte_of\<close>
  reads it as an \<open>unsigned char\<close>.
\<close>

section \<open>Characters\<close>

definition byte_of :: "char \<Rightarrow> nat" where
  "byte_of c = of_char c"

definition chr :: "nat \<Rightarrow> char" where
  "chr n = char_of n"

lemma byte_of_less [simp]: "byte_of c < 256"
  by (simp add: byte_of_def)

lemma byte_of_chr [simp]: "n < 256 \<Longrightarrow> byte_of (chr n) = n"
  by (simp add: byte_of_def chr_def)

lemma chr_byte_of [simp]: "chr (byte_of c) = c"
  by (simp add: byte_of_def chr_def)

lemma byte_of_inject [simp]: "byte_of c = byte_of d \<longleftrightarrow> c = d"
  by (metis chr_byte_of)

definition isdigit :: "char \<Rightarrow> bool" where
  "isdigit c \<longleftrightarrow> 48 \<le> byte_of c \<and> byte_of c \<le> 57"

definition isspace :: "char \<Rightarrow> bool" where
  "isspace c \<longleftrightarrow> (9 \<le> byte_of c \<and> byte_of c \<le> 13) \<or> byte_of c = 32"

definition isupper :: "char \<Rightarrow> bool" where
  "isupper c \<longleftrightarrow> 65 \<le> byte_of c \<and> byte_of c \<le> 90"

definition islower :: "char \<Rightarrow> bool" where
  "islower c \<longleftrightarrow> 97 \<le> byte_of c \<and> byte_of c \<le> 122"

definition isalnum :: "char \<Rightarrow> bool" where
  "isalnum c \<longleftrightarrow> isdigit c \<or> isupper c \<or> islower c"

definition toupper :: "char \<Rightarrow> char" where
  "toupper c = (if islower c then chr (byte_of c - 32) else c)"

definition tolower :: "char \<Rightarrow> char" where
  "tolower c = (if isupper c then chr (byte_of c + 32) else c)"

lemmas char_class_defs = isdigit_def isspace_def isupper_def islower_def isalnum_def

section \<open>Digits and numbers\<close>

text \<open>The value of a digit in bases up to 36, and the digits of a base at a string's start.\<close>

definition digit_val :: "char \<Rightarrow> nat option" where
  "digit_val c =
     (if isdigit c then Some (byte_of c - 48)
      else if islower c then Some (byte_of c - 87)
      else if isupper c then Some (byte_of c - 55)
      else None)"

definition digit_in :: "nat \<Rightarrow> char \<Rightarrow> bool" where
  "digit_in base c \<longleftrightarrow> (case digit_val c of Some d \<Rightarrow> d < base | None \<Rightarrow> False)"

definition digits_value :: "nat \<Rightarrow> string \<Rightarrow> nat" where
  "digits_value base ds = foldl (\<lambda>a c. a * base + the (digit_val c)) 0 ds"

lemma digits_value_Nil [simp]: "digits_value b [] = 0"
  by (simp add: digits_value_def)

lemma digits_value_snoc [simp]:
  "digits_value b (ds @ [c]) = digits_value b ds * b + the (digit_val c)"
  by (simp add: digits_value_def)

lemma digits_value_bound:
  assumes "\<forall>c\<in>set ds. digit_in b c" "0 < b"
  shows "digits_value b ds < b ^ length ds"
  using assms(1)
proof (induction ds rule: rev_induct)
  case (snoc c ds)
  then have d: "the (digit_val c) < b" by (auto simp: digit_in_def split: option.splits)
  from snoc have "Suc (digits_value b ds) \<le> b ^ length ds" by simp
  then have "Suc (digits_value b ds) * b \<le> b ^ length ds * b" by (rule mult_le_mono1)
  with d show ?case by (simp add: mult.commute)
qed simp

text \<open>
  The subject sequence of \<open>strtol\<close> and its kin: white space, a sign, the prefix of the
  base (base 0 reads it off the text), digits. \<open>None\<close> when no conversion is possible;
  otherwise the sign, the magnitude and the number of characters consumed.
\<close>

definition has_hex_prefix :: "string \<Rightarrow> bool" where
  "has_hex_prefix s \<longleftrightarrow>
     (case s of z # x # h # _ \<Rightarrow> z = CHR ''0'' \<and> (x = CHR ''x'' \<or> x = CHR ''X'') \<and> digit_in 16 h
      | _ \<Rightarrow> False)"

definition base_and_skip :: "nat \<Rightarrow> string \<Rightarrow> nat \<times> nat" where
  "base_and_skip base s =
     (if (base = 0 \<or> base = 16) \<and> has_hex_prefix s then (16, 2)
      else if base = 0 then (case s of c # _ \<Rightarrow> if c = CHR ''0'' then (8, 0) else (10, 0) | [] \<Rightarrow> (10, 0))
      else (base, 0))"

definition sign_of :: "string \<Rightarrow> bool \<times> nat" where
  "sign_of s = (case s of c # _ \<Rightarrow> if c = CHR ''-'' then (True, 1)
                                  else if c = CHR ''+'' then (False, 1) else (False, 0)
                | [] \<Rightarrow> (False, 0))"

definition strtol_parse :: "nat \<Rightarrow> string \<Rightarrow> (bool \<times> nat \<times> nat) option" where
  "strtol_parse base s =
     (let ws = length (takeWhile isspace s);
          (neg, sg) = sign_of (drop ws s);
          body = drop (ws + sg) s;
          (b, skip) = base_and_skip base body;
          ds = takeWhile (digit_in b) (drop skip body)
      in if ds = [] then None else Some (neg, digits_value b ds, ws + sg + skip + length ds))"

definition c_str :: "string \<Rightarrow> string" where
  "c_str s = takeWhile (\<lambda>c. byte_of c \<noteq> 0) s"

text \<open>Signed conversion saturates at the limits of the type and reports \<open>ERANGE\<close>.\<close>

definition signed_val :: "bool \<Rightarrow> nat \<Rightarrow> int" where
  "signed_val neg m = (if neg then - int m else int m)"

definition int64_min :: int where "int64_min = - (2 ^ 63)"
definition int64_max :: int where "int64_max = 2 ^ 63 - 1"
definition int32_min :: int where "int32_min = - (2 ^ 31)"
definition int32_max :: int where "int32_max = 2 ^ 31 - 1"
definition uint32_max :: int where "uint32_max = 2 ^ 32 - 1"
definition uint64_max :: int where "uint64_max = 2 ^ 64 - 1"

lemmas int_limits = int64_min_def int64_max_def int32_min_def int32_max_def
  uint32_max_def uint64_max_def

definition clamp64 :: "int \<Rightarrow> int \<times> bool" where
  "clamp64 v = (if v > int64_max then (int64_max, True)
                else if v < int64_min then (int64_min, True) else (v, False))"

text \<open>The result of \<open>strtoll\<close>: the value, whether \<open>errno\<close> is \<open>ERANGE\<close>, and \<open>endptr - value\<close>.\<close>

definition strtoll :: "nat \<Rightarrow> string \<Rightarrow> int \<times> bool \<times> nat" where
  "strtoll base s =
     (case strtol_parse base s of
        None \<Rightarrow> (0, False, 0)
      | Some (neg, m, n) \<Rightarrow> (let (v, e) = clamp64 (signed_val neg m) in (v, e, n)))"

text \<open>
  The unsigned conversion negates in the unsigned type when there is a minus sign, and
  returns the greatest value with \<open>ERANGE\<close> when the magnitude does not fit.
\<close>

definition strtoull :: "nat \<Rightarrow> string \<Rightarrow> int \<times> bool \<times> nat" where
  "strtoull base s =
     (case strtol_parse base s of
        None \<Rightarrow> (0, False, 0)
      | Some (neg, m, n) \<Rightarrow>
          (if int m > uint64_max then (uint64_max, True, n)
           else (signed_val neg m mod 2 ^ 64, False, n)))"

text \<open>\<open>std::stoi\<close> and \<open>std::stoul\<close> throw where the C functions only report.\<close>

datatype stdexcept = invalid_argument | out_of_range

definition stoi :: "string \<Rightarrow> stdexcept + int" where
  "stoi s =
     (case strtol_parse 10 (c_str s) of
        None \<Rightarrow> Inl invalid_argument
      | Some (neg, m, n) \<Rightarrow>
          (let v = signed_val neg m in
           if v < int32_min \<or> v > int32_max then Inl out_of_range else Inr v))"

definition stoul :: "string \<Rightarrow> stdexcept + int" where
  "stoul s =
     (case strtol_parse 10 (c_str s) of
        None \<Rightarrow> Inl invalid_argument
      | Some (neg, m, n) \<Rightarrow>
          if int m > uint64_max then Inl out_of_range else Inr (signed_val neg m mod 2 ^ 64))"

section \<open>Decimal output\<close>

fun dec_digits :: "nat \<Rightarrow> string" where
  "dec_digits n = (if n < 10 then [chr (n + 48)] else dec_digits (n div 10) @ [chr (n mod 10 + 48)])"

declare dec_digits.simps [simp del]

definition show_int :: "int \<Rightarrow> string" where
  "show_int i = (if i < 0 then CHR ''-'' # dec_digits (nat (- i)) else dec_digits (nat i))"

lemma digit_chr: "d < 10 \<Longrightarrow> isdigit (chr (d + 48)) \<and> digit_val (chr (d + 48)) = Some d"
  by (simp add: isdigit_def digit_val_def)

lemma dec_digits_nonempty [simp]: "dec_digits n \<noteq> []"
  by (subst dec_digits.simps) simp

lemma dec_digits_isdigit: "c \<in> set (dec_digits n) \<Longrightarrow> isdigit c"
proof (induction n rule: dec_digits.induct)
  case (1 n)
  show ?case
  proof (cases "n < 10")
    case True
    with "1.prems" show ?thesis using digit_chr by (simp add: dec_digits.simps[of n])
  next
    case False
    with 1 show ?thesis using digit_chr[of "n mod 10"] by (auto simp: dec_digits.simps[of n])
  qed
qed

lemma isdigit_digit_in: "isdigit c \<Longrightarrow> digit_in 10 c"
  by (auto simp: isdigit_def digit_in_def digit_val_def)

lemma digit_in_10 [simp]: "digit_in 10 c \<longleftrightarrow> isdigit c"
  by (auto simp: isdigit_def digit_in_def digit_val_def islower_def isupper_def split: if_splits)

lemma digits_value_dec: "digits_value 10 (dec_digits n) = n"
proof (induction n rule: dec_digits.induct)
  case (1 n)
  show ?case
  proof (cases "n < 10")
    case True
    then show ?thesis using digit_chr[of n]
      by (simp add: dec_digits.simps[of n] digits_value_def)
  next
    case False
    with 1 show ?thesis using digit_chr[of "n mod 10"]
      by (simp add: dec_digits.simps[of n])
  qed
qed

text \<open>A run of decimal digits parses to its value when nothing but digits precedes.\<close>

lemma sign_of_digit: "ds \<noteq> [] \<Longrightarrow> isdigit (hd ds) \<Longrightarrow> sign_of (ds @ r) = (False, 0)"
  by (cases ds) (auto simp: sign_of_def isdigit_def byte_of_def)

lemma strtol_parse_digits:
  assumes "ds \<noteq> []" "\<forall>c\<in>set ds. isdigit c" "r = [] \<or> \<not> isdigit (hd r)"
  shows "strtol_parse 10 (ds @ r) = Some (False, digits_value 10 ds, length ds)"
proof -
  have hd: "isdigit (hd ds)" using assms(1,2) by (cases ds) auto
  then have "\<not> isspace (hd ds)" by (auto simp: isspace_def isdigit_def)
  then have ws: "takeWhile isspace (ds @ r) = []" using assms(1) by (cases ds) auto
  have tw: "takeWhile isdigit (ds @ r) = ds"
    using assms(2,3) by (cases r) (auto simp: takeWhile_append)
  have "digit_in (10::nat) = isdigit" by (auto simp: fun_eq_iff)
  with assms(1) hd ws tw show ?thesis
    by (simp add: strtol_parse_def sign_of_digit base_and_skip_def)
qed

lemma isdigit_nonzero: "isdigit c \<Longrightarrow> byte_of c \<noteq> 0"
  by (auto simp: isdigit_def)

lemma stoi_digits:
  assumes "ds \<noteq> []" "\<forall>c\<in>set ds. isdigit c"
  shows "stoi ds = (if int (digits_value 10 ds) \<le> int32_max
                    then Inr (int (digits_value 10 ds)) else Inl out_of_range)"
proof -
  have c: "c_str ds = ds" using assms(2) isdigit_nonzero by (simp add: c_str_def)
  from strtol_parse_digits[OF assms, of "[]"] c show ?thesis
    by (auto simp: stoi_def signed_val_def int32_min_def)
qed

lemma stoi_dec_digits: "int n \<le> int32_max \<Longrightarrow> stoi (dec_digits n) = Inr (int n)"
  using stoi_digits[of "dec_digits n"] by (simp add: digits_value_dec dec_digits_isdigit)

end
