(* ===== verification/StringUtil.thy ===== *)
theory StringUtil imports CStdlib begin

text \<open>
  \<open>support/src/util/StringUtil.cpp\<close>: case conversion, the two \<open>split\<close> functions with
  \<open>find_separator\<close>, \<open>replace_all\<close>, \<open>trim\<close>, \<open>join\<close>, \<open>map_vector\<close> and the UTF-8 filter and
  truncation. Positions are natural numbers, \<open>npos\<close> is \<open>None\<close>; every loop keeps the
  variables of the source. \<open>replace_all\<close> may not return, so its result is optional.
\<close>

section \<open>Case conversion, join, map\<close>

definition to_upper_case :: "string \<Rightarrow> string" where
  "to_upper_case s = map toupper s"

definition to_lower_case :: "string \<Rightarrow> string" where
  "to_lower_case s = map tolower s"

text \<open>The random draws of \<open>random_alphanumeric_string\<close> are the argument \<open>rand_int\<close>.\<close>

definition alphanumeric_chars :: string where
  "alphanumeric_chars = ''0123456789'' @ ''ABCDEFGHIJKLMNOPQRSTUVWXYZ'' @ ''abcdefghijklmnopqrstuvwxyz''"

definition random_alphanumeric_string :: "(nat \<Rightarrow> nat) \<Rightarrow> nat \<Rightarrow> string" where
  "random_alphanumeric_string rand_int len = map (\<lambda>i. alphanumeric_chars ! rand_int i) [0..<len]"

text \<open>The loop of \<open>join\<close> writes the delimiter before every element but the first.\<close>

fun join_loop :: "string list \<Rightarrow> string \<Rightarrow> nat \<Rightarrow> string \<Rightarrow> string" where
  "join_loop [] delimiter i result = result"
| "join_loop (e # es) delimiter i result =
     join_loop es delimiter (Suc i) ((if i > 0 then result @ delimiter else result) @ e)"

definition join :: "string list \<Rightarrow> string \<Rightarrow> string" where
  "join elements delimiter = join_loop elements delimiter 0 []"

definition map_vector :: "string list \<Rightarrow> (string \<Rightarrow> string) \<Rightarrow> string list" where
  "map_vector elements mapping = map mapping elements"

lemma join_loop_append: "join_loop es d i r = r @ join_loop es d i []"
proof (induction es arbitrary: i r)
  case (Cons e es)
  from Cons.IH[of "Suc i" "(if i > 0 then r @ d else r) @ e"]
    Cons.IH[of "Suc i" "(if i > 0 then d else []) @ e"]
  show ?case by auto
qed simp

lemma join_loop_concat: "join_loop es d (Suc i) [] = concat (map (\<lambda>e. d @ e) es)"
proof (induction es arbitrary: i)
  case (Cons e es)
  then show ?case using join_loop_append[of es d "Suc (Suc i)" "d @ e"] by simp
qed simp

lemma join_Nil [simp]: "join [] d = []"
  by (simp add: join_def)

lemma join_Cons: "join (e # es) d = e @ concat (map (\<lambda>x. d @ x) es)"
  using join_loop_append[of es d "Suc 0" e] by (simp add: join_def join_loop_concat)

lemma join_snoc: "es \<noteq> [] \<Longrightarrow> join (es @ [e]) d = join es d @ d @ e"
  by (cases es) (auto simp: join_Cons)

section \<open>Splitting at a character\<close>

definition find_char :: "string \<Rightarrow> char \<Rightarrow> nat \<Rightarrow> nat option" where
  "find_char s c j = find_index_from (\<lambda>x. x = c) s j"

function split_loop :: "string \<Rightarrow> char \<Rightarrow> nat \<Rightarrow> nat option \<Rightarrow> string list \<Rightarrow> string list" where
  "split_loop s c i None result = result"
| "split_loop s c i (Some j) result =
     (let result1 = result @ [take (j - i) (drop i s)];
          i' = Suc j; j' = find_char s c (Suc j)
      in case j' of None \<Rightarrow> split_loop s c i' None (result1 @ [drop i' s])
                  | Some k \<Rightarrow> split_loop s c i' (Some k) result1)"
  by pat_completeness auto
termination
proof (relation "measure (\<lambda>(s, c, i, j, result). case j of None \<Rightarrow> 0 | Some j \<Rightarrow> Suc (length s - j))", goal_cases)
  case (3 s c i j result r1 i' j' k)
  then have "find_char s c (Suc j) = Some k" by simp
  then have "Suc j \<le> k \<and> k < length s"
    using find_index_from_Some by (fastforce simp: find_char_def)
  then show ?case by auto
qed auto

declare split_loop.simps(2) [simp del]

definition split :: "string \<Rightarrow> char \<Rightarrow> string list" where
  "split s c =
     (case find_char s c 0 of
        None \<Rightarrow> [s]
      | Some j \<Rightarrow> split_loop s c 0 (Some j) [])"

lemma find_char_None: "find_char s c j = None \<longleftrightarrow> c \<notin> set (drop j s)"
  by (auto simp: find_char_def find_index_from_None)

lemma find_char_Some:
  "find_char s c j = Some i \<Longrightarrow>
     j \<le> i \<and> i < length s \<and> s ! i = c \<and> c \<notin> set (take (i - j) (drop j s))"
  using find_index_from_Some[of "\<lambda>x. x = c" s j i] by (auto simp: find_char_def)

text \<open>
  The pieces a loop round adds hold no separator, and joining what has been pushed with the
  rest of the string gives the string back.
\<close>

lemma split_loop_spec:
  assumes "find_char s c i = Some j" "\<forall>p\<in>set r. c \<notin> set p"
    "(if r = [] then i = 0 else join r [c] @ [c] = take i s)"
  shows "join (split_loop s c i (Some j) r) [c] = s \<and> (\<forall>p\<in>set (split_loop s c i (Some j) r). c \<notin> set p)
    \<and> length (split_loop s c i (Some j) r) = length r + Suc (count_list (drop i s) c)"
  using assms
proof (induction s c i "Some j" r arbitrary: j rule: split_loop.induct)
  case (2 s c i j r)
  let ?p = "take (j - i) (drop i s)"
  note fc = find_char_Some[OF "2.prems"(1)]
  have pre: "join (r @ [?p]) [c] = take j s"
  proof (cases "r = []")
    case True
    with "2.prems"(3) show ?thesis by (simp add: join_Cons)
  next
    case False
    with "2.prems"(3) have j: "join r [c] @ [c] = take i s" by simp
    have "join (r @ [?p]) [c] = (join r [c] @ [c]) @ ?p" by (simp add: join_snoc[OF False])
    also have "\<dots> = take i s @ ?p" by (simp only: j)
    finally show ?thesis using fc by (metis le_add_diff_inverse take_add)
  qed
  have pre': "join (r @ [?p]) [c] @ [c] = take (Suc j) s"
    using pre fc by (simp add: take_Suc_conv_app_nth)
  have np: "\<forall>p\<in>set (r @ [?p]). c \<notin> set p" using "2.prems"(2) fc by auto
  have dec: "drop i s = ?p @ c # drop (Suc j) s"
    using fc take_drop_split[of i j s] Cons_nth_drop_Suc[of j s] by metis
  have "count_list (drop i s) c = count_list (?p @ c # drop (Suc j) s) c"
    using dec by (rule arg_cong)
  also have "\<dots> = Suc (count_list (drop (Suc j) s) c)"
    using fc by (simp add: count_list_append)
  finally have cnt: "count_list (drop i s) c = Suc (count_list (drop (Suc j) s) c)" .
  show ?case
  proof (cases "find_char s c (Suc j)")
    case None
    then have nin: "c \<notin> set (drop (Suc j) s)" by (simp add: find_char_None)
    have "join ((r @ [?p]) @ [drop (Suc j) s]) [c] = (join (r @ [?p]) [c] @ [c]) @ drop (Suc j) s"
      by (subst join_snoc) simp_all
    also have "\<dots> = s" by (simp only: pre' append_take_drop_id)
    finally show ?thesis using None np nin cnt by (simp add: split_loop.simps(2)[of s c i j r] Let_def)
  next
    case (Some k)
    have "join (split_loop s c (Suc j) (Some k) (r @ [?p])) [c] = s
      \<and> (\<forall>p\<in>set (split_loop s c (Suc j) (Some k) (r @ [?p])). c \<notin> set p)
      \<and> length (split_loop s c (Suc j) (Some k) (r @ [?p]))
        = length (r @ [?p]) + Suc (count_list (drop (Suc j) s) c)"
      using "2.hyps"[OF refl refl refl Some Some np] pre' by simp
    then show ?thesis using Some cnt by (simp add: split_loop.simps(2)[of s c i j r] Let_def)
  qed
qed

lemma split_spec:
  "join (split s c) [c] = s \<and> (\<forall>p\<in>set (split s c). c \<notin> set p)
   \<and> length (split s c) = Suc (count_list s c)"
proof (cases "find_char s c 0")
  case None
  then have "c \<notin> set s" by (simp add: find_char_None)
  with None show ?thesis by (simp add: split_def join_Cons)
next
  case (Some j)
  from split_loop_spec[OF this, of "[]"] Some show ?thesis by (simp add: split_def)
qed

section \<open>Splitting at any of several separators\<close>

text \<open>
  \<open>find_separator\<close> goes through the separators in order and keeps the leftmost position and,
  at one position, the longest separator; the second component is \<open>*separator_length\<close>.
\<close>

fun find_separator_loop ::
  "string \<Rightarrow> nat \<Rightarrow> string list \<Rightarrow> nat option \<Rightarrow> nat \<Rightarrow> nat option \<times> nat" where
  "find_separator_loop s start [] result separator_length = (result, separator_length)"
| "find_separator_loop s start (sep # seps) result separator_length =
     (if length sep = 0 then find_separator_loop s start seps result separator_length
      else case find_sub_from s sep start of
          None \<Rightarrow> find_separator_loop s start seps result separator_length
        | Some position \<Rightarrow>
            if result = None \<or> position \<le> the result then
              if result = Some position \<and> separator_length > length sep
              then find_separator_loop s start seps result separator_length
              else find_separator_loop s start seps (Some position) (length sep)
            else find_separator_loop s start seps result separator_length)"

definition find_separator :: "string \<Rightarrow> nat \<Rightarrow> string list \<Rightarrow> nat option \<times> nat" where
  "find_separator s start seps = find_separator_loop s start seps None 0"

definition sep_at :: "string \<Rightarrow> string \<Rightarrow> nat \<Rightarrow> bool" where
  "sep_at s sep k \<longleftrightarrow> sep \<noteq> [] \<and> take (length sep) (drop k s) = sep"

text \<open>The result over the separators seen so far: an occurrence, and the leftmost one.\<close>

definition sep_result :: "string \<Rightarrow> nat \<Rightarrow> string set \<Rightarrow> nat option \<Rightarrow> nat \<Rightarrow> bool" where
  "sep_result s start seps r l \<longleftrightarrow>
     (case r of
        None \<Rightarrow> \<forall>sep\<in>seps. \<forall>k\<ge>start. k \<le> length s \<longrightarrow> \<not> sep_at s sep k
      | Some i \<Rightarrow> start \<le> i \<and> i + l \<le> length s \<and> 0 < l
          \<and> (\<exists>sep\<in>seps. sep_at s sep i \<and> length sep = l)
          \<and> (\<forall>sep\<in>seps. \<forall>k. start \<le> k \<and> k < i \<longrightarrow> \<not> sep_at s sep k)
          \<and> (\<forall>sep\<in>seps. sep_at s sep i \<longrightarrow> length sep \<le> l))"

lemma sep_result_skip:
  assumes "sep_result s start S r l"
    "sep = [] \<or> (\<forall>k\<ge>start. k \<le> (case r of None \<Rightarrow> length s | Some i \<Rightarrow> i) \<longrightarrow> \<not> sep_at s sep k)
     \<or> (\<exists>i. r = Some i \<and> (\<forall>k. start \<le> k \<and> k < i \<longrightarrow> \<not> sep_at s sep k) \<and> length sep \<le> l)"
  shows "sep_result s start (insert sep S) r l"
  using assms by (auto simp: sep_result_def sep_at_def split: option.splits)

lemma sep_result_take:
  assumes "sep_result s start S r l" "sep \<noteq> []" "find_sub_from s sep start = Some p"
    "r = None \<or> p < the r \<or> p = the r \<and> l \<le> length sep"
  shows "sep_result s start (insert sep S) (Some p) (length sep)"
proof (cases r)
  case None
  with assms find_sub_from_Some[OF assms(3)] show ?thesis
    by (auto simp: sep_result_def sep_at_def)
next
  case (Some i)
  with assms find_sub_from_Some[OF assms(3)] show ?thesis
    by (auto simp: sep_result_def sep_at_def)
qed

lemma find_separator_loop_spec:
  "sep_result s start S r l \<Longrightarrow> start \<le> length s \<Longrightarrow>
   find_separator_loop s start seps r l = (r', l') \<Longrightarrow> sep_result s start (S \<union> set seps) r' l'"
proof (induction seps arbitrary: S r l)
  case (Cons sep seps)
  show ?case
  proof (cases "sep \<noteq> [] \<and> (\<exists>p. find_sub_from s sep start = Some p \<and>
      (r = None \<or> p < the r \<or> p = the r \<and> l \<le> length sep))")
    case True
    then obtain p where p: "sep \<noteq> []" "find_sub_from s sep start = Some p"
      "r = None \<or> p < the r \<or> p = the r \<and> l \<le> length sep" by auto
    then have "find_separator_loop s start seps (Some p) (length sep) = (r', l')"
      using Cons.prems(3) by (cases r) auto
    from Cons.IH[OF sep_result_take[OF Cons.prems(1) p] Cons.prems(2) this] show ?thesis by simp
  next
    case False
    then have e: "find_separator_loop s start seps r l = (r', l')"
      using Cons.prems(3) by (cases r) (auto split: option.splits if_splits)
    have "sep_result s start (insert sep S) r l"
    proof (rule sep_result_skip[OF Cons.prems(1)])
      show "sep = [] \<or> (\<forall>k\<ge>start. k \<le> (case r of None \<Rightarrow> length s | Some i \<Rightarrow> i) \<longrightarrow> \<not> sep_at s sep k)
        \<or> (\<exists>i. r = Some i \<and> (\<forall>k. start \<le> k \<and> k < i \<longrightarrow> \<not> sep_at s sep k) \<and> length sep \<le> l)"
      proof (cases "find_sub_from s sep start")
        case None
        note n = find_sub_from_None[OF None]
        have "\<not> sep_at s sep k" if "start \<le> k" "k \<le> length s" for k
          using n[OF that] by (simp add: sep_at_def)
        moreover have "i \<le> length s" if "r = Some i" for i
          using Cons.prems(1) that by (auto simp: sep_result_def)
        ultimately show ?thesis by (auto split: option.splits)
      next
        case (Some p)
        with False show ?thesis using find_sub_from_Some[OF Some]
          by (cases r) (auto simp: sep_at_def)
      qed
    qed
    from Cons.IH[OF this Cons.prems(2) e] show ?thesis by simp
  qed
qed simp

lemma find_separator_spec:
  "start \<le> length s \<Longrightarrow> find_separator s start seps = (r, l) \<Longrightarrow> sep_result s start (set seps) r l"
  using find_separator_loop_spec[of s start "{}" None 0 seps r l]
  by (simp add: find_separator_def sep_result_def)

function split_seps_loop ::
  "string \<Rightarrow> string list \<Rightarrow> nat \<Rightarrow> nat option \<Rightarrow> nat \<Rightarrow> string list \<Rightarrow> nat \<times> string list" where
  "split_seps_loop s seps start_token None separator_length result = (start_token, result)"
| "split_seps_loop s seps start_token (Some position) separator_length result =
     (let token = take (position - start_token) (drop start_token s);
          result1 = (if length token > 0 then result @ [token] else result);
          start1 = position + separator_length
      in if separator_length = 0 \<or> start1 > length s then (start1, result1) else
         case find_separator s start1 seps of
           (position1, length1) \<Rightarrow> split_seps_loop s seps start1 position1 length1 result1)"
  by pat_completeness auto
termination
proof (relation "measure (\<lambda>(s, seps, i, p, l, r). case p of None \<Rightarrow> 0 | Some j \<Rightarrow> Suc (length s - j))", goal_cases)
  case (2 s seps i p l r token result1 start1 p1 l1)
  then have "sep_result s start1 (set seps) p1 l1" by (auto intro: find_separator_spec)
  with 2 show ?case by (cases p1) (auto simp: sep_result_def)
qed auto

definition split_seps :: "string \<Rightarrow> string list \<Rightarrow> string list" where
  "split_seps s seps =
     (case find_separator s 0 seps of
        (None, l) \<Rightarrow> [s]
      | (Some p, l) \<Rightarrow>
          (case split_seps_loop s seps 0 (Some p) l [] of
             (start, result) \<Rightarrow>
               let token = drop start s
               in if length token > 0 then result @ [token] else result))"

lemma split_seps_loop_token:
  assumes "sep_result s st (set seps) (Some p) l" "sep \<in> set seps" "sep \<noteq> []"
  shows "\<not> sublist sep (take (p - st) (drop st s))"
proof
  assume "sublist sep (take (p - st) (drop st s))"
  then obtain ps ss where e: "take (p - st) (drop st s) = ps @ sep @ ss"
    by (auto simp: sublist_def)
  have p: "st \<le> p" "p \<le> length s" using assms(1) by (auto simp: sep_result_def)
  have "length (take (p - st) (drop st s)) = p - st" using p by simp
  then have len: "length ps + length sep \<le> p - st" using e by simp
  have "drop (length ps) (drop st s) = drop (length ps) (take (p - st) (drop st s) @ drop p s)"
    using take_drop_split[OF p(1)] by metis
  also have "\<dots> = sep @ ss @ drop p s" by (simp add: e)
  finally have "sep_at s sep (st + length ps)"
    using assms(3) by (simp add: sep_at_def add.commute)
  moreover have "st \<le> st + length ps \<and> st + length ps < p"
    using len assms(3) p(1) by (cases sep) auto
  ultimately show False using assms(1,2) by (auto simp: sep_result_def)
qed

definition token_ok :: "string list \<Rightarrow> string \<Rightarrow> bool" where
  "token_ok seps t \<longleftrightarrow> t \<noteq> [] \<and> (\<forall>sep\<in>set seps. sep \<noteq> [] \<longrightarrow> \<not> sublist sep t)"

lemma split_seps_loop_spec:
  assumes "sep_result s st (set seps) p l" "\<forall>t\<in>set r. token_ok seps t" "st \<le> length s"
    "split_seps_loop s seps st p l r = (st', r')"
  shows "(\<forall>t\<in>set r'. token_ok seps t) \<and> st' \<le> length s \<and> sep_result s st' (set seps) None 0"
  using assms
proof (induction s seps st p l r arbitrary: st' r' rule: split_seps_loop.induct)
  case (1 s seps st l r)
  then show ?case by (simp add: sep_result_def)
next
  case (2 s seps st p l r)
  let ?t = "take (p - st) (drop st s)"
  let ?r = "if length ?t > 0 then r @ [?t] else r"
  have l: "\<not> (l = 0 \<or> p + l > length s)" using "2.prems"(1) by (auto simp: sep_result_def)
  obtain p1 l1 where n: "find_separator s (p + l) seps = (p1, l1)" by fastforce
  have ok: "\<forall>t\<in>set ?r. token_ok seps t"
    using "2.prems"(2) split_seps_loop_token[OF "2.prems"(1)] by (auto simp: token_ok_def)
  have sr: "sep_result s (p + l) (set seps) p1 l1"
    using find_separator_spec[OF _ n] l by simp
  have "split_seps_loop s seps (p + l) p1 l1 ?r = (st', r')"
    using "2.prems"(4) l n by (auto simp: Let_def not_le split: if_splits)
  from "2.IH"[OF refl refl refl l n[symmetric] sr ok _ this] l show ?case by simp
qed

lemma split_seps_spec:
  "split_seps s seps = [s] \<and> (\<forall>sep\<in>set seps. sep \<noteq> [] \<longrightarrow> \<not> sublist sep s)
   \<or> (\<forall>t\<in>set (split_seps s seps). token_ok seps t)"
proof -
  obtain p l where f: "find_separator s 0 seps = (p, l)" by fastforce
  have sr: "sep_result s 0 (set seps) p l" using find_separator_spec[OF _ f] by simp
  have none: "\<not> sublist sep (drop st s)"
    if "sep_result s st (set seps) None 0" "sep \<in> set seps" "sep \<noteq> []" "st \<le> length s" for st sep
  proof
    assume "sublist sep (drop st s)"
    then obtain ps ss where e: "drop st s = ps @ sep @ ss" by (auto simp: sublist_def)
    have "drop (length ps) (drop st s) = sep @ ss" by (simp add: e)
    then have "sep_at s sep (st + length ps)" using that(3) by (simp add: sep_at_def add.commute)
    moreover have "length (drop st s) = length (ps @ sep @ ss)" by (simp only: e)
    then have "st + length ps \<le> length s" using that(4) by simp
    ultimately show False using that(1,2) by (auto simp: sep_result_def)
  qed
  show ?thesis
  proof (cases p)
    case None
    with sr have "sep_result s 0 (set seps) None 0" by (simp add: sep_result_def)
    from none[OF this] f None show ?thesis by (simp add: split_seps_def)
  next
    case (Some q)
    obtain st r where lp: "split_seps_loop s seps 0 (Some q) l [] = (st, r)" by fastforce
    have sp: "(\<forall>t\<in>set r. token_ok seps t) \<and> st \<le> length s \<and> sep_result s st (set seps) None 0"
      using split_seps_loop_spec[OF sr[unfolded Some] _ _ lp] by simp
    then have "drop st s \<noteq> [] \<Longrightarrow> token_ok seps (drop st s)"
      using none by (auto simp: token_ok_def)
    with sp f Some lp show ?thesis by (auto simp: split_seps_def Let_def)
  qed
qed

section \<open>Replacing every occurrence\<close>

text \<open>
  The loop of \<open>replace_all\<close> finds the next occurrence from \<open>pos\<close>, replaces it and continues
  after the replacement. With an empty search string every position is an occurrence and the
  loop never ends: \<open>None\<close>.
\<close>

partial_function (option) replace_all_loop ::
  "string \<Rightarrow> string \<Rightarrow> string \<Rightarrow> nat \<Rightarrow> string option" where
  "replace_all_loop subject search replace pos =
     (case find_sub_from subject search pos of
        None \<Rightarrow> Some subject
      | Some p \<Rightarrow>
          replace_all_loop (take p subject @ replace @ drop (p + length search) subject)
            search replace (p + length replace))"

definition replace_all :: "string \<Rightarrow> string \<Rightarrow> string \<Rightarrow> string option" where
  "replace_all subject search replace = replace_all_loop subject search replace 0"

text \<open>The specification: read the string once from left to right.\<close>

function replace_spec :: "string \<Rightarrow> string \<Rightarrow> string \<Rightarrow> string" where
  "replace_spec search replace s =
     (if s = [] \<or> search = [] then s
      else if take (length search) s = search
        then replace @ replace_spec search replace (drop (length search) s)
        else hd s # replace_spec search replace (tl s))"
  by pat_completeness auto
termination
  by (relation "measure (\<lambda>(search, replace, s). length s)") (auto simp: length_greater_0_conv[symmetric] simp del: length_greater_0_conv)

declare replace_spec.simps [simp del]

lemma replace_spec_None:
  "find_sub s t = None \<Longrightarrow> replace_spec t r s = s"
proof (induction s)
  case (Cons x s)
  then show ?case by (auto simp: replace_spec.simps[of t r "x # s"] split: if_splits)
qed (simp add: replace_spec.simps)

lemma replace_spec_Some:
  "find_sub s t = Some p \<Longrightarrow> t \<noteq> [] \<Longrightarrow>
   replace_spec t r s = take p s @ r @ replace_spec t r (drop (p + length t) s)"
proof (induction s arbitrary: p)
  case (Cons x s)
  then show ?case by (auto simp: replace_spec.simps[of t r "x # s"] split: if_splits)
qed simp

lemma find_sub_from_append: "find_sub_from (a @ s) t (length a) = map_option ((+) (length a)) (find_sub s t)"
  by (simp add: find_sub_from_def)

lemma replace_all_loop_spec:
  assumes "search \<noteq> []"
  shows "replace_all_loop (a @ s) search replace (length a) = Some (a @ replace_spec search replace s)"
proof (induction "length s" arbitrary: a s rule: less_induct)
  case less
  show ?case
  proof (cases "find_sub s search")
    case None
    then show ?thesis
      by (simp add: replace_all_loop.simps find_sub_from_append replace_spec_None)
  next
    case (Some p)
    let ?a = "a @ take p s @ replace" and ?s = "drop (p + length search) s"
    note f = find_sub_Some[OF Some]
    have "length ?s < length s" using f assms by (cases search) auto
    from less[OF this, of ?a] f
    have "replace_all_loop (?a @ ?s) search replace (length a + p + length replace)
        = Some (?a @ replace_spec search replace ?s)" by (simp add: add.assoc)
    then show ?thesis using Some f
      by (simp add: replace_all_loop.simps[of "a @ s"] find_sub_from_append
          replace_spec_Some[OF Some assms])
  qed
qed

lemma replace_all_eq_spec:
  "search \<noteq> [] \<Longrightarrow> replace_all s search replace = Some (replace_spec search replace s)"
  using replace_all_loop_spec[of search "[]" s replace] by (simp add: replace_all_def)

lemma replace_all_loop_diverges:
  assumes "replace_all_loop s search replace pos = Some r"
  shows "search = [] \<longrightarrow> length s < pos"
proof (rule replace_all_loop.raw_induct[where P = "\<lambda>s search replace pos r. search = [] \<longrightarrow> length s < pos", OF _ assms])
  fix f s search replace pos r
  assume IH: "\<And>s search replace pos r. f s search replace pos = Some r \<Longrightarrow> search = [] \<longrightarrow> length s < pos"
    and eq: "(case find_sub_from s search pos of None \<Rightarrow> Some s
       | Some p \<Rightarrow> f (take p s @ replace @ drop (p + length search) s) search replace (p + length replace)) = Some r"
  show "search = [] \<longrightarrow> length s < pos"
  proof (rule impI, rule ccontr)
    assume e: "search = []" and "\<not> length s < pos"
    then have le: "pos \<le> length s" by simp
    then have "find_sub_from s [] pos = Some pos"
      by (cases "drop pos s") (auto simp: find_sub_from_def)
    with eq e have "f (take pos s @ replace @ drop pos s) [] replace (pos + length replace) = Some r"
      by simp
    from IH[OF this] le show False by simp
  qed
qed

lemma replace_all_empty_search: "replace_all s [] replace = None"
  using replace_all_loop_diverges[of s "[]" replace 0] by (cases "replace_all s [] replace") (auto simp: replace_all_def)

section \<open>Trimming\<close>

definition find_first_not_of :: "string \<Rightarrow> string \<Rightarrow> nat option" where
  "find_first_not_of s ws = find_index (\<lambda>c. c \<notin> set ws) s"

definition find_last_not_of :: "string \<Rightarrow> string \<Rightarrow> nat option" where
  "find_last_not_of s ws = map_option (\<lambda>i. length s - 1 - i) (find_index (\<lambda>c. c \<notin> set ws) (rev s))"

definition trim :: "string \<Rightarrow> string \<Rightarrow> string" where
  "trim s whitespace =
     (case (find_first_not_of s whitespace, find_last_not_of s whitespace) of
        (Some start_pos, Some end_pos) \<Rightarrow> take (end_pos - start_pos + 1) (drop start_pos s)
      | _ \<Rightarrow> [])"

lemma dropWhile_takeWhile_drop: "dropWhile p xs = drop (length (takeWhile p xs)) xs"
  by (induction xs) auto

lemma trim_spec:
  "trim s ws = rev (dropWhile (\<lambda>c. c \<in> set ws) (rev (dropWhile (\<lambda>c. c \<in> set ws) s)))"
proof (cases "\<exists>c\<in>set s. c \<notin> set ws")
  case False
  then have d: "dropWhile (\<lambda>c. c \<in> set ws) s = []" by (simp add: dropWhile_eq_Nil_conv)
  from False have "trim s ws = []"
    by (auto simp: trim_def find_first_not_of_def find_index_eq_takeWhile)
  then show ?thesis by (simp only: d rev.simps dropWhile.simps)
next
  case True
  let ?P = "\<lambda>c. c \<in> set ws"
  obtain a x b where x: "s = a @ x # b" "\<forall>c\<in>set a. ?P c" "\<not> ?P x"
    using True split_list_first_prop[of s "\<lambda>c. \<not> ?P c"] by blast
  obtain b' y c where y: "x # b = b' @ y # c" "\<forall>c\<in>set c. ?P c" "\<not> ?P y"
    using x(3) split_list_last_prop[of "x # b" "\<lambda>c. \<not> ?P c"] by fastforce
  have "dropWhile ?P s = x # b" using x by (simp add: dropWhile_append)
  then have d: "dropWhile ?P s = b' @ [y] @ c" using y(1) by simp
  have r: "rev s = rev c @ y # rev b' @ rev a" using x(1) y(1) by simp
  have f: "find_first_not_of s ws = Some (length a)"
    using x by (auto simp: find_first_not_of_def find_index_eq_takeWhile takeWhile_append)
  have l: "find_last_not_of s ws = Some (length a + length b')"
    using r y x(1) by (auto simp: find_last_not_of_def find_index_eq_takeWhile takeWhile_append)
  have "drop (length a) s = b' @ [y] @ c" using x(1) y(1) by simp
  with f l have "trim s ws = b' @ [y]" by (simp add: trim_def)
  moreover have "rev (dropWhile ?P (rev (b' @ [y] @ c))) = b' @ [y]"
    using y by (simp add: dropWhile_append)
  ultimately show ?thesis by (simp add: d)
qed

section \<open>UTF-8\<close>

text \<open>
  \<open>in_bounds\<close> and \<open>valid_extra_bytes\<close> are the lambdas of \<open>filter_utf8\<close>; the loop variable \<open>i\<close>
  advances by one plus the extra bytes of a character that is kept, and by one where a byte
  is dropped.
\<close>

definition in_bounds :: "string \<Rightarrow> nat \<Rightarrow> nat \<Rightarrow> nat \<Rightarrow> bool" where
  "in_bounds str pos lower upper \<longleftrightarrow>
     pos < length str \<and> lower \<le> byte_of (str ! pos) \<and> byte_of (str ! pos) \<le> upper"

definition valid_extra_bytes :: "string \<Rightarrow> nat \<Rightarrow> nat \<Rightarrow> bool" where
  "valid_extra_bytes str pos extra \<longleftrightarrow> list_all (\<lambda>i. in_bounds str (pos + 1 + i) 128 191) [0..<extra]"

definition num_extra_bytes :: "string \<Rightarrow> nat \<Rightarrow> nat option" where
  "num_extra_bytes str i =
     (if in_bounds str i 0 127 then Some 0
      else if in_bounds str i 192 223 then Some 1
      else if in_bounds str i 224 239 then Some 2
      else if in_bounds str i 240 247 then Some 3
      else None)"

function filter_utf8_loop :: "string \<Rightarrow> nat \<Rightarrow> string \<Rightarrow> string" where
  "filter_utf8_loop str i output =
     (if i < length str then
        (case num_extra_bytes str i of
           None \<Rightarrow> filter_utf8_loop str (Suc i) output
         | Some n \<Rightarrow>
             (if valid_extra_bytes str i n
              then filter_utf8_loop str (Suc (i + n)) (output @ take (1 + n) (drop i str))
              else filter_utf8_loop str (Suc i) output))
      else output)"
  by pat_completeness auto
termination
  by (relation "measure (\<lambda>(str, i, output). length str - i)") auto

declare filter_utf8_loop.simps [simp del]

definition filter_utf8 :: "string \<Rightarrow> string" where
  "filter_utf8 str = filter_utf8_loop str 0 []"

definition truncate_utf8 :: "string \<Rightarrow> nat \<Rightarrow> string" where
  "truncate_utf8 str len =
     (let str1 = filter_utf8 str;
          str2 = (if length str1 > len then take len str1 else str1)
      in filter_utf8 str2)"

text \<open>What the filter promises: its result is a sequence of whole characters.\<close>

definition lead :: "char \<Rightarrow> nat option" where
  "lead c = (let b = byte_of c in
     if b \<le> 127 then Some 0 else if b < 192 then None else if b \<le> 223 then Some 1
     else if b \<le> 239 then Some 2 else if b \<le> 247 then Some 3 else None)"

definition cont :: "char \<Rightarrow> bool" where
  "cont c \<longleftrightarrow> 128 \<le> byte_of c \<and> byte_of c \<le> 191"

inductive utf8_wf :: "string \<Rightarrow> bool" where
  utf8_Nil: "utf8_wf []"
| utf8_char: "lead c = Some (length bs) \<Longrightarrow> list_all cont bs \<Longrightarrow> utf8_wf r \<Longrightarrow> utf8_wf (c # bs @ r)"

text \<open>The filter read off the remaining string instead of a position.\<close>

function utf8_rest :: "string \<Rightarrow> string" where
  "utf8_rest [] = []"
| "utf8_rest (c # cs) =
     (case lead c of
        None \<Rightarrow> utf8_rest cs
      | Some n \<Rightarrow> if n \<le> length cs \<and> list_all cont (take n cs)
                  then c # take n cs @ utf8_rest (drop n cs) else utf8_rest cs)"
  by pat_completeness auto
termination
  by (relation "measure length") auto

lemma num_extra_bytes_lead: "i < length str \<Longrightarrow> num_extra_bytes str i = lead (str ! i)"
  by (auto simp: num_extra_bytes_def in_bounds_def lead_def Let_def)

lemma valid_extra_bytes_all:
  "valid_extra_bytes str i n \<longleftrightarrow> (\<forall>k<n. Suc (i + k) < length str \<and> cont (str ! Suc (i + k)))"
  by (auto simp: valid_extra_bytes_def list_all_iff in_bounds_def cont_def)

lemma valid_extra_bytes_cont:
  assumes "i < length str"
  shows "valid_extra_bytes str i n \<longleftrightarrow>
     n \<le> length (drop (Suc i) str) \<and> list_all cont (take n (drop (Suc i) str))"
proof (cases "n \<le> length (drop (Suc i) str)")
  case True
  then show ?thesis by (auto simp: valid_extra_bytes_all list_all_length)
next
  case False
  then have "length str - Suc i < n" by simp
  with assms False show ?thesis
    by (auto simp: valid_extra_bytes_all intro!: exI[of _ "length str - Suc i"])
qed

lemma filter_utf8_loop_rest: "filter_utf8_loop str i out = out @ utf8_rest (drop i str)"
proof (induction str i out rule: filter_utf8_loop.induct)
  case (1 str i out)
  show ?case
  proof (cases "i < length str")
    case True
    then have d: "drop i str = str ! i # drop (Suc i) str" by (simp add: Cons_nth_drop_Suc)
    show ?thesis
    proof (cases "num_extra_bytes str i")
      case None
      with 1 True d num_extra_bytes_lead[OF True] show ?thesis
        by (simp add: filter_utf8_loop.simps[of str i out])
    next
      case (Some n)
      have "drop (Suc (i + n)) str = drop n (drop (Suc i) str)" by (simp add: add.commute)
      with Some 1 True d num_extra_bytes_lead[OF True] valid_extra_bytes_cont[OF True, of n]
      show ?thesis by (simp add: filter_utf8_loop.simps[of str i out])
    qed
  next
    case False
    then show ?thesis by (simp add: filter_utf8_loop.simps[of str i out])
  qed
qed

lemma filter_utf8_eq_rest: "filter_utf8 s = utf8_rest s"
  by (simp add: filter_utf8_def filter_utf8_loop_rest)

lemma utf8_rest_wf: "utf8_wf (utf8_rest s)"
proof (induction s rule: utf8_rest.induct)
  case 1
  show ?case by (simp add: utf8_Nil)
next
  case (2 c cs)
  then show ?case
    by (auto split: option.splits intro: utf8_char)
qed

lemma utf8_rest_of_wf: "utf8_wf s \<Longrightarrow> utf8_rest s = s"
  by (induction s rule: utf8_wf.induct) auto

lemma length_utf8_rest: "length (utf8_rest s) \<le> length s"
proof (induction s rule: utf8_rest.induct)
  case (2 c cs)
  then show ?case by (auto split: option.splits)
qed simp

lemma lead_bound: "lead c = Some n \<Longrightarrow> n \<le> 3"
  by (auto simp: lead_def Let_def split: if_splits)

lemma utf8_rest_conts: "list_all cont bs \<Longrightarrow> utf8_rest bs = []"
  by (induction bs) (auto simp: lead_def cont_def Let_def)

lemma utf8_rest_take:
  "utf8_wf w \<Longrightarrow>
   \<exists>k. utf8_rest (take n w) = take k w \<and> k \<le> n \<and> k \<le> length w \<and> (n \<le> length w \<longrightarrow> n < k + 4)"
proof (induction w arbitrary: n rule: utf8_wf.induct)
  case utf8_Nil
  show ?case by simp
next
  case (utf8_char c bs r)
  show ?case
  proof (cases "n \<le> length bs")
    case True
    have "utf8_rest (take n (c # bs @ r)) = []"
    proof (cases n)
      case (Suc m)
      have "list_all cont (take m bs)" using utf8_char.hyps(2) by (auto simp: list_all_iff dest: in_set_takeD)
      from utf8_rest_conts[OF this] Suc True utf8_char.hyps(1) show ?thesis by auto
    qed simp
    with True lead_bound[OF utf8_char.hyps(1)] show ?thesis
      by (intro exI[of _ 0]) auto
  next
    case False
    then obtain m where m: "n = Suc (length bs + m)"
      by (metis less_natE not_le add_Suc_right)
    obtain k where k: "utf8_rest (take m r) = take k r" "k \<le> m" "k \<le> length r"
      "m \<le> length r \<longrightarrow> m < k + 4" using utf8_char.IH by blast
    have "utf8_rest (take n (c # bs @ r)) = c # bs @ utf8_rest (take m r)"
      using m utf8_char.hyps by simp
    with k m show ?thesis
      by (intro exI[of _ "Suc (length bs + k)"]) auto
  qed
qed

lemma truncate_utf8_spec:
  "\<exists>k. truncate_utf8 s n = take k (filter_utf8 s) \<and> k \<le> n
     \<and> (n < length (filter_utf8 s) \<longrightarrow> n < k + 4) \<and> (length (filter_utf8 s) \<le> n \<longrightarrow> truncate_utf8 s n = filter_utf8 s)"
proof (cases "n < length (filter_utf8 s)")
  case True
  with utf8_rest_take[OF utf8_rest_wf, of n s] show ?thesis
    by (auto simp: truncate_utf8_def Let_def filter_utf8_eq_rest)
next
  case False
  then have "truncate_utf8 s n = filter_utf8 s"
    by (simp add: truncate_utf8_def Let_def filter_utf8_eq_rest utf8_rest_of_wf utf8_rest_wf)
  with False show ?thesis by (intro exI[of _ n]) auto
qed

end
