(* ===== verification/Codec.thy ===== *)
theory Codec imports StringUtil begin

text \<open>
  The encoders and number parsers of the support library and the DTLS connector:
  \<open>Encoding::hex_encode\<close> (\<open>crypto/Encoding.cpp\<close>), \<open>HexToBytes\<close> (\<open>stream/DtlsConnector.cpp\<close>),
  \<open>URLEncoder::url_encode\<close> (\<open>network/http/util/URLEncoder.cpp\<close>) and the \<open>to_int32\<close> family of
  \<open>util/IntegerUtil.cpp\<close>.
\<close>

section \<open>Hexadecimal\<close>

definition hex_char :: "nat \<Rightarrow> char" where
  "hex_char j = (if j \<le> 9 then chr (j + 48) else chr (j + 97 - 10))"

fun hex_encode :: "string \<Rightarrow> string" where
  "hex_encode [] = []"
| "hex_encode (c # data) =
     hex_char ((byte_of c div 16) mod 16) # hex_char (byte_of c mod 16) # hex_encode data"

definition hex_byte :: "string \<Rightarrow> nat" where
  "hex_byte byteString = nat (fst (strtoll 16 (c_str byteString)) mod 256)"

text \<open>The loop advances by two characters; the last piece may be one character long.\<close>

function HexToBytes_loop :: "string \<Rightarrow> nat \<Rightarrow> nat list \<Rightarrow> nat list" where
  "HexToBytes_loop hex i bytes =
     (if i < length hex then HexToBytes_loop hex (i + 2) (bytes @ [hex_byte (take 2 (drop i hex))])
      else bytes)"
  by pat_completeness auto
termination
  by (relation "measure (\<lambda>(hex, i, bytes). length hex - i)") auto

declare HexToBytes_loop.simps [simp del]

definition HexToBytes :: "string \<Rightarrow> nat list" where
  "HexToBytes hex = HexToBytes_loop hex 0 []"

lemma hex_char_props:
  assumes "j < 16"
  shows "digit_val (hex_char j) = Some j \<and> \<not> isspace (hex_char j) \<and> hex_char j \<noteq> CHR ''-''
    \<and> hex_char j \<noteq> CHR ''+'' \<and> hex_char j \<noteq> CHR ''x'' \<and> hex_char j \<noteq> CHR ''X'' \<and> byte_of (hex_char j) \<noteq> 0"
proof -
  have b: "byte_of (hex_char j) = (if j \<le> 9 then j + 48 else j + 87)"
    using assms by (simp add: hex_char_def)
  have "byte_of CHR ''-'' = 45" "byte_of CHR ''+'' = 43" "byte_of CHR ''x'' = 120" "byte_of CHR ''X'' = 88"
    by (simp_all add: byte_of_def)
  then have "hex_char j \<noteq> CHR ''-'' \<and> hex_char j \<noteq> CHR ''+'' \<and> hex_char j \<noteq> CHR ''x'' \<and> hex_char j \<noteq> CHR ''X''"
    using b assms by (auto split: if_splits)
  with b assms show ?thesis
    by (auto simp: digit_val_def isdigit_def islower_def isupper_def isspace_def)
qed

lemma hex_byte_pair: "h < 16 \<Longrightarrow> l < 16 \<Longrightarrow> hex_byte [hex_char h, hex_char l] = 16 * h + l"
  using hex_char_props[of h] hex_char_props[of l]
  by (simp add: hex_byte_def c_str_def strtoll_def strtol_parse_def sign_of_def base_and_skip_def
      has_hex_prefix_def digit_in_def digits_value_def signed_val_def clamp64_def int_limits)

lemma HexToBytes_loop_encode:
  "HexToBytes_loop (hex_encode d1 @ hex_encode d2) (length (hex_encode d1)) out = out @ map byte_of d2"
proof (induction d2 arbitrary: d1 out)
  case Nil
  show ?case by (simp add: HexToBytes_loop.simps)
next
  case (Cons c d2)
  have app: "hex_encode (d1 @ [c]) = hex_encode d1 @ hex_encode [c]" by (induction d1) auto
  have "byte_of c div 16 < 16" using byte_of_less[of c] by (simp add: less_mult_imp_div_less)
  then have hb: "hex_byte (hex_encode [c]) = byte_of c"
    by (simp add: hex_byte_pair)
  have "HexToBytes_loop (hex_encode d1 @ hex_encode (c # d2)) (length (hex_encode d1)) out
      = HexToBytes_loop (hex_encode (d1 @ [c]) @ hex_encode d2) (length (hex_encode (d1 @ [c])))
          (out @ [hex_byte (hex_encode [c])])"
    by (subst HexToBytes_loop.simps) (simp add: app numeral_2_eq_2)
  also have "\<dots> = (out @ [byte_of c]) @ map byte_of d2"
    using Cons.IH[of "d1 @ [c]"] hb by simp
  finally show ?case by simp
qed

lemma HexToBytes_hex_encode: "HexToBytes (hex_encode d) = map byte_of d"
  using HexToBytes_loop_encode[of "[]" d "[]"] by (simp add: HexToBytes_def)

lemma length_HexToBytes_loop:
  "i \<le> length hex \<Longrightarrow> length (HexToBytes_loop hex i out) = length out + (length hex - i + 1) div 2"
proof (induction hex i out rule: HexToBytes_loop.induct)
  case (1 hex i out)
  show ?case
  proof (cases "i < length hex")
    case True
    show ?thesis
    proof (cases "i + 2 \<le> length hex")
      case True
      with \<open>i < length hex\<close> 1 show ?thesis by (simp add: HexToBytes_loop.simps[of hex i])
    next
      case False
      with True have "length hex = Suc i" by simp
      then show ?thesis by (simp add: HexToBytes_loop.simps)
    qed
  qed (use "1.prems" in \<open>simp add: HexToBytes_loop.simps\<close>)
qed

section \<open>Percent encoding\<close>

definition unreserved :: "char \<Rightarrow> bool" where
  "unreserved c \<longleftrightarrow> isalnum c \<or> c = CHR ''-'' \<or> c = CHR ''_'' \<or> c = CHR ''.'' \<or> c = CHR ''~''"

text \<open>\<open>std::hex\<close>, \<open>setfill('0')\<close> and \<open>setw(2)\<close>: two lower-case digits for a byte.\<close>

fun url_encode :: "string \<Rightarrow> string" where
  "url_encode [] = []"
| "url_encode (c # value) =
     (if unreserved c then c # url_encode value
      else CHR ''%'' # hex_char (byte_of c div 16) # hex_char (byte_of c mod 16) # url_encode value)"

text \<open>The inverse a receiver applies (RFC 3986, section 2.1): the specification of the encoder.\<close>

fun url_decode :: "string \<Rightarrow> string option" where
  "url_decode [] = Some []"
| "url_decode (c # s) =
     (if c = CHR ''%'' then
        (case s of h # l # r \<Rightarrow>
           (case (digit_val h, digit_val l) of
              (Some a, Some b) \<Rightarrow> map_option ((#) (chr (16 * a + b))) (url_decode r)
            | _ \<Rightarrow> None)
         | _ \<Rightarrow> None)
      else map_option ((#) c) (url_decode s))"

lemma unreserved_not_percent: "unreserved c \<Longrightarrow> c \<noteq> CHR ''%''"
  by (auto simp: unreserved_def char_class_defs byte_of_def)

lemma url_decode_encode: "url_decode (url_encode s) = Some s"
proof (induction s)
  case (Cons c s)
  have b: "byte_of c div 16 < 16" "byte_of c mod 16 < 16"
    using byte_of_less[of c] by (simp_all add: less_mult_imp_div_less)
  have "16 * (byte_of c div 16) + byte_of c mod 16 = byte_of c" by simp
  with Cons b hex_char_props[OF b(1)] hex_char_props[OF b(2)] unreserved_not_percent[of c]
  show ?case by simp
qed simp

lemma hex_char_isalnum: "j < 16 \<Longrightarrow> isalnum (hex_char j)"
  by (simp add: hex_char_def char_class_defs)

lemma url_encode_safe: "c \<in> set (url_encode s) \<Longrightarrow> unreserved c \<or> c = CHR ''%''"
proof (induction s)
  case (Cons d s)
  have b: "byte_of d div 16 < 16" "byte_of d mod 16 < 16"
    using byte_of_less[of d] by (simp_all add: less_mult_imp_div_less)
  with Cons hex_char_isalnum[OF b(1)] hex_char_isalnum[OF b(2)] show ?case
    by (auto simp: unreserved_def split: if_splits)
qed simp

section \<open>Checked integer conversion\<close>

datatype IntegerConversionResult = INTEGER_OK | NO_INTEGER | NOT_ALL | OUT_OF_RANGE

text \<open>
  A null pointer is \<open>None\<close>; the second component of the result is what is written to
  \<open>*result\<close>, \<open>None\<close> when the call leaves it unchanged. \<open>static_cast\<close> to the type with the limits
  \<open>lo\<close> and \<open>hi\<close> wraps around.
\<close>

definition cast_to :: "int \<Rightarrow> int \<Rightarrow> int \<Rightarrow> int" where
  "cast_to lo hi i = (i - lo) mod (hi - lo + 1) + lo"

definition to_integer ::
  "int \<Rightarrow> int \<Rightarrow> string option \<Rightarrow> IntegerConversionResult \<times> int option" where
  "to_integer lo hi value =
     (case value of
        None \<Rightarrow> (NO_INTEGER, None)
      | Some s \<Rightarrow>
          (let (integer_value, erange, n) = strtoll 0 s in
           if n = 0 then (NO_INTEGER, None)
           else if n \<noteq> length s then (NOT_ALL, Some (cast_to lo hi (int n)))
           else if erange \<or> integer_value < lo \<or> integer_value > hi then (OUT_OF_RANGE, None)
           else (INTEGER_OK, Some (cast_to lo hi integer_value))))"

definition to_unsigned_integer ::
  "int \<Rightarrow> string option \<Rightarrow> IntegerConversionResult \<times> int option" where
  "to_unsigned_integer hi value =
     (case value of
        None \<Rightarrow> (NO_INTEGER, None)
      | Some s \<Rightarrow>
          if s \<noteq> [] \<and> hd s = CHR ''-'' then (OUT_OF_RANGE, None)
          else
          (let (integer_value, erange, n) = strtoull 0 s in
           if n = 0 then (NO_INTEGER, None)
           else if n \<noteq> length s then (NOT_ALL, Some (cast_to 0 hi (int n)))
           else if erange \<or> integer_value < 0 \<or> integer_value > hi then (OUT_OF_RANGE, None)
           else (INTEGER_OK, Some (cast_to 0 hi integer_value))))"

definition to_int32 :: "string option \<Rightarrow> IntegerConversionResult \<times> int option" where
  "to_int32 = to_integer int32_min int32_max"

definition to_int64 :: "string option \<Rightarrow> IntegerConversionResult \<times> int option" where
  "to_int64 = to_integer int64_min int64_max"

definition to_unsigned_int32 :: "string option \<Rightarrow> IntegerConversionResult \<times> int option" where
  "to_unsigned_int32 = to_unsigned_integer uint32_max"

definition to_unsigned_int64 :: "string option \<Rightarrow> IntegerConversionResult \<times> int option" where
  "to_unsigned_int64 = to_unsigned_integer uint64_max"

lemma cast_to_id: "lo \<le> i \<Longrightarrow> i \<le> hi \<Longrightarrow> cast_to lo hi i = i"
  by (simp add: cast_to_def)

lemma strtol_parse_consumed:
  "strtol_parse b s = Some (neg, m, n) \<Longrightarrow> 0 < n"
  by (auto simp: strtol_parse_def Let_def split: prod.splits if_splits)

text \<open>
  A conversion that succeeds has read the whole text, its value is the numeral's and it is
  within the limits of the type.
\<close>

lemma to_integer_OK_iff:
  assumes "lo \<ge> int64_min" "hi \<le> int64_max"
  shows "to_integer lo hi (Some s) = (INTEGER_OK, Some v) \<longleftrightarrow>
     (\<exists>neg m. strtol_parse 0 s = Some (neg, m, length s) \<and> v = signed_val neg m \<and> lo \<le> v \<and> v \<le> hi)"
proof (cases "strtol_parse 0 s")
  case None
  then show ?thesis by (simp add: to_integer_def strtoll_def)
next
  case (Some t)
  obtain neg m n where t: "t = (neg, m, n)" by (cases t) auto
  with Some have "0 < n" by (auto dest: strtol_parse_consumed)
  with Some t assms show ?thesis
    by (auto simp: to_integer_def strtoll_def clamp64_def Let_def cast_to_id)
qed

text \<open>
  The unsigned conversion refuses a minus sign only as the first character: after white
  space it is accepted and the value wraps around.
\<close>

lemma to_unsigned_int64_wraps: "to_unsigned_int64 (Some '' -1'') = (INTEGER_OK, Some (2 ^ 64 - 1))"
  by (simp add: to_unsigned_int64_def to_unsigned_integer_def strtoull_def strtol_parse_def
      sign_of_def base_and_skip_def has_hex_prefix_def digit_in_def digit_val_def digits_value_def
      char_class_defs byte_of_def signed_val_def int_limits cast_to_def)

end
