(* ===== verification/ApiVersion.thy ===== *)
theory ApiVersion imports CStdlib begin

text \<open>
  \<open>huestream/common/data/ApiVersion\<close>: the version of a bridge's API, read from text by the
  regular expression \<open>(\d+)\.(\d+)\.(\d+)\<close>, printed back and compared. \<open>std::stoi\<close> throws on
  a number that does not fit an \<open>int\<close>, so reading a version yields an exception or a version.
\<close>

record ApiVersion =
  v_versionString :: string
  v_valid :: bool
  v_major :: int
  v_minor :: int
  v_build :: int

text \<open>
  A match of the expression at the start of a text: three runs of digits with dots between.
  A run is as long as possible; giving back a digit never helps, since a dot or the end of the
  match must follow. \<open>regex_search\<close> takes the leftmost start that matches.
\<close>

definition match_version :: "string \<Rightarrow> (string \<times> string \<times> string) option" where
  "match_version s =
     (let d1 = takeWhile isdigit s; r1 = drop (length d1) s;
          d2 = takeWhile isdigit (tl r1); r2 = drop (length d2) (tl r1);
          d3 = takeWhile isdigit (tl r2)
      in if d1 \<noteq> [] \<and> r1 \<noteq> [] \<and> hd r1 = CHR ''.'' \<and> d2 \<noteq> [] \<and> r2 \<noteq> [] \<and> hd r2 = CHR ''.'' \<and> d3 \<noteq> []
         then Some (d1, d2, d3) else None)"

fun search_version :: "string \<Rightarrow> (string \<times> string \<times> string) option" where
  "search_version [] = match_version []"
| "search_version (c # cs) =
     (case match_version (c # cs) of Some m \<Rightarrow> Some m | None \<Rightarrow> search_version cs)"

text \<open>
  \<open>FromString\<close> leaves the numbers of the object as they are when nothing matches. The object
  after an exception is not modelled: no caller catches it.
\<close>

definition FromString :: "ApiVersion \<Rightarrow> stdexcept + ApiVersion" where
  "FromString v =
     (case search_version (v_versionString v) of
        None \<Rightarrow> Inr (v\<lparr>v_valid := False\<rparr>)
      | Some (d1, d2, d3) \<Rightarrow>
          (case stoi d1 of Inl e \<Rightarrow> Inl e | Inr ma \<Rightarrow>
          (case stoi d2 of Inl e \<Rightarrow> Inl e | Inr mi \<Rightarrow>
          (case stoi d3 of Inl e \<Rightarrow> Inl e | Inr bu \<Rightarrow>
             Inr (v\<lparr>v_valid := True, v_major := ma, v_minor := mi, v_build := bu\<rparr>)))))"

definition version_text :: "int \<Rightarrow> int \<Rightarrow> int \<Rightarrow> string" where
  "version_text ma mi bu = show_int ma @ ''.'' @ show_int mi @ ''.'' @ show_int bu"

definition ApiVersion_of_numbers :: "int \<Rightarrow> int \<Rightarrow> int \<Rightarrow> ApiVersion" where
  "ApiVersion_of_numbers ma mi bu =
     \<lparr>v_versionString = version_text ma mi bu, v_valid = True, v_major = ma, v_minor = mi, v_build = bu\<rparr>"

definition ApiVersion_of_string :: "string \<Rightarrow> stdexcept + ApiVersion" where
  "ApiVersion_of_string version =
     FromString \<lparr>v_versionString = version, v_valid = False, v_major = 0, v_minor = 0, v_build = 0\<rparr>"

definition SetVersionString :: "ApiVersion \<Rightarrow> string \<Rightarrow> stdexcept + ApiVersion" where
  "SetVersionString v version = FromString (v\<lparr>v_versionString := version\<rparr>)"

definition version_eq :: "ApiVersion \<Rightarrow> ApiVersion \<Rightarrow> bool" where
  "version_eq lhs rhs \<longleftrightarrow> v_versionString lhs = v_versionString rhs"

definition version_less :: "ApiVersion \<Rightarrow> ApiVersion \<Rightarrow> bool" where
  "version_less lhs rhs \<longleftrightarrow>
     (if v_major lhs < v_major rhs then True
      else if v_major lhs = v_major rhs \<and> v_minor lhs < v_minor rhs then True
      else if v_major lhs = v_major rhs \<and> v_minor lhs = v_minor rhs \<and> v_build lhs < v_build rhs then True
      else False)"

definition version_greater :: "ApiVersion \<Rightarrow> ApiVersion \<Rightarrow> bool" where
  "version_greater lhs rhs \<longleftrightarrow> version_less rhs lhs"

definition version_le :: "ApiVersion \<Rightarrow> ApiVersion \<Rightarrow> bool" where
  "version_le lhs rhs \<longleftrightarrow> \<not> version_greater lhs rhs"

definition version_ge :: "ApiVersion \<Rightarrow> ApiVersion \<Rightarrow> bool" where
  "version_ge lhs rhs \<longleftrightarrow> \<not> version_less lhs rhs"

section \<open>Reading back what was printed\<close>

lemma takeWhile_digits_append:
  "(\<forall>c\<in>set ds. isdigit c) \<Longrightarrow> (r = [] \<or> \<not> isdigit (hd r)) \<Longrightarrow> takeWhile isdigit (ds @ r) = ds"
  by (cases r) (auto simp: takeWhile_append)

lemma dot_not_digit [simp]: "\<not> isdigit (CHR ''.'')"
  by (simp add: isdigit_def byte_of_def)

lemma match_version_dec:
  assumes d: "\<forall>c\<in>set a. isdigit c" "\<forall>c\<in>set b. isdigit c" "\<forall>c\<in>set d. isdigit c"
    "a \<noteq> []" "b \<noteq> []" "d \<noteq> []"
  shows "match_version (a @ ''.'' @ b @ ''.'' @ d) = Some (a, b, d)"
proof -
  have "takeWhile isdigit (a @ CHR ''.'' # b @ CHR ''.'' # d) = a"
    "takeWhile isdigit (b @ CHR ''.'' # d) = b" "takeWhile isdigit d = d"
    using d by (auto simp: takeWhile_digits_append takeWhile_eq_all_conv)
  moreover have "takeWhile isdigit d \<noteq> []" using d by (cases d) auto
  ultimately show ?thesis using d(4-6) by (simp add: match_version_def Let_def)
qed

lemma search_version_dec:
  "0 \<le> ma \<Longrightarrow> 0 \<le> mi \<Longrightarrow> 0 \<le> bu \<Longrightarrow>
   search_version (version_text ma mi bu)
     = Some (dec_digits (nat ma), dec_digits (nat mi), dec_digits (nat bu))"
proof -
  assume n: "0 \<le> ma" "0 \<le> mi" "0 \<le> bu"
  let ?s = "version_text ma mi bu"
  have m: "match_version ?s = Some (dec_digits (nat ma), dec_digits (nat mi), dec_digits (nat bu))"
    using n match_version_dec[of "dec_digits (nat ma)" "dec_digits (nat mi)" "dec_digits (nat bu)"]
    by (simp add: version_text_def show_int_def dec_digits_isdigit)
  then show ?thesis by (cases ?s) auto
qed

lemma version_text_roundtrip:
  assumes "0 \<le> ma" "ma \<le> int32_max" "0 \<le> mi" "mi \<le> int32_max" "0 \<le> bu" "bu \<le> int32_max"
  shows "ApiVersion_of_string (version_text ma mi bu) = Inr (ApiVersion_of_numbers ma mi bu)"
  using assms stoi_dec_digits[of "nat ma"] stoi_dec_digits[of "nat mi"] stoi_dec_digits[of "nat bu"]
  by (simp add: ApiVersion_of_string_def FromString_def search_version_dec ApiVersion_of_numbers_def)

section \<open>The order\<close>

lemma version_less_iff:
  "version_less a b \<longleftrightarrow>
     v_major a < v_major b \<or> v_major a = v_major b \<and>
       (v_minor a < v_minor b \<or> v_minor a = v_minor b \<and> v_build a < v_build b)"
  by (auto simp: version_less_def)

lemma version_less_irrefl: "\<not> version_less a a"
  by (simp add: version_less_def)

lemma version_less_trans: "version_less a b \<Longrightarrow> version_less b c \<Longrightarrow> version_less a c"
  by (auto simp: version_less_def split: if_splits)

lemma version_incomparable:
  "\<not> version_less a b \<and> \<not> version_less b a \<longleftrightarrow>
     v_major a = v_major b \<and> v_minor a = v_minor b \<and> v_build a = v_build b"
  by (auto simp: version_less_def)

end
