(* ===== verification/DataModel.thy ===== *)
theory DataModel imports ApiVersion Complex_Main begin

text \<open>
  The data of \<open>huestream/common/data\<close>: \<open>Location\<close>, \<open>Color\<close>, \<open>Light\<close>, \<open>Scene\<close>, \<open>Group\<close>,
  \<open>Zone\<close>, \<open>Bridge\<close> and \<open>BridgeSettings\<close>, and the store in which bridges and groups live.
  A \<open>double\<close> is a real number: rounding, infinities and NaN are outside the model.

  Bridges, lists of groups and groups are shared through pointers and changed in place, and
  which variables name one object decides what several operations do. They are kept in a store
  of three maps from addresses; a \<open>Bridge\<close> holds the address of its list of groups, and a list
  of groups holds the addresses of the groups. Lights, scenes and zones are values: no
  operation modelled here changes one through a second pointer.
\<close>

section \<open>Values\<close>

record Location =
  loc_x :: real
  loc_y :: real
  loc_z :: real

record Color =
  red :: real
  green :: real
  blue :: real
  alpha :: real
  rawRed :: real
  rawGreen :: real
  rawBlue :: real

definition Color_rgba :: "real \<Rightarrow> real \<Rightarrow> real \<Rightarrow> real \<Rightarrow> Color" where
  "Color_rgba r g b a = \<lparr>red = r, green = g, blue = b, alpha = a, rawRed = r, rawGreen = g, rawBlue = b\<rparr>"

definition Color_rgb :: "real \<Rightarrow> real \<Rightarrow> real \<Rightarrow> Color" where
  "Color_rgb r g b = Color_rgba r g b 1"

definition Color_default :: Color where
  "Color_default = Color_rgba 0 0 0 0"

definition clamp01 :: "real \<Rightarrow> real" where
  "clamp01 value = (if value > 1 then 1 else if value < 0 then 0 else value)"

definition Color_Clamp :: "Color \<Rightarrow> Color" where
  "Color_Clamp c = c\<lparr>red := clamp01 (red c), green := clamp01 (green c), blue := clamp01 (blue c),
     alpha := clamp01 (alpha c)\<rparr>"

definition GetCurrentBrightness :: "Color \<Rightarrow> real" where
  "GetCurrentBrightness c = max (max (red c) (green c)) (blue c)"

definition ApplyBrightness :: "Color \<Rightarrow> real \<Rightarrow> Color" where
  "ApplyBrightness c value =
     (let v = clamp01 value; currentBri = GetCurrentBrightness c
      in if currentBri \<le> 0 then c
         else c\<lparr>red := red c / currentBri * v, green := green c / currentBri * v,
                blue := blue c / currentBri * v\<rparr>)"

record Light =
  l_id :: string
  l_idV1 :: string
  l_name :: string
  l_model :: string
  l_archetype :: string
  l_color :: Color
  l_position :: Location
  l_reachable :: bool
  l_on :: bool
  l_dynamic :: bool
  l_dynamicEnabled :: bool
  l_brightness :: real

definition Light_new :: "string \<Rightarrow> Location \<Rightarrow> string \<Rightarrow> string \<Rightarrow> string \<Rightarrow> bool \<Rightarrow> bool \<Rightarrow> Light" where
  "Light_new i pos name model archetype reachable on =
     \<lparr>l_id = i, l_idV1 = i, l_name = name, l_model = model, l_archetype = archetype,
      l_color = Color_default, l_position = pos, l_reachable = reachable, l_on = on,
      l_dynamic = False, l_dynamicEnabled = False, l_brightness = 0\<rparr>"

record Scene =
  s_id :: string
  s_tag :: string
  s_name :: string
  s_appData :: string
  s_image :: string
  s_lights :: "Light list"
  s_dynamic :: bool

definition Scene_new :: "string \<Rightarrow> string \<Rightarrow> string \<Rightarrow> string \<Rightarrow> string \<Rightarrow> Scene" where
  "Scene_new i tag name appData img =
     \<lparr>s_id = i, s_tag = tag, s_name = name, s_appData = appData, s_image = img, s_lights = [],
      s_dynamic = False\<rparr>"

definition AllLightsAreDynamic :: "Scene \<Rightarrow> bool" where
  "AllLightsAreDynamic s \<longleftrightarrow> list_all l_dynamic (s_lights s)"

definition AtLeastOneLightIsDynamic :: "Scene \<Rightarrow> bool" where
  "AtLeastOneLightIsDynamic s \<longleftrightarrow> list_ex l_dynamic (s_lights s)"

text \<open>\<open>Scene::Clone\<close> builds a new scene and copies six of the seven fields.\<close>

definition Scene_Clone :: "Scene \<Rightarrow> Scene" where
  "Scene_Clone s = (Scene_new [] [] [] [] [])
     \<lparr>s_id := s_id s, s_tag := s_tag s, s_name := s_name s, s_appData := s_appData s,
      s_image := s_image s, s_lights := s_lights s\<rparr>"

datatype GroupClass = GROUPCLASS_TV | GROUPCLASS_FREE | GROUPCLASS_SCREEN | GROUPCLASS_MUSIC
  | GROUPCLASS_3DSPACE | GROUPCLASS_OTHER

record GroupProxyNode =
  pn_uri :: string
  pn_mode :: string
  pn_name :: string
  pn_model :: string
  pn_isReachable :: bool

record Group =
  g_id :: string
  g_groupedLightId :: string
  g_name :: string
  g_classType :: GroupClass
  g_lights :: "Light list"
  g_physicalLights :: "Light list"
  g_active :: bool
  g_owner :: string
  g_ownerName :: string
  g_proxyNode :: GroupProxyNode
  g_scenes :: "Scene list"
  g_onState :: bool
  g_brightnessState :: real
  g_channelToPhysicalLightsMap :: "string \<rightharpoonup> string list"

definition Group_new :: Group where
  "Group_new =
     \<lparr>g_id = [], g_groupedLightId = [], g_name = [], g_classType = GROUPCLASS_OTHER, g_lights = [],
      g_physicalLights = [], g_active = False, g_owner = [], g_ownerName = [],
      g_proxyNode = \<lparr>pn_uri = [], pn_mode = [], pn_name = [], pn_model = [], pn_isReachable = True\<rparr>,
      g_scenes = [], g_onState = True, g_brightnessState = 1,
      g_channelToPhysicalLightsMap = Map.empty\<rparr>"

datatype ZoneArchetype = ZONEARCHETYPE_COMPUTER | ZONEARCHETYPE_OTHER

record Zone =
  z_group :: Group
  z_idV1 :: string
  z_archetype :: ZoneArchetype

definition GetSceneById :: "Zone \<Rightarrow> string \<Rightarrow> Scene option" where
  "GetSceneById z sceneId = List.find (\<lambda>s. s_id s = sceneId) (g_scenes (z_group z))"

section \<open>Groups\<close>

definition Clip :: "real \<Rightarrow> real \<Rightarrow> real \<Rightarrow> real" where
  "Clip value mn mx = (if value < mn then mn else if value > mx then mx else value)"

text \<open>
  \<open>Group::AddLight(Light&)\<close> updates the first light with the same identifier, in place, and
  appends a copy when there is none.
\<close>

definition update_light :: "Light \<Rightarrow> Light \<Rightarrow> Light" where
  "update_light old new = old\<lparr>l_position := l_position new, l_name := l_name new,
     l_model := l_model new, l_reachable := l_reachable new, l_color := l_color new\<rparr>"

fun add_light_loop :: "Light list \<Rightarrow> Light \<Rightarrow> Light list option" where
  "add_light_loop [] light = None"
| "add_light_loop (old # ls) light =
     (if l_id old = l_id light then Some (update_light old light # ls)
      else map_option ((#) old) (add_light_loop ls light))"

definition AddLight :: "Group \<Rightarrow> Light \<Rightarrow> Group" where
  "AddLight g light =
     (case add_light_loop (g_lights g) light of
        Some ls \<Rightarrow> g\<lparr>g_lights := ls\<rparr>
      | None \<Rightarrow> g\<lparr>g_lights := g_lights g @ [light]\<rparr>)"

definition AddLight_at ::
  "Group \<Rightarrow> string \<Rightarrow> real \<Rightarrow> real \<Rightarrow> real \<Rightarrow> string \<Rightarrow> string \<Rightarrow> string \<Rightarrow> bool \<Rightarrow> Group" where
  "AddLight_at g i x y z name model archetype reachable =
     AddLight g (Light_new i \<lparr>loc_x = Clip x (-1) 1, loc_y = Clip y (-1) 1, loc_z = Clip z (-1) 1\<rparr>
       name model archetype reachable False)"

text \<open>
  \<open>Group::Split\<close> reads lines with \<open>std::getline\<close>: an empty text has no line, and nothing
  follows a separator at the end of the text.
\<close>

function getlines :: "string \<Rightarrow> char \<Rightarrow> string list" where
  "getlines s d =
     (if s = [] then []
      else takeWhile (\<lambda>c. c \<noteq> d) s # getlines (tl (dropWhile (\<lambda>c. c \<noteq> d) s)) d)"
  by pat_completeness auto
termination
proof (relation "measure (\<lambda>(s, d). length s)", goal_cases)
  case (2 s d)
  have "length (dropWhile (\<lambda>c. c \<noteq> d) s) \<le> length s" by (rule length_dropWhile_le)
  moreover have "0 < length s" using 2 by simp
  ultimately show ?case by (simp del: length_greater_0_conv)
qed simp

declare getlines.simps [simp del]

definition GetOwnerApplicationName :: "Group \<Rightarrow> string" where
  "GetOwnerApplicationName g =
     (let splitOwner = getlines (g_ownerName g) (CHR ''#'') in
      if length splitOwner = 2 \<or> length splitOwner = 1 then splitOwner ! 0 else g_ownerName g)"

definition GetOwnerDeviceName :: "Group \<Rightarrow> string" where
  "GetOwnerDeviceName g =
     (let splitOwner = getlines (g_ownerName g) (CHR ''#'') in
      if length splitOwner = 2 then splitOwner ! 1 else [])"

definition GetFriendlyOwnerName :: "Group \<Rightarrow> string" where
  "GetFriendlyOwnerName g =
     (let appName = GetOwnerApplicationName g; deviceName = GetOwnerDeviceName g
      in if deviceName \<noteq> [] then appName @ '' ('' @ deviceName @ '')'' else appName)"

fun physical_light_loop :: "Light list \<Rightarrow> string \<Rightarrow> Light list" where
  "physical_light_loop ls i = (case List.find (\<lambda>l. l_id l = i) ls of Some l \<Rightarrow> [l] | None \<Rightarrow> [])"

definition GetChannelPhysicalLights :: "Group \<Rightarrow> Light \<Rightarrow> Light list" where
  "GetChannelPhysicalLights g channel =
     (case g_channelToPhysicalLightsMap g (l_id channel) of
        None \<Rightarrow> []
      | Some ids \<Rightarrow> concat (map (physical_light_loop (g_physicalLights g)) ids))"

definition classSerializeMap :: "(GroupClass \<times> string) list" where
  "classSerializeMap =
     [(GROUPCLASS_TV, ''tv''), (GROUPCLASS_FREE, ''free''), (GROUPCLASS_SCREEN, ''screen''),
      (GROUPCLASS_MUSIC, ''music''), (GROUPCLASS_3DSPACE, ''3dspace''), (GROUPCLASS_OTHER, ''other'')]"

definition SerializeClass :: "GroupClass \<Rightarrow> string" where
  "SerializeClass t = (case map_of classSerializeMap t of Some s \<Rightarrow> s | None \<Rightarrow> ''other'')"

definition DeserializeClass :: "string \<Rightarrow> GroupClass" where
  "DeserializeClass s =
     (case List.find (\<lambda>(t, n). n = s) classSerializeMap of Some (t, n) \<Rightarrow> t | None \<Rightarrow> GROUPCLASS_OTHER)"

lemma clamp01_range: "0 \<le> clamp01 v" "clamp01 v \<le> 1"
  by (simp_all add: clamp01_def)

lemma class_roundtrip: "DeserializeClass (SerializeClass t) = t"
  by (cases t) (simp_all add: DeserializeClass_def SerializeClass_def classSerializeMap_def)

lemma add_light_loop_None: "add_light_loop ls light = None \<longleftrightarrow> l_id light \<notin> l_id ` set ls"
  by (induction ls) auto

lemma add_light_loop_ids: "add_light_loop ls light = Some ls' \<Longrightarrow> map l_id ls' = map l_id ls"
  by (induction ls arbitrary: ls') (auto split: if_splits simp: update_light_def)

lemma AddLight_ids:
  "map l_id (g_lights (AddLight g light)) =
     (if l_id light \<in> l_id ` set (g_lights g) then map l_id (g_lights g)
      else map l_id (g_lights g) @ [l_id light])"
  by (auto simp: AddLight_def add_light_loop_None[symmetric] dest: add_light_loop_ids
      split: option.splits)

lemma AddLight_distinct:
  "distinct (map l_id (g_lights g)) \<Longrightarrow> distinct (map l_id (g_lights (AddLight g light)))"
  by (auto simp: AddLight_ids)

end
