(* ===== verification/Bridge.thy ===== *)
theory Bridge imports DataModel begin

text \<open>
  \<open>huestream/common/data/Bridge\<close> and \<open>BridgeSettings\<close>: the record, the store of shared
  objects, the predicates that give a bridge its status, the selection of a group, the copy of
  a bridge and the addresses of the bridge's interfaces.

  \<open>IsValidModelId\<close> and \<open>IsValidApiVersion\<close> call \<open>std::stoi\<close>, which throws on a number that
  does not fit an \<open>int\<close>; nothing catches the exception. \<open>IsValidModelId_r\<close> and
  \<open>IsValidApiVersion_r\<close> keep it as a value. The functions that use them take the value of the
  call, which is unspecified where it throws (\<open>stoi_safe\<close> says where it does not), so no
  theorem says anything about a bridge after such an exception.
\<close>

section \<open>State\<close>

record BridgeSettings =
  supportedApiVersionMajor :: int
  supportedApiVersionMinor :: int
  supportedApiVersionBuild :: int
  supportedModel :: int
  supportedClipV2SwVersion :: int

definition BridgeSettings_default :: BridgeSettings where
  "BridgeSettings_default =
     \<lparr>supportedApiVersionMajor = 1, supportedApiVersionMinor = 24, supportedApiVersionBuild = 0,
      supportedModel = 2, supportedClipV2SwVersion = 1944193080\<rparr>"

datatype ErrorCode =
    HTTP_REQUEST_ERROR_CODE_SUCCESS
  | HTTP_REQUEST_ERROR_CODE_UNDEFINED
  | HTTP_REQUEST_ERROR_CODE_CANCELED
  | HTTP_REQUEST_ERROR_CODE_CANNOT_RESOLVE_HOST
  | HTTP_REQUEST_ERROR_CODE_CANNOT_CONNECT
  | HTTP_REQUEST_ERROR_CODE_TIMEOUT
  | HTTP_REQUEST_ERROR_CODE_SERVER_RESET
  | HTTP_REQUEST_ERROR_CODE_INVALID_CERTIFICATE
  | HTTP_REQUEST_ERROR_CODE_GATEWAY_TIMEOUT
  | HTTP_REQUEST_ERROR_CODE_INVALID_EVENTING_CONNECTION

datatype BridgeStatus = BRIDGE_EMPTY | BRIDGE_NOT_FOUND | BRIDGE_INVALID_MODEL
  | BRIDGE_NOT_CONNECTABLE | BRIDGE_NOT_CONNECTED | BRIDGE_INVALID_VERSION
  | BRIDGE_INVALID_CLIENTKEY | BRIDGE_NO_GROUP_AVAILABLE | BRIDGE_INVALID_GROUP_SELECTED
  | BRIDGE_BUSY | BRIDGE_READY | BRIDGE_STREAMING

type_synonym ref = nat

record Bridge =
  b_bridgeSettings :: BridgeSettings
  b_name :: string
  b_modelId :: string
  b_apiversion :: string
  b_swversion :: string
  b_id :: string
  b_ipAddress :: string
  b_sslPort :: string
  b_isValidIp :: bool
  b_isAuthorized :: bool
  b_isBusy :: bool
  b_clientKey :: string
  b_user :: string
  b_groups :: ref
  b_selectedGroup :: string
  b_maxNoStreamingSessions :: int
  b_certificate :: string
  b_appId :: string
  b_lastHttpErrorCode :: ErrorCode
  b_lastHttpStatusCode :: int
  b_zones :: "Zone list"

record store =
  bridges_at :: "ref \<Rightarrow> Bridge"
  grouplists_at :: "ref \<Rightarrow> ref list"
  groups_at :: "ref \<Rightarrow> Group"
  next_ref :: ref

definition upd_bridge :: "ref \<Rightarrow> (Bridge \<Rightarrow> Bridge) \<Rightarrow> store \<Rightarrow> store" where
  "upd_bridge r f h = h\<lparr>bridges_at := (bridges_at h)(r := f (bridges_at h r))\<rparr>"

definition upd_group :: "ref \<Rightarrow> (Group \<Rightarrow> Group) \<Rightarrow> store \<Rightarrow> store" where
  "upd_group r f h = h\<lparr>groups_at := (groups_at h)(r := f (groups_at h r))\<rparr>"

definition upd_grouplist :: "ref \<Rightarrow> (ref list \<Rightarrow> ref list) \<Rightarrow> store \<Rightarrow> store" where
  "upd_grouplist r f h = h\<lparr>grouplists_at := (grouplists_at h)(r := f (grouplists_at h r))\<rparr>"

definition alloc_bridge :: "Bridge \<Rightarrow> store \<Rightarrow> store \<times> ref" where
  "alloc_bridge b h =
     (h\<lparr>bridges_at := (bridges_at h)(next_ref h := b), next_ref := Suc (next_ref h)\<rparr>, next_ref h)"

definition alloc_grouplist :: "ref list \<Rightarrow> store \<Rightarrow> store \<times> ref" where
  "alloc_grouplist gs h =
     (h\<lparr>grouplists_at := (grouplists_at h)(next_ref h := gs), next_ref := Suc (next_ref h)\<rparr>, next_ref h)"

definition alloc_group :: "Group \<Rightarrow> store \<Rightarrow> store \<times> ref" where
  "alloc_group g h =
     (h\<lparr>groups_at := (groups_at h)(next_ref h := g), next_ref := Suc (next_ref h)\<rparr>, next_ref h)"

lemmas store_defs = upd_bridge_def upd_group_def upd_grouplist_def alloc_bridge_def
  alloc_grouplist_def alloc_group_def

section \<open>Construction\<close>

definition NO_SELECTED_GROUP :: string where
  "NO_SELECTED_GROUP = ''___NO_SELECTED_GROUP___''"

definition new_bridge_value :: "string \<Rightarrow> string \<Rightarrow> bool \<Rightarrow> BridgeSettings \<Rightarrow> ref \<Rightarrow> Bridge" where
  "new_bridge_value i ip ipValid settings gl =
     \<lparr>b_bridgeSettings = settings, b_name = [], b_modelId = [], b_apiversion = [], b_swversion = [],
      b_id = i, b_ipAddress = ip, b_sslPort = [], b_isValidIp = ipValid, b_isAuthorized = False,
      b_isBusy = False, b_clientKey = [], b_user = [], b_groups = gl,
      b_selectedGroup = NO_SELECTED_GROUP, b_maxNoStreamingSessions = 0, b_certificate = [],
      b_appId = [], b_lastHttpErrorCode = HTTP_REQUEST_ERROR_CODE_SUCCESS,
      b_lastHttpStatusCode = 0, b_zones = []\<rparr>"

text \<open>\<open>std::make_shared<Bridge>(bridgeSettings)\<close>: a new bridge with a new, empty list of groups.\<close>

definition new_bridge :: "BridgeSettings \<Rightarrow> store \<Rightarrow> store \<times> ref" where
  "new_bridge settings h =
     (let (h1, gl) = alloc_grouplist [] h in alloc_bridge (new_bridge_value [] [] False settings gl) h1)"

section \<open>What the fields say\<close>

definition IsEmpty :: "Bridge \<Rightarrow> bool" where
  "IsEmpty b \<longleftrightarrow> b_ipAddress b = []"

definition IsFound :: "Bridge \<Rightarrow> bool" where
  "IsFound b \<longleftrightarrow> \<not> IsEmpty b \<and> b_id b \<noteq> []"

text \<open>\<open>regex_search\<close> with \<open>(?:BSB|HSE)(\d+)\<close>: the leftmost match, its digits as the sub-match.\<close>

fun model_digits :: "string \<Rightarrow> string option" where
  "model_digits [] = None"
| "model_digits (c # cs) =
     (let ds = takeWhile isdigit (drop 3 (c # cs)) in
      if (take 3 (c # cs) = ''BSB'' \<or> take 3 (c # cs) = ''HSE'') \<and> ds \<noteq> [] then Some ds
      else model_digits cs)"

definition IsValidModelId_r :: "Bridge \<Rightarrow> stdexcept + bool" where
  "IsValidModelId_r b =
     (case model_digits (b_modelId b) of
        None \<Rightarrow> Inr False
      | Some ds \<Rightarrow> (case stoi ds of Inl e \<Rightarrow> Inl e
                   | Inr version \<Rightarrow> Inr (version \<ge> supportedModel (b_bridgeSettings b))))"

definition IsValidModelId :: "Bridge \<Rightarrow> bool" where
  "IsValidModelId b = projr (IsValidModelId_r b)"

definition IsValidApiVersion_r :: "Bridge \<Rightarrow> stdexcept + bool" where
  "IsValidApiVersion_r b =
     (case ApiVersion_of_string (b_apiversion b) of
        Inl e \<Rightarrow> Inl e
      | Inr thisVersion \<Rightarrow>
          (let s = b_bridgeSettings b;
               minVersion = ApiVersion_of_numbers (supportedApiVersionMajor s)
                 (supportedApiVersionMinor s) (supportedApiVersionBuild s)
           in Inr (v_valid thisVersion \<and> version_ge thisVersion minVersion)))"

definition IsValidApiVersion :: "Bridge \<Rightarrow> bool" where
  "IsValidApiVersion b = projr (IsValidApiVersion_r b)"

definition stoi_safe :: "Bridge \<Rightarrow> bool" where
  "stoi_safe b \<longleftrightarrow> isl (IsValidModelId_r b) = False \<and> isl (IsValidApiVersion_r b) = False"

definition IsConnectable :: "Bridge \<Rightarrow> bool" where
  "IsConnectable b \<longleftrightarrow> IsFound b \<and> b_user b \<noteq> [] \<and> b_isAuthorized b \<and> IsValidModelId b"

definition IsConnected :: "Bridge \<Rightarrow> bool" where
  "IsConnected b \<longleftrightarrow> IsConnectable b \<and> b_isValidIp b"

definition IsValidClientKey :: "Bridge \<Rightarrow> bool" where
  "IsValidClientKey b \<longleftrightarrow> length (b_clientKey b) = 32"

definition IsSupportingClipV2 :: "Bridge \<Rightarrow> bool" where
  "IsSupportingClipV2 b \<longleftrightarrow>
     (if b_swversion b = [] then False
      else fst (strtoll 10 (c_str (b_swversion b))) \<ge> supportedClipV2SwVersion (b_bridgeSettings b)
           \<and> (b_modelId b = [] \<or> IsValidModelId b))"

definition IsGroupSelected :: "Bridge \<Rightarrow> bool" where
  "IsGroupSelected b \<longleftrightarrow> b_selectedGroup b \<noteq> NO_SELECTED_GROUP"

definition HasEverBeenAuthorizedForStreaming :: "Bridge \<Rightarrow> bool" where
  "HasEverBeenAuthorizedForStreaming b \<longleftrightarrow>
     IsFound b \<and> IsValidModelId b \<and> b_user b \<noteq> [] \<and> IsValidClientKey b"

definition IsAuthorizedForStreaming :: "Bridge \<Rightarrow> bool" where
  "IsAuthorizedForStreaming b \<longleftrightarrow> HasEverBeenAuthorizedForStreaming b \<and> b_isAuthorized b"

section \<open>Groups of a bridge\<close>

definition GetGroupById :: "store \<Rightarrow> Bridge \<Rightarrow> string \<Rightarrow> ref option" where
  "GetGroupById h b i = List.find (\<lambda>r. g_id (groups_at h r) = i) (grouplists_at h (b_groups b))"

definition GetGroup :: "store \<Rightarrow> Bridge \<Rightarrow> ref option" where
  "GetGroup h b = GetGroupById h b (b_selectedGroup b)"

definition IsValidGroupSelected :: "store \<Rightarrow> Bridge \<Rightarrow> bool" where
  "IsValidGroupSelected h b \<longleftrightarrow> GetGroup h b \<noteq> None"

definition GetGroupLights :: "store \<Rightarrow> Bridge \<Rightarrow> Light list" where
  "GetGroupLights h b = (case GetGroup h b of None \<Rightarrow> [] | Some g \<Rightarrow> g_lights (groups_at h g))"

definition IsProxyNodeUnreachable :: "store \<Rightarrow> Bridge \<Rightarrow> bool" where
  "IsProxyNodeUnreachable h b =
     (case GetGroup h b of None \<Rightarrow> False
      | Some g \<Rightarrow> \<not> pn_isReachable (g_proxyNode (groups_at h g)))"

definition GetZoneById :: "Bridge \<Rightarrow> string \<Rightarrow> Zone option" where
  "GetZoneById b i = List.find (\<lambda>z. g_id (z_group z) = i) (b_zones b)"

definition SelectGroupIfOnlyOneOption :: "store \<Rightarrow> ref \<Rightarrow> store \<times> bool" where
  "SelectGroupIfOnlyOneOption h r =
     (case grouplists_at h (b_groups (bridges_at h r)) of
        [g] \<Rightarrow> (upd_bridge r (\<lambda>b. b\<lparr>b_selectedGroup := g_id (groups_at h g)\<rparr>) h, True)
      | _ \<Rightarrow> (h, False))"

definition SelectGroup :: "store \<Rightarrow> ref \<Rightarrow> string \<Rightarrow> store \<times> bool" where
  "SelectGroup h r i =
     (case List.find (\<lambda>g. g_id (groups_at h g) = i) (grouplists_at h (b_groups (bridges_at h r))) of
        Some g \<Rightarrow> (upd_bridge r (\<lambda>b. b\<lparr>b_selectedGroup := i\<rparr>) h, True)
      | None \<Rightarrow> (h, False))"

fun erase_first :: "('a \<Rightarrow> bool) \<Rightarrow> 'a list \<Rightarrow> 'a list" where
  "erase_first p [] = []"
| "erase_first p (x # xs) = (if p x then xs else x # erase_first p xs)"

definition DeleteGroup :: "store \<Rightarrow> ref \<Rightarrow> string \<Rightarrow> store" where
  "DeleteGroup h r i =
     upd_grouplist (b_groups (bridges_at h r)) (erase_first (\<lambda>g. g_id (groups_at h g) = i)) h"

definition GetGroupsOwnedByOtherClient :: "store \<Rightarrow> Bridge \<Rightarrow> ref list" where
  "GetGroupsOwnedByOtherClient h b =
     filter (\<lambda>g. g_active (groups_at h g) \<and> g_owner (groups_at h g) \<noteq> b_appId b)
       (grouplists_at h (b_groups b))"

definition GetCurrentNoStreamingSessions :: "store \<Rightarrow> Bridge \<Rightarrow> int" where
  "GetCurrentNoStreamingSessions h b =
     foldl (\<lambda>n g. if g_active (groups_at h g) then n + 1 else n) 0 (grouplists_at h (b_groups b))"

section \<open>Status\<close>

definition GetStatus :: "store \<Rightarrow> Bridge \<Rightarrow> BridgeStatus" where
  "GetStatus h b =
     (if IsEmpty b then BRIDGE_EMPTY
      else if \<not> IsFound b then BRIDGE_NOT_FOUND
      else if \<not> IsValidModelId b then BRIDGE_INVALID_MODEL
      else if \<not> IsConnectable b then BRIDGE_NOT_CONNECTABLE
      else if \<not> IsConnected b then BRIDGE_NOT_CONNECTED
      else if \<not> IsValidApiVersion b then BRIDGE_INVALID_VERSION
      else if \<not> IsValidClientKey b then BRIDGE_INVALID_CLIENTKEY
      else if length (grouplists_at h (b_groups b)) = 0 then BRIDGE_NO_GROUP_AVAILABLE
      else case GetGroup h b of
             None \<Rightarrow> BRIDGE_INVALID_GROUP_SELECTED
           | Some g \<Rightarrow>
               if b_isBusy b then BRIDGE_BUSY
               else if g_active (groups_at h g) \<and> g_owner (groups_at h g) = b_appId b
                 then BRIDGE_STREAMING
               else BRIDGE_READY)"

definition IsReadyToStream :: "store \<Rightarrow> Bridge \<Rightarrow> bool" where
  "IsReadyToStream h b \<longleftrightarrow> GetStatus h b = BRIDGE_READY"

definition IsStreaming :: "store \<Rightarrow> Bridge \<Rightarrow> bool" where
  "IsStreaming h b \<longleftrightarrow> GetStatus h b = BRIDGE_STREAMING"

definition statusTagMap :: "(BridgeStatus \<times> string) list" where
  "statusTagMap =
     [(BRIDGE_EMPTY, ''ID_NO_BRIDGE_FOUND''), (BRIDGE_NOT_FOUND, ''ID_NO_BRIDGE_FOUND''),
      (BRIDGE_INVALID_MODEL, ''ID_INVALID_MODEL''), (BRIDGE_NOT_CONNECTABLE, ''ID_BRIDGE_NOT_FOUND''),
      (BRIDGE_NOT_CONNECTED, ''ID_BRIDGE_NOT_FOUND''), (BRIDGE_INVALID_VERSION, ''ID_INVALID_VERSION''),
      (BRIDGE_INVALID_CLIENTKEY, ''BRIDGE_INVALID_CLIENTKEY''),
      (BRIDGE_NO_GROUP_AVAILABLE, ''ID_NO_GROUP_AVAILABLE''),
      (BRIDGE_INVALID_GROUP_SELECTED, ''ID_SELECT_GROUP''), (BRIDGE_BUSY, ''ID_BRIDGE_BUSY''),
      (BRIDGE_READY, ''BRIDGE_READY''), (BRIDGE_STREAMING, ''BRIDGE_STREAMING'')]"

definition GetStatusTag :: "store \<Rightarrow> Bridge \<Rightarrow> string" where
  "GetStatusTag h b =
     (case map_of statusTagMap (GetStatus h b) of Some t \<Rightarrow> t | None \<Rightarrow> ''UNKNOWN'')"

section \<open>Changes\<close>

text \<open>\<open>SetUser\<close> is followed by \<open>OnUserChange\<close>, as \<open>PROP_IMPL_ON_UPDATE_CALL\<close> expands.\<close>

definition OnUserChange :: "Bridge \<Rightarrow> Bridge" where
  "OnUserChange b = (if \<not> IsSupportingClipV2 b then b\<lparr>b_appId := b_user b\<rparr> else b)"

definition SetUser :: "string \<Rightarrow> Bridge \<Rightarrow> Bridge" where
  "SetUser u b = OnUserChange (b\<lparr>b_user := u\<rparr>)"

definition Bridge_Clear :: "store \<Rightarrow> ref \<Rightarrow> store" where
  "Bridge_Clear h r =
     (let (h1, gl) = alloc_grouplist [] h in
      upd_bridge r (\<lambda>b.
        (SetUser [] (b\<lparr>b_name := [], b_isAuthorized := False, b_isValidIp := False, b_isBusy := False\<rparr>))
        \<lparr>b_appId := [], b_id := [], b_ipAddress := [], b_apiversion := [], b_modelId := [],
         b_clientKey := [], b_selectedGroup := [], b_groups := gl, b_zones := [],
         b_lastHttpErrorCode := HTTP_REQUEST_ERROR_CODE_SUCCESS\<rparr>) h1)"

fun clone_groups :: "ref list \<Rightarrow> store \<Rightarrow> store \<times> ref list" where
  "clone_groups [] h = (h, [])"
| "clone_groups (g # gs) h =
     (let (h1, g') = alloc_group (groups_at h g) h; (h2, gs') = clone_groups gs h1 in (h2, g' # gs'))"

definition Clone :: "store \<Rightarrow> ref \<Rightarrow> store \<times> ref" where
  "Clone h r =
     (let (h1, gs) = clone_groups (grouplists_at h (b_groups (bridges_at h r))) h;
          (h2, gl) = alloc_grouplist gs h1
      in alloc_bridge ((bridges_at h r)\<lparr>b_groups := gl\<rparr>) h2)"

text \<open>\<open>std::make_shared<Bridge>(*bridge)\<close>: the copy shares the list of groups.\<close>

definition shallow_copy :: "store \<Rightarrow> ref \<Rightarrow> store \<times> ref" where
  "shallow_copy h r = alloc_bridge (bridges_at h r) h"

section \<open>Addresses of the bridge's interfaces\<close>

definition GetUrl :: "Bridge \<Rightarrow> string" where
  "GetUrl b = ''https'' @ ''://'' @ b_ipAddress b @ (if b_sslPort b \<noteq> [] then '':'' @ b_sslPort b else [])"

definition GetApiRootUrl :: "Bridge \<Rightarrow> bool \<Rightarrow> bool \<Rightarrow> string" where
  "GetApiRootUrl b useClipV2 eventing =
     c_str (GetUrl b) @ (if useClipV2 \<and> IsSupportingClipV2 b
                 then (if eventing then ''/eventstream/clip/v2'' else ''/clip/v2/resource'')
                 else ''/api/'')"

definition GetBaseUrl :: "Bridge \<Rightarrow> bool \<Rightarrow> bool \<Rightarrow> string" where
  "GetBaseUrl b useClipV2 eventing =
     GetApiRootUrl b useClipV2 eventing @ (if \<not> useClipV2 \<and> b_user b \<noteq> [] then b_user b @ ''/'' else [])"

definition GetSmallConfigUrl :: "Bridge \<Rightarrow> string" where
  "GetSmallConfigUrl b = GetApiRootUrl b False False @ ''config/''"

definition GetSelectedGroupUrl :: "Bridge \<Rightarrow> string" where
  "GetSelectedGroupUrl b =
     (if IsSupportingClipV2 b
      then GetApiRootUrl b True False @ ''/'' @ ''entertainment_configuration/'' @ b_selectedGroup b
      else GetApiRootUrl b False False @ b_user b @ ''/'' @ ''groups/'' @ b_selectedGroup b)"

definition GetSelectedGroupActionUrl :: "Bridge \<Rightarrow> string" where
  "GetSelectedGroupActionUrl b =
     (if IsSupportingClipV2 b then []
      else GetApiRootUrl b False False @ b_user b @ ''/'' @ ''groups/'' @ b_selectedGroup b @ ''/'' @ ''action'')"

definition GetAppIdUrl :: "Bridge \<Rightarrow> string" where
  "GetAppIdUrl b = GetUrl b @ ''/auth/v1''"

section \<open>Status, exactly\<close>

lemma connected_chain:
  "IsConnected b \<Longrightarrow> IsFound b \<and> \<not> IsEmpty b \<and> IsValidModelId b \<and> IsConnectable b"
  by (auto simp: IsConnected_def IsConnectable_def IsFound_def)

definition can_stream :: "store \<Rightarrow> Bridge \<Rightarrow> bool" where
  "can_stream h b \<longleftrightarrow> IsConnected b \<and> IsValidApiVersion b \<and> IsValidClientKey b
     \<and> IsValidGroupSelected h b \<and> \<not> b_isBusy b"

definition owns_active_group :: "store \<Rightarrow> Bridge \<Rightarrow> bool" where
  "owns_active_group h b \<longleftrightarrow>
     (\<exists>g. GetGroup h b = Some g \<and> g_active (groups_at h g) \<and> g_owner (groups_at h g) = b_appId b)"

lemma GetGroup_nonempty: "GetGroup h b = Some g \<Longrightarrow> g \<in> set (grouplists_at h (b_groups b))
    \<and> g_id (groups_at h g) = b_selectedGroup b"
  using find_Some_in[of "\<lambda>r. g_id (groups_at h r) = b_selectedGroup b"]
  by (simp add: GetGroup_def GetGroupById_def)

lemma GetStatus_late:
  assumes "GetGroup h b = Some g"
  shows "IsConnected b \<Longrightarrow> IsValidApiVersion b \<Longrightarrow> IsValidClientKey b \<Longrightarrow>
    GetStatus h b = (if b_isBusy b then BRIDGE_BUSY
       else if g_active (groups_at h g) \<and> g_owner (groups_at h g) = b_appId b then BRIDGE_STREAMING
       else BRIDGE_READY)"
  using assms connected_chain[of b] GetGroup_nonempty[OF assms] by (auto simp: GetStatus_def)

lemma IsStreaming_iff: "IsStreaming h b \<longleftrightarrow> can_stream h b \<and> owns_active_group h b"
  using GetStatus_late[of h b]
  by (auto simp: IsStreaming_def can_stream_def owns_active_group_def IsValidGroupSelected_def)
     (auto simp: GetStatus_def split: if_splits option.splits)

lemma IsReadyToStream_iff: "IsReadyToStream h b \<longleftrightarrow> can_stream h b \<and> \<not> owns_active_group h b"
  using GetStatus_late[of h b]
  by (auto simp: IsReadyToStream_def can_stream_def owns_active_group_def IsValidGroupSelected_def)
     (auto simp: GetStatus_def split: if_splits option.splits)

lemma IsStreaming_not_ready: "IsStreaming h b \<Longrightarrow> \<not> IsReadyToStream h b"
  by (simp add: IsStreaming_iff IsReadyToStream_iff)

lemma streaming_connected: "IsStreaming h b \<Longrightarrow> IsConnected b"
  by (simp add: IsStreaming_iff can_stream_def)

section \<open>The store\<close>

text \<open>Every address that is stored has been allocated.\<close>

definition wf_store :: "store \<Rightarrow> bool" where
  "wf_store h \<longleftrightarrow> (\<forall>r<next_ref h. b_groups (bridges_at h r) < next_ref h)
     \<and> (\<forall>l<next_ref h. \<forall>g\<in>set (grouplists_at h l). g < next_ref h)"

text \<open>\<open>h'\<close> has the objects of \<open>h\<close>, unchanged, and possibly new ones.\<close>

definition store_ext :: "store \<Rightarrow> store \<Rightarrow> bool" where
  "store_ext h h' \<longleftrightarrow> next_ref h \<le> next_ref h'
     \<and> (\<forall>r<next_ref h. bridges_at h' r = bridges_at h r \<and> grouplists_at h' r = grouplists_at h r
          \<and> groups_at h' r = groups_at h r)"

lemma store_ext_refl [simp]: "store_ext h h"
  by (simp add: store_ext_def)

lemma store_ext_trans: "store_ext h1 h2 \<Longrightarrow> store_ext h2 h3 \<Longrightarrow> store_ext h1 h3"
  by (auto simp: store_ext_def)

lemma alloc_ext [simp]:
  "store_ext h (fst (alloc_bridge b h))" "store_ext h (fst (alloc_grouplist gs h))"
  "store_ext h (fst (alloc_group g h))"
  by (simp_all add: store_ext_def store_defs)

lemma find_cong_set: "(\<And>x. x \<in> set xs \<Longrightarrow> p x = q x) \<Longrightarrow> List.find p xs = List.find q xs"
  by (induction xs) auto

text \<open>The status of a bridge depends on its fields and on its groups only.\<close>

lemma GetGroup_cong:
  assumes "grouplists_at h' (b_groups b') = grouplists_at h (b_groups b)"
    "b_selectedGroup b' = b_selectedGroup b"
    "\<And>g. g \<in> set (grouplists_at h (b_groups b)) \<Longrightarrow> g_id (groups_at h' g) = g_id (groups_at h g)"
  shows "GetGroup h' b' = GetGroup h b"
  using assms by (auto simp: GetGroup_def GetGroupById_def intro: find_cong_set)

lemma GetStatus_cong_store:
  assumes "grouplists_at h' (b_groups b) = grouplists_at h (b_groups b)"
    "\<And>g. g \<in> set (grouplists_at h (b_groups b)) \<Longrightarrow> groups_at h' g = groups_at h g"
  shows "GetStatus h' b = GetStatus h b"
proof -
  have "GetGroup h' b = GetGroup h b" using assms by (intro GetGroup_cong) auto
  then show ?thesis using assms(1) assms(2) GetGroup_nonempty
    by (auto simp: GetStatus_def split: option.splits)
qed

lemma GetStatus_ext:
  assumes "wf_store h" "store_ext h h'" "r < next_ref h"
  shows "GetStatus h' (bridges_at h' r) = GetStatus h (bridges_at h r)"
proof -
  have l: "b_groups (bridges_at h r) < next_ref h" using assms by (simp add: wf_store_def)
  have "bridges_at h' r = bridges_at h r" using assms by (simp add: store_ext_def)
  moreover have "GetStatus h' (bridges_at h r) = GetStatus h (bridges_at h r)"
    using assms l by (intro GetStatus_cong_store) (auto simp: store_ext_def wf_store_def)
  ultimately show ?thesis by simp
qed

section \<open>Copies\<close>

lemma clone_groups_spec:
  "clone_groups gs h = (h', gs') \<Longrightarrow> \<forall>g\<in>set gs. g < next_ref h \<Longrightarrow>
     store_ext h h' \<and> length gs' = length gs \<and> (\<forall>g\<in>set gs'. next_ref h \<le> g \<and> g < next_ref h')
     \<and> map (groups_at h') gs' = map (groups_at h) gs"
proof (induction gs arbitrary: h h' gs')
  case (Cons g gs)
  obtain h1 g' where a: "alloc_group (groups_at h g) h = (h1, g')" by fastforce
  obtain h2 gs2 where c: "clone_groups gs h1 = (h2, gs2)" by fastforce
  have h1: "store_ext h h1" "g' = next_ref h" "next_ref h1 = Suc (next_ref h)"
    "groups_at h1 g' = groups_at h g"
    using a by (auto simp: store_ext_def alloc_group_def)
  have e: "h' = h2" "gs' = g' # gs2" using Cons.prems(1) a c by auto
  have "\<forall>g\<in>set gs. g < next_ref h1" using Cons.prems(2) h1(3) by auto
  note ih = Cons.IH[OF c this]
  have "\<forall>x\<in>set gs. groups_at h1 x = groups_at h x"
    using Cons.prems(2) h1(1) by (auto simp: store_ext_def)
  moreover have "groups_at h2 g' = groups_at h g" using ih h1 by (auto simp: store_ext_def)
  ultimately show ?case using ih h1 e store_ext_trans[OF h1(1), of h2]
    by (auto simp: store_ext_def)
qed simp

lemma Clone_spec:
  assumes "wf_store h" "r < next_ref h" "Clone h r = (h', r')"
  shows "store_ext h h' \<and> next_ref h \<le> r' \<and> r' < next_ref h'
    \<and> (\<exists>gl. bridges_at h' r' = (bridges_at h r)\<lparr>b_groups := gl\<rparr> \<and> next_ref h \<le> gl \<and> gl < next_ref h'
         \<and> (\<forall>g\<in>set (grouplists_at h' gl). next_ref h \<le> g \<and> g < next_ref h')
         \<and> map (groups_at h') (grouplists_at h' gl)
             = map (groups_at h) (grouplists_at h (b_groups (bridges_at h r))))"
proof -
  let ?gs = "grouplists_at h (b_groups (bridges_at h r))"
  obtain h1 gs where c: "clone_groups ?gs h = (h1, gs)" by fastforce
  have "\<forall>g\<in>set ?gs. g < next_ref h" using assms(1,2) by (auto simp: wf_store_def)
  note cg = clone_groups_spec[OF c this]
  have h': "h' = fst (alloc_bridge ((bridges_at h r)\<lparr>b_groups := next_ref h1\<rparr>)
      (fst (alloc_grouplist gs h1)))" "r' = Suc (next_ref h1)"
    using assms(3) c by (auto simp: Clone_def alloc_grouplist_def alloc_bridge_def Let_def)
  have "store_ext h h'" using cg h'(1) alloc_ext store_ext_trans by metis
  then show ?thesis using cg h' assms(2)
    by (auto simp: store_ext_def alloc_grouplist_def alloc_bridge_def intro!: exI[of _ "next_ref h1"])
qed

text \<open>
  A clone has the status of its original, and nothing that is done to the clone's groups
  shows in an object that was there before.
\<close>

lemma find_map_fst:
  "map f xs = map g ys \<Longrightarrow> map_option f (List.find (\<lambda>x. P (f x)) xs) = map_option g (List.find (\<lambda>y. P (g y)) ys)"
proof (induction xs arbitrary: ys)
  case (Cons x xs)
  then show ?case by (cases ys) auto
qed simp

lemma Clone_GetGroup:
  assumes "wf_store h" "r < next_ref h" "Clone h r = (h', r')"
  shows "map_option (groups_at h') (GetGroup h' (bridges_at h' r'))
       = map_option (groups_at h) (GetGroup h (bridges_at h r))"
proof -
  from Clone_spec[OF assms] obtain gl where
    "bridges_at h' r' = (bridges_at h r)\<lparr>b_groups := gl\<rparr>"
    "map (groups_at h') (grouplists_at h' gl)
       = map (groups_at h) (grouplists_at h (b_groups (bridges_at h r)))" by blast
  then show ?thesis
    using find_map_fst[of "groups_at h'" "grouplists_at h' gl" "groups_at h" _
        "\<lambda>g. g_id g = b_selectedGroup (bridges_at h r)"]
    by (simp add: GetGroup_def GetGroupById_def)
qed

text \<open>The predicates read off the fields they depend on, for records that were updated.\<close>

definition valid_model :: "string \<Rightarrow> int \<Rightarrow> bool" where
  "valid_model m supported = projr
     (case model_digits m of None \<Rightarrow> Inr False
      | Some ds \<Rightarrow> (case stoi ds of Inl e \<Rightarrow> Inl e | Inr version \<Rightarrow> Inr (version \<ge> supported)))"

definition valid_version :: "string \<Rightarrow> int \<Rightarrow> int \<Rightarrow> int \<Rightarrow> bool" where
  "valid_version v ma mi bu = projr
     (case ApiVersion_of_string v of Inl e \<Rightarrow> Inl e
      | Inr thisVersion \<Rightarrow>
          Inr (v_valid thisVersion \<and> version_ge thisVersion (ApiVersion_of_numbers ma mi bu)))"

lemma IsValidModelId_eq:
  "IsValidModelId b = valid_model (b_modelId b) (supportedModel (b_bridgeSettings b))"
  by (simp add: IsValidModelId_def IsValidModelId_r_def valid_model_def)

lemma IsValidApiVersion_eq:
  "IsValidApiVersion b = valid_version (b_apiversion b) (supportedApiVersionMajor (b_bridgeSettings b))
     (supportedApiVersionMinor (b_bridgeSettings b)) (supportedApiVersionBuild (b_bridgeSettings b))"
  by (simp add: IsValidApiVersion_def IsValidApiVersion_r_def valid_version_def Let_def split: sum.split)

lemmas bridge_flags = IsEmpty_def IsFound_def IsValidModelId_eq IsConnectable_def IsConnected_def
  IsValidApiVersion_eq IsValidClientKey_def HasEverBeenAuthorizedForStreaming_def
  IsAuthorizedForStreaming_def

lemma Clone_status:
  assumes "wf_store h" "r < next_ref h" "Clone h r = (h', r')"
  shows "GetStatus h' (bridges_at h' r') = GetStatus h (bridges_at h r)"
proof -
  from Clone_spec[OF assms] obtain gl where
    gl: "bridges_at h' r' = (bridges_at h r)\<lparr>b_groups := gl\<rparr>"
    "map (groups_at h') (grouplists_at h' gl)
       = map (groups_at h) (grouplists_at h (b_groups (bridges_at h r)))" by blast
  have len: "length (grouplists_at h' gl) = length (grouplists_at h (b_groups (bridges_at h r)))"
    using gl(2) by (metis length_map)
  show ?thesis
    using Clone_GetGroup[OF assms] len gl(1)
    by (auto simp: GetStatus_def bridge_flags split: option.splits)
qed

end
