(* ===== verification/HueStreamData.thy ===== *)
theory HueStreamData imports Bridge begin

text \<open>
  \<open>huestream/common/data/HueStreamData\<close>: the bridges the library knows, the active one last.
  \<open>GetActiveBridge\<close> is a const method that appends an empty bridge to an empty list, so
  every caller threads the store and the data through it.
\<close>

record HueStreamData =
  d_version :: int
  d_bridges :: "ref list"
  d_bridgeSettings :: BridgeSettings

definition HueStreamData_new :: "BridgeSettings \<Rightarrow> store \<Rightarrow> store \<times> HueStreamData" where
  "HueStreamData_new settings h =
     (let (h1, r) = new_bridge settings h
      in (h1, \<lparr>d_version = 0, d_bridges = [r], d_bridgeSettings = settings\<rparr>))"

definition Data_Clear :: "store \<Rightarrow> HueStreamData \<Rightarrow> store \<times> HueStreamData" where
  "Data_Clear h d = (let (h1, r) = new_bridge (d_bridgeSettings d) h in (h1, d\<lparr>d_bridges := [r]\<rparr>))"

definition GetActiveBridge :: "store \<Rightarrow> HueStreamData \<Rightarrow> store \<times> HueStreamData \<times> ref" where
  "GetActiveBridge h d =
     (if d_bridges d = []
      then let (h1, r) = new_bridge (d_bridgeSettings d) h in (h1, d\<lparr>d_bridges := [r]\<rparr>, r)
      else (h, d, last (d_bridges d)))"

definition RemoveBridge :: "store \<Rightarrow> HueStreamData \<Rightarrow> ref \<Rightarrow> HueStreamData \<times> bool" where
  "RemoveBridge h d r =
     (let same = (\<lambda>x. b_id (bridges_at h x) = b_id (bridges_at h r))
      in if find_index same (d_bridges d) \<noteq> None
         then (d\<lparr>d_bridges := erase_first same (d_bridges d)\<rparr>, True) else (d, False))"

definition SetActiveBridge :: "store \<Rightarrow> HueStreamData \<Rightarrow> ref \<Rightarrow> store \<times> HueStreamData" where
  "SetActiveBridge h d r =
     (case GetActiveBridge h d of (h1, d1, a) \<Rightarrow>
        let d2 = (if \<not> HasEverBeenAuthorizedForStreaming (bridges_at h1 a)
                  then d1\<lparr>d_bridges := butlast (d_bridges d1)\<rparr> else d1);
            d3 = fst (RemoveBridge h1 d2 r)
        in (h1, d3\<lparr>d_bridges := d_bridges d3 @ [r]\<rparr>))"

definition ClearActiveBridge :: "store \<Rightarrow> HueStreamData \<Rightarrow> store \<times> HueStreamData" where
  "ClearActiveBridge h d =
     (let d1 = (if d_bridges d \<noteq> [] then d\<lparr>d_bridges := butlast (d_bridges d)\<rparr> else d);
          (h1, r) = new_bridge (d_bridgeSettings d) h
      in (h1, d1\<lparr>d_bridges := d_bridges d1 @ [r]\<rparr>))"

text \<open>
  The loop of \<open>RediscoverKnownBridge\<close> over the known bridges, most recent first: the first
  discovered bridge with the same identifier gives a known, authorized bridge its address, and
  the first bridge found becomes \<open>activeBridge\<close>.
\<close>

fun rediscover_loop :: "ref list \<Rightarrow> ref list \<Rightarrow> store \<Rightarrow> ref option \<Rightarrow> store \<times> ref option" where
  "rediscover_loop [] discovered h activeBridge = (h, activeBridge)"
| "rediscover_loop (knownBridge # rs) discovered h activeBridge =
     (if IsAuthorizedForStreaming (bridges_at h knownBridge) then
        (case List.find (\<lambda>x. b_id (bridges_at h x) = b_id (bridges_at h knownBridge)) discovered of
           Some x \<Rightarrow>
             rediscover_loop rs discovered
               (upd_bridge knownBridge
                  (\<lambda>b. b\<lparr>b_ipAddress := b_ipAddress (bridges_at h x), b_isValidIp := True\<rparr>) h)
               (if activeBridge = None then Some knownBridge else activeBridge)
         | None \<Rightarrow> rediscover_loop rs discovered h activeBridge)
      else rediscover_loop rs discovered h activeBridge)"

definition RediscoverKnownBridge ::
  "store \<Rightarrow> HueStreamData \<Rightarrow> ref list \<Rightarrow> store \<times> HueStreamData \<times> bool" where
  "RediscoverKnownBridge h d discovered =
     (case rediscover_loop (rev (d_bridges d)) discovered h None of
        (h1, Some a) \<Rightarrow> (let (h2, d2) = SetActiveBridge h1 d a in (h2, d2, True))
      | (h1, None) \<Rightarrow> (h1, d, False))"

definition GetAllKnownBridges :: "store \<Rightarrow> HueStreamData \<Rightarrow> ref list" where
  "GetAllKnownBridges h d =
     filter (\<lambda>r. HasEverBeenAuthorizedForStreaming (bridges_at h r)) (rev (d_bridges d))"

section \<open>The list of bridges\<close>

text \<open>
  Behind the active bridge only bridges that have once been authorized are kept, and no
  identifier occurs twice among all of them.
\<close>

definition data_inv :: "store \<Rightarrow> HueStreamData \<Rightarrow> bool" where
  "data_inv h d \<longleftrightarrow>
     (\<forall>r\<in>set (d_bridges d). r < next_ref h)
     \<and> (\<forall>r\<in>set (butlast (d_bridges d)). HasEverBeenAuthorizedForStreaming (bridges_at h r))
     \<and> distinct (map (\<lambda>r. b_id (bridges_at h r)) (d_bridges d))"

lemma new_bridge_ext: "new_bridge settings h = (h', r) \<Longrightarrow> store_ext h h' \<and> r < next_ref h' \<and> next_ref h \<le> r
    \<and> (\<exists>gl. bridges_at h' r = new_bridge_value [] [] False settings gl \<and> grouplists_at h' gl = [] \<and> gl < next_ref h')"
  by (auto simp: new_bridge_def Let_def store_defs store_ext_def)

lemma GetActiveBridge_cases:
  assumes "GetActiveBridge h d = (h', d', a)"
  shows "store_ext h h' \<and> d_bridges d' \<noteq> [] \<and> a = last (d_bridges d')
    \<and> d_bridgeSettings d' = d_bridgeSettings d
    \<and> (d_bridges d \<noteq> [] \<longrightarrow> h' = h \<and> d' = d)"
  using assms new_bridge_ext[of "d_bridgeSettings d" h]
  by (auto simp: GetActiveBridge_def Let_def split: if_splits prod.splits)

lemma GetActiveBridge_nonempty:
  "d_bridges d \<noteq> [] \<Longrightarrow> GetActiveBridge h d = (h, d, last (d_bridges d))"
  by (simp add: GetActiveBridge_def)

lemma erase_first_subset: "set (erase_first p xs) \<subseteq> set xs"
  by (induction xs) auto

lemma erase_first_none: "\<forall>x\<in>set xs. \<not> p x \<Longrightarrow> erase_first p xs = xs"
  by (induction xs) auto

lemma erase_first_distinct:
  "distinct (map f xs) \<Longrightarrow> distinct (map f (erase_first (\<lambda>x. f x = v) xs))
     \<and> v \<notin> f ` set (erase_first (\<lambda>x. f x = v) xs)"
proof (induction xs)
  case (Cons x xs)
  then show ?case using erase_first_subset[of "\<lambda>x. f x = v" xs] by auto
qed simp

lemma RemoveBridge_eq:
  "fst (RemoveBridge h d r)
     = d\<lparr>d_bridges := erase_first (\<lambda>x. b_id (bridges_at h x) = b_id (bridges_at h r)) (d_bridges d)\<rparr>"
  by (simp add: RemoveBridge_def Let_def find_index_None_iff erase_first_none)

lemma RemoveBridge_removed:
  "snd (RemoveBridge h d r) \<longleftrightarrow> (\<exists>x\<in>set (d_bridges d). b_id (bridges_at h x) = b_id (bridges_at h r))"
  by (auto simp: RemoveBridge_def Let_def find_index_None_iff)

lemma data_inv_ext:
  assumes "data_inv h d" "store_ext h h'"
  shows "data_inv h' d"
proof -
  have eq: "\<forall>r\<in>set (d_bridges d). bridges_at h' r = bridges_at h r \<and> r < next_ref h'"
    using assms by (auto simp: data_inv_def store_ext_def)
  then have m: "map (\<lambda>r. b_id (bridges_at h' r)) (d_bridges d) = map (\<lambda>r. b_id (bridges_at h r)) (d_bridges d)"
    by simp
  have "\<forall>r\<in>set (butlast (d_bridges d)). HasEverBeenAuthorizedForStreaming (bridges_at h' r)"
    using eq assms(1) in_set_butlastD unfolding data_inv_def by metis
  then show ?thesis using eq assms(1) unfolding data_inv_def m by blast
qed

definition kept_bridges :: "store \<Rightarrow> HueStreamData \<Rightarrow> ref list" where
  "kept_bridges h d =
     (if \<not> HasEverBeenAuthorizedForStreaming (bridges_at h (last (d_bridges d)))
      then butlast (d_bridges d) else d_bridges d)"

lemma kept_subset: "set (kept_bridges h d) \<subseteq> set (d_bridges d)"
  by (auto simp: kept_bridges_def dest: in_set_butlastD)

lemma butlast_known:
  assumes "data_inv h d" "d_bridges d \<noteq> []"
  shows "\<forall>x\<in>set (kept_bridges h d). HasEverBeenAuthorizedForStreaming (bridges_at h x)"
proof -
  have "set (d_bridges d) = insert (last (d_bridges d)) (set (butlast (d_bridges d)))"
    using assms(2) by (metis append_butlast_last_id list.simps(15) rotate1.simps(2) set_rotate1)
  with assms(1) show ?thesis by (auto simp: data_inv_def kept_bridges_def)
qed

lemma distinct_map_butlast: "distinct (map f xs) \<Longrightarrow> distinct (map f (butlast xs))"
  by (simp add: map_butlast distinct_butlast)

lemma SetActiveBridge_eq:
  assumes "d_bridges d \<noteq> []"
  shows "SetActiveBridge h d r = (h, d\<lparr>d_bridges :=
           erase_first (\<lambda>x. b_id (bridges_at h x) = b_id (bridges_at h r)) (kept_bridges h d) @ [r]\<rparr>)"
  unfolding SetActiveBridge_def GetActiveBridge_nonempty[OF assms] kept_bridges_def
  by (simp add: RemoveBridge_eq Let_def)

lemma SetActiveBridge_inv:
  assumes "data_inv h d" "d_bridges d \<noteq> []" "r < next_ref h" "SetActiveBridge h d r = (h', d')"
  shows "h' = h \<and> data_inv h d' \<and> last (d_bridges d') = r \<and> d_bridges d' \<noteq> []
    \<and> set (d_bridges d') \<subseteq> insert r (set (d_bridges d))"
proof -
  let ?ds = "kept_bridges h d"
  let ?es = "erase_first (\<lambda>x. b_id (bridges_at h x) = b_id (bridges_at h r)) ?ds"
  have eq: "h' = h" "d_bridges d' = ?es @ [r]"
    using assms(4) by (simp_all add: SetActiveBridge_eq[OF assms(2)]) auto
  have sub: "set ?es \<subseteq> set (d_bridges d)"
    by (rule subset_trans[OF erase_first_subset kept_subset])
  have "distinct (map (\<lambda>x. b_id (bridges_at h x)) ?ds)"
    using assms(1) distinct_map_butlast by (auto simp: data_inv_def kept_bridges_def)
  from erase_first_distinct[OF this, of "b_id (bridges_at h r)"]
  have "distinct (map (\<lambda>x. b_id (bridges_at h x)) (?es @ [r]))" by auto
  moreover have "\<forall>x\<in>set ?es. HasEverBeenAuthorizedForStreaming (bridges_at h x)"
    using butlast_known[OF assms(1,2)] erase_first_subset[of _ ?ds] by blast
  ultimately show ?thesis using eq sub assms(1,3) by (auto simp: data_inv_def)
qed

text \<open>A known bridge that is not the active one stays known when another becomes active.\<close>

lemma erase_first_keeps: "x \<in> set xs \<Longrightarrow> \<not> p x \<Longrightarrow> x \<in> set (erase_first p xs)"
  by (induction xs) auto

lemma SetActiveBridge_keeps:
  assumes "x \<in> set (d_bridges d)" "HasEverBeenAuthorizedForStreaming (bridges_at h x)"
    "b_id (bridges_at h x) \<noteq> b_id (bridges_at h r)" "SetActiveBridge h d r = (h', d')"
  shows "x \<in> set (d_bridges d')"
proof -
  let ?ds = "kept_bridges h d"
  have ne: "d_bridges d \<noteq> []" using assms(1) by auto
  then have eq: "d_bridges d' = erase_first (\<lambda>x. b_id (bridges_at h x) = b_id (bridges_at h r)) ?ds @ [r]"
    using assms(4) by (auto simp: SetActiveBridge_eq[OF ne])
  have "x \<in> set (butlast (d_bridges d)) \<or> x = last (d_bridges d)"
    using assms(1) ne by (metis Un_iff append_butlast_last_id list.set(1,2) set_append singletonD insertE empty_iff)
  then have "x \<in> set ?ds" using assms(1,2) by (auto simp: kept_bridges_def)
  from erase_first_keeps[OF this, of "\<lambda>x. b_id (bridges_at h x) = b_id (bridges_at h r)"] assms(3) eq
  show ?thesis by simp
qed

section \<open>Rediscovery\<close>

definition discovered_as :: "store \<Rightarrow> ref list \<Rightarrow> ref \<Rightarrow> ref option" where
  "discovered_as h discovered r =
     (if IsAuthorizedForStreaming (bridges_at h r)
      then List.find (\<lambda>x. b_id (bridges_at h x) = b_id (bridges_at h r)) discovered else None)"

lemma rediscover_loop_frame:
  "rediscover_loop rs discovered h act = (h', act') \<Longrightarrow> x \<notin> set rs \<Longrightarrow>
     bridges_at h' x = bridges_at h x \<and> grouplists_at h' = grouplists_at h \<and> groups_at h' = groups_at h
     \<and> next_ref h' = next_ref h"
proof (induction rs discovered h act arbitrary: h' act' rule: rediscover_loop.induct)
  case (2 k rs discovered h act)
  then show ?case by (fastforce simp: upd_bridge_def split: if_splits option.splits)
qed simp

lemma rediscover_loop_id:
  "rediscover_loop rs discovered h act = (h', act') \<Longrightarrow> b_id (bridges_at h' x) = b_id (bridges_at h x)"
proof (induction rs discovered h act arbitrary: h' act' rule: rediscover_loop.induct)
  case (2 k rs discovered h act)
  then show ?case by (fastforce simp: upd_bridge_def split: if_splits option.splits)
qed simp

lemma rediscover_loop_Some:
  "rediscover_loop rs discovered h (Some a) = (h', act') \<Longrightarrow> act' = Some a"
proof (induction rs discovered h "Some a" arbitrary: h' rule: rediscover_loop.induct)
  case (2 k rs discovered h)
  then show ?case by (auto split: if_splits option.splits)
qed simp

lemma rediscover_loop_spec:
  assumes "rediscover_loop rs discovered h None = (h', act)" "distinct rs" "set rs \<inter> set discovered = {}"
  shows "(case List.find (\<lambda>r. discovered_as h discovered r \<noteq> None) rs of
      None \<Rightarrow> act = None \<and> h' = h
    | Some a \<Rightarrow> act = Some a \<and> b_isValidIp (bridges_at h' a)
        \<and> b_ipAddress (bridges_at h' a) = b_ipAddress (bridges_at h (the (discovered_as h discovered a))))"
  using assms
proof (induction rs)
  case (Cons k rs)
  show ?case
  proof (cases "discovered_as h discovered k")
    case None
    then have "rediscover_loop rs discovered h None = (h', act)"
      using Cons.prems(1) by (auto simp: discovered_as_def split: if_splits)
    with Cons None show ?thesis by auto
  next
    case (Some x)
    then have a: "IsAuthorizedForStreaming (bridges_at h k)"
      "List.find (\<lambda>x. b_id (bridges_at h x) = b_id (bridges_at h k)) discovered = Some x"
      by (auto simp: discovered_as_def split: if_splits)
    let ?h = "upd_bridge k (\<lambda>b. b\<lparr>b_ipAddress := b_ipAddress (bridges_at h x), b_isValidIp := True\<rparr>) h"
    from Cons.prems(1) a have lp: "rediscover_loop rs discovered ?h (Some k) = (h', act)" by simp
    with rediscover_loop_Some have "act = Some k" by blast
    moreover have "bridges_at h' k = bridges_at ?h k"
      using rediscover_loop_frame[OF lp] Cons.prems(2) by auto
    ultimately show ?thesis using Some by (simp add: upd_bridge_def)
  qed
qed simp

end
