(* ===== verification/FeedbackMessage.thy ===== *)
theory FeedbackMessage imports Bridge begin

text \<open>
  \<open>huestream/connect/FeedbackMessage\<close>: the messages by which the library tells the application
  how a request proceeds, with the tables from an identifier to its type and its tag. A message
  refers to its bridge by address; the list of bridges it may carry is a list of addresses.
\<close>

section \<open>Identifiers, requests and types\<close>

datatype Id =
    ID_USERPROCEDURE_STARTED
  | ID_START_LOADING
  | ID_FINISH_LOADING_NO_BRIDGE_CONFIGURED
  | ID_FINISH_LOADING_BRIDGE_CONFIGURED
  | ID_START_SEARCHING
  | ID_FINISH_SEARCHING_NO_BRIDGES_FOUND
  | ID_FINISH_SEARCHING_INVALID_BRIDGES_FOUND
  | ID_FINISH_SEARCH_BRIDGES_FOUND
  | ID_START_AUTHORIZING
  | ID_PRESS_PUSH_LINK
  | ID_FINISH_AUTHORIZING_AUTHORIZED
  | ID_FINISH_AUTHORIZING_FAILED
  | ID_START_RETRIEVING_SMALL
  | ID_FINISH_RETRIEVING_SMALL
  | ID_START_RETRIEVING
  | ID_FINISH_RETRIEVING_FAILED
  | ID_FINISH_RETRIEVING_READY_TO_START
  | ID_FINISH_RETRIEVING_ACTION_REQUIRED
  | ID_START_SAVING
  | ID_FINISH_SAVING_SAVED
  | ID_FINISH_SAVING_FAILED
  | ID_START_ACTIVATING
  | ID_FINISH_ACTIVATING_ACTIVE
  | ID_FINISH_ACTIVATING_FAILED
  | ID_NO_BRIDGE_FOUND
  | ID_BRIDGE_NOT_FOUND
  | ID_INVALID_MODEL
  | ID_INVALID_VERSION
  | ID_NO_GROUP_AVAILABLE
  | ID_BUSY_STREAMING
  | ID_SELECT_GROUP
  | ID_DONE_NO_BRIDGE_FOUND
  | ID_DONE_BRIDGE_FOUND
  | ID_DONE_ACTION_REQUIRED
  | ID_DONE_COMPLETED
  | ID_DONE_ABORTED
  | ID_DONE_RESET
  | ID_USERPROCEDURE_FINISHED
  | ID_BRIDGE_CONNECTED
  | ID_BRIDGE_DISCONNECTED
  | ID_STREAMING_CONNECTED
  | ID_STREAMING_DISCONNECTED
  | ID_BRIDGE_CHANGED
  | ID_LIGHTS_UPDATED
  | ID_GROUPLIST_UPDATED
  | ID_GROUP_LIGHTSTATE_UPDATED
  | ID_ZONELIST_UPDATED
  | ID_ZONE_SCENELIST_UPDATED
  | ID_INVALID_EVENTING_CONNECTION
  | ID_BRIDGE_REFRESHED
  | ID_INTERNAL_ERROR

datatype RequestType =
    REQUEST_TYPE_INTERNAL
  | REQUEST_TYPE_LOAD_BRIDGE
  | REQUEST_TYPE_CONNECT
  | REQUEST_TYPE_CONNECT_BACKGROUND
  | REQUEST_TYPE_CONNECT_IP
  | REQUEST_TYPE_SET_MANUAL_BRIDGE
  | REQUEST_TYPE_CONNECT_NEW
  | REQUEST_TYPE_CONNECT_ID_KEY
  | REQUEST_TYPE_RESET_BRIDGE
  | REQUEST_TYPE_RESET_ALL
  | REQUEST_TYPE_SELECT
  | REQUEST_TYPE_ACTIVATE
  | REQUEST_TYPE_DEACTIVATE

datatype FeedbackType = FEEDBACK_TYPE_INFO | FEEDBACK_TYPE_USER

record FeedbackMessage =
  fm_id :: Id
  fm_requestType :: RequestType
  fm_bridge :: ref
  fm_bridgeList :: "ref list"

definition message :: "RequestType \<Rightarrow> Id \<Rightarrow> ref \<Rightarrow> FeedbackMessage" where
  "message reqType i bridge =
     \<lparr>fm_id = i, fm_requestType = reqType, fm_bridge = bridge, fm_bridgeList = []\<rparr>"

definition message_list :: "RequestType \<Rightarrow> Id \<Rightarrow> ref \<Rightarrow> ref list \<Rightarrow> FeedbackMessage" where
  "message_list reqType i bridge bridgeList =
     \<lparr>fm_id = i, fm_requestType = reqType, fm_bridge = bridge, fm_bridgeList = bridgeList\<rparr>"

section \<open>The tables\<close>

definition idTypeMap :: "(Id \<times> FeedbackType) list" where
  "idTypeMap =
     [(ID_USERPROCEDURE_STARTED, FEEDBACK_TYPE_INFO),
      (ID_START_LOADING, FEEDBACK_TYPE_INFO),
      (ID_FINISH_LOADING_NO_BRIDGE_CONFIGURED, FEEDBACK_TYPE_INFO),
      (ID_FINISH_LOADING_BRIDGE_CONFIGURED, FEEDBACK_TYPE_INFO),
      (ID_START_SEARCHING, FEEDBACK_TYPE_INFO),
      (ID_FINISH_SEARCHING_NO_BRIDGES_FOUND, FEEDBACK_TYPE_INFO),
      (ID_FINISH_SEARCHING_INVALID_BRIDGES_FOUND, FEEDBACK_TYPE_INFO),
      (ID_FINISH_SEARCH_BRIDGES_FOUND, FEEDBACK_TYPE_INFO),
      (ID_START_AUTHORIZING, FEEDBACK_TYPE_INFO),
      (ID_PRESS_PUSH_LINK, FEEDBACK_TYPE_USER),
      (ID_FINISH_AUTHORIZING_AUTHORIZED, FEEDBACK_TYPE_INFO),
      (ID_FINISH_AUTHORIZING_FAILED, FEEDBACK_TYPE_INFO),
      (ID_START_RETRIEVING_SMALL, FEEDBACK_TYPE_INFO),
      (ID_FINISH_RETRIEVING_SMALL, FEEDBACK_TYPE_INFO),
      (ID_START_RETRIEVING, FEEDBACK_TYPE_INFO),
      (ID_FINISH_RETRIEVING_FAILED, FEEDBACK_TYPE_INFO),
      (ID_FINISH_RETRIEVING_READY_TO_START, FEEDBACK_TYPE_INFO),
      (ID_FINISH_RETRIEVING_ACTION_REQUIRED, FEEDBACK_TYPE_INFO),
      (ID_START_SAVING, FEEDBACK_TYPE_INFO),
      (ID_FINISH_SAVING_SAVED, FEEDBACK_TYPE_INFO),
      (ID_FINISH_SAVING_FAILED, FEEDBACK_TYPE_INFO),
      (ID_START_ACTIVATING, FEEDBACK_TYPE_INFO),
      (ID_FINISH_ACTIVATING_ACTIVE, FEEDBACK_TYPE_INFO),
      (ID_FINISH_ACTIVATING_FAILED, FEEDBACK_TYPE_INFO),
      (ID_NO_BRIDGE_FOUND, FEEDBACK_TYPE_USER),
      (ID_BRIDGE_NOT_FOUND, FEEDBACK_TYPE_USER),
      (ID_INVALID_MODEL, FEEDBACK_TYPE_USER),
      (ID_INVALID_VERSION, FEEDBACK_TYPE_USER),
      (ID_NO_GROUP_AVAILABLE, FEEDBACK_TYPE_USER),
      (ID_BUSY_STREAMING, FEEDBACK_TYPE_USER),
      (ID_SELECT_GROUP, FEEDBACK_TYPE_USER),
      (ID_DONE_NO_BRIDGE_FOUND, FEEDBACK_TYPE_INFO),
      (ID_DONE_BRIDGE_FOUND, FEEDBACK_TYPE_INFO),
      (ID_DONE_ACTION_REQUIRED, FEEDBACK_TYPE_INFO),
      (ID_DONE_COMPLETED, FEEDBACK_TYPE_INFO),
      (ID_DONE_ABORTED, FEEDBACK_TYPE_INFO),
      (ID_DONE_RESET, FEEDBACK_TYPE_INFO),
      (ID_USERPROCEDURE_FINISHED, FEEDBACK_TYPE_INFO),
      (ID_BRIDGE_CONNECTED, FEEDBACK_TYPE_INFO),
      (ID_BRIDGE_DISCONNECTED, FEEDBACK_TYPE_INFO),
      (ID_STREAMING_CONNECTED, FEEDBACK_TYPE_INFO),
      (ID_STREAMING_DISCONNECTED, FEEDBACK_TYPE_USER),
      (ID_BRIDGE_CHANGED, FEEDBACK_TYPE_INFO),
      (ID_LIGHTS_UPDATED, FEEDBACK_TYPE_INFO),
      (ID_GROUPLIST_UPDATED, FEEDBACK_TYPE_INFO),
      (ID_GROUP_LIGHTSTATE_UPDATED, FEEDBACK_TYPE_INFO),
      (ID_ZONELIST_UPDATED, FEEDBACK_TYPE_INFO),
      (ID_ZONE_SCENELIST_UPDATED, FEEDBACK_TYPE_INFO),
      (ID_INVALID_EVENTING_CONNECTION, FEEDBACK_TYPE_INFO),
      (ID_BRIDGE_REFRESHED, FEEDBACK_TYPE_INFO),
      (ID_INTERNAL_ERROR, FEEDBACK_TYPE_USER)]"

definition idTagMap :: "(Id \<times> string) list" where
  "idTagMap =
     [(ID_USERPROCEDURE_STARTED, ''ID_USERPROCEDURE_STARTED''),
      (ID_START_LOADING, ''ID_START_LOADING''),
      (ID_FINISH_LOADING_NO_BRIDGE_CONFIGURED, ''ID_FINISH_LOADING_NO_BRIDGE_CONFIGURED''),
      (ID_FINISH_LOADING_BRIDGE_CONFIGURED, ''ID_FINISH_LOADING_BRIDGE_CONFIGURED''),
      (ID_START_SEARCHING, ''ID_START_SEARCHING''),
      (ID_FINISH_SEARCHING_NO_BRIDGES_FOUND, ''ID_FINISH_SEARCHING_NO_BRIDGES_FOUND''),
      (ID_FINISH_SEARCHING_INVALID_BRIDGES_FOUND, ''ID_FINISH_SEARCHING_INVALID_BRIDGES_FOUND''),
      (ID_FINISH_SEARCH_BRIDGES_FOUND, ''ID_FINISH_SEARCH_BRIDGES_FOUND''),
      (ID_START_AUTHORIZING, ''ID_START_AUTHORIZING''),
      (ID_PRESS_PUSH_LINK, ''ID_PRESS_PUSH_LINK''),
      (ID_FINISH_AUTHORIZING_AUTHORIZED, ''ID_FINISH_AUTHORIZING_AUTHORIZED''),
      (ID_FINISH_AUTHORIZING_FAILED, ''ID_FINISH_AUTHORIZING_FAILED''),
      (ID_START_RETRIEVING_SMALL, ''ID_START_RETRIEVING_SMALL''),
      (ID_FINISH_RETRIEVING_SMALL, ''ID_FINISH_RETRIEVING_SMALL''),
      (ID_START_RETRIEVING, ''ID_START_RETRIEVING''),
      (ID_FINISH_RETRIEVING_FAILED, ''ID_FINISH_RETRIEVING_FAILED''),
      (ID_FINISH_RETRIEVING_READY_TO_START, ''ID_FINISH_RETRIEVING_READY_TO_START''),
      (ID_FINISH_RETRIEVING_ACTION_REQUIRED, ''ID_FINISH_RETRIEVING_ACTION_REQUIRED''),
      (ID_START_SAVING, ''ID_START_SAVING''),
      (ID_FINISH_SAVING_SAVED, ''ID_FINISH_SAVING_SAVED''),
      (ID_FINISH_SAVING_FAILED, ''ID_FINISH_SAVING_FAILED''),
      (ID_START_ACTIVATING, ''ID_START_ACTIVATING''),
      (ID_FINISH_ACTIVATING_ACTIVE, ''ID_FINISH_ACTIVATING_ACTIVE''),
      (ID_FINISH_ACTIVATING_FAILED, ''ID_FINISH_ACTIVATING_FAILED''),
      (ID_NO_BRIDGE_FOUND, ''ID_NO_BRIDGE_FOUND''),
      (ID_BRIDGE_NOT_FOUND, ''ID_BRIDGE_NOT_FOUND''),
      (ID_INVALID_MODEL, ''ID_INVALID_MODEL''),
      (ID_INVALID_VERSION, ''ID_INVALID_VERSION''),
      (ID_NO_GROUP_AVAILABLE, ''ID_NO_GROUP_AVAILABLE''),
      (ID_BUSY_STREAMING, ''ID_BRIDGE_BUSY''),
      (ID_SELECT_GROUP, ''ID_SELECT_GROUP''),
      (ID_DONE_NO_BRIDGE_FOUND, ''ID_DONE_NO_BRIDGE_FOUND''),
      (ID_DONE_BRIDGE_FOUND, ''ID_DONE_BRIDGE_FOUND''),
      (ID_DONE_ACTION_REQUIRED, ''ID_DONE_ACTION_REQUIRED''),
      (ID_DONE_COMPLETED, ''ID_DONE_COMPLETED''),
      (ID_DONE_ABORTED, ''ID_DONE_ABORTED''),
      (ID_DONE_RESET, ''ID_DONE_RESET''),
      (ID_USERPROCEDURE_FINISHED, ''ID_USERPROCEDURE_FINISHED''),
      (ID_BRIDGE_CONNECTED, ''ID_BRIDGE_CONNECTED''),
      (ID_BRIDGE_DISCONNECTED, ''ID_BRIDGE_DISCONNECTED''),
      (ID_STREAMING_CONNECTED, ''ID_STREAMING_CONNECTED''),
      (ID_STREAMING_DISCONNECTED, ''ID_STREAMING_DISCONNECTED''),
      (ID_BRIDGE_CHANGED, ''ID_BRIDGE_CHANGED''),
      (ID_LIGHTS_UPDATED, ''ID_LIGHTS_UPDATED''),
      (ID_GROUPLIST_UPDATED, ''ID_GROUPLIST_UPDATED''),
      (ID_GROUP_LIGHTSTATE_UPDATED, ''ID_GROUP_LIGHTSTATE_UPDATED''),
      (ID_ZONELIST_UPDATED, ''ID_ZONELIST_UPDATED''),
      (ID_ZONE_SCENELIST_UPDATED, ''ID_ZONE_SCENELIST_UPDATED''),
      (ID_INVALID_EVENTING_CONNECTION, ''ID_INVALID_EVENTING_CONNECTION''),
      (ID_BRIDGE_REFRESHED, ''ID_BRIDGE_REFRESHED''),
      (ID_INTERNAL_ERROR, ''ID_INTERNAL_ERROR'')]"

definition requestStringMap :: "(RequestType \<times> string) list" where
  "requestStringMap =
     [(REQUEST_TYPE_INTERNAL, ''REQUEST_TYPE_INTERNAL''),
      (REQUEST_TYPE_LOAD_BRIDGE, ''REQUEST_TYPE_LOAD_BRIDGE''),
      (REQUEST_TYPE_CONNECT, ''REQUEST_TYPE_CONNECT''),
      (REQUEST_TYPE_CONNECT_BACKGROUND, ''REQUEST_TYPE_CONNECT_BACKGROUND''),
      (REQUEST_TYPE_CONNECT_IP, ''REQUEST_TYPE_CONNECT_IP''),
      (REQUEST_TYPE_CONNECT_NEW, ''REQUEST_TYPE_CONNECT_NEW''),
      (REQUEST_TYPE_SET_MANUAL_BRIDGE, ''REQUEST_TYPE_SET_MANUAL_BRIDGE''),
      (REQUEST_TYPE_CONNECT_ID_KEY, ''REQUEST_TYPE_CONNECT_ID_KEY''),
      (REQUEST_TYPE_RESET_BRIDGE, ''REQUEST_TYPE_RESET_BRIDGE''),
      (REQUEST_TYPE_RESET_ALL, ''REQUEST_TYPE_RESET_ALL''),
      (REQUEST_TYPE_SELECT, ''REQUEST_TYPE_SELECT''),
      (REQUEST_TYPE_ACTIVATE, ''REQUEST_TYPE_ACTIVATE''),
      (REQUEST_TYPE_DEACTIVATE, ''REQUEST_TYPE_DEACTIVATE'')]"

section \<open>Reading a message\<close>

definition GetMessageType :: "FeedbackMessage \<Rightarrow> FeedbackType" where
  "GetMessageType m = (case map_of idTypeMap (fm_id m) of Some t \<Rightarrow> t | None \<Rightarrow> FEEDBACK_TYPE_INFO)"

definition GetTag :: "FeedbackMessage \<Rightarrow> string" where
  "GetTag m = (case map_of idTagMap (fm_id m) of Some t \<Rightarrow> t | None \<Rightarrow> ''UNKOWN'')"

text \<open>
  The translator is installed by the application: \<open>None\<close> is the null pointer. The bridge of the
  message is dereferenced whatever the identifier is.
\<close>

definition GetUserMessage :: "(string \<Rightarrow> string) option \<Rightarrow> store \<Rightarrow> FeedbackMessage \<Rightarrow> string" where
  "GetUserMessage translator h m =
     (let m0 = (case translator of Some translate \<Rightarrow> translate (GetTag m) | None \<Rightarrow> []);
          numBridges = length (fm_bridgeList m);
          m1 = (if fm_id m = ID_PRESS_PUSH_LINK
                then dec_digits numBridges @ '' Hue Bridge'' @ (if numBridges = 1 then [] else ''s'') @ m0
                else m0);
          owned = GetGroupsOwnedByOtherClient h (bridges_at h (fm_bridge m))
      in if fm_id m = ID_BUSY_STREAMING \<and> length owned > 0
         then m1 @ GetFriendlyOwnerName (groups_at h (owned ! 0)) @ '' - '' @ g_name (groups_at h (owned ! 0)) @ ''.''
         else m1)"

definition GetDebugMessage :: "FeedbackMessage \<Rightarrow> string" where
  "GetDebugMessage m =
     (case map_of requestStringMap (fm_requestType m) of Some s \<Rightarrow> s | None \<Rightarrow> ''Unknown'')
     @ '': '' @ GetTag m"

end
