(* ===== verification/BridgeStreamingChecker.thy ===== *)
theory BridgeStreamingChecker imports FeedbackMessage begin

text \<open>
  \<open>huestream/connect/BridgeStreamingChecker\<close>: the differences between two states of a bridge
  that are reported to the application, and the periodic check of the connection to a bridge
  with the CLIP v2 interface, whose two \<open>static\<close> variables are the record \<open>check_statics\<close>.
\<close>

section \<open>Comparing two states of a bridge\<close>

definition IsBridgeChanged :: "Bridge \<Rightarrow> Bridge \<Rightarrow> bool" where
  "IsBridgeChanged oldBridge newBridge \<longleftrightarrow>
     b_id oldBridge \<noteq> b_id newBridge \<or> b_name oldBridge \<noteq> b_name newBridge
     \<or> b_ipAddress oldBridge \<noteq> b_ipAddress newBridge \<or> b_modelId oldBridge \<noteq> b_modelId newBridge
     \<or> b_apiversion oldBridge \<noteq> b_apiversion newBridge \<or> b_user oldBridge \<noteq> b_user newBridge
     \<or> b_clientKey oldBridge \<noteq> b_clientKey newBridge"

fun groups_differ :: "Group list \<Rightarrow> Group list \<Rightarrow> bool" where
  "groups_differ (e # es) (a # as) \<longleftrightarrow>
     g_id e \<noteq> g_id a \<or> g_name e \<noteq> g_name a \<or> g_active e \<noteq> g_active a \<or> g_owner e \<noteq> g_owner a
     \<or> groups_differ es as"
| "groups_differ _ _ \<longleftrightarrow> False"

definition AreGroupsUpdated :: "Group list \<Rightarrow> Group list \<Rightarrow> bool" where
  "AreGroupsUpdated expectedGroups actualGroups \<longleftrightarrow>
     length actualGroups \<noteq> length expectedGroups \<or> groups_differ expectedGroups actualGroups"

definition IsPositionLightUpdated :: "Location \<Rightarrow> Location \<Rightarrow> bool" where
  "IsPositionLightUpdated e a \<longleftrightarrow> loc_x e \<noteq> loc_x a \<or> loc_y e \<noteq> loc_y a"

text \<open>The literal \<open>0.0274f\<close> is the \<open>float\<close> nearest to 0.0274, a dyadic rational.\<close>

definition color_tolerance :: real where
  "color_tolerance = 14710263 / 536870912"

definition IsLightColorUpdated :: "Color \<Rightarrow> Color \<Rightarrow> bool" where
  "IsLightColorUpdated e a \<longleftrightarrow> \<bar>red e - red a\<bar> > color_tolerance
     \<or> \<bar>green e - green a\<bar> > color_tolerance \<or> \<bar>blue e - blue a\<bar> > color_tolerance"

definition IsLightUpdated :: "Light \<Rightarrow> Light \<Rightarrow> bool" where
  "IsLightUpdated e a \<longleftrightarrow> l_id e \<noteq> l_id a \<or> IsPositionLightUpdated (l_position e) (l_position a)
     \<or> IsLightColorUpdated (l_color e) (l_color a) \<or> l_reachable e \<noteq> l_reachable a"

fun lights_differ :: "Light list \<Rightarrow> Light list \<Rightarrow> bool" where
  "lights_differ (e # es) (a # as) \<longleftrightarrow> IsLightUpdated e a \<or> lights_differ es as"
| "lights_differ _ _ \<longleftrightarrow> False"

definition AreLightsUpdated :: "Light list \<Rightarrow> Light list \<Rightarrow> bool" where
  "AreLightsUpdated expectedLights actualLights \<longleftrightarrow>
     length actualLights \<noteq> length expectedLights \<or> lights_differ expectedLights actualLights"

definition IsHomeAutomationStateUpdated :: "Group option \<Rightarrow> Group option \<Rightarrow> bool" where
  "IsHomeAutomationStateUpdated expectedGroup actualGroup =
     (case actualGroup of None \<Rightarrow> False
      | Some a \<Rightarrow> (case expectedGroup of None \<Rightarrow> True
                  | Some e \<Rightarrow> g_onState e \<noteq> g_onState a \<or> g_brightnessState e \<noteq> g_brightnessState a))"

definition bridge_groups :: "store \<Rightarrow> Bridge \<Rightarrow> Group list" where
  "bridge_groups h b = map (groups_at h) (grouplists_at h (b_groups b))"

definition selected_group :: "store \<Rightarrow> Bridge \<Rightarrow> Group option" where
  "selected_group h b = map_option (groups_at h) (GetGroup h b)"

definition CompareBridges :: "store \<Rightarrow> Bridge \<Rightarrow> Bridge \<Rightarrow> Id list" where
  "CompareBridges h oldBridge newBridge =
     (if \<not> IsConnected oldBridge \<and> IsConnected newBridge then [ID_BRIDGE_CONNECTED] else [])
     @ (if IsConnected oldBridge \<and> \<not> IsConnected newBridge then [ID_BRIDGE_DISCONNECTED] else [])
     @ (if \<not> IsStreaming h oldBridge \<and> IsStreaming h newBridge then [ID_STREAMING_CONNECTED] else [])
     @ (if IsStreaming h oldBridge \<and> \<not> IsStreaming h newBridge then [ID_STREAMING_DISCONNECTED] else [])
     @ (if IsBridgeChanged oldBridge newBridge then [ID_BRIDGE_CHANGED] else [])
     @ (if AreGroupsUpdated (bridge_groups h oldBridge) (bridge_groups h newBridge)
        then [ID_GROUPLIST_UPDATED] else [])
     @ (if AreLightsUpdated (GetGroupLights h oldBridge) (GetGroupLights h newBridge)
        then [ID_LIGHTS_UPDATED] else [])
     @ (if \<not> IsStreaming h newBridge
           \<and> IsHomeAutomationStateUpdated (selected_group h oldBridge) (selected_group h newBridge)
        then [ID_GROUP_LIGHTSTATE_UPDATED] else [])"

section \<open>The periodic check\<close>

record check_statics =
  lastLocalPort :: int
  lastBridgeId :: "string option"

text \<open>
  The answer to the request of a check, handled by the callback of \<open>Check\<close> for a bridge with
  the CLIP v2 interface: \<open>errorCode\<close>, \<open>statusCode\<close> and \<open>localPort\<close> are what the HTTP client reports.
  \<open>lastBridgeId\<close> gets its initial value when the callback runs for the first time. The messages
  are given to the callback of the checker in the order of the list.
\<close>

definition effective_error :: "check_statics \<Rightarrow> string \<Rightarrow> ErrorCode \<Rightarrow> int \<Rightarrow> ErrorCode" where
  "effective_error st i errorCode localPort =
     (if errorCode = HTTP_REQUEST_ERROR_CODE_SUCCESS \<and> the (lastBridgeId st) = i
         \<and> lastLocalPort st \<noteq> 0 \<and> lastLocalPort st \<noteq> localPort
      then HTTP_REQUEST_ERROR_CODE_INVALID_EVENTING_CONNECTION else errorCode)"

definition CheckCompleted ::
  "store \<Rightarrow> check_statics \<Rightarrow> ref \<Rightarrow> ErrorCode \<Rightarrow> int \<Rightarrow> int
     \<Rightarrow> store \<times> check_statics \<times> FeedbackMessage list" where
  "CheckCompleted h st0 r errorCode0 statusCode localPort =
     (let msg = (\<lambda>i. message REQUEST_TYPE_INTERNAL i r);
          i = b_id (bridges_at h r);
          st = (if lastBridgeId st0 = None then st0\<lparr>lastBridgeId := Some i\<rparr> else st0);
          errorCode = effective_error st i errorCode0 localPort;
          h1 = upd_bridge r (\<lambda>b. b\<lparr>b_lastHttpErrorCode := errorCode, b_lastHttpStatusCode := statusCode\<rparr>) h;
          b = bridges_at h1 r
      in if errorCode = HTTP_REQUEST_ERROR_CODE_SUCCESS \<and> statusCode = 200 then
           (let (h2, ms) = (if \<not> IsConnected b
                            then (upd_bridge r (\<lambda>b. b\<lparr>b_isValidIp := True\<rparr>) h1, [msg ID_BRIDGE_CONNECTED])
                            else (h1, []))
            in (h2, if localPort > 0 then st\<lparr>lastLocalPort := localPort, lastBridgeId := Some i\<rparr> else st, ms))
         else if errorCode = HTTP_REQUEST_ERROR_CODE_INVALID_EVENTING_CONNECTION then
           (if IsConnected b
            then (h1, if localPort > 0 then st\<lparr>lastLocalPort := localPort\<rparr> else st,
                  [msg ID_INVALID_EVENTING_CONNECTION])
            else (h1, st\<lparr>lastLocalPort := 0\<rparr>, []))
         else if IsConnected b then
           (let (h2, ms) = (if IsStreaming h1 b
                            then (upd_group (the (GetGroup h1 b)) (\<lambda>g. g\<lparr>g_active := False, g_owner := []\<rparr>) h1,
                                  [msg ID_STREAMING_DISCONNECTED])
                            else (h1, []))
            in (upd_bridge r (\<lambda>b. b\<lparr>b_isValidIp := False\<rparr>) h2, st\<lparr>lastLocalPort := 0\<rparr>,
                ms @ [msg ID_BRIDGE_DISCONNECTED]))
         else (h1, st\<lparr>lastLocalPort := 0\<rparr>, []))"

text \<open>
  The answer for a bridge without that interface: the retriever delivers \<open>actualBridge\<close>, a
  changed clone.
\<close>

definition CheckRetrieved :: "store \<Rightarrow> ref \<Rightarrow> ref \<Rightarrow> FeedbackMessage list" where
  "CheckRetrieved h bridge actualBridge =
     (if \<not> IsConnected (bridges_at h bridge) \<and> \<not> IsConnected (bridges_at h actualBridge) then []
      else map (\<lambda>i. message REQUEST_TYPE_INTERNAL i actualBridge)
             (CompareBridges h (bridges_at h bridge) (bridges_at h actualBridge)))"

section \<open>What a comparison reports\<close>

lemma groups_differ_same: "\<not> groups_differ gs gs"
  by (induction gs) auto

lemma color_tolerance_pos: "0 < color_tolerance"
  by (simp add: color_tolerance_def)

lemma lights_differ_same: "\<not> lights_differ ls ls"
proof (induction ls)
  case (Cons l ls)
  then show ?case
    using color_tolerance_pos by (auto simp: IsLightUpdated_def IsPositionLightUpdated_def IsLightColorUpdated_def)
qed simp

lemma IsHomeAutomation_same: "\<not> IsHomeAutomationStateUpdated g g"
  by (auto simp: IsHomeAutomationStateUpdated_def split: option.splits)

text \<open>
  Two bridges that agree on the compared fields, and whose groups and selection agree, are not
  told apart; in particular a clone differs from its original in nothing.
\<close>

lemma CompareBridges_same:
  assumes "IsConnected b' = IsConnected b" "IsStreaming h b' = IsStreaming h b" "\<not> IsBridgeChanged b b'"
    "bridge_groups h b' = bridge_groups h b" "selected_group h b' = selected_group h b"
  shows "CompareBridges h b b' = []"
proof -
  have "GetGroupLights h b' = GetGroupLights h b"
    using assms(5) by (auto simp: GetGroupLights_def selected_group_def split: option.splits)
  then show ?thesis
    using assms groups_differ_same lights_differ_same IsHomeAutomation_same
    by (simp add: CompareBridges_def AreGroupsUpdated_def AreLightsUpdated_def)
qed

lemma GetStatus_IsStreaming: "IsStreaming h b \<longleftrightarrow> GetStatus h b = BRIDGE_STREAMING"
  by (simp add: IsStreaming_def)

lemma CompareBridges_clone:
  assumes "wf_store h" "r < next_ref h" "Clone h r = (h', r')"
  shows "CompareBridges h' (bridges_at h' r') (bridges_at h' r) = []"
proof -
  from Clone_spec[OF assms] obtain gl where c: "store_ext h h'"
    "bridges_at h' r' = (bridges_at h r)\<lparr>b_groups := gl\<rparr>"
    "map (groups_at h') (grouplists_at h' gl) = map (groups_at h) (grouplists_at h (b_groups (bridges_at h r)))"
    by blast
  let ?b = "bridges_at h r"
  have l: "b_groups ?b < next_ref h" using assms by (simp add: wf_store_def)
  have old: "bridges_at h' r = ?b" "grouplists_at h' (b_groups ?b) = grouplists_at h (b_groups ?b)"
    "\<And>g. g \<in> set (grouplists_at h (b_groups ?b)) \<Longrightarrow> groups_at h' g = groups_at h g"
    using c(1) assms l by (auto simp: store_ext_def wf_store_def)
  have gg: "GetGroup h' ?b = GetGroup h ?b" using old by (intro GetGroup_cong) auto
  have "selected_group h' ?b = map_option (groups_at h) (GetGroup h ?b)"
    using gg old(3) GetGroup_nonempty by (auto simp: selected_group_def split: option.splits intro: option.map_cong)
  then have sel: "selected_group h' (bridges_at h' r) = selected_group h' (bridges_at h' r')"
    using Clone_GetGroup[OF assms] old(1) by (simp add: selected_group_def)
  have st: "IsStreaming h' (bridges_at h' r) = IsStreaming h' (bridges_at h' r')"
    using Clone_status[OF assms] GetStatus_ext[OF assms(1) c(1) assms(2)] by (simp add: GetStatus_IsStreaming)
  show ?thesis
    by (rule CompareBridges_same)
       (use st sel c(2,3) old in \<open>auto simp: bridge_flags IsBridgeChanged_def bridge_groups_def\<close>)
qed

lemma CompareBridges_connected:
  "ID_BRIDGE_CONNECTED \<in> set (CompareBridges h b b') \<longleftrightarrow> \<not> IsConnected b \<and> IsConnected b'"
  "ID_BRIDGE_DISCONNECTED \<in> set (CompareBridges h b b') \<longleftrightarrow> IsConnected b \<and> \<not> IsConnected b'"
  "ID_STREAMING_CONNECTED \<in> set (CompareBridges h b b') \<longleftrightarrow> \<not> IsStreaming h b \<and> IsStreaming h b'"
  "ID_STREAMING_DISCONNECTED \<in> set (CompareBridges h b b') \<longleftrightarrow> IsStreaming h b \<and> \<not> IsStreaming h b'"
  by (auto simp: CompareBridges_def)

lemma CompareBridges_distinct: "distinct (CompareBridges h b b')"
  by (simp add: CompareBridges_def)

definition difference_ids :: "Id list" where
  "difference_ids = [ID_BRIDGE_CONNECTED, ID_BRIDGE_DISCONNECTED, ID_STREAMING_CONNECTED,
     ID_STREAMING_DISCONNECTED, ID_BRIDGE_CHANGED, ID_GROUPLIST_UPDATED, ID_LIGHTS_UPDATED,
     ID_GROUP_LIGHTSTATE_UPDATED]"

lemma CompareBridges_ids: "set (CompareBridges h b b') \<subseteq> set difference_ids"
  by (auto simp: CompareBridges_def difference_ids_def)

end
