(* ===== verification/DataProperties.thy ===== *)
theory DataProperties imports StringUtil Codec HueStreamData BridgeStreamingChecker begin

text \<open>
  The properties of the support routines (strings, encodings, integers) and of the data model
  (versions, bridges, the list of known bridges, the comparison of bridges).
\<close>

section \<open>Strings and encodings\<close>

text \<open>
  \<open>split\<close> cuts a string at every occurrence of a character and loses nothing:
  joining the pieces with the character gives the string back, no piece contains it, and there
  is one piece more than it has occurrences.
\<close>

theorem split_then_join:
  "join (split s c) [c] = s \<and> set (split s c) \<subseteq> {p. c \<notin> set p}
     \<and> length (split s c) = Suc (count_list s c)"
  using split_spec[of s c] by blast

text \<open>
  C11 (termination). \<open>replace_all\<close> returns for every search string that is not empty, and then it
  replaces the non-overlapping occurrences from left to right (it does not look into what it
  has put in); with an empty search string it never returns.
\<close>

theorem replace_all_terminates_iff:
  "(replace_all s search replace = None \<longleftrightarrow> search = [])
     \<and> (search \<noteq> [] \<longrightarrow> replace_all s search replace = Some (replace_spec search replace s))"
  using replace_all_eq_spec[of search s replace] replace_all_empty_search[of s replace]
  by (cases "search = []") simp_all

theorem replace_all_terminates_iff_witness: "replace_all ''aXXa'' ''X'' ''XX'' = Some ''aXXXXa''"
proof -
  have "replace_all ''aXXa'' ''X'' ''XX'' = Some (replace_spec ''X'' ''XX'' ''aXXa'')"
    using replace_all_terminates_iff[of "''aXXa''" "''X''" "''XX''"] by simp
  then show ?thesis by (simp add: replace_spec.simps)
qed

text \<open>
  What \<open>filter_utf8\<close> returns is a sequence of well-formed UTF-8 characters, it
  is no longer than the input, and a string that is well-formed already is returned unchanged;
  \<open>truncate_utf8\<close> returns a well-formed prefix of it of at most \<open>len\<close> bytes that is less than one
  character (four bytes) shorter than the limit.
\<close>

theorem utf8_filter_and_truncate:
  "utf8_wf (filter_utf8 s) \<and> length (filter_utf8 s) \<le> length s \<and> (utf8_wf s \<longrightarrow> filter_utf8 s = s)
     \<and> (\<exists>k. truncate_utf8 s n = take k (filter_utf8 s) \<and> k \<le> n
          \<and> (n < length (filter_utf8 s) \<longrightarrow> n < k + 4)
          \<and> (length (filter_utf8 s) \<le> n \<longrightarrow> truncate_utf8 s n = filter_utf8 s))"
  using truncate_utf8_spec[of s n] utf8_rest_wf utf8_rest_of_wf length_utf8_rest
  by (simp add: filter_utf8_eq_rest)

theorem utf8_filter_and_truncate_witness:
  "filter_utf8 [CHR ''a'', CHR 0xC3, CHR 0xA9] = [CHR ''a'', CHR 0xC3, CHR 0xA9]"
proof -
  have "utf8_wf (CHR ''a'' # [] @ CHR 0xC3 # [CHR 0xA9] @ [])"
    by (intro utf8_wf.intros; code_simp)
  then have "utf8_wf [CHR ''a'', CHR 0xC3, CHR 0xA9]" by simp
  then show ?thesis using utf8_filter_and_truncate by blast
qed

text \<open>
  Bytes that were written as pairs of hexadecimal digits are read back unchanged
  by \<open>HexToBytes\<close>, and a percent-encoded string is decoded to the original and holds nothing but
  unreserved characters and percent signs.
\<close>

theorem encodings_roundtrip:
  "HexToBytes (hex_encode d) = map byte_of d \<and> url_decode (url_encode s) = Some s
     \<and> set (url_encode s) \<subseteq> {c. unreserved c} \<union> {CHR ''%''}"
  using HexToBytes_hex_encode[of d] url_decode_encode[of s] url_encode_safe[of _ s] by blast

text \<open>
  A conversion to a signed integer type succeeds exactly on the strings that are a
  complete number in the syntax of \<open>strtoll\<close> whose value lies in the range of the type, and it
  returns that value.
\<close>

theorem to_integer_succeeds_iff:
  assumes "lo \<ge> int64_min" "hi \<le> int64_max"
  shows "to_integer lo hi (Some s) = (INTEGER_OK, Some v) \<longleftrightarrow>
     (\<exists>neg m. strtol_parse 0 s = Some (neg, m, length s) \<and> v = signed_val neg m \<and> lo \<le> v \<and> v \<le> hi)"
  using assms by (rule to_integer_OK_iff)

theorem to_integer_succeeds_iff_witness: "to_integer int32_min int32_max (Some ''-42'') = (INTEGER_OK, Some (- 42))"
proof -
  have "strtol_parse 0 ''-42'' = Some (True, 42, 3)" by code_simp
  then have "\<exists>neg m. strtol_parse 0 ''-42'' = Some (neg, m, length ''-42'') \<and> - 42 = signed_val neg m
      \<and> int32_min \<le> - 42 \<and> - 42 \<le> int32_max"
    by (intro exI[of _ True] exI[of _ 42]) (simp add: signed_val_def int32_min_def int32_max_def)
  then show ?thesis
    using to_integer_succeeds_iff[of int32_min int32_max "''-42''" "- 42"]
    by (simp add: int32_min_def int32_max_def int64_min_def int64_max_def)
qed

text \<open>
  The check for a minus sign in the unsigned conversions looks at the first character
  only: after a space a negative number passes, and -1 is converted to the greatest 64-bit
  number instead of being out of range.
\<close>

theorem unsigned_conversion_accepts_negative:
  "to_unsigned_int64 (Some ''-1'') = (OUT_OF_RANGE, None)
     \<and> to_unsigned_int64 (Some '' -1'') = (INTEGER_OK, Some (2 ^ 64 - 1))"
  using to_unsigned_int64_wraps by (simp add: to_unsigned_int64_def to_unsigned_integer_def)

section \<open>Versions\<close>

text \<open>
  The order of API versions is the lexicographic order of major, minor and build
  number, a strict order in which two versions are incomparable exactly when their numbers
  agree.
\<close>

theorem version_order:
  "(version_less a b \<longleftrightarrow> v_major a < v_major b \<or> v_major a = v_major b \<and>
        (v_minor a < v_minor b \<or> v_minor a = v_minor b \<and> v_build a < v_build b))
   \<and> (\<not> version_less a b \<and> \<not> version_less b a \<longleftrightarrow>
        v_major a = v_major b \<and> v_minor a = v_minor b \<and> v_build a = v_build b)
   \<and> (version_greater a b \<longleftrightarrow> version_less b a)
   \<and> (version_less a b \<and> version_less b d \<longrightarrow> version_less a d)"
  using version_less_iff[of a b] version_incomparable[of a b] version_less_trans[of a b d]
  by (auto simp: version_greater_def version_less_iff)

theorem version_order_witness:
  "version_less (ApiVersion_of_numbers 1 9 7) (ApiVersion_of_numbers 1 24 0)"
  using version_order[of "ApiVersion_of_numbers 1 9 7" "ApiVersion_of_numbers 1 24 0"]
  by (simp add: ApiVersion_of_numbers_def)

text \<open>
  A version made from three numbers that fit an \<open>int\<close> is read back from its text
  with the same numbers and as valid.
\<close>

theorem version_text_read_back:
  assumes "0 \<le> ma" "ma \<le> int32_max" "0 \<le> mi" "mi \<le> int32_max" "0 \<le> bu" "bu \<le> int32_max"
  shows "ApiVersion_of_string (version_text ma mi bu) = Inr (ApiVersion_of_numbers ma mi bu)"
  using assms by (rule version_text_roundtrip)

theorem version_text_read_back_witness:
  "ApiVersion_of_string (version_text 1 24 0) = Inr (ApiVersion_of_numbers 1 24 0)"
  by (rule version_text_read_back) (simp_all add: int32_max_def)

section \<open>Bridges\<close>

text \<open>
  A bridge is streaming exactly when it is connected, supports streaming, has a
  client key of 32 characters, has a group selected, is not busy, and that group is active and
  owned by this application; it is ready to stream when all of that holds except that the group
  is active for this application. It is never both.
\<close>

theorem streaming_status_exact:
  "(IsStreaming h b \<longleftrightarrow> IsConnected b \<and> IsValidApiVersion b \<and> IsValidClientKey b
       \<and> IsValidGroupSelected h b \<and> \<not> b_isBusy b \<and> owns_active_group h b)
   \<and> (IsReadyToStream h b \<longleftrightarrow> IsConnected b \<and> IsValidApiVersion b \<and> IsValidClientKey b
       \<and> IsValidGroupSelected h b \<and> \<not> b_isBusy b \<and> \<not> owns_active_group h b)"
  using IsStreaming_iff[of h b] IsReadyToStream_iff[of h b] by (auto simp: can_stream_def)


definition one_bridge_store :: store where
  "one_bridge_store = \<lparr>bridges_at = (\<lambda>_. new_bridge_value ''id'' ''10.0.0.2'' True BridgeSettings_default 0),
     grouplists_at = (\<lambda>_. [2]), groups_at = (\<lambda>_. Group_new), next_ref = 3\<rparr>"




text \<open>
  C10 (functional). Of the known bridges, most recent first, the first one that is authorized and
  was found by the search becomes the active one, with the address of the discovered bridge and
  marked reachable; if there is none, nothing changes.
\<close>

theorem rediscover_known_bridge:
  assumes "distinct (d_bridges d)" "set (d_bridges d) \<inter> set discovered = {}" "d_bridges d \<noteq> []"
    "RediscoverKnownBridge h d discovered = (h', d', found)"
  shows "case List.find (\<lambda>r. discovered_as h discovered r \<noteq> None) (rev (d_bridges d)) of
      None \<Rightarrow> \<not> found \<and> h' = h \<and> d' = d
    | Some a \<Rightarrow> found \<and> last (d_bridges d') = a \<and> b_isValidIp (bridges_at h' a)
        \<and> b_ipAddress (bridges_at h' a) = b_ipAddress (bridges_at h (the (discovered_as h discovered a)))"
proof -
  obtain h1 act where l: "rediscover_loop (rev (d_bridges d)) discovered h None = (h1, act)" by fastforce
  from rediscover_loop_spec[OF l] assms(1,2)
  have spec: "case List.find (\<lambda>r. discovered_as h discovered r \<noteq> None) (rev (d_bridges d)) of
      None \<Rightarrow> act = None \<and> h1 = h
    | Some a \<Rightarrow> act = Some a \<and> b_isValidIp (bridges_at h1 a)
        \<and> b_ipAddress (bridges_at h1 a) = b_ipAddress (bridges_at h (the (discovered_as h discovered a)))"
    by simp
  show ?thesis
  proof (cases act)
    case None
    then have "h' = h1 \<and> d' = d \<and> \<not> found" using assms(4) l by (simp add: RediscoverKnownBridge_def)
    with spec None show ?thesis by (simp split: option.splits)
  next
    case (Some a)
    then have "h' = h1" "last (d_bridges d') = a" "found"
      using assms(4) l SetActiveBridge_eq[OF assms(3), of h1 a]
      by (simp_all add: RediscoverKnownBridge_def) auto
    with spec Some show ?thesis by (simp split: option.splits)
  qed
qed

theorem rediscover_known_bridge_witness:
  "\<not> snd (snd (RediscoverKnownBridge one_bridge_store
     \<lparr>d_version = 0, d_bridges = [0], d_bridgeSettings = BridgeSettings_default\<rparr> [1]))"
proof -
  let ?d = "\<lparr>d_version = 0, d_bridges = [0], d_bridgeSettings = BridgeSettings_default\<rparr>"
  obtain h' d' found where r: "RediscoverKnownBridge one_bridge_store ?d [1] = (h', d', found)"
    by (metis prod_cases3)
  have "discovered_as one_bridge_store [1] 0 = None"
    by (simp add: discovered_as_def IsAuthorizedForStreaming_def one_bridge_store_def new_bridge_value_def)
  with rediscover_known_bridge[OF _ _ _ r] have "\<not> found" by simp
  then show ?thesis unfolding r by simp
qed

text \<open>
  The comparison that reports what changed during a procedure reports nothing
  between a bridge and its clone, reports a gained or lost connection and a gained or lost
  streaming session exactly when it happened, and reports nothing twice.
\<close>

theorem comparison_exact:
  assumes "wf_store h" "r < next_ref h" "Clone h r = (h', r')"
  shows "CompareBridges h' (bridges_at h' r') (bridges_at h' r) = []
    \<and> distinct (CompareBridges g b b')
    \<and> (ID_BRIDGE_CONNECTED \<in> set (CompareBridges g b b') \<longleftrightarrow> \<not> IsConnected b \<and> IsConnected b')
    \<and> (ID_BRIDGE_DISCONNECTED \<in> set (CompareBridges g b b') \<longleftrightarrow> IsConnected b \<and> \<not> IsConnected b')
    \<and> (ID_STREAMING_CONNECTED \<in> set (CompareBridges g b b') \<longleftrightarrow> \<not> IsStreaming g b \<and> IsStreaming g b')
    \<and> (ID_STREAMING_DISCONNECTED \<in> set (CompareBridges g b b') \<longleftrightarrow> IsStreaming g b \<and> \<not> IsStreaming g b')"
  using CompareBridges_clone[OF assms] CompareBridges_distinct CompareBridges_connected by blast

theorem comparison_exact_witness:
  "CompareBridges (fst (Clone one_bridge_store 1)) (bridges_at (fst (Clone one_bridge_store 1)) (snd (Clone one_bridge_store 1)))
     (bridges_at (fst (Clone one_bridge_store 1)) 1) = []"
proof -
  have "wf_store one_bridge_store" "1 < next_ref one_bridge_store"
    by (auto simp: wf_store_def one_bridge_store_def new_bridge_value_def)
  from comparison_exact[OF this] show ?thesis by (metis prod.collapse)
qed

section \<open>Checking the connection\<close>

text \<open>
  The answers to a series of checks of one bridge, and the automaton of the connection events: a
  connect only while disconnected, a disconnect only while connected.
\<close>

fun run_checks :: "(ErrorCode \<times> int \<times> int) list \<Rightarrow> ref \<Rightarrow> store \<Rightarrow> check_statics
    \<Rightarrow> store \<times> check_statics \<times> FeedbackMessage list" where
  "run_checks [] r h st = (h, st, [])"
| "run_checks ((errorCode, statusCode, localPort) # as) r h st =
     (case CheckCompleted h st r errorCode statusCode localPort of
        (h1, st1, ms) \<Rightarrow> (case run_checks as r h1 st1 of (h2, st2, ms') \<Rightarrow> (h2, st2, ms @ ms')))"

definition conn_scan1 :: "Id \<Rightarrow> bool \<Rightarrow> bool option" where
  "conn_scan1 i c =
     (if i = ID_BRIDGE_CONNECTED then (if c then None else Some True)
      else if i = ID_BRIDGE_DISCONNECTED then (if c then Some False else None)
      else Some c)"

fun conn_scan :: "bool \<Rightarrow> Id list \<Rightarrow> bool option" where
  "conn_scan c [] = Some c"
| "conn_scan c (i # is) = (case conn_scan1 i c of None \<Rightarrow> None | Some c' \<Rightarrow> conn_scan c' is)"

lemma conn_scan_append: "conn_scan c (xs @ ys) = (case conn_scan c xs of None \<Rightarrow> None | Some c' \<Rightarrow> conn_scan c' ys)"
  by (induction c xs rule: conn_scan.induct) (auto split: option.splits)

lemma IsConnected_connectable: "IsConnected b \<longleftrightarrow> IsConnectable b \<and> b_isValidIp b"
  by (simp add: IsConnected_def)

lemma IsConnectable_fields:
  "IsConnectable (b\<lparr>b_isValidIp := v\<rparr>) = IsConnectable b"
  "IsConnectable (b\<lparr>b_lastHttpErrorCode := e, b_lastHttpStatusCode := s\<rparr>) = IsConnectable b"
  by (simp_all add: bridge_flags)

lemma CheckCompleted_scan:
  assumes "IsConnectable (bridges_at h r)" "CheckCompleted h st r e s p = (h', st', ms)"
  shows "IsConnectable (bridges_at h' r)
    \<and> conn_scan (IsConnected (bridges_at h r)) (map fm_id ms) = Some (IsConnected (bridges_at h' r))"
  using assms
  by (auto simp: CheckCompleted_def Let_def upd_bridge_def upd_group_def message_def conn_scan1_def
      IsConnectable_fields IsConnected_connectable split: if_splits)

text \<open>
  Over any series of answers to the periodic checks of a bridge, connect and
  disconnect events alternate, beginning with the one that the bridge's state allows, and the
  last one reported agrees with the state the bridge is left in.
\<close>

theorem connection_events_alternate:
  assumes "IsConnectable (bridges_at h r)" "run_checks answers r h st = (h', st', ms)"
  shows "conn_scan (IsConnected (bridges_at h r)) (map fm_id ms) = Some (IsConnected (bridges_at h' r))"
proof -
  have "IsConnectable (bridges_at h r) \<Longrightarrow> run_checks answers r h st = (h', st', ms) \<Longrightarrow>
      conn_scan (IsConnected (bridges_at h r)) (map fm_id ms) = Some (IsConnected (bridges_at h' r))"
  proof (induction answers r h st arbitrary: ms rule: run_checks.induct)
    case (2 e s p as r h st)
    obtain h1 st1 m1 where c: "CheckCompleted h st r e s p = (h1, st1, m1)" by (metis prod_cases3)
    obtain m2 where m2: "run_checks as r h1 st1 = (h', st', m2)" "ms = m1 @ m2"
      using 2(3) c by (auto split: prod.splits)
    from CheckCompleted_scan[OF 2(2) c] have k: "IsConnectable (bridges_at h1 r)"
      "conn_scan (IsConnected (bridges_at h r)) (map fm_id m1) = Some (IsConnected (bridges_at h1 r))" by auto
    from 2(1)[OF c[symmetric] refl k(1)] m2 k(2) show ?case by (simp add: conn_scan_append)
  qed simp
  then show ?thesis using assms by blast
qed

definition connectable_store :: store where
  "connectable_store = one_bridge_store\<lparr>bridges_at := (\<lambda>_. (new_bridge_value ''id'' ''10.0.0.2'' True BridgeSettings_default 0)
     \<lparr>b_user := ''user'', b_isAuthorized := True, b_modelId := ''BSB002''\<rparr>)\<rparr>"

lemma connectable_store_ok: "IsConnectable (bridges_at connectable_store 1)"
  by code_simp

theorem connection_events_alternate_witness:
  "conn_scan (IsConnected (bridges_at connectable_store 1))
     (map fm_id (snd (snd (run_checks [(HTTP_REQUEST_ERROR_CODE_TIMEOUT, 0, 0), (HTTP_REQUEST_ERROR_CODE_TIMEOUT, 0, 0)]
        1 connectable_store \<lparr>lastLocalPort = 0, lastBridgeId = None\<rparr>)))) \<noteq> None"
  using connection_events_alternate[OF connectable_store_ok] by (metis option.distinct(1) prod.collapse)

end
