(* ===== verification/ConnectionFlow.thy ===== *)
theory ConnectionFlow imports HueStreamData BridgeStreamingChecker "HOL-Library.Word" begin

text \<open>
  \<open>huestream/connect/ConnectionFlow\<close>: the state machine that connects to a bridge. Every public
  method queues its \<open>Do...\<close> method on the message dispatcher, and so does every answer of a
  collaborator, so the handlers below run one after the other. \<open>event\<close> has one constructor per
  queued method and \<open>handle\<close> runs it.

  What the flow does to the outside is the list \<open>cf_out\<close>: a message given to the feedback
  callback, a message passed on to the configuration retriever, or a call of a collaborator.
  The collaborators (storage, searcher, authenticator, retrievers) answer by later events, at
  any time or never. The stream is called synchronously and changes the bridge, so its two
  operations are functions of the environment \<open>flow_env\<close>, as are the settings and the result of
  \<open>IConfigRetriever::Execute\<close>. The lambda given to \<open>StartLoading\<close> is a constructor of \<open>load_cont\<close>.
  The flow object outlives its callbacks (the \<open>weak_ptr\<close> that is locked is never expired), and
  the feedback callback does not change a bridge while a handler runs.
\<close>

section \<open>State\<close>

datatype ConnectionFlowState = Idle | Loading | SearchingFirst | SearchingRetry | Authenticating
  | Retrieving | Saving | Activating | Deactivating

datatype OperationResult = OPERATION_SUCCESS | OPERATION_FAILED

datatype load_cont = ContFinish | ContConnect | ContRetrieve ref | ContSearch | ContIdKey ref

datatype effect =
    Msg FeedbackMessage
  | RetrieverEvent FeedbackMessage
  | CallLoad load_cont
  | CallSearchNew bool
  | CallSearcherAbort
  | CallAuthenticate ref
  | CallSmallConfig ref
  | CallFullConfig ref
  | CallRefreshConnection
  | CallSave
  | CallStreamStart bool ref
  | CallStreamStop ref

record AuthenticationProcessInfo =
  failedTries :: int
  bridgeNumber :: int

record flow =
  cf_store :: store
  cf_persistentData :: HueStreamData
  cf_state :: ConnectionFlowState
  cf_request :: RequestType
  cf_ongoingAuthenticationCount :: "64 word"
  cf_backgroundDiscoveredBridges :: "ref list"
  cf_bridgeStartState :: ref
  cf_authenticationProcessesInfo :: "ref \<rightharpoonup> AuthenticationProcessInfo"
  cf_tasks :: "(int \<times> ref) list"
  cf_schedulerRunning :: bool
  cf_bridgeSearcher :: bool
  cf_fullConfigRetriever :: "bool option"
  cf_out :: "effect list"

record flow_env =
  e_bridgeSettings :: BridgeSettings
  e_autoStartAtConnection :: bool
  e_useRenderThread :: bool
  e_streamStart :: "bool \<Rightarrow> store \<Rightarrow> ref \<Rightarrow> store \<times> bool"
  e_streamStop :: "store \<Rightarrow> ref \<Rightarrow> store"
  e_execute :: "store \<Rightarrow> ref \<Rightarrow> bool"

definition ConnectionFlow_new :: "flow_env \<Rightarrow> store \<Rightarrow> flow" where
  "ConnectionFlow_new E h =
     (let (h1, d) = HueStreamData_new (e_bridgeSettings E) h;
          (h2, r) = new_bridge (e_bridgeSettings E) h1;
          (h3, d3) = Data_Clear h2 d
      in \<lparr>cf_store = h3, cf_persistentData = d3, cf_state = Idle, cf_request = REQUEST_TYPE_INTERNAL,
          cf_ongoingAuthenticationCount = 0, cf_backgroundDiscoveredBridges = [],
          cf_bridgeStartState = r, cf_authenticationProcessesInfo = Map.empty, cf_tasks = [],
          cf_schedulerRunning = False, cf_bridgeSearcher = False, cf_fullConfigRetriever = None,
          cf_out = []\<rparr>)"

section \<open>Messages and the active bridge\<close>

definition emit :: "effect \<Rightarrow> flow \<Rightarrow> flow" where
  "emit x s = s\<lparr>cf_out := cf_out s @ [x]\<rparr>"

definition NewMessage :: "FeedbackMessage \<Rightarrow> flow \<Rightarrow> flow" where
  "NewMessage m s =
     (let s1 = emit (Msg m) s
      in if cf_fullConfigRetriever s1 \<noteq> None then emit (RetrieverEvent m) s1 else s1)"

definition flow_active :: "flow \<Rightarrow> flow \<times> ref" where
  "flow_active s =
     (case GetActiveBridge (cf_store s) (cf_persistentData s) of
        (h, d, a) \<Rightarrow> (s\<lparr>cf_store := h, cf_persistentData := d\<rparr>, a))"

definition active_bridge :: "flow \<Rightarrow> flow \<times> Bridge" where
  "active_bridge s = (let (s1, a) = flow_active s in (s1, bridges_at (cf_store s1) a))"

definition set_active :: "ref \<Rightarrow> flow \<Rightarrow> flow" where
  "set_active r s =
     (case SetActiveBridge (cf_store s) (cf_persistentData s) r of
        (h, d) \<Rightarrow> s\<lparr>cf_store := h, cf_persistentData := d\<rparr>)"

definition change_bridge :: "ref \<Rightarrow> (Bridge \<Rightarrow> Bridge) \<Rightarrow> flow \<Rightarrow> flow" where
  "change_bridge r f s = s\<lparr>cf_store := upd_bridge r f (cf_store s)\<rparr>"

text \<open>
  \<open>NewMessage(FeedbackMessage(_request, id, _persistentData->GetActiveBridge() ...))\<close>, without a
  list, with a list, and with the list of all known bridges.
\<close>

definition send :: "Id \<Rightarrow> flow \<Rightarrow> flow" where
  "send i s = (let (s1, a) = flow_active s in NewMessage (message (cf_request s1) i a) s1)"

definition send_list :: "Id \<Rightarrow> ref list \<Rightarrow> flow \<Rightarrow> flow" where
  "send_list i bs s = (let (s1, a) = flow_active s in NewMessage (message_list (cf_request s1) i a bs) s1)"

definition send_known :: "Id \<Rightarrow> flow \<Rightarrow> flow" where
  "send_known i s =
     (let (s1, a) = flow_active s
      in NewMessage (message_list (cf_request s1) i a
           (GetAllKnownBridges (cf_store s1) (cf_persistentData s1))) s1)"

definition stream_stop :: "flow_env \<Rightarrow> flow \<Rightarrow> flow" where
  "stream_stop E s =
     (let (s1, a) = flow_active s
      in emit (CallStreamStop a) (s1\<lparr>cf_store := e_streamStop E (cf_store s1) a\<rparr>))"

definition stop_if_streaming :: "flow_env \<Rightarrow> flow \<Rightarrow> flow" where
  "stop_if_streaming E s =
     (let (s1, b) = active_bridge s
      in if IsStreaming (cf_store s1) b then stream_stop E s1 else s1)"

definition make_bridge :: "flow_env \<Rightarrow> (Bridge \<Rightarrow> Bridge) \<Rightarrow> flow \<Rightarrow> flow \<times> ref" where
  "make_bridge E f s =
     (let (h, r) = new_bridge (e_bridgeSettings E) (cf_store s)
      in (change_bridge r f (s\<lparr>cf_store := h\<rparr>), r))"

section \<open>Starting and finishing a procedure\<close>

definition Start :: "RequestType \<Rightarrow> flow \<Rightarrow> flow option" where
  "Start request s =
     (if cf_state s \<noteq> Idle then None
      else Some
        (let s1 = s\<lparr>cf_request := request\<rparr>
         in if request \<noteq> REQUEST_TYPE_INTERNAL then
              (let s2 = send ID_USERPROCEDURE_STARTED s1;
                   (s3, a) = flow_active s2;
                   (h, c) = Clone (cf_store s3) a
               in s3\<lparr>cf_store := h, cf_bridgeStartState := c\<rparr>)
            else s1))"

definition Finish :: "flow \<Rightarrow> flow" where
  "Finish s =
     (let s1 = s\<lparr>cf_state := Idle\<rparr>;
          s4 = (if cf_request s1 \<noteq> REQUEST_TYPE_INTERNAL then
                  (let (s2, a) = flow_active s1;
                       differences = CompareBridges (cf_store s2)
                         (bridges_at (cf_store s2) (cf_bridgeStartState s2)) (bridges_at (cf_store s2) a);
                       s3 = fold send differences s2
                   in send ID_USERPROCEDURE_FINISHED s3)
                else s1)
      in s4\<lparr>cf_request := REQUEST_TYPE_INTERNAL\<rparr>)"

section \<open>Saving, and the end of a procedure\<close>

definition report_id :: "BridgeStatus \<Rightarrow> Id" where
  "report_id status = (case status of
       BRIDGE_EMPTY \<Rightarrow> ID_NO_BRIDGE_FOUND
     | BRIDGE_NOT_FOUND \<Rightarrow> ID_NO_BRIDGE_FOUND
     | BRIDGE_INVALID_MODEL \<Rightarrow> ID_INVALID_MODEL
     | BRIDGE_NOT_CONNECTABLE \<Rightarrow> ID_BRIDGE_NOT_FOUND
     | BRIDGE_NOT_CONNECTED \<Rightarrow> ID_BRIDGE_NOT_FOUND
     | BRIDGE_INVALID_VERSION \<Rightarrow> ID_INVALID_VERSION
     | BRIDGE_NO_GROUP_AVAILABLE \<Rightarrow> ID_NO_GROUP_AVAILABLE
     | BRIDGE_INVALID_GROUP_SELECTED \<Rightarrow> ID_SELECT_GROUP
     | BRIDGE_BUSY \<Rightarrow> ID_BUSY_STREAMING
     | _ \<Rightarrow> ID_INTERNAL_ERROR)"

definition ReportActionRequired :: "flow \<Rightarrow> flow" where
  "ReportActionRequired s =
     (let s1 = send ID_DONE_ACTION_REQUIRED s;
          (s2, b) = active_bridge s1
      in send (report_id (GetStatus (cf_store s2) b)) s2)"

definition StartSaving :: "flow \<Rightarrow> flow" where
  "StartSaving s = emit CallSave ((send_known ID_START_SAVING s)\<lparr>cf_state := Saving\<rparr>)"

definition ActivateStreaming :: "flow_env \<Rightarrow> flow \<Rightarrow> flow" where
  "ActivateStreaming E s =
     (let s1 = (send ID_START_ACTIVATING s)\<lparr>cf_state := Activating\<rparr>;
          (s2, a) = flow_active s1;
          (h, result) = e_streamStart E (e_useRenderThread E) (cf_store s2) a;
          s3 = emit (CallStreamStart (e_useRenderThread E) a) (s2\<lparr>cf_store := h\<rparr>);
          s4 = (if result then send ID_DONE_COMPLETED (send ID_FINISH_ACTIVATING_ACTIVE s3)
                else ReportActionRequired (send ID_FINISH_ACTIVATING_FAILED s3))
      in Finish s4)"

definition DeactivateStreaming :: "flow_env \<Rightarrow> flow \<Rightarrow> flow" where
  "DeactivateStreaming E s = Finish (stream_stop E (s\<lparr>cf_state := Deactivating\<rparr>))"

definition SavingCompleted :: "flow_env \<Rightarrow> OperationResult \<Rightarrow> flow \<Rightarrow> flow" where
  "SavingCompleted E r s =
     (let s1 = (if r = OPERATION_SUCCESS then send_known ID_FINISH_SAVING_SAVED s
                else send ID_FINISH_SAVING_FAILED s);
          (s2, a) = flow_active s1;
          s3 = change_bridge a (\<lambda>b. b\<lparr>b_isBusy := False\<rparr>) s2;
          h = cf_store s3;
          b = bridges_at h a;
          switchGroupWhileStreaming =
            (IsStreaming h (bridges_at h (cf_bridgeStartState s3)) \<and> cf_request s3 = REQUEST_TYPE_SELECT);
          activationRequired =
            (cf_request s3 = REQUEST_TYPE_ACTIVATE \<or> e_autoStartAtConnection E \<or> switchGroupWhileStreaming);
          canActivateStreaming = (IsReadyToStream h b \<or> IsStreaming h b)
      in if activationRequired \<and> canActivateStreaming then ActivateStreaming E s3
         else if \<not> activationRequired \<and> IsReadyToStream h b then Finish (send ID_DONE_COMPLETED s3)
         else Finish s3)"

section \<open>Searching and authorizing\<close>

definition StartBridgeSearch :: "flow \<Rightarrow> flow" where
  "StartBridgeSearch s =
     (let s1 = send ID_START_SEARCHING s;
          bruteForce = (cf_state s1 = SearchingFirst);
          s2 = s1\<lparr>cf_state := (if bruteForce then SearchingRetry else SearchingFirst),
                  cf_bridgeSearcher := True\<rparr>
      in emit (CallSearchNew bruteForce) s2)"

definition PushLinkBridge :: "ref \<Rightarrow> flow \<Rightarrow> flow" where
  "PushLinkBridge r s = emit (CallAuthenticate r) s"

fun authenticate_loop :: "int \<Rightarrow> ref list \<Rightarrow> flow \<Rightarrow> flow" where
  "authenticate_loop i [] s = s"
| "authenticate_loop i (bridge # bridges) s =
     (let infos = cf_authenticationProcessesInfo s;
          s1 = s\<lparr>cf_authenticationProcessesInfo :=
                 (if infos bridge = None
                  then infos(bridge \<mapsto> \<lparr>failedTries = 0, bridgeNumber = i\<rparr>) else infos)\<rparr>
      in authenticate_loop (i + 1) bridges (PushLinkBridge bridge s1))"

definition StartAuthentication :: "ref list \<Rightarrow> flow \<Rightarrow> flow" where
  "StartAuthentication bridges s =
     (let s1 = send_list ID_PRESS_PUSH_LINK bridges (send_list ID_START_AUTHORIZING bridges s);
          s2 = s1\<lparr>cf_state := Authenticating, cf_ongoingAuthenticationCount := word_of_nat (length bridges),
                  cf_authenticationProcessesInfo := Map.empty, cf_schedulerRunning := True\<rparr>
      in authenticate_loop 0 bridges s2)"

fun filter_ip_loop :: "store \<Rightarrow> ref list \<Rightarrow> ref list \<Rightarrow> ref list" where
  "filter_ip_loop h [] uniqueValidBridges = uniqueValidBridges"
| "filter_ip_loop h (x # xs) uniqueValidBridges =
     (if b_isValidIp (bridges_at h x)
         \<and> find_index (\<lambda>arg. b_ipAddress (bridges_at h arg) = b_ipAddress (bridges_at h x))
             uniqueValidBridges = None
      then filter_ip_loop h xs (uniqueValidBridges @ [x])
      else filter_ip_loop h xs uniqueValidBridges)"

definition FilterInvalidAndDuplicateIpAddresses :: "store \<Rightarrow> ref list \<Rightarrow> ref list" where
  "FilterInvalidAndDuplicateIpAddresses h bridges = filter_ip_loop h bridges []"

definition ContainsValidBridge :: "store \<Rightarrow> ref list \<Rightarrow> bool" where
  "ContainsValidBridge h bridges \<longleftrightarrow> list_ex (\<lambda>r. IsValidModelId (bridges_at h r)) bridges"

definition scheduler_shutdown :: "flow \<Rightarrow> flow" where
  "scheduler_shutdown s = s\<lparr>cf_tasks := [], cf_schedulerRunning := False\<rparr>"

section \<open>Retrieving the configuration\<close>

definition StartRetrieveSmallConfig :: "ref \<Rightarrow> flow \<Rightarrow> flow" where
  "StartRetrieveSmallConfig bridge s =
     emit (CallSmallConfig bridge) (send ID_START_RETRIEVING_SMALL (s\<lparr>cf_state := Retrieving\<rparr>))"

text \<open>The callback of the small retrieval, before it queues \<open>RetrieveSmallConfigCompleted\<close>.\<close>

definition small_config_received :: "ref \<Rightarrow> ref \<Rightarrow> store \<Rightarrow> store" where
  "small_config_received bridge configured_bridge h =
     (let c = (\<lambda>h. bridges_at h configured_bridge);
          h1 = upd_bridge bridge (\<lambda>b. b\<lparr>b_id := b_id (c h)\<rparr>) h;
          h2 = upd_bridge bridge (\<lambda>b. b\<lparr>b_modelId := b_modelId (c h1)\<rparr>) h1;
          h3 = upd_bridge bridge (\<lambda>b. b\<lparr>b_apiversion := b_apiversion (c h2)\<rparr>) h2
      in upd_bridge bridge (\<lambda>b. b\<lparr>b_swversion := b_swversion (c h3)\<rparr>) h3)"

definition StartRetrieveFullConfig :: "flow_env \<Rightarrow> flow \<Rightarrow> flow" where
  "StartRetrieveFullConfig E s =
     (let (s1, bridge) = flow_active (s\<lparr>cf_state := Retrieving\<rparr>);
          clipV2 = IsSupportingClipV2 (bridges_at (cf_store s1) bridge);
          s2 = (if cf_fullConfigRetriever s1 = None
                   \<or> clipV2 \<and> \<not> the (cf_fullConfigRetriever s1)
                   \<or> \<not> clipV2 \<and> the (cf_fullConfigRetriever s1)
                then s1\<lparr>cf_fullConfigRetriever := Some clipV2\<rparr> else s1);
          started = e_execute E (cf_store s2) bridge;
          s3 = emit (CallFullConfig bridge) s2
      in if started then NewMessage (message (cf_request s3) ID_START_RETRIEVING bridge) s3 else s3)"

definition RetrieveFailed :: "ref \<Rightarrow> flow \<Rightarrow> flow" where
  "RetrieveFailed r s =
     (let s1 = NewMessage (message (cf_request s) ID_FINISH_RETRIEVING_FAILED r) s;
          b = bridges_at (cf_store s1) r
      in if \<not> b_isValidIp b \<and> b_isAuthorized b then StartBridgeSearch s1
         else if b_isValidIp b \<and> \<not> b_isAuthorized b then
           (if cf_request s1 = REQUEST_TYPE_CONNECT_BACKGROUND
            then Finish (send ID_DONE_BRIDGE_FOUND s1)
            else StartAuthentication [r] s1)
         else StartSaving (ReportActionRequired
                (change_bridge r (\<lambda>b. b\<lparr>b_isValidIp := False, b_isAuthorized := False\<rparr>) s1)))"

definition RetrieveSmallConfigCompleted :: "flow_env \<Rightarrow> OperationResult \<Rightarrow> ref \<Rightarrow> flow \<Rightarrow> flow" where
  "RetrieveSmallConfigCompleted E result r s =
     (if cf_state s \<noteq> Retrieving then s
      else if result = OPERATION_FAILED then RetrieveFailed r s
      else
        (let s1 = NewMessage (message (cf_request s) ID_FINISH_RETRIEVING_SMALL r) s;
             s2 = set_active r s1;
             b = bridges_at (cf_store s2) r
         in if \<not> IsValidModelId b then StartBridgeSearch s2
            else if b_isAuthorized b \<or> HasEverBeenAuthorizedForStreaming b then StartRetrieveFullConfig E s2
            else StartAuthentication [r] s2))"

definition RetrieveFullConfigCompleted :: "OperationResult \<Rightarrow> ref \<Rightarrow> flow \<Rightarrow> flow" where
  "RetrieveFullConfigCompleted result r s0 =
     (if cf_state s0 \<noteq> Retrieving then s0
      else
        (let s = set_active r s0
         in if result = OPERATION_FAILED then RetrieveFailed r s
            else
              (let (s1, a) = flow_active s;
                   h = cf_store s1;
                   b = bridges_at h a;
                   status = GetStatus h b;
                   required = (\<lambda>s. ReportActionRequired (send ID_FINISH_RETRIEVING_ACTION_REQUIRED s));
                   s2 = (if status = BRIDGE_INVALID_MODEL \<or> status = BRIDGE_INVALID_VERSION
                            \<or> status = BRIDGE_INVALID_CLIENTKEY \<or> status = BRIDGE_NO_GROUP_AVAILABLE
                         then required s1
                         else if IsValidGroupSelected h b then send ID_FINISH_RETRIEVING_READY_TO_START s1
                         else (case SelectGroupIfOnlyOneOption h a of
                                 (h', selected) \<Rightarrow>
                                   if selected then send ID_FINISH_RETRIEVING_READY_TO_START (s1\<lparr>cf_store := h'\<rparr>)
                                   else required (s1\<lparr>cf_store := h'\<rparr>)))
               in StartSaving s2)))"

section \<open>Answers to a search and to an authentication\<close>

definition BridgeSearchCompleted :: "ref list \<Rightarrow> flow \<Rightarrow> flow" where
  "BridgeSearchCompleted bridges0 s =
     (if cf_state s \<noteq> SearchingFirst \<and> cf_state s \<noteq> SearchingRetry then s
      else
        (let s1 = s\<lparr>cf_bridgeSearcher := False\<rparr>;
             bridges = FilterInvalidAndDuplicateIpAddresses (cf_store s1) bridges0;
             background = (cf_request s1 = REQUEST_TYPE_CONNECT_BACKGROUND)
         in if bridges = [] then
              (let s2 = send ID_FINISH_SEARCHING_NO_BRIDGES_FOUND s1
               in if background then Finish (send ID_DONE_NO_BRIDGE_FOUND s2)
                  else if cf_state s2 = SearchingFirst then StartBridgeSearch s2
                  else StartSaving (ReportActionRequired s2))
            else if ContainsValidBridge (cf_store s1) bridges then
              (let s2 = send_list ID_FINISH_SEARCH_BRIDGES_FOUND bridges s1;
                   (h, d, rediscovered) =
                     (if cf_request s2 \<noteq> REQUEST_TYPE_CONNECT_NEW
                      then RediscoverKnownBridge (cf_store s2) (cf_persistentData s2) bridges
                      else (cf_store s2, cf_persistentData s2, False));
                   s3 = s2\<lparr>cf_store := h, cf_persistentData := d\<rparr>
               in if rediscovered then (let (s4, a) = flow_active s3 in StartRetrieveSmallConfig a s4)
                  else if background then
                    Finish ((send_list ID_DONE_BRIDGE_FOUND bridges s3)
                              \<lparr>cf_backgroundDiscoveredBridges := bridges\<rparr>)
                  else StartAuthentication bridges s3)
            else
              (let s2 = send ID_FINISH_SEARCHING_INVALID_BRIDGES_FOUND s1
               in if background then
                    (let (s3, b) = active_bridge s2
                     in if IsEmpty b then Finish (send ID_DONE_NO_BRIDGE_FOUND s3)
                        else StartSaving (ReportActionRequired s3))
                  else StartAuthentication bridges s2)))"

definition PUSHLINK_INVALID_IP_MAX_RETRIES :: int where
  "PUSHLINK_INVALID_IP_MAX_RETRIES = 3"

text \<open>
  \<open>operator[]\<close> of the map inserts an entry with bridge number -1 for a bridge that has none. The
  scheduler replaces a task that has the same identifier.
\<close>

definition process_info :: "flow \<Rightarrow> ref \<Rightarrow> AuthenticationProcessInfo" where
  "process_info s r = (case cf_authenticationProcessesInfo s r of
      Some i \<Rightarrow> i | None \<Rightarrow> \<lparr>failedTries = 0, bridgeNumber = -1\<rparr>)"

definition add_pushlink_task :: "int \<Rightarrow> ref \<Rightarrow> flow \<Rightarrow> flow" where
  "add_pushlink_task i r s = s\<lparr>cf_tasks := filter (\<lambda>(j, _). j \<noteq> i) (cf_tasks s) @ [(i, r)]\<rparr>"

definition authorization_result :: "flow_env \<Rightarrow> ref \<Rightarrow> flow \<Rightarrow> flow" where
  "authorization_result E r s =
     (if b_isAuthorized (bridges_at (cf_store s) r) then
        (let s1 = s\<lparr>cf_ongoingAuthenticationCount := cf_ongoingAuthenticationCount s - 1\<rparr>;
             s2 = send_known ID_FINISH_AUTHORIZING_AUTHORIZED (set_active r s1)
         in StartRetrieveFullConfig E (scheduler_shutdown s2))
      else add_pushlink_task (bridgeNumber (process_info s r)) r s)"

definition AuthenticationCompleted :: "flow_env \<Rightarrow> ref \<Rightarrow> flow \<Rightarrow> flow" where
  "AuthenticationCompleted E r s =
     (if cf_state s \<noteq> Authenticating then s
      else
        (let info = process_info s r;
             s0 = s\<lparr>cf_authenticationProcessesInfo := (cf_authenticationProcessesInfo s)(r \<mapsto> info)\<rparr>
         in if \<not> b_isValidIp (bridges_at (cf_store s0) r) then
              (let tries = failedTries info + 1;
                   s1 = s0\<lparr>cf_authenticationProcessesInfo :=
                          (cf_authenticationProcessesInfo s0)(r \<mapsto> info\<lparr>failedTries := tries\<rparr>)\<rparr>
               in if tries > PUSHLINK_INVALID_IP_MAX_RETRIES then
                    (let s2 = s1\<lparr>cf_ongoingAuthenticationCount := cf_ongoingAuthenticationCount s1 - 1\<rparr>
                     in if cf_ongoingAuthenticationCount s2 = 0 then
                          scheduler_shutdown (StartBridgeSearch (send ID_FINISH_AUTHORIZING_FAILED s2))
                        else s2)
                  else authorization_result E r (change_bridge r (\<lambda>b. b\<lparr>b_isValidIp := True\<rparr>) s1))
            else authorization_result E r s0))"

section \<open>Loading\<close>

definition StartLoading :: "load_cont \<Rightarrow> flow \<Rightarrow> flow" where
  "StartLoading callback s = emit (CallLoad callback) ((send ID_START_LOADING s)\<lparr>cf_state := Loading\<rparr>)"

definition run_load_cont :: "load_cont \<Rightarrow> flow \<Rightarrow> flow" where
  "run_load_cont callback s = (case callback of
       ContFinish \<Rightarrow> Finish s
     | ContConnect \<Rightarrow>
         (let (s1, a) = flow_active s
          in if IsEmpty (bridges_at (cf_store s1) a) then StartBridgeSearch s1
             else StartRetrieveSmallConfig a s1)
     | ContRetrieve r \<Rightarrow> StartRetrieveSmallConfig r s
     | ContSearch \<Rightarrow> StartBridgeSearch s
     | ContIdKey r \<Rightarrow> StartRetrieveSmallConfig r (set_active r s))"

definition LoadingCompleted :: "OperationResult \<Rightarrow> HueStreamData \<Rightarrow> load_cont \<Rightarrow> flow \<Rightarrow> flow" where
  "LoadingCompleted result persistentData callback s =
     (if cf_state s \<noteq> Loading then s
      else
        (let s1 = s\<lparr>cf_persistentData := persistentData\<rparr>;
             s2 = (if result = OPERATION_SUCCESS then send_known ID_FINISH_LOADING_BRIDGE_CONFIGURED s1
                   else (let (s', a) = flow_active (send ID_FINISH_LOADING_NO_BRIDGE_CONFIGURED s1)
                         in s'\<lparr>cf_store := Bridge_Clear (cf_store s') a\<rparr>))
         in run_load_cont callback s2))"

section \<open>The requests\<close>

definition DoLoad :: "flow \<Rightarrow> flow" where
  "DoLoad s = (case Start REQUEST_TYPE_LOAD_BRIDGE s of None \<Rightarrow> s | Some s1 \<Rightarrow> StartLoading ContFinish s1)"

definition DoConnectToBridge :: "flow \<Rightarrow> flow" where
  "DoConnectToBridge s = (case Start REQUEST_TYPE_CONNECT s of None \<Rightarrow> s
     | Some s1 \<Rightarrow>
         if cf_backgroundDiscoveredBridges s1 \<noteq> [] then
           StartAuthentication (cf_backgroundDiscoveredBridges s1)
             (s1\<lparr>cf_backgroundDiscoveredBridges := []\<rparr>)
         else StartLoading ContConnect s1)"

definition DoConnectToBridgeBackground :: "flow \<Rightarrow> flow" where
  "DoConnectToBridgeBackground s = (case Start REQUEST_TYPE_CONNECT_BACKGROUND s of None \<Rightarrow> s
     | Some s1 \<Rightarrow> StartLoading ContConnect s1)"

definition DoConnectToBridgeWithIp :: "flow_env \<Rightarrow> string \<Rightarrow> flow \<Rightarrow> flow" where
  "DoConnectToBridgeWithIp E ipAddress s = (case Start REQUEST_TYPE_CONNECT_IP s of None \<Rightarrow> s
     | Some s1 \<Rightarrow>
         (case make_bridge E (\<lambda>b. b\<lparr>b_ipAddress := ipAddress, b_isValidIp := True\<rparr>) s1 of
            (s2, r) \<Rightarrow> StartLoading (ContRetrieve r) s2))"

definition DoConnectToNewBridge :: "flow_env \<Rightarrow> flow \<Rightarrow> flow" where
  "DoConnectToNewBridge E s = (case Start REQUEST_TYPE_CONNECT_NEW s of None \<Rightarrow> s
     | Some s1 \<Rightarrow>
         (case make_bridge E (\<lambda>b. b) (stop_if_streaming E s1) of
            (s2, r) \<Rightarrow> StartLoading ContSearch (set_active r s2)))"

definition DoSetManual :: "flow_env \<Rightarrow> ref \<Rightarrow> flow \<Rightarrow> flow" where
  "DoSetManual E r s = (case Start REQUEST_TYPE_SET_MANUAL_BRIDGE s of None \<Rightarrow> s
     | Some s1 \<Rightarrow>
         StartLoading (ContRetrieve r)
           (change_bridge r (\<lambda>b. b\<lparr>b_isValidIp := True, b_isAuthorized := True\<rparr>) (stop_if_streaming E s1)))"

definition DoConnectoToBridgeWithIdKey :: "flow_env \<Rightarrow> string \<Rightarrow> string \<Rightarrow> string \<Rightarrow> flow \<Rightarrow> flow" where
  "DoConnectoToBridgeWithIdKey E i user clientKey s = (case Start REQUEST_TYPE_CONNECT_ID_KEY s of None \<Rightarrow> s
     | Some s1 \<Rightarrow>
         (case make_bridge E (\<lambda>b. (SetUser user (b\<lparr>b_id := i\<rparr>))
                  \<lparr>b_clientKey := clientKey, b_ipAddress := ''127.0.0.1'', b_modelId := ''BSB002'',
                   b_isValidIp := True, b_isAuthorized := True\<rparr>) (stop_if_streaming E s1) of
            (s2, r) \<Rightarrow> StartLoading (ContIdKey r) s2))"

definition ClearBridge :: "flow \<Rightarrow> flow" where
  "ClearBridge s =
     (let (h1, d1) = (if cf_request s = REQUEST_TYPE_RESET_BRIDGE
                      then ClearActiveBridge (cf_store s) (cf_persistentData s)
                      else (cf_store s, cf_persistentData s));
          (h2, d2) = (if cf_request s = REQUEST_TYPE_RESET_ALL then Data_Clear h1 d1 else (h1, d1))
      in StartSaving (send ID_DONE_RESET (s\<lparr>cf_store := h2, cf_persistentData := d2\<rparr>)))"

definition DoReset :: "flow_env \<Rightarrow> bool \<Rightarrow> flow \<Rightarrow> flow" where
  "DoReset E onlyActiveBridge s =
     (case Start (if onlyActiveBridge then REQUEST_TYPE_RESET_BRIDGE else REQUEST_TYPE_RESET_ALL) s of
        None \<Rightarrow> s | Some s1 \<Rightarrow> ClearBridge (stop_if_streaming E s1))"

definition DoSelectGroup :: "string \<Rightarrow> flow \<Rightarrow> flow" where
  "DoSelectGroup i s = (case Start REQUEST_TYPE_SELECT s of None \<Rightarrow> s
     | Some s1 \<Rightarrow>
         (let (s2, a) = flow_active s1;
              (h, selected) = SelectGroup (cf_store s2) a i;
              (s3, b) = active_bridge (s2\<lparr>cf_store := h\<rparr>);
              s4 = (if \<not> IsValidGroupSelected (cf_store s3) b then ReportActionRequired s3 else s3)
          in if selected then StartSaving s4 else Finish s4))"

definition DoStartStream :: "flow_env \<Rightarrow> flow \<Rightarrow> flow" where
  "DoStartStream E s = (case Start REQUEST_TYPE_ACTIVATE s of None \<Rightarrow> s
     | Some s1 \<Rightarrow> StartRetrieveFullConfig E s1)"

definition DoStopStream :: "flow_env \<Rightarrow> flow \<Rightarrow> flow" where
  "DoStopStream E s = (case Start REQUEST_TYPE_DEACTIVATE s of None \<Rightarrow> s
     | Some s1 \<Rightarrow> DeactivateStreaming E s1)"

definition DoAbort :: "flow \<Rightarrow> flow" where
  "DoAbort s =
     (if cf_state s = Idle then s
      else
        (let s1 = (if cf_state s = SearchingFirst \<or> cf_state s = SearchingRetry
                   then emit CallSearcherAbort s else s);
             s2 = (if cf_state s1 = Authenticating then s1\<lparr>cf_ongoingAuthenticationCount := 0\<rparr> else s1);
             s3 = set_active (cf_bridgeStartState s2) s2
         in Finish (send ID_DONE_ABORTED s3)))"

definition DoOnBridgeMonitorEvent :: "flow_env \<Rightarrow> FeedbackMessage \<Rightarrow> flow \<Rightarrow> flow" where
  "DoOnBridgeMonitorEvent E m s =
     (let clipV2 = (\<lambda>s. IsSupportingClipV2 (bridges_at (cf_store s) (fm_bridge m)))
      in case Start REQUEST_TYPE_INTERNAL s of
           None \<Rightarrow> if fm_id m = ID_BRIDGE_CONNECTED \<and> clipV2 s then NewMessage m s else s
         | Some s1 \<Rightarrow>
             (let s2 = set_active (fm_bridge m) s1;
                  s3 = (if fm_id m = ID_STREAMING_DISCONNECTED then stream_stop E s2 else s2)
              in if fm_id m = ID_BRIDGE_CONNECTED \<and> clipV2 s3 then StartRetrieveFullConfig E s3
                 else
                   (let s4 = (if fm_id m = ID_INVALID_EVENTING_CONNECTION
                                 \<and> cf_fullConfigRetriever s3 \<noteq> None
                              then emit CallRefreshConnection s3 else s3)
                    in Finish (if fm_id m = ID_BRIDGE_REFRESHED then StartSaving s4 else NewMessage m s4))))"

section \<open>Events\<close>

datatype event =
    EvLoad
  | EvConnectToBridge
  | EvConnectToBridgeBackground
  | EvConnectToBridgeWithIp string
  | EvConnectToNewBridge
  | EvSetManual ref
  | EvConnectWithIdKey string string string
  | EvReset bool
  | EvSelectGroup string
  | EvStartStream
  | EvStopStream
  | EvAbort
  | EvMonitor FeedbackMessage
  | EvLoaded OperationResult HueStreamData load_cont
  | EvSearched "ref list"
  | EvAuthenticated ref
  | EvPushLink ref
  | EvSmallConfig OperationResult ref
  | EvFullConfig OperationResult ref
  | EvSaved OperationResult

fun handle :: "flow_env \<Rightarrow> event \<Rightarrow> flow \<Rightarrow> flow" where
  "handle E EvLoad s = DoLoad s"
| "handle E EvConnectToBridge s = DoConnectToBridge s"
| "handle E EvConnectToBridgeBackground s = DoConnectToBridgeBackground s"
| "handle E (EvConnectToBridgeWithIp ip) s = DoConnectToBridgeWithIp E ip s"
| "handle E EvConnectToNewBridge s = DoConnectToNewBridge E s"
| "handle E (EvSetManual r) s = DoSetManual E r s"
| "handle E (EvConnectWithIdKey i u k) s = DoConnectoToBridgeWithIdKey E i u k s"
| "handle E (EvReset onlyActive) s = DoReset E onlyActive s"
| "handle E (EvSelectGroup i) s = DoSelectGroup i s"
| "handle E EvStartStream s = DoStartStream E s"
| "handle E EvStopStream s = DoStopStream E s"
| "handle E EvAbort s = DoAbort s"
| "handle E (EvMonitor m) s = DoOnBridgeMonitorEvent E m s"
| "handle E (EvLoaded res d k) s = LoadingCompleted res d k s"
| "handle E (EvSearched bs) s = BridgeSearchCompleted bs s"
| "handle E (EvAuthenticated r) s = AuthenticationCompleted E r s"
| "handle E (EvPushLink r) s = PushLinkBridge r s"
| "handle E (EvSmallConfig res r) s = RetrieveSmallConfigCompleted E res r s"
| "handle E (EvFullConfig res r) s = RetrieveFullConfigCompleted res r s"
| "handle E (EvSaved res) s = SavingCompleted E res s"

text \<open>
  The monitor and the retriever send messages of \<open>REQUEST_TYPE_INTERNAL\<close> that are not the start
  or the end of a user procedure. A step of the flow: a queued method runs, under the settings of that moment; or, between two
  of them, another thread (a retriever, the application) changes bridges and groups, or the
  timer removes a task from the scheduler and queues its push link.
\<close>

definition monitor_message :: "FeedbackMessage \<Rightarrow> bool" where
  "monitor_message m \<longleftrightarrow> fm_requestType m = REQUEST_TYPE_INTERNAL
     \<and> fm_id m \<noteq> ID_USERPROCEDURE_STARTED \<and> fm_id m \<noteq> ID_USERPROCEDURE_FINISHED"

inductive flow_step :: "flow \<Rightarrow> flow \<Rightarrow> bool" where
  dispatched: "(\<And>m. e = EvMonitor m \<Longrightarrow> monitor_message m) \<Longrightarrow> flow_step s (handle E e s)"
| store_changed: "flow_step s (s\<lparr>cf_store := h\<rparr>)"
| timer: "flow_step s (s\<lparr>cf_tasks := ts\<rparr>)"

definition run :: "flow_env \<Rightarrow> event list \<Rightarrow> flow \<Rightarrow> flow" where
  "run E es s = fold (handle E) es s"

end
