(* ===== verification/FlowInvariant.thy ===== *)
theory FlowInvariant imports ConnectionFlow begin

text \<open>
  What every handler of the connection flow keeps: the messages of a user procedure are
  bracketed by \<open>ID_USERPROCEDURE_STARTED\<close> and \<open>ID_USERPROCEDURE_FINISHED\<close>, the flow has no request
  when it is idle, and it has a searcher whenever it waits for a search.
\<close>

section \<open>Operations on a state, field by field\<close>

definition activate :: "flow \<Rightarrow> flow" where
  "activate s = fst (flow_active s)"

definition active_of :: "flow \<Rightarrow> ref" where
  "active_of s = snd (flow_active s)"

lemma flow_active_eq: "flow_active s = (activate s, active_of s)"
  by (simp add: activate_def active_of_def)

lemma active_bridge_eq: "active_bridge s = (activate s, bridges_at (cf_store (activate s)) (active_of s))"
  by (simp add: active_bridge_def flow_active_eq)

lemma activate_upd: "\<exists>h d. activate s = s\<lparr>cf_store := h, cf_persistentData := d\<rparr>"
  by (auto simp: activate_def flow_active_def split: prod.splits)

lemma emit_upd: "emit x s = s\<lparr>cf_out := cf_out s @ [x]\<rparr>"
  by (simp add: emit_def)

lemma set_active_upd: "\<exists>h d. set_active r s = s\<lparr>cf_store := h, cf_persistentData := d\<rparr>"
  by (auto simp: set_active_def split: prod.splits)

text \<open>\<open>same_control s s'\<close>: \<open>s'\<close> differs from \<open>s\<close> in the store, the data and the log only.\<close>

definition same_control :: "flow \<Rightarrow> flow \<Rightarrow> bool" where
  "same_control s s' \<longleftrightarrow> (\<exists>h d l. s' = s\<lparr>cf_store := h, cf_persistentData := d, cf_out := l\<rparr>)"

lemma same_controlI: "same_control s (s\<lparr>cf_store := h, cf_persistentData := d, cf_out := l\<rparr>)"
  by (auto simp: same_control_def)

lemma same_control_refl [simp, intro]: "same_control s s"
  using same_controlI[of s "cf_out s" "cf_persistentData s" "cf_store s"] by simp

lemma same_control_trans [trans]: "same_control s s' \<Longrightarrow> same_control s' s'' \<Longrightarrow> same_control s s''"
  unfolding same_control_def by (elim exE) (simp, blast)

lemma same_control_fields:
  assumes "same_control s s'"
  shows "cf_state s' = cf_state s" "cf_request s' = cf_request s"
    "cf_ongoingAuthenticationCount s' = cf_ongoingAuthenticationCount s"
    "cf_backgroundDiscoveredBridges s' = cf_backgroundDiscoveredBridges s"
    "cf_bridgeStartState s' = cf_bridgeStartState s"
    "cf_authenticationProcessesInfo s' = cf_authenticationProcessesInfo s"
    "cf_tasks s' = cf_tasks s" "cf_schedulerRunning s' = cf_schedulerRunning s"
    "cf_bridgeSearcher s' = cf_bridgeSearcher s" "cf_fullConfigRetriever s' = cf_fullConfigRetriever s"
  using assms by (auto simp: same_control_def)

lemma control_activate: "same_control s (activate s)"
  using activate_upd[of s] same_controlI[of s "cf_out s"] by fastforce

lemma control_emit: "same_control s (emit x s)"
  using same_controlI[of s _ "cf_persistentData s" "cf_store s"] by (simp add: emit_upd)

lemma control_NewMessage: "same_control s (NewMessage m s)"
  unfolding NewMessage_def Let_def using control_emit same_control_trans by (metis (full_types))

lemma control_set_active: "same_control s (set_active r s)"
  using set_active_upd[of r s] same_controlI[of s "cf_out s"] by fastforce

lemma control_store: "same_control s (s\<lparr>cf_store := h\<rparr>)"
  using same_controlI[of s "cf_out s" "cf_persistentData s" h] by simp

lemma control_store_data: "same_control s (s\<lparr>cf_store := h, cf_persistentData := d\<rparr>)"
  using same_controlI[of s "cf_out s" d h] by simp

lemma control_change_bridge: "same_control s (change_bridge r f s)"
  by (simp add: change_bridge_def control_store)

lemma control_send: "same_control s (send i s)"
  unfolding send_def by (simp add: flow_active_eq) (blast intro: same_control_trans control_activate control_NewMessage)

lemma control_send_list: "same_control s (send_list i bs s)"
  unfolding send_list_def by (simp add: flow_active_eq) (blast intro: same_control_trans control_activate control_NewMessage)

lemma control_send_known: "same_control s (send_known i s)"
  unfolding send_known_def by (simp add: flow_active_eq) (blast intro: same_control_trans control_activate control_NewMessage)

lemma control_stream_stop: "same_control s (stream_stop E s)"
  unfolding stream_stop_def
  by (simp add: flow_active_eq) (blast intro: same_control_trans control_activate control_emit control_store)

lemma control_stop_if_streaming: "same_control s (stop_if_streaming E s)"
  unfolding stop_if_streaming_def
  by (simp add: active_bridge_eq control_activate same_control_trans[OF control_activate control_stream_stop])

lemma control_make_bridge: "same_control s (fst (make_bridge E f s))"
  unfolding make_bridge_def
  by (simp add: case_prod_beta Let_def) (blast intro: same_control_trans control_change_bridge control_store)

lemma control_fold_send: "same_control s (fold send ids s)"
  by (induction ids arbitrary: s) (auto intro: same_control_trans control_send)

lemma control_ReportActionRequired: "same_control s (ReportActionRequired s)"
  unfolding ReportActionRequired_def
  by (simp add: active_bridge_eq Let_def
      same_control_trans[OF control_send same_control_trans[OF control_activate control_send]])

lemmas control_rules = control_activate control_emit control_NewMessage control_set_active
  control_store control_store_data control_change_bridge control_send control_send_list
  control_send_known control_stream_stop control_stop_if_streaming control_make_bridge
  control_fold_send control_ReportActionRequired

lemmas control_simps [simp] =
  control_rules[THEN same_control_fields(1)] control_rules[THEN same_control_fields(2)]
  control_rules[THEN same_control_fields(5)] control_rules[THEN same_control_fields(6)]
  control_rules[THEN same_control_fields(3)] control_rules[THEN same_control_fields(9)]
  control_rules[THEN same_control_fields(10)] control_rules[THEN same_control_fields(4)]
  control_rules[THEN same_control_fields(7)]

section \<open>The log\<close>

text \<open>
  The feedback messages, and the automaton that reads them: it is outside every procedure or
  inside the procedure of one request, and fails on a message in the wrong place. Messages of
  \<open>REQUEST_TYPE_INTERNAL\<close> may come anywhere, and never start or end a procedure.
\<close>

fun messages_of :: "effect list \<Rightarrow> FeedbackMessage list" where
  "messages_of [] = []"
| "messages_of (Msg m # xs) = m # messages_of xs"
| "messages_of (_ # xs) = messages_of xs"

definition inner :: "Id \<Rightarrow> bool" where
  "inner i \<longleftrightarrow> i \<noteq> ID_USERPROCEDURE_STARTED \<and> i \<noteq> ID_USERPROCEDURE_FINISHED"

definition scan1 :: "RequestType option \<Rightarrow> FeedbackMessage \<Rightarrow> RequestType option option" where
  "scan1 cur m =
     (let q = fm_requestType m in
      if q = REQUEST_TYPE_INTERNAL then (if inner (fm_id m) then Some cur else None)
      else if fm_id m = ID_USERPROCEDURE_STARTED then (if cur = None then Some (Some q) else None)
      else if fm_id m = ID_USERPROCEDURE_FINISHED then (if cur = Some q then Some None else None)
      else if cur = Some q then Some cur else None)"

fun scan :: "RequestType option \<Rightarrow> FeedbackMessage list \<Rightarrow> RequestType option option" where
  "scan cur [] = Some cur"
| "scan cur (m # ms) = (case scan1 cur m of None \<Rightarrow> None | Some cur' \<Rightarrow> scan cur' ms)"

definition procedure_of :: "RequestType \<Rightarrow> RequestType option" where
  "procedure_of q = (if q = REQUEST_TYPE_INTERNAL then None else Some q)"

definition bracketed :: "flow \<Rightarrow> bool" where
  "bracketed s \<longleftrightarrow> scan None (messages_of (cf_out s)) = Some (procedure_of (cf_request s))"

lemma messages_of_append [simp]: "messages_of (xs @ ys) = messages_of xs @ messages_of ys"
  by (induction xs rule: messages_of.induct) auto

lemma scan_append: "scan cur (ms @ ns) = (case scan cur ms of None \<Rightarrow> None | Some c \<Rightarrow> scan c ns)"
  by (induction cur ms rule: scan.induct) (auto split: option.splits)

lemma messages_NewMessage [simp]: "messages_of (cf_out (NewMessage m s)) = messages_of (cf_out s) @ [m]"
  by (simp add: NewMessage_def emit_upd Let_def)

lemma log_activate [simp]: "cf_out (activate s) = cf_out s"
  using activate_upd[of s] by auto

lemma log_set_active [simp]: "cf_out (set_active r s) = cf_out s"
  using set_active_upd[of r s] by auto

lemma log_change_bridge [simp]: "cf_out (change_bridge r f s) = cf_out s"
  by (simp add: change_bridge_def)

lemma log_make_bridge [simp]: "cf_out (fst (make_bridge E f s)) = cf_out s"
  by (simp add: make_bridge_def case_prod_beta Let_def)

lemma messages_stream_stop [simp]:
  "messages_of (cf_out (stream_stop E s)) = messages_of (cf_out s)"
  by (simp add: stream_stop_def flow_active_eq emit_upd)

lemma messages_stop_if_streaming [simp]:
  "messages_of (cf_out (stop_if_streaming E s)) = messages_of (cf_out s)"
  by (simp add: stop_if_streaming_def active_bridge_eq)

lemma messages_send [simp]:
  "messages_of (cf_out (send i s)) = messages_of (cf_out s) @ [message (cf_request s) i (active_of s)]"
  by (simp add: send_def flow_active_eq)

lemma messages_send_list [simp]:
  "messages_of (cf_out (send_list i bs s))
     = messages_of (cf_out s) @ [message_list (cf_request s) i (active_of s) bs]"
  by (simp add: send_list_def flow_active_eq)

lemma messages_send_known:
  "\<exists>bs. messages_of (cf_out (send_known i s))
     = messages_of (cf_out s) @ [message_list (cf_request s) i (active_of s) bs]"
  by (simp add: send_known_def flow_active_eq) blast

section \<open>Bracketing\<close>

lemma scan_inner:
  assumes "fm_requestType m = q" "inner (fm_id m)"
  shows "scan None (ms @ [m]) = Some (procedure_of q) \<longleftrightarrow> scan None ms = Some (procedure_of q)"
  using assms by (auto simp: scan_append scan1_def procedure_of_def inner_def split: option.splits)

lemma bracketed_cong:
  "messages_of (cf_out s') = messages_of (cf_out s) \<Longrightarrow> cf_request s' = cf_request s \<Longrightarrow>
     bracketed s' = bracketed s"
  by (simp add: bracketed_def)

lemma bracketed_extend:
  assumes "messages_of (cf_out s') = messages_of (cf_out s) @ [m]" "cf_request s' = cf_request s"
    "fm_requestType m = cf_request s" "inner (fm_id m)"
  shows "bracketed s' = bracketed s"
  using scan_inner[OF assms(3,4)] by (simp add: bracketed_def assms(1,2))

lemma message_fields [simp]:
  "fm_requestType (message q i a) = q" "fm_id (message q i a) = i"
  "fm_requestType (message_list q i a bs) = q" "fm_id (message_list q i a bs) = i"
  by (simp_all add: message_def message_list_def)

lemma bracketed_NewMessage:
  "fm_requestType m = cf_request s \<Longrightarrow> inner (fm_id m) \<Longrightarrow> bracketed (NewMessage m s) = bracketed s"
  by (rule bracketed_extend) simp_all

lemma bracketed_NewMessage_internal:
  "monitor_message m \<Longrightarrow> bracketed s \<Longrightarrow> bracketed (NewMessage m s)"
  by (simp add: bracketed_def scan_append scan1_def monitor_message_def inner_def)

lemma bracketed_send: "inner i \<Longrightarrow> bracketed (send i s) = bracketed s"
  by (rule bracketed_extend[OF messages_send]) simp_all

lemma bracketed_send_list: "inner i \<Longrightarrow> bracketed (send_list i bs s) = bracketed s"
  by (rule bracketed_extend[OF messages_send_list]) simp_all

lemma bracketed_send_known: "inner i \<Longrightarrow> bracketed (send_known i s) = bracketed s"
  using messages_send_known[of i s] bracketed_extend[of "send_known i s" s] by fastforce

lemma bracketed_same [simp]:
  "bracketed (activate s) = bracketed s" "bracketed (set_active r s) = bracketed s"
  "bracketed (change_bridge r f s) = bracketed s" "bracketed (fst (make_bridge E f s)) = bracketed s"
  "bracketed (stream_stop E s) = bracketed s" "bracketed (stop_if_streaming E s) = bracketed s"
  by (rule bracketed_cong; simp)+

lemma bracketed_fields [simp]:
  "bracketed (s\<lparr>cf_store := h\<rparr>) = bracketed s" "bracketed (s\<lparr>cf_persistentData := d\<rparr>) = bracketed s"
  "bracketed (s\<lparr>cf_state := st\<rparr>) = bracketed s" "bracketed (s\<lparr>cf_bridgeSearcher := b\<rparr>) = bracketed s"
  "bracketed (s\<lparr>cf_ongoingAuthenticationCount := c\<rparr>) = bracketed s"
  "bracketed (s\<lparr>cf_backgroundDiscoveredBridges := bs\<rparr>) = bracketed s"
  "bracketed (s\<lparr>cf_bridgeStartState := r\<rparr>) = bracketed s"
  "bracketed (s\<lparr>cf_authenticationProcessesInfo := i\<rparr>) = bracketed s"
  "bracketed (s\<lparr>cf_tasks := t\<rparr>) = bracketed s" "bracketed (s\<lparr>cf_schedulerRunning := b\<rparr>) = bracketed s"
  "bracketed (s\<lparr>cf_fullConfigRetriever := f\<rparr>) = bracketed s"
  by (simp_all add: bracketed_def)

lemma bracketed_emit [simp]:
  "bracketed (emit (RetrieverEvent m) s) = bracketed s" "bracketed (emit (CallLoad k) s) = bracketed s"
  "bracketed (emit (CallSearchNew b) s) = bracketed s" "bracketed (emit CallSearcherAbort s) = bracketed s"
  "bracketed (emit (CallAuthenticate r) s) = bracketed s" "bracketed (emit (CallSmallConfig r) s) = bracketed s"
  "bracketed (emit (CallFullConfig r) s) = bracketed s" "bracketed (emit CallRefreshConnection s) = bracketed s"
  "bracketed (emit CallSave s) = bracketed s" "bracketed (emit (CallStreamStart b r) s) = bracketed s"
  "bracketed (emit (CallStreamStop r) s) = bracketed s"
  by (simp_all add: bracketed_def emit_upd)

declare inner_def [simp]

lemma report_id_inner [simp]:
  "report_id status \<noteq> ID_USERPROCEDURE_STARTED" "report_id status \<noteq> ID_USERPROCEDURE_FINISHED"
  by (cases status; simp add: report_id_def)+

lemma bracketed_report [simp]: "bracketed (ReportActionRequired s) = bracketed s"
  by (simp add: ReportActionRequired_def active_bridge_eq bracketed_send Let_def)

lemma bracketed_fold_send: "\<forall>i\<in>set ids. inner i \<Longrightarrow> bracketed (fold send ids s) = bracketed s"
  by (induction ids arbitrary: s) (simp_all add: bracketed_send)

lemma inner_differences: "i \<in> set (CompareBridges h b b') \<Longrightarrow> inner i"
  using CompareBridges_ids[of h b b'] by (auto simp: difference_ids_def inner_def)

section \<open>The invariant\<close>

definition flow_inv :: "flow \<Rightarrow> bool" where
  "flow_inv s \<longleftrightarrow> bracketed s \<and> (cf_state s = Idle \<longrightarrow> cf_request s = REQUEST_TYPE_INTERNAL)
     \<and> (cf_state s = SearchingFirst \<or> cf_state s = SearchingRetry \<longrightarrow> cf_bridgeSearcher s)"

lemma Finish_state [simp]: "cf_state (Finish s) = Idle" "cf_request (Finish s) = REQUEST_TYPE_INTERNAL"
  by (simp_all add: Finish_def flow_active_eq Let_def)

lemma bracketed_procedure:
  "bracketed s \<Longrightarrow> cf_request s = q \<Longrightarrow> scan None (messages_of (cf_out s)) = Some (procedure_of q)"
  by (simp add: bracketed_def)

lemma bracketed_Finish: "bracketed s \<Longrightarrow> bracketed (Finish s)"
proof (cases "cf_request s = REQUEST_TYPE_INTERNAL")
  case True
  then show "bracketed s \<Longrightarrow> bracketed (Finish s)" by (simp add: Finish_def bracketed_def)
next
  case False
  assume b: "bracketed s"
  let ?s2 = "activate (s\<lparr>cf_state := Idle\<rparr>)"
  let ?ds = "CompareBridges (cf_store ?s2) (bridges_at (cf_store ?s2) (cf_bridgeStartState s))
               (bridges_at (cf_store ?s2) (active_of (s\<lparr>cf_state := Idle\<rparr>)))"
  have "bracketed (fold send ?ds ?s2)"
    using bracketed_fold_send[of ?ds ?s2] inner_differences b by (simp del: inner_def)
  then show "bracketed (Finish s)"
    using False by (simp add: Finish_def flow_active_eq Let_def bracketed_def scan_append scan1_def procedure_of_def)
qed

lemma flow_inv_Finish: "bracketed s \<Longrightarrow> flow_inv (Finish s)"
  by (simp add: flow_inv_def bracketed_Finish)

lemma StartSaving_state [simp]:
  "cf_state (StartSaving s) = Saving" "cf_request (StartSaving s) = cf_request s"
  "bracketed (StartSaving s) = bracketed s"
  by (simp_all add: StartSaving_def bracketed_send_known)

lemma StartBridgeSearch_state [simp]:
  "cf_state (StartBridgeSearch s) = (if cf_state s = SearchingFirst then SearchingRetry else SearchingFirst)"
  "cf_request (StartBridgeSearch s) = cf_request s" "bracketed (StartBridgeSearch s) = bracketed s"
  "cf_bridgeSearcher (StartBridgeSearch s)"
  by (simp_all add: StartBridgeSearch_def bracketed_send Let_def)

lemma authenticate_loop_state [simp]:
  "cf_state (authenticate_loop i bs s) = cf_state s" "cf_request (authenticate_loop i bs s) = cf_request s"
  "bracketed (authenticate_loop i bs s) = bracketed s"
  by (induction i bs s rule: authenticate_loop.induct) (simp_all add: PushLinkBridge_def Let_def)

lemma StartAuthentication_state [simp]:
  "cf_state (StartAuthentication bs s) = Authenticating" "cf_request (StartAuthentication bs s) = cf_request s"
  "bracketed (StartAuthentication bs s) = bracketed s"
  by (simp_all add: StartAuthentication_def bracketed_send_list Let_def)

lemma StartRetrieveSmallConfig_state [simp]:
  "cf_state (StartRetrieveSmallConfig r s) = Retrieving"
  "cf_request (StartRetrieveSmallConfig r s) = cf_request s"
  "bracketed (StartRetrieveSmallConfig r s) = bracketed s"
  by (simp_all add: StartRetrieveSmallConfig_def bracketed_send)

lemma StartRetrieveFullConfig_state [simp]:
  "cf_state (StartRetrieveFullConfig E s) = Retrieving"
  "cf_request (StartRetrieveFullConfig E s) = cf_request s"
  "bracketed (StartRetrieveFullConfig E s) = bracketed s"
  by (simp_all add: StartRetrieveFullConfig_def flow_active_eq Let_def bracketed_NewMessage)

lemma scheduler_shutdown_state [simp]:
  "cf_state (scheduler_shutdown s) = cf_state s" "cf_request (scheduler_shutdown s) = cf_request s"
  "cf_bridgeSearcher (scheduler_shutdown s) = cf_bridgeSearcher s"
  "bracketed (scheduler_shutdown s) = bracketed s"
  by (simp_all add: scheduler_shutdown_def)

lemma ActivateStreaming_state [simp]:
  "cf_state (ActivateStreaming E s) = Idle" "cf_request (ActivateStreaming E s) = REQUEST_TYPE_INTERNAL"
  by (simp_all add: ActivateStreaming_def flow_active_eq case_prod_beta Let_def)

lemma bracketed_ActivateStreaming: "bracketed s \<Longrightarrow> bracketed (ActivateStreaming E s)"
  by (simp add: ActivateStreaming_def flow_active_eq case_prod_beta Let_def bracketed_Finish bracketed_send)

lemma SavingCompleted_state [simp]:
  "cf_state (SavingCompleted E res s) = Idle" "cf_request (SavingCompleted E res s) = REQUEST_TYPE_INTERNAL"
  by (simp_all add: SavingCompleted_def flow_active_eq Let_def)

lemma bracketed_SavingCompleted: "bracketed s \<Longrightarrow> bracketed (SavingCompleted E res s)"
  by (simp add: SavingCompleted_def flow_active_eq Let_def bracketed_Finish bracketed_send
      bracketed_send_known bracketed_ActivateStreaming)

lemma flow_inv_SavingCompleted: "flow_inv s \<Longrightarrow> flow_inv (SavingCompleted E res s)"
  by (simp add: flow_inv_def bracketed_SavingCompleted)

lemma flow_inv_RetrieveFailed: "bracketed s \<Longrightarrow> flow_inv (RetrieveFailed r s)"
  by (simp add: RetrieveFailed_def Let_def flow_inv_Finish bracketed_send bracketed_NewMessage)
     (simp add: flow_inv_def bracketed_NewMessage)

lemma flow_inv_RetrieveSmallConfigCompleted:
  assumes "flow_inv s" shows "flow_inv (RetrieveSmallConfigCompleted E res r s)"
proof -
  have b: "bracketed s" using assms by (simp add: flow_inv_def)
  show ?thesis
    using assms flow_inv_RetrieveFailed[OF b]
    by (simp add: RetrieveSmallConfigCompleted_def Let_def) (simp add: flow_inv_def bracketed_NewMessage)
qed

lemma flow_inv_RetrieveFullConfigCompleted:
  assumes "flow_inv s" shows "flow_inv (RetrieveFullConfigCompleted res r s)"
proof -
  have b: "bracketed (set_active r s)" using assms by (simp add: flow_inv_def)
  show ?thesis
    using assms flow_inv_RetrieveFailed[OF b]
    by (simp add: RetrieveFullConfigCompleted_def Let_def flow_active_eq split: prod.split)
       (simp add: flow_inv_def bracketed_send)
qed

lemma flow_inv_BridgeSearchCompleted:
  assumes "flow_inv s" shows "flow_inv (BridgeSearchCompleted bs s)"
proof -
  have b: "bracketed s" using assms by (simp add: flow_inv_def)
  show ?thesis
    using assms b
    by (simp add: BridgeSearchCompleted_def Let_def flow_active_eq active_bridge_eq flow_inv_Finish
        bracketed_send bracketed_send_list split: prod.split)
       (simp add: flow_inv_def bracketed_send bracketed_send_list)
qed

lemma authorization_result_inv:
  assumes "bracketed s" "cf_state s = Authenticating"
  shows "flow_inv (authorization_result E r s)"
  using assms
  by (simp add: authorization_result_def flow_inv_def Let_def add_pushlink_task_def bracketed_send_known)

lemma flow_inv_AuthenticationCompleted:
  assumes "flow_inv s" shows "flow_inv (AuthenticationCompleted E r s)"
proof (cases "cf_state s = Authenticating")
  case True
  have b: "bracketed s" using assms by (simp add: flow_inv_def)
  show ?thesis
    unfolding AuthenticationCompleted_def Let_def
    by (simp add: True b authorization_result_inv)
       (simp add: flow_inv_def True b bracketed_send)
qed (simp add: AuthenticationCompleted_def assms)

lemma StartLoading_inv: "bracketed s \<Longrightarrow> flow_inv (StartLoading k s)"
  by (simp add: StartLoading_def flow_inv_def bracketed_send)

lemma run_load_cont_inv: "bracketed s \<Longrightarrow> flow_inv (run_load_cont k s)"
  by (cases k) (simp_all add: run_load_cont_def flow_inv_Finish flow_active_eq, simp_all add: flow_inv_def)

lemma flow_inv_LoadingCompleted:
  assumes "flow_inv s" shows "flow_inv (LoadingCompleted res d k s)"
proof -
  have b: "bracketed s" using assms by (simp add: flow_inv_def)
  show ?thesis
    unfolding LoadingCompleted_def Let_def
    by (simp add: assms b run_load_cont_inv bracketed_send bracketed_send_known flow_active_eq)
qed

lemma Start_Some:
  "Start q s = Some s' \<Longrightarrow> cf_state s = Idle \<and> cf_state s' = Idle \<and> cf_request s' = q"
  by (auto simp: Start_def flow_active_eq Let_def split: if_splits prod.splits)

lemma Start_bracketed:
  assumes "Start q s = Some s'" "flow_inv s" shows "bracketed s'"
proof -
  have r: "cf_request s = REQUEST_TYPE_INTERNAL" "bracketed s"
    using assms Start_Some[OF assms(1)] by (auto simp: flow_inv_def)
  show ?thesis
    using assms(1) r
    by (auto simp: Start_def flow_active_eq Let_def case_prod_beta bracketed_def scan_append
        scan1_def procedure_of_def split: if_splits)
qed

lemma SelectGroup_control:
  "same_control s (s\<lparr>cf_store := fst (SelectGroup h a i)\<rparr>)"
  by (rule control_store)

lemma flow_inv_DoSelectGroup:
  assumes "flow_inv s" shows "flow_inv (DoSelectGroup i s)"
proof (cases "Start REQUEST_TYPE_SELECT s")
  case (Some s1)
  then have "bracketed s1" using Start_bracketed assms by blast
  then show ?thesis
    by (simp add: DoSelectGroup_def Some flow_active_eq active_bridge_eq Let_def flow_inv_Finish split: prod.split)
       (simp add: flow_inv_def)
qed (simp add: DoSelectGroup_def assms)

lemma flow_inv_DoAbort:
  assumes "flow_inv s" shows "flow_inv (DoAbort s)"
proof -
  have b: "bracketed s" using assms by (simp add: flow_inv_def)
  show ?thesis
    by (simp add: DoAbort_def Let_def assms b flow_inv_Finish bracketed_send)
qed

lemma flow_inv_NewMessage_internal:
  "monitor_message m \<Longrightarrow> flow_inv s \<Longrightarrow> flow_inv (NewMessage m s)"
  by (simp add: flow_inv_def bracketed_NewMessage_internal)

lemma flow_inv_DoOnBridgeMonitorEvent:
  assumes "flow_inv s" "monitor_message m"
  shows "flow_inv (DoOnBridgeMonitorEvent E m s)"
proof (cases "Start REQUEST_TYPE_INTERNAL s")
  case None
  then show ?thesis
    by (simp add: DoOnBridgeMonitorEvent_def assms flow_inv_NewMessage_internal)
next
  case (Some s1)
  then have b: "bracketed s1" using Start_bracketed assms by blast
  show ?thesis
    by (simp add: DoOnBridgeMonitorEvent_def Some Let_def b flow_inv_Finish bracketed_NewMessage_internal
        assms(2)) (simp add: flow_inv_def b)
qed

lemma flow_inv_requests:
  assumes "flow_inv s"
  shows "flow_inv (DoLoad s)" "flow_inv (DoConnectToBridge s)" "flow_inv (DoConnectToBridgeBackground s)"
    "flow_inv (DoConnectToBridgeWithIp E ip s)" "flow_inv (DoConnectToNewBridge E s)"
    "flow_inv (DoSetManual E r s)" "flow_inv (DoConnectoToBridgeWithIdKey E i u k s)"
    "flow_inv (DoReset E only s)" "flow_inv (DoStartStream E s)" "flow_inv (DoStopStream E s)"
proof -
  have mk: "bracketed s1 \<Longrightarrow> bracketed s2" if "make_bridge E f s1 = (s2, r)" for f s1 s2 r
    using bracketed_same(4)[of E f s1] that by simp
  note b = Start_bracketed[OF _ assms]
  show "flow_inv (DoLoad s)" "flow_inv (DoConnectToBridgeBackground s)" "flow_inv (DoSetManual E r s)"
    by (auto simp: DoLoad_def DoConnectToBridgeBackground_def DoSetManual_def assms
        intro!: StartLoading_inv split: option.split dest!: b)
  show "flow_inv (DoConnectToBridge s)"
    by (auto simp: DoConnectToBridge_def assms flow_inv_def[of "StartAuthentication _ _"]
        intro!: StartLoading_inv split: option.split dest!: b)
  show "flow_inv (DoConnectToBridgeWithIp E ip s)" "flow_inv (DoConnectToNewBridge E s)"
    "flow_inv (DoConnectoToBridgeWithIdKey E i u k s)"
    by (auto simp: DoConnectToBridgeWithIp_def DoConnectToNewBridge_def DoConnectoToBridgeWithIdKey_def
        assms intro!: StartLoading_inv split: option.split prod.split dest!: b mk)
  show "flow_inv (DoReset E only s)"
    by (auto simp: DoReset_def ClearBridge_def assms flow_inv_def[of "StartSaving _"] bracketed_send
        Let_def case_prod_beta split: option.split dest!: b)
  show "flow_inv (DoStartStream E s)" "flow_inv (DoStopStream E s)"
    by (auto simp: DoStartStream_def DoStopStream_def DeactivateStreaming_def assms
        flow_inv_def[of "StartRetrieveFullConfig _ _"] intro!: flow_inv_Finish split: option.split dest!: b)
qed

lemma flow_inv_handle:
  assumes "flow_inv s" "\<And>m. e = EvMonitor m \<Longrightarrow> monitor_message m"
  shows "flow_inv (handle E e s)"
proof (cases e)
  case (EvPushLink r)
  then show ?thesis using assms(1) by (simp add: PushLinkBridge_def flow_inv_def)
qed (use assms in \<open>simp_all add: flow_inv_requests flow_inv_DoSelectGroup flow_inv_DoAbort
    flow_inv_DoOnBridgeMonitorEvent flow_inv_LoadingCompleted flow_inv_BridgeSearchCompleted
    flow_inv_AuthenticationCompleted flow_inv_RetrieveSmallConfigCompleted
    flow_inv_RetrieveFullConfigCompleted flow_inv_SavingCompleted\<close>)

inductive_cases flow_stepE: "flow_step s s'"

lemma flow_inv_step: "flow_inv s \<Longrightarrow> flow_step s s' \<Longrightarrow> flow_inv s'"
  by (erule flow_stepE) (auto simp: flow_inv_handle, simp_all add: flow_inv_def)

definition flow_initial :: "flow \<Rightarrow> bool" where
  "flow_initial s \<longleftrightarrow> (\<exists>E h. s = ConnectionFlow_new E h)"

lemma flow_inv_initial: "flow_initial s \<Longrightarrow> flow_inv s"
  by (auto simp: flow_initial_def ConnectionFlow_new_def flow_inv_def bracketed_def procedure_of_def
      Let_def case_prod_beta)

interpretation flow: transition_system flow_initial flow_step flow_inv
  by unfold_locales (auto intro: flow_inv_initial flow_inv_step)

end
