(* ===== verification/FlowProperties.thy ===== *)
theory FlowProperties imports FlowInvariant begin

text \<open>
  The connection flow as an automaton: the table of its transitions, the calls with which it
  leaves work to a collaborator, and what each completion does.
\<close>

section \<open>The transition table\<close>

text \<open>
  The states a handler may leave the flow in. A request is taken in \<open>Idle\<close> only, a completion
  only in the state that waits for it; \<open>EvSaved\<close> has no such guard.
\<close>

fun transitions :: "ConnectionFlowState \<Rightarrow> event \<Rightarrow> ConnectionFlowState set" where
  "transitions st EvAbort = {Idle}"
| "transitions st (EvSaved r) = {Idle}"
| "transitions st (EvPushLink r) = {st}"
| "transitions st EvLoad = (if st = Idle then {Loading} else {st})"
| "transitions st EvConnectToBridge = (if st = Idle then {Loading, Authenticating} else {st})"
| "transitions st EvConnectToBridgeBackground = (if st = Idle then {Loading} else {st})"
| "transitions st (EvConnectToBridgeWithIp ip) = (if st = Idle then {Loading} else {st})"
| "transitions st EvConnectToNewBridge = (if st = Idle then {Loading} else {st})"
| "transitions st (EvSetManual r) = (if st = Idle then {Loading} else {st})"
| "transitions st (EvConnectWithIdKey i u k) = (if st = Idle then {Loading} else {st})"
| "transitions st (EvReset only) = (if st = Idle then {Saving} else {st})"
| "transitions st (EvSelectGroup i) = (if st = Idle then {Saving, Idle} else {st})"
| "transitions st EvStartStream = (if st = Idle then {Retrieving} else {st})"
| "transitions st EvStopStream = {st}"
| "transitions st (EvMonitor m) = (if st = Idle then {Idle, Retrieving} else {st})"
| "transitions st (EvLoaded r d k) =
     (if st \<noteq> Loading then {st} else if k = ContFinish then {Idle} else {SearchingFirst, Retrieving})"
| "transitions st (EvSearched bs) =
     (if st = SearchingFirst then {SearchingRetry, Idle, Saving, Retrieving, Authenticating}
      else if st = SearchingRetry then {Idle, Saving, Retrieving, Authenticating} else {st})"
| "transitions st (EvAuthenticated r) =
     (if st = Authenticating then {Authenticating, SearchingFirst, Retrieving} else {st})"
| "transitions st (EvSmallConfig res r) =
     (if st = Retrieving then {SearchingFirst, Idle, Authenticating, Saving, Retrieving} else {st})"
| "transitions st (EvFullConfig res r) =
     (if st = Retrieving then {SearchingFirst, Idle, Authenticating, Saving} else {st})"

lemma Start_None_iff: "Start q s = None \<longleftrightarrow> cf_state s \<noteq> Idle"
  by (simp add: Start_def)

lemma StartLoading_state [simp]: "cf_state (StartLoading k s) = Loading"
  "cf_request (StartLoading k s) = cf_request s"
  by (simp_all add: StartLoading_def)

lemma Start_state: "Start q s = Some s' \<Longrightarrow> cf_state s' = Idle"
  using Start_Some by blast

lemma RetrieveFailed_transition:
  "cf_state s = Retrieving \<Longrightarrow> cf_state (RetrieveFailed r s) \<in> {SearchingFirst, Idle, Authenticating, Saving}"
  by (simp add: RetrieveFailed_def Let_def)

lemma BridgeSearchCompleted_transition:
  "cf_state (BridgeSearchCompleted bs s) \<in> transitions (cf_state s) (EvSearched bs)"
  by (simp add: BridgeSearchCompleted_def Let_def flow_active_eq active_bridge_eq split: prod.split)

lemma AuthenticationCompleted_transition:
  "cf_state (AuthenticationCompleted E r s) \<in> transitions (cf_state s) (EvAuthenticated r)"
  by (simp add: AuthenticationCompleted_def authorization_result_def add_pushlink_task_def Let_def)

lemma LoadingCompleted_transition:
  "cf_state (LoadingCompleted res d k s) \<in> transitions (cf_state s) (EvLoaded res d k)"
  by (cases k) (simp_all add: LoadingCompleted_def run_load_cont_def Let_def flow_active_eq)

lemma SmallConfig_transition:
  "cf_state (RetrieveSmallConfigCompleted E res r s) \<in> transitions (cf_state s) (EvSmallConfig res r)"
  using RetrieveFailed_transition[of s r] by (auto simp: RetrieveSmallConfigCompleted_def Let_def)

lemma FullConfig_transition:
  "cf_state (RetrieveFullConfigCompleted res r s) \<in> transitions (cf_state s) (EvFullConfig res r)"
  using RetrieveFailed_transition[of "set_active r s" r]
  by (auto simp: RetrieveFullConfigCompleted_def Let_def flow_active_eq split: prod.split)

lemma DoSelectGroup_transition:
  "cf_state (DoSelectGroup i s) \<in> transitions (cf_state s) (EvSelectGroup i)"
  by (auto simp: DoSelectGroup_def Start_None_iff flow_active_eq active_bridge_eq Let_def
      split: option.split prod.split dest: Start_Some)

lemma DoOnBridgeMonitorEvent_transition:
  "cf_state (DoOnBridgeMonitorEvent E m s) \<in> transitions (cf_state s) (EvMonitor m)"
  by (auto simp: DoOnBridgeMonitorEvent_def Start_None_iff Let_def split: option.split dest: Start_Some)

lemma requests_transition:
  "cf_state (DoLoad s) \<in> transitions (cf_state s) EvLoad"
  "cf_state (DoConnectToBridge s) \<in> transitions (cf_state s) EvConnectToBridge"
  "cf_state (DoConnectToBridgeBackground s) \<in> transitions (cf_state s) EvConnectToBridgeBackground"
  "cf_state (DoConnectToBridgeWithIp E ip s) \<in> transitions (cf_state s) (EvConnectToBridgeWithIp ip)"
  "cf_state (DoConnectToNewBridge E s) \<in> transitions (cf_state s) EvConnectToNewBridge"
  "cf_state (DoSetManual E r s) \<in> transitions (cf_state s) (EvSetManual r)"
  "cf_state (DoConnectoToBridgeWithIdKey E i u k s) \<in> transitions (cf_state s) (EvConnectWithIdKey i u k)"
  "cf_state (DoReset E only s) \<in> transitions (cf_state s) (EvReset only)"
  "cf_state (DoStartStream E s) \<in> transitions (cf_state s) EvStartStream"
  "cf_state (DoStopStream E s) \<in> transitions (cf_state s) EvStopStream"
  by (auto simp: DoLoad_def DoConnectToBridge_def DoConnectToBridgeBackground_def
      DoConnectToBridgeWithIp_def DoConnectToNewBridge_def DoSetManual_def
      DoConnectoToBridgeWithIdKey_def DoReset_def ClearBridge_def DoStartStream_def DoStopStream_def
      DeactivateStreaming_def Start_None_iff Let_def split: option.split prod.split dest: Start_Some)

lemma DoAbort_state: "cf_state (DoAbort s) = Idle"
  by (simp add: DoAbort_def Let_def)

lemma handle_transition: "cf_state (handle E e s) \<in> transitions (cf_state s) e"
  by (cases e) (simp_all only: handle.simps requests_transition DoSelectGroup_transition
      DoOnBridgeMonitorEvent_transition LoadingCompleted_transition BridgeSearchCompleted_transition
      AuthenticationCompleted_transition SmallConfig_transition FullConfig_transition,
      simp_all add: DoAbort_state PushLinkBridge_def)

section \<open>Work left to a collaborator\<close>

fun is_work :: "effect \<Rightarrow> bool" where
  "is_work (CallLoad k) = True"
| "is_work (CallSearchNew b) = True"
| "is_work (CallAuthenticate r) = True"
| "is_work (CallSmallConfig r) = True"
| "is_work (CallFullConfig r) = True"
| "is_work CallSave = True"
| "is_work _ = False"

definition work :: "flow \<Rightarrow> effect list" where
  "work s = filter is_work (cf_out s)"

text \<open>The calls whose answer a state waits for.\<close>

fun awaits :: "ConnectionFlowState \<Rightarrow> effect \<Rightarrow> bool" where
  "awaits Loading (CallLoad k) = True"
| "awaits SearchingFirst (CallSearchNew b) = (\<not> b)"
| "awaits SearchingRetry (CallSearchNew b) = b"
| "awaits Authenticating (CallAuthenticate r) = True"
| "awaits Retrieving (CallSmallConfig r) = True"
| "awaits Retrieving (CallFullConfig r) = True"
| "awaits Saving CallSave = True"
| "awaits _ _ = False"

lemma work_silent [simp]:
  "work (activate s) = work s" "work (set_active r s) = work s" "work (change_bridge r f s) = work s"
  "work (fst (make_bridge E f s)) = work s"
  by (simp_all add: work_def)

lemma work_emit [simp]: "work (emit x s) = work s @ (if is_work x then [x] else [])"
  by (simp add: work_def emit_upd)

lemma work_NewMessage [simp]: "work (NewMessage m s) = work s"
  by (simp add: NewMessage_def Let_def)

lemma work_send [simp]: "work (send i s) = work s" "work (send_list i bs s) = work s"
  "work (send_known i s) = work s"
  by (simp_all add: send_def send_list_def send_known_def flow_active_eq)

lemma work_fields [simp]:
  "work (s\<lparr>cf_store := h\<rparr>) = work s" "work (s\<lparr>cf_persistentData := d\<rparr>) = work s"
  "work (s\<lparr>cf_state := st\<rparr>) = work s" "work (s\<lparr>cf_bridgeSearcher := b\<rparr>) = work s"
  "work (s\<lparr>cf_ongoingAuthenticationCount := c\<rparr>) = work s" "work (s\<lparr>cf_request := q\<rparr>) = work s"
  "work (s\<lparr>cf_backgroundDiscoveredBridges := bs\<rparr>) = work s"
  "work (s\<lparr>cf_bridgeStartState := r\<rparr>) = work s"
  "work (s\<lparr>cf_authenticationProcessesInfo := i\<rparr>) = work s"
  "work (s\<lparr>cf_tasks := t\<rparr>) = work s" "work (s\<lparr>cf_schedulerRunning := b\<rparr>) = work s"
  "work (s\<lparr>cf_fullConfigRetriever := f\<rparr>) = work s"
  by (simp_all add: work_def)

lemma work_stream [simp]: "work (stream_stop E s) = work s" "work (stop_if_streaming E s) = work s"
  by (simp_all add: stream_stop_def stop_if_streaming_def flow_active_eq active_bridge_eq)

lemma work_report [simp]: "work (ReportActionRequired s) = work s"
  by (simp add: ReportActionRequired_def active_bridge_eq Let_def)

lemma work_fold_send [simp]: "work (fold send ids s) = work s"
  by (induction ids arbitrary: s) simp_all

lemma work_Finish [simp]: "work (Finish s) = work s"
  by (simp add: Finish_def flow_active_eq Let_def)

lemma work_loop [simp]: "work (authenticate_loop i bs s) = work s @ map CallAuthenticate bs"
  by (induction i bs s rule: authenticate_loop.induct) (simp_all add: PushLinkBridge_def Let_def)

lemma work_starts [simp]:
  "work (StartSaving s) = work s @ [CallSave]"
  "work (StartBridgeSearch s) = work s @ [CallSearchNew (cf_state s = SearchingFirst)]"
  "work (StartAuthentication bs s) = work s @ map CallAuthenticate bs"
  "work (StartRetrieveSmallConfig r s) = work s @ [CallSmallConfig r]"
  "work (StartLoading k s) = work s @ [CallLoad k]"
  by (simp_all add: StartSaving_def StartBridgeSearch_def StartAuthentication_def
      StartRetrieveSmallConfig_def StartLoading_def Let_def)

lemma work_full [simp]:
  "work (StartRetrieveFullConfig E s) = work s @ [CallFullConfig (active_of (s\<lparr>cf_state := Retrieving\<rparr>))]"
  by (simp add: StartRetrieveFullConfig_def flow_active_eq Let_def)

lemma work_shutdown [simp]: "work (scheduler_shutdown s) = work s"
  by (simp add: scheduler_shutdown_def)

lemma work_Start: "Start q s = Some s' \<Longrightarrow> work s' = work s"
  by (auto simp: Start_def flow_active_eq Let_def case_prod_beta split: if_splits)

definition handed_over :: "flow \<Rightarrow> flow \<Rightarrow> bool" where
  "handed_over s s' \<longleftrightarrow> (\<exists>cs. work s' = work s @ cs \<and>
     (cf_state s' \<noteq> Idle \<and> cf_state s' \<noteq> cf_state s \<longrightarrow> (\<exists>c\<in>set cs. awaits (cf_state s') c)))"

lemma handed_overI:
  "work s' = work s @ cs \<Longrightarrow>
     (cf_state s' \<noteq> Idle \<Longrightarrow> cf_state s' \<noteq> cf_state s \<Longrightarrow> \<exists>c\<in>set cs. awaits (cf_state s') c) \<Longrightarrow> handed_over s s'"
  by (auto simp: handed_over_def)

lemma handed_over_idle: "work s' = work s \<Longrightarrow> cf_state s' = Idle \<or> cf_state s' = cf_state s \<Longrightarrow> handed_over s s'"
  by (rule handed_overI[of _ _ "[]"]) auto

lemma handed_over_starts:
  "work s1 = work s \<Longrightarrow> handed_over s (StartSaving s1)"
  "work s1 = work s \<Longrightarrow> handed_over s (StartBridgeSearch s1)"
  "work s1 = work s \<Longrightarrow> handed_over s (StartRetrieveSmallConfig r s1)"
  "work s1 = work s \<Longrightarrow> handed_over s (StartRetrieveFullConfig E s1)"
  "work s1 = work s \<Longrightarrow> handed_over s (StartLoading k s1)"
  "work s1 = work s \<Longrightarrow> bs \<noteq> [] \<Longrightarrow> handed_over s (StartAuthentication bs s1)"
  by (auto simp: handed_over_def neq_Nil_conv)

lemma handed_over_shutdown: "handed_over s s' \<Longrightarrow> handed_over s (scheduler_shutdown s')"
  by (simp add: handed_over_def)

lemma RetrieveFailed_work: "work s = work s0 \<Longrightarrow> handed_over s0 (RetrieveFailed r s)"
  by (auto simp: RetrieveFailed_def Let_def intro!: handed_over_starts intro: handed_over_idle)

lemma FullConfig_work: "handed_over s (RetrieveFullConfigCompleted res r s)"
  by (auto simp: RetrieveFullConfigCompleted_def Let_def flow_active_eq
      intro!: handed_over_starts RetrieveFailed_work intro: handed_over_idle split: prod.split)

lemma SmallConfig_work: "handed_over s (RetrieveSmallConfigCompleted E res r s)"
  by (auto simp: RetrieveSmallConfigCompleted_def Let_def
      intro!: handed_over_starts RetrieveFailed_work intro: handed_over_idle)

lemma BridgeSearchCompleted_work: "handed_over s (BridgeSearchCompleted bs s)"
  by (auto simp: BridgeSearchCompleted_def Let_def flow_active_eq active_bridge_eq
      intro!: handed_over_starts intro: handed_over_idle split: prod.split)

lemma AuthenticationCompleted_work: "handed_over s (AuthenticationCompleted E r s)"
  by (auto simp: AuthenticationCompleted_def authorization_result_def add_pushlink_task_def Let_def
      intro!: handed_over_starts handed_over_shutdown intro: handed_over_idle)

lemma LoadingCompleted_work: "handed_over s (LoadingCompleted res d k s)"
  by (cases k) (auto simp: LoadingCompleted_def run_load_cont_def Let_def flow_active_eq
      intro!: handed_over_starts intro: handed_over_idle)

lemma work_SavingCompleted: "work (SavingCompleted E res s) = work s"
  by (simp add: SavingCompleted_def ActivateStreaming_def flow_active_eq Let_def case_prod_beta)

lemma make_bridge_work: "make_bridge E f s = (s', r) \<Longrightarrow> work s' = work s"
  using work_silent(4)[of E f s] by simp

lemma DoSelectGroup_work: "handed_over s (DoSelectGroup i s)"
  by (auto simp: DoSelectGroup_def flow_active_eq active_bridge_eq Let_def work_Start
      intro!: handed_over_starts intro: handed_over_idle split: option.split prod.split)

lemma DoOnBridgeMonitorEvent_work: "handed_over s (DoOnBridgeMonitorEvent E m s)"
proof (cases "Start REQUEST_TYPE_INTERNAL s")
  case (Some s1)
  have w: "work s1 = work s" by (rule work_Start[OF Some])
  have "handed_over s (Finish s')" if "work s' = work s @ cs" for s' cs
    using that by (intro handed_overI[of _ _ cs]) auto
  with w show ?thesis
    by (auto simp: DoOnBridgeMonitorEvent_def Some Let_def intro!: handed_over_starts)
qed (simp add: DoOnBridgeMonitorEvent_def Let_def handed_over_idle)

lemma requests_work:
  "handed_over s (DoLoad s)" "handed_over s (DoConnectToBridge s)"
  "handed_over s (DoConnectToBridgeBackground s)" "handed_over s (DoConnectToBridgeWithIp E ip s)"
  "handed_over s (DoConnectToNewBridge E s)" "handed_over s (DoSetManual E r s)"
  "handed_over s (DoConnectoToBridgeWithIdKey E i u k s)" "handed_over s (DoReset E only s)"
  "handed_over s (DoStartStream E s)" "handed_over s (DoStopStream E s)"
  by (auto simp: DoLoad_def DoConnectToBridge_def DoConnectToBridgeBackground_def
      DoConnectToBridgeWithIp_def DoConnectToNewBridge_def DoSetManual_def
      DoConnectoToBridgeWithIdKey_def DoReset_def ClearBridge_def DoStartStream_def DoStopStream_def
      DeactivateStreaming_def Let_def case_prod_beta
      intro!: handed_over_starts intro: handed_over_idle split: option.split
      dest!: work_Start make_bridge_work)

lemma DoAbort_work: "handed_over s (DoAbort s)"
  by (auto simp: DoAbort_def Let_def intro!: handed_over_idle)

lemma handle_work: "handed_over s (handle E e s)"
proof (cases e)
  case (EvPushLink r)
  then show ?thesis by (auto simp: PushLinkBridge_def intro!: handed_overI[of _ _ "[CallAuthenticate r]"])
next
  case (EvSaved res)
  then show ?thesis by (auto simp: work_SavingCompleted intro!: handed_over_idle)
qed (simp_all add: requests_work DoSelectGroup_work DoOnBridgeMonitorEvent_work LoadingCompleted_work
    BridgeSearchCompleted_work AuthenticationCompleted_work SmallConfig_work FullConfig_work DoAbort_work)

section \<open>The log only grows\<close>

definition extends :: "flow \<Rightarrow> flow \<Rightarrow> bool" where
  "extends s0 s \<longleftrightarrow> (\<exists>ms. messages_of (cf_out s) = messages_of (cf_out s0) @ ms)"

lemma extends_refl [simp]: "extends s s"
  by (simp add: extends_def)

lemma extends_trans: "extends s0 s1 \<Longrightarrow> extends s1 s2 \<Longrightarrow> extends s0 s2"
  by (force simp: extends_def)

lemma extends_same: "messages_of (cf_out s') = messages_of (cf_out s) \<Longrightarrow> extends s0 s' = extends s0 s"
  by (simp add: extends_def)

lemma extends_fields [simp]:
  "extends s0 (s\<lparr>cf_store := h\<rparr>) = extends s0 s" "extends s0 (s\<lparr>cf_persistentData := d\<rparr>) = extends s0 s"
  "extends s0 (s\<lparr>cf_state := st\<rparr>) = extends s0 s" "extends s0 (s\<lparr>cf_bridgeSearcher := b\<rparr>) = extends s0 s"
  "extends s0 (s\<lparr>cf_ongoingAuthenticationCount := c\<rparr>) = extends s0 s"
  "extends s0 (s\<lparr>cf_request := q\<rparr>) = extends s0 s"
  "extends s0 (s\<lparr>cf_backgroundDiscoveredBridges := bs\<rparr>) = extends s0 s"
  "extends s0 (s\<lparr>cf_bridgeStartState := r\<rparr>) = extends s0 s"
  "extends s0 (s\<lparr>cf_authenticationProcessesInfo := i\<rparr>) = extends s0 s"
  "extends s0 (s\<lparr>cf_tasks := t\<rparr>) = extends s0 s" "extends s0 (s\<lparr>cf_schedulerRunning := b\<rparr>) = extends s0 s"
  "extends s0 (s\<lparr>cf_fullConfigRetriever := f\<rparr>) = extends s0 s"
  "extends s0 (activate s) = extends s0 s" "extends s0 (set_active r s) = extends s0 s"
  "extends s0 (change_bridge r f1 s) = extends s0 s" "extends s0 (fst (make_bridge E f1 s)) = extends s0 s"
  "extends s0 (stream_stop E s) = extends s0 s" "extends s0 (stop_if_streaming E s) = extends s0 s"
  "extends s0 (scheduler_shutdown s) = extends s0 s"
  by (rule extends_same, simp add: scheduler_shutdown_def)+

lemma extends_messages:
  "extends s (NewMessage m s)" "extends s (send i s)" "extends s (send_list i bs s)"
  using messages_NewMessage messages_send messages_send_list by (simp_all only: extends_def) blast+

lemma extends_known: "extends s (send_known i s)"
  using messages_send_known[of i s] by (auto simp: extends_def)

lemma extends_emit: "extends s (emit x s)"
  by (cases x) (simp_all add: extends_def emit_upd)

lemma extends_fold_send: "extends s (fold send ids s)"
  by (induction ids arbitrary: s) (auto intro: extends_trans extends_messages)

lemmas extends_basic = extends_messages[THEN extends_trans[rotated]] extends_known[THEN extends_trans[rotated]]
  extends_emit[THEN extends_trans[rotated]] extends_fold_send[THEN extends_trans[rotated]]

lemma extends_composed:
  "extends s0 s \<Longrightarrow> extends s0 (ReportActionRequired s)" "extends s0 s \<Longrightarrow> extends s0 (StartSaving s)"
  "extends s0 s \<Longrightarrow> extends s0 (StartBridgeSearch s)" "extends s0 s \<Longrightarrow> extends s0 (StartLoading k s)"
  "extends s0 s \<Longrightarrow> extends s0 (StartRetrieveSmallConfig r s)"
  "extends s0 s \<Longrightarrow> extends s0 (StartRetrieveFullConfig E s)"
  by (simp_all add: ReportActionRequired_def StartSaving_def StartBridgeSearch_def StartLoading_def
      StartRetrieveSmallConfig_def StartRetrieveFullConfig_def active_bridge_eq flow_active_eq
      extends_basic Let_def)

lemma extends_Finish: "extends s0 s \<Longrightarrow> extends s0 (Finish s)"
  by (simp add: Finish_def flow_active_eq extends_basic Let_def)

lemma extends_loop: "extends s0 s \<Longrightarrow> extends s0 (authenticate_loop i bs s)"
  by (induction i bs s rule: authenticate_loop.induct) (simp_all add: PushLinkBridge_def extends_basic Let_def)

lemma extends_StartAuthentication: "extends s0 s \<Longrightarrow> extends s0 (StartAuthentication bs s)"
  by (simp add: StartAuthentication_def extends_basic extends_loop Let_def)

lemma extends_ActivateStreaming: "extends s0 s \<Longrightarrow> extends s0 (ActivateStreaming E s)"
  by (simp add: ActivateStreaming_def flow_active_eq case_prod_beta extends_basic extends_composed
      extends_Finish Let_def)

lemmas extends_rules = extends_basic extends_composed extends_Finish extends_StartAuthentication
  extends_ActivateStreaming

lemma extends_Start: "Start q s = Some s' \<Longrightarrow> extends s s'"
  by (auto simp: Start_def flow_active_eq Let_def case_prod_beta extends_basic split: if_splits)

lemma extends_RetrieveFailed: "extends s0 s \<Longrightarrow> extends s0 (RetrieveFailed r s)"
  by (simp add: RetrieveFailed_def extends_rules Let_def)

lemma extends_completions:
  "extends s (RetrieveSmallConfigCompleted E res r s)" "extends s (RetrieveFullConfigCompleted res r s)"
  "extends s (BridgeSearchCompleted bs s)" "extends s (AuthenticationCompleted E r s)"
  "extends s (SavingCompleted E res s)" "extends s (PushLinkBridge r s)"
  by (simp_all add: RetrieveSmallConfigCompleted_def RetrieveFullConfigCompleted_def
      BridgeSearchCompleted_def AuthenticationCompleted_def authorization_result_def
      add_pushlink_task_def SavingCompleted_def PushLinkBridge_def flow_active_eq active_bridge_eq
      extends_rules extends_RetrieveFailed Let_def split: prod.split)

lemma extends_LoadingCompleted: "extends s (LoadingCompleted res d k s)"
  by (cases k) (simp_all add: LoadingCompleted_def run_load_cont_def flow_active_eq extends_rules Let_def)

lemma extends_make_bridge: "make_bridge E f s = (s', r) \<Longrightarrow> extends s0 s \<Longrightarrow> extends s0 s'"
  using extends_fields(16)[of s0 E f s] by simp

lemma extends_requests:
  "extends s (DoLoad s)" "extends s (DoConnectToBridge s)" "extends s (DoConnectToBridgeBackground s)"
  "extends s (DoConnectToBridgeWithIp E ip s)" "extends s (DoConnectToNewBridge E s)"
  "extends s (DoSetManual E r s)" "extends s (DoConnectoToBridgeWithIdKey E i u k s)"
  "extends s (DoReset E only s)" "extends s (DoStartStream E s)" "extends s (DoStopStream E s)"
  "extends s (DoSelectGroup i s)" "extends s (DoOnBridgeMonitorEvent E m s)" "extends s (DoAbort s)"
  by (auto simp: DoLoad_def DoConnectToBridge_def DoConnectToBridgeBackground_def
      DoConnectToBridgeWithIp_def DoConnectToNewBridge_def DoSetManual_def
      DoConnectoToBridgeWithIdKey_def DoReset_def ClearBridge_def DoStartStream_def DoStopStream_def
      DeactivateStreaming_def DoSelectGroup_def DoOnBridgeMonitorEvent_def DoAbort_def
      flow_active_eq active_bridge_eq Let_def case_prod_beta
      intro!: extends_rules dest: extends_Start split: option.split)

lemma extends_handle: "extends s (handle E e s)"
  by (cases e) (simp_all add: extends_requests extends_completions extends_LoadingCompleted)

section \<open>Filtering the bridges of a search\<close>

definition address :: "store \<Rightarrow> ref \<Rightarrow> string" where
  "address h r = b_ipAddress (bridges_at h r)"

lemma filter_ip_step:
  "filter_ip_loop h (x # xs) acc =
     (if b_isValidIp (bridges_at h x) \<and> address h x \<notin> address h ` set acc
      then filter_ip_loop h xs (acc @ [x]) else filter_ip_loop h xs acc)"
proof -
  have "find_index (\<lambda>arg. b_ipAddress (bridges_at h arg) = b_ipAddress (bridges_at h x)) acc = None
          \<longleftrightarrow> address h x \<notin> address h ` set acc"
    unfolding find_index_None_iff address_def image_iff by metis
  then show ?thesis by simp
qed

lemma filter_ip_loop_result:
  "distinct (map (address h) acc) \<Longrightarrow> \<forall>r\<in>set acc. b_isValidIp (bridges_at h r) \<Longrightarrow>
     (let out = filter_ip_loop h xs acc in
        distinct (map (address h) out) \<and> (\<forall>r\<in>set out. b_isValidIp (bridges_at h r))
        \<and> address h ` set out = address h ` set acc \<union> address h ` {r \<in> set xs. b_isValidIp (bridges_at h r)}
        \<and> (\<exists>ys. out = acc @ ys \<and> subseq ys xs))"
proof (induction xs arbitrary: acc)
  case (Cons x xs)
  show ?case
  proof (cases "b_isValidIp (bridges_at h x) \<and> address h x \<notin> address h ` set acc")
    case True
    then have "distinct (map (address h) (acc @ [x]))" "\<forall>r\<in>set (acc @ [x]). b_isValidIp (bridges_at h r)"
      using Cons.prems by auto
    from Cons.IH[OF this] True show ?thesis
      by (auto simp: filter_ip_step Let_def simp del: filter_ip_loop.simps(2))
  next
    case False
    from Cons.IH[OF Cons.prems] False show ?thesis
      by (auto simp: filter_ip_step Let_def simp del: filter_ip_loop.simps(2))
  qed
qed simp

section \<open>The active bridge and the end of a procedure\<close>

lemma activate_nonempty: "d_bridges (cf_persistentData s) \<noteq> [] \<Longrightarrow>
    activate s = s \<and> active_of s = last (d_bridges (cf_persistentData s))"
  by (simp add: activate_def active_of_def flow_active_def GetActiveBridge_nonempty)

lemma NewMessage_data [simp]: "cf_persistentData (NewMessage m s) = cf_persistentData s"
  "cf_store (NewMessage m s) = cf_store s"
  by (simp_all add: NewMessage_def emit_upd Let_def)

lemma emit_data [simp]: "cf_persistentData (emit x s) = cf_persistentData s" "cf_store (emit x s) = cf_store s"
  by (simp_all add: emit_upd)

text \<open>With a bridge in the list, a message changes neither the bridges nor the store.\<close>

lemma send_data:
  assumes "d_bridges (cf_persistentData s) \<noteq> []"
  shows "cf_persistentData (send i s) = cf_persistentData s" "cf_store (send i s) = cf_store s"
    "cf_persistentData (send_known i s) = cf_persistentData s" "cf_store (send_known i s) = cf_store s"
    "cf_persistentData (send_list i bs s) = cf_persistentData s" "cf_store (send_list i bs s) = cf_store s"
  using activate_nonempty[OF assms] by (simp_all add: send_def send_known_def send_list_def flow_active_eq)

lemma fold_send_data:
  "d_bridges (cf_persistentData s) \<noteq> [] \<Longrightarrow>
     cf_persistentData (fold send ids s) = cf_persistentData s \<and> cf_store (fold send ids s) = cf_store s"
  by (induction ids arbitrary: s) (simp_all add: send_data)

lemma Finish_data:
  assumes "d_bridges (cf_persistentData s) \<noteq> []"
  shows "cf_persistentData (Finish s) = cf_persistentData s \<and> cf_store (Finish s) = cf_store s"
proof -
  have a: "activate (s\<lparr>cf_state := Idle\<rparr>) = s\<lparr>cf_state := Idle\<rparr>" using assms by (simp add: activate_nonempty)
  show ?thesis using assms
    by (simp add: Finish_def flow_active_eq Let_def a send_data fold_send_data)
qed

lemma set_active_last:
  "d_bridges (cf_persistentData (set_active r s)) \<noteq> []
     \<and> last (d_bridges (cf_persistentData (set_active r s))) = r"
  by (simp add: set_active_def SetActiveBridge_def Let_def case_prod_beta)

text \<open>What \<open>Finish\<close> reports: the differences since the start, then the end of the procedure.\<close>

definition finish_messages :: "flow \<Rightarrow> FeedbackMessage list" where
  "finish_messages s =
     (let a = last (d_bridges (cf_persistentData s)); h = cf_store s
      in map (\<lambda>i. message (cf_request s) i a)
           (CompareBridges h (bridges_at h (cf_bridgeStartState s)) (bridges_at h a)
            @ [ID_USERPROCEDURE_FINISHED]))"

lemma fold_send_messages:
  "d_bridges (cf_persistentData s) \<noteq> [] \<Longrightarrow>
     messages_of (cf_out (fold send ids s)) = messages_of (cf_out s)
       @ map (\<lambda>i. message (cf_request s) i (last (d_bridges (cf_persistentData s)))) ids"
  by (induction ids arbitrary: s) (simp_all add: send_data activate_nonempty)

lemma Finish_messages:
  assumes "d_bridges (cf_persistentData s) \<noteq> []" "cf_request s \<noteq> REQUEST_TYPE_INTERNAL"
  shows "messages_of (cf_out (Finish s)) = messages_of (cf_out s) @ finish_messages s"
proof -
  let ?t = "s\<lparr>cf_state := Idle\<rparr>"
  have a: "activate ?t = ?t" "active_of ?t = last (d_bridges (cf_persistentData s))"
    using assms(1) by (simp_all add: activate_nonempty)
  have "active_of (fold send ids ?t) = last (d_bridges (cf_persistentData s))" for ids
    using assms(1) fold_send_data[of ?t ids] by (simp add: activate_nonempty)
  then show ?thesis using assms
    by (simp add: Finish_def flow_active_eq Let_def a fold_send_messages finish_messages_def)
qed

definition abort_prepared :: "flow \<Rightarrow> flow" where
  "abort_prepared s =
     (let s1 = (if cf_state s = SearchingFirst \<or> cf_state s = SearchingRetry
                then emit CallSearcherAbort s else s)
      in if cf_state s1 = Authenticating then s1\<lparr>cf_ongoingAuthenticationCount := 0\<rparr> else s1)"

lemma abort_prepared_simps [simp]:
  "cf_state (abort_prepared s) = cf_state s" "cf_request (abort_prepared s) = cf_request s"
  "cf_bridgeStartState (abort_prepared s) = cf_bridgeStartState s"
  "cf_store (abort_prepared s) = cf_store s"
  "messages_of (cf_out (abort_prepared s)) = messages_of (cf_out s)" "work (abort_prepared s) = work s"
  by (simp_all add: abort_prepared_def Let_def) (simp_all add: emit_upd)

lemma DoAbort_eq:
  "cf_state s \<noteq> Idle \<Longrightarrow>
     DoAbort s = Finish (send ID_DONE_ABORTED (set_active (cf_bridgeStartState s) (abort_prepared s)))"
  by (simp add: DoAbort_def abort_prepared_def Let_def)

lemma DoAbort_active:
  assumes "cf_state s \<noteq> Idle"
  shows "last (d_bridges (cf_persistentData (DoAbort s))) = cf_bridgeStartState s
     \<and> d_bridges (cf_persistentData (DoAbort s)) \<noteq> []"
proof -
  let ?t = "set_active (cf_bridgeStartState s) (abort_prepared s)"
  note t = set_active_last[of "cf_bridgeStartState s" "abort_prepared s"]
  have "d_bridges (cf_persistentData (send ID_DONE_ABORTED ?t)) \<noteq> []" using t by (simp add: send_data)
  from Finish_data[OF this] t show ?thesis by (simp add: DoAbort_eq[OF assms] send_data)
qed

lemma CompareBridges_self [simp]: "CompareBridges h b b = []"
  by (rule CompareBridges_same) (simp_all add: IsBridgeChanged_def)

lemma DoAbort_messages:
  assumes "cf_state s \<noteq> Idle" "cf_request s \<noteq> REQUEST_TYPE_INTERNAL"
  shows "messages_of (cf_out (DoAbort s)) = messages_of (cf_out s)
     @ map (\<lambda>i. message (cf_request s) i (cf_bridgeStartState s)) [ID_DONE_ABORTED, ID_USERPROCEDURE_FINISHED]"
proof -
  let ?t = "set_active (cf_bridgeStartState s) (abort_prepared s)"
  note t = set_active_last[of "cf_bridgeStartState s" "abort_prepared s"]
  have ne: "d_bridges (cf_persistentData (send ID_DONE_ABORTED ?t)) \<noteq> []"
    "cf_request (send ID_DONE_ABORTED ?t) \<noteq> REQUEST_TYPE_INTERNAL"
    using t assms(2) by (simp_all add: send_data)
  show ?thesis
    using Finish_messages[OF ne] t activate_nonempty[of ?t]
    by (simp add: DoAbort_eq[OF assms(1)] finish_messages_def Let_def send_data)
qed

section \<open>Authentication\<close>

text \<open>
  One bridge, seen alone: it answers a push link with an unreachable address (\<open>b_isValidIp\<close> is
  false when the answer is handled) again and again.
\<close>

definition auth_unreachable :: "flow_env \<Rightarrow> ref \<Rightarrow> flow \<Rightarrow> flow" where
  "auth_unreachable E r s =
     AuthenticationCompleted E r (change_bridge r (\<lambda>b. b\<lparr>b_isValidIp := False, b_isAuthorized := False\<rparr>) s)"

lemma auth_unreachable_retry:
  assumes "cf_state s = Authenticating" "failedTries (process_info s r) < PUSHLINK_INVALID_IP_MAX_RETRIES"
  shows "cf_state (auth_unreachable E r s) = Authenticating
    \<and> failedTries (process_info (auth_unreachable E r s) r) = failedTries (process_info s r) + 1
    \<and> bridgeNumber (process_info (auth_unreachable E r s) r) = bridgeNumber (process_info s r)
    \<and> cf_ongoingAuthenticationCount (auth_unreachable E r s) = cf_ongoingAuthenticationCount s
    \<and> (bridgeNumber (process_info s r), r) \<in> set (cf_tasks (auth_unreachable E r s))"
  using assms
  by (simp add: auth_unreachable_def AuthenticationCompleted_def authorization_result_def Let_def
      add_pushlink_task_def process_info_def change_bridge_def upd_bridge_def split: option.splits)

lemma auth_unreachable_last:
  assumes "cf_state s = Authenticating" "failedTries (process_info s r) \<ge> PUSHLINK_INVALID_IP_MAX_RETRIES"
  shows "cf_state (auth_unreachable E r s)
      = (if cf_ongoingAuthenticationCount s = 1 then SearchingFirst else Authenticating)
    \<and> (cf_ongoingAuthenticationCount s \<noteq> 1 \<longrightarrow>
         cf_ongoingAuthenticationCount (auth_unreachable E r s) = cf_ongoingAuthenticationCount s - 1
         \<and> cf_tasks (auth_unreachable E r s) = cf_tasks s)
    \<and> (cf_ongoingAuthenticationCount s = 1 \<longrightarrow>
         cf_tasks (auth_unreachable E r s) = [] \<and> work (auth_unreachable E r s) = work s @ [CallSearchNew False])"
  using assms
  by (simp add: auth_unreachable_def AuthenticationCompleted_def Let_def process_info_def
      change_bridge_def upd_bridge_def scheduler_shutdown_def split: option.splits)

section \<open>Properties\<close>

text \<open>A sample environment, in which every collaborator accepts its work, and a sample flow.\<close>

definition sample_env :: flow_env where
  "sample_env = \<lparr>e_bridgeSettings = BridgeSettings_default, e_autoStartAtConnection = False,
     e_useRenderThread = True, e_streamStart = (\<lambda>_ h _. (h, True)), e_streamStop = (\<lambda>h _. h),
     e_execute = (\<lambda>_ _. True)\<rparr>"

definition sample_store :: store where
  "sample_store = \<lparr>bridges_at = (\<lambda>_. new_bridge_value [] [] False BridgeSettings_default 0),
     grouplists_at = (\<lambda>_. []), groups_at = (\<lambda>_. Group_new), next_ref = 0\<rparr>"

definition sample_flow :: flow where
  "sample_flow = ConnectionFlow_new sample_env sample_store"

lemma sample_initial: "flow_initial sample_flow"
  by (auto simp: flow_initial_def sample_flow_def)

lemma sample_state [simp]: "cf_state sample_flow = Idle" "cf_request sample_flow = REQUEST_TYPE_INTERNAL"
  "cf_out sample_flow = []" "cf_backgroundDiscoveredBridges sample_flow = []"
  by (simp_all add: sample_flow_def ConnectionFlow_new_def case_prod_beta Let_def)

lemma step_handle: "(\<And>m. e = EvMonitor m \<Longrightarrow> monitor_message m) \<Longrightarrow>
    flow_step\<^sup>*\<^sup>* s (handle E e s)"
  using dispatched by blast

lemma sample_connecting: "cf_state (handle sample_env EvConnectToBridge sample_flow) = Loading
    \<and> cf_request (handle sample_env EvConnectToBridge sample_flow) = REQUEST_TYPE_CONNECT"
proof -
  have "Start REQUEST_TYPE_CONNECT sample_flow \<noteq> None" by (simp add: Start_None_iff)
  then obtain s1 where s1: "Start REQUEST_TYPE_CONNECT sample_flow = Some s1" by blast
  have "cf_backgroundDiscoveredBridges s1 = []"
    using s1 by (auto simp: Start_def flow_active_eq Let_def split: prod.splits)
  with Start_Some[OF s1] s1 show ?thesis by (simp add: DoConnectToBridge_def)
qed

text \<open>
  C1 (invariant). In every reachable state of the connection flow, whatever the order in which
  requests, answers, timers and changes of the bridges come, the messages sent to the
  application are bracketed: each message of a user request lies between one
  \<open>ID_USERPROCEDURE_STARTED\<close> and one \<open>ID_USERPROCEDURE_FINISHED\<close> of the same request, no two
  procedures overlap, and when the flow is idle no procedure is open.
\<close>

theorem flow_messages_bracketed:
  assumes "flow_initial s0" "flow_step\<^sup>*\<^sup>* s0 s"
  shows "scan None (messages_of (cf_out s)) = Some (procedure_of (cf_request s))
    \<and> (cf_state s = Idle \<longrightarrow> scan None (messages_of (cf_out s)) = Some None)"
proof -
  have "flow_inv s" using flow.reachable_invariant[OF assms] .
  then show ?thesis by (auto simp: flow_inv_def bracketed_def procedure_of_def)
qed

theorem flow_messages_bracketed_witness:
  "scan None (messages_of (cf_out (handle sample_env EvConnectToBridge sample_flow)))
     = Some (Some REQUEST_TYPE_CONNECT)"
  using flow_messages_bracketed[OF sample_initial step_handle[of EvConnectToBridge _ sample_env]]
    sample_connecting by (simp add: procedure_of_def)

text \<open>
  The flow refines the automaton \<open>transitions\<close>: a request is accepted in
  \<open>Idle\<close> only, an answer is acted on only in the state that waits for it and is ignored in any
  other, an abort leads to \<open>Idle\<close>, and each handler ends in one of the states of the table.
\<close>

theorem flow_follows_table: "cf_state (handle E e s) \<in> transitions (cf_state s) e"
  by (rule handle_transition)



text \<open>
  From the bridges a search returns, \<open>FilterInvalidAndDuplicateIpAddresses\<close>
  keeps, in their order, bridges with a valid address only, no two with the same address, and
  one for every valid address that was found.
\<close>

theorem search_result_filtered:
  "let out = FilterInvalidAndDuplicateIpAddresses h bridges in
     subseq out bridges \<and> distinct (map (address h) out) \<and> set out \<subseteq> {r. b_isValidIp (bridges_at h r)}
     \<and> address h ` set out = address h ` {r \<in> set bridges. b_isValidIp (bridges_at h r)}"
  using filter_ip_loop_result[of h "[]" bridges]
  by (auto simp: FilterInvalidAndDuplicateIpAddresses_def Let_def)

text \<open>
  C5 (functional). An abort of a busy flow ends in \<open>Idle\<close> with no request, makes the copy of the
  bridge taken at the start of the last user procedure the active bridge again, and for a user
  procedure reports exactly \<open>ID_DONE_ABORTED\<close> and then \<open>ID_USERPROCEDURE_FINISHED\<close>, both with that
  bridge; no work is given to a collaborator, and the searcher is stopped only where there is one.
\<close>

theorem abort_restores_start:
  assumes "flow_initial s0" "flow_step\<^sup>*\<^sup>* s0 s" "cf_state s \<noteq> Idle"
  shows "cf_state (handle E EvAbort s) = Idle \<and> cf_request (handle E EvAbort s) = REQUEST_TYPE_INTERNAL
    \<and> last (d_bridges (cf_persistentData (handle E EvAbort s))) = cf_bridgeStartState s
    \<and> work (handle E EvAbort s) = work s
    \<and> (cf_state s = SearchingFirst \<or> cf_state s = SearchingRetry \<longrightarrow> cf_bridgeSearcher s)
    \<and> (cf_request s \<noteq> REQUEST_TYPE_INTERNAL \<longrightarrow>
         messages_of (cf_out (handle E EvAbort s)) = messages_of (cf_out s)
           @ map (\<lambda>i. message (cf_request s) i (cf_bridgeStartState s))
               [ID_DONE_ABORTED, ID_USERPROCEDURE_FINISHED])"
proof -
  have "flow_inv s" using flow.reachable_invariant[OF assms(1,2)] .
  then show ?thesis
    using DoAbort_active[OF assms(3)] DoAbort_messages[OF assms(3)]
    by (simp add: flow_inv_def) (simp add: DoAbort_eq[OF assms(3)])
qed

theorem abort_restores_start_witness:
  "cf_state (handle sample_env EvAbort (handle sample_env EvConnectToBridge sample_flow)) = Idle"
  using abort_restores_start[OF sample_initial step_handle[of EvConnectToBridge _ sample_env], of sample_env]
    sample_connecting by simp


definition sample_authenticating :: flow where
  "sample_authenticating = sample_flow\<lparr>cf_state := Authenticating, cf_ongoingAuthenticationCount := 1\<rparr>"


lemma Finish_last_message:
  "cf_request t \<noteq> REQUEST_TYPE_INTERNAL \<Longrightarrow>
     \<exists>ms a. messages_of (cf_out (Finish t)) = ms @ [message (cf_request t) ID_USERPROCEDURE_FINISHED a]"
  by (simp add: Finish_def flow_active_eq Let_def) blast

lemma ActivateStreaming_Finish: "\<exists>u. ActivateStreaming E t = Finish u \<and> cf_request u = cf_request t"
  unfolding ActivateStreaming_def flow_active_eq Let_def case_prod_beta by (rule exI conjI refl)+ simp

lemma SavingCompleted_Finish: "\<exists>u. SavingCompleted E res s = Finish u \<and> cf_request u = cf_request s"
proof -
  define s1 where "s1 = (if res = OPERATION_SUCCESS then send_known ID_FINISH_SAVING_SAVED s
                         else send ID_FINISH_SAVING_FAILED s)"
  define s3 where "s3 = change_bridge (active_of s1) (\<lambda>b. b\<lparr>b_isBusy := False\<rparr>) (activate s1)"
  have q: "cf_request s3 = cf_request s" by (simp add: s3_def s1_def)
  have "SavingCompleted E res s \<in> {ActivateStreaming E s3, Finish (send ID_DONE_COMPLETED s3), Finish s3}"
    unfolding SavingCompleted_def flow_active_eq Let_def prod.case s1_def[symmetric] s3_def[symmetric] by simp
  then show ?thesis using q ActivateStreaming_Finish[of E s3] control_send[of s3 ID_DONE_COMPLETED]
    by (metis insertE empty_iff same_control_fields(2))
qed

text \<open>
  The completion of a save carries no mark of the procedure that asked for it and
  is handled in every state. One that is left over (from an aborted procedure, or from a monitor
  event that saved and finished at once) ends whatever procedure is running by then: the flow
  goes to \<open>Idle\<close>, reports \<open>ID_USERPROCEDURE_FINISHED\<close> for it, and ignores the answers it still
  waits for.
\<close>

theorem stale_save_ends_procedure:
  fixes E :: flow_env and res :: OperationResult
  assumes "cf_request s \<noteq> REQUEST_TYPE_INTERNAL"
  defines "s' \<equiv> handle E (EvSaved res) s"
  shows "cf_state s' = Idle \<and> cf_request s' = REQUEST_TYPE_INTERNAL
    \<and> (\<exists>ms a. messages_of (cf_out s') = ms @ [message (cf_request s) ID_USERPROCEDURE_FINISHED a])
    \<and> handle E' (EvLoaded r d k) s' = s' \<and> handle E' (EvSearched bs) s' = s'
    \<and> handle E' (EvAuthenticated b) s' = s' \<and> handle E' (EvSmallConfig r b) s' = s'
    \<and> handle E' (EvFullConfig r b) s' = s'"
proof -
  obtain u where u: "SavingCompleted E res s = Finish u" "cf_request u = cf_request s"
    using SavingCompleted_Finish by blast
  have "\<exists>ms a. messages_of (cf_out s') = ms @ [message (cf_request s) ID_USERPROCEDURE_FINISHED a]"
    using Finish_last_message[of u] u assms(1) by (simp add: s'_def)
  moreover have "cf_state s' = Idle" by (simp add: s'_def)
  ultimately show ?thesis
    by (simp add: LoadingCompleted_def BridgeSearchCompleted_def AuthenticationCompleted_def
        RetrieveSmallConfigCompleted_def RetrieveFullConfigCompleted_def) (simp add: s'_def)
qed

theorem stale_save_ends_procedure_witness:
  "cf_state (handle sample_env EvConnectToBridge sample_flow) = Loading
   \<and> cf_state (handle sample_env (EvSaved OPERATION_SUCCESS) (handle sample_env EvConnectToBridge sample_flow)) = Idle"
  using stale_save_ends_procedure[of "handle sample_env EvConnectToBridge sample_flow"] sample_connecting by simp

end
