(* ===== verification/MessageDispatcher.thy ===== *)
theory MessageDispatcher imports Prelude begin

text \<open>
  \<open>huestream/connect/MessageDispatcher\<close>: the queue of actions that every handler of the
  connection flow passes through, and the loop that runs them. The steps are the critical
  sections of the code (\<open>_mutex\<close> is held in each): a wait on the condition variable is a step that
  is not enabled. \<open>md_executed\<close> lists the actions the loop has taken out, in order.
\<close>

datatype loop_phase = LoopNotStarted | LoopStarting | LoopRunning | LoopExited
datatype caller_phase = CallerIdle | CallerInLoop | CallerWaitUntilStarted | CallerReturned

record 'a dispatcher =
  md_queue :: "'a list"
  md_isRunning :: bool
  md_loop :: loop_phase
  md_caller :: caller_phase
  md_queued :: "'a list"
  md_executed :: "'a list"

definition dispatcher_new :: "'a dispatcher" where
  "dispatcher_new = \<lparr>md_queue = [], md_isRunning = False, md_loop = LoopNotStarted,
     md_caller = CallerIdle, md_queued = [], md_executed = []\<rparr>"

text \<open>\<open>Queue\<close> inserts at the beginning of the vector and the loop takes from its back.\<close>

definition vector_insert_front :: "'a \<Rightarrow> 'a list \<Rightarrow> 'a list" where
  "vector_insert_front a q = a # q"

definition vector_pop_back :: "'a list \<Rightarrow> ('a \<times> 'a list) option" where
  "vector_pop_back q = (if q = [] then None else Some (last q, butlast q))"

definition Queue :: "'a \<Rightarrow> 'a dispatcher \<Rightarrow> 'a dispatcher" where
  "Queue a d = d\<lparr>md_queue := vector_insert_front a (md_queue d), md_queued := md_queued d @ [a]\<rparr>"

definition Execute :: "bool \<Rightarrow> 'a dispatcher \<Rightarrow> 'a dispatcher" where
  "Execute useThisThread d = d\<lparr>md_isRunning := False, md_loop := LoopStarting,
     md_caller := (if useThisThread then CallerInLoop else CallerWaitUntilStarted)\<rparr>"

definition loop_start :: "'a dispatcher \<Rightarrow> 'a dispatcher" where
  "loop_start d = d\<lparr>md_isRunning := True, md_loop := LoopRunning\<rparr>"

text \<open>
  One round of the loop: it waits (\<open>None\<close>) while it is running and the queue is empty, it
  leaves when it is not running any more, and otherwise takes one action and runs it.
\<close>

definition loop_round :: "'a dispatcher \<Rightarrow> 'a dispatcher option" where
  "loop_round d =
     (if md_isRunning d \<and> md_queue d = [] then None
      else if \<not> md_isRunning d then
        Some (d\<lparr>md_loop := LoopExited,
                md_caller := (if md_caller d = CallerInLoop then CallerWaitUntilStarted else md_caller d)\<rparr>)
      else
        (case vector_pop_back (md_queue d) of
           None \<Rightarrow> None
         | Some (a, q) \<Rightarrow> Some (d\<lparr>md_queue := q, md_executed := md_executed d @ [a]\<rparr>)))"

definition Dispatcher_Stop :: "'a dispatcher \<Rightarrow> 'a dispatcher" where
  "Dispatcher_Stop d = d\<lparr>md_isRunning := False\<rparr>"

text \<open>
  The thread that called \<open>Execute\<close> runs the loop itself (\<open>CallerInLoop\<close>) or not, then waits
  until the loop has started. One call of \<open>Execute\<close> is modelled, from \<open>CallerIdle\<close>.
\<close>

inductive dispatcher_step :: "'a dispatcher \<Rightarrow> 'a dispatcher \<Rightarrow> bool" where
  queue: "dispatcher_step d (Queue a d)"
| execute: "md_caller d = CallerIdle \<Longrightarrow> dispatcher_step d (Execute useThisThread d)"
| start: "md_loop d = LoopStarting \<Longrightarrow> dispatcher_step d (loop_start d)"
| round: "md_loop d = LoopRunning \<Longrightarrow> loop_round d = Some d' \<Longrightarrow> dispatcher_step d d'"
| started: "md_caller d = CallerWaitUntilStarted \<Longrightarrow> md_isRunning d \<Longrightarrow>
     dispatcher_step d (d\<lparr>md_caller := CallerReturned\<rparr>)"
| stop: "dispatcher_step d (Dispatcher_Stop d)"

inductive_cases dispatcher_stepE: "dispatcher_step d d'"

section \<open>The queue\<close>

lemma pop_back_insert_front: "rev (vector_insert_front a q) = rev q @ [a]"
  by (simp add: vector_insert_front_def)

interpretation dispatcher_queue: fifo_queue rev vector_insert_front vector_pop_back
proof
  fix a :: 'a and q q'
  show "vector_pop_back q = Some (a, q') \<Longrightarrow> rev q = a # rev q'"
    by (cases q rule: rev_cases) (auto simp: vector_pop_back_def)
qed (auto simp: vector_pop_back_def vector_insert_front_def split: if_splits)

section \<open>Order and delivery\<close>

text \<open>
  What was queued is what was executed followed by what is waiting; the caller that ran the
  loop itself waits for a start that is over.
\<close>

definition dispatcher_inv :: "'a dispatcher \<Rightarrow> bool" where
  "dispatcher_inv d \<longleftrightarrow> md_queued d = md_executed d @ rev (md_queue d)
     \<and> (md_loop d = LoopNotStarted \<longrightarrow> md_caller d = CallerIdle)
     \<and> (md_caller d = CallerIdle \<longrightarrow> md_loop d = LoopNotStarted)
     \<and> (md_isRunning d \<longrightarrow> md_loop d = LoopRunning)"

lemma dispatcher_inv_step: "dispatcher_inv d \<Longrightarrow> dispatcher_step d d' \<Longrightarrow> dispatcher_inv d'"
proof (erule dispatcher_stepE)
  assume inv: "dispatcher_inv d" and r: "md_loop d = LoopRunning" "loop_round d = Some d'"
  show "dispatcher_inv d'"
    using inv r dispatcher_queue.dequeue_Some
    by (fastforce simp: loop_round_def dispatcher_inv_def split: if_splits option.splits)
qed (auto simp: dispatcher_inv_def Queue_def Execute_def loop_start_def Dispatcher_Stop_def
       pop_back_insert_front)

interpretation dispatcher: transition_system "\<lambda>d. d = dispatcher_new" dispatcher_step dispatcher_inv
proof
  show "dispatcher_inv d" if "d = dispatcher_new" for d :: "'a dispatcher"
    using that by (simp add: dispatcher_inv_def dispatcher_new_def)
  show "dispatcher_inv d'" if "dispatcher_inv d" "dispatcher_step d d'" for d d' :: "'a dispatcher"
    using that by (rule dispatcher_inv_step)
qed

text \<open>The loop runs on the thread of the caller, and the loop or its end is all that is left.\<close>

definition own_loop :: "'a dispatcher \<Rightarrow> bool" where
  "own_loop d \<longleftrightarrow> (md_caller d = CallerInLoop \<and> md_loop d \<noteq> LoopNotStarted \<and> md_loop d \<noteq> LoopExited)
     \<or> (md_caller d = CallerWaitUntilStarted \<and> md_loop d = LoopExited \<and> \<not> md_isRunning d)"

lemma own_loop_step: "own_loop d \<Longrightarrow> dispatcher_step d d' \<Longrightarrow> own_loop d'"
  by (erule dispatcher_stepE)
     (auto simp: own_loop_def Queue_def Execute_def loop_start_def Dispatcher_Stop_def loop_round_def
       split: if_splits option.splits)

interpretation own_thread: transition_system
  "\<lambda>d. \<exists>d0. md_caller d0 = CallerIdle \<and> d = Execute True d0" dispatcher_step own_loop
proof
  show "own_loop d" if "\<exists>d0. md_caller d0 = CallerIdle \<and> d = Execute True d0" for d :: "'a dispatcher"
    using that by (auto simp: own_loop_def Execute_def)
  show "own_loop d'" if "own_loop d" "dispatcher_step d d'" for d d' :: "'a dispatcher"
    using that by (rule own_loop_step)
qed

section \<open>Properties\<close>

text \<open>
  C3 (invariant). The dispatcher runs the actions it was given in the order in which they were
  queued, each once and none before its turn, whatever the interleaving of the queueing
  threads, the loop and \<open>Stop\<close>: what was executed and then what still waits is what was queued.
\<close>

theorem dispatcher_runs_in_order:
  assumes "dispatcher_step\<^sup>*\<^sup>* dispatcher_new d"
  shows "md_queued d = md_executed d @ rev (md_queue d)"
  using dispatcher.reachable_invariant[OF refl assms] by (simp add: dispatcher_inv_def)

theorem dispatcher_runs_in_order_witness:
  "md_queued (Queue (2::nat) (Queue 1 dispatcher_new))
     = md_executed (Queue (2::nat) (Queue 1 dispatcher_new)) @ [1, 2]"
proof -
  have "dispatcher_step\<^sup>*\<^sup>* dispatcher_new (Queue (2::nat) (Queue 1 dispatcher_new))"
    by (meson converse_rtranclp_into_rtranclp dispatcher_step.queue rtranclp.rtrancl_refl)
  from dispatcher_runs_in_order[OF this] show ?thesis
    by (simp add: Queue_def vector_insert_front_def dispatcher_new_def)
qed

text \<open>
  \<open>Execute(true)\<close>, which runs the loop on the calling thread, never returns: when
  \<open>Stop\<close> ends the loop, the call goes on to wait for the loop to be running, and nothing makes
  it run again.
\<close>

theorem execute_on_own_thread_never_returns:
  assumes "md_caller d0 = CallerIdle" "dispatcher_step\<^sup>*\<^sup>* (Execute True d0) d"
  shows "md_caller d \<noteq> CallerReturned
    \<and> (md_loop d = LoopExited \<longrightarrow> md_caller d = CallerWaitUntilStarted \<and> \<not> md_isRunning d)"
proof -
  have "\<exists>d1. md_caller d1 = CallerIdle \<and> Execute True d0 = Execute True d1" using assms(1) by blast
  from own_thread.reachable_invariant[OF this assms(2)] show ?thesis by (auto simp: own_loop_def)
qed

theorem execute_on_own_thread_never_returns_witness:
  "md_caller (Execute True dispatcher_new :: nat dispatcher) \<noteq> CallerReturned"
proof -
  have "md_caller (dispatcher_new :: nat dispatcher) = CallerIdle" by (simp add: dispatcher_new_def)
  from execute_on_own_thread_never_returns[OF this rtranclp.rtrancl_refl] show ?thesis by blast
qed

end
