(* ===== verification/Connect.thy ===== *)
theory Connect imports FlowProperties MessageDispatcher begin

text \<open>
  \<open>huestream/connect/Connect\<close>: the object the application calls. It forwards requests to the
  connection flow, through the queue of the dispatcher, follows the messages the flow sends to
  know whether a procedure is running, and keeps the result of the last one.
\<close>

section \<open>State\<close>

datatype ConnectResult = Uninitialized | Busy | NoBridgeFound | BridgeFound | ActionRequired
  | ReadyToStart | Streaming

record connect =
  cn_isIdle :: bool
  cn_result :: ConnectResult

definition Connect_new :: connect where
  "Connect_new = \<lparr>cn_isIdle = True, cn_result = Uninitialized\<rparr>"

definition TranslateBridgeStatusToConnectionResult :: "BridgeStatus \<Rightarrow> ConnectResult" where
  "TranslateBridgeStatusToConnectionResult status = (case status of
       BRIDGE_EMPTY \<Rightarrow> NoBridgeFound
     | BRIDGE_NOT_FOUND \<Rightarrow> NoBridgeFound
     | BRIDGE_INVALID_MODEL \<Rightarrow> NoBridgeFound
     | BRIDGE_NOT_CONNECTABLE \<Rightarrow> ActionRequired
     | BRIDGE_NOT_CONNECTED \<Rightarrow> ActionRequired
     | BRIDGE_INVALID_VERSION \<Rightarrow> ActionRequired
     | BRIDGE_INVALID_CLIENTKEY \<Rightarrow> ActionRequired
     | BRIDGE_NO_GROUP_AVAILABLE \<Rightarrow> ActionRequired
     | BRIDGE_INVALID_GROUP_SELECTED \<Rightarrow> ActionRequired
     | BRIDGE_BUSY \<Rightarrow> ActionRequired
     | BRIDGE_READY \<Rightarrow> ReadyToStart
     | BRIDGE_STREAMING \<Rightarrow> Streaming)"

text \<open>\<open>status\<close> is the status of the bridge of the message at the moment of the call.\<close>

definition UpdateConnectionStatus :: "BridgeStatus \<Rightarrow> FeedbackMessage \<Rightarrow> connect \<Rightarrow> connect" where
  "UpdateConnectionStatus status m c = (case fm_id m of
       ID_DONE_RESET \<Rightarrow> c\<lparr>cn_result := Uninitialized\<rparr>
     | ID_DONE_NO_BRIDGE_FOUND \<Rightarrow> c\<lparr>cn_result := NoBridgeFound\<rparr>
     | ID_DONE_BRIDGE_FOUND \<Rightarrow> c\<lparr>cn_result := BridgeFound\<rparr>
     | ID_DONE_ACTION_REQUIRED \<Rightarrow> c\<lparr>cn_result := TranslateBridgeStatusToConnectionResult status\<rparr>
     | ID_DONE_COMPLETED \<Rightarrow> c\<lparr>cn_result := TranslateBridgeStatusToConnectionResult status\<rparr>
     | ID_BRIDGE_DISCONNECTED \<Rightarrow> c\<lparr>cn_result := TranslateBridgeStatusToConnectionResult status\<rparr>
     | ID_STREAMING_DISCONNECTED \<Rightarrow> c\<lparr>cn_result := TranslateBridgeStatusToConnectionResult status\<rparr>
     | ID_USERPROCEDURE_STARTED \<Rightarrow> c\<lparr>cn_isIdle := False\<rparr>
     | ID_USERPROCEDURE_FINISHED \<Rightarrow> c\<lparr>cn_isIdle := True\<rparr>
     | _ \<Rightarrow> c)"

definition IsReady :: "connect \<Rightarrow> bool" where
  "IsReady c = cn_isIdle c"

definition GetResult :: "connect \<Rightarrow> ConnectResult" where
  "GetResult c = (if \<not> cn_isIdle c then Busy else cn_result c)"

text \<open>\<open>WaitUntilReady\<close> returns in a state in which its condition holds.\<close>

definition WaitUntilReady :: "connect \<Rightarrow> bool" where
  "WaitUntilReady c = cn_isIdle c"

text \<open>Which public methods mark the object busy before they queue their request.\<close>

fun marks_busy :: "event \<Rightarrow> bool" where
  "marks_busy EvConnectToBridge = True"
| "marks_busy EvConnectToBridgeBackground = True"
| "marks_busy (EvConnectToBridgeWithIp ip) = True"
| "marks_busy EvConnectToNewBridge = True"
| "marks_busy (EvSetManual r) = True"
| "marks_busy (EvConnectWithIdKey i u k) = True"
| "marks_busy (EvReset only) = True"
| "marks_busy (EvSelectGroup i) = True"
| "marks_busy EvLoad = True"
| "marks_busy _ = False"

fun is_request :: "event \<Rightarrow> bool" where
  "is_request EvAbort = True"
| "is_request EvStartStream = True"
| "is_request EvStopStream = True"
| "is_request (EvMonitor m) = monitor_message m"
| "is_request e = marks_busy e"

section \<open>The system\<close>

record system =
  sy_connect :: connect
  sy_flow :: flow
  sy_queue :: "event list"

definition system_new :: "flow_env \<Rightarrow> store \<Rightarrow> system" where
  "system_new E h = \<lparr>sy_connect = Connect_new, sy_flow = ConnectionFlow_new E h, sy_queue = []\<rparr>"

definition request :: "event \<Rightarrow> system \<Rightarrow> system" where
  "request e y = y\<lparr>sy_connect := (if marks_busy e then (sy_connect y)\<lparr>cn_isIdle := False\<rparr> else sy_connect y),
                  sy_queue := vector_insert_front e (sy_queue y)\<rparr>"

definition new_messages :: "flow \<Rightarrow> flow \<Rightarrow> FeedbackMessage list" where
  "new_messages s s' = drop (length (messages_of (cf_out s))) (messages_of (cf_out s'))"

text \<open>
  The dispatcher runs one queued method, and every message it sends goes through
  \<open>Connect::NewMessage\<close>; \<open>status\<close> gives the status of the bridge of each of them.
\<close>

definition deliver :: "(FeedbackMessage \<Rightarrow> BridgeStatus) \<Rightarrow> FeedbackMessage list \<Rightarrow> connect \<Rightarrow> connect" where
  "deliver status ms c = fold (\<lambda>m. UpdateConnectionStatus (status m) m) ms c"

definition run_event :: "flow_env \<Rightarrow> (FeedbackMessage \<Rightarrow> BridgeStatus) \<Rightarrow> event \<Rightarrow> system \<Rightarrow> system" where
  "run_event E status e y =
     (let s' = handle E e (sy_flow y)
      in y\<lparr>sy_connect := deliver status (new_messages (sy_flow y) s') (sy_connect y), sy_flow := s'\<rparr>)"

inductive system_step :: "system \<Rightarrow> system \<Rightarrow> bool" where
  requested: "is_request e \<Longrightarrow> system_step y (request e y)"
| answered: "(\<And>m. e \<noteq> EvMonitor m) \<Longrightarrow> \<not> is_request e \<Longrightarrow>
     system_step y (y\<lparr>sy_queue := vector_insert_front e (sy_queue y)\<rparr>)"
| dispatched_event: "vector_pop_back (sy_queue y) = Some (e, q) \<Longrightarrow>
     system_step y (run_event E status e (y\<lparr>sy_queue := q\<rparr>))"
| bridges_changed: "system_step y (y\<lparr>sy_flow := (sy_flow y)\<lparr>cf_store := h\<rparr>\<rparr>)"
| timer_fired: "system_step y (y\<lparr>sy_flow := (sy_flow y)\<lparr>cf_tasks := ts\<rparr>\<rparr>)"

inductive_cases system_stepE: "system_step y y'"

section \<open>The idle flag\<close>

lemma deliver_append: "deliver status (ms @ ns) c = deliver status ns (deliver status ms c)"
  by (simp add: deliver_def)

lemma UpdateConnectionStatus_idle:
  "cn_isIdle (UpdateConnectionStatus status m c) =
     (if fm_id m = ID_USERPROCEDURE_STARTED then False
      else if fm_id m = ID_USERPROCEDURE_FINISHED then True else cn_isIdle c)"
  by (cases "fm_id m") (simp_all add: UpdateConnectionStatus_def)

text \<open>
  Reading the messages, the object is busy at least while the bracket automaton is inside a
  procedure.
\<close>

lemma deliver_scan:
  assumes "scan cur ms = Some cur'" "cur \<noteq> None \<Longrightarrow> \<not> cn_isIdle c" "cur' \<noteq> None"
  shows "\<not> cn_isIdle (deliver status ms c)"
  using assms
proof (induction cur ms arbitrary: c rule: scan.induct)
  case (2 cur m ms)
  then obtain cur1 where s: "scan1 cur m = Some cur1" "scan cur1 ms = Some cur'"
    by (auto split: option.splits)
  have "cur1 \<noteq> None \<Longrightarrow> \<not> cn_isIdle (UpdateConnectionStatus (status m) m c)"
    using s(1) 2(3) by (auto simp: scan1_def UpdateConnectionStatus_idle Let_def split: if_splits)
  from 2(1)[OF s(1) s(2) this 2(4)] show ?case by (simp add: deliver_def)
qed (auto simp: deliver_def)

definition monitor_ok :: "event \<Rightarrow> bool" where
  "monitor_ok e \<longleftrightarrow> (\<forall>m. e = EvMonitor m \<longrightarrow> monitor_message m)"

definition system_inv :: "system \<Rightarrow> bool" where
  "system_inv y \<longleftrightarrow> flow_inv (sy_flow y) \<and> (\<forall>e\<in>set (sy_queue y). monitor_ok e)
     \<and> (cf_request (sy_flow y) \<noteq> REQUEST_TYPE_INTERNAL \<longrightarrow> \<not> cn_isIdle (sy_connect y))"

lemma new_messages_eq: "messages_of (cf_out (handle E e s)) = messages_of (cf_out s) @ new_messages s (handle E e s)"
  using extends_handle[of s E e] by (auto simp: extends_def new_messages_def)

lemma run_event_inv:
  assumes "system_inv y" "monitor_ok e" shows "system_inv (run_event E status e y)"
proof -
  let ?s = "sy_flow y" and ?s' = "handle E e (sy_flow y)"
  have inv: "flow_inv ?s" "flow_inv ?s'"
    using assms flow_inv_handle[of ?s e E] by (auto simp: system_inv_def monitor_ok_def)
  then have "scan (procedure_of (cf_request ?s)) (new_messages ?s ?s') = Some (procedure_of (cf_request ?s'))"
    using new_messages_eq[of E e ?s] by (simp add: flow_inv_def bracketed_def scan_append)
  from deliver_scan[OF this, of "sy_connect y" status] assms(1) inv(2) show ?thesis
    by (auto simp: system_inv_def run_event_def Let_def procedure_of_def)
qed

lemma monitor_ok_request: "is_request e \<Longrightarrow> monitor_ok e"
  by (auto simp: monitor_ok_def)

lemma pop_back_set: "vector_pop_back q = Some (e, q') \<Longrightarrow> e \<in> set q \<and> set q' \<subseteq> set q"
  by (auto simp: vector_pop_back_def split: if_splits dest: in_set_butlastD)

lemma system_inv_step: "system_inv y \<Longrightarrow> system_step y y' \<Longrightarrow> system_inv y'"
proof (erule system_stepE)
  fix q e E status
  assume i: "system_inv y" and d: "y' = run_event E status e (y\<lparr>sy_queue := q\<rparr>)"
    "vector_pop_back (sy_queue y) = Some (e, q)"
  have "system_inv (y\<lparr>sy_queue := q\<rparr>)" "monitor_ok e"
    using i pop_back_set[OF d(2)] by (auto simp: system_inv_def)
  then show "system_inv y'" unfolding d(1) by (rule run_event_inv)
qed (auto simp: system_inv_def request_def vector_insert_front_def monitor_ok_def flow_inv_def
       dest: monitor_ok_request)

lemma system_inv_initial: "system_inv (system_new E h)"
  using flow_inv_initial[of "ConnectionFlow_new E h"]
  by (auto simp: system_inv_def system_new_def flow_initial_def Connect_new_def)
     (simp add: ConnectionFlow_new_def Let_def case_prod_beta)

interpretation system: transition_system "\<lambda>y. \<exists>E h. y = system_new E h" system_step system_inv
proof
  show "system_inv y" if "\<exists>E h. y = system_new E h" for y using that system_inv_initial by blast
  show "system_inv y'" if "system_inv y" "system_step y y'" for y y' using that by (rule system_inv_step)
qed

section \<open>Requests that are lost\<close>

text \<open>\<open>quiet s s'\<close>: from \<open>s\<close> to \<open>s'\<close> no message starts or ends a user procedure.\<close>

definition quiet :: "flow \<Rightarrow> flow \<Rightarrow> bool" where
  "quiet s s' \<longleftrightarrow> (\<exists>ms. messages_of (cf_out s') = messages_of (cf_out s) @ ms \<and> (\<forall>m\<in>set ms. inner (fm_id m)))"

lemma quiet_send: "inner i \<Longrightarrow> quiet s0 s \<Longrightarrow> quiet s0 (send i s)"
  unfolding quiet_def messages_send by (auto simp del: inner_def)

lemma quiet_send_known: "inner i \<Longrightarrow> quiet s0 s \<Longrightarrow> quiet s0 (send_known i s)"
  using messages_send_known[of i s] unfolding quiet_def by (auto simp del: inner_def)

lemma quiet_same:
  "quiet s0 (activate s) = quiet s0 s" "quiet s0 (change_bridge r f s) = quiet s0 s"
  "quiet s0 (s\<lparr>cf_state := st\<rparr>) = quiet s0 s" "quiet s0 (s\<lparr>cf_store := h\<rparr>) = quiet s0 s"
  "quiet s0 (emit (CallStreamStart b r) s) = quiet s0 s"
  by (simp_all add: quiet_def emit_upd)

lemma quiet_report: "quiet s0 s \<Longrightarrow> quiet s0 (ReportActionRequired s)"
  by (simp add: ReportActionRequired_def active_bridge_eq quiet_send quiet_same Let_def)

lemma quiet_Finish: "cf_request s = REQUEST_TYPE_INTERNAL \<Longrightarrow> quiet s0 (Finish s) = quiet s0 s"
  by (simp add: Finish_def quiet_def Let_def)

lemma quiet_SavingCompleted:
  "cf_request s = REQUEST_TYPE_INTERNAL \<Longrightarrow> quiet s (SavingCompleted E res s)"
proof -
  have "quiet s s" by (simp add: quiet_def)
  then show "cf_request s = REQUEST_TYPE_INTERNAL \<Longrightarrow> quiet s (SavingCompleted E res s)"
    by (simp add: SavingCompleted_def ActivateStreaming_def flow_active_eq quiet_Finish quiet_send
        quiet_send_known quiet_same quiet_report case_prod_beta Let_def)
qed

lemma deliver_quiet:
  "\<forall>m\<in>set ms. inner (fm_id m) \<Longrightarrow> cn_isIdle (deliver status ms c) = cn_isIdle c"
  by (induction ms arbitrary: c) (simp_all add: deliver_def UpdateConnectionStatus_idle)

lemma busy_request_ignored:
  assumes "marks_busy e" "cf_state s \<noteq> Idle" shows "handle E e s = s"
proof -
  have "Start q s = None" for q using assms(2) by (simp add: Start_None_iff)
  then show ?thesis using assms(1)
    by (cases e) (simp_all add: DoLoad_def DoConnectToBridge_def DoConnectToBridgeBackground_def
        DoConnectToBridgeWithIp_def DoConnectToNewBridge_def DoSetManual_def
        DoConnectoToBridgeWithIdKey_def DoReset_def DoSelectGroup_def)
qed

section \<open>Properties\<close>

text \<open>
  C4 (safety). In every reachable state of the application's connection object, the queue and
  the flow, as long as a user procedure runs the object is not ready: \<open>WaitUntilReady\<close> does not
  return and \<open>GetResult\<close> is \<open>Busy\<close>.
\<close>

theorem not_ready_during_procedure:
  assumes "system_step\<^sup>*\<^sup>* (system_new E h) y" "cf_request (sy_flow y) \<noteq> REQUEST_TYPE_INTERNAL"
  shows "\<not> WaitUntilReady (sy_connect y) \<and> \<not> IsReady (sy_connect y) \<and> GetResult (sy_connect y) = Busy"
proof -
  have "\<exists>E' h'. system_new E h = system_new E' h'" by blast
  from system.reachable_invariant[OF this assms(1)] assms(2) show ?thesis
    by (simp add: system_inv_def WaitUntilReady_def IsReady_def GetResult_def)
qed

definition sample_system :: system where
  "sample_system = system_new sample_env sample_store"

lemma sample_system_simps [simp]:
  "sy_flow sample_system = sample_flow" "sy_queue sample_system = []" "cn_isIdle (sy_connect sample_system)"
  by (simp_all add: sample_system_def system_new_def sample_flow_def Connect_new_def)

lemma step_run_event:
  assumes "is_request e \<or> (\<forall>m. e \<noteq> EvMonitor m)" "sy_queue y = []"
  shows "system_step\<^sup>*\<^sup>* y (run_event E status e
     (if is_request e then (request e y)\<lparr>sy_queue := []\<rparr> else y))"
proof -
  have pop: "vector_pop_back (vector_insert_front e []) = Some (e, [])" for e :: event
    by (simp add: vector_pop_back_def vector_insert_front_def)
  let ?y1 = "if is_request e then request e y else y\<lparr>sy_queue := vector_insert_front e (sy_queue y)\<rparr>"
  have "system_step y ?y1" using assms(1) system_step.requested system_step.answered by auto
  moreover have "system_step ?y1 (run_event E status e (?y1\<lparr>sy_queue := []\<rparr>))"
    by (rule system_step.dispatched_event) (simp add: request_def assms(2) pop)
  moreover have "(y\<lparr>sy_queue := vector_insert_front e (sy_queue y)\<rparr>)\<lparr>sy_queue := []\<rparr> = y"
    using assms(2) by (cases y) simp
  ultimately show ?thesis by (auto split: if_splits intro: converse_rtranclp_into_rtranclp)
qed

theorem not_ready_during_procedure_witness:
  "GetResult (sy_connect (run_event sample_env (\<lambda>_. BRIDGE_EMPTY) EvConnectToBridge
     ((request EvConnectToBridge sample_system)\<lparr>sy_queue := []\<rparr>))) = Busy"
  using not_ready_during_procedure[OF step_run_event[of EvConnectToBridge sample_system,
      unfolded sample_system_def] ] sample_connecting
  by (simp add: run_event_def request_def Let_def sample_system_def[symmetric])

text \<open>
  A request that comes while the flow works for the monitor (the configuration is
  read again after a reconnect, or a refreshed bridge is saved), and not for the application, is
  dropped without a message, although the object was marked busy for it. When that work is done,
  the flow is idle and the queue empty, but the object stays busy: a \<open>WaitUntilReady\<close> that
  follows the request does not return.
\<close>

theorem request_during_internal_work_lost:
  fixes E E' :: flow_env and res :: OperationResult and status status' :: "FeedbackMessage \<Rightarrow> BridgeStatus"
  assumes "cf_state (sy_flow y) \<noteq> Idle" "cf_request (sy_flow y) = REQUEST_TYPE_INTERNAL"
    "sy_queue y = []" "marks_busy e"
  defines "y1 \<equiv> run_event E status e ((request e y)\<lparr>sy_queue := []\<rparr>)"
  defines "y2 \<equiv> run_event E' status' (EvSaved res) y1"
  shows "system_step\<^sup>*\<^sup>* y y2 \<and> sy_flow y1 = sy_flow y \<and> cf_state (sy_flow y2) = Idle
    \<and> sy_queue y2 = [] \<and> \<not> WaitUntilReady (sy_connect y2) \<and> GetResult (sy_connect y2) = Busy"
proof -
  have q: "is_request e" "\<not> is_request (EvSaved res)" using assms(4) by (cases e; simp)+
  have s1: "sy_flow y1 = sy_flow y" "sy_queue y1 = []"
    using busy_request_ignored[OF assms(4,1)] by (simp_all add: y1_def run_event_def request_def Let_def)
  have "new_messages (sy_flow y) (sy_flow y) = []" by (simp add: new_messages_def)
  then have c1: "\<not> cn_isIdle (sy_connect y1)"
    using busy_request_ignored[OF assms(4,1)] assms(4)
    by (simp add: y1_def run_event_def request_def deliver_def Let_def)
  have "quiet (sy_flow y) (handle E' (EvSaved res) (sy_flow y))"
    using quiet_SavingCompleted[OF assms(2)] by simp
  then have "\<forall>m\<in>set (new_messages (sy_flow y) (handle E' (EvSaved res) (sy_flow y))). inner (fm_id m)"
    unfolding quiet_def new_messages_def by (auto simp del: inner_def handle.simps)
  then have c2: "\<not> cn_isIdle (sy_connect y2)"
    using deliver_quiet c1 by (simp add: y2_def run_event_def s1 Let_def del: inner_def handle.simps)
  have "system_step\<^sup>*\<^sup>* y y1" "system_step\<^sup>*\<^sup>* y1 y2"
    using step_run_event[of e y E status] step_run_event[of "EvSaved res" y1 E' status'] q assms(3) s1(2)
    by (simp_all add: y1_def y2_def)
  then show ?thesis using s1 c2
    by (auto simp: y2_def run_event_def Let_def WaitUntilReady_def GetResult_def)
qed

definition sample_reconnecting :: system where
  "sample_reconnecting = sample_system\<lparr>sy_flow := sample_flow\<lparr>cf_state := Retrieving\<rparr>\<rparr>"

theorem request_during_internal_work_lost_witness:
  "\<exists>y2. system_step\<^sup>*\<^sup>* sample_reconnecting y2 \<and> cf_state (sy_flow y2) = Idle \<and> sy_queue y2 = []
     \<and> \<not> WaitUntilReady (sy_connect y2)"
  using request_during_internal_work_lost[of sample_reconnecting EvConnectToBridge]
  by (simp add: sample_reconnecting_def) blast

end
