(* ===== verification/Scheduler.thy ===== *)
theory Scheduler imports Prelude begin

text \<open>
  \<open>support/scheduler/Scheduler\<close> and \<open>SchedulerTask\<close>: tasks that run once or again and again, driven
  by a timer; and \<open>support/threading/detail/TaskSchedule\<close>, the tasks an executor has planned for a
  point in time. Times are milliseconds, as integers (an \<open>unsigned int\<close> interval added to a
  64-bit count does not overflow at any time a clock shows). The current time is an argument.
\<close>

section \<open>Tasks\<close>

record 'm SchedulerTask =
  st_id :: int
  st_interval_ms :: nat
  st_recurring :: bool
  st_method :: 'm

definition SchedulerTask_new :: "int \<Rightarrow> nat \<Rightarrow> 'm \<Rightarrow> 'm SchedulerTask" where
  "SchedulerTask_new i interval_ms method =
     \<lparr>st_id = i, st_interval_ms = interval_ms, st_recurring = True, st_method = method\<rparr>"

record 'm SchedulerEntry =
  se_task :: "'m SchedulerTask"
  se_next_occurence_ms :: int

datatype SchedulerState = SCHEDULER_STATE_IDLE | SCHEDULER_STATE_RUNNING | SCHEDULER_STATE_STOPPING

record 'm Scheduler =
  sc_scheduled_tasks :: "'m SchedulerEntry list"
  sc_state :: SchedulerState

definition entry_id :: "'m SchedulerEntry \<Rightarrow> int" where
  "entry_id e = st_id (se_task e)"

section \<open>Operations\<close>

definition remove_task_internal :: "int \<Rightarrow> 'm Scheduler \<Rightarrow> 'm Scheduler" where
  "remove_task_internal i s =
     s\<lparr>sc_scheduled_tasks := filter (\<lambda>e. \<not> entry_id e = i) (sc_scheduled_tasks s)\<rparr>"

definition add_task_at :: "'m SchedulerTask \<Rightarrow> int \<Rightarrow> 'm Scheduler \<Rightarrow> 'm Scheduler" where
  "add_task_at task next_occurence_ms s =
     (let entry = \<lparr>se_task = task, se_next_occurence_ms = next_occurence_ms\<rparr>;
          s1 = remove_task_internal (st_id task) s
      in s1\<lparr>sc_scheduled_tasks := sc_scheduled_tasks s1 @ [entry]\<rparr>)"

definition add_task :: "int \<Rightarrow> 'm SchedulerTask \<Rightarrow> 'm Scheduler \<Rightarrow> 'm Scheduler" where
  "add_task now task s = add_task_at task (now + int (st_interval_ms task)) s"

definition get_task :: "int \<Rightarrow> 'm Scheduler \<Rightarrow> 'm SchedulerTask option" where
  "get_task i s = map_option se_task (List.find (\<lambda>e. entry_id e = i) (sc_scheduled_tasks s))"

definition get_task_count :: "'m Scheduler \<Rightarrow> nat" where
  "get_task_count s = length (sc_scheduled_tasks s)"

definition remove_task :: "int \<Rightarrow> 'm Scheduler \<Rightarrow> 'm Scheduler" where
  "remove_task i s = remove_task_internal i s"

definition remove_all_tasks :: "'m Scheduler \<Rightarrow> 'm Scheduler" where
  "remove_all_tasks s = s\<lparr>sc_scheduled_tasks := []\<rparr>"

definition scheduler_start :: "'m Scheduler \<Rightarrow> 'm Scheduler" where
  "scheduler_start s =
     (if sc_state s = SCHEDULER_STATE_IDLE then s\<lparr>sc_state := SCHEDULER_STATE_RUNNING\<rparr> else s)"

text \<open>\<open>stop\<close> has two critical sections, with the wait for the timer between them.\<close>

definition stop_request :: "'m Scheduler \<Rightarrow> 'm Scheduler" where
  "stop_request s =
     (if sc_state s = SCHEDULER_STATE_RUNNING then s\<lparr>sc_state := SCHEDULER_STATE_STOPPING\<rparr> else s)"

definition stop_done :: "'m Scheduler \<Rightarrow> 'm Scheduler" where
  "stop_done s = s\<lparr>sc_state := SCHEDULER_STATE_IDLE\<rparr>"

definition is_running :: "'m Scheduler \<Rightarrow> bool" where
  "is_running s = (sc_state s = SCHEDULER_STATE_RUNNING)"

text \<open>
  The loop of \<open>thread_timer_task\<close> under the lock: the entries that stay, and the entries to
  execute. A recurring task has its next occurrence set before it is copied.
\<close>

definition reschedule :: "int \<Rightarrow> 'm SchedulerEntry \<Rightarrow> 'm SchedulerEntry" where
  "reschedule now e = e\<lparr>se_next_occurence_ms := now + int (st_interval_ms (se_task e))\<rparr>"

lemma reschedule_simps [simp]:
  "se_next_occurence_ms (reschedule now e) = now + int (st_interval_ms (se_task e))"
  "se_task (reschedule now e) = se_task e"
  by (simp_all add: reschedule_def)

fun collect_due ::
  "int \<Rightarrow> 'm SchedulerEntry list \<Rightarrow> 'm SchedulerEntry list \<times> 'm SchedulerEntry list" where
  "collect_due now [] = ([], [])"
| "collect_due now (e # es) =
     (let (keep, due) = collect_due now es
      in if se_next_occurence_ms e \<le> now then
           (if st_recurring (se_task e) then (reschedule now e # keep, reschedule now e # due)
            else (keep, e # due))
         else (e # keep, due))"

definition thread_timer_collect ::
  "int \<Rightarrow> 'm Scheduler \<Rightarrow> 'm Scheduler \<times> 'm SchedulerEntry list" where
  "thread_timer_collect now s =
     (if sc_state s = SCHEDULER_STATE_STOPPING then (s, [])
      else case collect_due now (sc_scheduled_tasks s) of
             (keep, due) \<Rightarrow> (s\<lparr>sc_scheduled_tasks := keep\<rparr>, due))"

text \<open>
  After the lock is released: unless the scheduler is stopping by then, the entries are sorted by
  their next occurrence and executed. \<open>std::sort\<close> is not stable, so any sorted permutation is a
  possible order.
\<close>

definition possible_order :: "'m SchedulerEntry list \<Rightarrow> 'm SchedulerEntry list \<Rightarrow> bool" where
  "possible_order entries out \<longleftrightarrow> mset out = mset entries \<and> sorted (map se_next_occurence_ms out)"

definition thread_timer_execute ::
  "SchedulerState \<Rightarrow> 'm SchedulerEntry list \<Rightarrow> 'm SchedulerEntry list \<Rightarrow> bool" where
  "thread_timer_execute state entries out \<longleftrightarrow>
     (if state \<noteq> SCHEDULER_STATE_STOPPING then possible_order entries out else out = [])"

section \<open>One entry for each identifier\<close>

definition unique_ids :: "'m Scheduler \<Rightarrow> bool" where
  "unique_ids s \<longleftrightarrow> distinct (map entry_id (sc_scheduled_tasks s))"

lemma unique_ids_add: "unique_ids s \<Longrightarrow> unique_ids (add_task_at t n s)"
  by (auto simp: unique_ids_def add_task_at_def remove_task_internal_def Let_def distinct_map_filter entry_id_def)

lemma entry_id_reschedule [simp]: "entry_id (reschedule now e) = entry_id e"
  by (simp add: reschedule_def entry_id_def)

lemma collect_due_spec:
  "collect_due now es =
     (map (\<lambda>e. if se_next_occurence_ms e \<le> now then reschedule now e else e)
        (filter (\<lambda>e. se_next_occurence_ms e \<le> now \<longrightarrow> st_recurring (se_task e)) es),
      map (\<lambda>e. if st_recurring (se_task e) then reschedule now e else e)
        (filter (\<lambda>e. se_next_occurence_ms e \<le> now) es))"
  by (induction es) auto

lemma collect_ids: "map entry_id (fst (collect_due now es)) =
    map entry_id (filter (\<lambda>e. se_next_occurence_ms e \<le> now \<longrightarrow> st_recurring (se_task e)) es)"
  by (simp add: collect_due_spec)

lemma unique_ids_collect: "unique_ids s \<Longrightarrow> unique_ids (fst (thread_timer_collect now s))"
  using collect_ids[of now "sc_scheduled_tasks s"]
  by (auto simp: unique_ids_def thread_timer_collect_def case_prod_beta distinct_map_filter)

lemma unique_ids_ops:
  "unique_ids s \<Longrightarrow> unique_ids (remove_task i s)" "unique_ids (remove_all_tasks s)"
  "unique_ids s \<Longrightarrow> unique_ids (scheduler_start s)" "unique_ids s \<Longrightarrow> unique_ids (stop_request s)"
  "unique_ids s \<Longrightarrow> unique_ids (stop_done s)"
  by (auto simp: unique_ids_def remove_task_def remove_task_internal_def remove_all_tasks_def
      scheduler_start_def stop_request_def stop_done_def distinct_map_filter)

inductive scheduler_step :: "'m Scheduler \<Rightarrow> 'm Scheduler \<Rightarrow> bool" where
  "scheduler_step s (add_task now t s)"
| "scheduler_step s (add_task_at t n s)"
| "scheduler_step s (remove_task i s)"
| "scheduler_step s (remove_all_tasks s)"
| "scheduler_step s (scheduler_start s)"
| "scheduler_step s (stop_request s)"
| "scheduler_step s (stop_done s)"
| "scheduler_step s (fst (thread_timer_collect now s))"

inductive_cases scheduler_stepE: "scheduler_step s s'"

definition Scheduler_new :: "'m Scheduler" where
  "Scheduler_new = \<lparr>sc_scheduled_tasks = [], sc_state = SCHEDULER_STATE_IDLE\<rparr>"

interpretation scheduler: transition_system "\<lambda>s. s = Scheduler_new" scheduler_step unique_ids
proof
  show "unique_ids s" if "s = Scheduler_new" for s :: "'m Scheduler"
    using that by (simp add: unique_ids_def Scheduler_new_def)
  show "unique_ids s'" if "unique_ids s" "scheduler_step s s'" for s s' :: "'m Scheduler"
    using that(2,1) by (auto elim!: scheduler_stepE simp: add_task_def unique_ids_add
        unique_ids_collect unique_ids_ops)
qed

lemma get_task_add: "get_task (st_id t) (add_task_at t n s) = Some t"
proof -
  have "List.find (\<lambda>e. entry_id e = st_id t)
      (filter (\<lambda>e. \<not> entry_id e = st_id t) es @ [\<lparr>se_task = t, se_next_occurence_ms = n\<rparr>])
      = Some \<lparr>se_task = t, se_next_occurence_ms = n\<rparr>" for es
    by (induction es) (auto simp: entry_id_def)
  then show ?thesis
    by (simp add: get_task_def add_task_at_def remove_task_internal_def Let_def)
qed

section \<open>The order of execution\<close>

lemma possible_order_before:
  assumes "possible_order entries out" "i < length out" "j < length out"
    "se_next_occurence_ms (out ! i) < se_next_occurence_ms (out ! j)"
  shows "i < j"
proof (rule ccontr)
  assume "\<not> i < j"
  then have "se_next_occurence_ms (out ! j) \<le> se_next_occurence_ms (out ! i)"
    using assms(1,2) sorted_nth_mono[of "map se_next_occurence_ms out" j i] by (simp add: possible_order_def)
  with assms(4) show False by simp
qed

section \<open>Tasks planned for a point in time\<close>

text \<open>
  The \<open>std::map\<close> from time points to tasks, as the list of its nodes in the order of their keys.
\<close>

type_synonym 'm task_schedule = "(int \<times> ('m \<times> bool) list) list"

fun ts_add_task :: "int \<Rightarrow> 'm \<Rightarrow> bool \<Rightarrow> 'm task_schedule \<Rightarrow> 'm task_schedule" where
  "ts_add_task t invocable cancelable [] = [(t, [(invocable, cancelable)])]"
| "ts_add_task t invocable cancelable ((u, tasks) # ts) =
     (if t < u then (t, [(invocable, cancelable)]) # (u, tasks) # ts
      else if t = u then (u, tasks @ [(invocable, cancelable)]) # ts
      else (u, tasks) # ts_add_task t invocable cancelable ts)"

definition filter_and_erase_tasks ::
  "int \<Rightarrow> 'm task_schedule \<Rightarrow> ('m \<times> bool) list \<times> 'm task_schedule" where
  "filter_and_erase_tasks t ts =
     (concat (map snd (takeWhile (\<lambda>(u, _). u \<le> t) ts)), dropWhile (\<lambda>(u, _). u \<le> t) ts)"

definition num_of_tasks :: "'m task_schedule \<Rightarrow> nat" where
  "num_of_tasks ts = foldl (\<lambda>n (_, tasks). n + length tasks) 0 ts"

definition schedule_ok :: "'m task_schedule \<Rightarrow> bool" where
  "schedule_ok ts \<longleftrightarrow> sorted_wrt (<) (map fst ts)"

definition tasks_at :: "'m task_schedule \<Rightarrow> (int \<times> 'm \<times> bool) list" where
  "tasks_at ts = concat (map (\<lambda>(u, tasks). map (Pair u) tasks) ts)"

lemma ts_add_keys: "set (map fst (ts_add_task t i c ts)) = insert t (set (map fst ts))"
  by (induction t i c ts rule: ts_add_task.induct) auto

lemma schedule_ok_add: "schedule_ok ts \<Longrightarrow> schedule_ok (ts_add_task t i c ts)"
proof (induction t i c ts rule: ts_add_task.induct)
  case (2 t i c u tasks ts)
  then show ?case using ts_add_keys[of t i c ts] by (fastforce simp: schedule_ok_def)
qed (simp add: schedule_ok_def)

lemma num_of_tasks_eq: "num_of_tasks ts = length (tasks_at ts)"
proof -
  have "foldl (\<lambda>n (_, tasks). n + length tasks) k ts = k + length (tasks_at ts)" for k
    by (induction ts arbitrary: k) (auto simp: tasks_at_def)
  then show ?thesis by (simp add: num_of_tasks_def)
qed

definition planned_insert :: "int \<times> 'm \<times> bool \<Rightarrow> (int \<times> 'm \<times> bool) list \<Rightarrow> (int \<times> 'm \<times> bool) list" where
  "planned_insert x xs = takeWhile (\<lambda>y. \<not> fst x < fst y) xs @ x # dropWhile (\<lambda>y. \<not> fst x < fst y) xs"

interpretation planned: ordered_insertion fst planned_insert
  by unfold_locales (rule planned_insert_def)

lemma takeWhile_all: "\<forall>x\<in>set xs. P x \<Longrightarrow> takeWhile P (xs @ ys) = xs @ takeWhile P ys
    \<and> dropWhile P (xs @ ys) = dropWhile P ys"
  by (induction xs) auto

lemma tasks_at_add:
  "schedule_ok ts \<Longrightarrow> tasks_at (ts_add_task t i c ts) = planned_insert (t, i, c) (tasks_at ts)"
proof (induction t i c ts rule: ts_add_task.induct)
  case (2 t i c u tasks ts)
  have later: "\<forall>y\<in>set (tasks_at ts). u < fst y" using 2(2) by (force simp: schedule_ok_def tasks_at_def)
  have rest: "tasks_at ((u, tasks) # ts) = map (Pair u) tasks @ tasks_at ts" by (simp add: tasks_at_def)
  show ?case
  proof (cases "t < u")
    case True
    have "\<forall>y\<in>set (tasks_at ((u, tasks) # ts)). t < fst y" using later True by (auto simp: rest)
    then have "takeWhile (\<lambda>y. \<not> t < fst y) (tasks_at ((u, tasks) # ts)) = []"
      "dropWhile (\<lambda>y. \<not> t < fst y) (tasks_at ((u, tasks) # ts)) = tasks_at ((u, tasks) # ts)"
      by (cases "tasks_at ((u, tasks) # ts)"; simp)+
    with True show ?thesis by (simp add: tasks_at_def planned_insert_def)
  next
    case False
    have all: "\<forall>y\<in>set (map (Pair u) tasks). \<not> t < fst y" using False by auto
    note tw = takeWhile_all[OF all, of "tasks_at ts"]
    show ?thesis
    proof (cases "t = u")
      case True
      have "takeWhile (\<lambda>y. \<not> t < fst y) (tasks_at ts) = []"
        "dropWhile (\<lambda>y. \<not> t < fst y) (tasks_at ts) = tasks_at ts"
        using later True by (cases "tasks_at ts"; simp)+
      with True tw show ?thesis unfolding rest by (simp add: tasks_at_def planned_insert_def)
    next
      case neq: False
      have ok: "schedule_ok ts" using 2(2) by (simp add: schedule_ok_def)
      from 2(1)[OF False neq ok] False neq tw show ?thesis unfolding rest by (simp add: tasks_at_def planned_insert_def)
    qed
  qed
qed (simp add: tasks_at_def planned_insert_def)

definition add_planned :: "int \<times> 'm \<times> bool \<Rightarrow> 'm task_schedule \<Rightarrow> 'm task_schedule" where
  "add_planned p ts = (case p of (t, i, c) \<Rightarrow> ts_add_task t i c ts)"

lemma tasks_at_plans:
  "schedule_ok ts \<Longrightarrow> schedule_ok (fold add_planned ps ts)
     \<and> tasks_at (fold add_planned ps ts) = fold planned_insert ps (tasks_at ts)"
  by (induction ps arbitrary: ts) (auto simp: add_planned_def schedule_ok_add tasks_at_add split: prod.split)

lemma filter_and_erase_spec:
  "schedule_ok ts \<Longrightarrow> filter_and_erase_tasks t ts = (out, rest) \<Longrightarrow>
     out = map snd (filter (\<lambda>x. fst x \<le> t) (tasks_at ts))
     \<and> tasks_at rest = filter (\<lambda>x. \<not> fst x \<le> t) (tasks_at ts)"
proof (induction ts arbitrary: out rest)
  case (Cons n ts)
  obtain u tasks where n: "n = (u, tasks)" by fastforce
  have ok: "schedule_ok ts" and later: "\<forall>y\<in>set (tasks_at ts). u < fst y"
    using Cons.prems(1) n by (auto simp: schedule_ok_def tasks_at_def)
  have rest0: "tasks_at (n # ts) = map (Pair u) tasks @ tasks_at ts" by (simp add: tasks_at_def n)
  have f: "filter (\<lambda>x. P (fst x)) (map (Pair u) tasks) = (if P u then map (Pair u) tasks else [])" for P
    by (induction tasks) auto
  show ?case
  proof (cases "u \<le> t")
    case True
    obtain o1 r1 where r: "filter_and_erase_tasks t ts = (o1, r1)" by fastforce
    with True Cons.prems(2) n have "out = tasks @ o1" "rest = r1" by (auto simp: filter_and_erase_tasks_def)
    with Cons.IH[OF ok r] True show ?thesis
      using f[of "\<lambda>u. u \<le> t"] f[of "\<lambda>u. \<not> u \<le> t"] by (simp add: rest0 comp_def)
  next
    case False
    with Cons.prems(2) n have "out = []" "rest = n # ts" by (auto simp: filter_and_erase_tasks_def)
    moreover have "\<forall>y\<in>set (tasks_at (n # ts)). \<not> fst y \<le> t" using later False by (auto simp: rest0)
    ultimately show ?thesis by (auto simp: filter_empty_conv intro!: filter_True[symmetric])
  qed
qed (simp add: filter_and_erase_tasks_def tasks_at_def)

section \<open>Properties\<close>

definition executed_ids :: "int \<Rightarrow> 'm Scheduler \<Rightarrow> int list" where
  "executed_ids now s = map entry_id (snd (thread_timer_collect now s))"

lemma executed_ids_iff:
  "unique_ids s \<Longrightarrow> e \<in> set (sc_scheduled_tasks s) \<Longrightarrow> sc_state s \<noteq> SCHEDULER_STATE_STOPPING \<Longrightarrow>
     entry_id e \<in> set (executed_ids now s) \<longleftrightarrow> se_next_occurence_ms e \<le> now"
  by (force simp: executed_ids_def thread_timer_collect_def collect_due_spec unique_ids_def distinct_map inj_on_def)

lemma executed_ids_distinct: "unique_ids s \<Longrightarrow> distinct (executed_ids now s)"
proof -
  have "map entry_id (snd (collect_due now es)) = map entry_id (filter (\<lambda>e. se_next_occurence_ms e \<le> now) es)"
    for es :: "'a SchedulerEntry list"
    by (simp add: collect_due_spec)
  then show "unique_ids s \<Longrightarrow> distinct (executed_ids now s)"
    by (auto simp: executed_ids_def thread_timer_collect_def case_prod_beta unique_ids_def distinct_map_filter)
qed

lemma executed_ids_subset: "set (executed_ids now s) \<subseteq> entry_id ` set (sc_scheduled_tasks s)"
proof -
  have "map entry_id (snd (collect_due now es)) = map entry_id (filter (\<lambda>e. se_next_occurence_ms e \<le> now) es)"
    for es :: "'a SchedulerEntry list"
    by (simp add: collect_due_spec)
  from arg_cong[OF this, of set] show ?thesis
    by (simp add: executed_ids_def thread_timer_collect_def case_prod_beta image_mono)
qed


definition sample_task :: "string SchedulerTask" where
  "sample_task = SchedulerTask_new 4 250 ''push''"


text \<open>
  In one run of the timer, a recurring task is executed after every task that does
  not recur, however long it was overdue: its next occurrence is moved into the future before
  the due tasks are sorted by it.
\<close>

theorem recurring_tasks_run_last:
  assumes "possible_order (snd (thread_timer_collect now s)) out" "i < length out" "j < length out"
    "st_recurring (se_task (out ! i))" "0 < st_interval_ms (se_task (out ! i))"
    "\<not> st_recurring (se_task (out ! j))"
  shows "j < i"
proof -
  have due: "e \<in> set (snd (thread_timer_collect now s)) \<Longrightarrow>
      (if st_recurring (se_task e) then se_next_occurence_ms e = now + int (st_interval_ms (se_task e))
       else se_next_occurence_ms e \<le> now)" for e
    by (auto simp: thread_timer_collect_def collect_due_spec split: if_splits)
  have "set out = set (snd (thread_timer_collect now s))"
    using assms(1) unfolding possible_order_def by (metis set_mset_mset)
  then have "out ! i \<in> set (snd (thread_timer_collect now s))" "out ! j \<in> set (snd (thread_timer_collect now s))"
    using assms(2,3) nth_mem by blast+
  from due[OF this(1)] due[OF this(2)] assms(4-6)
  have "se_next_occurence_ms (out ! j) < se_next_occurence_ms (out ! i)" by simp
  with possible_order_before[OF assms(1,3,2)] show ?thesis by simp
qed

definition sample_scheduler :: "string Scheduler" where
  "sample_scheduler = \<lparr>sc_scheduled_tasks =
     [\<lparr>se_task = sample_task, se_next_occurence_ms = 1\<rparr>,
      \<lparr>se_task = sample_task\<lparr>st_id := 5, st_recurring := False\<rparr>, se_next_occurence_ms = 900\<rparr>],
     sc_state = SCHEDULER_STATE_RUNNING\<rparr>"

definition sample_order :: "string SchedulerEntry list" where
  "sample_order = [sc_scheduled_tasks sample_scheduler ! 1, reschedule 1000 (sc_scheduled_tasks sample_scheduler ! 0)]"

theorem recurring_tasks_run_last_witness:
  "possible_order (snd (thread_timer_collect 1000 sample_scheduler)) sample_order \<and> 0 < (1::nat)"
proof -
  have "possible_order (snd (thread_timer_collect 1000 sample_scheduler)) sample_order"
    by (simp add: possible_order_def sample_order_def thread_timer_collect_def sample_scheduler_def
        sample_task_def SchedulerTask_new_def add_mset_commute)
  moreover from recurring_tasks_run_last[OF this, of 1 0] have "0 < (1::nat)"
    by (simp add: sample_order_def sample_scheduler_def sample_task_def SchedulerTask_new_def)
  ultimately show ?thesis by blast
qed

text \<open>
  The tasks an executor has planned are handed out in the order of their time
  points and, for one time point, in the order in which they were planned: together they are
  the stable sort of the plan, cut at the current time.
\<close>

theorem planned_tasks_in_order:
  "filter_and_erase_tasks t (fold add_planned plan []) = (out, rest) \<Longrightarrow>
     out = map snd (filter (\<lambda>x. fst x \<le> t) (sort_key fst plan))
     \<and> tasks_at rest = filter (\<lambda>x. \<not> fst x \<le> t) (sort_key fst plan)
     \<and> num_of_tasks rest + length out = length plan"
proof -
  assume fe: "filter_and_erase_tasks t (fold add_planned plan []) = (out, rest)"
  have "schedule_ok []" by (simp add: schedule_ok_def)
  from tasks_at_plans[OF this, of plan]
  have ok: "schedule_ok (fold add_planned plan [])"
    and all: "tasks_at (fold add_planned plan []) = sort_key fst plan"
    using planned.build_sort_key[of plan] by (simp_all add: tasks_at_def)
  note spec = filter_and_erase_spec[OF ok fe, unfolded all]
  have "num_of_tasks rest + length out = length (sort_key fst plan)"
    using spec sum_length_filter_compl[of "\<lambda>x. fst x \<le> t" "sort_key fst plan"] by (simp add: num_of_tasks_eq)
  then show ?thesis using spec by simp
qed

theorem planned_tasks_in_order_witness:
  "fst (filter_and_erase_tasks 20 (fold add_planned [(20, ''a'', True), (10, ''b'', False), (20, ''c'', True), (30, ''d'', True)] []))
     = [(''b'', False), (''a'', True), (''c'', True)]"
proof -
  let ?plan = "[(20, ''a'', True), (10, ''b'', False), (20, ''c'', True), (30::int, ''d'', True)]"
  obtain out rest where o: "filter_and_erase_tasks 20 (fold add_planned ?plan []) = (out, rest)" by fastforce
  from planned_tasks_in_order[OF o] o show ?thesis by (simp add: sort_key_def)
qed

end
