(* ===== verification/CReal.thy ===== *)
theory CReal imports Complex_Main begin

text \<open>
  Floating-point numbers are modelled as real numbers: rounding, overflow and the special values
  are left out, and no quotient with divisor zero is relied on. This theory holds the conversions
  and functions of the C++ library the sources apply to them.
\<close>

text \<open>\<open>static_cast\<close> to an integer type cuts the fraction off; \<open>llround\<close> rounds half away from zero.\<close>

definition trunc :: "real \<Rightarrow> int" where
  "trunc x = (if x < 0 then \<lceil>x\<rceil> else \<lfloor>x\<rfloor>)"

definition llround :: "real \<Rightarrow> int" where
  "llround x = (if x < 0 then \<lceil>x - 1 / 2\<rceil> else \<lfloor>x + 1 / 2\<rfloor>)"

definition fmod :: "real \<Rightarrow> real \<Rightarrow> real" where
  "fmod x y = x - real_of_int (trunc (x / y)) * y"

text \<open>\<open>std::numeric_limits<double>::max()\<close>, which the sources use for a length without end.\<close>

definition DBL_INF :: real where "DBL_INF = (2 - 2 powr (-52)) * 2 powr 1023"

text \<open>\<open>static_cast<int>\<close> of a longer integer keeps its lower 32 bits.\<close>

definition is_int :: "int \<Rightarrow> bool" where
  "is_int i \<longleftrightarrow> - (2 ^ 31) \<le> i \<and> i < 2 ^ 31"

definition cast_int :: "int \<Rightarrow> int" where
  "cast_int i = (i + 2 ^ 31) mod 2 ^ 32 - 2 ^ 31"

lemma cast_int_same [simp]: "is_int i \<Longrightarrow> cast_int i = i"
  by (simp add: is_int_def cast_int_def)

lemma cast_int_range: "is_int (cast_int i)"
  using pos_mod_bound[of "2 ^ 32" "i + 2 ^ 31"] pos_mod_sign[of "2 ^ 32" "i + 2 ^ 31"]
  unfolding is_int_def cast_int_def by simp

lemma trunc_of_int [simp]: "trunc (real_of_int i) = i"
  by (simp add: trunc_def)

lemma trunc_numeral [simp]: "trunc (numeral n) = numeral n"
  using trunc_of_int[of "numeral n"] by simp

lemma trunc_0 [simp]: "trunc 0 = 0" by (simp add: trunc_def)

lemma trunc_1 [simp]: "trunc 1 = 1" by (simp add: trunc_def)

lemma trunc_nonneg: "0 \<le> x \<Longrightarrow> trunc x = \<lfloor>x\<rfloor>" by (simp add: trunc_def)

lemma llround_of_int [simp]: "llround (real_of_int i) = i"
proof (cases "i < 0")
  case True
  then show ?thesis unfolding llround_def by (simp add: ceiling_eq_iff)
next
  case False
  then show ?thesis unfolding llround_def by (simp add: floor_eq_iff)
qed

lemma DBL_INF_pos: "0 < DBL_INF"
proof -
  have "(2::real) powr (-52) < 2 powr 1" by (rule powr_less_mono) simp_all
  then show ?thesis by (simp add: DBL_INF_def)
qed

lemma fmod_bounds:
  assumes "0 \<le> x" "0 < y" shows "0 \<le> fmod x y" "fmod x y < y"
proof -
  have t: "trunc (x / y) = \<lfloor>x / y\<rfloor>" using assms by (simp add: trunc_nonneg)
  have "of_int \<lfloor>x / y\<rfloor> * y \<le> x" "x < (of_int \<lfloor>x / y\<rfloor> + 1) * y"
    using floor_divide_lower[OF assms(2)] floor_divide_upper[OF assms(2)] by auto
  then show "0 \<le> fmod x y" "fmod x y < y" by (simp_all add: fmod_def t algebra_simps)
qed

end
