(* ===== verification/Json.thy ===== *)
theory Json imports CStdlib CReal begin

text \<open>
  The JSON trees of \<open>3rd_party/libjson\<close> as far as the sources use them, and
  \<open>huestream/common/serialize\<close>: \<open>SerializerHelper\<close>, \<open>Serializable\<close> and \<open>ObjectBuilderBase\<close>. A node
  is a value of \<open>json\<close>; the name of a child is kept beside it. Writing a tree as text and parsing
  it are the library's. What a cast gives for a node that has no value of the wanted type (the
  text of a number, the number a text starts with, anything of a container) is the library's too:
  these are the functions of \<open>json_lib\<close>.
\<close>

section \<open>Nodes\<close>

datatype json = JNull | JBool bool | JNumber real | JString string
  | JArray "json list" | JNode "(string \<times> json) list"

record json_lib =
  jl_text :: "json \<Rightarrow> string"
  jl_number :: "json \<Rightarrow> real"
  jl_bool :: "json \<Rightarrow> bool"

fun json_children :: "json \<Rightarrow> json list" where
  "json_children (JArray js) = js"
| "json_children (JNode kvs) = map snd kvs"
| "json_children _ = []"

text \<open>\<open>find\<close> compares names exactly and gives the first child; a leaf has none.\<close>

fun json_find :: "string \<Rightarrow> json \<Rightarrow> json option" where
  "json_find name (JNode kvs) = map_of kvs name"
| "json_find name _ = None"

fun push_back :: "string \<Rightarrow> json \<Rightarrow> json \<Rightarrow> json" where
  "push_back name v (JNode kvs) = JNode (kvs @ [(name, v)])"
| "push_back name v (JArray js) = JArray (js @ [v])"
| "push_back name v j = j"

definition as_string :: "json_lib \<Rightarrow> json \<Rightarrow> string" where
  "as_string L j = (case j of JString s \<Rightarrow> s | _ \<Rightarrow> jl_text L j)"

definition as_float :: "json_lib \<Rightarrow> json \<Rightarrow> real" where
  "as_float L j = (case j of JNumber x \<Rightarrow> x | JNull \<Rightarrow> 0 | JBool b \<Rightarrow> (if b then 1 else 0)
     | _ \<Rightarrow> jl_number L j)"

definition as_int :: "json_lib \<Rightarrow> json \<Rightarrow> int" where
  "as_int L j = trunc (as_float L j)"

definition as_bool :: "json_lib \<Rightarrow> json \<Rightarrow> bool" where
  "as_bool L j = (case j of JBool b \<Rightarrow> b | JNumber x \<Rightarrow> x \<noteq> 0 | JNull \<Rightarrow> False | _ \<Rightarrow> jl_bool L j)"

lemma cast_simps [simp]:
  "as_string L (JString s) = s" "as_float L (JNumber x) = x" "as_int L (JNumber x) = trunc x"
  "as_bool L (JBool b) = b"
  by (simp_all add: as_string_def as_float_def as_int_def as_bool_def)

section \<open>Attributes\<close>

definition GetAttributeValue :: "json \<Rightarrow> string \<Rightarrow> json" where
  "GetAttributeValue node attribute = (case json_find attribute node of Some v \<Rightarrow> v | None \<Rightarrow> JNode [])"

definition IsAttributeSet :: "json \<Rightarrow> string \<Rightarrow> bool" where
  "IsAttributeSet node attributeName \<longleftrightarrow> json_find attributeName node \<noteq> None"

definition AttributeType :: string where "AttributeType = ''type''"

definition GetTypeFromJson :: "json_lib \<Rightarrow> json \<Rightarrow> string" where
  "GetTypeFromJson L node = as_string L (GetAttributeValue node AttributeType)"

definition SerializeValue :: "string \<Rightarrow> json \<Rightarrow> json \<Rightarrow> json" where
  "SerializeValue attribute_name v node = push_back attribute_name v node"

text \<open>
  The overloads of \<open>DeserializeValue\<close>: the attribute when it is set, else the default. The one for
  \<open>int64_t\<close> casts to \<open>int\<close> like the one for \<open>int\<close>.
\<close>

definition DeserializeFloat :: "json_lib \<Rightarrow> json \<Rightarrow> string \<Rightarrow> real \<Rightarrow> real" where
  "DeserializeFloat L node name d = (case json_find name node of Some v \<Rightarrow> as_float L v | None \<Rightarrow> d)"

definition DeserializeInt :: "json_lib \<Rightarrow> json \<Rightarrow> string \<Rightarrow> int \<Rightarrow> int" where
  "DeserializeInt L node name d = (case json_find name node of Some v \<Rightarrow> cast_int (as_int L v) | None \<Rightarrow> d)"

definition DeserializeInt64 :: "json_lib \<Rightarrow> json \<Rightarrow> string \<Rightarrow> int \<Rightarrow> int" where
  "DeserializeInt64 L node name d = (case json_find name node of Some v \<Rightarrow> cast_int (as_int L v) | None \<Rightarrow> d)"

definition DeserializeBool :: "json_lib \<Rightarrow> json \<Rightarrow> string \<Rightarrow> bool \<Rightarrow> bool" where
  "DeserializeBool L node name d = (case json_find name node of Some v \<Rightarrow> as_bool L v | None \<Rightarrow> d)"

definition DeserializeString :: "json_lib \<Rightarrow> json \<Rightarrow> string \<Rightarrow> string \<Rightarrow> string" where
  "DeserializeString L node name d = (case json_find name node of Some v \<Rightarrow> as_string L v | None \<Rightarrow> d)"

text \<open>
  \<open>Serializable::Serialize\<close> writes the type name. A member is a node of its own; \<open>ser\<close> and \<open>des\<close> are
  the \<open>Serialize\<close> and \<open>Deserialize\<close> methods of the class of the object.
\<close>

definition Serializable_Serialize :: "string \<Rightarrow> json \<Rightarrow> json" where
  "Serializable_Serialize typeName node = push_back AttributeType (JString typeName) node"

definition SerializeMember :: "string \<Rightarrow> (json \<Rightarrow> json) \<Rightarrow> json \<Rightarrow> json" where
  "SerializeMember attributeName ser node = push_back attributeName (ser (JNode [])) node"

definition SetMemberIfAttributeExists :: "json \<Rightarrow> string \<Rightarrow> (json \<Rightarrow> 'a \<Rightarrow> 'a) \<Rightarrow> 'a \<Rightarrow> 'a" where
  "SetMemberIfAttributeExists node attributeName des member =
     (case json_find attributeName node of Some v \<Rightarrow> des v member | None \<Rightarrow> member)"

definition SerializeAttribute :: "string \<Rightarrow> (json \<Rightarrow> json) option \<Rightarrow> json \<Rightarrow> json" where
  "SerializeAttribute attribute_name value node =
     (case value of None \<Rightarrow> node | Some ser \<Rightarrow> push_back attribute_name (ser (JNode [])) node)"

definition SerializeList :: "string \<Rightarrow> (json \<Rightarrow> json) list \<Rightarrow> json \<Rightarrow> json" where
  "SerializeList attributeName sers node =
     push_back attributeName (fold (\<lambda>ser a. push_back [] (ser (JNode [])) a) sers (JArray [])) node"

section \<open>Objects by their type name\<close>

text \<open>
  \<open>ObjectBuilder::ConstructInstanceOf\<close> knows these type names. \<open>static_pointer_cast\<close> to the wanted
  class is not checked: an object of another class is \<open>OtherClass\<close>.
\<close>

definition known_types :: "string list" where
  "known_types = map (\<lambda>t. ''huestream.'' @ t)
     [''LightScript'', ''ConstantAnimation'', ''CurveAnimation'', ''Rand'', ''SequenceAnimation'',
      ''TweenAnimation'', ''FramesAnimation'', ''Light'', ''Color'', ''Location'', ''Bridge'', ''Group'',
      ''Area'', ''CuboidArea'', ''Channel'', ''AreaEffect'', ''LightSourceEffect'',
      ''SphereLightSourceEffect'', ''LightIteratorEffect'', ''MultiChannelEffect'', ''Action'',
      ''Scene'', ''Zone'']"

datatype 'a built = Built 'a | NullPtr | OtherClass

definition DeserializeFromJson :: "json_lib \<Rightarrow> string \<Rightarrow> (json \<Rightarrow> 'a) \<Rightarrow> json \<Rightarrow> 'a built" where
  "DeserializeFromJson L typeName des node =
     (if \<not> IsAttributeSet node AttributeType then NullPtr
      else let t = GetTypeFromJson L node
           in if t = typeName then Built (des node)
              else if t \<in> set known_types then OtherClass else NullPtr)"

definition DeserializeAttribute ::
  "json_lib \<Rightarrow> json \<Rightarrow> string \<Rightarrow> string \<Rightarrow> (json \<Rightarrow> 'a) \<Rightarrow> 'a \<Rightarrow> 'a option" where
  "DeserializeAttribute L node attribute_name typeName des default_value =
     (case json_find attribute_name node of
        None \<Rightarrow> Some default_value
      | Some c \<Rightarrow> (case DeserializeFromJson L typeName des c of
                    Built v \<Rightarrow> Some v | NullPtr \<Rightarrow> Some default_value | OtherClass \<Rightarrow> None))"

text \<open>
  \<open>None\<close> when the list would hold a null pointer or an object of another class. An element may
  fail in the same way itself.
\<close>

definition DeserializeList ::
  "json_lib \<Rightarrow> json \<Rightarrow> string \<Rightarrow> string \<Rightarrow> (json \<Rightarrow> 'a option) \<Rightarrow> 'a list option" where
  "DeserializeList L node attributeName typeName des =
     (case json_find attributeName node of
        None \<Rightarrow> Some []
      | Some listNode \<Rightarrow>
          those (map (\<lambda>item. case DeserializeFromJson L typeName des item of
                               Built (Some v) \<Rightarrow> Some v | _ \<Rightarrow> None) (json_children listNode)))"

section \<open>Reading what was written\<close>

lemma json_find_push [simp]:
  "json_find n (JNode (kvs @ kvs')) = (case json_find n (JNode kvs) of None \<Rightarrow> json_find n (JNode kvs') | r \<Rightarrow> r)"
  by (auto simp: map_add_def split: option.splits)

lemma fold_push_array:
  "fold (\<lambda>ser a. push_back [] (ser (JNode [])) a) sers (JArray js) = JArray (js @ map (\<lambda>ser. ser (JNode [])) sers)"
  by (induction sers arbitrary: js) simp_all

lemma SerializeList_eq:
  "SerializeList n sers node = push_back n (JArray (map (\<lambda>ser. ser (JNode [])) sers)) node"
  by (simp add: SerializeList_def fold_push_array)

lemma those_map_Some: "(\<And>x. x \<in> set xs \<Longrightarrow> f x = Some (g x)) \<Longrightarrow> those (map f xs) = Some (map g xs)"
  by (induction xs) auto

lemmas serialize_defs = SerializeValue_def Serializable_Serialize_def SerializeMember_def
  SerializeAttribute_def SerializeList_eq AttributeType_def

lemmas deserialize_defs = DeserializeFloat_def DeserializeInt_def DeserializeInt64_def DeserializeBool_def
  DeserializeString_def SetMemberIfAttributeExists_def DeserializeAttribute_def

text \<open>An object whose node starts with its type name is built again.\<close>

lemma DeserializeFromJson_typed:
  "json_find AttributeType node = Some (JString t) \<Longrightarrow> DeserializeFromJson L t des node = Built (des node)"
  by (simp add: DeserializeFromJson_def IsAttributeSet_def GetTypeFromJson_def GetAttributeValue_def)

lemma DeserializeList_written:
  assumes "json_find n node = Some (JArray (map (\<lambda>x. ser x (JNode [])) xs))"
    and "\<And>x. x \<in> set xs \<Longrightarrow> json_find AttributeType (ser x (JNode [])) = Some (JString t)"
    and "\<And>x. x \<in> set xs \<Longrightarrow> des (ser x (JNode [])) = Some (g x)"
  shows "DeserializeList L node n t des = Some (map g xs)"
proof -
  have "those (map (\<lambda>x. case DeserializeFromJson L t des (ser x (JNode [])) of
          Built (Some v) \<Rightarrow> Some v | _ \<Rightarrow> None) xs) = Some (map g xs)"
    by (rule those_map_Some) (simp add: DeserializeFromJson_typed assms(2,3))
  then show ?thesis by (simp add: DeserializeList_def assms(1) comp_def)
qed

end
