(* ===== verification/Persistence.thy ===== *)
theory Persistence imports HueStreamData Json begin

text \<open>
  The \<open>Serialize\<close> and \<open>Deserialize\<close> methods of the data classes (\<open>huestream/common/data\<close>) and the
  file they are kept in (\<open>huestream/connect/BridgeFileStorageAccessor\<close>). \<open>Deserialize\<close> changes an
  existing object, so its model takes the old value. Names of attributes are those the
  \<open>PROP_IMPL\<close> macros give them.
\<close>

section \<open>Values\<close>

definition Location_Serialize :: "Location \<Rightarrow> json \<Rightarrow> json" where
  "Location_Serialize l node =
     SerializeValue ''Z'' (JNumber (loc_z l)) (SerializeValue ''Y'' (JNumber (loc_y l))
       (SerializeValue ''X'' (JNumber (loc_x l)) (Serializable_Serialize ''huestream.Location'' node)))"

definition Location_Deserialize :: "json_lib \<Rightarrow> json \<Rightarrow> Location \<Rightarrow> Location" where
  "Location_Deserialize L node l = l\<lparr>loc_x := DeserializeFloat L node ''X'' 0,
     loc_y := DeserializeFloat L node ''Y'' 0, loc_z := DeserializeFloat L node ''Z'' 0\<rparr>"

definition Color_Serialize :: "Color \<Rightarrow> json \<Rightarrow> json" where
  "Color_Serialize c node =
     SerializeValue ''Alpha'' (JNumber (alpha c)) (SerializeValue ''B'' (JNumber (blue c))
       (SerializeValue ''G'' (JNumber (green c)) (SerializeValue ''R'' (JNumber (red c))
         (Serializable_Serialize ''huestream.Color'' node))))"

definition Color_Deserialize :: "json_lib \<Rightarrow> json \<Rightarrow> Color \<Rightarrow> Color" where
  "Color_Deserialize L node c = c\<lparr>red := DeserializeFloat L node ''R'' 0,
     green := DeserializeFloat L node ''G'' 0, blue := DeserializeFloat L node ''B'' 0,
     alpha := DeserializeFloat L node ''Alpha'' 0\<rparr>"

definition Light_default :: Light where
  "Light_default = Light_new [] \<lparr>loc_x = 0, loc_y = 0, loc_z = 0\<rparr> [] [] [] True False"

definition Light_Serialize :: "Light \<Rightarrow> json \<Rightarrow> json" where
  "Light_Serialize l node =
     (let n1 = Serializable_Serialize ''huestream.Light'' node;
          n2 = SerializeValue ''Id'' (JString (l_id l)) n1;
          n3 = SerializeValue ''IdV1'' (JString (l_idV1 l)) n2;
          n4 = SerializeValue ''Name'' (JString (l_name l)) n3;
          n5 = SerializeValue ''Model'' (JString (l_model l)) n4;
          n6 = SerializeValue ''Archetype'' (JString (l_archetype l)) n5;
          n7 = SerializeValue ''Dynamic'' (JBool (l_dynamic l)) n6;
          n8 = SerializeMember ''Color'' (Color_Serialize (l_color l)) n7
      in SerializeMember ''Position'' (Location_Serialize (l_position l)) n8)"

definition Light_Deserialize :: "json_lib \<Rightarrow> json \<Rightarrow> Light \<Rightarrow> Light" where
  "Light_Deserialize L node l = l\<lparr>
     l_id := DeserializeString L node ''Id'' [], l_idV1 := DeserializeString L node ''IdV1'' [],
     l_name := DeserializeString L node ''Name'' [], l_model := DeserializeString L node ''Model'' [],
     l_archetype := DeserializeString L node ''Archetype'' [],
     l_dynamic := DeserializeBool L node ''Dynamic'' False,
     l_color := SetMemberIfAttributeExists node ''Color'' (Color_Deserialize L) (l_color l),
     l_position := SetMemberIfAttributeExists node ''Position'' (Location_Deserialize L) (l_position l)\<rparr>"

definition Scene_Serialize :: "Scene \<Rightarrow> json \<Rightarrow> json" where
  "Scene_Serialize s node =
     (let n1 = Serializable_Serialize ''huestream.Scene'' node;
          n2 = SerializeValue ''Id'' (JString (s_id s)) n1;
          n3 = SerializeValue ''Tag'' (JString (s_tag s)) n2;
          n4 = SerializeValue ''Name'' (JString (s_name s)) n3;
          n5 = SerializeValue ''AppData'' (JString (s_appData s)) n4
      in SerializeValue ''Image'' (JString (s_image s)) n5)"

definition Scene_Deserialize :: "json_lib \<Rightarrow> json \<Rightarrow> Scene \<Rightarrow> Scene" where
  "Scene_Deserialize L node s = s\<lparr>
     s_id := DeserializeString L node ''Id'' [], s_tag := DeserializeString L node ''Tag'' [],
     s_name := DeserializeString L node ''Name'' [], s_appData := DeserializeString L node ''AppData'' [],
     s_image := DeserializeString L node ''Image'' []\<rparr>"

section \<open>Groups and zones\<close>

text \<open>\<open>Group::Serialize\<close>; the type name is that of the object's class, so a zone writes its own.\<close>


definition Group_Serialize :: "string \<Rightarrow> Group \<Rightarrow> json \<Rightarrow> json" where
  "Group_Serialize typeName g node =
     (let n1 = Serializable_Serialize typeName node;
          n2 = SerializeValue ''Id'' (JString (g_id g)) n1;
          n3 = SerializeValue ''GroupedLightId'' (JString (g_groupedLightId g)) n2;
          n4 = SerializeValue ''Name'' (JString (g_name g)) n3;
          n5 = SerializeValue ''ClassType'' (JString (SerializeClass (g_classType g))) n4;
          n6 = SerializeList ''Lights'' (map Light_Serialize (g_lights g)) n5;
          n7 = SerializeList ''PhysicalLights'' (map Light_Serialize (g_physicalLights g)) n6
      in SerializeList ''Scenes'' (map Scene_Serialize (g_scenes g)) n7)"

definition LightList_Deserialize :: "json_lib \<Rightarrow> json \<Rightarrow> string \<Rightarrow> Light list option" where
  "LightList_Deserialize L node name =
     DeserializeList L node name ''huestream.Light'' (\<lambda>n. Some (Light_Deserialize L n Light_default))"

definition SceneList_Deserialize :: "json_lib \<Rightarrow> json \<Rightarrow> string \<Rightarrow> Scene list option" where
  "SceneList_Deserialize L node name =
     DeserializeList L node name ''huestream.Scene''
       (\<lambda>n. Some (Scene_Deserialize L n (Scene_new [] [] [] [] [])))"

definition Group_Deserialize :: "json_lib \<Rightarrow> json \<Rightarrow> Group \<Rightarrow> Group option" where
  "Group_Deserialize L node g =
     (case (LightList_Deserialize L node ''Lights'', LightList_Deserialize L node ''PhysicalLights'',
            SceneList_Deserialize L node ''Scenes'') of
        (Some ls, Some ps, Some ss) \<Rightarrow>
          Some (g\<lparr>g_id := DeserializeString L node ''Id'' [],
                  g_groupedLightId := DeserializeString L node ''GroupedLightId'' [],
                  g_name := DeserializeString L node ''Name'' [],
                  g_classType := DeserializeClass (DeserializeString L node ''ClassType'' ''other''),
                  g_lights := ls, g_physicalLights := ps, g_scenes := ss\<rparr>)
      | _ \<Rightarrow> None)"

definition archetypeSerializeMap :: "(ZoneArchetype \<times> string) list" where
  "archetypeSerializeMap = [(ZONEARCHETYPE_COMPUTER, ''computer''), (ZONEARCHETYPE_OTHER, ''other'')]"

definition SerializeArchetype :: "ZoneArchetype \<Rightarrow> string" where
  "SerializeArchetype a = (case map_of archetypeSerializeMap a of Some s \<Rightarrow> s | None \<Rightarrow> ''other'')"

definition DeserializeArchetype :: "string \<Rightarrow> ZoneArchetype" where
  "DeserializeArchetype s = (case List.find (\<lambda>(a, n). n = s) archetypeSerializeMap of
     Some (a, n) \<Rightarrow> a | None \<Rightarrow> ZONEARCHETYPE_OTHER)"

definition Zone_default :: Zone where
  "Zone_default = \<lparr>z_group = Group_new, z_idV1 = [], z_archetype = ZONEARCHETYPE_OTHER\<rparr>"

definition Zone_Serialize :: "Zone \<Rightarrow> json \<Rightarrow> json" where
  "Zone_Serialize z node =
     SerializeValue ''IdV1'' (JString (z_idV1 z))
       (SerializeValue ''Archetype'' (JString (SerializeArchetype (z_archetype z)))
         (Group_Serialize ''huestream.Zone'' (z_group z) node))"

definition Zone_Deserialize :: "json_lib \<Rightarrow> json \<Rightarrow> Zone \<Rightarrow> Zone option" where
  "Zone_Deserialize L node z =
     map_option (\<lambda>g. z\<lparr>z_group := g,
         z_archetype := DeserializeArchetype (DeserializeString L node ''Archetype'' ''other''),
         z_idV1 := DeserializeString L node ''IdV1'' []\<rparr>) (Group_Deserialize L node (z_group z))"

section \<open>Bridges and the persistent data\<close>

definition SerializeBase :: "Bridge \<Rightarrow> json \<Rightarrow> json" where
  "SerializeBase b node =
     (let n0 = Serializable_Serialize ''huestream.Bridge'' node;
          n1 = SerializeValue ''Name'' (JString (b_name b)) n0;
          n2 = SerializeValue ''ModelId'' (JString (b_modelId b)) n1;
          n3 = SerializeValue ''Apiversion'' (JString (b_apiversion b)) n2;
          n4 = SerializeValue ''Swversion'' (JString (b_swversion b)) n3;
          n5 = SerializeValue ''Id'' (JString (b_id b)) n4;
          n6 = SerializeValue ''IpAddress'' (JString (b_ipAddress b)) n5;
          n7 = SerializeValue ''SslPort'' (JString (b_sslPort b)) n6;
          n8 = SerializeValue ''IsValidIp'' (JBool (b_isValidIp b)) n7;
          n9 = SerializeValue ''IsAuthorized'' (JBool (b_isAuthorized b)) n8;
          n10 = SerializeValue ''ClientKey'' (JString (b_clientKey b)) n9;
          n11 = SerializeValue ''User'' (JString (b_user b)) n10;
          n12 = SerializeValue ''SelectedGroup'' (JString (b_selectedGroup b)) n11;
          n13 = SerializeValue ''MaxNoStreamingSessions'' (JNumber (real_of_int (b_maxNoStreamingSessions b))) n12
      in SerializeValue ''Certificate'' (JString (b_certificate b)) n13)"

definition DeserializeBase :: "json_lib \<Rightarrow> json \<Rightarrow> Bridge \<Rightarrow> Bridge" where
  "DeserializeBase L node b =
     (let s = (\<lambda>name. DeserializeString L node name []);
          b1 = b\<lparr>b_name := s ''Name'', b_modelId := s ''ModelId'', b_apiversion := s ''Apiversion'',
                 b_swversion := s ''Swversion'', b_id := s ''Id'', b_ipAddress := s ''IpAddress'',
                 b_sslPort := s ''SslPort'', b_isValidIp := DeserializeBool L node ''IsValidIp'' False,
                 b_isAuthorized := DeserializeBool L node ''IsAuthorized'' False,
                 b_clientKey := s ''ClientKey'', b_user := s ''User'',
                 b_selectedGroup := s ''SelectedGroup'',
                 b_maxNoStreamingSessions := DeserializeInt L node ''MaxNoStreamingSessions'' 0,
                 b_certificate := s ''Certificate''\<rparr>
      in b1\<lparr>b_appId := b_user b1\<rparr>)"

definition Bridge_Serialize :: "store \<Rightarrow> Bridge \<Rightarrow> json \<Rightarrow> json" where
  "Bridge_Serialize h b node =
     SerializeList ''Zones'' (map Zone_Serialize (b_zones b))
       (SerializeList ''Groups''
          (map (\<lambda>g. Group_Serialize ''huestream.Group'' (groups_at h g)) (grouplists_at h (b_groups b)))
          (SerializeBase b node))"

fun alloc_groups :: "Group list \<Rightarrow> store \<Rightarrow> store \<times> ref list" where
  "alloc_groups [] h = (h, [])"
| "alloc_groups (g # gs) h =
     (let (h1, r) = alloc_group g h; (h2, rs) = alloc_groups gs h1 in (h2, r # rs))"

text \<open>The list of groups of the bridge is cleared and filled in place.\<close>

definition Bridge_Deserialize :: "json_lib \<Rightarrow> json \<Rightarrow> ref \<Rightarrow> store \<Rightarrow> store option" where
  "Bridge_Deserialize L node r h =
     (case (DeserializeList L node ''Groups'' ''huestream.Group'' (\<lambda>n. Group_Deserialize L n Group_new),
            DeserializeList L node ''Zones'' ''huestream.Zone'' (\<lambda>n. Zone_Deserialize L n Zone_default)) of
        (Some gs, Some zs) \<Rightarrow>
          (let h1 = upd_bridge r (DeserializeBase L node) h;
               (h2, rs) = alloc_groups gs h1;
               h3 = upd_grouplist (b_groups (bridges_at h2 r)) (\<lambda>_. rs) h2
           in Some (upd_bridge r (\<lambda>b. b\<lparr>b_zones := zs\<rparr>) h3))
      | _ \<Rightarrow> None)"

definition Data_Serialize :: "store \<Rightarrow> HueStreamData \<Rightarrow> json \<Rightarrow> json" where
  "Data_Serialize h d node =
     SerializeList ''Bridges'' (map (\<lambda>r. Bridge_Serialize h (bridges_at h r)) (d_bridges d))
       (SerializeValue ''Version'' (JNumber (real_of_int (d_version d)))
         (Serializable_Serialize ''huestream.HueStreamData'' node))"

text \<open>Each element is built with the settings of the object builder, then deserialized.\<close>

fun bridges_from :: "json_lib \<Rightarrow> BridgeSettings \<Rightarrow> json list \<Rightarrow> store \<Rightarrow> (store \<times> ref list) option" where
  "bridges_from L settings [] h = Some (h, [])"
| "bridges_from L settings (item # items) h =
     (case DeserializeFromJson L ''huestream.Bridge'' (\<lambda>n. n) item of
        Built node \<Rightarrow>
          (let (h1, r) = new_bridge settings h
           in case Bridge_Deserialize L node r h1 of
                None \<Rightarrow> None
              | Some h2 \<Rightarrow> (case bridges_from L settings items h2 of
                             None \<Rightarrow> None | Some (h3, rs) \<Rightarrow> Some (h3, r # rs)))
      | _ \<Rightarrow> None)"

definition Data_Deserialize ::
  "json_lib \<Rightarrow> BridgeSettings \<Rightarrow> json \<Rightarrow> HueStreamData \<Rightarrow> store \<Rightarrow> (store \<times> HueStreamData) option" where
  "Data_Deserialize L settings node d h =
     (case (case json_find ''Bridges'' node of None \<Rightarrow> Some (h, [])
            | Some l \<Rightarrow> bridges_from L settings (json_children l) h) of
        None \<Rightarrow> None
      | Some (h1, rs) \<Rightarrow> Some (h1, d\<lparr>d_version := DeserializeInt L node ''Version'' 0, d_bridges := rs\<rparr>))"

section \<open>What is written\<close>

lemma Location_Serialize_eq [simp]:
  "Location_Serialize l (JNode kvs) = JNode (kvs @ [(''type'', JString ''huestream.Location''),
     (''X'', JNumber (loc_x l)), (''Y'', JNumber (loc_y l)), (''Z'', JNumber (loc_z l))])"
  by (simp add: Location_Serialize_def serialize_defs)

lemma Color_Serialize_eq [simp]:
  "Color_Serialize c (JNode kvs) = JNode (kvs @ [(''type'', JString ''huestream.Color''),
     (''R'', JNumber (red c)), (''G'', JNumber (green c)), (''B'', JNumber (blue c)), (''Alpha'', JNumber (alpha c))])"
  by (simp add: Color_Serialize_def serialize_defs)

lemma Light_Serialize_eq:
  "Light_Serialize l (JNode kvs) = JNode (kvs @ [(''type'', JString ''huestream.Light''),
     (''Id'', JString (l_id l)), (''IdV1'', JString (l_idV1 l)), (''Name'', JString (l_name l)),
     (''Model'', JString (l_model l)), (''Archetype'', JString (l_archetype l)),
     (''Dynamic'', JBool (l_dynamic l)), (''Color'', Color_Serialize (l_color l) (JNode [])),
     (''Position'', Location_Serialize (l_position l) (JNode []))])"
  by (simp add: Light_Serialize_def serialize_defs Let_def)

lemma Scene_Serialize_eq:
  "Scene_Serialize s (JNode kvs) = JNode (kvs @ [(''type'', JString ''huestream.Scene''),
     (''Id'', JString (s_id s)), (''Tag'', JString (s_tag s)), (''Name'', JString (s_name s)),
     (''AppData'', JString (s_appData s)), (''Image'', JString (s_image s))])"
  by (simp add: Scene_Serialize_def serialize_defs Let_def)

lemma Group_Serialize_eq:
  "Group_Serialize t g (JNode kvs) = JNode (kvs @ [(''type'', JString t),
     (''Id'', JString (g_id g)), (''GroupedLightId'', JString (g_groupedLightId g)),
     (''Name'', JString (g_name g)), (''ClassType'', JString (SerializeClass (g_classType g))),
     (''Lights'', JArray (map (\<lambda>l. Light_Serialize l (JNode [])) (g_lights g))),
     (''PhysicalLights'', JArray (map (\<lambda>l. Light_Serialize l (JNode [])) (g_physicalLights g))),
     (''Scenes'', JArray (map (\<lambda>s. Scene_Serialize s (JNode [])) (g_scenes g)))])"
  by (simp add: Group_Serialize_def serialize_defs Let_def comp_def)

lemma Zone_Serialize_eq:
  "Zone_Serialize z (JNode []) = (case Group_Serialize ''huestream.Zone'' (z_group z) (JNode []) of
     JNode kvs \<Rightarrow> JNode (kvs @ [(''Archetype'', JString (SerializeArchetype (z_archetype z))),
       (''IdV1'', JString (z_idV1 z))]) | j \<Rightarrow> j)"
  by (simp add: Zone_Serialize_def Group_Serialize_eq serialize_defs)

lemma SerializeBase_eq:
  "SerializeBase b (JNode []) = JNode [(''type'', JString ''huestream.Bridge''),
     (''Name'', JString (b_name b)), (''ModelId'', JString (b_modelId b)),
     (''Apiversion'', JString (b_apiversion b)), (''Swversion'', JString (b_swversion b)),
     (''Id'', JString (b_id b)), (''IpAddress'', JString (b_ipAddress b)), (''SslPort'', JString (b_sslPort b)),
     (''IsValidIp'', JBool (b_isValidIp b)), (''IsAuthorized'', JBool (b_isAuthorized b)),
     (''ClientKey'', JString (b_clientKey b)), (''User'', JString (b_user b)),
     (''SelectedGroup'', JString (b_selectedGroup b)),
     (''MaxNoStreamingSessions'', JNumber (real_of_int (b_maxNoStreamingSessions b))),
     (''Certificate'', JString (b_certificate b))]"
  by (simp add: SerializeBase_def serialize_defs Let_def)

section \<open>What is read back\<close>

text \<open>
  The objects a file gives back: new ones with the saved fields. State that is not saved is
  that of a new object; the application id is the user name.
\<close>

definition saved_light :: "Light \<Rightarrow> Light" where
  "saved_light l = Light_default\<lparr>l_id := l_id l, l_idV1 := l_idV1 l, l_name := l_name l, l_model := l_model l,
     l_archetype := l_archetype l, l_dynamic := l_dynamic l,
     l_color := Color_default\<lparr>red := red (l_color l), green := green (l_color l),
       blue := blue (l_color l), alpha := alpha (l_color l)\<rparr>, l_position := l_position l\<rparr>"

definition saved_scene :: "Scene \<Rightarrow> Scene" where
  "saved_scene s = Scene_new (s_id s) (s_tag s) (s_name s) (s_appData s) (s_image s)"

definition saved_group :: "Group \<Rightarrow> Group" where
  "saved_group g = Group_new\<lparr>g_id := g_id g, g_groupedLightId := g_groupedLightId g, g_name := g_name g,
     g_classType := g_classType g, g_lights := map saved_light (g_lights g),
     g_physicalLights := map saved_light (g_physicalLights g), g_scenes := map saved_scene (g_scenes g)\<rparr>"

definition saved_zone :: "Zone \<Rightarrow> Zone" where
  "saved_zone z = \<lparr>z_group = saved_group (z_group z), z_idV1 = z_idV1 z, z_archetype = z_archetype z\<rparr>"

definition saved_bridge :: "BridgeSettings \<Rightarrow> ref \<Rightarrow> Bridge \<Rightarrow> Bridge" where
  "saved_bridge settings gl b = (new_bridge_value (b_id b) (b_ipAddress b) (b_isValidIp b) settings gl)\<lparr>
     b_name := b_name b, b_modelId := b_modelId b, b_apiversion := b_apiversion b,
     b_swversion := b_swversion b, b_sslPort := b_sslPort b, b_isAuthorized := b_isAuthorized b,
     b_clientKey := b_clientKey b, b_user := b_user b, b_selectedGroup := b_selectedGroup b,
     b_maxNoStreamingSessions := cast_int (b_maxNoStreamingSessions b), b_certificate := b_certificate b,
     b_appId := b_user b, b_zones := map saved_zone (b_zones b)\<rparr>"

lemma Light_read_back: "Light_Deserialize L (Light_Serialize l (JNode [])) Light_default = saved_light l"
  by (simp add: Light_Serialize_eq Light_Deserialize_def saved_light_def deserialize_defs
      Color_Deserialize_def Location_Deserialize_def Light_default_def Light_new_def)

lemma Scene_read_back:
  "Scene_Deserialize L (Scene_Serialize s (JNode [])) (Scene_new [] [] [] [] []) = saved_scene s"
  by (simp add: Scene_Serialize_eq Scene_Deserialize_def saved_scene_def deserialize_defs Scene_new_def)

lemma Light_typed: "json_find AttributeType (Light_Serialize l (JNode [])) = Some (JString ''huestream.Light'')"
  by (simp add: Light_Serialize_eq AttributeType_def)

lemma Scene_typed: "json_find AttributeType (Scene_Serialize l (JNode [])) = Some (JString ''huestream.Scene'')"
  by (simp add: Scene_Serialize_eq AttributeType_def)

lemma LightList_read_back:
  "json_find n node = Some (JArray (map (\<lambda>l. Light_Serialize l (JNode [])) ls)) \<Longrightarrow>
   LightList_Deserialize L node n = Some (map saved_light ls)"
  unfolding LightList_Deserialize_def
  by (rule DeserializeList_written[where ser = Light_Serialize]) (simp_all add: Light_typed Light_read_back)

lemma SceneList_read_back:
  "json_find n node = Some (JArray (map (\<lambda>l. Scene_Serialize l (JNode [])) ls)) \<Longrightarrow>
   SceneList_Deserialize L node n = Some (map saved_scene ls)"
  unfolding SceneList_Deserialize_def
  by (rule DeserializeList_written[where ser = Scene_Serialize]) (simp_all add: Scene_typed Scene_read_back)

lemma Group_read_back_more:
  assumes "Group_Serialize t g (JNode []) = JNode kvs"
  shows "Group_Deserialize L (JNode (kvs @ rest)) Group_new = Some (saved_group g)"
proof -
  note kvs = assms[unfolded Group_Serialize_eq, simplified, symmetric]
  have "LightList_Deserialize L (JNode (kvs @ rest)) ''Lights'' = Some (map saved_light (g_lights g))"
    "LightList_Deserialize L (JNode (kvs @ rest)) ''PhysicalLights'' = Some (map saved_light (g_physicalLights g))"
    "SceneList_Deserialize L (JNode (kvs @ rest)) ''Scenes'' = Some (map saved_scene (g_scenes g))"
    by (rule LightList_read_back SceneList_read_back; simp add: kvs)+
  then show ?thesis
    by (simp add: Group_Deserialize_def) (simp add: kvs saved_group_def deserialize_defs class_roundtrip)
qed

lemma Group_read_back:
  "Group_Deserialize L (Group_Serialize t g (JNode [])) Group_new = Some (saved_group g)"
  using Group_read_back_more[of t g _ L "[]"] by (simp add: Group_Serialize_eq)

lemma archetype_roundtrip: "DeserializeArchetype (SerializeArchetype a) = a"
  by (cases a) (simp_all add: DeserializeArchetype_def SerializeArchetype_def archetypeSerializeMap_def)

lemma Zone_read_back: "Zone_Deserialize L (Zone_Serialize z (JNode [])) Zone_default = Some (saved_zone z)"
proof -
  obtain kvs where kvs: "Group_Serialize ''huestream.Zone'' (z_group z) (JNode []) = JNode kvs"
    by (simp add: Group_Serialize_eq)
  note read = Group_read_back_more[OF kvs, of L]
  have none: "map_of kvs ''Archetype'' = None" "map_of kvs ''IdV1'' = None"
    using kvs[symmetric] by (simp_all add: Group_Serialize_eq)
  show ?thesis
    using none
    by (simp add: Zone_Serialize_eq kvs Zone_Deserialize_def Zone_default_def read saved_zone_def
        deserialize_defs archetype_roundtrip map_add_def)
qed

section \<open>Bridges read back\<close>

lemma Bridge_Serialize_eq:
  "Bridge_Serialize h b (JNode []) = (case SerializeBase b (JNode []) of JNode kvs \<Rightarrow> JNode (kvs @
     [(''Groups'', JArray (map (\<lambda>g. Group_Serialize ''huestream.Group'' (groups_at h g) (JNode []))
                            (grouplists_at h (b_groups b)))),
      (''Zones'', JArray (map (\<lambda>z. Zone_Serialize z (JNode [])) (b_zones b)))]) | j \<Rightarrow> j)"
  by (simp add: Bridge_Serialize_def SerializeBase_eq serialize_defs comp_def)

lemma DeserializeBase_written:
  "DeserializeBase L (Bridge_Serialize h b (JNode [])) b0 = b0\<lparr>
     b_name := b_name b, b_modelId := b_modelId b, b_apiversion := b_apiversion b,
     b_swversion := b_swversion b, b_id := b_id b, b_ipAddress := b_ipAddress b, b_sslPort := b_sslPort b,
     b_isValidIp := b_isValidIp b, b_isAuthorized := b_isAuthorized b, b_clientKey := b_clientKey b,
     b_user := b_user b, b_selectedGroup := b_selectedGroup b,
     b_maxNoStreamingSessions := cast_int (b_maxNoStreamingSessions b), b_certificate := b_certificate b,
     b_appId := b_user b\<rparr>"
  by (simp add: Bridge_Serialize_eq SerializeBase_eq DeserializeBase_def deserialize_defs Let_def)

lemma Groups_written:
  "DeserializeList L (Bridge_Serialize h b (JNode [])) ''Groups'' ''huestream.Group''
     (\<lambda>n. Group_Deserialize L n Group_new)
   = Some (map (\<lambda>g. saved_group (groups_at h g)) (grouplists_at h (b_groups b)))"
  by (rule DeserializeList_written[where ser = "\<lambda>g. Group_Serialize ''huestream.Group'' (groups_at h g)"])
     (simp_all add: Bridge_Serialize_eq SerializeBase_eq Group_read_back,
      simp add: Group_Serialize_eq AttributeType_def)

lemma Zones_written:
  "DeserializeList L (Bridge_Serialize h b (JNode [])) ''Zones'' ''huestream.Zone''
     (\<lambda>n. Zone_Deserialize L n Zone_default) = Some (map saved_zone (b_zones b))"
  by (rule DeserializeList_written[where ser = Zone_Serialize])
     (simp_all add: Bridge_Serialize_eq SerializeBase_eq Zone_read_back,
      simp add: Zone_Serialize_eq Group_Serialize_eq AttributeType_def)

lemma alloc_groups_spec:
  "alloc_groups gs h = (h', rs) \<Longrightarrow> store_ext h h' \<and> next_ref h' = next_ref h + length gs
     \<and> map (groups_at h') rs = gs \<and> (\<forall>r\<in>set rs. r < next_ref h')
     \<and> bridges_at h' = bridges_at h \<and> grouplists_at h' = grouplists_at h"
proof (induction gs arbitrary: h h' rs)
  case (Cons g gs)
  let ?h1 = "fst (alloc_group g h)"
  obtain rs' where rs: "rs = next_ref h # rs'" and al: "alloc_groups gs ?h1 = (h', rs')"
    using Cons.prems by (auto simp: Let_def alloc_group_def split: prod.splits)
  note IH = Cons.IH[OF al]
  have "groups_at h' (next_ref h) = g"
    using IH by (auto simp: store_ext_def alloc_group_def)
  moreover have "store_ext h h'" using IH store_ext_trans[OF alloc_ext(3)] by blast
  moreover have "next_ref h' = Suc (next_ref h + length gs)" "bridges_at h' = bridges_at h"
    "grouplists_at h' = grouplists_at h"
    using IH by (simp_all add: alloc_group_def)
  moreover have "\<forall>r\<in>set rs'. r < next_ref h'" "map (groups_at h') rs' = gs" using IH by blast+
  ultimately show ?case by (simp add: rs)
qed simp

text \<open>
  \<open>restored hs b h r\<close>: at \<open>r\<close> in \<open>h\<close> there is a bridge with what was saved of \<open>b\<close>, and a group list
  and groups of its own with what was saved of the groups of \<open>b\<close>.
\<close>

definition restored :: "BridgeSettings \<Rightarrow> store \<Rightarrow> Bridge \<Rightarrow> store \<Rightarrow> ref \<Rightarrow> bool" where
  "restored settings hs b h r \<longleftrightarrow> (\<exists>gl. r < next_ref h \<and> gl < next_ref h
     \<and> (\<forall>g\<in>set (grouplists_at h gl). g < next_ref h) \<and> bridges_at h r = saved_bridge settings gl b
     \<and> map (groups_at h) (grouplists_at h gl) = map (\<lambda>g. saved_group (groups_at hs g)) (grouplists_at hs (b_groups b)))"

lemma restored_ext: "restored settings hs b h r \<Longrightarrow> store_ext h h' \<Longrightarrow> restored settings hs b h' r"
proof -
  assume "restored settings hs b h r" and e: "store_ext h h'"
  then obtain gl where gl: "r < next_ref h" "gl < next_ref h" "\<forall>g\<in>set (grouplists_at h gl). g < next_ref h"
    "bridges_at h r = saved_bridge settings gl b"
    "map (groups_at h) (grouplists_at h gl) = map (\<lambda>g. saved_group (groups_at hs g)) (grouplists_at hs (b_groups b))"
    by (auto simp: restored_def)
  have le: "next_ref h \<le> next_ref h'" and same: "grouplists_at h' gl = grouplists_at h gl"
    "bridges_at h' r = bridges_at h r" and groups: "\<And>g. g < next_ref h \<Longrightarrow> groups_at h' g = groups_at h g"
    using e gl(1,2) by (auto simp: store_ext_def)
  have "map (groups_at h') (grouplists_at h gl) = map (groups_at h) (grouplists_at h gl)"
    using gl(3) groups by (intro map_cong) auto
  then show "restored settings hs b h' r"
    unfolding restored_def
  proof (intro exI[of _ gl] conjI)
    show "\<forall>g\<in>set (grouplists_at h' gl). g < next_ref h'" using gl(3) le same by fastforce
  qed (use gl le same in simp_all)
qed

lemma Bridge_read_back:
  assumes "new_bridge settings h = (h1, r)"
  shows "\<exists>h2. Bridge_Deserialize L (Bridge_Serialize hs b (JNode [])) r h1 = Some h2
    \<and> store_ext h h2 \<and> restored settings hs b h2 r"
proof -
  let ?gs = "map (\<lambda>g. saved_group (groups_at hs g)) (grouplists_at hs (b_groups b))"
  let ?node = "Bridge_Serialize hs b (JNode [])"
  let ?gl = "next_ref h"
  have r: "r = Suc (next_ref h)" and n1: "next_ref h1 = Suc (Suc (next_ref h))" and e1: "store_ext h h1"
    and b1: "bridges_at h1 r = new_bridge_value [] [] False settings ?gl"
    using assms by (auto simp: new_bridge_def alloc_grouplist_def alloc_bridge_def store_ext_def)
  let ?h1 = "upd_bridge r (DeserializeBase L ?node) h1"
  obtain h2 rs where al: "alloc_groups ?gs ?h1 = (h2, rs)" by (meson surj_pair)
  note sp = alloc_groups_spec[OF al]
  have b2: "bridges_at h2 r = DeserializeBase L ?node (bridges_at h1 r)"
    using sp by (simp add: upd_bridge_def)
  have gl: "b_groups (bridges_at h2 r) = ?gl"
    using b2 b1 by (simp add: DeserializeBase_written new_bridge_value_def)
  let ?h3 = "upd_bridge r (\<lambda>b'. b'\<lparr>b_zones := map saved_zone (b_zones b)\<rparr>) (upd_grouplist ?gl (\<lambda>_. rs) h2)"
  have res: "Bridge_Deserialize L ?node r h1 = Some ?h3"
    unfolding Bridge_Deserialize_def Groups_written Zones_written by (simp add: al gl)
  have "bridges_at ?h3 r = saved_bridge settings ?gl b"
    using b2 b1
    by (simp add: upd_bridge_def upd_grouplist_def DeserializeBase_written new_bridge_value_def saved_bridge_def)
  moreover have "store_ext h ?h3"
    using sp e1 r by (auto simp: store_ext_def upd_bridge_def upd_grouplist_def)
  moreover have "restored settings hs b ?h3 r"
    unfolding restored_def using calculation(1) sp r n1
    by (intro exI[of _ ?gl]) (auto simp: upd_bridge_def upd_grouplist_def)
  ultimately show ?thesis using res by blast
qed

lemma bridges_read_back:
  "\<exists>h' rs'. bridges_from L settings (map (\<lambda>r. Bridge_Serialize hs (bridges_at hs r) (JNode [])) rs) h = Some (h', rs')
     \<and> store_ext h h' \<and> list_all2 (\<lambda>r r'. restored settings hs (bridges_at hs r) h' r') rs rs'"
proof (induction rs arbitrary: h)
  case (Cons r rs)
  obtain h1 r1 where nb: "new_bridge settings h = (h1, r1)" by (meson surj_pair)
  obtain h2 where h2: "Bridge_Deserialize L (Bridge_Serialize hs (bridges_at hs r) (JNode [])) r1 h1 = Some h2"
    "store_ext h h2" "restored settings hs (bridges_at hs r) h2 r1"
    using Bridge_read_back[OF nb] by blast
  obtain h' rs' where rs': "bridges_from L settings (map (\<lambda>r. Bridge_Serialize hs (bridges_at hs r) (JNode [])) rs) h2 = Some (h', rs')"
    "store_ext h2 h'" "list_all2 (\<lambda>r r'. restored settings hs (bridges_at hs r) h' r') rs rs'"
    using Cons.IH by blast
  have "json_find AttributeType (Bridge_Serialize hs (bridges_at hs r) (JNode [])) = Some (JString ''huestream.Bridge'')"
    by (simp add: Bridge_Serialize_eq SerializeBase_eq AttributeType_def)
  then show ?case
    using nb h2 rs' restored_ext[OF h2(3) rs'(2)] store_ext_trans[OF h2(2) rs'(2)]
    by (simp add: DeserializeFromJson_typed)
qed simp

lemma saved_writes_same [simp]:
  "Light_Serialize (saved_light l) (JNode kvs) = Light_Serialize l (JNode kvs)"
  "Scene_Serialize (saved_scene s) (JNode kvs) = Scene_Serialize s (JNode kvs)"
  "Group_Serialize t (saved_group g) (JNode kvs) = Group_Serialize t g (JNode kvs)"
  "Zone_Serialize (saved_zone z) (JNode []) = Zone_Serialize z (JNode [])"
  by (simp_all add: Light_Serialize_eq Scene_Serialize_eq Group_Serialize_eq Zone_Serialize_eq saved_light_def
      saved_scene_def saved_group_def saved_zone_def Scene_new_def comp_def)

lemma restored_writes_same:
  assumes "restored settings hs b h r" "is_int (b_maxNoStreamingSessions b)"
  shows "Bridge_Serialize h (bridges_at h r) (JNode []) = Bridge_Serialize hs b (JNode [])"
proof -
  obtain gl where gl: "bridges_at h r = saved_bridge settings gl b"
    "map (groups_at h) (grouplists_at h gl) = map (\<lambda>g. saved_group (groups_at hs g)) (grouplists_at hs (b_groups b))"
    using assms(1) by (auto simp: restored_def)
  have "map (\<lambda>g. Group_Serialize t (groups_at h g) (JNode [])) (grouplists_at h gl)
      = map (\<lambda>g. Group_Serialize t (groups_at hs g) (JNode [])) (grouplists_at hs (b_groups b))" for t
    using arg_cong[OF gl(2), of "map (\<lambda>g. Group_Serialize t g (JNode []))"] by (simp add: comp_def)
  then show ?thesis
    using assms(2) by (simp add: Bridge_Serialize_eq SerializeBase_eq gl(1) saved_bridge_def new_bridge_value_def comp_def)
qed

end
