(* ===== verification/Storage.thy ===== *)
theory Storage imports Persistence ConnectionFlow begin

text \<open>
  \<open>huestream/connect/BridgeFileStorageAccessor\<close>: the persistent data in a file, encrypted when the
  application gives a key. The text form of a tree, the hash and the cipher are other libraries'
  (\<open>storage_env\<close>). The file is its contents, or \<open>None\<close> when it cannot be opened; the application
  settings are \<open>None\<close> for a null pointer, else the storage encryption key.
\<close>

record storage_env =
  se_write :: "json \<Rightarrow> string"
  se_parse :: "string \<Rightarrow> json"
  se_sha256 :: "string \<Rightarrow> string"
  se_encrypt :: "string \<Rightarrow> string \<Rightarrow> string"
  se_decrypt :: "string \<Rightarrow> string \<Rightarrow> string"

definition PARTIAL_ENCRYPTION_KEY :: string where
  "PARTIAL_ENCRYPTION_KEY = ''EDK_BRIDGE_INFO_''"

definition get_encryption_key_hash :: "storage_env \<Rightarrow> string option \<Rightarrow> string" where
  "get_encryption_key_hash S appSettings = (case appSettings of
      None \<Rightarrow> []
    | Some key \<Rightarrow> if key = [] then [] else se_sha256 S (PARTIAL_ENCRYPTION_KEY @ key @ [chr 0]))"

definition encrypt_data :: "storage_env \<Rightarrow> string option \<Rightarrow> string \<Rightarrow> string" where
  "encrypt_data S appSettings d =
     (let encryptionKey = get_encryption_key_hash S appSettings
      in if encryptionKey = [] then d else se_encrypt S encryptionKey d)"

definition decrypt_data :: "storage_env \<Rightarrow> string option \<Rightarrow> string \<Rightarrow> string" where
  "decrypt_data S appSettings d =
     (let encryptionKey = get_encryption_key_hash S appSettings
      in if encryptionKey = [] then d else se_decrypt S encryptionKey d)"

definition Storage_Save ::
  "storage_env \<Rightarrow> string option \<Rightarrow> bool \<Rightarrow> store \<Rightarrow> HueStreamData \<Rightarrow> string option \<Rightarrow> OperationResult \<times> string option" where
  "Storage_Save S appSettings writable h bridges file =
     (if writable
      then (OPERATION_SUCCESS, Some (encrypt_data S appSettings (se_write S (Data_Serialize h bridges (JNode [])))))
      else (OPERATION_FAILED, file))"

text \<open>\<open>None\<close>: the file lists an object that is no bridge (see \<open>DeserializeList\<close>).\<close>

definition Storage_Load ::
  "json_lib \<Rightarrow> storage_env \<Rightarrow> string option \<Rightarrow> BridgeSettings \<Rightarrow> string option \<Rightarrow> store
     \<Rightarrow> (store \<times> OperationResult \<times> HueStreamData) option" where
  "Storage_Load L S appSettings settings file h =
     (let (h1, loaded_data) = HueStreamData_new settings h
      in case file of
           None \<Rightarrow> Some (h1, OPERATION_FAILED, loaded_data)
         | Some contents \<Rightarrow>
             (let decrypted_contents = decrypt_data S appSettings contents
              in if decrypted_contents \<noteq> [] \<or> contents = []
                 then map_option (\<lambda>(h2, d). (h2, OPERATION_SUCCESS, d))
                        (Data_Deserialize L settings (se_parse S decrypted_contents) loaded_data h1)
                 else Some (h1, OPERATION_FAILED, loaded_data)))"

lemma Data_Serialize_eq:
  "Data_Serialize h d (JNode []) = JNode [(''type'', JString ''huestream.HueStreamData''),
     (''Version'', JNumber (real_of_int (d_version d))),
     (''Bridges'', JArray (map (\<lambda>r. Bridge_Serialize h (bridges_at h r) (JNode [])) (d_bridges d)))]"
  by (simp add: Data_Serialize_def serialize_defs comp_def)

lemma restored_known:
  assumes "list_all2 (\<lambda>r r'. restored settings hs (bridges_at hs r) h r') rs rs'"
    and "\<forall>r\<in>set rs. b_bridgeSettings (bridges_at hs r) = settings"
  shows "map (b_id \<circ> bridges_at h) (filter (\<lambda>r. HasEverBeenAuthorizedForStreaming (bridges_at h r)) rs')
       = map (b_id \<circ> bridges_at hs) (filter (\<lambda>r. HasEverBeenAuthorizedForStreaming (bridges_at hs r)) rs)"
  using assms
  by (induction rule: list_all2_induct)
     (auto simp: restored_def saved_bridge_def new_bridge_value_def bridge_flags)

lemma restored_all_write_same:
  "list_all2 (\<lambda>r r'. restored settings hs (bridges_at hs r) h r') rs rs' \<Longrightarrow>
   \<forall>r\<in>set rs. is_int (b_maxNoStreamingSessions (bridges_at hs r)) \<Longrightarrow>
   map (\<lambda>r. Bridge_Serialize h (bridges_at h r) (JNode [])) rs'
   = map (\<lambda>r. Bridge_Serialize hs (bridges_at hs r) (JNode [])) rs"
  by (induction rule: list_all2_induct) (simp_all add: restored_writes_same)

lemma Data_read_back:
  obtains h' d' where "Data_Deserialize L settings (Data_Serialize hs d (JNode [])) d0 h = Some (h', d')"
    "store_ext h h'" "d_version d' = cast_int (d_version d)"
    "list_all2 (\<lambda>r r'. restored settings hs (bridges_at hs r) h' r') (d_bridges d) (d_bridges d')"
proof -
  obtain h' rs' where b: "bridges_from L settings
      (map (\<lambda>r. Bridge_Serialize hs (bridges_at hs r) (JNode [])) (d_bridges d)) h = Some (h', rs')"
    "store_ext h h'" "list_all2 (\<lambda>r r'. restored settings hs (bridges_at hs r) h' r') (d_bridges d) rs'"
    using bridges_read_back by blast
  show ?thesis
    by (rule that[of h' "d0\<lparr>d_version := cast_int (d_version d), d_bridges := rs'\<rparr>"])
       (use b in \<open>simp_all add: Data_Deserialize_def Data_Serialize_eq deserialize_defs\<close>)
qed


definition sample_storage :: "store \<Rightarrow> HueStreamData \<Rightarrow> storage_env" where
  "sample_storage hs d = \<lparr>se_write = (\<lambda>_. ''{}''), se_parse = (\<lambda>_. Data_Serialize hs d (JNode [])),
     se_sha256 = (\<lambda>s. s), se_encrypt = (\<lambda>k s. rev s), se_decrypt = (\<lambda>k s. rev s)\<rparr>"

definition saved_store :: store where
  "saved_store = \<lparr>bridges_at = (\<lambda>_. new_bridge_value ''id'' ''10.0.0.2'' True BridgeSettings_default 0),
     grouplists_at = (\<lambda>_. [2]), groups_at = (\<lambda>_. Group_new\<lparr>g_lights := [Light_default]\<rparr>), next_ref = 3\<rparr>"

definition saved_data :: HueStreamData where
  "saved_data = \<lparr>d_version = 1, d_bridges = [1, 0], d_bridgeSettings = BridgeSettings_default\<rparr>"

definition sample_lib :: json_lib where
  "sample_lib = \<lparr>jl_text = (\<lambda>_. []), jl_number = (\<lambda>_. 0), jl_bool = (\<lambda>_. False)\<rparr>"


text \<open>
  Loading fails exactly when the file cannot be opened, or has contents that the key
  does not decrypt to anything; then the data handed over is new: one empty bridge.
\<close>

theorem load_fails_iff:
  "Storage_Load L S key settings file h
     = Some (fst (HueStreamData_new settings h), OPERATION_FAILED, snd (HueStreamData_new settings h))
   \<longleftrightarrow> file = None \<or> (\<exists>contents. file = Some contents \<and> contents \<noteq> [] \<and> decrypt_data S key contents = [])"
  by (cases "HueStreamData_new settings h")
     (auto simp: Storage_Load_def Let_def split: option.splits if_splits)

end
