(* ===== verification/StreamStarter.thy ===== *)
theory StreamStarter imports Bridge Json begin

text \<open>
  \<open>huestream/stream/StreamStarter\<close>: it asks the bridge to start or to stop streaming for a group.
  Each request waits for its answer. The answers are a function \<open>http\<close> of the requests sent so far,
  the last one included: no success, or a response that was parsed to a tree, with the last
  certificate of the connection's chain (empty when there is none). A null pointer that is
  dereferenced gives \<open>None\<close>. No other thread changes the bridge meanwhile.
\<close>

section \<open>Requests and answers\<close>

datatype ActivationOverrideLevel = ACTIVATION_OVERRIDELEVEL_NEVER
  | ACTIVATION_OVERRIDELEVEL_SAMEGROUP | ACTIVATION_OVERRIDELEVEL_ALWAYS

datatype http_answer = NoSuccess | Response string json

type_synonym http_call = "string \<times> json"

record starter =
  st_store :: store
  st_calls :: "http_call list"

record starter_env =
  sv_lib :: json_lib
  sv_http :: "http_call list \<Rightarrow> http_answer"

definition request_body :: "bool \<Rightarrow> bool \<Rightarrow> json" where
  "request_body clipV2 activate =
     (if clipV2 then push_back ''action'' (JString (if activate then ''start'' else ''stop'')) (JNode [])
      else push_back ''stream'' (push_back ''active'' (JBool activate) (JNode [])) (JNode []))"

text \<open>\<open>BridgeHttpClient\<close> keeps the certificate of the first response.\<close>

definition keep_certificate :: "ref \<Rightarrow> string \<Rightarrow> store \<Rightarrow> store" where
  "keep_certificate r certificate h =
     (if b_certificate (bridges_at h r) = [] \<and> certificate \<noteq> []
      then upd_bridge r (\<lambda>b. b\<lparr>b_certificate := certificate\<rparr>) h else h)"

definition IsNotExistingOrInvalidGroup :: "int \<Rightarrow> bool" where
  "IsNotExistingOrInvalidGroup errorCode \<longleftrightarrow> errorCode = 3 \<or> errorCode = 6"

text \<open>The two loops over the errors; \<open>None\<close> is their end without a \<open>return\<close>.\<close>

fun errors_v2 :: "json_lib \<Rightarrow> ref \<Rightarrow> json list \<Rightarrow> store \<Rightarrow> store option" where
  "errors_v2 L r [] h = None"
| "errors_v2 L r (it # its) h =
     (case json_find ''http_error'' it of
        None \<Rightarrow> errors_v2 L r its h
      | Some errorCode \<Rightarrow>
          Some (if as_int L errorCode = 401 then upd_bridge r (\<lambda>b. b\<lparr>b_isAuthorized := False\<rparr>) h
                else if as_int L errorCode = 503 \<or> as_int L errorCode = 400
                  then upd_bridge r (\<lambda>b. b\<lparr>b_isBusy := True\<rparr>) h
                else h))"

definition error_type_v1 :: "ref \<Rightarrow> int \<Rightarrow> store \<Rightarrow> store" where
  "error_type_v1 r i h =
     (let h1 = (if i = 1 then upd_bridge r (\<lambda>b. b\<lparr>b_isAuthorized := False\<rparr>) h else h);
          h2 = (if IsNotExistingOrInvalidGroup i then DeleteGroup h1 r (b_selectedGroup (bridges_at h1 r)) else h1)
      in if i = 307 then upd_bridge r (\<lambda>b. b\<lparr>b_isBusy := True\<rparr>) h2 else h2)"

fun errors_v1 :: "json_lib \<Rightarrow> ref \<Rightarrow> json list \<Rightarrow> store \<Rightarrow> store option" where
  "errors_v1 L r [] h = None"
| "errors_v1 L r (it # its) h =
     (case json_find ''error'' it of
        None \<Rightarrow> errors_v1 L r its h
      | Some entry \<Rightarrow> Some (case json_find ''type'' entry of
                              None \<Rightarrow> h | Some i \<Rightarrow> error_type_v1 r (as_int L i) h))"

definition CheckForErrors :: "json_lib \<Rightarrow> ref \<Rightarrow> http_answer \<Rightarrow> store \<Rightarrow> store \<times> bool" where
  "CheckForErrors L r req h =
     (case req of
        NoSuccess \<Rightarrow> (upd_bridge r (\<lambda>b. b\<lparr>b_isValidIp := False\<rparr>) h, False)
      | Response certificate node \<Rightarrow>
          (let failed = (if IsSupportingClipV2 (bridges_at h r)
                 then (case json_find ''errors'' node of
                         None \<Rightarrow> None | Some errors \<Rightarrow> errors_v2 L r (json_children errors) h)
                 else (case node of JArray its \<Rightarrow> errors_v1 L r its h | _ \<Rightarrow> Some h))
           in case failed of
                Some h' \<Rightarrow> (h', False)
              | None \<Rightarrow> (upd_bridge r (\<lambda>b. b\<lparr>b_isBusy := False\<rparr>) h, True)))"

definition Execute_url :: "starter_env \<Rightarrow> ref \<Rightarrow> string \<Rightarrow> bool \<Rightarrow> starter \<Rightarrow> starter \<times> bool" where
  "Execute_url V r url activate st =
     (let calls = st_calls st @ [(url, request_body (IsSupportingClipV2 (bridges_at (st_store st) r)) activate)];
          answer = sv_http V calls;
          h1 = (case answer of Response certificate _ \<Rightarrow> keep_certificate r certificate (st_store st)
                | NoSuccess \<Rightarrow> st_store st);
          (h2, ok) = CheckForErrors (sv_lib V) r answer h1
      in (\<lparr>st_store = h2, st_calls = calls\<rparr>, ok))"

definition Execute_selected :: "starter_env \<Rightarrow> ref \<Rightarrow> bool \<Rightarrow> starter \<Rightarrow> starter \<times> bool" where
  "Execute_selected V r activate st =
     Execute_url V r (GetSelectedGroupUrl (bridges_at (st_store st) r)) activate st"

section \<open>Starting and stopping\<close>

definition release_group :: "ref \<Rightarrow> starter \<Rightarrow> starter" where
  "release_group g st = st\<lparr>st_store := upd_group g (\<lambda>x. x\<lparr>g_active := False, g_owner := []\<rparr>) (st_store st)\<rparr>"

definition group_url :: "Bridge \<Rightarrow> string \<Rightarrow> string" where
  "group_url b groupId =
     (if IsSupportingClipV2 b then GetBaseUrl b True False @ ''/entertainment_configuration/'' @ groupId
      else GetBaseUrl b False False @ ''groups/'' @ groupId)"

definition DeactivateGroup :: "starter_env \<Rightarrow> ref \<Rightarrow> string \<Rightarrow> starter \<Rightarrow> starter \<times> bool" where
  "DeactivateGroup V r groupId st =
     (let (st1, ok) = Execute_url V r (group_url (bridges_at (st_store st) r) groupId) False st
      in if \<not> ok then (st1, False)
         else (case GetGroupById (st_store st1) (bridges_at (st_store st1) r) groupId of
                 None \<Rightarrow> (st1, True) | Some g \<Rightarrow> (release_group g st1, True)))"

text \<open>The first part of \<open>StartStream\<close>, for version 2: a group that another client streams to.\<close>

definition take_over_v2 :: "starter_env \<Rightarrow> ActivationOverrideLevel \<Rightarrow> ref \<Rightarrow> starter \<Rightarrow> starter option" where
  "take_over_v2 V level r st =
     (let h = st_store st; b = bridges_at h r
      in if \<not> IsSupportingClipV2 b then Some st
         else case GetGroupsOwnedByOtherClient h b of
                [] \<Rightarrow> Some st
              | g # _ \<Rightarrow>
                  (let i = g_id (groups_at h g)
                   in case level of
                        ACTIVATION_OVERRIDELEVEL_NEVER \<Rightarrow> Some st
                      | ACTIVATION_OVERRIDELEVEL_ALWAYS \<Rightarrow> Some (fst (DeactivateGroup V r i st))
                      | ACTIVATION_OVERRIDELEVEL_SAMEGROUP \<Rightarrow>
                          (case GetGroup h b of
                             None \<Rightarrow> None
                           | Some sel \<Rightarrow> Some (if g_id (groups_at h sel) = i
                                               then fst (DeactivateGroup V r i st) else st))))"

text \<open>The second part: another client keeps the bridge busy.\<close>

definition force_start :: "starter_env \<Rightarrow> ActivationOverrideLevel \<Rightarrow> ref \<Rightarrow> starter \<Rightarrow> starter \<times> bool" where
  "force_start V level r st =
     (let h = st_store st; b = bridges_at h r;
          st1 = (case GetGroupsOwnedByOtherClient h b of
                   g # _ \<Rightarrow> (if level = ACTIVATION_OVERRIDELEVEL_ALWAYS
                              then (let (s, ok) = DeactivateGroup V r (g_id (groups_at h g)) st
                                    in if ok then release_group g s else s)
                              else st)
                 | [] \<Rightarrow> st);
          (st2, _) = Execute_selected V r False st1
      in Execute_selected V r True st2)"

definition StartStream :: "starter_env \<Rightarrow> ActivationOverrideLevel \<Rightarrow> ref \<Rightarrow> starter \<Rightarrow> (starter \<times> bool) option" where
  "StartStream V level r st =
     (let force = (level \<noteq> ACTIVATION_OVERRIDELEVEL_NEVER)
      in case take_over_v2 V level r st of
           None \<Rightarrow> None
         | Some st0 \<Rightarrow>
             (let (st1, ok1) = Execute_selected V r True st0;
                  (st2, result) = (if \<not> ok1 \<and> b_isBusy (bridges_at (st_store st1) r) \<and> force
                                   then force_start V level r st1 else (st1, ok1));
                  b = bridges_at (st_store st2) r
              in if result then
                   (case GetGroup (st_store st2) b of
                      None \<Rightarrow> None
                    | Some g \<Rightarrow> Some (st2\<lparr>st_store := upd_group g (\<lambda>x. x\<lparr>g_active := True, g_owner := b_appId b\<rparr>)
                                            (st_store st2)\<rparr>, True))
                 else if b_isBusy b \<and> IsValidGroupSelected (st_store st2) b \<and> force then
                   Some (st2\<lparr>st_store := upd_group (the (GetGroup (st_store st2) b)) (\<lambda>x. x\<lparr>g_active := False\<rparr>)
                               (st_store st2)\<rparr>, False)
                 else Some (st2, False)))"

definition Starter_Start :: "starter_env \<Rightarrow> bool \<Rightarrow> ref \<Rightarrow> starter \<Rightarrow> (starter \<times> bool) option" where
  "Starter_Start V force r st =
     StartStream V (if force then ACTIVATION_OVERRIDELEVEL_SAMEGROUP else ACTIVATION_OVERRIDELEVEL_NEVER) r st"

definition Starter_Stop :: "starter_env \<Rightarrow> ref \<Rightarrow> starter \<Rightarrow> starter" where
  "Starter_Stop V r st =
     (let (st1, ok) = Execute_selected V r False st
      in case GetGroup (st_store st1) (bridges_at (st_store st1) r) of
           None \<Rightarrow> st1 | Some g \<Rightarrow> if ok then release_group g st1 else st1)"

section \<open>What requests leave alone\<close>

text \<open>
  Requests change flags of the bridge and, in version 1, remove the selected group; what the
  addresses are made of stays.
\<close>

definition target :: "Bridge \<Rightarrow> Bridge" where
  "target b = b\<lparr>b_isValidIp := False, b_isAuthorized := False, b_isBusy := False, b_certificate := []\<rparr>"

definition same_target :: "ref \<Rightarrow> store \<Rightarrow> store \<Rightarrow> bool" where
  "same_target r h h' \<longleftrightarrow> target (bridges_at h' r) = target (bridges_at h r)
     \<and> (\<forall>g. g_id (groups_at h' g) = g_id (groups_at h g))
     \<and> (IsSupportingClipV2 (bridges_at h r) \<longrightarrow> grouplists_at h' = grouplists_at h)"

lemma of_target:
  "IsSupportingClipV2 (target b) = IsSupportingClipV2 b" "GetSelectedGroupUrl (target b) = GetSelectedGroupUrl b"
  "group_url (target b) i = group_url b i" "b_selectedGroup (target b) = b_selectedGroup b"
  "b_appId (target b) = b_appId b" "b_groups (target b) = b_groups b"
proof -
  show v2: "IsSupportingClipV2 (target b) = IsSupportingClipV2 b"
    by (simp add: target_def IsSupportingClipV2_def IsValidModelId_eq)
  have "GetApiRootUrl (target b) u e = GetApiRootUrl b u e" for u e
    using v2 by (simp add: GetApiRootUrl_def GetUrl_def) (simp add: target_def)
  then show "GetSelectedGroupUrl (target b) = GetSelectedGroupUrl b" "group_url (target b) i = group_url b i"
    using v2 by (simp_all add: GetSelectedGroupUrl_def group_url_def GetBaseUrl_def) (simp_all add: target_def)
qed (simp_all add: target_def)

lemma same_target_fields:
  assumes "same_target r h h'"
  shows "IsSupportingClipV2 (bridges_at h' r) = IsSupportingClipV2 (bridges_at h r)"
    "GetSelectedGroupUrl (bridges_at h' r) = GetSelectedGroupUrl (bridges_at h r)"
    "group_url (bridges_at h' r) i = group_url (bridges_at h r) i"
    "b_selectedGroup (bridges_at h' r) = b_selectedGroup (bridges_at h r)"
    "b_appId (bridges_at h' r) = b_appId (bridges_at h r)" "b_groups (bridges_at h' r) = b_groups (bridges_at h r)"
  using assms of_target[of "bridges_at h r"] of_target[of "bridges_at h' r"]
  by (simp_all add: same_target_def)

lemma same_target_refl [simp]: "same_target r h h"
  by (simp add: same_target_def)

lemma same_target_trans [trans]: "same_target r h1 h2 \<Longrightarrow> same_target r h2 h3 \<Longrightarrow> same_target r h1 h3"
  using same_target_fields(1)[of r h1 h2] by (auto simp: same_target_def)

lemma same_target_GetGroupById:
  assumes "same_target r h h'" "IsSupportingClipV2 (bridges_at h r)"
  shows "GetGroupById h' (bridges_at h' r) i = GetGroupById h (bridges_at h r) i"
    "GetGroup h' (bridges_at h' r) = GetGroup h (bridges_at h r)"
  using assms same_target_fields[OF assms(1)]
  by (simp_all add: GetGroup_def GetGroupById_def same_target_def)

lemma flag_target:
  "same_target r h (upd_bridge r (\<lambda>b. b\<lparr>b_isValidIp := v\<rparr>) h)"
  "same_target r h (upd_bridge r (\<lambda>b. b\<lparr>b_isAuthorized := a\<rparr>) h)"
  "same_target r h (upd_bridge r (\<lambda>b. b\<lparr>b_isBusy := z\<rparr>) h)"
  "same_target r h (upd_bridge r (\<lambda>b. b\<lparr>b_certificate := c\<rparr>) h)"
  by (simp_all add: same_target_def upd_bridge_def target_def)

lemma group_target:
  "(\<And>x. g_id (f x) = g_id x) \<Longrightarrow> same_target r h (upd_group g f h)"
  by (simp add: same_target_def upd_group_def)

lemma release_target: "same_target r h (st_store (release_group g st))" if "same_target r h (st_store st)"
  using that same_target_trans[OF that group_target] by (simp add: release_group_def)

lemma release_calls [simp]: "st_calls (release_group g st) = st_calls st"
  by (simp add: release_group_def)

lemma keep_certificate_target: "same_target r h (keep_certificate r c h)"
  by (simp add: keep_certificate_def flag_target)

lemma errors_v2_target: "errors_v2 L r its h = Some h' \<Longrightarrow> same_target r h h'"
  by (induction L r its h rule: errors_v2.induct) (auto simp: flag_target split: option.splits if_splits)

lemma error_type_v1_target: "\<not> IsSupportingClipV2 (bridges_at h r) \<Longrightarrow> same_target r h (error_type_v1 r i h)"
  by (auto simp: error_type_v1_def DeleteGroup_def same_target_def upd_bridge_def upd_grouplist_def target_def Let_def)

lemma errors_v1_target:
  "errors_v1 L r its h = Some h' \<Longrightarrow> \<not> IsSupportingClipV2 (bridges_at h r) \<Longrightarrow> same_target r h h'"
  by (induction L r its h rule: errors_v1.induct)
     (auto simp: error_type_v1_target split: option.splits)

lemma CheckForErrors_target: "same_target r h (fst (CheckForErrors L r req h))"
  by (auto simp: CheckForErrors_def Let_def flag_target
      dest: errors_v2_target errors_v1_target split: http_answer.splits option.splits json.splits)

lemma CheckForErrors_ok: "CheckForErrors L r req h = (h', True) \<Longrightarrow> \<not> b_isBusy (bridges_at h' r)"
  by (auto simp: CheckForErrors_def Let_def upd_bridge_def split: http_answer.splits option.splits)

lemma Execute_url_spec:
  assumes "Execute_url V r url activate st = (st', ok)"
  shows "st_calls st' = st_calls st @ [(url, request_body (IsSupportingClipV2 (bridges_at (st_store st) r)) activate)]
    \<and> same_target r (st_store st) (st_store st') \<and> (ok \<longrightarrow> \<not> b_isBusy (bridges_at (st_store st') r))"
proof -
  let ?b = "bridges_at (st_store st) r"
  let ?a = "sv_http V (st_calls st @ [(url, request_body (IsSupportingClipV2 ?b) activate)])"
  let ?h = "case ?a of Response c _ \<Rightarrow> keep_certificate r c (st_store st) | NoSuccess \<Rightarrow> st_store st"
  have t: "same_target r (st_store st) ?h" by (simp add: keep_certificate_target split: http_answer.split)
  obtain h2 where c: "CheckForErrors (sv_lib V) r ?a ?h = (h2, ok)"
    and st': "st' = \<lparr>st_store = h2, st_calls = st_calls st @ [(url, request_body (IsSupportingClipV2 ?b) activate)]\<rparr>"
    using assms by (auto simp: Execute_url_def Let_def split: prod.splits)
  have "same_target r ?h h2" using CheckForErrors_target[of r ?h "sv_lib V" ?a] c by simp
  then show ?thesis using same_target_trans[OF t] CheckForErrors_ok[of "sv_lib V" r ?a ?h h2] c st' by auto
qed

text \<open>The calls of a part of \<open>StartStream\<close>; \<open>switch b a\<close> is the request that starts or stops the selected group.\<close>

definition switch :: "Bridge \<Rightarrow> bool \<Rightarrow> http_call" where
  "switch b activate = (GetSelectedGroupUrl b, request_body (IsSupportingClipV2 b) activate)"

definition stop_other :: "Bridge \<Rightarrow> string \<Rightarrow> http_call" where
  "stop_other b i = (group_url b i, request_body (IsSupportingClipV2 b) False)"

definition sent :: "ref \<Rightarrow> starter \<Rightarrow> http_call list \<Rightarrow> starter \<Rightarrow> bool" where
  "sent r st cs st' \<longleftrightarrow> st_calls st' = st_calls st @ cs \<and> same_target r (st_store st) (st_store st')"

lemma sent_refl: "sent r st [] st"
  by (simp add: sent_def)

lemma sent_trans: "sent r st1 cs st2 \<Longrightarrow> sent r st2 ds st3 \<Longrightarrow> sent r st1 (cs @ ds) st3"
  by (auto simp: sent_def intro: same_target_trans)

lemma sent_switch: "sent r st cs st' \<Longrightarrow>
    switch (bridges_at (st_store st') r) a = switch (bridges_at (st_store st) r) a
    \<and> stop_other (bridges_at (st_store st') r) i = stop_other (bridges_at (st_store st) r) i"
  using same_target_fields[of r "st_store st" "st_store st'"] by (simp add: sent_def switch_def stop_other_def)

lemma Execute_selected_spec:
  "Execute_selected V r a st = (st', ok) \<Longrightarrow> sent r st [switch (bridges_at (st_store st) r) a] st'
    \<and> (ok \<longrightarrow> \<not> b_isBusy (bridges_at (st_store st') r))"
  using Execute_url_spec[of V r "GetSelectedGroupUrl (bridges_at (st_store st) r)" a st st' ok]
  by (simp add: Execute_selected_def sent_def switch_def)

lemma sent_release: "sent r st cs st' \<Longrightarrow> sent r st cs (release_group g st')"
  by (auto simp: sent_def intro: release_target)

lemma DeactivateGroup_spec:
  assumes "DeactivateGroup V r i st = (st', ok)"
  shows "sent r st [stop_other (bridges_at (st_store st) r) i] st'"
proof -
  obtain st1 ok1 where x: "Execute_url V r (group_url (bridges_at (st_store st) r) i) False st = (st1, ok1)"
    by (meson surj_pair)
  have "sent r st [stop_other (bridges_at (st_store st) r) i] st1"
    using Execute_url_spec[OF x] by (simp add: sent_def stop_other_def)
  then show ?thesis using assms x
    by (auto simp: DeactivateGroup_def split: option.splits if_splits intro: sent_release)
qed

lemma stop_other_selected:
  "IsSupportingClipV2 b \<Longrightarrow> stop_other b (b_selectedGroup b) = switch b False"
  by (simp add: stop_other_def switch_def group_url_def GetSelectedGroupUrl_def GetBaseUrl_def)

lemma take_over_v2_spec:
  assumes "take_over_v2 V level r st = Some st'"
  shows "\<exists>cs. sent r st cs st' \<and> length cs \<le> 1 \<and> (level = ACTIVATION_OVERRIDELEVEL_NEVER \<longrightarrow> cs = [])
    \<and> (level = ACTIVATION_OVERRIDELEVEL_SAMEGROUP \<longrightarrow> set cs \<subseteq> {switch (bridges_at (st_store st) r) False})"
proof -
  let ?b = "bridges_at (st_store st) r"
  have D: "sent r st [stop_other ?b i] (fst (DeactivateGroup V r i st))" for i
    using DeactivateGroup_spec[of V r i st] by (metis prod.collapse)
  have sel: "g_id (groups_at (st_store st) g) = b_selectedGroup ?b" if "GetGroup (st_store st) ?b = Some g" for g
    using GetGroup_nonempty[OF that] by simp
  show ?thesis
    using assms sent_refl[of r st] D sel stop_other_selected[of ?b]
    by (fastforce simp: take_over_v2_def Let_def
        split: if_splits list.splits ActivationOverrideLevel.splits option.splits)
qed

lemma force_start_spec:
  assumes "force_start V level r st = (st', ok)"
  shows "\<exists>ds. sent r st (ds @ [switch (bridges_at (st_store st) r) False, switch (bridges_at (st_store st) r) True]) st'
    \<and> length ds \<le> 1 \<and> (level \<noteq> ACTIVATION_OVERRIDELEVEL_ALWAYS \<longrightarrow> ds = [])
    \<and> (ok \<longrightarrow> \<not> b_isBusy (bridges_at (st_store st') r))"
proof -
  let ?b = "bridges_at (st_store st) r"
  obtain st1 ds where st1: "sent r st ds st1" "length ds \<le> 1" "level \<noteq> ACTIVATION_OVERRIDELEVEL_ALWAYS \<longrightarrow> ds = []"
    "force_start V level r st = (let (st2, _) = Execute_selected V r False st1 in Execute_selected V r True st2)"
  proof (cases "GetGroupsOwnedByOtherClient (st_store st) ?b \<noteq> [] \<and> level = ACTIVATION_OVERRIDELEVEL_ALWAYS")
    case False
    then have "force_start V level r st = (let (st2, _) = Execute_selected V r False st in Execute_selected V r True st2)"
      by (auto simp: force_start_def Let_def split: list.splits)
    then show ?thesis using that[OF sent_refl] by simp
  next
    case True
    then obtain g gs where g: "GetGroupsOwnedByOtherClient (st_store st) ?b = g # gs" by (meson neq_Nil_conv)
    obtain s k where dg: "DeactivateGroup V r (g_id (groups_at (st_store st) g)) st = (s, k)" by (meson surj_pair)
    note sd = DeactivateGroup_spec[OF dg]
    have "sent r st [stop_other ?b (g_id (groups_at (st_store st) g))] (if k then release_group g s else s)"
      using sd sent_release by simp
    then show ?thesis
      using that True g dg by (fastforce simp: force_start_def Let_def)
  qed
  obtain st2 k where x2: "Execute_selected V r False st1 = (st2, k)" by (meson surj_pair)
  have x3: "Execute_selected V r True st2 = (st', ok)" using assms st1(4) x2 by simp
  note s2 = Execute_selected_spec[OF x2] and s3 = Execute_selected_spec[OF x3]
  have "sent r st (ds @ [switch ?b False]) st2"
    using sent_trans[OF st1(1)] s2 sent_switch[OF st1(1)] by metis
  then have "sent r st ((ds @ [switch ?b False]) @ [switch ?b True]) st'"
    using sent_trans s3 sent_switch[OF \<open>sent r st (ds @ [switch ?b False]) st2\<close>] by metis
  then show ?thesis using st1(2,3) s3 by (intro exI[of _ ds]) simp
qed

lemma upd_group_GetGroup: "(\<And>x. g_id (f x) = g_id x) \<Longrightarrow> GetGroup (upd_group g f h) b = GetGroup h b"
proof -
  assume "\<And>x. g_id (f x) = g_id x"
  then have "g_id (groups_at (upd_group g f h) r) = g_id (groups_at h r)" for r by (simp add: upd_group_def)
  then show ?thesis by (simp add: GetGroup_def GetGroupById_def) (simp add: upd_group_def)
qed

lemma StartStream_spec:
  assumes "StartStream V level r st = Some (st', result)"
  shows "\<exists>cs ds. sent r st (cs @ [switch (bridges_at (st_store st) r) True] @ ds) st'
    \<and> length cs \<le> 1 \<and> (level = ACTIVATION_OVERRIDELEVEL_NEVER \<longrightarrow> cs = [] \<and> ds = [])
    \<and> (level = ACTIVATION_OVERRIDELEVEL_SAMEGROUP \<longrightarrow> set cs \<subseteq> {switch (bridges_at (st_store st) r) False})
    \<and> (ds = [] \<or> (\<exists>es. ds = es @ [switch (bridges_at (st_store st) r) False, switch (bridges_at (st_store st) r) True]
         \<and> length es \<le> 1 \<and> (level \<noteq> ACTIVATION_OVERRIDELEVEL_ALWAYS \<longrightarrow> es = [])))
    \<and> (result \<longrightarrow> \<not> b_isBusy (bridges_at (st_store st') r) \<and> owns_active_group (st_store st') (bridges_at (st_store st') r))"
proof -
  let ?b = "bridges_at (st_store st) r"
  obtain st0 where t: "take_over_v2 V level r st = Some st0"
    using assms by (cases "take_over_v2 V level r st") (auto simp: StartStream_def)
  obtain cs where cs: "sent r st cs st0" "length cs \<le> 1" "level = ACTIVATION_OVERRIDELEVEL_NEVER \<longrightarrow> cs = []"
    "level = ACTIVATION_OVERRIDELEVEL_SAMEGROUP \<longrightarrow> set cs \<subseteq> {switch ?b False}"
    using take_over_v2_spec[OF t] by blast
  obtain st1 ok1 where x: "Execute_selected V r True st0 = (st1, ok1)" by (meson surj_pair)
  have s1: "sent r st (cs @ [switch ?b True]) st1" and b1: "ok1 \<longrightarrow> \<not> b_isBusy (bridges_at (st_store st1) r)"
    using Execute_selected_spec[OF x] sent_trans[OF cs(1)] sent_switch[OF cs(1)] by metis+
  let ?forced = "\<not> ok1 \<and> b_isBusy (bridges_at (st_store st1) r) \<and> level \<noteq> ACTIVATION_OVERRIDELEVEL_NEVER"
  obtain st2 ok2 where x2: "(if ?forced then force_start V level r st1 else (st1, ok1)) = (st2, ok2)"
    by (meson surj_pair)
  obtain ds where ds: "sent r st ((cs @ [switch ?b True]) @ ds) st2" "level = ACTIVATION_OVERRIDELEVEL_NEVER \<longrightarrow> ds = []"
    "ds = [] \<or> (\<exists>es. ds = es @ [switch ?b False, switch ?b True] \<and> length es \<le> 1
       \<and> (level \<noteq> ACTIVATION_OVERRIDELEVEL_ALWAYS \<longrightarrow> es = []))"
    "ok2 \<longrightarrow> \<not> b_isBusy (bridges_at (st_store st2) r)"
  proof (cases ?forced)
    case True
    then have f: "force_start V level r st1 = (st2, ok2)" using x2 by simp
    show ?thesis
      using force_start_spec[OF f] sent_trans[OF s1] sent_switch[OF s1] True that by metis
  next
    case False
    then have e: "st2 = st1" "ok2 = ok1" using x2 by auto
    show ?thesis by (rule that[of "[]"]) (use s1 b1 e in auto)
  qed
  have fin: "sent r st cs' (st2\<lparr>st_store := upd_group g f (st_store st2)\<rparr>)"
    if "\<And>x. g_id (f x) = g_id x" "sent r st cs' st2" for g f cs'
    using that group_target[of f r "st_store st2" g] same_target_trans by (fastforce simp: sent_def)
  have "sent r st (cs @ [switch ?b True] @ ds) st'"
    using assms t x x2 ds(1)
    by (auto simp: StartStream_def Let_def intro!: fin split: if_splits option.splits)
  moreover have "owns_active_group (st_store st') (bridges_at (st_store st') r) \<and> \<not> b_isBusy (bridges_at (st_store st') r)"
    if res: "result"
  proof -
    obtain g where g: "GetGroup (st_store st2) (bridges_at (st_store st2) r) = Some g" "ok2"
      "st' = st2\<lparr>st_store := upd_group g (\<lambda>x. x\<lparr>g_active := True, g_owner := b_appId (bridges_at (st_store st2) r)\<rparr>) (st_store st2)\<rparr>"
      using assms t x x2 res by (auto simp: StartStream_def Let_def split: if_splits option.splits)
    have "GetGroup (st_store st') (bridges_at (st_store st') r) = Some g"
      using g(1) by (simp add: g(3) upd_group_GetGroup) (simp add: upd_group_def)
    then show ?thesis using g ds(4) by (simp add: owns_active_group_def upd_group_def)
  qed
  ultimately show ?thesis using cs(2-4) ds(2,3) by (intro exI[of _ cs] exI[of _ ds]) auto
qed

section \<open>Properties\<close>

text \<open>
  C14 (safety). A start sends at most five requests. Unless the application allows it to override
  any session, all of them concern the selected group, and if it allows no override at all the only
  request is the one that starts the selected group. When the start succeeds, the bridge is not
  busy and its selected group is active and owned by the application.
\<close>

theorem start_respects_override_level:
  assumes "StartStream V level r st = Some (st', result)"
  shows "\<exists>cs. st_calls st' = st_calls st @ cs \<and> length cs \<le> 5
    \<and> (level \<noteq> ACTIVATION_OVERRIDELEVEL_ALWAYS \<longrightarrow> fst ` set cs = {GetSelectedGroupUrl (bridges_at (st_store st) r)})
    \<and> (level = ACTIVATION_OVERRIDELEVEL_NEVER \<longrightarrow> cs = [switch (bridges_at (st_store st) r) True])
    \<and> (result \<longrightarrow> owns_active_group (st_store st') (bridges_at (st_store st') r)
         \<and> \<not> b_isBusy (bridges_at (st_store st') r))"
proof -
  obtain cs ds where s: "sent r st (cs @ [switch (bridges_at (st_store st) r) True] @ ds) st'" "length cs \<le> 1"
    "level = ACTIVATION_OVERRIDELEVEL_NEVER \<longrightarrow> cs = [] \<and> ds = []"
    "level = ACTIVATION_OVERRIDELEVEL_SAMEGROUP \<longrightarrow> set cs \<subseteq> {switch (bridges_at (st_store st) r) False}"
    "ds = [] \<or> (\<exists>es. ds = es @ [switch (bridges_at (st_store st) r) False, switch (bridges_at (st_store st) r) True]
         \<and> length es \<le> 1 \<and> (level \<noteq> ACTIVATION_OVERRIDELEVEL_ALWAYS \<longrightarrow> es = []))"
    "result \<longrightarrow> \<not> b_isBusy (bridges_at (st_store st') r) \<and> owns_active_group (st_store st') (bridges_at (st_store st') r)"
    using StartStream_spec[OF assms] by blast
  have "fst ` set (cs @ [switch (bridges_at (st_store st) r) True] @ ds) = {GetSelectedGroupUrl (bridges_at (st_store st) r)}"
    if "level \<noteq> ACTIVATION_OVERRIDELEVEL_ALWAYS"
    using that s(3,4,5) by (cases level) (auto simp: switch_def)
  then show ?thesis using s by (intro exI[of _ "cs @ [switch (bridges_at (st_store st) r) True] @ ds"]) (auto simp: sent_def)
qed

definition busy_error :: json where
  "busy_error = JArray [JNode [(''error'', JNode [(''type'', JNumber 307)])]]"

definition gone_error :: json where
  "gone_error = JArray [JNode [(''error'', JNode [(''type'', JNumber 3)])]]"

definition sample_env_of :: "(nat \<Rightarrow> http_answer) \<Rightarrow> starter_env" where
  "sample_env_of f = \<lparr>sv_lib = \<lparr>jl_text = (\<lambda>_. []), jl_number = (\<lambda>_. 0), jl_bool = (\<lambda>_. False)\<rparr>,
     sv_http = (\<lambda>cs. f (length cs))\<rparr>"

definition v1_starter :: starter where
  "v1_starter = \<lparr>st_store = \<lparr>bridges_at = (\<lambda>_. (new_bridge_value ''id'' ''10.0.0.2'' True BridgeSettings_default 1)
       \<lparr>b_selectedGroup := ''5'', b_user := ''me'', b_appId := ''me''\<rparr>),
     grouplists_at = (\<lambda>_. [2]), groups_at = (\<lambda>_. Group_new\<lparr>g_id := ''5''\<rparr>), next_ref = 3\<rparr>, st_calls = []\<rparr>"

lemma v1_store_simps:
  "bridges_at (st_store v1_starter) r = (new_bridge_value ''id'' ''10.0.0.2'' True BridgeSettings_default 1)
     \<lparr>b_selectedGroup := ''5'', b_user := ''me'', b_appId := ''me''\<rparr>"
  "grouplists_at (st_store v1_starter) = (\<lambda>_. [2])" "st_calls v1_starter = []"
  "groups_at (st_store v1_starter) = (\<lambda>_. Group_new\<lparr>g_id := ''5''\<rparr>)"
  by (simp_all add: v1_starter_def)

lemmas starter_run = StartStream_def take_over_v2_def force_start_def Execute_selected_def Execute_url_def
  DeactivateGroup_def CheckForErrors_def error_type_v1_def IsNotExistingOrInvalidGroup_def DeleteGroup_def
  keep_certificate_def upd_bridge_def upd_grouplist_def upd_group_def sample_env_of_def busy_error_def gone_error_def
  GetGroup_def GetGroupById_def GetGroupsOwnedByOtherClient_def IsSupportingClipV2_def new_bridge_value_def
  Group_new_def v1_store_simps Let_def

theorem start_respects_override_level_witness:
  "\<exists>st'. StartStream (sample_env_of (\<lambda>_. Response [] (JArray []))) ACTIVATION_OVERRIDELEVEL_NEVER 0 v1_starter = Some (st', True)
     \<and> st_calls st' = [switch (bridges_at (st_store v1_starter) 0) True]"
proof -
  let ?V = "sample_env_of (\<lambda>_. Response [] (JArray []))"
  obtain st' where r: "StartStream ?V ACTIVATION_OVERRIDELEVEL_NEVER 0 v1_starter = Some (st', True)"
    by (simp add: starter_run)
  from start_respects_override_level[OF r] show ?thesis using r by (auto simp: v1_store_simps)
qed

lemma take_over_v2_returns:
  "GetGroup (st_store st) (bridges_at (st_store st) r) \<noteq> None \<Longrightarrow> take_over_v2 V level r st \<noteq> None"
  by (cases level; cases "GetGroupsOwnedByOtherClient (st_store st) (bridges_at (st_store st) r)")
     (auto simp: take_over_v2_def Let_def)

text \<open>
  With a bridge of version 2 whose selected group exists, a start never dereferences the null
  pointer of a group. With a version 1 bridge it does: when the bridge is busy, does not know the
  group when it is asked to stop it (the group is deleted then), and accepts the second start.
\<close>

lemma start_v2_returns:
  assumes v2: "IsSupportingClipV2 (bridges_at (st_store st) r)"
    and g: "GetGroup (st_store st) (bridges_at (st_store st) r) \<noteq> None"
  shows "StartStream V level r st \<noteq> None"
proof
  assume none: "StartStream V level r st = None"
  have kept: "GetGroup (st_store s) (bridges_at (st_store s) r) \<noteq> None" if "sent r st cs s" for cs s
    using same_target_GetGroupById(2)[of r "st_store st" "st_store s", OF _ v2] that g by (metis sent_def)
  obtain st0 where t: "take_over_v2 V level r st = Some st0" using take_over_v2_returns[OF g] by blast
  obtain cs where cs: "sent r st cs st0" using take_over_v2_spec[OF t] by blast
  obtain st1 ok1 where x: "Execute_selected V r True st0 = (st1, ok1)" by (meson surj_pair)
  have s1: "sent r st (cs @ [switch (bridges_at (st_store st0) r) True]) st1"
    using sent_trans[OF cs] Execute_selected_spec[OF x] by blast
  obtain st2 ok2 where x2: "(if \<not> ok1 \<and> b_isBusy (bridges_at (st_store st1) r) \<and> level \<noteq> ACTIVATION_OVERRIDELEVEL_NEVER
      then force_start V level r st1 else (st1, ok1)) = (st2, ok2)" by (meson surj_pair)
  have "\<exists>ds. sent r st ds st2"
    using x2 s1 sent_trans[OF s1] force_start_spec[of V level r st1 st2 ok2] by (metis prod.inject)
  then obtain sel where "GetGroup (st_store st2) (bridges_at (st_store st2) r) = Some sel" using kept by blast
  with none t x x2 show False
    unfolding StartStream_def Let_def by (simp del: if_split split: if_split_asm)
qed

lemma start_dereferences_null:
  "GetGroup (st_store v1_starter) (bridges_at (st_store v1_starter) 0) \<noteq> None
   \<and> StartStream (sample_env_of (\<lambda>n. Response [] (if n = 1 then busy_error else if n = 2 then gone_error else JArray [])))
       ACTIVATION_OVERRIDELEVEL_SAMEGROUP 0 v1_starter = None"
  by (simp add: starter_run)

end
