(* ===== verification/ProtocolSerializer.thy ===== *)
theory ProtocolSerializer imports DataModel "HOL-Library.Word" begin

text \<open>
  \<open>huestream/stream/ProtocolSerializer\<close>: the packets sent to the bridge. A payload is a list of
  bytes; \<open>std::stoul\<close> throws for the identifier of a light that is no number, and the exception
  leaves \<open>Serialize\<close>. Colours are real numbers (the code has \<open>double\<close>; \<open>color * 65535\<close> is exact up
  to the rounding of a product).
\<close>

unbundle bit_operations_syntax

section \<open>Packets\<close>

datatype ColorSpace = COLORSPACE_RGB | COLORSPACE_XYBRI

record StreamOptions =
  so_colorSpace :: ColorSpace
  so_group :: Group
  so_useClipV2 :: bool

definition color_space_byte :: "ColorSpace \<Rightarrow> 8 word" where
  "color_space_byte c = (case c of COLORSPACE_RGB \<Rightarrow> 0x00 | COLORSPACE_XYBRI \<Rightarrow> 0x01)"

definition byte_word :: "char \<Rightarrow> 8 word" where
  "byte_word c = word_of_nat (byte_of c)"

definition packet_header :: "StreamOptions \<Rightarrow> 8 word \<Rightarrow> 8 word list" where
  "packet_header options seqNr =
     map byte_word ''HueStream'' @ [if so_useClipV2 options then 0x02 else 0x01, 0x00, seqNr, 0x00, 0x00,
       color_space_byte (so_colorSpace options), 0x00]"

definition hi :: "16 word \<Rightarrow> 8 word" where "hi w = ucast (drop_bit 8 (w AND 0xff00))"
definition lo :: "16 word \<Rightarrow> 8 word" where "lo w = ucast (w AND 0x00ff)"

text \<open>\<open>static_cast<uint16_t>\<close> of a value between 0 and 65535 cuts the fraction off.\<close>

definition channel16 :: "real \<Rightarrow> 16 word" where
  "channel16 c = word_of_int \<lfloor>c * 65535\<rfloor>"

definition light_packet :: "bool \<Rightarrow> 16 word \<Rightarrow> Color \<Rightarrow> 8 word list" where
  "light_packet useClipV2 i c0 =
     (let c = Color_Clamp c0; r = channel16 (red c); g = channel16 (green c); b = channel16 (blue c);
          (addr, i') = (if useClipV2 then ([], i)
                        else if i \<ge> 100 then ([0x01], i - 100) else ([0x00], i))
      in addr @ (if useClipV2 then [] else [hi i']) @ [lo i', hi r, lo r, hi g, lo g, hi b, lo b])"

fun serialize_lights :: "bool \<Rightarrow> Light list \<Rightarrow> 8 word list \<Rightarrow> stdexcept + 8 word list" where
  "serialize_lights useClipV2 [] payload = Inr payload"
| "serialize_lights useClipV2 (l # ls) payload =
     (case stoul (l_id l) of
        Inl e \<Rightarrow> Inl e
      | Inr i \<Rightarrow> serialize_lights useClipV2 ls (payload @ light_packet useClipV2 (word_of_int i) (l_color l)))"

definition Serialize :: "StreamOptions \<Rightarrow> 8 word \<Rightarrow> stdexcept + 8 word list" where
  "Serialize options seqNr =
     (let payload = packet_header options seqNr
            @ (if so_useClipV2 options then map byte_word (g_id (so_group options)) else [])
      in serialize_lights (so_useClipV2 options) (g_lights (so_group options)) payload)"

section \<open>Reading a packet\<close>

text \<open>
  The receiver's reading of the format: for version 1 the entries have nine bytes, an address type
  (0 a light, 1 a group, numbered from 100 by the sender), a 16-bit address and three 16-bit values;
  for version 2 seven bytes, with a channel number of one byte.
\<close>

definition word16 :: "8 word \<Rightarrow> 8 word \<Rightarrow> nat" where
  "word16 h l = 256 * unat h + unat l"

fun read_v1 :: "8 word list \<Rightarrow> (nat \<times> nat \<times> nat \<times> nat) list" where
  "read_v1 (t # ih # il # rh # rl # gh # gl # bh # bl # rest) =
     (word16 ih il + (if t = 1 then 100 else 0), word16 rh rl, word16 gh gl, word16 bh bl) # read_v1 rest"
| "read_v1 _ = []"

fun read_v2 :: "8 word list \<Rightarrow> (nat \<times> nat \<times> nat \<times> nat) list" where
  "read_v2 (i # rh # rl # gh # gl # bh # bl # rest) =
     (unat i, word16 rh rl, word16 gh gl, word16 bh bl) # read_v2 rest"
| "read_v2 _ = []"

definition sent_color :: "real \<Rightarrow> nat" where
  "sent_color c = nat \<lfloor>clamp01 c * 65535\<rfloor>"

definition sent_entry :: "nat \<Rightarrow> int \<Rightarrow> Color \<Rightarrow> nat \<times> nat \<times> nat \<times> nat" where
  "sent_entry m i c = (nat (i mod int m), sent_color (red c), sent_color (green c), sent_color (blue c))"

lemma low_byte: "uint (ucast (x AND 0xff) :: 8 word) = uint (x :: 16 word) mod 256"
proof -
  have "x AND 0xff = take_bit 8 x" by (simp add: take_bit_eq_mask mask_eq_exp_minus_1)
  then have "uint (ucast (x AND 0xff) :: 8 word) = take_bit 8 (take_bit 8 (uint x))"
    by (simp only: unsigned_ucast_eq unsigned_take_bit_eq) simp
  then show ?thesis by (simp add: take_bit_eq_mod)
qed

lemma uint_lo: "uint (lo w) = uint w mod 256"
  by (simp add: lo_def low_byte)

lemma uint_hi: "uint (hi w) = uint w div 256"
proof -
  have "drop_bit 8 (w AND 0xff00) = drop_bit 8 w AND 0xff" by (simp add: drop_bit_and)
  then have "uint (hi w) = uint (drop_bit 8 w) mod 256" unfolding hi_def by (simp only: low_byte)
  moreover have "uint (drop_bit 8 w) = uint w div 256" by (simp add: drop_bit_eq_div uint_div)
  moreover have "uint w div 256 < 256" "0 \<le> uint w div 256" using uint_lt2p[of w] by (simp_all add: pos_imp_zdiv_nonneg_iff)
  ultimately show ?thesis by (simp add: mod_pos_pos_trivial)
qed

lemma hi_lo: "word16 (hi w) (lo w) = unat w"
proof -
  have "int (word16 (hi w) (lo w)) = uint w"
    by (simp add: word16_def uint_hi uint_lo)
  then show ?thesis by (metis nat_int unat_eq_nat_uint)
qed

lemma unat_channel16: "unat (channel16 (clamp01 c)) = sent_color c"
proof -
  have "0 \<le> clamp01 c * 65535" "clamp01 c * 65535 \<le> 65535" using clamp01_range[of c] by auto
  then have "0 \<le> \<lfloor>clamp01 c * 65535\<rfloor>" "\<lfloor>clamp01 c * 65535\<rfloor> < 65536" by linarith+
  then show ?thesis
    by (simp add: channel16_def sent_color_def unat_eq_nat_uint uint_word_of_int)
qed

lemma unat_word_of_int_16: "unat (word_of_int i :: 16 word) = nat (i mod 65536)"
  by (simp add: unat_eq_nat_uint uint_word_of_int)

lemma read_v1_light:
  "read_v1 (light_packet False (word_of_int i) c @ rest) = sent_entry 65536 i c # read_v1 rest"
proof -
  let ?w = "word_of_int i :: 16 word"
  have g: "unat (?w - 100) + 100 = unat ?w" if "100 \<le> ?w"
    using that by (simp add: unat_sub word_le_nat_alt)
  show ?thesis
    using g by (auto simp: light_packet_def Let_def hi_lo Color_Clamp_def unat_channel16
        sent_entry_def unat_word_of_int_16)
qed

lemma read_v2_light:
  "read_v2 (light_packet True (word_of_int i) c @ rest) = sent_entry 256 i c # read_v2 rest"
proof -
  have "unat (lo (word_of_int i)) = nat (i mod 256)"
    by (simp add: unat_eq_nat_uint uint_lo uint_word_of_int mod_mod_cancel)
  then show ?thesis
    by (simp add: light_packet_def Let_def hi_lo Color_Clamp_def unat_channel16 sent_entry_def)
qed

lemma length_light_packet: "length (light_packet v2 i c) = (if v2 then 7 else 9)"
  by (simp add: light_packet_def Let_def)

lemma serialize_lights_eq:
  assumes "list_all2 (\<lambda>l i. stoul (l_id l) = Inr i) ls is"
  shows "serialize_lights v2 ls p
    = Inr (p @ concat (map2 (\<lambda>l i. light_packet v2 (word_of_int i) (l_color l)) ls is))"
  using assms by (induction arbitrary: p rule: list_all2_induct) simp_all

lemma read_v1_lights:
  "read_v1 (concat (map2 (\<lambda>l i. light_packet False (word_of_int i) (l_color l)) ls is))
   = map2 (\<lambda>l i. sent_entry 65536 i (l_color l)) ls is"
  by (induction ls "is" rule: list_induct2') (simp_all add: read_v1_light)

lemma read_v2_lights:
  "read_v2 (concat (map2 (\<lambda>l i. light_packet True (word_of_int i) (l_color l)) ls is))
   = map2 (\<lambda>l i. sent_entry 256 i (l_color l)) ls is"
  by (induction ls "is" rule: list_induct2') (simp_all add: read_v2_light)

lemma length_lights:
  "length ls = length is \<Longrightarrow>
   length (concat (map2 (\<lambda>l i. light_packet v2 (word_of_int i) (l_color l)) ls is)) = (if v2 then 7 else 9) * length ls"
  by (induction ls "is" rule: list_induct2) (simp_all add: length_light_packet)

lemma sent_color_close: "0 \<le> c \<Longrightarrow> c \<le> 1 \<Longrightarrow> \<bar>real (sent_color c) / 65535 - c\<bar> < 1 / 65535"
proof -
  assume c: "0 \<le> c" "c \<le> 1"
  then have "real (sent_color c) = real_of_int \<lfloor>c * 65535\<rfloor>" by (simp add: sent_color_def clamp01_def)
  then have "real (sent_color c) \<le> c * 65535" "c * 65535 < real (sent_color c) + 1" by linarith+
  then show ?thesis by (simp add: abs_less_iff field_simps)
qed

section \<open>Properties\<close>

text \<open>
  C13 (roundtrip). When every light of the group has a number as identifier, a packet is made, and
  the receiver reads from it what was put in: the sequence number, and for each light in order its
  number (modulo 65536, and modulo 256 in version 2) and its colour, limited to the range from 0
  to 1, as 16-bit values that are off by less than one step. The length is fixed by the
  number of lights.
\<close>

theorem packet_read_back:
  assumes "list_all2 (\<lambda>l i. stoul (l_id l) = Inr i) (g_lights (so_group options)) is"
  obtains payload where "Serialize options seqNr = Inr payload" "payload ! 11 = seqNr"
    "take 16 payload = packet_header options seqNr"
    "\<not> so_useClipV2 options \<Longrightarrow> length payload = 16 + 9 * length is
       \<and> read_v1 (drop 16 payload) = map2 (\<lambda>l i. sent_entry 65536 i (l_color l)) (g_lights (so_group options)) is"
    "so_useClipV2 options \<Longrightarrow> length payload = 16 + length (g_id (so_group options)) + 7 * length is
       \<and> read_v2 (drop (16 + length (g_id (so_group options))) payload)
         = map2 (\<lambda>l i. sent_entry 256 i (l_color l)) (g_lights (so_group options)) is"
    "\<And>c. 0 \<le> c \<Longrightarrow> c \<le> 1 \<Longrightarrow> \<bar>real (sent_color c) / 65535 - c\<bar> < 1 / 65535"
proof -
  let ?ls = "g_lights (so_group options)" and ?gid = "map byte_word (g_id (so_group options))"
  let ?body = "\<lambda>v2. concat (map2 (\<lambda>l i. light_packet v2 (word_of_int i) (l_color l)) ?ls is)"
  have len: "length (packet_header options seqNr) = 16" by (simp add: packet_header_def)
  have nth: "packet_header options seqNr ! 11 = seqNr" by (simp add: packet_header_def)
  have ls: "length ?ls = length is" using assms by (rule list_all2_lengthD)
  let ?payload = "packet_header options seqNr
    @ (if so_useClipV2 options then ?gid else []) @ ?body (so_useClipV2 options)"
  show ?thesis
  proof (rule that[OF _ _ _ _ _ sent_color_close])
    show "Serialize options seqNr = Inr ?payload"
      by (simp add: Serialize_def Let_def serialize_lights_eq[OF assms])
    show "?payload ! 11 = seqNr" using len nth by (simp add: nth_append_left)
    show "take 16 ?payload = packet_header options seqNr" using len by simp
    show "length ?payload = 16 + 9 * length is \<and> read_v1 (drop 16 ?payload)
        = map2 (\<lambda>l i. sent_entry 65536 i (l_color l)) ?ls is" if "\<not> so_useClipV2 options"
      using that len length_lights[OF ls, of False] ls by (simp add: read_v1_lights)
    show "length ?payload = 16 + length (g_id (so_group options)) + 7 * length is
        \<and> read_v2 (drop (16 + length (g_id (so_group options))) ?payload)
        = map2 (\<lambda>l i. sent_entry 256 i (l_color l)) ?ls is" if "so_useClipV2 options"
      using that len length_lights[OF ls, of True] ls by (simp add: read_v2_lights)
  qed
qed

definition sample_options :: StreamOptions where
  "sample_options = \<lparr>so_colorSpace = COLORSPACE_RGB, so_group = Group_new\<lparr>g_lights :=
     [Light_new ''7'' \<lparr>loc_x = 0, loc_y = 0, loc_z = 0\<rparr> [] [] [] True False]\<rparr>, so_useClipV2 = False\<rparr>"

theorem packet_read_back_witness:
  "\<exists>payload. Serialize sample_options 5 = Inr payload \<and> read_v1 (drop 16 payload) = [(7, 0, 0, 0)]"
proof -
  have "list_all2 (\<lambda>l i. stoul (l_id l) = Inr i) (g_lights (so_group sample_options)) [7]"
    by (simp add: sample_options_def Light_new_def) code_simp
  from packet_read_back[OF this, of 5] show ?thesis
    by (fastforce simp: sample_options_def Light_new_def sent_entry_def sent_color_def clamp01_def
        Color_default_def Color_rgba_def)
qed

lemma serialize_lights_Inr_iff:
  "(\<exists>p'. serialize_lights v2 ls p = Inr p') \<longleftrightarrow> list_all (\<lambda>l. \<exists>i. stoul (l_id l) = Inr i) ls"
  by (induction v2 ls p rule: serialize_lights.induct) (auto split: sum.splits)

text \<open>
  One light whose identifier is no number makes the whole group unfit for streaming: a
  packet is made exactly when every identifier is a number, and otherwise the exception reaches
  the caller (the render thread, which does not catch it).
\<close>

theorem packet_needs_numbers:
  "(\<exists>payload. Serialize options seqNr = Inr payload)
     \<longleftrightarrow> list_all (\<lambda>l. \<exists>i. stoul (l_id l) = Inr i) (g_lights (so_group options))"
  by (simp add: Serialize_def Let_def serialize_lights_Inr_iff)

end
