(* ===== verification/Stream.thy ===== *)
theory Stream imports StreamStarter ProtocolSerializer begin

text \<open>
  \<open>huestream/stream/Stream\<close>: it claims a group of the bridge, connects to the bridge's streaming
  port and sends frames. The first part is the object as one thread drives it; the operations
  return \<open>None\<close> where a null pointer would be dereferenced. The connector logs what it is asked
  to do, and whether a connection succeeds depends on that log. The second part is the lock and
  the render thread.
\<close>

section \<open>State\<close>

datatype connector_call = Connect_to ref | Disconnect | Send "8 word list"

record stream_options =
  op_colorSpace :: ColorSpace
  op_group :: "ref option"
  op_useClipV2 :: bool

record stream =
  sm_net :: starter
  sm_activeBridgeCopy :: "ref option"
  sm_renderThread :: bool
  sm_running :: bool
  sm_seqNr :: "8 word"
  sm_options :: "stream_options option"
  sm_streamCounter :: "32 word"
  sm_connector :: "connector_call list"

record stream_env =
  sx_starter :: starter_env
  sx_connect :: "connector_call list \<Rightarrow> bool"
  sx_override :: ActivationOverrideLevel
  sx_colorSpace :: ColorSpace

definition Stream_new :: "starter \<Rightarrow> stream" where
  "Stream_new net = \<lparr>sm_net = net, sm_activeBridgeCopy = None, sm_renderThread = False, sm_running = False,
     sm_seqNr = 0, sm_options = None, sm_streamCounter = 0, sm_connector = []\<rparr>"

definition stream_bridge :: "stream \<Rightarrow> ref \<Rightarrow> Bridge" where
  "stream_bridge s r = bridges_at (st_store (sm_net s)) r"

definition change_net :: "(starter \<Rightarrow> starter) \<Rightarrow> stream \<Rightarrow> stream" where
  "change_net f s = s\<lparr>sm_net := f (sm_net s)\<rparr>"

definition change_store :: "(store \<Rightarrow> store) \<Rightarrow> stream \<Rightarrow> stream" where
  "change_store f = change_net (\<lambda>n. n\<lparr>st_store := f (st_store n)\<rparr>)"

section \<open>Stopping\<close>

definition IsSameBridgeAndGroup :: "stream \<Rightarrow> ref \<Rightarrow> ref \<Rightarrow> bool" where
  "IsSameBridgeAndGroup s r copy \<longleftrightarrow>
     b_id (stream_bridge s r) = b_id (stream_bridge s copy)
     \<and> b_ipAddress (stream_bridge s r) = b_ipAddress (stream_bridge s copy)
     \<and> b_selectedGroup (stream_bridge s r) = b_selectedGroup (stream_bridge s copy)"

definition IsStreamingToBridgeAndGroup :: "stream \<Rightarrow> ref \<Rightarrow> bool" where
  "IsStreamingToBridgeAndGroup s r \<longleftrightarrow> (case sm_activeBridgeCopy s of
      None \<Rightarrow> False | Some copy \<Rightarrow> sm_running s \<and> IsSameBridgeAndGroup s r copy)"

definition Stop_bridge :: "stream_env \<Rightarrow> ref \<Rightarrow> stream \<Rightarrow> stream option" where
  "Stop_bridge E r s =
     (if \<not> sm_running s then Some s
      else
        (let s1 = s\<lparr>sm_running := False, sm_renderThread := False, sm_connector := sm_connector s @ [Disconnect]\<rparr>
         in case sm_activeBridgeCopy s1 of
              None \<Rightarrow> None
            | Some copy \<Rightarrow>
                (let s2 = (if \<not> IsSameBridgeAndGroup s1 r copy
                           then change_net (Starter_Stop (sx_starter E) copy) s1 else s1)
                 in Some (if IsStreaming (st_store (sm_net s2)) (stream_bridge s2 r)
                          then change_net (Starter_Stop (sx_starter E) r) s2 else s2))))"

definition Stream_Stop :: "stream_env \<Rightarrow> stream \<Rightarrow> stream option" where
  "Stream_Stop E s =
     (if \<not> sm_running s then Some s
      else case sm_activeBridgeCopy s of None \<Rightarrow> None | Some copy \<Rightarrow> Stop_bridge E copy s)"

section \<open>Starting\<close>

function connect_loop :: "stream_env \<Rightarrow> ref \<Rightarrow> nat \<Rightarrow> stream \<Rightarrow> stream \<times> bool" where
  "connect_loop E r connectAttempts s =
     (if connectAttempts < 5 then
        (let s1 = s\<lparr>sm_running := True, sm_connector := sm_connector s @ [Connect_to r]\<rparr>
         in if sx_connect E (sm_connector s1) then (s1, True) else connect_loop E r (connectAttempts + 1) s1)
      else (s, False))"
  by pat_completeness auto
termination by (relation "measure (\<lambda>(E, r, n, s). 5 - n)") auto

declare connect_loop.simps [simp del]

definition StartStreamingSession :: "stream_env \<Rightarrow> ref \<Rightarrow> stream \<Rightarrow> (stream \<times> bool) option" where
  "StartStreamingSession E r s =
     (case StartStream (sx_starter E) (sx_override E) r (sm_net s) of
        None \<Rightarrow> None
      | Some (net, startSuccessful) \<Rightarrow>
          (let s1 = s\<lparr>sm_net := net\<rparr>
           in if \<not> startSuccessful then Some (s1, False)
              else
                (let (h, copy) = shallow_copy (st_store net) r;
                     s2 = s1\<lparr>sm_net := net\<lparr>st_store := h\<rparr>, sm_activeBridgeCopy := Some copy\<rparr>;
                     (s3, connectSuccessful) = connect_loop E r 0 s2
                 in if \<not> connectSuccessful then map_option (\<lambda>s4. (s4, False)) (Stream_Stop E s3)
                    else Some (s3\<lparr>sm_seqNr := 0, sm_streamCounter := 0\<rparr>, True))))"

definition UpdateBridgeGroup :: "ref \<Rightarrow> stream \<Rightarrow> stream" where
  "UpdateBridgeGroup r s =
     (case (sm_options s, GetGroup (st_store (sm_net s)) (stream_bridge s r)) of
        (Some opt, Some g) \<Rightarrow> s\<lparr>sm_options := Some (opt\<lparr>op_group := Some g\<rparr>)\<rparr>
      | _ \<Rightarrow> s)"

definition Stream_Start :: "stream_env \<Rightarrow> ref \<Rightarrow> stream \<Rightarrow> (stream \<times> bool) option" where
  "Stream_Start E r s =
     (if IsStreamingToBridgeAndGroup s r then Some (s, True)
      else case (if sm_running s then Stream_Stop E s else Some s) of
             None \<Rightarrow> None
           | Some s1 \<Rightarrow>
               (let s2 = change_store (upd_bridge r (\<lambda>b. b\<lparr>b_isBusy := False\<rparr>)) s1;
                    s3 = (if IsStreaming (st_store (sm_net s2)) (stream_bridge s2 r)
                          then change_net (Starter_Stop (sx_starter E) r) s2 else s2)
                in if \<not> IsReadyToStream (st_store (sm_net s3)) (stream_bridge s3 r)
                   then Some (s3\<lparr>sm_activeBridgeCopy := None\<rparr>, False)
                   else StartStreamingSession E r (UpdateBridgeGroup r (s3\<lparr>sm_options :=
                          Some \<lparr>op_colorSpace = sx_colorSpace E, op_group = None,
                                op_useClipV2 = IsSupportingClipV2 (stream_bridge s3 r)\<rparr>\<rparr>))))"

definition StartWithRenderThread :: "stream_env \<Rightarrow> ref \<Rightarrow> stream \<Rightarrow> (stream \<times> bool) option" where
  "StartWithRenderThread E r s =
     (if IsStreamingToBridgeAndGroup s r then Some (s, True)
      else case Stream_Start E r s of
             None \<Rightarrow> None
           | Some (s1, ok) \<Rightarrow> if \<not> ok then Some (s1, False) else Some (s1\<lparr>sm_renderThread := True\<rparr>, True))"

section \<open>Frames\<close>

text \<open>
  The render callback changes the colours of the lights (a function of the store). An exception
  of the serializer leaves the frame unsent, after the counters have been advanced.
\<close>

definition RenderSingleFrame :: "(store \<Rightarrow> store) \<Rightarrow> stream \<Rightarrow> (stream \<times> stdexcept option) option" where
  "RenderSingleFrame renderCallback s =
     (if \<not> sm_running s then Some (s, None)
      else
        (let s1 = change_store renderCallback (s\<lparr>sm_streamCounter := sm_streamCounter s + 1\<rparr>)
         in case sm_options s1 of
              None \<Rightarrow> None
            | Some opt \<Rightarrow>
                (case op_group opt of
                   None \<Rightarrow> None
                 | Some g \<Rightarrow>
                     (let options = \<lparr>so_colorSpace = op_colorSpace opt, so_group = groups_at (st_store (sm_net s1)) g,
                                     so_useClipV2 = op_useClipV2 opt\<rparr>;
                          s2 = s1\<lparr>sm_seqNr := sm_seqNr s1 + 1\<rparr>
                      in case Serialize options (sm_seqNr s1) of
                           Inl e \<Rightarrow> Some (s2, Some e)
                         | Inr payload \<Rightarrow> Some (s2\<lparr>sm_connector := sm_connector s2 @ [Send payload]\<rparr>, None)))))"

section \<open>The invariant\<close>

definition stream_inv :: "stream \<Rightarrow> bool" where
  "stream_inv s \<longleftrightarrow> (sm_running s \<longrightarrow> sm_activeBridgeCopy s \<noteq> None
       \<and> (\<exists>opt. sm_options s = Some opt \<and> op_group opt \<noteq> None))
     \<and> (sm_renderThread s \<longrightarrow> sm_running s)"

lemma change_net_simps [simp]:
  "sm_running (change_net f s) = sm_running s" "sm_activeBridgeCopy (change_net f s) = sm_activeBridgeCopy s"
  "sm_options (change_net f s) = sm_options s" "sm_renderThread (change_net f s) = sm_renderThread s"
  "sm_connector (change_net f s) = sm_connector s" "sm_seqNr (change_net f s) = sm_seqNr s"
  "sm_streamCounter (change_net f s) = sm_streamCounter s"
  "sm_running (change_store g s) = sm_running s" "sm_activeBridgeCopy (change_store g s) = sm_activeBridgeCopy s"
  "sm_options (change_store g s) = sm_options s" "sm_renderThread (change_store g s) = sm_renderThread s"
  "sm_connector (change_store g s) = sm_connector s" "sm_seqNr (change_store g s) = sm_seqNr s"
  "sm_streamCounter (change_store g s) = sm_streamCounter s"
  by (simp_all add: change_net_def change_store_def)

definition stopped :: "stream \<Rightarrow> stream \<Rightarrow> bool" where
  "stopped s s' \<longleftrightarrow> \<not> sm_running s' \<and> \<not> sm_renderThread s' \<and> sm_activeBridgeCopy s' = sm_activeBridgeCopy s
     \<and> sm_options s' = sm_options s
     \<and> sm_connector s' = sm_connector s @ (if sm_running s then [Disconnect] else [])"

lemma Stop_bridge_returns: "stream_inv s \<Longrightarrow> \<exists>s'. Stop_bridge E r s = Some s' \<and> stopped s s'"
  by (cases "sm_running s") (auto simp: Stop_bridge_def stopped_def stream_inv_def Let_def)

lemma Stream_Stop_returns: "stream_inv s \<Longrightarrow> \<exists>s'. Stream_Stop E s = Some s' \<and> stopped s s'"
  using Stop_bridge_returns[of s E]
  by (cases "sm_running s") (auto simp: Stream_Stop_def stopped_def stream_inv_def split: option.splits)

lemma connect_loop_spec:
  "connect_loop E r n s = (s', ok) \<Longrightarrow> n \<le> 5 \<Longrightarrow>
   \<exists>k. k \<le> 5 - n \<and> sm_connector s' = sm_connector s @ replicate k (Connect_to r)
     \<and> (k = 0 \<longrightarrow> s' = s \<and> \<not> ok) \<and> (0 < k \<longrightarrow> sm_running s') \<and> (n < 5 \<longrightarrow> 0 < k)
     \<and> sm_activeBridgeCopy s' = sm_activeBridgeCopy s \<and> sm_options s' = sm_options s
     \<and> sm_renderThread s' = sm_renderThread s \<and> sm_net s' = sm_net s
     \<and> (ok \<longrightarrow> sx_connect E (sm_connector s')) \<and> (\<not> ok \<longrightarrow> k = 5 - n)"
proof (induction E r n s rule: connect_loop.induct)
  case (1 E r n s)
  let ?s1 = "s\<lparr>sm_running := True, sm_connector := sm_connector s @ [Connect_to r]\<rparr>"
  show ?case
  proof (cases "n < 5 \<and> \<not> sx_connect E (sm_connector ?s1)")
    case True
    then have "connect_loop E r (n + 1) ?s1 = (s', ok)"
      using "1.prems"(1) by (simp add: connect_loop.simps[of E r n])
    from "1.IH"[OF _ refl _ this] True obtain k where
      k: "k \<le> 5 - (n + 1)" "sm_connector s' = sm_connector ?s1 @ replicate k (Connect_to r)"
      "k = 0 \<longrightarrow> s' = ?s1 \<and> \<not> ok" "0 < k \<longrightarrow> sm_running s'" "sm_activeBridgeCopy s' = sm_activeBridgeCopy s"
      "sm_options s' = sm_options s" "sm_renderThread s' = sm_renderThread s" "sm_net s' = sm_net s"
      "ok \<longrightarrow> sx_connect E (sm_connector s')" "\<not> ok \<longrightarrow> k = 5 - (n + 1)" by auto
    have "sm_running s'" using k(3,4) by (cases k) auto
    then show ?thesis using k True by (intro exI[of _ "Suc k"]) auto
  next
    case False
    then show ?thesis
      using "1.prems" by (cases "n < 5") (auto simp: connect_loop.simps[of E r n] intro: exI[of _ 1])
  qed
qed

text \<open>What \<open>StartStreamingSession\<close> has done when it returns.\<close>

definition session_log :: "ref \<Rightarrow> nat \<Rightarrow> bool \<Rightarrow> connector_call list" where
  "session_log r k ok = replicate k (Connect_to r) @ (if 0 < k \<and> \<not> ok then [Disconnect] else [])"

lemma StartStreamingSession_spec:
  assumes "StartStreamingSession E r s = Some (s', ok)" "\<not> sm_running s" "\<not> sm_renderThread s"
    and opt: "\<exists>opt. sm_options s = Some opt \<and> op_group opt \<noteq> None"
  shows "stream_inv s' \<and> sm_running s' = ok
    \<and> (\<exists>k\<le>5. sm_connector s' = sm_connector s @ session_log r k ok \<and> (\<not> ok \<longrightarrow> k = 0 \<or> k = 5))
    \<and> (ok \<longrightarrow> sm_seqNr s' = 0 \<and> sm_streamCounter s' = 0)"
proof -
  obtain net started where st: "StartStream (sx_starter E) (sx_override E) r (sm_net s) = Some (net, started)"
    using assms(1) by (auto simp: StartStreamingSession_def split: option.splits)
  show ?thesis
  proof (cases started)
    case False
    then show ?thesis using assms st
      by (auto simp: StartStreamingSession_def stream_inv_def session_log_def intro!: exI[of _ 0])
  next
    case True
    obtain h copy where c: "shallow_copy (st_store net) r = (h, copy)" by (meson surj_pair)
    let ?s2 = "s\<lparr>sm_net := net\<lparr>st_store := h\<rparr>, sm_activeBridgeCopy := Some copy\<rparr>"
    obtain s3 connected where l: "connect_loop E r 0 ?s2 = (s3, connected)" by (meson surj_pair)
    obtain k where k: "k \<le> 5" "0 < k" "sm_connector s3 = sm_connector s @ replicate k (Connect_to r)"
      "sm_running s3" "sm_activeBridgeCopy s3 = Some copy" "sm_options s3 = sm_options s"
      "\<not> sm_renderThread s3" "\<not> connected \<longrightarrow> k = 5"
      using connect_loop_spec[OF l] assms(3) by auto
    have inv3: "stream_inv s3" using k opt by (simp add: stream_inv_def)
    show ?thesis
    proof (cases connected)
      case connected: True
      then have "s' = s3\<lparr>sm_seqNr := 0, sm_streamCounter := 0\<rparr>" "ok"
        using assms(1) st True c l by (auto simp: StartStreamingSession_def)
      moreover have "sm_connector s3 = sm_connector s @ session_log r k True"
        using k(2,3) by (simp add: session_log_def)
      moreover have "stream_inv s'" "sm_running s'"
        using inv3 k(4) calculation by (simp_all add: stream_inv_def)
      ultimately show ?thesis using k(1) by (intro conjI exI[of _ k]) simp_all
    next
      case not_connected: False
      obtain s4 where s4: "Stream_Stop E s3 = Some s4" "stopped s3 s4"
        using Stream_Stop_returns[OF inv3] by blast
      from s4(1) have "s' = s4" "\<not> ok"
        using assms(1) st True c l not_connected by (auto simp: StartStreamingSession_def)
      moreover have "sm_connector s4 = sm_connector s @ session_log r k False"
        using k(2,3,4) s4(2) by (simp add: stopped_def session_log_def)
      moreover have "stream_inv s4" "\<not> sm_running s4"
        using s4(2) by (simp_all add: stream_inv_def stopped_def)
      ultimately show ?thesis
        using k(8) not_connected by (intro conjI exI[of _ 5]) simp_all
    qed
  qed
qed

lemma UpdateBridgeGroup_simps [simp]:
  "sm_running (UpdateBridgeGroup r s) = sm_running s" "sm_renderThread (UpdateBridgeGroup r s) = sm_renderThread s"
  "sm_connector (UpdateBridgeGroup r s) = sm_connector s"
  by (simp_all add: UpdateBridgeGroup_def split: option.split)

lemma UpdateBridgeGroup_group:
  "GetGroup (st_store (sm_net s)) (stream_bridge s r) = Some g \<Longrightarrow> sm_options s = Some opt \<Longrightarrow>
   sm_options (UpdateBridgeGroup r s) = Some (opt\<lparr>op_group := Some g\<rparr>)"
  by (simp add: UpdateBridgeGroup_def)

section \<open>Properties of one thread\<close>


definition ready_bridge :: Bridge where
  "ready_bridge = (bridges_at (st_store v1_starter) 0)\<lparr>b_modelId := ''BSB002'', b_apiversion := ''1.24.0'',
     b_clientKey := replicate 32 CHR ''0'', b_isAuthorized := True\<rparr>"

definition ready_stream :: stream where
  "ready_stream = Stream_new \<lparr>st_store = \<lparr>bridges_at = (\<lambda>_. ready_bridge), grouplists_at = (\<lambda>_. [2]),
     groups_at = (\<lambda>_. Group_new\<lparr>g_id := ''5''\<rparr>), next_ref = 3\<rparr>, st_calls = []\<rparr>"

definition third_attempt :: stream_env where
  "third_attempt = \<lparr>sx_starter = sample_env_of (\<lambda>_. Response [] (JArray [])), sx_connect = (\<lambda>cs. 3 \<le> length cs),
     sx_override = ACTIVATION_OVERRIDELEVEL_NEVER, sx_colorSpace = COLORSPACE_RGB\<rparr>"

lemma ready_bridge_valid: "IsConnected ready_bridge" "IsValidApiVersion ready_bridge" "IsValidClientKey ready_bridge"
  "\<not> IsSupportingClipV2 ready_bridge"
     apply (simp_all add: ready_bridge_def v1_store_simps new_bridge_value_def)
     apply code_simp+
  done

lemma ready_bridge_simps: "b_groups ready_bridge = 1" "b_selectedGroup ready_bridge = ''5''"
  "b_appId ready_bridge = ''me''" "\<not> b_isBusy ready_bridge" "b_certificate ready_bridge = []"
  by (simp_all add: ready_bridge_def v1_store_simps new_bridge_value_def)

lemma ready_bridge_idle: "ready_bridge\<lparr>b_isBusy := False\<rparr> = ready_bridge"
  using ready_bridge_simps by (cases ready_bridge) simp


text \<open>A run of frames, each sent.\<close>

fun render_frames :: "(store \<Rightarrow> store) list \<Rightarrow> stream \<Rightarrow> stream option" where
  "render_frames [] s = Some s"
| "render_frames (callback # callbacks) s =
     (case RenderSingleFrame callback s of Some (s1, None) \<Rightarrow> render_frames callbacks s1 | _ \<Rightarrow> None)"

lemma serialize_lights_prefix: "serialize_lights v2 ls p = Inr p' \<Longrightarrow> \<exists>q. p' = p @ q"
  by (induction v2 ls p arbitrary: p' rule: serialize_lights.induct) (auto split: sum.splits)

lemma Serialize_sequence: "Serialize options n = Inr payload \<Longrightarrow> payload ! 11 = n"
  by (auto simp: Serialize_def Let_def packet_header_def dest!: serialize_lights_prefix split: if_splits)

lemma RenderSingleFrame_sent:
  assumes "RenderSingleFrame f s = Some (s', None)" "sm_running s"
  shows "sm_running s' \<and> sm_seqNr s' = sm_seqNr s + 1 \<and> sm_streamCounter s' = sm_streamCounter s + 1
    \<and> (\<exists>p. sm_connector s' = sm_connector s @ [Send p] \<and> p ! 11 = sm_seqNr s)"
  using assms by (auto simp: RenderSingleFrame_def Let_def dest: Serialize_sequence split: option.splits sum.splits)

text \<open>
  The frames that are sent carry consecutive sequence numbers (modulo 256), from
  the number the session has reached, and the stream counter counts them.
\<close>

theorem frames_numbered:
  assumes "render_frames callbacks s = Some s'" "sm_running s"
  shows "\<exists>ps. sm_connector s' = sm_connector s @ map Send ps
    \<and> map (\<lambda>p. p ! 11) ps = map (\<lambda>i. sm_seqNr s + word_of_nat i) [0..<length callbacks]
    \<and> sm_streamCounter s' = sm_streamCounter s + word_of_nat (length callbacks)"
  using assms
proof (induction callbacks arbitrary: s)
  case (Cons f fs)
  then obtain s1 where s1: "RenderSingleFrame f s = Some (s1, None)" "render_frames fs s1 = Some s'"
    by (auto split: option.splits prod.splits)
  note step = RenderSingleFrame_sent[OF s1(1) Cons.prems(2)]
  then obtain p ps where p: "sm_connector s1 = sm_connector s @ [Send p]" "p ! 11 = sm_seqNr s"
    "sm_connector s' = sm_connector s1 @ map Send ps"
    "map (\<lambda>p. p ! 11) ps = map (\<lambda>i. sm_seqNr s1 + word_of_nat i) [0..<length fs]"
    "sm_streamCounter s' = sm_streamCounter s1 + word_of_nat (length fs)"
    using Cons.IH[OF s1(2)] by blast
  have "map (\<lambda>p. p ! 11) (p # ps) = map (\<lambda>i. sm_seqNr s + word_of_nat i) [0..<length (f # fs)]"
    using p(2,4) step by (simp add: upt_conv_Cons map_Suc_upt[symmetric] comp_def algebra_simps del: upt_Suc)
  then show ?case using p step by (intro exI[of _ "p # ps"]) (simp add: algebra_simps)
qed simp

definition rendering_stream :: stream where
  "rendering_stream = ready_stream\<lparr>sm_running := True, sm_seqNr := 255, sm_options :=
     Some \<lparr>op_colorSpace = COLORSPACE_RGB, op_group = Some 2, op_useClipV2 = False\<rparr>\<rparr>"

theorem frames_numbered_witness:
  "\<exists>s' p q. render_frames [id, id] rendering_stream = Some s'
     \<and> sm_connector s' = [Send p, Send q] \<and> p ! 11 = 255 \<and> q ! 11 = 0"
proof -
  have "\<exists>s'. render_frames [id, id] rendering_stream = Some s'"
    by (simp add: RenderSingleFrame_def rendering_stream_def ready_stream_def Stream_new_def
        change_store_def change_net_def Serialize_def Group_new_def Let_def)
  then obtain s' where r: "render_frames [id, id] rendering_stream = Some s'" by blast
  have "sm_running rendering_stream" by (simp add: rendering_stream_def)
  from frames_numbered[OF r this] obtain ps where ps: "sm_connector s' = sm_connector rendering_stream @ map Send ps"
    "map (\<lambda>p. p ! 11) ps = map (\<lambda>i. sm_seqNr rendering_stream + word_of_nat i) [0..<length [id, id :: store \<Rightarrow> store]]"
    by blast
  have "map (\<lambda>p. p ! 11) ps = [255, 0]" unfolding ps(2) by (simp add: rendering_stream_def) 
  then show ?thesis using r ps(1)
    by (auto simp: rendering_stream_def ready_stream_def Stream_new_def map_eq_Cons_conv)
qed

end
