(* ===== verification/StreamThreads.thy ===== *)
theory StreamThreads imports Stream begin

text \<open>
  The threads of \<open>huestream/stream/Stream\<close>: the render thread and any number of threads that call
  \<open>Stop\<close>. A step is what a thread does between two points at which another thread can be seen to
  act: a test of \<open>_running\<close> outside the lock, taking \<open>_lock\<close>, the work done while holding it. The
  state keeps the holder of the lock, \<open>_running\<close>, the place of every thread in its code, and what
  the connector was asked to do.
\<close>

section \<open>Threads\<close>

datatype render_pc = R_Head | R_Lock | R_Frame | R_Sleep | R_Exit

datatype stop_pc = S_Idle | S_Lock | S_Check | S_Join | S_Finish | S_Done

datatype stream_thread = Renderer | Stopper nat

datatype stream_event = Frame | Disconnected

record stream_threads =
  th_lock :: "stream_thread option"
  th_running :: bool
  th_render :: render_pc
  th_stop :: "nat \<Rightarrow> stop_pc"
  th_log :: "stream_event list"

definition threads_initial :: stream_threads where
  "threads_initial = \<lparr>th_lock = None, th_running = True, th_render = R_Head, th_stop = (\<lambda>_. S_Idle), th_log = []\<rparr>"

text \<open>\<open>RenderThread\<close> and \<open>RenderSingleFrame\<close>.\<close>

inductive render_step :: "stream_threads \<Rightarrow> stream_threads \<Rightarrow> bool" where
  head: "th_render s = R_Head \<Longrightarrow> render_step s (s\<lparr>th_render := if th_running s then R_Lock else R_Exit\<rparr>)"
| lock: "th_render s = R_Lock \<Longrightarrow> th_lock s = None \<Longrightarrow>
    render_step s (s\<lparr>th_lock := Some Renderer, th_render := R_Frame\<rparr>)"
| frame: "th_render s = R_Frame \<Longrightarrow>
    render_step s (s\<lparr>th_log := th_log s @ (if th_running s then [Frame] else []), th_lock := None, th_render := R_Sleep\<rparr>)"
| sleep: "th_render s = R_Sleep \<Longrightarrow> render_step s (s\<lparr>th_render := R_Head\<rparr>)"

text \<open>\<open>Stop()\<close> and \<open>Stop(bridge)\<close>; \<open>join\<close> is enabled when the render thread has ended.\<close>

inductive stop_step :: "nat \<Rightarrow> stream_threads \<Rightarrow> stream_threads \<Rightarrow> bool" for k where
  test: "th_stop s k = S_Idle \<Longrightarrow>
    stop_step k s (s\<lparr>th_stop := (th_stop s)(k := if th_running s then S_Lock else S_Done)\<rparr>)"
| acquire: "th_stop s k = S_Lock \<Longrightarrow> th_lock s = None \<Longrightarrow>
    stop_step k s (s\<lparr>th_lock := Some (Stopper k), th_stop := (th_stop s)(k := S_Check)\<rparr>)"
| stopped: "th_stop s k = S_Check \<Longrightarrow> \<not> th_running s \<Longrightarrow>
    stop_step k s (s\<lparr>th_lock := None, th_stop := (th_stop s)(k := S_Done)\<rparr>)"
| running: "th_stop s k = S_Check \<Longrightarrow> th_running s \<Longrightarrow>
    stop_step k s (s\<lparr>th_running := False, th_stop := (th_stop s)(k := S_Join)\<rparr>)"
| join: "th_stop s k = S_Join \<Longrightarrow> th_render s = R_Exit \<Longrightarrow>
    stop_step k s (s\<lparr>th_stop := (th_stop s)(k := S_Finish)\<rparr>)"
| finish: "th_stop s k = S_Finish \<Longrightarrow>
    stop_step k s (s\<lparr>th_log := th_log s @ [Disconnected], th_lock := None, th_stop := (th_stop s)(k := S_Done)\<rparr>)"

inductive threads_step :: "stream_threads \<Rightarrow> stream_threads \<Rightarrow> bool" where
  renderer: "render_step s s' \<Longrightarrow> threads_step s s'"
| stopper: "stop_step k s s' \<Longrightarrow> threads_step s s'"

inductive_cases render_stepE: "render_step s s'"
inductive_cases stop_stepE: "stop_step k s s'"
inductive_simps threads_step_iff: "threads_step s s'"

section \<open>The invariant\<close>

definition in_section :: "stop_pc \<Rightarrow> bool" where
  "in_section pc \<longleftrightarrow> pc \<in> {S_Check, S_Join, S_Finish}"

definition holds_lock :: "stream_threads \<Rightarrow> stream_thread \<Rightarrow> bool" where
  "holds_lock s t \<longleftrightarrow> (case t of Renderer \<Rightarrow> th_render s = R_Frame | Stopper k \<Rightarrow> in_section (th_stop s k))"

lemma in_section_simps [simp]: "in_section S_Check" "in_section S_Join" "in_section S_Finish"
  "\<not> in_section S_Idle" "\<not> in_section S_Lock" "\<not> in_section S_Done"
  by (simp_all add: in_section_def)

text \<open>
  The lock is held by the thread that is inside its critical section. A thread that waits in
  \<open>join\<close> or goes on after it is the one that stopped the stream, and nothing has been disconnected
  before; the render thread has ended once the stopping thread is past the \<open>join\<close>.
\<close>

definition lock_inv :: "stream_threads \<Rightarrow> bool" where
  "lock_inv s \<longleftrightarrow> (\<forall>t. holds_lock s t \<longleftrightarrow> th_lock s = Some t)"

definition ending :: "stream_threads \<Rightarrow> nat \<Rightarrow> bool" where
  "ending s k \<longleftrightarrow> th_stop s k \<in> {S_Join, S_Finish}"

definition work_inv :: "stream_threads \<Rightarrow> bool" where
  "work_inv s \<longleftrightarrow> (\<forall>k. th_stop s k = S_Finish \<longrightarrow> th_render s = R_Exit)
     \<and> Disconnected \<notin> set (butlast (th_log s))
     \<and> (th_running s \<longrightarrow> Disconnected \<notin> set (th_log s) \<and> (\<forall>k. \<not> ending s k))
     \<and> (\<not> th_running s \<longrightarrow> (Disconnected \<in> set (th_log s)) \<noteq> (\<exists>k. ending s k))"

definition threads_inv :: "stream_threads \<Rightarrow> bool" where
  "threads_inv s \<longleftrightarrow> lock_inv s \<and> work_inv s"

lemma all_threads: "(\<forall>t. P t) \<longleftrightarrow> P Renderer \<and> (\<forall>k. P (Stopper k))"
  by (metis stream_thread.exhaust)

lemma lock_inv_iff: "lock_inv s \<longleftrightarrow> (th_render s = R_Frame \<longleftrightarrow> th_lock s = Some Renderer)
    \<and> (\<forall>k. in_section (th_stop s k) \<longleftrightarrow> th_lock s = Some (Stopper k))"
  by (simp only: lock_inv_def all_threads) (simp add: holds_lock_def)

lemma lock_inv_stopper: "lock_inv s \<Longrightarrow> in_section (th_stop s k) \<longleftrightarrow> th_lock s = Some (Stopper k)"
  by (simp add: lock_inv_iff)

lemma lock_inv_render: "render_step s s' \<Longrightarrow> lock_inv s \<Longrightarrow> lock_inv s'"
  by (erule render_stepE) (auto simp: lock_inv_iff)

lemma lock_inv_stop:
  assumes "stop_step k s s'" "lock_inv s" shows "lock_inv s'"
  using assms(1)
proof cases
  case test
  then show ?thesis using assms(2) lock_inv_stopper[OF assms(2), of k] by (auto simp: lock_inv_iff)
next
  case acquire
  then show ?thesis using assms(2) by (auto simp: lock_inv_iff)
qed (use assms(2) lock_inv_stopper[OF assms(2), of k] in \<open>auto simp: lock_inv_iff\<close>)

text \<open>Of the threads that stop, only the holder of the lock is in its critical section.\<close>

lemma lock_inv_unique:
  assumes "lock_inv s" "in_section (th_stop s k)" "in_section (th_stop s j)" shows "j = k"
  using assms(2,3) by (simp add: lock_inv_stopper[OF assms(1)])

lemma work_inv_render:
  assumes "render_step s s'" "lock_inv s" "work_inv s" shows "work_inv s'"
proof -
  have "ending s' = ending s" using assms(1) by cases (auto simp: ending_def)
  with assms show ?thesis by (elim render_stepE) (auto simp: work_inv_def butlast_append dest: in_set_butlastD)
qed

lemma work_inv_cong:
  assumes "work_inv s" "th_render s' = th_render s" "th_log s' = th_log s" "th_running s' = th_running s"
    "ending s' = ending s" "\<And>j. th_stop s' j = S_Finish \<Longrightarrow> th_stop s j = S_Finish \<or> th_render s = R_Exit"
  shows "work_inv s'"
  using assms(1,6) unfolding work_inv_def assms(2-5) by blast

lemma work_inv_stop:
  assumes "stop_step k s s'" "lock_inv s" "work_inv s" shows "work_inv s'"
  using assms(1)
proof cases
  case test
  show ?thesis by (rule work_inv_cong[OF assms(3)]) (use test in \<open>auto simp: ending_def fun_eq_iff split: if_splits\<close>)
next
  case acquire
  show ?thesis by (rule work_inv_cong[OF assms(3)]) (use acquire in \<open>auto simp: ending_def fun_eq_iff split: if_splits\<close>)
next
  case stopped
  show ?thesis by (rule work_inv_cong[OF assms(3)]) (use stopped in \<open>auto simp: ending_def fun_eq_iff split: if_splits\<close>)
next
  case join
  show ?thesis by (rule work_inv_cong[OF assms(3)]) (use join in \<open>auto simp: ending_def fun_eq_iff split: if_splits\<close>)
next
  case running
  have "th_stop s j \<noteq> S_Finish" for j
    using lock_inv_unique[OF assms(2), of k j] running by auto
  moreover have "ending s' k" using running by (simp add: ending_def)
  ultimately show ?thesis using assms(3) running by (auto simp: work_inv_def)
next
  case finish
  have "\<not> ending s' j \<and> th_stop s' j \<noteq> S_Finish" for j
    using lock_inv_unique[OF assms(2), of k j] finish by (auto simp: ending_def)
  moreover have "ending s k" using finish by (simp add: ending_def)
  ultimately show ?thesis using assms(3) finish by (auto simp: work_inv_def butlast_append)
qed

lemma threads_inv_initial: "threads_inv threads_initial"
  by (simp add: threads_inv_def lock_inv_iff work_inv_def threads_initial_def ending_def)

lemma threads_inv_step: "threads_inv s \<Longrightarrow> threads_step s s' \<Longrightarrow> threads_inv s'"
  by (auto simp: threads_inv_def threads_step_iff
      intro: lock_inv_render lock_inv_stop work_inv_render work_inv_stop)

interpretation stream_threads: transition_system "\<lambda>s. s = threads_initial" threads_step threads_inv
  by unfold_locales (auto intro: threads_inv_initial threads_inv_step)


section \<open>Properties\<close>

lemma frames_then_disconnected:
  "Disconnected \<notin> set (butlast l) \<Longrightarrow> \<exists>n. l = replicate n Frame @ (if Disconnected \<in> set l then [Disconnected] else [])"
proof (induction l rule: rev_induct)
  case (snoc x l)
  then have "set l \<subseteq> {Frame}" by (auto intro: stream_event.exhaust)
  then have l: "l = replicate (length l) Frame" by (induction l) auto
  show ?case
  proof (cases x)
    case Frame
    then have "l @ [x] = replicate (Suc (length l)) Frame" using l by (metis replicate_append_same replicate_Suc)
    then show ?thesis using l Frame by (metis append_Nil2 in_set_replicate stream_event.distinct(1))
  next
    case Disconnected
    then show ?thesis using l by (auto intro: exI[of _ "length l"])
  qed
qed simp

text \<open>
  C16 (safety). At any time at most one thread is between taking and releasing the lock. However
  the render thread and the threads that call \<open>Stop\<close> interleave, the session is disconnected at
  most once and no frame is sent after it has been; as long as the stream runs it is connected.
\<close>

theorem no_frame_after_disconnect:
  assumes "threads_step\<^sup>*\<^sup>* threads_initial s"
  shows "(holds_lock s t \<and> holds_lock s u \<longrightarrow> t = u)
    \<and> (\<exists>n. th_log s = replicate n Frame @ (if Disconnected \<in> set (th_log s) then [Disconnected] else []))
    \<and> (th_running s \<longrightarrow> Disconnected \<notin> set (th_log s))"
proof -
  have i: "lock_inv s" "work_inv s"
    using stream_threads.reachable_invariant[OF refl assms] by (simp_all add: threads_inv_def)
  have "t = u" if "holds_lock s t" "holds_lock s u" using i(1) that by (simp add: lock_inv_def)
  moreover have "Disconnected \<notin> set (butlast (th_log s))" "th_running s \<longrightarrow> Disconnected \<notin> set (th_log s)"
    using i(2) by (simp_all add: work_inv_def)
  ultimately show ?thesis using frames_then_disconnected by blast
qed

text \<open>The two runs that are used as examples.\<close>

definition after_stop_call :: stream_threads where
  "after_stop_call = threads_initial\<lparr>th_render := R_Lock, th_lock := Some (Stopper 0), th_running := False,
     th_stop := (\<lambda>_. S_Idle)(0 := S_Join)\<rparr>"

lemma stop_stepI: "stop_step k s s' \<Longrightarrow> threads_step s s'"
  by (rule threads_step.stopper)

lemma after_stop_call_reachable: "threads_step\<^sup>*\<^sup>* threads_initial after_stop_call"
proof -
  let ?a = "threads_initial\<lparr>th_render := R_Lock\<rparr>"
  let ?b = "?a\<lparr>th_stop := (th_stop ?a)(0 := S_Lock)\<rparr>"
  let ?c = "?b\<lparr>th_lock := Some (Stopper 0), th_stop := (th_stop ?b)(0 := S_Check)\<rparr>"
  let ?d = "?c\<lparr>th_running := False, th_stop := (th_stop ?c)(0 := S_Join)\<rparr>"
  have "threads_step threads_initial ?a"
    using render_step.head[of threads_initial] by (intro threads_step.renderer) (simp add: threads_initial_def)
  moreover have "threads_step ?a ?b"
    using stop_step.test[of ?a 0] by (intro stop_stepI[of 0]) (simp add: threads_initial_def)
  moreover have "threads_step ?b ?c"
    using stop_step.acquire[of ?b 0] by (intro stop_stepI[of 0]) (simp add: threads_initial_def)
  moreover have "threads_step ?c ?d"
    using stop_step.running[of ?c 0] by (intro stop_stepI[of 0]) (simp add: threads_initial_def)
  moreover have "?d = after_stop_call" by (simp add: after_stop_call_def threads_initial_def)
  ultimately show ?thesis by (metis (no_types, lifting) converse_rtranclp_into_rtranclp rtranclp.rtrancl_refl)
qed

theorem no_frame_after_disconnect_witness:
  "\<exists>n. th_log after_stop_call = replicate n Frame"
  using no_frame_after_disconnect[OF after_stop_call_reachable, of Renderer Renderer]
  by (simp add: after_stop_call_def threads_initial_def)

lemma stuck_step:
  assumes "threads_inv s \<and> th_stop s k = S_Join \<and> th_render s = R_Lock" "threads_step s s'"
  shows "threads_inv s' \<and> th_stop s' k = S_Join \<and> th_render s' = R_Lock"
proof -
  have lock: "lock_inv s" using assms(1) by (simp add: threads_inv_def)
  have owner: "th_lock s = Some (Stopper k)" using assms(1) lock_inv_stopper[OF lock, of k] by simp
  have "th_stop s' k = S_Join \<and> th_render s' = R_Lock"
    using assms(2)
  proof cases
    case renderer
    then show ?thesis using assms(1) owner by (auto elim: render_stepE)
  next
    case (stopper j)
    then show ?thesis using assms(1) by (cases "j = k") (auto elim: stop_stepE)
  qed
  then show ?thesis using assms threads_inv_step by blast
qed

lemma stuck_forever:
  "threads_step\<^sup>*\<^sup>* s s' \<Longrightarrow> threads_inv s \<and> th_stop s k = S_Join \<and> th_render s = R_Lock \<Longrightarrow>
   threads_inv s' \<and> th_stop s' k = S_Join \<and> th_render s' = R_Lock"
proof (induction rule: rtranclp_induct)
  case (step y z)
  show ?case by (rule stuck_step[of y k z]) (use step in simp_all)
qed simp

lemma exited_returns:
  assumes "th_stop s k = S_Join" "th_render s = R_Exit"
  shows "\<exists>s'. threads_step\<^sup>*\<^sup>* s s' \<and> th_stop s' k = S_Done"
proof -
  let ?a = "s\<lparr>th_stop := (th_stop s)(k := S_Finish)\<rparr>"
  let ?b = "?a\<lparr>th_log := th_log ?a @ [Disconnected], th_lock := None, th_stop := (th_stop ?a)(k := S_Done)\<rparr>"
  have "threads_step s ?a" using stop_step.join[OF assms] by (rule stop_stepI)
  moreover have "threads_step ?a ?b" by (rule stop_stepI[of k], rule stop_step.finish) simp
  ultimately have "threads_step\<^sup>*\<^sup>* s ?b" by (meson converse_rtranclp_into_rtranclp r_into_rtranclp)
  then show ?thesis by (intro exI[of _ ?b]) simp
qed

text \<open>
  C17 (liveness). A thread that has stopped the stream and waits in \<open>join\<close> can return exactly
  if the render thread was not between its test of \<open>_running\<close> and the lock. In that place the
  render thread waits for the lock, which the waiting thread keeps until the render thread has
  ended: both wait forever, whatever any thread does.
\<close>

theorem stop_returns_iff:
  assumes "threads_step\<^sup>*\<^sup>* threads_initial s" "th_stop s k = S_Join"
  shows "(\<exists>s'. threads_step\<^sup>*\<^sup>* s s' \<and> th_stop s' k = S_Done) \<longleftrightarrow> th_render s \<noteq> R_Lock"
proof -
  have i: "threads_inv s" using stream_threads.reachable_invariant[OF refl assms(1)] .
  then have owner: "th_lock s = Some (Stopper k)" and off: "\<not> th_running s" and "th_render s \<noteq> R_Frame"
    using assms(2) lock_inv_stopper[of s k]
    by (auto simp: threads_inv_def work_inv_def ending_def lock_inv_iff)
  then consider "th_render s = R_Lock" | "th_render s = R_Exit" | "th_render s = R_Head" | "th_render s = R_Sleep"
    by (cases "th_render s") auto
  then show ?thesis
  proof cases
    case 1
    then show ?thesis using stuck_forever[of s _ k] i assms(2) by fastforce
  next
    case 2
    then show ?thesis using exited_returns assms(2) by auto
  next
    case 3
    have "threads_step s (s\<lparr>th_render := R_Exit\<rparr>)"
      using render_step.head[OF 3] off by (auto intro: threads_step.renderer)
    then show ?thesis using exited_returns[of "s\<lparr>th_render := R_Exit\<rparr>" k] assms(2) 3
      by (auto intro: converse_rtranclp_into_rtranclp)
  next
    case 4
    let ?a = "s\<lparr>th_render := R_Head\<rparr>"
    have "threads_step s ?a" using render_step.sleep[OF 4] by (rule threads_step.renderer)
    moreover have "threads_step ?a (?a\<lparr>th_render := R_Exit\<rparr>)"
      using render_step.head[of ?a] off by (intro threads_step.renderer) simp
    ultimately have "threads_step\<^sup>*\<^sup>* s (?a\<lparr>th_render := R_Exit\<rparr>)"
      by (meson converse_rtranclp_into_rtranclp r_into_rtranclp)
    then show ?thesis using exited_returns[of "?a\<lparr>th_render := R_Exit\<rparr>" k] assms(2) 4
      by (auto intro: rtranclp_trans)
  qed
qed

theorem stop_returns_iff_witness:
  "\<not> (\<exists>s'. threads_step\<^sup>*\<^sup>* after_stop_call s' \<and> th_stop s' 0 = S_Done)"
  using stop_returns_iff[OF after_stop_call_reachable, of 0] by (simp add: after_stop_call_def)

end
