(* ===== verification/HueMath.thy ===== *)
theory HueMath imports CReal begin

text \<open>
  \<open>huestream/common/util/HueMath\<close>: the easing functions, which lead from a value \<open>b\<close> to a value
  \<open>e\<close> in the duration \<open>d\<close>, and the arithmetic of angles.
\<close>

section \<open>Easing\<close>

definition linearTween :: "real \<Rightarrow> real \<Rightarrow> real \<Rightarrow> real \<Rightarrow> real" where
  "linearTween t b e d = (let c = e - b in if t > d then e else
     c * t / d + b)"

definition easeInQuad :: "real \<Rightarrow> real \<Rightarrow> real \<Rightarrow> real \<Rightarrow> real" where
  "easeInQuad t b e d = (let c = e - b in if t > d then e else
     let t = t / d in c * t * t + b)"

definition easeOutQuad :: "real \<Rightarrow> real \<Rightarrow> real \<Rightarrow> real \<Rightarrow> real" where
  "easeOutQuad t b e d = (let c = e - b in if t > d then e else
     let t = t / d in - c * t * (t - 2) + b)"

definition easeInOutQuad :: "real \<Rightarrow> real \<Rightarrow> real \<Rightarrow> real \<Rightarrow> real" where
  "easeInOutQuad t b e d = (let c = e - b in if t > d then e else
     let t = t / (d / 2) in if t < 1 then c / 2 * t * t + b
     else let t = t - 1 in - c / 2 * (t * (t - 2) - 1) + b)"

definition easeInCubic :: "real \<Rightarrow> real \<Rightarrow> real \<Rightarrow> real \<Rightarrow> real" where
  "easeInCubic t b e d = (let c = e - b in if t > d then e else
     let t = t / d in c * t * t * t + b)"

definition easeOutCubic :: "real \<Rightarrow> real \<Rightarrow> real \<Rightarrow> real \<Rightarrow> real" where
  "easeOutCubic t b e d = (let c = e - b in if t > d then e else
     let t = t / d; t = t - 1 in c * (t * t * t + 1) + b)"

definition easeInOutCubic :: "real \<Rightarrow> real \<Rightarrow> real \<Rightarrow> real \<Rightarrow> real" where
  "easeInOutCubic t b e d = (let c = e - b in if t > d then e else
     let t = t / (d / 2) in if t < 1 then c / 2 * t * t * t + b
     else let t = t - 2 in c / 2 * (t * t * t + 2) + b)"

definition easeInQuart :: "real \<Rightarrow> real \<Rightarrow> real \<Rightarrow> real \<Rightarrow> real" where
  "easeInQuart t b e d = (let c = e - b in if t > d then e else
     let t = t / d in c * t * t * t * t + b)"

definition easeOutQuart :: "real \<Rightarrow> real \<Rightarrow> real \<Rightarrow> real \<Rightarrow> real" where
  "easeOutQuart t b e d = (let c = e - b in if t > d then e else
     let t = t / d; t = t - 1 in - c * (t * t * t * t - 1) + b)"

definition easeInOutQuart :: "real \<Rightarrow> real \<Rightarrow> real \<Rightarrow> real \<Rightarrow> real" where
  "easeInOutQuart t b e d = (let c = e - b in if t > d then e else
     let t = t / (d / 2) in if t < 1 then c / 2 * t * t * t * t + b
     else let t = t - 2 in - c / 2 * (t * t * t * t - 2) + b)"

definition easeInQuint :: "real \<Rightarrow> real \<Rightarrow> real \<Rightarrow> real \<Rightarrow> real" where
  "easeInQuint t b e d = (let c = e - b in if t > d then e else
     let t = t / d in c * t * t * t * t * t + b)"

definition easeOutQuint :: "real \<Rightarrow> real \<Rightarrow> real \<Rightarrow> real \<Rightarrow> real" where
  "easeOutQuint t b e d = (let c = e - b in if t > d then e else
     let t = t / d; t = t - 1 in c * (t * t * t * t * t + 1) + b)"

definition easeInOutQuint :: "real \<Rightarrow> real \<Rightarrow> real \<Rightarrow> real \<Rightarrow> real" where
  "easeInOutQuint t b e d = (let c = e - b in if t > d then e else
     let t = t / (d / 2) in if t < 1 then c / 2 * t * t * t * t * t + b
     else let t = t - 2 in c / 2 * (t * t * t * t * t + 2) + b)"

definition easeInSine :: "real \<Rightarrow> real \<Rightarrow> real \<Rightarrow> real \<Rightarrow> real" where
  "easeInSine t b e d = (let c = e - b in if t > d then e else
     - c * cos (t / d * (pi / 2)) + c + b)"

definition easeOutSine :: "real \<Rightarrow> real \<Rightarrow> real \<Rightarrow> real \<Rightarrow> real" where
  "easeOutSine t b e d = (let c = e - b in if t > d then e else
     c * sin (t / d * (pi / 2)) + b)"

definition easeInOutSine :: "real \<Rightarrow> real \<Rightarrow> real \<Rightarrow> real \<Rightarrow> real" where
  "easeInOutSine t b e d = (let c = e - b in if t > d then e else
     - c / 2 * (cos (pi * t / d) - 1) + b)"

definition easeInExpo :: "real \<Rightarrow> real \<Rightarrow> real \<Rightarrow> real \<Rightarrow> real" where
  "easeInExpo t b e d = (let c = e - b in if t > d then e else
     c * 2 powr (10 * (t / d - 1)) + b)"

definition easeOutExpo :: "real \<Rightarrow> real \<Rightarrow> real \<Rightarrow> real \<Rightarrow> real" where
  "easeOutExpo t b e d = (let c = e - b in if t > d then e else
     c * (- (2 powr (- 10 * t / d)) + 1) + b)"

definition easeInOutExpo :: "real \<Rightarrow> real \<Rightarrow> real \<Rightarrow> real \<Rightarrow> real" where
  "easeInOutExpo t b e d = (let c = e - b in if t > d then e else
     let t = t / (d / 2) in if t < 1 then c / 2 * 2 powr (10 * (t - 1)) + b
     else let t = t - 1 in c / 2 * (- (2 powr (- 10 * t)) + 2) + b)"

definition easeInCirc :: "real \<Rightarrow> real \<Rightarrow> real \<Rightarrow> real \<Rightarrow> real" where
  "easeInCirc t b e d = (let c = e - b in if t > d then e else
     let t = t / d in - c * (sqrt (1 - t * t) - 1) + b)"

definition easeOutCirc :: "real \<Rightarrow> real \<Rightarrow> real \<Rightarrow> real \<Rightarrow> real" where
  "easeOutCirc t b e d = (let c = e - b in if t > d then e else
     let t = t / d; t = t - 1 in c * sqrt (1 - t * t) + b)"

definition easeInOutCirc :: "real \<Rightarrow> real \<Rightarrow> real \<Rightarrow> real \<Rightarrow> real" where
  "easeInOutCirc t b e d = (let c = e - b in if t > d then e else
     let t = t / (d / 2) in if t < 1 then - c / 2 * (sqrt (1 - t * t) - 1) + b
     else let t = t - 2 in c / 2 * (sqrt (1 - t * t) + 1) + b)"

lemmas easing_defs = linearTween_def easeInQuad_def easeOutQuad_def easeInOutQuad_def easeInCubic_def
  easeOutCubic_def easeInOutCubic_def easeInQuart_def easeOutQuart_def easeInOutQuart_def easeInQuint_def
  easeOutQuint_def easeInOutQuint_def easeInSine_def easeOutSine_def easeInOutSine_def easeInExpo_def
  easeOutExpo_def easeInOutExpo_def easeInCirc_def easeOutCirc_def easeInOutCirc_def Let_def

section \<open>Angles\<close>

definition isAngleBetween :: "real \<Rightarrow> real \<Rightarrow> real \<Rightarrow> bool" where
  "isAngleBetween target angle1 angle2 =
     (let rAngle = fmod (fmod (angle2 - angle1) 360 + 360) 360;
          (angle1, angle2) = (if rAngle \<ge> 180 then (angle2, angle1) else (angle1, angle2))
      in if angle1 \<le> angle2 then target \<ge> angle1 \<and> target \<le> angle2
         else target \<ge> angle1 \<or> target \<le> angle2)"

definition getDiffDegrees :: "real \<Rightarrow> real \<Rightarrow> real" where
  "getDiffDegrees a b =
     (let minDegrees = min (b - a) (360 + a - b) in if minDegrees < 0 then minDegrees * -1 else minDegrees)"

section \<open>Normal forms\<close>

text \<open>
  An easing runs along a shape on the unit interval: after the part \<open>u\<close> of the duration it has
  made the part \<open>g u\<close> of the way.
\<close>

definition shaped :: "(real \<Rightarrow> real \<Rightarrow> real \<Rightarrow> real \<Rightarrow> real) \<Rightarrow> (real \<Rightarrow> real) \<Rightarrow> bool" where
  "shaped f g \<longleftrightarrow> (\<forall>t b e d. 0 < d \<longrightarrow> f t b e d = (if t > d then e else b + (e - b) * g (t / d)))"

definition unit_shaped :: "(real \<Rightarrow> real \<Rightarrow> real \<Rightarrow> real \<Rightarrow> real) \<Rightarrow> (real \<Rightarrow> real) \<Rightarrow> bool" where
  "unit_shaped f g \<longleftrightarrow> (\<forall>u b e. u \<le> 1 \<longrightarrow> f u b e 1 = b + (e - b) * g u)"

definition scales :: "(real \<Rightarrow> real \<Rightarrow> real \<Rightarrow> real \<Rightarrow> real) \<Rightarrow> bool" where
  "scales f \<longleftrightarrow> (\<forall>t b e d. 0 < d \<longrightarrow> f t b e d = f (t / d) b e 1) \<and> (\<forall>u b e. 1 < u \<longrightarrow> f u b e 1 = e)"

lemma shapedI: "scales f \<Longrightarrow> unit_shaped f g \<Longrightarrow> shaped f g"
  unfolding shaped_def unit_shaped_def scales_def by (metis less_divide_eq_1_pos not_le)

text \<open>The second half of an ease-in-out is its first half turned around.\<close>

definition two_halves :: "(real \<Rightarrow> real) \<Rightarrow> real \<Rightarrow> real" where
  "two_halves g u = (if 2 * u < 1 then g (2 * u) / 2 else 1 - g (2 - 2 * u) / 2)"

lemma scales_in: "scales linearTween" "scales easeInQuad" "scales easeInCubic" "scales easeInQuart" "scales easeInQuint"
  "scales easeInSine" "scales easeInCirc" "scales easeInExpo"
  by (simp_all add: scales_def easing_defs)

lemma scales_out: "scales easeOutQuad" "scales easeOutCubic" "scales easeOutQuart" "scales easeOutQuint"
  "scales easeOutSine" "scales easeOutCirc" "scales easeOutExpo"
  by (simp_all add: scales_def easing_defs)

lemma scales_in_out: "scales easeInOutQuad" "scales easeInOutCubic" "scales easeInOutQuart" "scales easeInOutQuint"
  "scales easeInOutSine" "scales easeInOutCirc" "scales easeInOutExpo"
  by (simp_all add: scales_def easing_defs)

lemma unit_in: "unit_shaped linearTween (\<lambda>u. u)" "unit_shaped easeInQuad (\<lambda>u. u ^ 2)"
  "unit_shaped easeInCubic (\<lambda>u. u ^ 3)" "unit_shaped easeInQuart (\<lambda>u. u ^ 4)" "unit_shaped easeInQuint (\<lambda>u. u ^ 5)"
  "unit_shaped easeInSine (\<lambda>u. 1 - cos (u * (pi / 2)))" "unit_shaped easeInCirc (\<lambda>u. 1 - sqrt (1 - u ^ 2))"
  by (simp_all add: unit_shaped_def easing_defs eval_nat_numeral algebra_simps)

lemma unit_out: "unit_shaped easeOutQuad (\<lambda>u. 1 - (1 - u) ^ 2)"
  "unit_shaped easeOutCubic (\<lambda>u. 1 - (1 - u) ^ 3)" "unit_shaped easeOutQuart (\<lambda>u. 1 - (1 - u) ^ 4)"
  "unit_shaped easeOutQuint (\<lambda>u. 1 - (1 - u) ^ 5)"
  "unit_shaped easeOutSine (\<lambda>u. sin (u * (pi / 2)))" "unit_shaped easeOutCirc (\<lambda>u. sqrt (1 - (1 - u) ^ 2))"
  by (simp_all add: unit_shaped_def easing_defs eval_nat_numeral algebra_simps)

lemma unit_in_out: "unit_shaped easeInOutQuad (two_halves (\<lambda>u. u ^ 2))"
  "unit_shaped easeInOutCubic (two_halves (\<lambda>u. u ^ 3))" "unit_shaped easeInOutQuart (two_halves (\<lambda>u. u ^ 4))"
  "unit_shaped easeInOutQuint (two_halves (\<lambda>u. u ^ 5))"
  by (simp_all add: unit_shaped_def easing_defs two_halves_def eval_nat_numeral field_simps)


lemma unit_in_out_root: "unit_shaped easeInOutSine (\<lambda>u. (1 - cos (pi * u)) / 2)"
  "unit_shaped easeInOutCirc (two_halves (\<lambda>u. 1 - sqrt (1 - u ^ 2)))"
  by (simp_all add: unit_shaped_def easing_defs two_halves_def power2_eq_square field_simps)

lemma unit_expo: "unit_shaped easeInExpo (\<lambda>u. 2 powr (10 * (u - 1)))"
  "unit_shaped easeOutExpo (\<lambda>u. 1 - 2 powr (- 10 * u))"
  "unit_shaped easeInOutExpo (\<lambda>u. if 2 * u < 1 then 2 powr (10 * (2 * u - 1)) / 2 else 1 - 2 powr (- 10 * (2 * u - 1)) / 2)"
  by (simp_all add: unit_shaped_def easing_defs field_simps)

section \<open>Shapes\<close>

text \<open>A shape that starts at 0, ends at 1 and rises in between.\<close>

definition rising :: "(real \<Rightarrow> real) \<Rightarrow> bool" where
  "rising g \<longleftrightarrow> g 0 = 0 \<and> g 1 = 1 \<and> mono_on {0..1} g"

lemma risingI: "g 0 = 0 \<Longrightarrow> g 1 = 1 \<Longrightarrow> (\<And>u v. 0 \<le> u \<Longrightarrow> u \<le> v \<Longrightarrow> v \<le> 1 \<Longrightarrow> g u \<le> g v) \<Longrightarrow> rising g"
  by (auto simp: rising_def monotone_on_def)

lemma risingD: "rising g \<Longrightarrow> 0 \<le> u \<Longrightarrow> u \<le> v \<Longrightarrow> v \<le> 1 \<Longrightarrow> g u \<le> g v"
  by (auto simp: rising_def monotone_on_def)

lemma rising_power: "0 < n \<Longrightarrow> rising (\<lambda>u. u ^ n)"
  by (intro risingI) (auto intro: power_mono)

lemma rising_circ: "rising (\<lambda>u. 1 - sqrt (1 - u ^ 2))"
  by (intro risingI) (auto intro: power_mono)

lemma rising_mirror:
  assumes "rising g" shows "rising (\<lambda>u. 1 - g (1 - u))"
proof (rule risingI)
  fix u v :: real assume "0 \<le> u" "u \<le> v" "v \<le> 1"
  then show "1 - g (1 - u) \<le> 1 - g (1 - v)" using risingD[OF assms, of "1 - v" "1 - u"] by simp
qed (use assms in \<open>simp_all add: rising_def\<close>)

lemma rising_two_halves:
  assumes "rising g" shows "rising (two_halves g)"
proof (rule risingI)
  fix u v :: real assume uv: "0 \<le> u" "u \<le> v" "v \<le> 1"
  have half: "g x / 2 \<le> 1 / 2" if "0 \<le> x" "x \<le> 1" for x
    using risingD[OF assms, of x 1] that assms by (simp add: rising_def)
  consider "2 * v < 1" | "2 * u < 1" "\<not> 2 * v < 1" | "\<not> 2 * u < 1" by fastforce
  then show "two_halves g u \<le> two_halves g v"
  proof cases
    case 1
    then show ?thesis using risingD[OF assms, of "2 * u" "2 * v"] uv by (simp add: two_halves_def)
  next
    case 2
    then show ?thesis using half[of "2 * u"] half[of "2 - 2 * v"] uv by (simp add: two_halves_def)
  next
    case 3
    then show ?thesis using risingD[OF assms, of "2 - 2 * v" "2 - 2 * u"] uv by (simp add: two_halves_def)
  qed
qed (use assms in \<open>simp_all add: rising_def two_halves_def\<close>)

lemma rising_sine: "rising (\<lambda>u. 1 - cos (u * (pi / 2)))" "rising (\<lambda>u. sin (u * (pi / 2)))"
  "rising (\<lambda>u. (1 - cos (pi * u)) / 2)"
proof -
  have scaled: "x * (pi / 2) \<le> pi / 2" if "x \<le> 1" for x :: real
    using that by (simp add: mult_left_le_one_le)
  show "rising (\<lambda>u. 1 - cos (u * (pi / 2)))"
  proof (rule risingI)
    fix u v :: real assume uv: "0 \<le> u" "u \<le> v" "v \<le> 1"
    have "cos (v * (pi / 2)) \<le> cos (u * (pi / 2))"
      by (rule cos_monotone_0_pi_le) (use uv scaled[of v] in \<open>auto intro: mult_right_mono order_trans\<close>)
    then show "1 - cos (u * (pi / 2)) \<le> 1 - cos (v * (pi / 2))" by simp
  qed simp_all
  show "rising (\<lambda>u. sin (u * (pi / 2)))"
  proof (rule risingI)
    fix u v :: real assume uv: "0 \<le> u" "u \<le> v" "v \<le> 1"
    show "sin (u * (pi / 2)) \<le> sin (v * (pi / 2))"
      by (rule sin_monotone_2pi_le) (use uv scaled[of v] in \<open>auto intro: mult_right_mono order_trans[of _ 0]\<close>)
  qed simp_all
  show "rising (\<lambda>u. (1 - cos (pi * u)) / 2)"
  proof (rule risingI)
    fix u v :: real assume uv: "0 \<le> u" "u \<le> v" "v \<le> 1"
    have "cos (pi * v) \<le> cos (pi * u)"
      by (rule cos_monotone_0_pi_le) (use uv in \<open>auto intro: mult_left_mono simp: mult_left_le\<close>)
    then show "(1 - cos (pi * u)) / 2 \<le> (1 - cos (pi * v)) / 2" by simp
  qed simp_all
qed


section \<open>Properties\<close>

text \<open>
  The easings but for the exponential ones, and the pairs of an ease-in and its ease-out. The
  exponential easings start \<open>(e - b) / 1024\<close> away from \<open>b\<close> or end as far from \<open>e\<close>.
\<close>

definition easing_pairs :: "((real \<Rightarrow> real \<Rightarrow> real \<Rightarrow> real \<Rightarrow> real) \<times> (real \<Rightarrow> real \<Rightarrow> real \<Rightarrow> real \<Rightarrow> real)) list" where
  "easing_pairs = [(linearTween, linearTween), (easeInQuad, easeOutQuad), (easeInCubic, easeOutCubic),
     (easeInQuart, easeOutQuart), (easeInQuint, easeOutQuint), (easeInSine, easeOutSine), (easeInCirc, easeOutCirc)]"

definition easings :: "(real \<Rightarrow> real \<Rightarrow> real \<Rightarrow> real \<Rightarrow> real) list" where
  "easings = map fst easing_pairs @ map snd easing_pairs
     @ [easeInOutQuad, easeInOutCubic, easeInOutQuart, easeInOutQuint, easeInOutSine, easeInOutCirc]"

lemma easing_pair_shapes:
  assumes "(f, h) \<in> set easing_pairs"
  shows "\<exists>g. rising g \<and> shaped f g \<and> shaped h (\<lambda>u. 1 - g (1 - u))"
proof -
  have power: "\<exists>g. rising g \<and> shaped f g \<and> shaped h (\<lambda>u. 1 - g (1 - u))"
    if "shaped f (\<lambda>u. u ^ n)" "shaped h (\<lambda>u. 1 - (1 - u) ^ n)" "0 < n" for f h n
    using that rising_power by (intro exI[of _ "\<lambda>u. u ^ n"]) simp
  have "\<exists>g. rising g \<and> shaped linearTween g \<and> shaped linearTween (\<lambda>u. 1 - g (1 - u))"
    using power[of _ 1] shapedI[OF scales_in(1) unit_in(1)] by simp
  moreover have "\<exists>g. rising g \<and> shaped easeInSine g \<and> shaped easeOutSine (\<lambda>u. 1 - g (1 - u))"
  proof (intro exI conjI)
    have "(\<lambda>u. 1 - (1 - cos ((1 - u) * (pi / 2)))) = (\<lambda>u. sin (u * (pi / 2)))"
      by (simp only: left_diff_distrib mult_1 cos_diff) simp
    then show "shaped easeOutSine (\<lambda>u. 1 - (1 - cos ((1 - u) * (pi / 2))))"
      using shapedI[OF scales_out(5) unit_out(5)] by (simp only:)
  qed (rule rising_sine(1), rule shapedI[OF scales_in(6) unit_in(6)])
  moreover have "\<exists>g. rising g \<and> shaped easeInCirc g \<and> shaped easeOutCirc (\<lambda>u. 1 - g (1 - u))"
    using rising_circ shapedI[OF scales_in(7) unit_in(7)] shapedI[OF scales_out(6) unit_out(6)]
    by (intro exI[of _ "\<lambda>u. 1 - sqrt (1 - u ^ 2)"]) simp
  ultimately show ?thesis
    using assms power[OF shapedI[OF scales_in(2) unit_in(2)] shapedI[OF scales_out(1) unit_out(1)]]
      power[OF shapedI[OF scales_in(3) unit_in(3)] shapedI[OF scales_out(2) unit_out(2)]]
      power[OF shapedI[OF scales_in(4) unit_in(4)] shapedI[OF scales_out(3) unit_out(3)]]
      power[OF shapedI[OF scales_in(5) unit_in(5)] shapedI[OF scales_out(4) unit_out(4)]]
    by (auto simp: easing_pairs_def)
qed

lemma easing_shapes: "f \<in> set easings \<Longrightarrow> \<exists>g. rising g \<and> shaped f g"
proof -
  assume f: "f \<in> set easings"
  have "\<exists>g. rising g \<and> shaped f g" if "unit_shaped f (two_halves g)" "scales f" "rising g" for f g
    using that shapedI rising_two_halves by blast
  note halves = this
  consider h where "(f, h) \<in> set easing_pairs" | h where "(h, f) \<in> set easing_pairs"
    | "f \<in> {easeInOutQuad, easeInOutCubic, easeInOutQuart, easeInOutQuint, easeInOutSine, easeInOutCirc}"
    using f by (auto simp: easings_def)
  then show ?thesis
  proof cases
    case 1
    then show ?thesis using easing_pair_shapes by blast
  next
    case 2
    then show ?thesis using easing_pair_shapes rising_mirror by blast
  next
    case 3
    then show ?thesis
      using halves[OF unit_in_out(1) scales_in_out(1)] halves[OF unit_in_out(2) scales_in_out(2)]
        halves[OF unit_in_out(3) scales_in_out(3)] halves[OF unit_in_out(4) scales_in_out(4)]
        halves[OF unit_in_out_root(2) scales_in_out(6) rising_circ]
        shapedI[OF scales_in_out(5) unit_in_out_root(1)] rising_sine(3) rising_power
      by auto
  qed
qed

lemma between_parts: "0 \<le> u \<Longrightarrow> u \<le> 1 \<Longrightarrow> min b e \<le> b + (e - b) * u \<and> b + (e - b) * u \<le> max b (e::real)"
proof (cases "b \<le> e")
  case True
  assume u: "0 \<le> u" "u \<le> 1"
  then have "(e - b) * u \<le> (e - b) * 1" using True by (intro mult_left_mono) simp_all
  then show ?thesis using True u by simp
next
  case False
  assume u: "0 \<le> u" "u \<le> 1"
  then have "(b - e) * u \<le> (b - e) * 1" "0 \<le> (b - e) * u" using False by (auto intro: mult_left_mono)
  then show ?thesis using False by (simp add: algebra_simps)
qed

text \<open>
  An easing starts at the begin value, is at the end value from the end of its
  duration on, never leaves the range of the two and does not turn back. An ease-out is its
  ease-in run backwards.
\<close>

theorem easings_correct:
  assumes "f \<in> set easings" "0 < d" "0 \<le> t"
  shows "f 0 b e d = b \<and> (d \<le> t \<longrightarrow> f t b e d = e) \<and> min b e \<le> f t b e d \<and> f t b e d \<le> max b e
    \<and> (t \<le> t' \<and> b \<le> e \<longrightarrow> f t b e d \<le> f t' b e d)
    \<and> ((h, f) \<in> set easing_pairs \<and> t \<le> d \<longrightarrow> f t b e d = b + e - h (d - t) b e d)"
proof -
  obtain g where g: "rising g" "shaped f g" using easing_shapes[OF assms(1)] by blast
  have eq: "f s b e d = (if s > d then e else b + (e - b) * g (s / d))" for s
    using g(2) assms(2) by (simp add: shaped_def)
  have unit: "0 \<le> g u" "g u \<le> 1" if "0 \<le> u" "u \<le> 1" for u
    using risingD[OF g(1), of 0 u] risingD[OF g(1), of u 1] g(1) that by (simp_all add: rising_def)
  have ends: "g 0 = 0" "g 1 = 1" using g(1) by (simp_all add: rising_def)
  have "min b e \<le> f t b e d \<and> f t b e d \<le> max b e"
    using between_parts[of "g (t / d)" b e] unit[of "t / d"] assms(2,3) by (simp add: eq)
  moreover have "f t b e d \<le> f t' b e d" if "t \<le> t'" "b \<le> e"
  proof (cases "t' > d")
    case True
    then show ?thesis using calculation that(2) by (simp add: eq[of t'])
  next
    case False
    then have "g (t / d) \<le> g (t' / d)"
      using risingD[OF g(1), of "t / d" "t' / d"] that(1) assms(2,3) by (simp add: divide_right_mono)
    then show ?thesis using False that by (simp add: eq mult_left_mono)
  qed
  moreover have "f t b e d = b + e - h (d - t) b e d" if pair: "(h, f) \<in> set easing_pairs" and "t \<le> d"
  proof -
    obtain k where k: "shaped h k" "shaped f (\<lambda>u. 1 - k (1 - u))" using easing_pair_shapes[OF pair] by blast
    have "(d - t) / d = 1 - t / d" using assms(2) by (simp add: diff_divide_distrib)
    then have "h (d - t) b e d = b + (e - b) * k (1 - t / d)" using k(1) assms(2,3) by (simp add: shaped_def)
    moreover have "f t b e d = b + (e - b) * (1 - k (1 - t / d))" using k(2) that(2) assms(2) by (simp add: shaped_def)
    ultimately show ?thesis by (simp add: algebra_simps)
  qed
  moreover have "d \<le> t \<longrightarrow> f t b e d = e" using assms(2) ends by (auto simp: eq)
  ultimately show ?thesis using assms(2) ends by (simp add: eq[of 0])
qed

theorem easings_correct_witness:
  "easeOutCubic 250 0 1 1000 = 1 - easeInCubic 750 0 1 1000 \<and> easeOutCubic 1000 0 1 1000 = (1::real)"
  using easings_correct[of easeOutCubic 1000 250 0 1 250 easeInCubic]
    easings_correct[of easeOutCubic 1000 1000 0 1 1000 easeInCubic]
  by (simp add: easings_def easing_pairs_def)

text \<open>The difference of two angles is the shorter way only if the first is not far behind the second.\<close>

lemma getDiffDegrees_exact_iff:
  assumes "0 \<le> a" "a < 360" "0 \<le> b" "b < 360"
  shows "getDiffDegrees a b = min \<bar>b - a\<bar> (360 - \<bar>b - a\<bar>) \<longleftrightarrow> a - b \<le> 180"
  using assms by (auto simp: getDiffDegrees_def Let_def min_def abs_if split: if_splits)

lemma isAngleBetween_range:
  assumes "0 \<le> a" "a < 360" "0 \<le> b" "b < 360" "0 \<le> x" "x < 360"
  shows "isAngleBetween x a b \<longleftrightarrow>
    (let w = (if a \<le> b then b - a else b - a + 360) in
     if w \<ge> 180 then (if b \<le> a then b \<le> x \<and> x \<le> a else x \<ge> b \<or> x \<le> a)
     else (if a \<le> b then a \<le> x \<and> x \<le> b else x \<ge> a \<or> x \<le> b))"
proof -
  have small: "fmod y 360 = y" if "0 \<le> y" "y < 360" for y
  proof -
    have "\<lfloor>y / 360\<rfloor> = 0" using that by (simp add: floor_eq_iff)
    then show ?thesis using that by (simp add: fmod_def trunc_nonneg)
  qed
  have wrap: "fmod (y + 360) 360 = y" if "0 \<le> y" "y < 360" for y
  proof -
    have "\<lfloor>(y + 360) / 360\<rfloor> = 1" using that by (simp add: floor_eq_iff)
    then show ?thesis using that by (simp add: fmod_def trunc_nonneg)
  qed
  have neg: "fmod y 360 = y" if "y < 0" "- 360 < y" for y
  proof -
    have "\<lceil>y / 360\<rceil> = 0" using that by (simp add: ceiling_eq_iff)
    then show ?thesis using that by (simp add: fmod_def trunc_def)
  qed
  have "fmod (fmod (b - a) 360 + 360) 360 = (if a \<le> b then b - a else b - a + 360)"
    using assms small[of "b - a"] wrap[of "b - a"] neg[of "b - a"] small[of "b - a + 360"] by auto
  then show ?thesis by (simp add: isAngleBetween_def Let_def)
qed

end
