(* ===== verification/Curve.thy ===== *)
theory Curve imports Json HueMath begin

text \<open>
  \<open>huestream/effect/animation/data/CurveData\<close>: the value of a curve through given points. The lookup
  of the points around a position remembers where it was the last time and falls back on a
  binary search. \<open>None\<close> is a read outside the list of points or through a null pointer. Points
  are values: that a list of points can be shared with its maker is left out.
\<close>

section \<open>State\<close>

record Point =
  pt_x :: real
  pt_y :: real

record CurveOptions =
  co_multiplyFactor :: real
  co_clipMin :: "real option"
  co_clipMax :: "real option"

record CurveData =
  cd_options :: "CurveOptions option"
  cd_points :: "Point list"
  cd_lastIndex :: nat

definition CurveData_new :: "Point list \<Rightarrow> CurveOptions option \<Rightarrow> CurveData" where
  "CurveData_new points options = \<lparr>cd_options = options, cd_points = points, cd_lastIndex = 0\<rparr>"

section \<open>Lookup\<close>

definition CorrectValue :: "CurveData \<Rightarrow> real \<Rightarrow> real" where
  "CorrectValue c v = (case cd_options c of
      None \<Rightarrow> v
    | Some options \<Rightarrow>
        (let result = v * co_multiplyFactor options;
             result = (case co_clipMin options of Some clip \<Rightarrow> if result < clip then clip else result | None \<Rightarrow> result)
         in case co_clipMax options of Some clip \<Rightarrow> if result > clip then clip else result | None \<Rightarrow> result))"

definition HasPoints :: "CurveData \<Rightarrow> bool" where
  "HasPoints c \<longleftrightarrow> length (cd_points c) > 0"

definition GetBegin :: "CurveData \<Rightarrow> real" where
  "GetBegin c = (if \<not> HasPoints c then 0 else pt_x (hd (cd_points c)))"

definition GetEnd :: "CurveData \<Rightarrow> real" where
  "GetEnd c = (if \<not> HasPoints c then 0 else pt_x (last (cd_points c)))"

definition Curve_GetLength :: "CurveData \<Rightarrow> real" where
  "Curve_GetLength c = (if \<not> HasPoints c then 0 else GetEnd c - GetBegin c + 1)"

text \<open>Both conditions are computed before they are combined.\<close>

definition IsClosestLower :: "Point list \<Rightarrow> nat \<Rightarrow> real \<Rightarrow> bool option" where
  "IsClosestLower points it x =
     (if it > length points then None
      else let isValidAndLower = (it \<noteq> length points \<and> pt_x (points ! it) \<le> x)
           in if it + 1 = length points then Some isValidAndLower
              else if it + 1 > length points then None
              else Some (isValidAndLower \<and> pt_x (points ! (it + 1)) > x))"

text \<open>\<open>std::upper_bound\<close>.\<close>

function upper_bound_loop :: "Point list \<Rightarrow> real \<Rightarrow> nat \<Rightarrow> nat \<Rightarrow> nat" where
  "upper_bound_loop points x first len =
     (if len = 0 then first
      else let half = len div 2; middle = first + half
           in if x < pt_x (points ! middle) then upper_bound_loop points x first half
              else upper_bound_loop points x (middle + 1) (len - half - 1))"
  by pat_completeness auto
termination by (relation "measure (\<lambda>(points, x, first, len). len)") auto

declare upper_bound_loop.simps [simp del]

definition shortcut :: "Point list \<Rightarrow> nat \<Rightarrow> real \<Rightarrow> nat option option" where
  "shortcut points lastIter x =
     (case IsClosestLower points lastIter x of
        None \<Rightarrow> None
      | Some True \<Rightarrow> Some (Some lastIter)
      | Some False \<Rightarrow>
          (case IsClosestLower points (lastIter + 1) x of
             None \<Rightarrow> None
           | Some True \<Rightarrow> Some (Some (lastIter + 1))
           | Some False \<Rightarrow> Some None))"

definition GetStartPoint :: "CurveData \<Rightarrow> real \<Rightarrow> (CurveData \<times> nat) option" where
  "GetStartPoint c x =
     (let points = cd_points c;
          c1 = (if cd_lastIndex c \<ge> length points then c\<lparr>cd_lastIndex := 0\<rparr> else c)
      in case shortcut points (cd_lastIndex c1) x of
           None \<Rightarrow> None
         | Some (Some it) \<Rightarrow> Some (c1\<lparr>cd_lastIndex := it\<rparr>, it)
         | Some None \<Rightarrow>
             (let result = upper_bound_loop points x 0 (length points)
              in if result = 0 then Some (c1, length points)
                 else Some (c1\<lparr>cd_lastIndex := result - 1\<rparr>, result - 1)))"

definition GetStartAndEndPoint :: "CurveData \<Rightarrow> real \<Rightarrow> (CurveData \<times> (Point \<times> Point) option) option" where
  "GetStartAndEndPoint c x =
     (case GetStartPoint c x of
        None \<Rightarrow> None
      | Some (c1, iter) \<Rightarrow>
          (let points = cd_points c1
           in if iter = length points \<or> iter + 1 = length points then Some (c1, None)
              else Some (c1, Some (points ! iter, points ! (iter + 1)))))"

definition Interpolate :: "Point \<Rightarrow> Point \<Rightarrow> real \<Rightarrow> real" where
  "Interpolate start fin x =
     (let time = pt_x fin - pt_x start; absX = x - pt_x start
      in linearTween absX (pt_y start) (pt_y fin) time)"

definition curve_between :: "(Point \<Rightarrow> Point \<Rightarrow> CurveData \<Rightarrow> real) \<Rightarrow> CurveData \<Rightarrow> real \<Rightarrow> (CurveData \<times> real) option" where
  "curve_between f c x =
     (if cd_points c = [] then None
      else if length (cd_points c) < 2 then Some (c, pt_y (hd (cd_points c)))
      else if x \<le> GetBegin c then Some (c, pt_y (hd (cd_points c)))
      else if x \<ge> GetEnd c then Some (c, pt_y (last (cd_points c)))
      else case GetStartAndEndPoint c x of
             Some (c1, Some (start, fin)) \<Rightarrow> Some (c1, f start fin c1)
           | _ \<Rightarrow> None)"

definition GetInterpolatedValue :: "CurveData \<Rightarrow> real \<Rightarrow> (CurveData \<times> real) option" where
  "GetInterpolatedValue c x = curve_between (\<lambda>start fin c1. CorrectValue c1 (Interpolate start fin x)) c x"

definition GetStepValue :: "CurveData \<Rightarrow> real \<Rightarrow> (CurveData \<times> real) option" where
  "GetStepValue c x = curve_between (\<lambda>start fin c1. pt_y start) c x"

definition GetInterpolated :: "CurveData \<Rightarrow> real \<Rightarrow> (CurveData \<times> Point) option" where
  "GetInterpolated c x = map_option (\<lambda>(c1, v). (c1, \<lparr>pt_x = x, pt_y = v\<rparr>)) (GetInterpolatedValue c x)"

section \<open>Building\<close>

definition Curve_Append :: "CurveData \<Rightarrow> CurveData \<Rightarrow> CurveData" where
  "Curve_Append c other =
     (let offsetX = (if cd_points c \<noteq> [] then pt_x (last (cd_points c)) else 0)
      in c\<lparr>cd_points := cd_points c @ map (\<lambda>p. \<lparr>pt_x = pt_x p + offsetX, pt_y = pt_y p\<rparr>) (cd_points other)\<rparr>)"

definition AppendPoint :: "Point \<Rightarrow> CurveData \<Rightarrow> CurveData" where
  "AppendPoint p c = c\<lparr>cd_points := cd_points c @ [p]\<rparr>"

definition AppendPointLinearized :: "Point \<Rightarrow> real \<Rightarrow> CurveData \<Rightarrow> CurveData" where
  "AppendPointLinearized p delta c =
     (let points = cd_points c;
          points1 = (if length points \<ge> 2 then
                       let lst = points ! (length points - 1); secondLast = points ! (length points - 2);
                           y_inter = Interpolate secondLast p (pt_x lst); y_orig = pt_y lst
                       in if \<bar>y_orig - y_inter\<bar> \<le> delta then butlast points else points
                     else points)
      in c\<lparr>cd_points := points1 @ [p]\<rparr>)"

section \<open>Saving\<close>

definition Point_Serialize :: "Point \<Rightarrow> json \<Rightarrow> json" where
  "Point_Serialize p node =
     SerializeValue ''Y'' (JNumber (pt_y p)) (SerializeValue ''X'' (JNumber (pt_x p))
       (Serializable_Serialize ''huestream.Point'' node))"

definition Point_Deserialize :: "json_lib \<Rightarrow> json \<Rightarrow> Point" where
  "Point_Deserialize L node = \<lparr>pt_x = DeserializeFloat L node ''X'' 0, pt_y = DeserializeFloat L node ''Y'' 0\<rparr>"

definition CurveOptions_Serialize :: "CurveOptions \<Rightarrow> json \<Rightarrow> json" where
  "CurveOptions_Serialize options node =
     (let n1 = SerializeValue ''MultiplyFactor'' (JNumber (co_multiplyFactor options))
                 (Serializable_Serialize ''huestream.CurveOptions'' node);
          n2 = (case co_clipMin options of Some v \<Rightarrow> SerializeValue ''ClipMin'' (JNumber v) n1 | None \<Rightarrow> n1)
      in case co_clipMax options of Some v \<Rightarrow> SerializeValue ''ClipMax'' (JNumber v) n2 | None \<Rightarrow> n2)"

definition CurveOptions_Deserialize :: "json_lib \<Rightarrow> json \<Rightarrow> CurveOptions" where
  "CurveOptions_Deserialize L node =
     \<lparr>co_multiplyFactor = DeserializeFloat L node ''MultiplyFactor'' 1,
      co_clipMin = (if IsAttributeSet node ''ClipMin'' then Some (as_float L (GetAttributeValue node ''ClipMin'')) else None),
      co_clipMax = (if IsAttributeSet node ''ClipMax'' then Some (as_float L (GetAttributeValue node ''ClipMax'')) else None)\<rparr>"

definition Curve_Serialize :: "CurveData \<Rightarrow> json \<Rightarrow> json" where
  "Curve_Serialize c node =
     (let n1 = Serializable_Serialize ''huestream.CurveData'' node;
          n2 = (case cd_options c of
                  Some options \<Rightarrow> push_back ''Options'' (CurveOptions_Serialize options (JNode [])) n1 | None \<Rightarrow> n1)
      in push_back ''Points'' (JArray (map (\<lambda>p. Point_Serialize p (JNode [])) (cd_points c))) n2)"

definition Curve_Deserialize :: "json_lib \<Rightarrow> json \<Rightarrow> CurveData \<Rightarrow> CurveData" where
  "Curve_Deserialize L node c =
     c\<lparr>cd_options := (if IsAttributeSet node ''Options''
                      then Some (CurveOptions_Deserialize L (GetAttributeValue node ''Options'')) else None),
       cd_points := (if IsAttributeSet node ''Points''
                     then map (Point_Deserialize L) (json_children (GetAttributeValue node ''Points'')) else [])\<rparr>"


section \<open>The lookup finds the segment\<close>

definition ordered :: "Point list \<Rightarrow> bool" where
  "ordered points \<longleftrightarrow> sorted (map pt_x points)"

text \<open>The last point that is not to the right of \<open>x\<close>, and the curve without a memory.\<close>

definition segment :: "Point list \<Rightarrow> real \<Rightarrow> nat" where
  "segment points x = length (takeWhile (\<lambda>p. pt_x p \<le> x) points) - 1"

definition on_curve :: "(Point \<Rightarrow> Point \<Rightarrow> real) \<Rightarrow> Point list \<Rightarrow> real \<Rightarrow> real" where
  "on_curve f points x =
     (if x \<le> pt_x (hd points) then pt_y (hd points)
      else if x \<ge> pt_x (last points) then pt_y (last points)
      else f (points ! segment points x) (points ! (segment points x + 1)))"

definition closest_lower :: "Point list \<Rightarrow> real \<Rightarrow> nat \<Rightarrow> bool" where
  "closest_lower points x i \<longleftrightarrow> i < length points \<and> pt_x (points ! i) \<le> x
     \<and> (\<forall>j<length points. i < j \<longrightarrow> x < pt_x (points ! j))"

definition lookup_ready :: "CurveData \<Rightarrow> bool" where
  "lookup_ready c \<longleftrightarrow> length (cd_points c) < 2 \<or> length (cd_points c) \<le> cd_lastIndex c
     \<or> cd_lastIndex c + 1 < length (cd_points c)"

lemma ordered_nth: "ordered points \<Longrightarrow> i \<le> j \<Longrightarrow> j < length points \<Longrightarrow> pt_x (points ! i) \<le> pt_x (points ! j)"
  using sorted_nth_mono[of "map pt_x points" i j] by (simp add: ordered_def)

lemma closest_lower_segment:
  assumes "ordered points" "closest_lower points x i" shows "segment points x = i"
proof -
  have i: "i < length points" "pt_x (points ! i) \<le> x" "\<And>j. j < length points \<Longrightarrow> i < j \<Longrightarrow> x < pt_x (points ! j)"
    using assms(2) by (auto simp: closest_lower_def)
  have "takeWhile (\<lambda>p. pt_x p \<le> x) points = take (Suc i) points"
  proof (rule takeWhile_eq_take_P_nth)
    fix j assume "j < Suc i" "j < length points"
    then show "pt_x (points ! j) \<le> x" using ordered_nth[OF assms(1), of j i] i(1,2) by simp
  qed (use i(3) in \<open>simp add: not_le\<close>)
  then show ?thesis using i(1) by (simp add: segment_def)
qed

lemma closest_lowerI:
  assumes "ordered points" "i + 1 < length points" "pt_x (points ! i) \<le> x" "x < pt_x (points ! (i + 1))"
  shows "closest_lower points x i"
proof -
  have "x < pt_x (points ! j)" if "j < length points" "i < j" for j
    using ordered_nth[OF assms(1), of "i + 1" j] assms(4) that by simp
  then show ?thesis using assms(2,3) by (simp add: closest_lower_def)
qed

lemma upper_bound_loop_spec:
  assumes "ordered points" "first + len \<le> length points"
    and "\<forall>i<first. pt_x (points ! i) \<le> x"
    and "\<forall>i<length points. first + len \<le> i \<longrightarrow> x < pt_x (points ! i)"
  shows "(\<forall>i<upper_bound_loop points x first len. pt_x (points ! i) \<le> x)
    \<and> (\<forall>i<length points. upper_bound_loop points x first len \<le> i \<longrightarrow> x < pt_x (points ! i))
    \<and> upper_bound_loop points x first len \<le> length points"
  using assms
proof (induction points x first len rule: upper_bound_loop.induct)
  case (1 points x first len)
  show ?case
  proof (cases "len = 0")
    case True
    then have "upper_bound_loop points x first len = first" by (subst upper_bound_loop.simps) simp
    then show ?thesis using 1(4-6) True by simp
  next
    case False
    let ?half = "len div 2" and ?middle = "first + len div 2"
    have m: "?middle < length points" using False 1(4) by simp
    show ?thesis
    proof (cases "x < pt_x (points ! ?middle)")
      case True
      have "x < pt_x (points ! i)" if "i < length points" "first + ?half \<le> i" for i
        using ordered_nth[OF 1(3) that(2) that(1)] True by simp
      then have half: "\<forall>i<length points. first + ?half \<le> i \<longrightarrow> x < pt_x (points ! i)" by blast
      have eq: "upper_bound_loop points x first len = upper_bound_loop points x first ?half"
        using False True by (subst upper_bound_loop.simps) (simp add: Let_def)
      have "first + ?half \<le> length points" using m by simp
      then show ?thesis unfolding eq using 1(1)[OF False refl refl True 1(3) _ 1(5) half] by blast
    next
      case upper: False
      have low: "pt_x (points ! i) \<le> x" if "i < ?middle + 1" for i
        using ordered_nth[OF 1(3), of i ?middle] m upper that by simp
      then have low: "\<forall>i<?middle + 1. pt_x (points ! i) \<le> x" by blast
      have e: "?middle + 1 + (len - ?half - 1) = first + len" using False by simp
      have eq: "upper_bound_loop points x first len = upper_bound_loop points x (?middle + 1) (len - ?half - 1)"
        using False upper by (subst upper_bound_loop.simps) (simp add: Let_def)
      show ?thesis unfolding eq by (rule 1(2)[OF False refl refl upper 1(3) _ low]) (use e 1(4,6) in simp_all)
    qed
  qed
qed

lemma upper_bound_closest:
  assumes "ordered points" "upper_bound_loop points x 0 (length points) \<noteq> 0"
  shows "closest_lower points x (upper_bound_loop points x 0 (length points) - 1)"
  using upper_bound_loop_spec[OF assms(1), of 0 "length points" x] assms(2)
  by (auto simp: closest_lower_def)

lemma upper_bound_nonzero:
  assumes "ordered points" "points \<noteq> []" "pt_x (hd points) \<le> x"
  shows "upper_bound_loop points x 0 (length points) \<noteq> 0"
  using upper_bound_loop_spec[OF assms(1), of 0 "length points" x] assms(2,3)
  by (auto simp: hd_conv_nth not_less)

lemma shortcut_spec:
  assumes "ordered points" "k + 1 < length points" "x < pt_x (last points)"
  shows "\<exists>r. shortcut points k x = Some r \<and> (\<forall>i. r = Some i \<longrightarrow> closest_lower points x i)"
proof -
  have lst: "last points = points ! (length points - 1)" using assms(2) by (subst last_conv_nth) auto
  have first: "IsClosestLower points k x = Some (pt_x (points ! k) \<le> x \<and> x < pt_x (points ! (k + 1)))"
    using assms(2) by (simp add: IsClosestLower_def)
  have second: "IsClosestLower points (k + 1) x
      = Some (k + 2 < length points \<and> pt_x (points ! (k + 1)) \<le> x \<and> x < pt_x (points ! (k + 2)))"
  proof (cases "k + 2 = length points")
    case True
    then have "length points - 1 = k + 1" by simp
    then have "x < pt_x (points ! (k + 1))" using assms(3) lst by simp
    then show ?thesis using True assms(2) by (simp add: IsClosestLower_def Let_def)
  next
    case False
    then show ?thesis using assms(2) by (auto simp: IsClosestLower_def Let_def)
  qed
  have "shortcut points k x \<noteq> None"
    unfolding shortcut_def first second by (simp split: bool.split)
  then obtain r where r: "shortcut points k x = Some r" by blast
  have "closest_lower points x i" if "r = Some i" for i
    using r that closest_lowerI[OF assms(1), of k x] closest_lowerI[OF assms(1), of "k + 1" x] assms(2)
    unfolding shortcut_def first second by (auto split: bool.splits)
  then show ?thesis using r by blast
qed

lemma GetStartPoint_spec:
  assumes "ordered (cd_points c)" "lookup_ready c" "2 \<le> length (cd_points c)"
    and "pt_x (hd (cd_points c)) \<le> x" "x < pt_x (last (cd_points c))"
  shows "GetStartPoint c x = Some (c\<lparr>cd_lastIndex := segment (cd_points c) x\<rparr>, segment (cd_points c) x)"
    and "segment (cd_points c) x + 1 < length (cd_points c)"
proof -
  let ?ps = "cd_points c"
  let ?k = "if cd_lastIndex c \<ge> length ?ps then 0 else cd_lastIndex c"
  have k: "?k + 1 < length ?ps" using assms(2,3) by (auto simp: lookup_ready_def)
  obtain r where r: "shortcut ?ps ?k x = Some r" "\<And>i. r = Some i \<Longrightarrow> closest_lower ?ps x i"
    using shortcut_spec[OF assms(1) k assms(5)] by blast
  have u: "upper_bound_loop ?ps x 0 (length ?ps) \<noteq> 0"
    using assms(3) by (intro upper_bound_nonzero[OF assms(1) _ assms(4)]) auto
  note b = upper_bound_closest[OF assms(1) u]
  show "GetStartPoint c x = Some (c\<lparr>cd_lastIndex := segment ?ps x\<rparr>, segment ?ps x)"
  proof (cases r)
    case None
    then show ?thesis using r(1) u closest_lower_segment[OF assms(1) b] by (auto simp: GetStartPoint_def Let_def)
  next
    case (Some i)
    then show ?thesis using r closest_lower_segment[OF assms(1), of x i] by (auto simp: GetStartPoint_def Let_def)
  qed
  have "closest_lower ?ps x (segment ?ps x)" using b closest_lower_segment[OF assms(1) b] by simp
  moreover have "segment ?ps x \<noteq> length ?ps - 1"
  proof
    assume "segment ?ps x = length ?ps - 1"
    moreover have "last ?ps = ?ps ! (length ?ps - 1)" using assms(3) by (subst last_conv_nth) auto
    ultimately show False using \<open>closest_lower ?ps x (segment ?ps x)\<close> assms(5) by (simp add: closest_lower_def)
  qed
  ultimately show "segment ?ps x + 1 < length ?ps" by (auto simp: closest_lower_def)
qed

lemma curve_between_exact:
  assumes "ordered (cd_points c)" "lookup_ready c" "cd_points c \<noteq> []"
  shows "\<exists>k. curve_between f c x = Some (c\<lparr>cd_lastIndex := k\<rparr>,
      on_curve (\<lambda>start fin. f start fin (c\<lparr>cd_lastIndex := k\<rparr>)) (cd_points c) x)
    \<and> lookup_ready (c\<lparr>cd_lastIndex := k\<rparr>)"
proof -
  have ends: "GetBegin c = pt_x (hd (cd_points c))" "GetEnd c = pt_x (last (cd_points c))"
    using assms(3) by (simp_all add: GetBegin_def GetEnd_def HasPoints_def)
  show ?thesis
  proof (cases "2 \<le> length (cd_points c) \<and> GetBegin c < x \<and> x < GetEnd c")
    case True
    then have "pt_x (hd (cd_points c)) \<le> x" "x < pt_x (last (cd_points c))" using ends by simp_all
    note g = GetStartPoint_spec[OF assms(1,2) _ this]
    have "segment (cd_points c) x + 1 < length (cd_points c)" using g(2) True by blast
    then show ?thesis using g(1) True ends
      by (intro exI[of _ "segment (cd_points c) x"])
         (auto simp: curve_between_def GetStartAndEndPoint_def on_curve_def lookup_ready_def Let_def)
  next
    case False
    have single: "last (cd_points c) = hd (cd_points c)" if "length (cd_points c) < 2"
      using that assms(3) by (cases "cd_points c") auto
    have "lookup_ready (c\<lparr>cd_lastIndex := cd_lastIndex c\<rparr>)" using assms(2) by simp
    then show ?thesis using False ends assms(3) single
      by (intro exI[of _ "cd_lastIndex c"]) (auto simp: curve_between_def on_curve_def)
  qed
qed


section \<open>Properties\<close>

text \<open>Positions that are looked up one after the other.\<close>

fun read_all :: "CurveData \<Rightarrow> real list \<Rightarrow> (CurveData \<times> real list) option" where
  "read_all c [] = Some (c, [])"
| "read_all c (x # xs) =
     (case GetInterpolatedValue c x of
        None \<Rightarrow> None
      | Some (c1, v) \<Rightarrow> map_option (\<lambda>(c2, vs). (c2, v # vs)) (read_all c1 xs))"

definition curve_value :: "CurveOptions option \<Rightarrow> Point list \<Rightarrow> real \<Rightarrow> real" where
  "curve_value options points x =
     on_curve (\<lambda>start fin. CorrectValue (CurveData_new [] options) (Interpolate start fin x)) points x"

lemma CorrectValue_cong: "cd_options c = cd_options c' \<Longrightarrow> CorrectValue c v = CorrectValue c' v"
  by (simp add: CorrectValue_def)

lemma GetInterpolatedValue_exact:
  assumes "ordered (cd_points c)" "lookup_ready c" "cd_points c \<noteq> []"
  shows "\<exists>k. GetInterpolatedValue c x = Some (c\<lparr>cd_lastIndex := k\<rparr>, curve_value (cd_options c) (cd_points c) x)
    \<and> lookup_ready (c\<lparr>cd_lastIndex := k\<rparr>)"
  using curve_between_exact[OF assms, of "\<lambda>start fin c1. CorrectValue c1 (Interpolate start fin x)" x]
  by (auto simp: GetInterpolatedValue_def curve_value_def CurveData_new_def CorrectValue_def)

lemma read_all_exact:
  assumes "ordered (cd_points c)" "lookup_ready c" "cd_points c \<noteq> []"
  shows "\<exists>k. read_all c xs = Some (c\<lparr>cd_lastIndex := k\<rparr>, map (curve_value (cd_options c) (cd_points c)) xs)"
  using assms
proof (induction xs arbitrary: c)
  case Nil
  have "c = c\<lparr>cd_lastIndex := cd_lastIndex c\<rparr>" by simp
  then show ?case by (metis list.simps(8) read_all.simps(1))
next
  case (Cons x xs)
  obtain k where k: "GetInterpolatedValue c x = Some (c\<lparr>cd_lastIndex := k\<rparr>, curve_value (cd_options c) (cd_points c) x)"
    "lookup_ready (c\<lparr>cd_lastIndex := k\<rparr>)"
    using GetInterpolatedValue_exact[OF Cons.prems] by blast
  then show ?case using Cons.IH[of "c\<lparr>cd_lastIndex := k\<rparr>"] Cons.prems by auto
qed

lemma Interpolate_start: "Interpolate start fin (pt_x start) = pt_y start" if "pt_x start < pt_x fin"
  using that by (simp add: Interpolate_def linearTween_def Let_def)

lemma curve_hits_points:
  assumes "sorted_wrt (<) (map pt_x points)" "p \<in> set points"
  shows "curve_value None points (pt_x p) = pt_y p"
proof -
  have inj: "q = r" if "q \<in> set points" "r \<in> set points" "pt_x q = pt_x r" for q r
    using assms(1) that strict_sorted_iff[of "map pt_x points"] by (auto simp: distinct_map inj_on_def)
  have ord: "ordered points" using assms(1) by (simp add: ordered_def strict_sorted_iff)
  obtain i where i: "i < length points" "p = points ! i" using assms(2) by (auto simp: in_set_conv_nth)
  have ne: "points \<noteq> []" using i by auto
  show ?thesis
  proof (cases "pt_x p \<le> pt_x (hd points) \<or> pt_x p \<ge> pt_x (last points)")
    case True
    have "pt_x (hd points) \<le> pt_x p" "pt_x p \<le> pt_x (last points)"
      using ordered_nth[OF ord, of 0 i] ordered_nth[OF ord, of i "length points - 1"] i ne
      by (simp_all add: hd_conv_nth last_conv_nth)
    then have "(pt_x p \<le> pt_x (hd points) \<longrightarrow> hd points = p) \<and> (pt_x p \<ge> pt_x (last points) \<longrightarrow> last points = p)"
      using inj assms(2) ne by (metis antisym hd_in_set last_in_set)
    then show ?thesis using True by (auto simp: curve_value_def on_curve_def)
  next
    case False
    then have "i \<noteq> length points - 1" using i ne by (auto simp: last_conv_nth)
    then have next_i: "i + 1 < length points" using i(1) by simp
    then have up: "pt_x p < pt_x (points ! (i + 1))"
      using assms(1) i by (simp add: sorted_wrt_iff_nth_less)
    have "segment points (pt_x p) = i"
      using closest_lower_segment[OF ord] closest_lowerI[OF ord next_i] i(2) up by simp
    then show ?thesis
      using False up i(2) Interpolate_start by (simp add: curve_value_def on_curve_def CorrectValue_def CurveData_new_def)
  qed
qed

text \<open>
  C34 (equivalence). Whatever positions have been looked up before, a curve through points in
  order gives at each position the value that the definition by the surrounding points gives:
  remembering the last segment and searching binarily never changes the value, and no lookup
  leaves the list. Without options the curve passes through its points if their positions differ.
\<close>

theorem curve_lookup_exact:
  assumes "ordered points" "points \<noteq> []"
  shows "\<exists>c. read_all (CurveData_new points options) xs = Some (c, map (curve_value options points) xs)
    \<and> (options = None \<and> sorted_wrt (<) (map pt_x points) \<longrightarrow>
         (\<forall>p\<in>set points. curve_value options points (pt_x p) = pt_y p))"
proof -
  have "lookup_ready (CurveData_new points options)"
    by (simp add: lookup_ready_def CurveData_new_def) linarith
  then have "\<exists>c. read_all (CurveData_new points options) xs = Some (c, map (curve_value options points) xs)"
    using read_all_exact[of "CurveData_new points options" xs] assms by (auto simp: CurveData_new_def)
  then show ?thesis using curve_hits_points by blast
qed

definition sample_points :: "Point list" where
  "sample_points = [\<lparr>pt_x = 0, pt_y = 0\<rparr>, \<lparr>pt_x = 10, pt_y = 1\<rparr>, \<lparr>pt_x = 20, pt_y = 0\<rparr>]"

theorem curve_lookup_exact_witness:
  "\<exists>c. read_all (CurveData_new sample_points None) [15, 5, 30] = Some (c, [1 / 2, 1 / 2, 0])"
proof -
  have "ordered sample_points" "sample_points \<noteq> []" by (simp_all add: ordered_def sample_points_def)
  note * = curve_lookup_exact[OF this, of None "[15, 5, 30]"]
  have v: "map (curve_value None sample_points) [15, 5, 30] = [1 / 2, 1 / 2, 0]"
    by (simp add: curve_value_def on_curve_def segment_def sample_points_def CorrectValue_def CurveData_new_def
        Interpolate_def linearTween_def Let_def)
  show ?thesis using *[unfolded v] by blast
qed

text \<open>
  The options are not applied to the first and the last value. And the remembered place outlives
  the points: after a segment further right was used, reading a shorter curve into the object
  (or setting its points) makes the next lookup read past the end.
\<close>

lemma curve_ends_uncorrected:
  "GetInterpolatedValue (CurveData_new sample_points (Some \<lparr>co_multiplyFactor = 1, co_clipMin = Some (1 / 4), co_clipMax = None\<rparr>)) 0
   = Some (CurveData_new sample_points (Some \<lparr>co_multiplyFactor = 1, co_clipMin = Some (1 / 4), co_clipMax = None\<rparr>), 0)"
  by (simp add: GetInterpolatedValue_def curve_between_def CurveData_new_def sample_points_def GetBegin_def HasPoints_def)

lemma curve_reads_past_end:
  "\<exists>c. GetInterpolatedValue (CurveData_new sample_points None) 15 = Some (c, 1 / 2)
     \<and> GetInterpolatedValue (c\<lparr>cd_points := take 2 sample_points\<rparr>) 5 = None"
proof -
  have "segment sample_points 15 = 1" by (simp add: segment_def sample_points_def)
  moreover have "ordered sample_points" "lookup_ready (CurveData_new sample_points None)"
    by (simp_all add: ordered_def sample_points_def lookup_ready_def CurveData_new_def)
  ultimately have "GetStartPoint (CurveData_new sample_points None) 15 = Some ((CurveData_new sample_points None)\<lparr>cd_lastIndex := 1\<rparr>, 1)"
    using GetStartPoint_spec(1)[of "CurveData_new sample_points None" 15]
    by (simp add: CurveData_new_def sample_points_def)
  then have "GetInterpolatedValue (CurveData_new sample_points None) 15
      = Some ((CurveData_new sample_points None)\<lparr>cd_lastIndex := 1\<rparr>, 1 / 2)"
    by (simp add: GetInterpolatedValue_def curve_between_def GetStartAndEndPoint_def GetBegin_def GetEnd_def HasPoints_def
        CurveData_new_def sample_points_def CorrectValue_def Interpolate_def linearTween_def Let_def)
  then show ?thesis
    by (intro exI[of _ "(CurveData_new sample_points None)\<lparr>cd_lastIndex := 1\<rparr>"])
       (simp add: GetInterpolatedValue_def curve_between_def GetStartAndEndPoint_def GetStartPoint_def shortcut_def
        IsClosestLower_def GetBegin_def GetEnd_def HasPoints_def CurveData_new_def sample_points_def Let_def)
qed

text \<open>Reading a saved curve gives the same points and options.\<close>

lemma Point_read_back: "Point_Deserialize L (Point_Serialize p (JNode [])) = p"
  by (cases p) (simp add: Point_Deserialize_def Point_Serialize_def serialize_defs deserialize_defs)

lemma CurveOptions_read_back: "CurveOptions_Deserialize L (CurveOptions_Serialize options (JNode [])) = options"
  by (cases options; cases "co_clipMin options"; cases "co_clipMax options")
     (simp_all add: CurveOptions_Deserialize_def CurveOptions_Serialize_def serialize_defs deserialize_defs
       IsAttributeSet_def GetAttributeValue_def)

lemma Curve_read_back:
  "Curve_Deserialize L (Curve_Serialize c (JNode [])) c0 = c\<lparr>cd_lastIndex := cd_lastIndex c0\<rparr>"
proof -
  have "map (Point_Deserialize L) (map (\<lambda>p. Point_Serialize p (JNode [])) ps) = ps" for ps
    by (simp add: comp_def Point_read_back)
  then show ?thesis
    by (cases "cd_options c")
       (simp_all add: Curve_Deserialize_def Curve_Serialize_def serialize_defs IsAttributeSet_def
         GetAttributeValue_def CurveOptions_read_back)
qed

end
