(* ===== verification/Animations.thy ===== *)
theory Animations imports Curve "HOL-Library.Word" "HOL-Library.AList" begin

text \<open>
  \<open>huestream/effect/animation/animations\<close>: values that change with a position in milliseconds, the
  marker. The classes are the constructors of one datatype; what they share is kept beside.
  Sequences own their parts: an animation that is appended twice, or to two sequences, is left
  out. The numbers that \<open>Rand\<close> will draw for a random animation are part of its state.

  \<open>SetMarker\<close> and \<open>Rewind\<close> call each other on the parts of a sequence. Their first argument bounds the
  nesting; \<open>None\<close> is a bound that is too small or an access outside a container.
\<close>

section \<open>State\<close>

datatype TweenType = Linear | EaseInOutQuad | EaseInOutSine

datatype animation = Animation (an_marker: real) (an_value: real) (an_kind: animation_kind)
and animation_kind =
    ConstantAnimation (ca_length: real)
  | TweenAnimation (tw_begin: real) (tw_end: real) (tw_time: real) (tw_beginValuePresent: bool)
      (tw_tweenType: TweenType) (tw_at_beginning: bool)
  | CurveAnimation (repeatTimes: real) (cu_curveData: CurveData)
  | FramesAnimation (repeatTimes: real) (fr_fpms: real) (fr_frameLength: real) (fr_frames: "16 word list")
      (fr_compressionEnabled: bool)
  | SequenceAnimation (repeatTimes: real) (sq_sequences: "animation list") (sq_bookmarks: "(string \<times> int) list")
      (sq_startIndex: nat) (sq_currentIndex: int) (sq_offset: real)
  | RandomAnimation (ra_minValue: real) (ra_maxValue: real) (ra_minInterval: real) (ra_maxInterval: real)
      (ra_tweenType: TweenType) (ra_length: real) (ra_offset: real) (ra_tweenAnimation: "animation option")
      (ra_draws: "nat \<Rightarrow> real")

definition ConstantAnimation_new :: "real \<Rightarrow> real \<Rightarrow> animation" where
  "ConstantAnimation_new v l = Animation 0 v (ConstantAnimation l)"

definition TweenAnimation_new :: "real \<Rightarrow> real \<Rightarrow> real \<Rightarrow> TweenType \<Rightarrow> animation" where
  "TweenAnimation_new valueBegin valueEnd timeMs tweenType =
     Animation 0 0 (TweenAnimation valueBegin valueEnd timeMs True tweenType True)"

definition TweenAnimation_to :: "real \<Rightarrow> real \<Rightarrow> TweenType \<Rightarrow> animation" where
  "TweenAnimation_to valueEnd timeMs tweenType =
     Animation 0 0 (TweenAnimation 0 valueEnd timeMs False tweenType True)"

definition CurveAnimation_new :: "real \<Rightarrow> Point list \<Rightarrow> CurveOptions option \<Rightarrow> animation" where
  "CurveAnimation_new rt points options = Animation 0 0 (CurveAnimation rt (CurveData_new points options))"

definition FramesAnimation_new :: "real \<Rightarrow> animation" where
  "FramesAnimation_new fps = Animation 0 0 (FramesAnimation 0 (fps / 1000) (1000 / fps) [] True)"

definition SequenceAnimation_new :: "real \<Rightarrow> animation" where
  "SequenceAnimation_new rt = Animation 0 0 (SequenceAnimation rt [] [] 0 (-1) 0)"

definition RandomAnimation_new ::
  "real \<Rightarrow> real \<Rightarrow> real \<Rightarrow> real \<Rightarrow> TweenType \<Rightarrow> real \<Rightarrow> (nat \<Rightarrow> real) \<Rightarrow> animation" where
  "RandomAnimation_new minValue maxValue minInterval maxInterval tweenType len draws =
     Animation 0 0 (RandomAnimation minValue maxValue minInterval maxInterval tweenType len 0 None draws)"

section \<open>Lengths\<close>

definition total_of :: "real \<Rightarrow> real \<Rightarrow> real" where
  "total_of rt lengthMs = (if lengthMs = DBL_INF \<or> rt = DBL_INF then DBL_INF else lengthMs * (rt + 1))"

definition sequence_length :: "real list \<Rightarrow> real" where
  "sequence_length lengths = (if DBL_INF \<in> set lengths then DBL_INF else sum_list lengths)"

fun GetTotalLength :: "animation \<Rightarrow> real"
and GetLengthMs :: "animation_kind \<Rightarrow> real" where
  "GetTotalLength (Animation marker v k) = (case k of
      ConstantAnimation l \<Rightarrow> GetLengthMs k
    | TweenAnimation b e t p ty a \<Rightarrow> GetLengthMs k
    | RandomAnimation lo hi i1 i2 ty l offset t draws \<Rightarrow> GetLengthMs k
    | _ \<Rightarrow> total_of (repeatTimes k) (GetLengthMs k))"
| "GetLengthMs (ConstantAnimation l) = l"
| "GetLengthMs (TweenAnimation b e t p ty a) = t"
| "GetLengthMs (CurveAnimation rt c) = Curve_GetLength c"
| "GetLengthMs (FramesAnimation rt fpms frameLength frames cmp) = real (length frames) * frameLength"
| "GetLengthMs (SequenceAnimation rt as bm startIndex currentIndex offset) =
     sequence_length (drop startIndex (map GetTotalLength as))"
| "GetLengthMs (RandomAnimation lo hi i1 i2 ty l offset t draws) = l"

definition IsEndless :: "animation \<Rightarrow> bool" where
  "IsEndless a \<longleftrightarrow> GetTotalLength a = DBL_INF"

text \<open>
  What \<open>UpdateValue\<close> of a sequence takes as the length of a part. The offset of a random animation
  does not count: its class is not triggerable.
\<close>

definition part_length :: "animation \<Rightarrow> real" where
  "part_length a = GetTotalLength a + (case an_kind a of SequenceAnimation rt as bm si ci offset \<Rightarrow> offset | _ \<Rightarrow> 0)"

definition IsPlaying :: "animation \<Rightarrow> bool option" where
  "IsPlaying a = (case an_kind a of
      SequenceAnimation rt as bm startIndex currentIndex offset \<Rightarrow>
        (if startIndex \<ge> length as then None
         else Some (an_marker a - (part_length (as ! startIndex) - GetTotalLength (as ! startIndex)) - offset
                    < GetLengthMs (an_kind a)))
    | _ \<Rightarrow> Some (an_marker a < GetTotalLength a))"

section \<open>Values\<close>

definition tween_value :: "TweenType \<Rightarrow> real \<Rightarrow> real \<Rightarrow> real \<Rightarrow> real \<Rightarrow> real" where
  "tween_value ty = (case ty of Linear \<Rightarrow> linearTween | EaseInOutQuad \<Rightarrow> easeInOutQuad | EaseInOutSine \<Rightarrow> easeInOutSine)"

definition frame_value :: "16 word \<Rightarrow> real" where
  "frame_value f = real_of_int (uint f) / 65535"

definition frames_value :: "real \<Rightarrow> real \<Rightarrow> 16 word list \<Rightarrow> real \<Rightarrow> real option" where
  "frames_value fpms frameLength frames positionMs =
     (let fracIndex = positionMs * fpms; roundIndex = \<lfloor>fracIndex\<rfloor>
      in if roundIndex < 0 then None
         else let index = nat roundIndex
              in if index \<ge> length frames - 1 then Some (frame_value (last frames))
                 else let position = (fracIndex - real_of_int roundIndex) * frameLength;
                          start = frame_value (frames ! index); fin = frame_value (frames ! (index + 1))
                      in Some (linearTween position start fin frameLength))"

text \<open>The part that plays: its index and the position in it.\<close>

fun playing_part :: "nat \<Rightarrow> real list \<Rightarrow> real \<Rightarrow> (nat \<times> real) option" where
  "playing_part i [] positionMs = None"
| "playing_part i (l # ls) positionMs =
     (if positionMs < l then Some (i, positionMs) else playing_part (i + 1) ls (positionMs - l))"

text \<open>\<open>OnMarkerUpdate\<close> of a repeatable animation first takes the repetitions off the marker.\<close>

definition repeat_marker :: "real \<Rightarrow> real \<Rightarrow> real \<Rightarrow> real" where
  "repeat_marker rt lengthMs marker =
     (let n = trunc (marker / lengthMs) in if real_of_int n \<le> rt then marker - real_of_int n * lengthMs else marker)"

text \<open>\<open>Rand\<close> of a number drawn between 0 and 1, and the transition a random animation is in.\<close>

definition Rand :: "real \<Rightarrow> real \<Rightarrow> real \<Rightarrow> real" where
  "Rand lo hi drawn = drawn * (hi - lo) + lo"

definition current_tween :: "real \<Rightarrow> animation_kind \<Rightarrow> real \<times> animation \<times> (nat \<Rightarrow> real)" where
  "current_tween positionMs k =
     (let timeLeft = ra_length k - positionMs;
          randVal = Rand (ra_minValue k) (ra_maxValue k) (ra_draws k 0);
          randInterval = Rand (ra_minInterval k) (ra_maxInterval k) (ra_draws k 1);
          randInterval = (if randInterval > timeLeft then timeLeft else randInterval);
          fresh = (positionMs, TweenAnimation_to randVal randInterval (ra_tweenType k), \<lambda>i. ra_draws k (i + 2))
      in case ra_tweenAnimation k of
           None \<Rightarrow> fresh
         | Some t \<Rightarrow> if positionMs - ra_offset k \<ge> GetTotalLength t then fresh else (ra_offset k, t, ra_draws k))"

fun SetMarker :: "nat \<Rightarrow> real \<Rightarrow> animation \<Rightarrow> animation option"
and Rewind :: "nat \<Rightarrow> animation \<Rightarrow> animation option" where
  "SetMarker 0 m a = None"
| "SetMarker (Suc n) m (Animation old v (ConstantAnimation l)) = Some (Animation m v (ConstantAnimation l))"
| "SetMarker (Suc n) m (Animation old v (TweenAnimation b e t present ty at_beginning)) =
     (let b = (if \<not> present \<and> at_beginning then v else b)
      in Some (Animation m (tween_value ty m b e t) (TweenAnimation b e t present ty False)))"
| "SetMarker (Suc n) m (Animation old v (CurveAnimation rt c)) =
     (let m = repeat_marker rt (Curve_GetLength c) m
      in map_option (\<lambda>(c, v). Animation m v (CurveAnimation rt c)) (GetInterpolatedValue c m))"
| "SetMarker (Suc n) m (Animation old v (FramesAnimation rt fpms frameLength frames cmp)) =
     (let m = repeat_marker rt (GetLengthMs (FramesAnimation rt fpms frameLength frames cmp)) m
      in if frames = [] then Some (Animation m v (FramesAnimation rt fpms frameLength frames cmp))
         else map_option (\<lambda>v. Animation m v (FramesAnimation rt fpms frameLength frames cmp))
                (frames_value fpms frameLength frames m))"
| "SetMarker (Suc n) m (Animation old v (SequenceAnimation rt as bm startIndex currentIndex offset)) =
     (let m = repeat_marker rt (GetLengthMs (SequenceAnimation rt as bm startIndex currentIndex offset)) m
      in case playing_part startIndex (drop startIndex (map part_length as)) (m - offset) of
           None \<Rightarrow> Some (Animation m v (SequenceAnimation rt as bm startIndex currentIndex offset))
         | Some (i, position) \<Rightarrow>
             (case (if int i \<noteq> currentIndex then Rewind n (as ! i) else Some (as ! i)) of
                None \<Rightarrow> None
              | Some part \<Rightarrow>
                  (case SetMarker n position part of
                     None \<Rightarrow> None
                   | Some part1 \<Rightarrow> Some (Animation m (an_value part1)
                       (SequenceAnimation rt (as[i := part1]) bm startIndex (int i) offset)))))"
| "SetMarker (Suc n) m (Animation old v (RandomAnimation lo hi i1 i2 ty l offset t draws)) =
     (let (offset1, tween, draws1) = current_tween m (RandomAnimation lo hi i1 i2 ty l offset t draws)
      in map_option (\<lambda>tween1. Animation m (an_value tween1)
             (RandomAnimation lo hi i1 i2 ty l offset1 (Some tween1) draws1))
           (SetMarker n (m - offset1) (Animation (an_marker tween) v (an_kind tween))))"
| "Rewind 0 a = None"
| "Rewind (Suc n) (Animation m v (SequenceAnimation rt as bm startIndex currentIndex offset)) =
     (case those (map (Rewind n) as) of
        None \<Rightarrow> None
      | Some parts \<Rightarrow>
          (case SetMarker n 0 (Animation m v (SequenceAnimation rt parts bm startIndex currentIndex offset)) of
             Some (Animation m1 v1 (SequenceAnimation rt1 as1 bm1 si1 ci1 of1)) \<Rightarrow>
               Some (Animation m1 v1 (SequenceAnimation rt1 as1 bm1 0 (-1) 0))
           | _ \<Rightarrow> None))"
| "Rewind (Suc n) (Animation m v (TweenAnimation b e t present ty at_beginning)) =
     (case SetMarker n 0 (Animation m v (TweenAnimation b e t present ty at_beginning)) of
        Some (Animation m1 v1 (TweenAnimation b1 e1 t1 p1 ty1 a1)) \<Rightarrow>
          Some (Animation m1 v1 (TweenAnimation b1 e1 t1 p1 ty1 True))
      | _ \<Rightarrow> None)"
| "Rewind (Suc n) (Animation m v k) = SetMarker n 0 (Animation m v k)"


section \<open>Sequences\<close>

definition Append :: "animation \<Rightarrow> string \<Rightarrow> animation \<Rightarrow> (animation \<times> int) option" where
  "Append part bookmark a = (case an_kind a of
      SequenceAnimation rt as bm si ci offset \<Rightarrow>
        (let as1 = as @ [part]; index = int (length as1) - 1;
             bm1 = (if bookmark \<noteq> [] then AList.update bookmark index bm else bm)
         in Some (Animation (an_marker a) (an_value a) (SequenceAnimation rt as1 bm1 si ci offset), index))
    | _ \<Rightarrow> None)"

definition UpdateSequence :: "nat \<Rightarrow> int \<Rightarrow> real \<Rightarrow> animation \<Rightarrow> animation option" where
  "UpdateSequence n startIndex startValueMarker a = (case an_kind a of
      SequenceAnimation rt as bm si ci offset \<Rightarrow>
        SetMarker n (an_marker a) (Animation (an_marker a) (an_value a)
          (SequenceAnimation rt as bm (nat (startIndex mod 2 ^ 64)) ci startValueMarker))
    | _ \<Rightarrow> None)"

definition Trigger :: "nat \<Rightarrow> int \<Rightarrow> animation \<Rightarrow> animation option" where
  "Trigger n index a = UpdateSequence n index (an_marker a) a"

definition Trigger_bookmark :: "nat \<Rightarrow> string \<Rightarrow> animation \<Rightarrow> animation option" where
  "Trigger_bookmark n bookmark a = (case map_of (sq_bookmarks (an_kind a)) bookmark of
      None \<Rightarrow> Some a | Some index \<Rightarrow> Trigger n index a)"

text \<open>The first position, in whole milliseconds, at which a tween has the value to three places.\<close>

definition GetPositionFromValue :: "animation \<Rightarrow> real \<Rightarrow> real" where
  "GetPositionFromValue a v = (case an_kind a of
      TweenAnimation b e t present ty at_beginning \<Rightarrow>
        (let value_rounded = trunc (v * 1000)
         in case List.find (\<lambda>pos. trunc (tween_value ty (real pos) b e t * 1000) = value_rounded) [0..<nat \<lfloor>t\<rfloor> + 1] of
              Some pos \<Rightarrow> real pos | None \<Rightarrow> 0)
    | _ \<Rightarrow> 0)"

definition TriggerOnLevel :: "nat \<Rightarrow> string \<Rightarrow> animation \<Rightarrow> animation option" where
  "TriggerOnLevel n bookmark a = (case map_of (sq_bookmarks (an_kind a)) bookmark of
      None \<Rightarrow> Some a
    | Some startIndex \<Rightarrow>
        (if startIndex < 0 \<or> startIndex \<ge> int (length (sq_sequences (an_kind a))) then None
         else UpdateSequence n startIndex
           (an_marker a - GetPositionFromValue (sq_sequences (an_kind a) ! nat startIndex) (an_value a)) a))"

lemma less_DBL_INF: "x < 2 ^ 40 \<Longrightarrow> x < DBL_INF"
proof -
  assume x: "x < 2 ^ 40"
  have "(2::real) powr (-52) < 2 powr 0" by (rule powr_less_mono) simp_all
  moreover have "(2::real) powr 40 < 2 powr 1023" by (rule powr_less_mono) simp_all
  ultimately have "1 * 2 powr 40 < (2 - 2 powr (-52)) * (2::real) powr 1023"
    by (intro mult_strict_mono) simp_all
  with x show ?thesis by (simp add: DBL_INF_def)
qed

lemma not_DBL_INF:
  "1 \<le> DBL_INF" "DBL_INF \<noteq> 1" "DBL_INF \<noteq> 500" "DBL_INF \<noteq> 1000" "DBL_INF \<noteq> 1500"
  using less_DBL_INF[of 1] less_DBL_INF[of 500] less_DBL_INF[of 1000] less_DBL_INF[of 1500] by auto

lemma DBL_INF_Nats: "DBL_INF \<in> \<nat>"
proof -
  have p: "(2::real) powr (-52) * 2 powr 1023 = 2 ^ 971" "(2::real) powr 1023 = 2 ^ 1023"
    unfolding powr_add[symmetric] by (simp_all add: powr_numeral)
  have "DBL_INF = 2 * 2 powr 1023 - 2 powr (-52) * 2 powr 1023" unfolding DBL_INF_def by (rule left_diff_distrib)
  also have "\<dots> = 2 * 2 ^ 1023 - 2 ^ 971" unfolding p(1) unfolding p(2) ..
  also have "\<dots> = real (2 * 2 ^ 1023 - 2 ^ 971)" by (simp add: of_nat_diff)
  finally have "DBL_INF = real (2 * 2 ^ 1023 - 2 ^ 971)" .
  then show ?thesis using of_nat_in_Nats by metis
qed

section \<open>Playing is a function of the position\<close>

text \<open>
  Animations that are not random and were not triggered, with lengths and repetitions as they make
  sense: tweens that know where they begin, curves through ordered points, whole numbers of
  repetitions.
\<close>

definition repeats_ok :: "real \<Rightarrow> real \<Rightarrow> bool" where
  "repeats_ok rt l \<longleftrightarrow> 0 < l \<and> rt \<in> \<nat> \<and> rt \<le> DBL_INF \<and> (rt = DBL_INF \<longrightarrow> 1 \<le> l)"

fun plain :: "animation \<Rightarrow> bool" and plain_kind :: "animation_kind \<Rightarrow> bool" where
  "plain (Animation m v k) \<longleftrightarrow> plain_kind k"
| "plain_kind (ConstantAnimation l) \<longleftrightarrow> 0 < l"
| "plain_kind (TweenAnimation b e t present ty at_beginning) \<longleftrightarrow> 0 < t \<and> present"
| "plain_kind (CurveAnimation rt c) \<longleftrightarrow> repeats_ok rt (Curve_GetLength c) \<and> ordered (cd_points c) \<and> lookup_ready c
     \<and> cd_points c \<noteq> []"
| "plain_kind (FramesAnimation rt fpms frameLength frames cmp) \<longleftrightarrow>
     repeats_ok rt (real (length frames) * frameLength) \<and> 0 < fpms \<and> frames \<noteq> []"
| "plain_kind (SequenceAnimation rt as bm si ci offset) \<longleftrightarrow> si = 0 \<and> offset = 0 \<and> (\<forall>a\<in>set as. plain a)
     \<and> repeats_ok rt (sequence_length (map GetTotalLength as))"
| "plain_kind (RandomAnimation lo hi i1 i2 ty l offset t draws) \<longleftrightarrow> False"

fun value_at :: "animation \<Rightarrow> real \<Rightarrow> real" and kind_value :: "animation_kind \<Rightarrow> real \<Rightarrow> real \<Rightarrow> real" where
  "value_at (Animation m v k) x = kind_value k v x"
| "kind_value (ConstantAnimation l) v x = v"
| "kind_value (TweenAnimation b e t present ty at_beginning) v x = tween_value ty x b e t"
| "kind_value (CurveAnimation rt c) v x =
     curve_value (cd_options c) (cd_points c) (repeat_marker rt (Curve_GetLength c) x)"
| "kind_value (FramesAnimation rt fpms frameLength frames cmp) v x =
     (case frames_value fpms frameLength frames (repeat_marker rt (real (length frames) * frameLength) x) of
        Some w \<Rightarrow> w | None \<Rightarrow> 0)"
| "kind_value (SequenceAnimation rt as bm si ci offset) v x =
     (case playing_part 0 (map GetTotalLength as) (repeat_marker rt (sequence_length (map GetTotalLength as)) x) of
        Some (i, position) \<Rightarrow> (map value_at as ! i) position | None \<Rightarrow> 0)"
| "kind_value (RandomAnimation lo hi i1 i2 ty l offset t draws) v x = v"

fun depth :: "animation \<Rightarrow> nat" and kind_depth :: "animation_kind \<Rightarrow> nat" where
  "depth (Animation m v k) = kind_depth k"
| "kind_depth (SequenceAnimation rt as bm si ci offset) = Suc (Max (insert 0 (set (map depth as))))"
| "kind_depth (RandomAnimation lo hi i1 i2 ty l offset t draws) = Suc (case map_option depth t of None \<Rightarrow> 0 | Some d \<Rightarrow> d)"
| "kind_depth k = 0"

lemma depth_part: "a \<in> set as \<Longrightarrow> Suc (depth a) \<le> kind_depth (SequenceAnimation rt as bm si ci offset)"
  by simp

lemma those_Some_iff: "those xs = Some ys \<longleftrightarrow> xs = map Some ys"
  by (induction xs arbitrary: ys) (auto split: option.splits)

text \<open>
  The nesting bound: for every animation, also one that was triggered, \<open>2 * depth a + 1\<close> is as good
  for \<open>SetMarker\<close> as anything larger, and one more for \<open>Rewind\<close>.
\<close>

lemma depth_update:
  assumes "\<And>x. x \<in> set bs \<Longrightarrow> \<exists>y\<in>set as. depth x \<le> depth y"
  shows "kind_depth (SequenceAnimation rt bs bm si ci offset) \<le> kind_depth (SequenceAnimation rt' as bm' si' ci' offset')"
proof -
  have "depth x \<le> Max (insert 0 (set (map depth as)))" if x: "x \<in> set bs" for x
  proof -
    obtain y where "y \<in> set as" "depth x \<le> depth y" using assms[OF x] by blast
    then show ?thesis by (intro order_trans[OF _ Max_ge[of _ "depth y"]]) auto
  qed
  then show ?thesis by simp
qed

lemma rewound_depth:
  assumes "those (map (Rewind n) as) = Some parts" "\<And>x y. Rewind n x = Some y \<Longrightarrow> depth y \<le> depth x"
  shows "kind_depth (SequenceAnimation rt parts bm si ci offset) \<le> kind_depth (SequenceAnimation rt' as bm' si' ci' offset')"
proof (rule depth_update)
  fix x assume x: "x \<in> set parts"
  have "map (Rewind n) as = map Some parts" using assms(1) by (simp add: those_Some_iff)
  then have "Some x \<in> Rewind n ` set as" using x by (metis image_eqI list.set_map)
  then show "\<exists>y\<in>set as. depth x \<le> depth y" using assms(2) by (auto dest: sym)
qed

lemma playing_part_range: "playing_part k ls x = Some (i, p) \<Longrightarrow> k \<le> i \<and> i < k + length ls"
  by (induction k ls x rule: playing_part.induct) (auto split: if_splits)

lemma current_tween_depth:
  "current_tween m (RandomAnimation lo hi i1 i2 ty l offset t draws) = (o1, tween, draws1) \<Longrightarrow>
   Suc (depth tween) \<le> kind_depth (RandomAnimation lo hi i1 i2 ty l offset t draws)"
  by (auto simp: current_tween_def TweenAnimation_to_def Let_def split: option.splits if_splits)

lemma depth_not_larger:
  "(\<forall>m a b. SetMarker n m a = Some b \<longrightarrow> depth b \<le> depth a) \<and> (\<forall>a b. Rewind n a = Some b \<longrightarrow> depth b \<le> depth a)"
proof (induction n)
  case (Suc n)
  have set: "depth b \<le> depth a" if "SetMarker n m a = Some b" for m a b using Suc that by blast
  have rewind: "depth b \<le> depth a" if "Rewind n a = Some b" for a b using Suc that by blast
  have set_Suc: "depth b \<le> depth a" if b: "SetMarker (Suc n) m a = Some b" for m a b
  proof (cases a)
    case (Animation old v k)
    show ?thesis
    proof (cases k)
      case (SequenceAnimation rt as bm si ci offset)
      have upd: "kind_depth (SequenceAnimation rt (as[i := y]) bm si' ci' offset) \<le> kind_depth k"
        if y: "depth y \<le> depth (as ! i)" for i y si' ci'
      proof (cases "i < length as")
        case True
        then have "\<exists>z\<in>set as. depth x \<le> depth z" if "x \<in> set (as[i := y])" for x
          using set_update_subset_insert[of as i y] that y nth_mem by fastforce
        then show ?thesis unfolding SequenceAnimation by (rule depth_update)
      qed (use SequenceAnimation in \<open>simp add: list_update_beyond not_less\<close>)
      let ?m = "repeat_marker rt (GetLengthMs k) m"
      show ?thesis
      proof (cases "playing_part si (drop si (map part_length as)) (?m - offset)")
        case None
        then show ?thesis using b Animation SequenceAnimation by (auto simp: Let_def)
      next
        case (Some ip)
        obtain i position where ip: "ip = (i, position)" by fastforce
        obtain part part1 where part: "(if int i \<noteq> ci then Rewind n (as ! i) else Some (as ! i)) = Some part"
          "SetMarker n position part = Some part1"
          "b = Animation ?m (an_value part1) (SequenceAnimation rt (as[i := part1]) bm si (int i) offset)"
          using b Animation SequenceAnimation Some ip by (auto simp: Let_def split: option.splits)
        have "depth part \<le> depth (as ! i)" using part(1) rewind by (auto split: if_splits)
        then have "depth part1 \<le> depth (as ! i)" using set[OF part(2)] by simp
        from upd[OF this] show ?thesis unfolding part(3) Animation depth.simps .
      qed
    next
      case (RandomAnimation lo hi i1 i2 ty l offset t draws)
      obtain o1 tween draws1 where c: "current_tween m k = (o1, tween, draws1)" by (metis prod_cases3)
      obtain tween1 where t: "SetMarker n (m - o1) (Animation (an_marker tween) v (an_kind tween)) = Some tween1"
        "b = Animation m (an_value tween1) (RandomAnimation lo hi i1 i2 ty l o1 (Some tween1) draws1)"
        using b c Animation RandomAnimation by auto
      have "depth tween1 \<le> depth tween" using set[OF t(1)] by (cases tween) simp
      then show ?thesis
        using current_tween_depth[of m lo hi i1 i2 ty l offset t draws] c t(2) Animation RandomAnimation by simp
    qed (use b Animation in \<open>auto simp: Let_def split: if_splits\<close>)
  qed
  have "depth b \<le> depth a" if b: "Rewind (Suc n) a = Some b" for a b
  proof (cases a)
    case (Animation m v k)
    show ?thesis
    proof (cases k)
      case (SequenceAnimation rt as bm si ci offset)
      obtain parts m1 v1 rt1 as1 bm1 si1 ci1 of1 where c: "those (map (Rewind n) as) = Some parts"
        "SetMarker n 0 (Animation m v (SequenceAnimation rt parts bm si ci offset))
          = Some (Animation m1 v1 (SequenceAnimation rt1 as1 bm1 si1 ci1 of1))"
        "b = Animation m1 v1 (SequenceAnimation rt1 as1 bm1 0 (-1) 0)"
        using b Animation SequenceAnimation by (auto split: option.splits animation.splits animation_kind.splits)
      have "kind_depth (SequenceAnimation rt parts bm si ci offset) \<le> kind_depth k"
        unfolding SequenceAnimation by (rule rewound_depth[OF c(1) rewind])
      moreover have "depth b = depth (Animation m1 v1 (SequenceAnimation rt1 as1 bm1 si1 ci1 of1))" by (simp add: c(3))
      ultimately show ?thesis using set[OF c(2)] Animation by (simp only: depth.simps)
    qed (use b Animation set in \<open>force split: option.splits animation.splits animation_kind.splits\<close>)+
  qed
  with set_Suc show ?case by blast
qed simp

lemma depth_SetMarker: "SetMarker n m a = Some b \<Longrightarrow> depth b \<le> depth a"
  using depth_not_larger by blast

lemma depth_Rewind: "Rewind n a = Some b \<Longrightarrow> depth b \<le> depth a"
  using depth_not_larger by blast

lemma bound_step:
  "(\<forall>m a. 2 * depth a + 1 \<le> n \<longrightarrow> SetMarker (Suc n) m a = SetMarker n m a)
   \<and> (\<forall>a. 2 * depth a + 2 \<le> n \<longrightarrow> Rewind (Suc n) a = Rewind n a)"
proof (induction n)
  case (Suc n)
  have set: "SetMarker (Suc n) m a = SetMarker n m a" if "2 * depth a + 1 \<le> n" for m a using Suc that by blast
  have rewind: "Rewind (Suc n) a = Rewind n a" if "2 * depth a + 2 \<le> n" for a using Suc that by blast
  have "SetMarker (Suc (Suc n)) m a = SetMarker (Suc n) m a" if a: "2 * depth a + 1 \<le> Suc n" for m a
  proof (cases a)
    case (Animation old v k)
    show ?thesis
    proof (cases k)
      case (SequenceAnimation rt as bm si ci offset)
      have part: "2 * depth x + 2 \<le> n" if "x \<in> set as" for x
        using depth_part[OF that, of rt bm si ci offset] a Animation SequenceAnimation by simp
      let ?m = "repeat_marker rt (GetLengthMs k) m"
      show ?thesis
      proof (cases "playing_part si (drop si (map part_length as)) (?m - offset)")
        case None
        then show ?thesis using Animation SequenceAnimation by (simp add: Let_def)
      next
        case (Some ip)
        obtain i position where ip: "ip = (i, position)" by fastforce
        have i: "i < length as" using playing_part_range[of si "drop si (map part_length as)"] Some ip by fastforce
        have old: "2 * depth (as ! i) + 2 \<le> n" using part i by simp
        have "SetMarker (Suc n) position x = SetMarker n position x" if "x = as ! i \<or> Rewind n (as ! i) = Some x" for x
          using that old depth_Rewind[of n "as ! i" x] by (intro set) auto
        then show ?thesis
          unfolding Animation SequenceAnimation
          using Some[unfolded SequenceAnimation] ip rewind[OF old]
          by (simp add: Let_def del: SetMarker.simps Rewind.simps GetLengthMs.simps add: SetMarker.simps(6)[of "Suc n"] SetMarker.simps(6)[of n]
              split: option.split)
      qed
    next
      case (RandomAnimation lo hi i1 i2 ty l offset t draws)
      obtain o1 tween draws1 where c: "current_tween m k = (o1, tween, draws1)" by (metis prod_cases3)
      then have "Suc (depth tween) \<le> depth a"
        using current_tween_depth RandomAnimation Animation by simp
      then have "2 * depth (Animation (an_marker tween) v (an_kind tween)) + 1 \<le> n" using a by (cases tween) simp
      then show ?thesis using set c unfolding Animation RandomAnimation by simp
    qed (simp_all add: Animation)
  qed
  moreover have "Rewind (Suc (Suc n)) a = Rewind (Suc n) a" if a: "2 * depth a + 2 \<le> Suc n" for a
  proof (cases a)
    case (Animation m v k)
    have leaf: "SetMarker (Suc n) 0 a = SetMarker n 0 a" using set a by simp
    show ?thesis
    proof (cases k)
      case (SequenceAnimation rt as bm si ci offset)
      have "Rewind (Suc n) x = Rewind n x" if "x \<in> set as" for x
        using depth_part[OF that, of rt bm si ci offset] a Animation SequenceAnimation by (intro rewind) simp
      then have parts: "map (Rewind (Suc n)) as = map (Rewind n) as" by simp
      have "SetMarker (Suc n) 0 (Animation m v (SequenceAnimation rt ps bm si ci offset))
          = SetMarker n 0 (Animation m v (SequenceAnimation rt ps bm si ci offset))"
        if "those (map (Rewind n) as) = Some ps" for ps
      proof -
        have "kind_depth (SequenceAnimation rt ps bm si ci offset) \<le> kind_depth k"
          unfolding SequenceAnimation by (rule rewound_depth[OF that depth_Rewind])
        then show ?thesis using a Animation by (intro set) simp
      qed
      then show ?thesis
        unfolding Animation SequenceAnimation
        by (simp add: parts del: SetMarker.simps Rewind.simps add: Rewind.simps(2) split: option.split)
    next
      case (TweenAnimation b e t present ty at_beginning)
      then show ?thesis using leaf Animation by (simp del: SetMarker.simps)
    qed (use leaf Animation in \<open>simp_all del: SetMarker.simps\<close>)
  qed
  ultimately show ?case by blast
qed simp

text \<open>The two operations with the bound that is enough: \<open>None\<close> is then a failing access only.\<close>

definition set_marker :: "real \<Rightarrow> animation \<Rightarrow> animation option" where
  "set_marker m a = SetMarker (2 * depth a + 1) m a"

definition rewind :: "animation \<Rightarrow> animation option" where
  "rewind a = Rewind (2 * depth a + 2) a"

lemma SetMarker_enough: "2 * depth a + 1 \<le> n \<Longrightarrow> SetMarker n m a = set_marker m a"
  unfolding set_marker_def by (induction n rule: dec_induct) (simp_all add: bound_step)

lemma Rewind_enough: "2 * depth a + 2 \<le> n \<Longrightarrow> Rewind n a = rewind a"
  unfolding rewind_def by (induction n rule: dec_induct) (simp_all add: bound_step)

definition same_animation :: "animation \<Rightarrow> animation \<Rightarrow> bool" where
  "same_animation a b \<longleftrightarrow> plain b \<and> GetTotalLength b = GetTotalLength a \<and> depth b = depth a \<and> value_at b = value_at a"

lemma same_refl: "plain a \<Longrightarrow> same_animation a a"
  by (simp add: same_animation_def)

lemma same_trans: "same_animation a b \<Longrightarrow> same_animation b c \<Longrightarrow> same_animation a c"
  by (simp add: same_animation_def)

lemma plain_part: "plain a \<Longrightarrow> part_length a = GetTotalLength a"
  by (cases a; cases "an_kind a") (simp_all add: part_length_def)

lemma repeat_marker_nonneg:
  assumes "0 < l" "0 \<le> m" shows "0 \<le> repeat_marker rt l m"
  using floor_divide_lower[OF assms(1), of m] assms by (simp add: repeat_marker_def trunc_nonneg Let_def)

text \<open>The repetitions that are over do not exceed those to play.\<close>

lemma repeats_over:
  assumes "repeats_ok rt l" "0 \<le> m" "m < total_of rt l"
  shows "real_of_int (trunc (m / l)) \<le> rt"
proof -
  have l: "0 < l" and rt: "rt \<in> \<nat>" using assms(1) by (simp_all add: repeats_ok_def)
  obtain k where k: "rt = real k" using rt by (auto simp: Nats_def)
  have t: "trunc (m / l) = \<lfloor>m / l\<rfloor>" using assms(2) l by (simp add: trunc_nonneg)
  have "m / l < real k + 1"
  proof (cases "l = DBL_INF \<or> rt = DBL_INF")
    case True
    then have m: "m < DBL_INF" using assms(3) by (simp add: total_of_def)
    show ?thesis
    proof (cases "l = DBL_INF")
      case True
      then have "m / l < 1" using m DBL_INF_pos by simp
      then show ?thesis by simp
    next
      case False
      then have "rt = DBL_INF" "1 \<le> l" using True assms(1) by (auto simp: repeats_ok_def)
      then have "m / l \<le> m" using assms(2) by (simp add: divide_le_eq mult_left_le_one_le mult_le_cancel_left1)
      then show ?thesis using m k \<open>rt = DBL_INF\<close> by simp
    qed
  next
    case False
    then have "m < l * (real k + 1)" using assms(3) k by (simp add: total_of_def)
    then show ?thesis using l by (simp add: divide_less_eq mult.commute)
  qed
  then have "\<lfloor>m / l\<rfloor> < int k + 1" by linarith
  then show ?thesis using k t by linarith
qed

lemma repeat_marker_range:
  assumes "repeats_ok rt l" "0 \<le> m" "m < total_of rt l"
  shows "repeat_marker rt l m < l"
proof -
  have l: "0 < l" using assms(1) by (simp add: repeats_ok_def)
  have t: "trunc (m / l) = \<lfloor>m / l\<rfloor>" using assms(2) l by (simp add: trunc_nonneg)
  have "m < (real_of_int \<lfloor>m / l\<rfloor> + 1) * l" using floor_divide_upper[OF l] .
  then show ?thesis using repeats_over[OF assms] by (simp add: repeat_marker_def t Let_def algebra_simps)
qed

lemma playing_part_spec:
  assumes "\<forall>l\<in>set ls. 0 \<le> l" "0 \<le> x"
  shows "case playing_part k ls x of None \<Rightarrow> sum_list ls \<le> x
    | Some (i, position) \<Rightarrow> k \<le> i \<and> i - k < length ls \<and> 0 \<le> position \<and> position < ls ! (i - k)
        \<and> x = sum_list (take (i - k) ls) + position"
  using assms
proof (induction k ls x rule: playing_part.induct)
  case (2 k l ls x)
  show ?case
  proof (cases "x < l")
    case False
    then have "0 \<le> x - l" "\<forall>l\<in>set ls. 0 \<le> l" using 2(2) by simp_all
    note IH = 2(1)[OF False this(2,1)]
    show ?thesis
    proof (cases "playing_part (k + 1) ls (x - l)")
      case None
      then show ?thesis using IH False by simp
    next
      case (Some ip)
      obtain i position where ip: "ip = (i, position)" by fastforce
      have "k + 1 \<le> i" using IH Some ip by simp
      then have i: "i - k = Suc (i - (k + 1))" by simp
      show ?thesis using IH Some False ip unfolding i by (simp add: i)
    qed
  qed (use 2 in simp)
qed simp

lemma sequence_length_le: "\<forall>l\<in>set ls. 0 \<le> l \<Longrightarrow> sequence_length ls \<le> sum_list ls"
  using member_le_sum_list[of DBL_INF ls] by (auto simp: sequence_length_def intro: member_le_sum_list)


lemma plain_length_pos: "plain a \<Longrightarrow> 0 < GetTotalLength a"
proof (cases a)
  case (Animation m v k)
  have total: "0 < total_of rt l" if "repeats_ok rt l" for rt l
  proof -
    have "0 < rt + 1" using that by (auto simp: repeats_ok_def Nats_def)
    then show ?thesis using that DBL_INF_pos by (simp add: total_of_def repeats_ok_def)
  qed
  assume "plain a"
  then show ?thesis
    using Animation total by (cases k) (auto simp: repeats_ok_def sequence_length_def)
qed

lemma frames_value_defined: "0 < fpms \<Longrightarrow> 0 \<le> x \<Longrightarrow> \<exists>v. frames_value fpms fl frames x = Some v"
  using mult_nonneg_nonneg[of x fpms] by (simp add: frames_value_def Let_def not_less)

lemma same_parts_sequence:
  assumes "plain (Animation m v (SequenceAnimation rt as bm si ci offset))" "list_all2 same_animation as as'"
  shows "same_animation (Animation m v (SequenceAnimation rt as bm si ci offset))
    (Animation m' v' (SequenceAnimation rt as' bm si ci' offset))"
proof -
  have eqs: "map GetTotalLength as' = map GetTotalLength as" "map depth as' = map depth as" "map value_at as' = map value_at as"
    "\<forall>a\<in>set as'. plain a"
    using assms(2) by (induction rule: list_all2_induct) (auto simp: same_animation_def)
  have "kind_value (SequenceAnimation rt as' bm si ci' offset) v' x = kind_value (SequenceAnimation rt as bm si ci offset) v x" for x
    unfolding kind_value.simps eqs by (rule refl)
  moreover have "kind_depth (SequenceAnimation rt as' bm si ci' offset) = kind_depth (SequenceAnimation rt as bm si ci offset)"
    unfolding kind_depth.simps using arg_cong[OF eqs(2), of set] by simp
  ultimately show ?thesis using assms(1) eqs by (simp add: same_animation_def fun_eq_iff)
qed

lemma list_all2_same_update:
  assumes "\<forall>a\<in>set as. plain a" "i < length as" "same_animation (as ! i) b"
  shows "list_all2 same_animation as (as[i := b])"
  using assms by (auto simp: list_all2_conv_all_nth nth_list_update same_refl)


definition played :: "animation \<Rightarrow> real \<Rightarrow> animation \<Rightarrow> bool" where
  "played a m b \<longleftrightarrow> same_animation a b \<and> (m < GetTotalLength a \<longrightarrow> an_value b = value_at a m)"

lemma SetMarker_curve:
  assumes "plain (Animation old v (CurveAnimation rt c))" "0 \<le> m"
  shows "\<exists>b. SetMarker (Suc n) m (Animation old v (CurveAnimation rt c)) = Some b
    \<and> played (Animation old v (CurveAnimation rt c)) m b"
proof -
  let ?m = "repeat_marker rt (Curve_GetLength c) m"
  have c: "ordered (cd_points c)" "lookup_ready c" "cd_points c \<noteq> []" using assms(1) by simp_all
  obtain k where k: "GetInterpolatedValue c ?m = Some (c\<lparr>cd_lastIndex := k\<rparr>, curve_value (cd_options c) (cd_points c) ?m)"
    "lookup_ready (c\<lparr>cd_lastIndex := k\<rparr>)"
    using GetInterpolatedValue_exact[OF c] by blast
  have len: "Curve_GetLength (c\<lparr>cd_lastIndex := k\<rparr>) = Curve_GetLength c"
    by (simp add: Curve_GetLength_def HasPoints_def GetEnd_def GetBegin_def)
  then show ?thesis using k assms(1) by (auto simp: played_def same_animation_def fun_eq_iff Let_def)
qed

lemma SetMarker_frames:
  assumes "plain (Animation old v (FramesAnimation rt fpms fl frames cmp))" "0 \<le> m"
  shows "\<exists>b. SetMarker (Suc n) m (Animation old v (FramesAnimation rt fpms fl frames cmp)) = Some b
    \<and> played (Animation old v (FramesAnimation rt fpms fl frames cmp)) m b"
proof -
  let ?m = "repeat_marker rt (real (length frames) * fl) m"
  have p: "0 < fpms" "frames \<noteq> []" "0 < real (length frames) * fl" using assms(1) by (simp_all add: repeats_ok_def)
  obtain w where "frames_value fpms fl frames ?m = Some w"
    using frames_value_defined[OF p(1) repeat_marker_nonneg[OF p(3) assms(2)]] by blast
  then show ?thesis using p assms(1) by (auto simp: played_def same_animation_def fun_eq_iff Let_def)
qed

lemma SetMarker_sequence:
  fixes as :: "animation list"
  assumes plain: "plain (Animation old v (SequenceAnimation rt as bm si ci offset))" and m: "0 \<le> m"
    and set_part: "\<And>a x. a \<in> set as \<Longrightarrow> 0 \<le> x \<Longrightarrow> \<exists>b. SetMarker n x a = Some b \<and> played a x b"
    and set_rewound: "\<And>a b x. a \<in> set as \<Longrightarrow> same_animation a b \<Longrightarrow> 0 \<le> x \<Longrightarrow> \<exists>c. SetMarker n x b = Some c \<and> played b x c"
    and rewind: "\<And>a. a \<in> set as \<Longrightarrow> \<exists>b. Rewind n a = Some b \<and> same_animation a b"
  shows "\<exists>b. SetMarker (Suc n) m (Animation old v (SequenceAnimation rt as bm si ci offset)) = Some b
    \<and> played (Animation old v (SequenceAnimation rt as bm si ci offset)) m b"
proof -
  let ?a = "Animation old v (SequenceAnimation rt as bm si ci offset)"
  let ?ls = "map GetTotalLength as"
  let ?m = "repeat_marker rt (sequence_length ?ls) m"
  have parts: "\<forall>a\<in>set as. plain a" and rep: "repeats_ok rt (sequence_length ?ls)" and zero: "si = 0" "offset = 0"
    using plain by simp_all
  have lens: "map part_length as = ?ls" using parts plain_part by simp
  have pos: "\<forall>l\<in>set ?ls. 0 \<le> l" using parts plain_length_pos by (auto intro: less_imp_le)
  have m1: "0 \<le> ?m" using repeat_marker_nonneg[OF _ m] rep by (simp add: repeats_ok_def)
  note spec = playing_part_spec[OF pos m1, of 0]
  show ?thesis
  proof (cases "playing_part 0 ?ls ?m")
    case None
    have "\<not> m < GetTotalLength ?a"
    proof
      assume "m < GetTotalLength ?a"
      then have "m < total_of rt (sequence_length ?ls)" by (simp add: zero)
      then have "?m < sum_list ?ls"
        using repeat_marker_range[OF rep m] sequence_length_le[OF pos] by simp
      then show False using spec None by simp
    qed
    moreover have "SetMarker (Suc n) m ?a = Some (Animation ?m v (SequenceAnimation rt as bm si ci offset))"
      using None zero by (simp add: lens Let_def)
    moreover have "same_animation ?a (Animation ?m v (SequenceAnimation rt as bm si ci offset))"
      using parts by (intro same_parts_sequence[OF plain]) (simp add: list_all2_same same_refl)
    ultimately show ?thesis by (simp add: played_def)
  next
    case (Some ip)
    obtain i x where ip: "ip = (i, x)" by fastforce
    have "i < length as \<and> 0 \<le> x \<and> x < map GetTotalLength as ! i" using spec Some ip by auto
    then have i: "i < length as" "0 \<le> x" "x < GetTotalLength (as ! i)" by auto
    have mem: "as ! i \<in> set as" using i(1) by simp
    obtain part where part: "(if int i \<noteq> ci then Rewind n (as ! i) else Some (as ! i)) = Some part" "same_animation (as ! i) part"
      using rewind[OF mem] same_refl parts mem by (cases "int i = ci") auto
    obtain b where b: "SetMarker n x part = Some b" "played part x b" using set_rewound[OF mem part(2) i(2)] by blast
    have same: "same_animation (as ! i) b" using part(2) b(2) same_trans by (auto simp: played_def)
    have v: "an_value b = value_at (as ! i) x"
      using b(2) part(2) i(3) by (simp add: played_def same_animation_def)
    have "SetMarker (Suc n) m ?a = Some (Animation ?m (an_value b) (SequenceAnimation rt (as[i := b]) bm si (int i) offset))"
      using Some ip part(1) b(1) zero by (simp add: lens Let_def)
    moreover have "value_at ?a m = value_at (as ! i) x" using Some ip i(1) by simp
    ultimately show ?thesis
      using v same_parts_sequence[OF plain list_all2_same_update[OF parts i(1) same]] by (simp add: played_def)
  qed
qed

lemma SetMarker_sequence_shape:
  "SetMarker n m (Animation old v (SequenceAnimation rt as bm si ci offset)) = Some b \<Longrightarrow>
   \<exists>m' v' as' ci'. b = Animation m' v' (SequenceAnimation rt as' bm si ci' offset)"
  by (cases n) (auto simp: Let_def split: option.splits if_splits)

lemma same_reset:
  "same_animation a (Animation m v (SequenceAnimation rt as bm 0 ci 0)) \<Longrightarrow>
   same_animation a (Animation m v (SequenceAnimation rt as bm 0 (-1) 0))"
  by (simp add: same_animation_def fun_eq_iff)

lemma play_all:
  "(\<forall>a. plain a \<and> 2 * depth a + 1 \<le> n \<longrightarrow> (\<forall>m\<ge>0. \<exists>b. SetMarker n m a = Some b \<and> played a m b))
   \<and> (\<forall>a. plain a \<and> 2 * depth a + 2 \<le> n \<longrightarrow> (\<exists>b. Rewind n a = Some b \<and> same_animation a b))"
proof (induction n)
  case (Suc n)
  have set_n: "\<exists>b. SetMarker n m a = Some b \<and> played a m b" if "plain a" "2 * depth a + 1 \<le> n" "0 \<le> m" for a m
    using Suc that by blast
  have rewind_n: "\<exists>b. Rewind n a = Some b \<and> same_animation a b" if "plain a" "2 * depth a + 2 \<le> n" for a
    using Suc that by blast
  have set_same: "\<exists>c. SetMarker n m b = Some c \<and> played b m c" if "same_animation a b" "2 * depth a + 1 \<le> n" "0 \<le> m" for a b m
    using set_n[of b m] that by (simp add: same_animation_def)
  have set_Suc: "\<exists>b. SetMarker (Suc n) m a = Some b \<and> played a m b"
    if a: "plain a" "2 * depth a + 1 \<le> Suc n" and m: "0 \<le> m" for a m
  proof (cases a)
    case (Animation old v k)
    show ?thesis
    proof (cases k)
      case (SequenceAnimation rt as bm si ci offset)
      have d: "2 * depth x + 2 \<le> n" if "x \<in> set as" for x
      proof -
        have "Suc (depth x) \<le> depth a"
          unfolding Animation SequenceAnimation depth.simps by (rule depth_part[OF that])
        then show ?thesis using a(2) by simp
      qed
      have parts: "plain x" if "x \<in> set as" for x using a(1) that Animation SequenceAnimation by simp
      have "\<exists>b. SetMarker (Suc n) m (Animation old v (SequenceAnimation rt as bm si ci offset)) = Some b
          \<and> played (Animation old v (SequenceAnimation rt as bm si ci offset)) m b"
      proof (rule SetMarker_sequence[OF _ m])
        show "plain (Animation old v (SequenceAnimation rt as bm si ci offset))"
          using a(1) Animation SequenceAnimation by simp
        show "\<exists>b. SetMarker n x c = Some b \<and> played c x b" if "c \<in> set as" "0 \<le> x" for c x
          using set_n[OF parts[OF that(1)] _ that(2)] d[OF that(1)] by simp
        show "\<exists>e. SetMarker n x b = Some e \<and> played b x e" if "c \<in> set as" "same_animation c b" "0 \<le> x" for b c x
          using set_same[OF that(2) _ that(3)] d[OF that(1)] by simp
        show "\<exists>b. Rewind n c = Some b \<and> same_animation c b" if "c \<in> set as" for c
          using rewind_n[OF parts[OF that] d[OF that]] .
      qed
      then show ?thesis using Animation SequenceAnimation by simp
    next
      case (CurveAnimation rt c)
      then show ?thesis using SetMarker_curve[of old v rt c m n] a(1) m Animation by simp
    next
      case (FramesAnimation rt fpms fl frames cmp)
      then show ?thesis using SetMarker_frames[of old v rt fpms fl frames cmp m n] a(1) m Animation by simp
    qed (use Animation a(1) in \<open>auto simp: played_def same_animation_def fun_eq_iff\<close>)
  qed
  have rewind_Suc: "\<exists>b. Rewind (Suc n) a = Some b \<and> same_animation a b" if a: "plain a" "2 * depth a + 2 \<le> Suc n" for a
  proof (cases a)
    case (Animation old v k)
    have leaf: "\<exists>b. SetMarker n 0 a = Some b \<and> same_animation a b"
      using set_n[OF a(1), of 0] a(2) by (auto simp: played_def)
    show ?thesis
    proof (cases k)
      case (SequenceAnimation rt as bm si ci offset)
      have parts: "plain x" "2 * depth x + 2 \<le> n" if "x \<in> set as" for x
      proof -
        have "Suc (depth x) \<le> depth a"
          unfolding Animation SequenceAnimation depth.simps by (rule depth_part[OF that])
        then show "2 * depth x + 2 \<le> n" using a(2) by simp
        show "plain x" using a(1) that Animation SequenceAnimation by simp
      qed
      have "\<forall>x\<in>set as. \<exists>b. Rewind n x = Some b \<and> same_animation x b" using rewind_n parts by blast
      then obtain f where f: "\<And>x. x \<in> set as \<Longrightarrow> Rewind n x = Some (f x) \<and> same_animation x (f x)" by metis
      have those: "those (map (Rewind n) as) = Some (map f as)" using f by (simp add: those_Some_iff comp_def)
      have same: "same_animation a (Animation old v (SequenceAnimation rt (map f as) bm si ci offset))"
        using same_parts_sequence[of old v rt as bm si ci offset "map f as" old v ci] a(1) f Animation SequenceAnimation
        by (simp add: list_all2_conv_all_nth)
      obtain b where b: "SetMarker n 0 (Animation old v (SequenceAnimation rt (map f as) bm si ci offset)) = Some b"
        "same_animation a b"
        using set_same[OF same, of 0] a(2) same_trans[OF same] by (auto simp: played_def)
      obtain m' v' as' ci' where shape: "b = Animation m' v' (SequenceAnimation rt as' bm si ci' offset)"
        using SetMarker_sequence_shape[OF b(1)] by blast
      have "si = 0" "offset = 0" using a(1) Animation SequenceAnimation by simp_all
      then show ?thesis
        using those b shape same_reset Animation SequenceAnimation by simp
    next
      case (TweenAnimation b e t present ty at_beginning)
      obtain n' where "n = Suc n'" using a(2) by (cases n) auto
      then show ?thesis using a(1) Animation TweenAnimation by (auto simp: same_animation_def fun_eq_iff)
    qed (use Animation leaf in simp_all)
  qed
  show ?case using set_Suc rewind_Suc by blast
qed simp


lemma set_marker_played:
  "plain a \<Longrightarrow> 0 \<le> m \<Longrightarrow> \<exists>b. set_marker m a = Some b \<and> played a m b"
  using play_all[of "2 * depth a + 1"] by (auto simp: set_marker_def)

lemma rewind_same: "plain a \<Longrightarrow> \<exists>b. rewind a = Some b \<and> same_animation a b"
  using play_all[of "2 * depth a + 2"] by (auto simp: rewind_def)

section \<open>Properties\<close>

text \<open>Setting the marker to one position after the other and reading the value each time.\<close>

fun seek_all :: "nat \<Rightarrow> animation \<Rightarrow> real list \<Rightarrow> (animation \<times> real list) option" where
  "seek_all n a [] = Some (a, [])"
| "seek_all n a (m # ms) =
     (case SetMarker n m a of
        None \<Rightarrow> None
      | Some b \<Rightarrow> map_option (\<lambda>(c, vs). (c, an_value b # vs)) (seek_all n b ms))"

lemma seek_all_played:
  assumes "plain a" "2 * depth a + 1 \<le> n" "set ms \<subseteq> {0..<GetTotalLength a}"
  shows "\<exists>b. seek_all n a ms = Some (b, map (value_at a) ms) \<and> same_animation a b"
  using assms
proof (induction ms arbitrary: a)
  case (Cons m ms)
  obtain b where b: "SetMarker n m a = Some b" "played a m b"
    using play_all[of n] Cons.prems by force
  then have same: "plain b" "depth b = depth a" "GetTotalLength b = GetTotalLength a" "value_at b = value_at a"
    by (simp_all add: played_def same_animation_def)
  then obtain c where "seek_all n b ms = Some (c, map (value_at b) ms)" "same_animation b c"
    using Cons.IH[of b] Cons.prems by auto
  then show ?case using b same Cons.prems(3) same_trans[of a b c] by (auto simp: played_def)
qed (simp add: same_refl)


definition up_and_flat :: animation where
  "up_and_flat = Animation 0 0 (SequenceAnimation 1
     [TweenAnimation_new 0 1 1000 Linear, ConstantAnimation_new (1 / 2) 500] [] 0 (-1) 0)"


text \<open>
  Rewinding a sequence that was triggered sets the marker while the offset of the trigger is
  still there: the value is then taken at a position before the start of the part.
\<close>

definition two_tweens :: animation where
  "two_tweens = Animation 0 0 (SequenceAnimation 0
     [TweenAnimation_new 0 1 1000 Linear, TweenAnimation_new 5 6 1000 Linear] [] 0 (-1) 0)"

lemma rewind_after_trigger:
  "\<exists>a b c. SetMarker 3 1500 two_tweens = Some a \<and> Trigger 3 1 a = Some b \<and> an_value b = 5
     \<and> Rewind 4 b = Some c \<and> an_value c = 7 / 2"
  by (simp add: two_tweens_def TweenAnimation_new_def Trigger_def UpdateSequence_def part_length_def sequence_length_def
      not_DBL_INF repeat_marker_def trunc_def tween_value_def linearTween_def eval_nat_numeral Let_def)

end
