(* ===== verification/Player.thy ===== *)
theory Player imports Animations begin

text \<open>
  \<open>huestream/effect/animation/Player\<close> and \<open>ActionPlayer\<close>: they set the markers of the animations
  of an effect, from the clock or from a given position. An animation is referred to by its index
  in a list of objects, the animations that an effect can reach, so that two references to one
  animation are possible. The clock is read once for each call. \<open>None\<close> is an access outside a
  container.
\<close>

section \<open>State\<close>

datatype PlayerState = PlayerRunning | PlayerStopping | PlayerStopped

record player =
  pl_animations :: "nat list"
  pl_stopValue :: real
  pl_speed :: real
  pl_startPosition :: int
  pl_timeStampWithSpeedCorrection :: int
  pl_oldTs :: int
  pl_state :: PlayerState

definition Player_new :: player where
  "Player_new = \<lparr>pl_animations = [], pl_stopValue = 0, pl_speed = 1, pl_startPosition = 0,
     pl_timeStampWithSpeedCorrection = 0, pl_oldTs = 0, pl_state = PlayerStopped\<rparr>"

fun each_animation :: "(animation \<Rightarrow> animation option) \<Rightarrow> nat list \<Rightarrow> animation list \<Rightarrow> animation list option" where
  "each_animation f [] st = Some st"
| "each_animation f (a # as) st =
     (if a \<ge> length st then None
      else case f (st ! a) of None \<Rightarrow> None | Some b \<Rightarrow> each_animation f as (st[a := b]))"

text \<open>Both players rewind the animations they do not hold yet.\<close>

definition AnimationIsBound :: "nat list \<Rightarrow> nat \<Rightarrow> bool" where
  "AnimationIsBound animationList a \<longleftrightarrow> a \<in> set animationList"

definition RewindNewAnimations :: "nat list \<Rightarrow> nat list \<Rightarrow> animation list \<Rightarrow> animation list option" where
  "RewindNewAnimations bound animations st =
     each_animation rewind (filter (\<lambda>a. \<not> AnimationIsBound bound a) animations) st"

definition Player_BindAnimations :: "nat list \<Rightarrow> player \<Rightarrow> animation list \<Rightarrow> (player \<times> animation list) option" where
  "Player_BindAnimations animations p st =
     map_option (\<lambda>st1. (p\<lparr>pl_animations := animations\<rparr>, st1)) (RewindNewAnimations (pl_animations p) animations st)"

section \<open>The player of the clock\<close>

definition advance :: "int \<Rightarrow> player \<Rightarrow> player" where
  "advance now p =
     (let diffTs = now - pl_oldTs p
      in p\<lparr>pl_timeStampWithSpeedCorrection :=
             pl_timeStampWithSpeedCorrection p + llround (real_of_int diffTs * pl_speed p), pl_oldTs := now\<rparr>)"

definition getNowFromStartPosition :: "player \<Rightarrow> real" where
  "getNowFromStartPosition p = real_of_int (pl_timeStampWithSpeedCorrection p - pl_startPosition p)"

definition Player_Start :: "int \<Rightarrow> player \<Rightarrow> animation list \<Rightarrow> (player \<times> animation list) option" where
  "Player_Start now p st =
     (let p1 = advance now p;
          p2 = p1\<lparr>pl_startPosition := pl_timeStampWithSpeedCorrection p1, pl_state := PlayerRunning\<rparr>
      in map_option (\<lambda>st1. (p2, st1)) (each_animation rewind (pl_animations p) st))"

definition Player_Stop :: "player \<Rightarrow> player" where
  "Player_Stop p = p\<lparr>pl_stopValue := getNowFromStartPosition p, pl_state := PlayerStopping\<rparr>"

fun update_loop :: "player \<Rightarrow> nat list \<Rightarrow> animation list \<Rightarrow> bool \<Rightarrow> bool \<Rightarrow> (animation list \<times> bool \<times> bool) option" where
  "update_loop p [] st allEndingAnimationsAreStopped endingAnimationPresent =
     Some (st, allEndingAnimationsAreStopped, endingAnimationPresent)"
| "update_loop p (a # as) st allEndingAnimationsAreStopped endingAnimationPresent =
     (if a \<ge> length st then None
      else let markerPosition = (if pl_state p = PlayerStopping then pl_stopValue p else getNowFromStartPosition p);
               animationIsEndless = IsEndless (st ! a)
           in case set_marker markerPosition (st ! a) of
                None \<Rightarrow> None
              | Some b \<Rightarrow>
                  (if animationIsEndless
                   then update_loop p as (st[a := b]) allEndingAnimationsAreStopped endingAnimationPresent
                   else case IsPlaying b of
                          None \<Rightarrow> None
                        | Some playing \<Rightarrow>
                            update_loop p as (st[a := b])
                              (if playing \<and> allEndingAnimationsAreStopped then False else allEndingAnimationsAreStopped) True))"

definition Player_UpdateMarkers :: "int \<Rightarrow> player \<Rightarrow> animation list \<Rightarrow> (player \<times> animation list) option" where
  "Player_UpdateMarkers now p st =
     (let p1 = advance now p
      in if pl_state p1 = PlayerStopped then Some (p1, st)
         else case update_loop p1 (pl_animations p1) st True False of
                None \<Rightarrow> None
              | Some (st1, allEndingAnimationsAreStopped, endingAnimationPresent) \<Rightarrow>
                  Some (if (allEndingAnimationsAreStopped \<and> endingAnimationPresent) \<or> pl_state p1 = PlayerStopping
                        then p1\<lparr>pl_state := PlayerStopped\<rparr> else p1, st1))"

definition Player_IsStopped :: "int \<Rightarrow> player \<Rightarrow> animation list \<Rightarrow> (bool \<times> player \<times> animation list) option" where
  "Player_IsStopped now p st =
     map_option (\<lambda>(p1, st1). (pl_state p1 = PlayerStopped, p1, st1)) (Player_UpdateMarkers now p st)"

definition Player_SetSpeed :: "real \<Rightarrow> player \<Rightarrow> player" where
  "Player_SetSpeed v p = p\<lparr>pl_speed := v\<rparr>"

section \<open>The player of an action\<close>

record action_player =
  ap_animationList :: "nat list"
  ap_speed :: real
  ap_running :: bool
  ap_position :: int

definition ActionPlayer_new :: action_player where
  "ActionPlayer_new = \<lparr>ap_animationList = [], ap_speed = 1, ap_running = False, ap_position = 0\<rparr>"

definition ActionPlayer_BindAnimations ::
  "nat list \<Rightarrow> action_player \<Rightarrow> animation list \<Rightarrow> (action_player \<times> animation list) option" where
  "ActionPlayer_BindAnimations animations p st =
     map_option (\<lambda>st1. (p\<lparr>ap_animationList := animations\<rparr>, st1)) (RewindNewAnimations (ap_animationList p) animations st)"

definition ActionPlayer_Start :: "action_player \<Rightarrow> action_player" where
  "ActionPlayer_Start p = p\<lparr>ap_running := True\<rparr>"

definition ActionPlayer_Stop :: "action_player \<Rightarrow> action_player" where
  "ActionPlayer_Stop p = p\<lparr>ap_running := False\<rparr>"

definition ActionPlayer_UpdateMarkers :: "action_player \<Rightarrow> animation list \<Rightarrow> animation list option" where
  "ActionPlayer_UpdateMarkers p st =
     (if ap_running p then each_animation (set_marker (real_of_int (ap_position p) * ap_speed p)) (ap_animationList p) st
      else Some st)"

definition ActionPlayer_IsStopped :: "action_player \<Rightarrow> animation list \<Rightarrow> (bool \<times> animation list) option" where
  "ActionPlayer_IsStopped p st = map_option (\<lambda>st1. (\<not> ap_running p, st1)) (ActionPlayer_UpdateMarkers p st)"

definition ActionPlayer_SetSpeed :: "real \<Rightarrow> action_player \<Rightarrow> action_player" where
  "ActionPlayer_SetSpeed v p = p\<lparr>ap_speed := v\<rparr>"

definition ActionPlayer_SetPosition :: "int \<Rightarrow> action_player \<Rightarrow> action_player" where
  "ActionPlayer_SetPosition position p = p\<lparr>ap_position := position\<rparr>"

section \<open>Setting the markers of all animations\<close>

lemma marker_of_repeatable:
  assumes "repeats_ok rt l" "0 \<le> m" "total_of rt l \<noteq> DBL_INF"
  shows "repeat_marker rt l m < l \<longleftrightarrow> m < total_of rt l" "repeat_marker rt l m < total_of rt l \<longleftrightarrow> m < total_of rt l"
proof -
  obtain k where l: "0 < l" and k: "rt = real k" using assms(1) by (auto simp: repeats_ok_def Nats_def)
  have total: "total_of rt l = l * (rt + 1)" using assms(3) by (auto simp: total_of_def split: if_splits)
  have le: "l \<le> l * (rt + 1)" using l k by simp
  have late: "repeat_marker rt l m = m" if "l * (rt + 1) \<le> m"
  proof -
    have "rt + 1 \<le> m / l" using that l by (simp add: le_divide_eq mult.commute)
    then have "real_of_int \<lfloor>m / l\<rfloor> > rt" using k by linarith
    then show ?thesis using assms(2) l by (simp add: repeat_marker_def trunc_nonneg Let_def)
  qed
  then show "repeat_marker rt l m < l \<longleftrightarrow> m < total_of rt l" "repeat_marker rt l m < total_of rt l \<longleftrightarrow> m < total_of rt l"
    using repeat_marker_range[OF assms(1,2)] le unfolding total by (metis leI less_le_trans order.strict_trans1 not_le)+
qed

lemma marker_set:
  assumes "SetMarker (Suc n) m (Animation old v k) = Some b"
  shows "an_marker b = (case k of ConstantAnimation l \<Rightarrow> m | TweenAnimation x y t present ty first \<Rightarrow> m
    | RandomAnimation lo hi i1 i2 ty l offset t draws \<Rightarrow> m | _ \<Rightarrow> repeat_marker (repeatTimes k) (GetLengthMs k) m)"
  using assms by (cases k) (auto simp: Let_def split: option.splits if_splits prod.splits simp del: GetLengthMs.simps(5))

lemma set_marker_playing:
  assumes "plain a" "0 \<le> m" "\<not> IsEndless a" "set_marker m a = Some b"
  shows "IsPlaying b = Some (m < GetTotalLength a)"
proof (cases a)
  case (Animation old v k)
  have same: "plain b" "GetTotalLength b = GetTotalLength a"
    using set_marker_played[OF assms(1,2)] assms(4) by (auto simp: played_def same_animation_def)
  have set: "SetMarker (Suc (2 * depth a)) m (Animation old v k) = Some b"
    using assms(4) Animation by (simp add: set_marker_def)
  note marker = marker_set[OF set]
  show ?thesis
  proof (cases k)
    case (ConstantAnimation l)
    then show ?thesis using set marker same Animation by (auto simp: IsPlaying_def)
  next
    case (TweenAnimation x y t present ty first)
    then show ?thesis using set marker same Animation by (auto simp: IsPlaying_def Let_def)
  next
    case (CurveAnimation rt c)
    have "repeats_ok rt (Curve_GetLength c)" "GetTotalLength a = total_of rt (Curve_GetLength c)"
      using assms(1) Animation CurveAnimation by simp_all
    moreover have "IsPlaying b = Some (an_marker b < GetTotalLength b)"
      using set CurveAnimation by (auto simp: IsPlaying_def Let_def)
    ultimately show ?thesis
      using marker_of_repeatable(2)[of rt "Curve_GetLength c" m] assms(2,3) marker same CurveAnimation by (simp add: IsEndless_def)
  next
    case (FramesAnimation rt fpms fl frames cmp)
    let ?l = "real (length frames) * fl"
    have "repeats_ok rt ?l" "GetTotalLength a = total_of rt ?l"
      using assms(1) Animation FramesAnimation by simp_all
    moreover have "IsPlaying b = Some (an_marker b < GetTotalLength b)"
      using set FramesAnimation by (auto simp: IsPlaying_def Let_def split: if_splits)
    ultimately show ?thesis
      using marker_of_repeatable(2)[of rt ?l m] assms(2,3) marker same FramesAnimation by (simp add: IsEndless_def)
  next
    case (SequenceAnimation rt as bm si ci offset)
    let ?l = "sequence_length (map GetTotalLength as)"
    have rep: "repeats_ok rt ?l" and total: "GetTotalLength a = total_of rt ?l" and zero: "si = 0" "offset = 0"
      using assms(1) Animation SequenceAnimation by simp_all
    obtain m' v' as' ci' where b: "b = Animation m' v' (SequenceAnimation rt as' bm si ci' offset)"
      using SetMarker_sequence_shape set SequenceAnimation by blast
    let ?l' = "sequence_length (map GetTotalLength as')"
    have "total_of rt ?l' = total_of rt ?l" using same(2) total b zero by simp
    then have l': "?l' = ?l"
      using rep assms(3) total by (auto simp: total_of_def IsEndless_def repeats_ok_def Nats_def split: if_splits)
    have "as' \<noteq> []" using rep l' by (auto simp: repeats_ok_def sequence_length_def)
    moreover have "part_length (as' ! 0) = GetTotalLength (as' ! 0)"
      using same(1) b \<open>as' \<noteq> []\<close> by (intro plain_part) simp
    ultimately have "IsPlaying b = Some (m' < ?l)" using b zero l' by (simp add: IsPlaying_def)
    moreover have "m' = repeat_marker rt ?l m" using marker b SequenceAnimation zero by simp
    ultimately show ?thesis
      using marker_of_repeatable(1)[OF rep assms(2)] assms(3) total by (simp add: IsEndless_def)
  next
    case (RandomAnimation lo hi i1 i2 ty l offset t draws)
    then show ?thesis using assms(1) Animation by simp
  qed
qed

text \<open>Stores that hold the same animations at the references \<open>as\<close>.\<close>

definition same_at :: "nat list \<Rightarrow> animation list \<Rightarrow> animation list \<Rightarrow> bool" where
  "same_at as st st1 \<longleftrightarrow> length st1 = length st \<and> (\<forall>a\<in>set as. a < length st \<and> same_animation (st ! a) (st1 ! a))"

lemma same_at_update:
  "same_at as st st1 \<Longrightarrow> same_animation (st1 ! a) b \<Longrightarrow> a \<in> set as \<Longrightarrow> same_at as st (st1[a := b])"
  by (auto simp: same_at_def nth_list_update intro: same_trans)

lemma same_at_trans: "same_at as st st1 \<Longrightarrow> same_at as st1 st2 \<Longrightarrow> same_at as st st2"
  by (auto simp: same_at_def intro: same_trans)

lemma same_at_plain: "same_at as st st1 \<Longrightarrow> a \<in> set as \<Longrightarrow> plain (st1 ! a)"
  by (simp add: same_at_def same_animation_def)

lemma same_at_refl: "\<forall>a\<in>set as. a < length st \<and> plain (st ! a) \<Longrightarrow> same_at as st st"
  by (simp add: same_at_def same_refl)

lemma rewind_all:
  assumes "same_at as st st1" "set bs \<subseteq> set as"
  shows "\<exists>st2. each_animation rewind bs st1 = Some st2 \<and> same_at as st st2"
  using assms
proof (induction bs arbitrary: st1)
  case (Cons a bs)
  have a: "a \<in> set as" "a < length st1" using Cons.prems by (auto simp: same_at_def)
  obtain b where b: "rewind (st1 ! a) = Some b" "same_animation (st1 ! a) b"
    using rewind_same[OF same_at_plain[OF Cons.prems(1) a(1)]] by blast
  show ?case
    using Cons.IH[of "st1[a := b]"] same_at_update[OF Cons.prems(1) b(2) a(1)] Cons.prems(2) b(1) a(2) by simp
qed simp

definition shown :: "real \<Rightarrow> animation list \<Rightarrow> animation list \<Rightarrow> nat \<Rightarrow> bool" where
  "shown m st st1 a \<longleftrightarrow> (m < GetTotalLength (st ! a) \<longrightarrow> an_value (st1 ! a) = value_at (st ! a) m)"

text \<open>Some animation ends, and all that end are over.\<close>

definition over_at :: "animation list \<Rightarrow> nat list \<Rightarrow> real \<Rightarrow> bool" where
  "over_at st as m \<longleftrightarrow> (\<exists>a\<in>set as. \<not> IsEndless (st ! a)) \<and> (\<forall>a\<in>set as. IsEndless (st ! a) \<or> GetTotalLength (st ! a) \<le> m)"

lemma update_loop_spec:
  fixes p :: player
  defines "m \<equiv> (if pl_state p = PlayerStopping then pl_stopValue p else getNowFromStartPosition p)"
  assumes "same_at as st st1" "set bs \<subseteq> set as" "0 \<le> m" "\<forall>a\<in>set old. shown m st st1 a" "set old \<subseteq> set as"
  shows "\<exists>st2. update_loop p bs st1 all_stopped present
      = Some (st2, all_stopped \<and> (\<forall>a\<in>set bs. IsEndless (st ! a) \<or> GetTotalLength (st ! a) \<le> m),
              present \<or> (\<exists>a\<in>set bs. \<not> IsEndless (st ! a)))
    \<and> same_at as st st2 \<and> (\<forall>a\<in>set (bs @ old). shown m st st2 a)"
  using assms(2-6)
proof (induction bs arbitrary: st1 all_stopped present old)
  case (Cons a bs)
  have a: "a \<in> set as" "a < length st1" using Cons.prems by (auto simp: same_at_def)
  have pl: "plain (st1 ! a)" by (rule same_at_plain[OF Cons.prems(1) a(1)])
  have eqs: "GetTotalLength (st1 ! a) = GetTotalLength (st ! a)" "value_at (st1 ! a) = value_at (st ! a)"
    using Cons.prems(1) a(1) by (auto simp: same_at_def same_animation_def)
  have endless: "IsEndless (st1 ! a) = IsEndless (st ! a)" by (simp add: IsEndless_def eqs)
  obtain b where b: "set_marker m (st1 ! a) = Some b" "played (st1 ! a) m b"
    using set_marker_played[OF pl Cons.prems(3)] by blast
  have same: "same_at as st (st1[a := b])"
    using b(2) by (intro same_at_update[OF Cons.prems(1) _ a(1)]) (simp add: played_def)
  have now: "shown m st (st1[a := b]) a" using b(2) a(2) eqs by (simp add: shown_def played_def)
  then have now_old: "\<forall>x\<in>set (a # old). shown m st (st1[a := b]) x"
    using Cons.prems(4) a(2) by (auto simp: shown_def nth_list_update)
  have more: "set bs \<subseteq> set as" "set (a # old) \<subseteq> set as" using Cons.prems(2,5) by auto
  note IH = Cons.IH[OF same more(1) Cons.prems(3) now_old more(2)]
  show ?case
  proof (cases "IsEndless (st ! a)")
    case True
    then show ?thesis using IH[of all_stopped present] a(2) b(1) endless by (auto simp: m_def[symmetric] Let_def)
  next
    case False
    have playing: "IsPlaying b = Some (m < GetTotalLength (st ! a))"
      using set_marker_playing[OF pl Cons.prems(3) _ b(1)] False endless eqs by simp
    show ?thesis
      using IH[of "if m < GetTotalLength (st ! a) \<and> all_stopped then False else all_stopped" True]
        a(2) b(1) endless playing False
      by (auto simp: m_def[symmetric] Let_def not_less)
  qed
qed auto

section \<open>Playing\<close>

definition playing_since :: "int \<Rightarrow> nat list \<Rightarrow> player \<Rightarrow> bool" where
  "playing_since t0 as p \<longleftrightarrow> pl_state p = PlayerRunning \<and> pl_speed p = 1 \<and> pl_animations p = as
     \<and> pl_timeStampWithSpeedCorrection p - pl_startPosition p = pl_oldTs p - t0"

lemma advance_speed_1: "pl_speed p = 1 \<Longrightarrow> advance now p = p\<lparr>pl_timeStampWithSpeedCorrection :=
    pl_timeStampWithSpeedCorrection p + (now - pl_oldTs p), pl_oldTs := now\<rparr>"
  using llround_of_int[of "now - pl_oldTs p"] by (simp add: advance_def)

lemma update_playing:
  assumes "playing_since t0 bs p" "same_at as st st1" "set bs \<subseteq> set as" "t0 \<le> now"
  shows "\<exists>p2 st2. Player_UpdateMarkers now p st1 = Some (p2, st2) \<and> same_at as st st2
    \<and> (\<forall>a\<in>set bs. shown (real_of_int (now - t0)) st st2 a)
    \<and> p2 = (if over_at st bs (real_of_int (now - t0)) then (advance now p)\<lparr>pl_state := PlayerStopped\<rparr> else advance now p)
    \<and> (\<not> over_at st bs (real_of_int (now - t0)) \<longrightarrow> playing_since t0 bs p2)"
proof -
  let ?p = "advance now p" and ?m = "real_of_int (now - t0)"
  have speed: "pl_speed p = 1" using assms(1) by (simp add: playing_since_def)
  note adv = advance_speed_1[OF speed]
  have p: "playing_since t0 bs ?p" "pl_state ?p = PlayerRunning" "pl_animations ?p = bs" "getNowFromStartPosition ?p = ?m"
    using assms(1) by (simp_all add: playing_since_def adv getNowFromStartPosition_def)
  obtain st2 where st2: "update_loop ?p bs st1 True False
      = Some (st2, \<forall>a\<in>set bs. IsEndless (st ! a) \<or> GetTotalLength (st ! a) \<le> ?m, \<exists>a\<in>set bs. \<not> IsEndless (st ! a))"
    "same_at as st st2" "\<forall>a\<in>set bs. shown ?m st st2 a"
    using update_loop_spec[OF assms(2,3), of ?p "[]" True False] assms(4) p by auto
  have "Player_UpdateMarkers now p st1
      = Some (if over_at st bs ?m then ?p\<lparr>pl_state := PlayerStopped\<rparr> else ?p, st2)"
    using st2(1) p by (simp add: Player_UpdateMarkers_def over_at_def Let_def conj_commute)
  then show ?thesis using st2(2,3) p by auto
qed

lemma playing_advance: "playing_since t0 bs p \<Longrightarrow> pl_state (advance now p) = PlayerRunning"
  by (simp add: playing_since_def advance_def)

fun update_all :: "int list \<Rightarrow> player \<Rightarrow> animation list \<Rightarrow> (player \<times> animation list) option" where
  "update_all [] p st = Some (p, st)"
| "update_all (t # ts) p st =
     (case Player_UpdateMarkers t p st of None \<Rightarrow> None | Some (p1, st1) \<Rightarrow> update_all ts p1 st1)"

lemma update_all_playing:
  assumes "playing_since t0 as p" "same_at as st st1" "\<forall>u\<in>set ts. t0 \<le> u \<and> \<not> over_at st as (real_of_int (u - t0))" "t0 \<le> t"
  shows "\<exists>p2 st2. update_all (ts @ [t]) p st1 = Some (p2, st2) \<and> (\<forall>a\<in>set as. shown (real_of_int (t - t0)) st st2 a)
    \<and> (pl_state p2 = PlayerStopped \<longleftrightarrow> over_at st as (real_of_int (t - t0)))"
  using assms(1-3)
proof (induction ts arbitrary: p st1)
  case Nil
  then show ?case using update_playing[OF Nil(1,2) order_refl assms(4)] playing_advance[OF Nil(1)] by fastforce
next
  case (Cons u ts)
  obtain p2 st2 where u: "Player_UpdateMarkers u p st1 = Some (p2, st2)" "same_at as st st2" "playing_since t0 as p2"
    using update_playing[OF Cons.prems(1,2) order_refl, of u] Cons.prems(3) by auto
  then show ?case using Cons.IH[OF u(3,2)] Cons.prems(3) by simp
qed

text \<open>
  From the start on, at normal speed and however often it is updated, a player
  shows each animation at the time since the start, as long as that is before the animation's
  end. It stops with the first update at which all its animations that end are over; without any
  such it never stops.
\<close>

theorem player_plays:
  assumes "pl_speed p = 1" "\<forall>a\<in>set (pl_animations p). a < length st \<and> plain (st ! a)"
    and "\<forall>u\<in>set ts. t0 \<le> u \<and> \<not> over_at st (pl_animations p) (real_of_int (u - t0))" "t0 \<le> t"
  shows "\<exists>p1 st1 p2 st2. Player_Start t0 p st = Some (p1, st1) \<and> update_all (ts @ [t]) p1 st1 = Some (p2, st2)
    \<and> (\<forall>a\<in>set (pl_animations p). shown (real_of_int (t - t0)) st st2 a)
    \<and> (pl_state p2 = PlayerStopped \<longleftrightarrow> over_at st (pl_animations p) (real_of_int (t - t0)))"
proof -
  let ?as = "pl_animations p"
  obtain st1 where st1: "each_animation rewind ?as st = Some st1" "same_at ?as st st1"
    using rewind_all[OF same_at_refl[OF assms(2)] order_refl] by blast
  then obtain p1 where p1: "Player_Start t0 p st = Some (p1, st1)" "playing_since t0 ?as p1"
    using assms(1) by (auto simp: Player_Start_def advance_speed_1 playing_since_def)
  then show ?thesis using update_all_playing[OF p1(2) st1(2) assms(3,4)] by blast
qed

definition fade_and_glow :: "animation list" where
  "fade_and_glow = [TweenAnimation_new 1 0 1000 Linear, ConstantAnimation_new (1 / 3) DBL_INF]"

theorem player_plays_witness:
  "\<exists>p1 st1 p2 st2. Player_Start 7000 (Player_new\<lparr>pl_animations := [0, 1, 0]\<rparr>) fade_and_glow = Some (p1, st1)
     \<and> update_all [7020, 7040, 7250] p1 st1 = Some (p2, st2) \<and> an_value (st2 ! 0) = 3 / 4
     \<and> an_value (st2 ! 1) = 1 / 3 \<and> pl_state p2 \<noteq> PlayerStopped"
proof -
  let ?p = "Player_new\<lparr>pl_animations := [0, 1, 0]\<rparr>"
  have ends: "\<not> over_at fade_and_glow [0, 1, 0] x" if "x < 1000" for x
    using that not_DBL_INF
    by (simp add: over_at_def fade_and_glow_def TweenAnimation_new_def ConstantAnimation_new_def IsEndless_def)
  have ok: "\<forall>a\<in>set (pl_animations ?p). a < length fade_and_glow \<and> plain (fade_and_glow ! a)"
    using DBL_INF_pos by (simp add: fade_and_glow_def TweenAnimation_new_def ConstantAnimation_new_def)
  have ts: "\<forall>u\<in>set [7020, 7040]. 7000 \<le> u \<and> \<not> over_at fade_and_glow (pl_animations ?p) (real_of_int (u - 7000))"
    using ends by simp
  obtain p1 st1 p2 st2 where r: "Player_Start 7000 ?p fade_and_glow = Some (p1, st1)"
    "update_all ([7020, 7040] @ [7250]) p1 st1 = Some (p2, st2)" "\<forall>a\<in>set [0, 1, 0]. shown 250 fade_and_glow st2 a"
    "pl_state p2 = PlayerStopped \<longleftrightarrow> over_at fade_and_glow [0, 1, 0] 250"
    using player_plays[OF _ ok ts, of 7250] by (auto simp: Player_new_def)
  have vals: "an_value (st2 ! 0) = 3 / 4" "an_value (st2 ! 1) = 1 / 3"
    using r(3) less_DBL_INF[of 250]
    by (simp_all add: shown_def fade_and_glow_def TweenAnimation_new_def ConstantAnimation_new_def tween_value_def linearTween_def)
  have "pl_state p2 \<noteq> PlayerStopped" using r(4) ends[of 250] by simp
  with r(1,2) vals show ?thesis by auto
qed

text \<open>
  The clock's advance is rounded at each update: at less than half the normal speed a player that
  is updated each millisecond stands still.
\<close>

lemma slow_player_stalls:
  assumes "\<bar>pl_speed p\<bar> < 1 / 2"
  shows "getNowFromStartPosition (advance (pl_oldTs p + 1) p) = getNowFromStartPosition p"
proof -
  have "llround (pl_speed p) = 0" using assms by (auto simp: llround_def floor_eq_iff ceiling_eq_iff abs_less_iff)
  then show ?thesis by (simp add: advance_def getNowFromStartPosition_def)
qed

text \<open>The player of an action shows its position.\<close>

lemma each_set_marker:
  assumes "same_at as st st1" "set bs \<subseteq> set as" "0 \<le> m" "\<forall>a\<in>set old. shown m st st1 a" "set old \<subseteq> set as"
  shows "\<exists>st2. each_animation (set_marker m) bs st1 = Some st2 \<and> same_at as st st2 \<and> (\<forall>a\<in>set (bs @ old). shown m st st2 a)"
  using assms
proof (induction bs arbitrary: st1 old)
  case (Cons a bs)
  have a: "a \<in> set as" "a < length st1" using Cons.prems by (auto simp: same_at_def)
  have eqs: "GetTotalLength (st1 ! a) = GetTotalLength (st ! a)" "value_at (st1 ! a) = value_at (st ! a)"
    using Cons.prems(1) a(1) by (auto simp: same_at_def same_animation_def)
  obtain b where b: "set_marker m (st1 ! a) = Some b" "played (st1 ! a) m b"
    using set_marker_played[OF same_at_plain[OF Cons.prems(1) a(1)] Cons.prems(3)] by blast
  have same: "same_at as st (st1[a := b])"
    using b(2) by (intro same_at_update[OF Cons.prems(1) _ a(1)]) (simp add: played_def)
  have "\<forall>x\<in>set (a # old). shown m st (st1[a := b]) x"
    using Cons.prems(4) b(2) a(2) eqs by (auto simp: shown_def played_def nth_list_update)
  then show ?case using Cons.IH[OF same _ Cons.prems(3), of "a # old"] Cons.prems(2,5) a b(1) by auto
qed auto

lemma action_player_shows:
  assumes "ap_running p" "\<forall>a\<in>set (ap_animationList p). a < length st \<and> plain (st ! a)" "0 \<le> real_of_int position * ap_speed p"
  shows "\<exists>st1. ActionPlayer_UpdateMarkers (ActionPlayer_SetPosition position p) st = Some st1
    \<and> (\<forall>a\<in>set (ap_animationList p). shown (real_of_int position * ap_speed p) st st1 a)"
  using each_set_marker[OF same_at_refl[OF assms(2)] order_refl assms(3), of "[]"] assms(1)
  by (auto simp: ActionPlayer_UpdateMarkers_def ActionPlayer_SetPosition_def)

end
