(* ===== verification/AnimationJson.thy ===== *)
theory AnimationJson imports Animations "HOL-Library.List_Lexorder" "HOL-Library.Char_ord" begin

text \<open>
  How animations are saved as JSON and built again. A sequence writes its parts below itself, so
  both directions recurse over the tree. The frames of a compressed frames animation are written
  as text, two characters of 6 bits for each frame.
\<close>

unbundle bit_operations_syntax

section \<open>Frames as text\<close>

definition numerals :: string where
  "numerals = ''ABCDEFGHIJKLMNOPQRSTUVWXYZabcdefghijklmnopqrstuvwxyz0123456789+/''"

text \<open>The argument is between 0 and 1, so that both accesses are within the text.\<close>

definition Pack12bitBase64 :: "real \<Rightarrow> string" where
  "Pack12bitBase64 number =
     (let rounded = llround (number * 4095)
      in [numerals ! nat (drop_bit 6 rounded), numerals ! nat (rounded AND 0x3f)])"

definition SerializeFramesCompressed :: "16 word list \<Rightarrow> string" where
  "SerializeFramesCompressed frames = concat (map (\<lambda>f. Pack12bitBase64 (frame_value f)) frames)"

definition SerializeFramesRaw :: "16 word list \<Rightarrow> json" where
  "SerializeFramesRaw frames = JArray (map (\<lambda>f. JNumber (frame_value f)) frames)"

text \<open>\<open>FramesAnimation::Append\<close> converts to \<open>uint16_t\<close>.\<close>

definition frame_of :: "real \<Rightarrow> 16 word" where
  "frame_of frame = word_of_int (trunc (frame * 65535))"

definition sextet :: "char \<Rightarrow> int" where
  "sextet c =
     (let o1 = of_char c
      in if of_char CHR ''A'' \<le> o1 \<and> o1 \<le> of_char CHR ''Z'' then o1 - of_char CHR ''A''
         else if of_char CHR ''a'' \<le> o1 \<and> o1 \<le> of_char CHR ''z'' then o1 - of_char CHR ''a'' + 26
         else if of_char CHR ''0'' \<le> o1 \<and> o1 \<le> of_char CHR ''9'' then o1 - of_char CHR ''0'' + 52
         else if c = CHR ''+'' then 62 else if c = CHR ''/'' then 63 else 0)"

fun frames_loop :: "string \<Rightarrow> int \<Rightarrow> bool \<Rightarrow> 16 word list" where
  "frames_loop [] v haveMSB = []"
| "frames_loop (c # cs) v haveMSB =
     (if haveMSB then frame_of (real_of_int (v OR sextet c) / 4095) # frames_loop cs 0 False
      else frames_loop cs (push_bit 6 (sextet c)) True)"

definition AddFramesFrom12BitBase64String :: "string \<Rightarrow> 16 word list" where
  "AddFramesFrom12BitBase64String frameString = frames_loop frameString 0 False"

section \<open>Saving\<close>

definition tween_names :: "(TweenType \<times> string) list" where
  "tween_names = [(Linear, ''Linear''), (EaseInOutQuad, ''EaseInOutQuad''), (EaseInOutSine, ''EaseInOutSine'')]"

definition TweenType_ToString :: "TweenType \<Rightarrow> string" where
  "TweenType_ToString t = (case map_of tween_names t of Some s \<Rightarrow> s | None \<Rightarrow> ''Linear'')"

text \<open>For an unknown name the map's first element is taken, the least name.\<close>

definition TweenType_FromString :: "string \<Rightarrow> TweenType" where
  "TweenType_FromString s = (case map_of (map prod.swap tween_names) s of Some t \<Rightarrow> t | None \<Rightarrow> EaseInOutQuad)"

definition Repeatable_Serialize :: "string \<Rightarrow> animation \<Rightarrow> json \<Rightarrow> json" where
  "Repeatable_Serialize typeName a node =
     (let n1 = Serializable_Serialize typeName node
      in if \<not> IsEndless a then SerializeValue ''RepeatTimes'' (JNumber (repeatTimes (an_kind a))) n1 else n1)"

text \<open>The bookmarks are a map, which is traversed in the order of its keys.\<close>

definition bookmarks_node :: "(string \<times> int) list \<Rightarrow> json" where
  "bookmarks_node bm = JNode (map (\<lambda>(bookmark, index). (bookmark, JNumber (real_of_int index))) (sort_key fst bm))"

fun Animation_Serialize :: "animation \<Rightarrow> json \<Rightarrow> json" where
  "Animation_Serialize (Animation m v (ConstantAnimation l)) node =
     (let n1 = SerializeValue ''Value'' (JNumber v) (Serializable_Serialize ''huestream.ConstantAnimation'' node)
      in if \<not> IsEndless (Animation m v (ConstantAnimation l)) then SerializeValue ''Length'' (JNumber l) n1 else n1)"
| "Animation_Serialize (Animation m v (TweenAnimation b e t present ty at_beginning)) node =
     (let n1 = SerializeValue ''TweenType'' (JString (TweenType_ToString ty)) (Serializable_Serialize ''huestream.TweenAnimation'' node);
          n2 = (if present then SerializeValue ''Begin'' (JNumber b) n1 else n1)
      in SerializeValue ''Time'' (JNumber t) (SerializeValue ''End'' (JNumber e) n2))"
| "Animation_Serialize (Animation m v (CurveAnimation rt c)) node =
     push_back ''CurveData'' (Curve_Serialize c (JNode []))
       (Repeatable_Serialize ''huestream.CurveAnimation'' (Animation m v (CurveAnimation rt c)) node)"
| "Animation_Serialize (Animation m v (FramesAnimation rt fpms frameLength frames cmp)) node =
     (let n1 = Repeatable_Serialize ''huestream.FramesAnimation'' (Animation m v (FramesAnimation rt fpms frameLength frames cmp)) node;
          n2 = SerializeValue ''Fps'' (JNumber (fpms * 1000)) n1
      in push_back ''Frames'' (if cmp then JString (SerializeFramesCompressed frames) else SerializeFramesRaw frames) n2)"
| "Animation_Serialize (Animation m v (SequenceAnimation rt as bm startIndex currentIndex offset)) node =
     (let n1 = Repeatable_Serialize ''huestream.SequenceAnimation''
                 (Animation m v (SequenceAnimation rt as bm startIndex currentIndex offset)) node;
          n2 = push_back ''Sequences'' (JArray (map (\<lambda>a. Animation_Serialize a (JNode [])) as)) n1
      in push_back ''bookmarks'' (bookmarks_node bm) n2)"
| "Animation_Serialize (Animation m v (RandomAnimation lo hi i1 i2 ty l offset t draws)) node =
     (let n1 = SerializeValue ''MinValue'' (JNumber lo) (Serializable_Serialize ''huestream.Rand'' node);
          n2 = SerializeValue ''MaxValue'' (JNumber hi) n1;
          n3 = SerializeValue ''MinInterval'' (JNumber i1) n2;
          n4 = SerializeValue ''MaxInterval'' (JNumber i2) n3;
          n5 = SerializeValue ''TweenType'' (JString (TweenType_ToString ty)) n4
      in if l \<noteq> DBL_INF then SerializeValue ''Length'' (JNumber l) n5 else n5)"

section \<open>Building\<close>

definition Constant_Deserialize :: "json_lib \<Rightarrow> json \<Rightarrow> animation" where
  "Constant_Deserialize L node =
     ConstantAnimation_new (DeserializeFloat L node ''Value'' 0) (DeserializeFloat L node ''Length'' DBL_INF)"

definition tween_type :: "json_lib \<Rightarrow> json \<Rightarrow> TweenType" where
  "tween_type L node = TweenType_FromString (DeserializeString L node ''TweenType'' (TweenType_ToString Linear))"

definition Tween_Deserialize :: "json_lib \<Rightarrow> json \<Rightarrow> animation" where
  "Tween_Deserialize L node =
     Animation 0 0 (TweenAnimation (DeserializeFloat L node ''Begin'' 0) (DeserializeFloat L node ''End'' 1)
       (DeserializeFloat L node ''Time'' 1000)
       (if \<not> IsAttributeSet node ''Begin'' then False else DeserializeBool L node ''BeginValuePresent'' True)
       (tween_type L node) True)"

definition Repeatable_Deserialize :: "json_lib \<Rightarrow> json \<Rightarrow> real" where
  "Repeatable_Deserialize L node = DeserializeFloat L node ''RepeatTimes'' DBL_INF"

definition CurveAnimation_Deserialize :: "json_lib \<Rightarrow> json \<Rightarrow> animation" where
  "CurveAnimation_Deserialize L node =
     Animation 0 0 (CurveAnimation (Repeatable_Deserialize L node)
       (if IsAttributeSet node ''CurveData'' then Curve_Deserialize L (GetAttributeValue node ''CurveData'') (CurveData_new [] None)
        else CurveData_new [] None))"

definition Frames_Deserialize :: "json_lib \<Rightarrow> json \<Rightarrow> animation" where
  "Frames_Deserialize L node =
     (let fps = (if IsAttributeSet node ''Fps'' then as_float L (GetAttributeValue node ''Fps'') else 24);
          frames = (if IsAttributeSet node ''Frames'' then
                      (case GetAttributeValue node ''Frames'' of
                         JArray js \<Rightarrow> map (\<lambda>j. frame_of (as_float L j)) js
                       | JString s \<Rightarrow> AddFramesFrom12BitBase64String s
                       | _ \<Rightarrow> [])
                    else [])
      in Animation 0 0 (FramesAnimation (Repeatable_Deserialize L node) (fps / 1000) (1000 / fps) frames True))"

definition Random_Deserialize :: "json_lib \<Rightarrow> (nat \<Rightarrow> real) \<Rightarrow> json \<Rightarrow> animation" where
  "Random_Deserialize L draws node =
     RandomAnimation_new (DeserializeFloat L node ''MinValue'' 0) (DeserializeFloat L node ''MaxValue'' 1)
       (DeserializeFloat L node ''MinInterval'' 500) (DeserializeFloat L node ''MaxInterval'' 1000)
       (tween_type L node) (DeserializeFloat L node ''Length'' DBL_INF) draws"

definition bookmarks_of :: "json_lib \<Rightarrow> json \<Rightarrow> (string \<times> int) list" where
  "bookmarks_of L node = (case GetAttributeValue node ''bookmarks'' of
      JNode kvs \<Rightarrow> fold (\<lambda>(name, j) bm. AList.update name (cast_int (as_int L j)) bm) kvs []
    | j \<Rightarrow> fold (\<lambda>j bm. AList.update [] (cast_int (as_int L j)) bm) (json_children j) [])"

text \<open>
  \<open>OtherClass\<close>: the object, or a part of it, is not an animation. The first argument bounds the
  nesting of sequences.
\<close>

fun all_built :: "'a built list \<Rightarrow> 'a list option" where
  "all_built [] = Some []"
| "all_built (Built a # bs) = map_option ((#) a) (all_built bs)"
| "all_built (b # bs) = None"

fun Animation_FromJson :: "nat \<Rightarrow> json_lib \<Rightarrow> (nat \<Rightarrow> real) \<Rightarrow> json \<Rightarrow> animation built" where
  "Animation_FromJson 0 L draws node = OtherClass"
| "Animation_FromJson (Suc n) L draws node =
     (if \<not> IsAttributeSet node AttributeType then NullPtr
      else let t = GetTypeFromJson L node
           in if t = ''huestream.ConstantAnimation'' then Built (Constant_Deserialize L node)
              else if t = ''huestream.CurveAnimation'' then Built (CurveAnimation_Deserialize L node)
              else if t = ''huestream.Rand'' then Built (Random_Deserialize L draws node)
              else if t = ''huestream.TweenAnimation'' then Built (Tween_Deserialize L node)
              else if t = ''huestream.FramesAnimation'' then Built (Frames_Deserialize L node)
              else if t = ''huestream.SequenceAnimation'' then
                (case all_built (map (Animation_FromJson n L draws) (json_children (GetAttributeValue node ''Sequences''))) of
                   None \<Rightarrow> OtherClass
                 | Some as \<Rightarrow> Built (Animation 0 0 (SequenceAnimation (Repeatable_Deserialize L node) as
                                (bookmarks_of L node) 0 (-1) 0)))
              else if t \<in> set known_types then OtherClass else NullPtr)"

text \<open>The nesting of nodes: it bounds the nesting of what can be built from a node.\<close>

fun json_depth :: "json \<Rightarrow> nat" where
  "json_depth (JArray js) = Suc (Max (insert 0 (set (map json_depth js))))"
| "json_depth (JNode kvs) = Suc (Max (insert 0 (set (map (\<lambda>(k, j). json_depth j) kvs))))"
| "json_depth j = 0"

definition Animation_Build :: "json_lib \<Rightarrow> (nat \<Rightarrow> real) \<Rightarrow> json \<Rightarrow> animation built" where
  "Animation_Build L draws node = Animation_FromJson (Suc (json_depth node)) L draws node"

section \<open>Reading frames back\<close>

lemma sextet_numerals: "map sextet numerals = map int [0..<64]"
  by (simp add: numerals_def sextet_def upt_rec Let_def)

lemma sextet_numeral: "i < 64 \<Longrightarrow> sextet (numerals ! i) = int i"
  using sextet_numerals by (metis (no_types, lifting) length_map length_upt diff_zero nth_map nth_upt add_0)

lemma split_sextets: "(r::int) AND 0x3f = r mod 64" "drop_bit 6 r = r div 64"
proof -
  have "r AND mask 6 = r mod 2 ^ 6" by (simp only: take_bit_eq_mask[symmetric] take_bit_eq_mod)
  moreover have "mask 6 = (63::int)" by (simp add: mask_eq_exp_minus_1)
  ultimately show "r AND 0x3f = r mod 64" by simp
  show "drop_bit 6 r = r div 64" by (simp add: drop_bit_eq_div)
qed

lemma join_sextets:
  assumes "0 \<le> b" "b < 64" shows "push_bit 6 a OR b = 64 * a + (b::int)"
proof -
  have "push_bit 6 a OR b = concat_bit 6 b a"
    using assms by (simp add: concat_bit_def take_bit_int_eq_self or.commute)
  then show ?thesis using assms by (simp add: concat_bit_eq take_bit_int_eq_self push_bit_eq_mult)
qed

text \<open>The 12 bits that are written for a frame, and the frame they are read as.\<close>

definition twelve_bits :: "16 word \<Rightarrow> int" where
  "twelve_bits f = llround (frame_value f * 4095)"

definition packed_frame :: "16 word \<Rightarrow> 16 word" where
  "packed_frame f = frame_of (real_of_int (twelve_bits f) / 4095)"

lemma frame_value_range: "0 \<le> frame_value f" "frame_value f \<le> 1"
proof -
  have "0 \<le> uint f" "uint f \<le> 65535" using uint_bounded[of f] by simp_all
  then have "0 \<le> real_of_int (uint f)" "real_of_int (uint f) \<le> 65535" by linarith+
  then show "0 \<le> frame_value f" "frame_value f \<le> 1" by (simp_all add: frame_value_def del: of_int_uint)
qed

lemma twelve_bits_near:
  "real_of_int (twelve_bits f) \<le> frame_value f * 4095 + 1 / 2" "frame_value f * 4095 - 1 / 2 < real_of_int (twelve_bits f)"
  using frame_value_range[of f] unfolding twelve_bits_def llround_def by (simp_all add: not_less) linarith+

lemma twelve_bits_range: "0 \<le> twelve_bits f" "twelve_bits f < 4096"
  using twelve_bits_near[of f] frame_value_range[of f] by linarith+

lemma frames_loop_pack:
  "frames_loop (Pack12bitBase64 (frame_value f) @ cs) 0 False = packed_frame f # frames_loop cs 0 False"
proof -
  let ?v = "twelve_bits f"
  have hi: "sextet (numerals ! nat (?v div 64)) = ?v div 64"
    using twelve_bits_range[of f] sextet_numeral[of "nat (?v div 64)"] by (simp add: nat_less_iff)
  have lo: "sextet (numerals ! nat (?v mod 64)) = ?v mod 64"
    using sextet_numeral[of "nat (?v mod 64)"] by (simp add: nat_less_iff)
  have "push_bit 6 (?v div 64) OR (?v mod 64) = ?v"
    using join_sextets[of "?v mod 64" "?v div 64"] by simp
  then show ?thesis
    unfolding Pack12bitBase64_def twelve_bits_def[symmetric]
    by (simp add: split_sextets hi lo packed_frame_def Let_def)
qed

lemma frames_read_back:
  "AddFramesFrom12BitBase64String (SerializeFramesCompressed frames) = map packed_frame frames"
  by (induction frames) (simp_all add: AddFramesFrom12BitBase64String_def SerializeFramesCompressed_def frames_loop_pack)

lemma uint_frame_of:
  assumes "0 \<le> x" "x \<le> 1" shows "uint (frame_of x) = \<lfloor>x * 65535\<rfloor>"
proof -
  have "0 \<le> \<lfloor>x * 65535\<rfloor>" "\<lfloor>x * 65535\<rfloor> \<le> 65535" using assms by linarith+
  then show ?thesis using assms by (simp add: frame_of_def trunc_nonneg uint_word_of_int)
qed

lemma frame_of_value: "frame_of (frame_value f) = f"
  using uint_frame_of[OF frame_value_range, of f] by (simp add: frame_value_def word_uint_eq_iff del: of_int_uint)

lemma uint_packed_frame: "uint (packed_frame f) = \<lfloor>real_of_int (twelve_bits f) / 4095 * 65535\<rfloor>"
  unfolding packed_frame_def using twelve_bits_range[of f] by (intro uint_frame_of) simp_all

lemma packed_frame_near: "\<bar>uint (packed_frame f) - uint f\<bar> \<le> 9"
proof -
  let ?v = "real_of_int (twelve_bits f)" and ?u = "real_of_int (uint f)"
  have "?v \<le> ?u / 65535 * 4095 + 1 / 2" "?u / 65535 * 4095 - 1 / 2 < ?v"
    using twelve_bits_near[of f] by (simp_all add: frame_value_def del: of_int_uint)
  then have "?v / 4095 * 65535 \<le> ?u + 81 / 10" "?u - 81 / 10 \<le> ?v / 4095 * 65535" by linarith+
  then show ?thesis unfolding uint_packed_frame by linarith
qed

lemma packed_frame_again: "packed_frame (packed_frame f) = packed_frame f"
proof -
  let ?v = "twelve_bits f" and ?q = "real_of_int (uint (packed_frame f))"
  have "?q \<le> real_of_int ?v / 4095 * 65535" "real_of_int ?v / 4095 * 65535 - 1 < ?q"
    unfolding uint_packed_frame by linarith+
  then have "\<lfloor>?q / 65535 * 4095 + 1 / 2\<rfloor> = ?v" by (simp add: floor_eq_iff)
  moreover have "0 \<le> ?q" using uint_ge_0[of "packed_frame f"] by linarith
  ultimately have "twelve_bits (packed_frame f) = ?v"
    by (simp add: twelve_bits_def llround_def frame_value_def del: of_int_uint)
  then show ?thesis by (simp add: packed_frame_def)
qed


section \<open>Reading animations back\<close>

lemma stored_repeats:
  assumes "repeats_ok rt l" "rt' = (if total_of rt l = DBL_INF then DBL_INF else rt)"
  shows "repeats_ok rt' l" "total_of rt' l = total_of rt l"
    "0 \<le> m \<Longrightarrow> m < total_of rt l \<Longrightarrow> repeat_marker rt' l m = repeat_marker rt l m"
proof -
  have l: "0 < l" and le: "rt \<le> DBL_INF" and nat: "rt \<in> \<nat>" "DBL_INF \<in> \<nat>"
    using assms(1) DBL_INF_Nats by (simp_all add: repeats_ok_def)
  have "1 \<le> l" if total: "total_of rt l = DBL_INF"
  proof (cases "l = DBL_INF \<or> rt = DBL_INF")
    case True
    then show ?thesis using assms(1) not_DBL_INF(1) by (auto simp: repeats_ok_def)
  next
    case False
    then have e: "l * (rt + 1) = DBL_INF" using total by (simp add: total_of_def)
    obtain i j where ij: "rt = real i" "DBL_INF = real j" using nat by (auto simp: Nats_def)
    have "i < j" using le False ij by (metis le_neq_implies_less of_nat_le_iff)
    then have "rt + 1 \<le> DBL_INF" using ij by simp
    then have "l * (rt + 1) \<le> l * DBL_INF" using l by (simp add: mult_left_mono)
    then have "1 * DBL_INF \<le> l * DBL_INF" using e by simp
    then show ?thesis using DBL_INF_pos mult_le_cancel_right_pos by blast
  qed
  then show "repeats_ok rt' l" using assms l DBL_INF_Nats by (auto simp: repeats_ok_def)
  show "total_of rt' l = total_of rt l" using assms(2) by (auto simp: total_of_def)
  assume m: "0 \<le> m" "m < total_of rt l"
  note over = repeats_over[OF assms(1) m]
  then have "real_of_int (trunc (m / l)) \<le> rt'" using le assms(2) by auto
  then show "repeat_marker rt' l m = repeat_marker rt l m" using over by (simp add: repeat_marker_def Let_def)
qed

text \<open>
  What is lost: the marker, the value of an animation that is no constant, and the finite number
  of repetitions of something endless. Frames must be such that 12 bits hold them, if they are
  compressed, and the length of a frame must belong to the frame rate.
\<close>

fun storable :: "animation \<Rightarrow> bool" where
  "storable (Animation m v (FramesAnimation rt fpms frameLength frames cmp)) \<longleftrightarrow>
     frameLength = 1 / fpms \<and> (cmp \<longrightarrow> (\<forall>f\<in>set frames. packed_frame f = f))"
| "storable (Animation m v (SequenceAnimation rt as bm si ci offset)) \<longleftrightarrow> (\<forall>a\<in>set as. storable a)"
| "storable a \<longleftrightarrow> True"

definition shows_same :: "animation \<Rightarrow> animation \<Rightarrow> bool" where
  "shows_same a b \<longleftrightarrow> plain b \<and> GetTotalLength b = GetTotalLength a
     \<and> (\<forall>m\<in>{0..<GetTotalLength a}. value_at b m = value_at a m)"

lemma all_built_parts:
  "\<forall>a\<in>set as. \<exists>b. f a = Built b \<and> R a b \<Longrightarrow> \<exists>bs. all_built (map f as) = Some bs \<and> list_all2 R as bs"
  by (induction as) fastforce+

lemma shows_same_sequence:
  assumes plain: "plain (Animation m v (SequenceAnimation rt as bm si ci offset))" and same: "list_all2 shows_same as bs"
    and rt': "rt' = (if IsEndless (Animation m v (SequenceAnimation rt as bm si ci offset)) then DBL_INF else rt)"
  shows "shows_same (Animation m v (SequenceAnimation rt as bm si ci offset))
    (Animation 0 0 (SequenceAnimation rt' bs bm' 0 (-1) 0))"
proof -
  let ?ls = "map GetTotalLength as"
  have lens: "map GetTotalLength bs = ?ls" and parts: "\<forall>b\<in>set bs. plain b"
    using same by (induction rule: list_all2_induct) (auto simp: shows_same_def)
  have zero: "si = 0" "offset = 0" and rep: "repeats_ok rt (sequence_length ?ls)" and plains: "\<forall>a\<in>set as. plain a"
    using plain by simp_all
  have rt1: "rt' = (if total_of rt (sequence_length ?ls) = DBL_INF then DBL_INF else rt)"
    using rt' zero by (simp add: IsEndless_def)
  note stored = stored_repeats[OF rep rt1]
  have pos: "\<forall>l\<in>set ?ls. 0 \<le> l" using plains plain_length_pos by (auto intro: less_imp_le)
  have "value_at (Animation 0 0 (SequenceAnimation rt' bs bm' 0 (-1) 0)) x
      = value_at (Animation m v (SequenceAnimation rt as bm si ci offset)) x"
    if x: "0 \<le> x" "x < total_of rt (sequence_length ?ls)" for x
  proof (cases "playing_part 0 ?ls (repeat_marker rt (sequence_length ?ls) x)")
    case None
    then show ?thesis by (simp add: lens stored(3)[OF x])
  next
    case (Some ip)
    obtain i y where ip: "ip = (i, y)" by fastforce
    have "0 \<le> repeat_marker rt (sequence_length ?ls) x"
      using repeat_marker_nonneg x(1) rep by (simp add: repeats_ok_def)
    then have "i < length as \<and> 0 \<le> y \<and> y < ?ls ! i"
      using playing_part_spec[OF pos, of _ 0] Some ip by fastforce
    then have i: "i < length as" "0 \<le> y" "y < GetTotalLength (as ! i)" by auto
    have "shows_same (as ! i) (bs ! i)" using list_all2_nthD[OF same i(1)] .
    then have "value_at (bs ! i) y = value_at (as ! i) y" using i by (simp add: shows_same_def)
    then show ?thesis
      using Some ip i(1) list_all2_lengthD[OF same] by (simp add: lens stored(3)[OF x])
  qed
  then show ?thesis
    using zero parts stored(1,2) by (simp add: shows_same_def lens)
qed

lemma TweenType_FromString_ToString [simp]: "TweenType_FromString (TweenType_ToString ty) = ty"
  by (cases ty) (simp_all add: TweenType_FromString_def TweenType_ToString_def tween_names_def)

lemma Repeatable_eq:
  "Repeatable_Serialize t a (JNode []) = JNode ((''type'', JString t)
     # (if IsEndless a then [] else [(''RepeatTimes'', JNumber (repeatTimes (an_kind a)))]))"
  by (simp add: Repeatable_Serialize_def serialize_defs Let_def)

lemmas animation_json = serialize_defs deserialize_defs IsAttributeSet_def GetAttributeValue_def GetTypeFromJson_def
  Repeatable_Deserialize_def Repeatable_eq

lemma shows_same_repeatable:
  assumes "repeats_ok rt l" "rt' = (if total_of rt l = DBL_INF then DBL_INF else rt)"
    and "GetTotalLength a = total_of rt l" "GetTotalLength b = total_of rt' l" "repeats_ok rt' l \<Longrightarrow> plain b"
    and "\<And>m. value_at a m = f (repeat_marker rt l m)" "\<And>m. value_at b m = f (repeat_marker rt' l m)"
  shows "shows_same a b"
  using stored_repeats[OF assms(1,2)] assms(3-7) by (simp add: shows_same_def)

lemma read_curve:
  assumes "plain (Animation m v (CurveAnimation rt c))"
  shows "\<exists>b. Animation_FromJson (Suc n) L d (Animation_Serialize (Animation m v (CurveAnimation rt c)) (JNode [])) = Built b
    \<and> shows_same (Animation m v (CurveAnimation rt c)) b"
proof -
  let ?a = "Animation m v (CurveAnimation rt c)"
  let ?c = "c\<lparr>cd_lastIndex := 0\<rparr>" and ?l = "Curve_GetLength c"
  let ?rt = "if total_of rt ?l = DBL_INF then DBL_INF else rt"
  have len: "Curve_GetLength ?c = ?l"
    by (simp add: Curve_GetLength_def HasPoints_def GetEnd_def GetBegin_def)
  have "lookup_ready ?c" by (auto simp: lookup_ready_def not_less)
  then have "shows_same ?a (Animation 0 0 (CurveAnimation ?rt ?c))"
    using assms
    by (intro shows_same_repeatable[where rt = rt and l = ?l and rt' = ?rt and f = "curve_value (cd_options c) (cd_points c)"])
       (simp_all add: len)
  moreover have "Animation_FromJson (Suc n) L d (Animation_Serialize ?a (JNode []))
      = Built (Animation 0 0 (CurveAnimation ?rt ?c))"
    using Curve_read_back[of L c "CurveData_new [] None"]
    by (simp add: CurveAnimation_Deserialize_def animation_json IsEndless_def CurveData_new_def)
  ultimately show ?thesis by blast
qed

lemma read_frames:
  assumes "plain (Animation m v (FramesAnimation rt fpms fl frames cmp))" "storable (Animation m v (FramesAnimation rt fpms fl frames cmp))"
  shows "\<exists>b. Animation_FromJson (Suc n) L d (Animation_Serialize (Animation m v (FramesAnimation rt fpms fl frames cmp)) (JNode [])) = Built b
    \<and> shows_same (Animation m v (FramesAnimation rt fpms fl frames cmp)) b"
proof -
  let ?a = "Animation m v (FramesAnimation rt fpms fl frames cmp)"
  let ?l = "real (length frames) * fl"
  let ?rt = "if total_of rt ?l = DBL_INF then DBL_INF else rt"
  let ?b = "Animation 0 0 (FramesAnimation ?rt fpms fl frames True)"
  have fl: "fl = 1 / fpms" "0 < fpms" using assms by simp_all
  have "shows_same ?a ?b"
    using assms
    by (intro shows_same_repeatable[where rt = rt and l = ?l and rt' = ?rt
          and f = "\<lambda>m. case frames_value fpms fl frames m of Some w \<Rightarrow> w | None \<Rightarrow> 0"]) simp_all
  moreover have "Animation_FromJson (Suc n) L d (Animation_Serialize ?a (JNode [])) = Built ?b"
  proof (cases cmp)
    case True
    then have "map packed_frame frames = frames" using assms(2) by (simp add: map_idI)
    then show ?thesis
      using fl True by (simp add: Frames_Deserialize_def animation_json IsEndless_def frames_read_back Let_def)
  next
    case False
    then show ?thesis
      using fl by (simp add: Frames_Deserialize_def animation_json IsEndless_def SerializeFramesRaw_def frame_of_value Let_def comp_def)
  qed
  ultimately show ?thesis by blast
qed

lemma read_back:
  "plain a \<Longrightarrow> storable a \<Longrightarrow> depth a < n \<Longrightarrow>
   \<exists>b. Animation_FromJson n L d (Animation_Serialize a (JNode [])) = Built b \<and> shows_same a b"
proof (induction n arbitrary: a)
  case (Suc n)
  show ?case
  proof (cases a)
    case (Animation m v k)
    show ?thesis
    proof (cases k)
      case (CurveAnimation rt c)
      then show ?thesis using read_curve Suc.prems(1) Animation by blast
    next
      case (FramesAnimation rt fpms fl frames cmp)
      then show ?thesis using read_frames Suc.prems(1,2) Animation by blast
    next
      case (ConstantAnimation l)
      then show ?thesis
        using Animation Suc.prems(1) by (auto simp: animation_json Constant_Deserialize_def ConstantAnimation_new_def
            IsEndless_def shows_same_def Let_def)
    next
      case (TweenAnimation b e t present ty at_beginning)
      then show ?thesis
        using Animation Suc.prems(1)
        by (simp add: animation_json Tween_Deserialize_def tween_type_def shows_same_def Let_def)
    next
      case (RandomAnimation lo hi i1 i2 ty l offset t draws)
      then show ?thesis using Animation Suc.prems(1) by simp
    next
      case (SequenceAnimation rt as bm si ci offset)
      have parts: "\<forall>x\<in>set as. plain x \<and> storable x" using Suc.prems(1,2) Animation SequenceAnimation by simp
      have deep: "depth x < n" if "x \<in> set as" for x
      proof -
        have "Suc (depth x) \<le> depth a"
          unfolding Animation SequenceAnimation depth.simps by (rule depth_part[OF that])
        then show ?thesis using Suc.prems(3) by simp
      qed
      have "\<forall>x\<in>set as. \<exists>b. Animation_FromJson n L d (Animation_Serialize x (JNode [])) = Built b \<and> shows_same x b"
        using Suc.IH parts deep by blast
      then obtain bs where bs: "all_built (map (\<lambda>x. Animation_FromJson n L d (Animation_Serialize x (JNode []))) as) = Some bs"
        "list_all2 shows_same as bs"
        using all_built_parts[of as "\<lambda>x. Animation_FromJson n L d (Animation_Serialize x (JNode []))" shows_same] by blast
      let ?rt = "if IsEndless a then DBL_INF else rt"
      have "\<exists>bm'. Animation_FromJson (Suc n) L d (Animation_Serialize a (JNode []))
          = Built (Animation 0 0 (SequenceAnimation ?rt bs bm' 0 (-1) 0))"
        using bs(1) Animation SequenceAnimation by (simp add: animation_json comp_def Let_def)
      moreover have "shows_same a (Animation 0 0 (SequenceAnimation ?rt bs bm' 0 (-1) 0))" for bm'
        unfolding Animation SequenceAnimation
        by (rule shows_same_sequence[OF _ bs(2) refl]) (use Suc.prems(1) Animation SequenceAnimation in simp)
      ultimately show ?thesis by metis
    qed
  qed
qed simp

lemma json_depth_find: "json_find name node = Some c \<Longrightarrow> json_depth c < json_depth node"
  by (cases node) (auto simp: less_Suc_eq_le dest!: map_of_SomeD intro!: Max_ge rev_image_eqI)

lemma json_depth_children: "c \<in> set (json_children j) \<Longrightarrow> json_depth c < json_depth j"
  by (cases j) (auto simp: less_Suc_eq_le intro!: Max_ge rev_image_eqI)

lemma json_depth_attribute:
  "c \<in> set (json_children (GetAttributeValue node name)) \<Longrightarrow> json_depth c < json_depth node"
  using json_depth_children[of c] json_depth_find[of name node]
  by (fastforce simp: GetAttributeValue_def split: option.splits)

text \<open>The bound of \<open>Animation_Build\<close> is enough: a larger one gives the same.\<close>

lemma Animation_FromJson_bound:
  "json_depth node < n \<Longrightarrow> json_depth node < n' \<Longrightarrow> Animation_FromJson n L draws node = Animation_FromJson n' L draws node"
proof (induction n arbitrary: n' node)
  case (Suc n)
  obtain k where k: "n' = Suc k" using Suc.prems(2) by (cases n') auto
  have "Animation_FromJson n L draws c = Animation_FromJson k L draws c"
    if "c \<in> set (json_children (GetAttributeValue node ''Sequences''))" for c
    using Suc.IH[of c k] json_depth_attribute[OF that] Suc.prems k by simp
  then have "map (Animation_FromJson n L draws) (json_children (GetAttributeValue node ''Sequences''))
      = map (Animation_FromJson k L draws) (json_children (GetAttributeValue node ''Sequences''))" by simp
  then show ?case unfolding k Animation_FromJson.simps by presburger
qed simp

lemma depth_written: "plain a \<Longrightarrow> depth a \<le> json_depth (Animation_Serialize a (JNode []))"
proof (induction a rule: measure_induct_rule[of depth])
  case (less a)
  show ?case
  proof (cases a)
    case (Animation m v k)
    show ?thesis
    proof (cases k)
      case (SequenceAnimation rt as bm si ci offset)
      let ?node = "Animation_Serialize a (JNode [])"
      have found: "json_find ''Sequences'' ?node = Some (JArray (map (\<lambda>x. Animation_Serialize x (JNode [])) as))"
        using Animation SequenceAnimation by (simp add: animation_json Let_def)
      have "Suc (depth x) \<le> json_depth ?node" if "x \<in> set as" for x
      proof -
        have d: "depth x < depth a"
          unfolding Animation SequenceAnimation depth.simps Suc_le_eq[symmetric] by (rule depth_part[OF that])
        have "plain x" using less.prems that Animation SequenceAnimation by simp
        then have "depth x \<le> json_depth (Animation_Serialize x (JNode []))" by (rule less.IH[OF d])
        also have "\<dots> < json_depth ?node"
          by (rule json_depth_attribute[of _ _ "''Sequences''"]) (use that found in \<open>simp add: GetAttributeValue_def\<close>)
        finally show ?thesis by simp
      qed
      moreover have "0 < json_depth ?node" using json_depth_find[OF found] by simp
      ultimately show ?thesis using Animation SequenceAnimation by (auto simp: Suc_le_eq)
    qed (use Animation less.prems in simp_all)
  qed
qed

lemma built_back:
  "plain a \<Longrightarrow> storable a \<Longrightarrow> \<exists>b. Animation_Build L draws (Animation_Serialize a (JNode [])) = Built b \<and> shows_same a b"
  using read_back[of a "Suc (json_depth (Animation_Serialize a (JNode [])))" L draws] depth_written[of a]
  by (auto simp: Animation_Build_def less_Suc_eq_le simp del: Animation_FromJson.simps)

section \<open>Properties\<close>

text \<open>
  An animation that is saved and built again shows the same value at every position
  before its end and has the same length. Frames that are compressed must have been read from such
  a text before.
\<close>

theorem animation_saved_and_read:
  assumes "plain a" "storable a"
  shows "\<exists>b. Animation_Build L draws (Animation_Serialize a (JNode [])) = Built b \<and> plain b
    \<and> GetTotalLength b = GetTotalLength a \<and> (\<forall>m. m \<in> {0..<GetTotalLength a} \<longrightarrow> value_at b m = value_at a m)"
  using built_back[OF assms, of L draws] by (auto simp: shows_same_def)

definition flashing :: animation where
  "flashing = Animation 7 8 (SequenceAnimation 2
     [TweenAnimation_new 0 1 1000 EaseInOutQuad,
      Animation 3 0 (FramesAnimation 1 (1 / 40) 40 [0, 65535, 4112] True)] [(''loop'', 1)] 0 1 0)"

theorem animation_saved_and_read_witness:
  "\<exists>b. Animation_Build \<lparr>jl_text = (\<lambda>_. []), jl_number = (\<lambda>_. 0), jl_bool = (\<lambda>_. False)\<rparr> (\<lambda>_. 0)
      (Animation_Serialize flashing (JNode [])) = Built b \<and> GetTotalLength b = 3720 \<and> value_at b 500 = 1 / 2"
proof -
  have inf: "DBL_INF \<noteq> 240" "DBL_INF \<noteq> 120" "DBL_INF \<noteq> 1240" "DBL_INF \<noteq> 2" "2 \<le> DBL_INF"
    using less_DBL_INF[of 240] less_DBL_INF[of 120] less_DBL_INF[of 1240] less_DBL_INF[of 2] by auto
  have len: "GetTotalLength flashing = 3720"
    using inf not_DBL_INF
    by (simp add: flashing_def TweenAnimation_new_def sequence_length_def total_of_def)
  have p: "plain flashing"
    using inf not_DBL_INF by (simp add: flashing_def TweenAnimation_new_def sequence_length_def repeats_ok_def total_of_def Nats_1)
  have "packed_frame 0 = 0" "packed_frame 65535 = 65535" "packed_frame 4112 = 4112"
    by (simp_all add: packed_frame_def twelve_bits_def frame_of_def frame_value_def llround_def trunc_def)
  then have s: "storable flashing" by (simp add: flashing_def TweenAnimation_new_def)
  have "value_at flashing 500 = 1 / 2"
    using inf not_DBL_INF
    by (simp add: flashing_def TweenAnimation_new_def sequence_length_def repeat_marker_def trunc_def tween_value_def
        easeInOutQuad_def total_of_def Let_def)
  then show ?thesis
    using animation_saved_and_read[OF p s, of "\<lparr>jl_text = (\<lambda>_. []), jl_number = (\<lambda>_. 0), jl_bool = (\<lambda>_. False)\<rparr>" "\<lambda>_. 0"] len
    by auto
qed

text \<open>
  Compressed frames are read back with an error of at most 9 of 65535, and saving what
  was read changes nothing any more.
\<close>

theorem frames_survive_compression:
  "length (AddFramesFrom12BitBase64String (SerializeFramesCompressed frames)) = length frames
   \<and> list_all2 (\<lambda>f g. \<bar>uint g - uint f\<bar> \<le> 9) frames (AddFramesFrom12BitBase64String (SerializeFramesCompressed frames))
   \<and> AddFramesFrom12BitBase64String (SerializeFramesCompressed
       (AddFramesFrom12BitBase64String (SerializeFramesCompressed frames)))
     = AddFramesFrom12BitBase64String (SerializeFramesCompressed frames)"
  by (simp add: frames_read_back packed_frame_near packed_frame_again list_all2_conv_all_nth comp_def)

end
