(* ===== verification/Areas.thy ===== *)
theory Areas imports Persistence begin

text \<open>
  \<open>huestream/common/data/Area\<close> and \<open>CuboidArea\<close>: rectangles and boxes in the room, with the named
  ones the library offers. The room is the cube from -1 to 1; \<open>y\<close> grows to the front, \<open>z\<close> to the top.
\<close>

section \<open>Areas\<close>

datatype IArea =
    Area (ia_topLeft: Location) (ia_bottomRight: Location) (ia_inverted: bool) (ia_name: string)
  | CuboidArea (ia_topFrontLeft: Location) (ia_bottomBackRight: Location) (ia_inverted: bool) (ia_name: string)

definition Area_new :: "real \<Rightarrow> real \<Rightarrow> real \<Rightarrow> real \<Rightarrow> string \<Rightarrow> bool \<Rightarrow> IArea" where
  "Area_new topLeftX topLeftY bottomRightX bottomRightY name inverted =
     Area \<lparr>loc_x = topLeftX, loc_y = topLeftY, loc_z = 0\<rparr> \<lparr>loc_x = bottomRightX, loc_y = bottomRightY, loc_z = 0\<rparr> inverted name"

fun isInArea :: "IArea \<Rightarrow> Location \<Rightarrow> bool" where
  "isInArea (Area topLeft bottomRight inverted name) location =
     (let inArea = (loc_x location \<ge> loc_x topLeft \<and> loc_x location \<le> loc_x bottomRight
                    \<and> loc_y location \<le> loc_y topLeft \<and> loc_y location \<ge> loc_y bottomRight)
      in if inverted then \<not> inArea else inArea)"
| "isInArea (CuboidArea topFrontLeft bottomBackRight inverted name) location =
     (let inArea = (loc_x location \<ge> loc_x topFrontLeft \<and> loc_x location \<le> loc_x bottomBackRight
                    \<and> loc_y location \<le> loc_y topFrontLeft \<and> loc_y location \<ge> loc_y bottomBackRight
                    \<and> loc_z location \<le> loc_z topFrontLeft \<and> loc_z location \<ge> loc_z bottomBackRight)
      in if inverted then \<not> inArea else inArea)"

section \<open>The named areas\<close>

definition Area_knownAreas :: "IArea list" where
  "Area_knownAreas = [
    Area_new (-1) 1 1 (-1) ''All'' False,
    Area_new (-1) 1 1 0 ''FrontHalf'' False,
    Area_new (-1) 1 0 (-1) ''LeftHalf'' False,
    Area_new (-1) 0 1 (-1) ''BackHalf'' False,
    Area_new 0 1 1 (-1) ''RightHalf'' False,
    Area_new (-1) 1 1 (1 / 3) ''Front'' False,
    Area_new (-1) (1 / 3) 1 (- 1 / 3) ''CenterFB'' False,
    Area_new (-1) (- 1 / 3) 1 (-1) ''Back'' False,
    Area_new (-1) 1 (- 1 / 3) (-1) ''Left'' False,
    Area_new (- 1 / 3) 1 (1 / 3) (-1) ''CenterLR'' False,
    Area_new (1 / 3) 1 1 (-1) ''Right'' False,
    Area_new (-1) 1 (- 1 / 3) (1 / 3) ''FrontLeft'' False,
    Area_new (- 1 / 3) 1 (1 / 3) (1 / 3) ''FrontCenter'' False,
    Area_new (1 / 3) 1 1 (1 / 3) ''FrontRight'' False,
    Area_new (-1) (1 / 3) (- 1 / 3) (- 1 / 3) ''CenterLeft'' False,
    Area_new (- 1 / 3) (1 / 3) (1 / 3) (- 1 / 3) ''Center'' False,
    Area_new (1 / 3) (1 / 3) 1 (- 1 / 3) ''CenterRight'' False,
    Area_new (-1) (- 1 / 3) (- 1 / 3) (-1) ''BackLeft'' False,
    Area_new (- 1 / 3) (- 1 / 3) (1 / 3) (-1) ''BackCenter'' False,
    Area_new (1 / 3) (- 1 / 3) 1 (-1) ''BackRight'' False,
    Area_new (-1) 1 0 0 ''FrontLeftQuarter'' False,
    Area_new 0 1 1 0 ''FrontRightQuarter'' False,
    Area_new 0 0 1 (-1) ''BackRightQuarter'' False,
    Area_new (-1) 0 0 (-1) ''BackLeftQuarter'' False,
    Area_new (-1) 1 (- 1 / 3) 0 ''FrontHalfLeft'' False,
    Area_new (- 1 / 3) 1 (1 / 3) 0 ''FrontHalfCenter'' False,
    Area_new (1 / 3) 1 1 0 ''FrontHalfRight'' False,
    Area_new (-1) 1 0 (1 / 3) ''LeftHalfFront'' False,
    Area_new (-1) (1 / 3) 0 (- 1 / 3) ''LeftHalfCenter'' False,
    Area_new (-1) (- 1 / 3) 0 (-1) ''LeftHalfBack'' False,
    Area_new (-1) 0 (- 1 / 3) (-1) ''BackHalfLeft'' False,
    Area_new (- 1 / 3) 0 (1 / 3) (-1) ''BackHalfCenter'' False,
    Area_new (1 / 3) 0 1 (-1) ''BackHalfRight'' False,
    Area_new 0 1 1 (1 / 3) ''RightHalfFront'' False,
    Area_new 0 (1 / 3) 1 (- 1 / 3) ''RightHalfCenter'' False,
    Area_new 0 (- 1 / 3) 1 (-1) ''RightHalfBack'' False]"

definition CuboidArea_knownAreas :: "IArea list" where
  "CuboidArea_knownAreas = [
    CuboidArea \<lparr>loc_x = (-1), loc_y = 1, loc_z = 1\<rparr> \<lparr>loc_x = 1, loc_y = (-1), loc_z = (-1)\<rparr> False ''All'',
    CuboidArea \<lparr>loc_x = (-1), loc_y = 1, loc_z = 1\<rparr> \<lparr>loc_x = 1, loc_y = 0, loc_z = (-1)\<rparr> False ''Front'',
    CuboidArea \<lparr>loc_x = (-1), loc_y = 0, loc_z = 1\<rparr> \<lparr>loc_x = 1, loc_y = (-1), loc_z = (-1)\<rparr> False ''Back'',
    CuboidArea \<lparr>loc_x = (-1), loc_y = 1, loc_z = 1\<rparr> \<lparr>loc_x = (- 1 / 3), loc_y = (-1), loc_z = (-1)\<rparr> False ''Left'',
    CuboidArea \<lparr>loc_x = (- 1 / 3), loc_y = 1, loc_z = 1\<rparr> \<lparr>loc_x = (1 / 3), loc_y = (-1), loc_z = (-1)\<rparr> False ''CenterLR'',
    CuboidArea \<lparr>loc_x = (1 / 3), loc_y = 1, loc_z = 1\<rparr> \<lparr>loc_x = 1, loc_y = (-1), loc_z = (-1)\<rparr> False ''Right'',
    CuboidArea \<lparr>loc_x = (-1), loc_y = 1, loc_z = 1\<rparr> \<lparr>loc_x = 1, loc_y = (-1), loc_z = (1 / 3)\<rparr> False ''Top'',
    CuboidArea \<lparr>loc_x = (-1), loc_y = 1, loc_z = (1 / 3)\<rparr> \<lparr>loc_x = 1, loc_y = (-1), loc_z = (- 1 / 3)\<rparr> False ''CenterTB'',
    CuboidArea \<lparr>loc_x = (-1), loc_y = 1, loc_z = (- 1 / 3)\<rparr> \<lparr>loc_x = 1, loc_y = (-1), loc_z = (-1)\<rparr> False ''Bottom'',
    CuboidArea \<lparr>loc_x = (-1), loc_y = 1, loc_z = 1\<rparr> \<lparr>loc_x = (- 1 / 3), loc_y = 0, loc_z = (-1)\<rparr> False ''FrontLeft'',
    CuboidArea \<lparr>loc_x = (- 1 / 3), loc_y = 1, loc_z = 1\<rparr> \<lparr>loc_x = (1 / 3), loc_y = 0, loc_z = (-1)\<rparr> False ''FrontCenterLR'',
    CuboidArea \<lparr>loc_x = (1 / 3), loc_y = 1, loc_z = 1\<rparr> \<lparr>loc_x = 1, loc_y = 0, loc_z = (-1)\<rparr> False ''FrontRight'',
    CuboidArea \<lparr>loc_x = (-1), loc_y = 0, loc_z = 1\<rparr> \<lparr>loc_x = (- 1 / 3), loc_y = (-1), loc_z = (-1)\<rparr> False ''BackLeft'',
    CuboidArea \<lparr>loc_x = (- 1 / 3), loc_y = 0, loc_z = 1\<rparr> \<lparr>loc_x = (1 / 3), loc_y = (-1), loc_z = (-1)\<rparr> False ''BackCenterLR'',
    CuboidArea \<lparr>loc_x = (1 / 3), loc_y = 0, loc_z = 1\<rparr> \<lparr>loc_x = 1, loc_y = (-1), loc_z = (-1)\<rparr> False ''BackRight'',
    CuboidArea \<lparr>loc_x = (-1), loc_y = 1, loc_z = 1\<rparr> \<lparr>loc_x = 1, loc_y = 0, loc_z = (1 / 3)\<rparr> False ''FrontTop'',
    CuboidArea \<lparr>loc_x = (-1), loc_y = 1, loc_z = (1 / 3)\<rparr> \<lparr>loc_x = 1, loc_y = 0, loc_z = (- 1 / 3)\<rparr> False ''FrontCenterTB'',
    CuboidArea \<lparr>loc_x = (-1), loc_y = 1, loc_z = (- 1 / 3)\<rparr> \<lparr>loc_x = 1, loc_y = 0, loc_z = (-1)\<rparr> False ''FrontBottom'',
    CuboidArea \<lparr>loc_x = (-1), loc_y = 1, loc_z = 1\<rparr> \<lparr>loc_x = (- 1 / 3), loc_y = 0, loc_z = (1 / 3)\<rparr> False ''FrontTopLeft'',
    CuboidArea \<lparr>loc_x = (- 1 / 3), loc_y = 1, loc_z = 1\<rparr> \<lparr>loc_x = (1 / 3), loc_y = 0, loc_z = (1 / 3)\<rparr> False ''FrontTopCenter'',
    CuboidArea \<lparr>loc_x = (1 / 3), loc_y = 1, loc_z = 1\<rparr> \<lparr>loc_x = 1, loc_y = 0, loc_z = (1 / 3)\<rparr> False ''FrontTopRight'',
    CuboidArea \<lparr>loc_x = (-1), loc_y = 1, loc_z = (1 / 3)\<rparr> \<lparr>loc_x = (- 1 / 3), loc_y = 0, loc_z = (- 1 / 3)\<rparr> False ''FrontCenterLeft'',
    CuboidArea \<lparr>loc_x = (- 1 / 3), loc_y = 1, loc_z = (1 / 3)\<rparr> \<lparr>loc_x = (1 / 3), loc_y = 0, loc_z = (- 1 / 3)\<rparr> False ''FrontCenterCenter'',
    CuboidArea \<lparr>loc_x = (1 / 3), loc_y = 1, loc_z = (1 / 3)\<rparr> \<lparr>loc_x = 1, loc_y = 0, loc_z = (- 1 / 3)\<rparr> False ''FrontCenterRight'',
    CuboidArea \<lparr>loc_x = (-1), loc_y = 1, loc_z = (- 1 / 3)\<rparr> \<lparr>loc_x = (- 1 / 3), loc_y = 0, loc_z = (-1)\<rparr> False ''FrontBottomLeft'',
    CuboidArea \<lparr>loc_x = (- 1 / 3), loc_y = 1, loc_z = (- 1 / 3)\<rparr> \<lparr>loc_x = (1 / 3), loc_y = 0, loc_z = (-1)\<rparr> False ''FrontBottomCenter'',
    CuboidArea \<lparr>loc_x = (1 / 3), loc_y = 1, loc_z = (- 1 / 3)\<rparr> \<lparr>loc_x = 1, loc_y = 0, loc_z = (-1)\<rparr> False ''FrontBottomRight'']"

fun find_area :: "string \<Rightarrow> IArea list \<Rightarrow> IArea option" where
  "find_area name [] = None"
| "find_area name (area # as) = (if ia_name area = name then Some area else find_area name as)"

definition Area_GetKnownArea :: "string \<Rightarrow> IArea option" where
  "Area_GetKnownArea name = find_area name Area_knownAreas"

definition CuboidArea_GetKnownArea :: "string \<Rightarrow> IArea option" where
  "CuboidArea_GetKnownArea name = find_area name CuboidArea_knownAreas"

section \<open>Saving\<close>

fun Area_Serialize :: "IArea \<Rightarrow> json \<Rightarrow> json" where
  "Area_Serialize (Area topLeft bottomRight inverted name) node =
     (let n1 = SerializeValue ''Name'' (JString name) (Serializable_Serialize ''huestream.Area'' node);
          n2 = SerializeAttribute ''TopLeft'' (Some (Location_Serialize topLeft)) n1;
          n3 = SerializeAttribute ''BottomRight'' (Some (Location_Serialize bottomRight)) n2
      in SerializeValue ''Inverted'' (JBool inverted) n3)"
| "Area_Serialize (CuboidArea topFrontLeft bottomBackRight inverted name) node =
     (let n1 = SerializeValue ''Name'' (JString name) (Serializable_Serialize ''huestream.CuboidArea'' node);
          n2 = SerializeAttribute ''TopFrontLeft'' (Some (Location_Serialize topFrontLeft)) n1;
          n3 = SerializeAttribute ''BottomBackRight'' (Some (Location_Serialize bottomBackRight)) n2
      in SerializeValue ''Inverted'' (JBool inverted) n3)"

definition read_location :: "json_lib \<Rightarrow> json \<Rightarrow> string \<Rightarrow> Location option" where
  "read_location L node name =
     (let origin = \<lparr>loc_x = 0, loc_y = 0, loc_z = 0\<rparr>
      in DeserializeAttribute L node name ''huestream.Location'' (\<lambda>n. Location_Deserialize L n origin) origin)"

definition Area_Deserialize :: "json_lib \<Rightarrow> json \<Rightarrow> IArea option" where
  "Area_Deserialize L node =
     (case (read_location L node ''TopLeft'', read_location L node ''BottomRight'') of
        (Some topLeft, Some bottomRight) \<Rightarrow>
          Some (Area topLeft bottomRight (DeserializeBool L node ''Inverted'' False) (DeserializeString L node ''Name'' []))
      | _ \<Rightarrow> None)"

definition CuboidArea_Deserialize :: "json_lib \<Rightarrow> json \<Rightarrow> IArea option" where
  "CuboidArea_Deserialize L node =
     (case (read_location L node ''TopFrontLeft'', read_location L node ''BottomBackRight'') of
        (Some topFrontLeft, Some bottomBackRight) \<Rightarrow>
          Some (CuboidArea topFrontLeft bottomBackRight (DeserializeBool L node ''Inverted'' False)
            (DeserializeString L node ''Name'' []))
      | _ \<Rightarrow> None)"

text \<open>The elements of a list of areas may be of both classes.\<close>

definition IArea_FromJson :: "json_lib \<Rightarrow> json \<Rightarrow> IArea option" where
  "IArea_FromJson L item = (case DeserializeFromJson L ''huestream.Area'' (Area_Deserialize L) item of
      Built a \<Rightarrow> a
    | _ \<Rightarrow> (case DeserializeFromJson L ''huestream.CuboidArea'' (CuboidArea_Deserialize L) item of Built a \<Rightarrow> a | _ \<Rightarrow> None))"

definition AreaList_Deserialize :: "json_lib \<Rightarrow> json \<Rightarrow> string \<Rightarrow> IArea list option" where
  "AreaList_Deserialize L node attributeName = (case json_find attributeName node of
      None \<Rightarrow> Some [] | Some listNode \<Rightarrow> those (map (IArea_FromJson L) (json_children listNode)))"

section \<open>Reading back\<close>

lemma location_typed: "json_find AttributeType (Location_Serialize l (JNode [])) = Some (JString ''huestream.Location'')"
  by (simp add: Location_Serialize_def serialize_defs)

lemma location_read: "json_find name node = Some (Location_Serialize l (JNode [])) \<Longrightarrow> read_location L node name = Some l"
  by (simp add: read_location_def DeserializeFromJson_typed AttributeType_def Location_Serialize_def
      Location_Deserialize_def serialize_defs deserialize_defs)

lemma area_read_back: "IArea_FromJson L (Area_Serialize a (JNode [])) = Some a"
proof (cases a)
  case (Area topLeft bottomRight inverted name)
  let ?node = "Area_Serialize a (JNode [])"
  have t: "json_find AttributeType ?node = Some (JString ''huestream.Area'')"
    by (simp add: Area serialize_defs Let_def)
  have "read_location L ?node ''TopLeft'' = Some topLeft" "read_location L ?node ''BottomRight'' = Some bottomRight"
    by (rule location_read; simp add: Area serialize_defs Let_def)+
  then have "Area_Deserialize L ?node = Some a"
    by (simp add: Area_Deserialize_def) (simp add: Area serialize_defs deserialize_defs Let_def)
  then show ?thesis by (simp add: IArea_FromJson_def DeserializeFromJson_typed[OF t])
next
  case (CuboidArea topFrontLeft bottomBackRight inverted name)
  let ?node = "Area_Serialize a (JNode [])"
  have t: "json_find AttributeType ?node = Some (JString ''huestream.CuboidArea'')"
    by (simp add: CuboidArea serialize_defs Let_def)
  have "read_location L ?node ''TopFrontLeft'' = Some topFrontLeft" "read_location L ?node ''BottomBackRight'' = Some bottomBackRight"
    by (rule location_read; simp add: CuboidArea serialize_defs Let_def)+
  then have "CuboidArea_Deserialize L ?node = Some a"
    by (simp add: CuboidArea_Deserialize_def) (simp add: CuboidArea serialize_defs deserialize_defs Let_def)
  moreover have "DeserializeFromJson L ''huestream.Area'' (Area_Deserialize L) ?node = OtherClass"
    using t by (simp add: DeserializeFromJson_def IsAttributeSet_def GetTypeFromJson_def GetAttributeValue_def known_types_def)
  ultimately show ?thesis by (simp add: IArea_FromJson_def DeserializeFromJson_typed[OF t])
qed

lemma areas_read_back:
  "json_find name node = Some (JArray (map (\<lambda>a. Area_Serialize a (JNode [])) as)) \<Longrightarrow> AreaList_Deserialize L node name = Some as"
  by (induction as arbitrary: node) (simp_all add: AreaList_Deserialize_def area_read_back comp_def those_map_Some[where g = id, simplified])

section \<open>The named areas divide the room\<close>

lemma known_names: "distinct (map ia_name Area_knownAreas)" "distinct (map ia_name CuboidArea_knownAreas)"
  by (simp_all add: Area_knownAreas_def CuboidArea_knownAreas_def Area_new_def)

lemma find_area_known: "a \<in> set as \<Longrightarrow> distinct (map ia_name as) \<Longrightarrow> find_area (ia_name a) as = Some a"
  by (induction as) force+

lemma known_area_found:
  "a \<in> set Area_knownAreas \<Longrightarrow> Area_GetKnownArea (ia_name a) = Some a"
  "a \<in> set CuboidArea_knownAreas \<Longrightarrow> CuboidArea_GetKnownArea (ia_name a) = Some a"
  unfolding Area_GetKnownArea_def CuboidArea_GetKnownArea_def by (simp_all add: find_area_known known_names)

text \<open>A division of the room: every place is in some area, and two areas share only border lines.\<close>

definition in_room :: "Location \<Rightarrow> bool" where
  "in_room l \<longleftrightarrow> \<bar>loc_x l\<bar> \<le> 1 \<and> \<bar>loc_y l\<bar> \<le> 1 \<and> \<bar>loc_z l\<bar> \<le> 1"

definition on_border :: "Location \<Rightarrow> bool" where
  "on_border l \<longleftrightarrow> loc_x l \<in> {- 1 / 3, 0, 1 / 3} \<or> loc_y l \<in> {- 1 / 3, 0, 1 / 3} \<or> loc_z l \<in> {- 1 / 3, 0, 1 / 3}"

definition divides_room :: "IArea list option \<Rightarrow> Location \<Rightarrow> bool" where
  "divides_room areas l = (case areas of
      None \<Rightarrow> False
    | Some as \<Rightarrow> (let hits = filter (\<lambda>a. isInArea a l) as in length hits = 1 \<or> length hits > 1 \<and> on_border l))"

definition areas_of :: "(string \<Rightarrow> IArea option) \<Rightarrow> string list \<Rightarrow> IArea list option" where
  "areas_of known names = those (map known names)"

definition divisions :: "string list list" where
  "divisions = [[''All''], [''FrontHalf'', ''BackHalf''], [''LeftHalf'', ''RightHalf''], [''Front'', ''CenterFB'', ''Back''],
     [''Left'', ''CenterLR'', ''Right''],
     [''FrontLeft'', ''FrontCenter'', ''FrontRight'', ''CenterLeft'', ''Center'', ''CenterRight'', ''BackLeft'', ''BackCenter'', ''BackRight''],
     [''FrontLeftQuarter'', ''FrontRightQuarter'', ''BackRightQuarter'', ''BackLeftQuarter''],
     [''FrontHalfLeft'', ''FrontHalfCenter'', ''FrontHalfRight'', ''BackHalfLeft'', ''BackHalfCenter'', ''BackHalfRight''],
     [''LeftHalfFront'', ''LeftHalfCenter'', ''LeftHalfBack'', ''RightHalfFront'', ''RightHalfCenter'', ''RightHalfBack'']]"

definition box_divisions :: "string list list" where
  "box_divisions = [[''All''], [''Front'', ''Back''], [''Left'', ''CenterLR'', ''Right''], [''Top'', ''CenterTB'', ''Bottom''],
     [''FrontLeft'', ''FrontCenterLR'', ''FrontRight'', ''BackLeft'', ''BackCenterLR'', ''BackRight''],
     [''FrontTop'', ''FrontCenterTB'', ''FrontBottom'', ''Back''],
     [''FrontTopLeft'', ''FrontTopCenter'', ''FrontTopRight'', ''FrontCenterLeft'', ''FrontCenterCenter'', ''FrontCenterRight'',
      ''FrontBottomLeft'', ''FrontBottomCenter'', ''FrontBottomRight'', ''Back'']]"

lemma Area_lookup:
  "Area_GetKnownArea ''All'' = Some (Area_new (-1) 1 1 (-1) ''All'' False)"
  "Area_GetKnownArea ''FrontHalf'' = Some (Area_new (-1) 1 1 0 ''FrontHalf'' False)"
  "Area_GetKnownArea ''LeftHalf'' = Some (Area_new (-1) 1 0 (-1) ''LeftHalf'' False)"
  "Area_GetKnownArea ''BackHalf'' = Some (Area_new (-1) 0 1 (-1) ''BackHalf'' False)"
  "Area_GetKnownArea ''RightHalf'' = Some (Area_new 0 1 1 (-1) ''RightHalf'' False)"
  "Area_GetKnownArea ''Front'' = Some (Area_new (-1) 1 1 (1 / 3) ''Front'' False)"
  "Area_GetKnownArea ''CenterFB'' = Some (Area_new (-1) (1 / 3) 1 (- 1 / 3) ''CenterFB'' False)"
  "Area_GetKnownArea ''Back'' = Some (Area_new (-1) (- 1 / 3) 1 (-1) ''Back'' False)"
  "Area_GetKnownArea ''Left'' = Some (Area_new (-1) 1 (- 1 / 3) (-1) ''Left'' False)"
  "Area_GetKnownArea ''CenterLR'' = Some (Area_new (- 1 / 3) 1 (1 / 3) (-1) ''CenterLR'' False)"
  "Area_GetKnownArea ''Right'' = Some (Area_new (1 / 3) 1 1 (-1) ''Right'' False)"
  "Area_GetKnownArea ''FrontLeft'' = Some (Area_new (-1) 1 (- 1 / 3) (1 / 3) ''FrontLeft'' False)"
  "Area_GetKnownArea ''FrontCenter'' = Some (Area_new (- 1 / 3) 1 (1 / 3) (1 / 3) ''FrontCenter'' False)"
  "Area_GetKnownArea ''FrontRight'' = Some (Area_new (1 / 3) 1 1 (1 / 3) ''FrontRight'' False)"
  "Area_GetKnownArea ''CenterLeft'' = Some (Area_new (-1) (1 / 3) (- 1 / 3) (- 1 / 3) ''CenterLeft'' False)"
  "Area_GetKnownArea ''Center'' = Some (Area_new (- 1 / 3) (1 / 3) (1 / 3) (- 1 / 3) ''Center'' False)"
  "Area_GetKnownArea ''CenterRight'' = Some (Area_new (1 / 3) (1 / 3) 1 (- 1 / 3) ''CenterRight'' False)"
  "Area_GetKnownArea ''BackLeft'' = Some (Area_new (-1) (- 1 / 3) (- 1 / 3) (-1) ''BackLeft'' False)"
  "Area_GetKnownArea ''BackCenter'' = Some (Area_new (- 1 / 3) (- 1 / 3) (1 / 3) (-1) ''BackCenter'' False)"
  "Area_GetKnownArea ''BackRight'' = Some (Area_new (1 / 3) (- 1 / 3) 1 (-1) ''BackRight'' False)"
  "Area_GetKnownArea ''FrontLeftQuarter'' = Some (Area_new (-1) 1 0 0 ''FrontLeftQuarter'' False)"
  "Area_GetKnownArea ''FrontRightQuarter'' = Some (Area_new 0 1 1 0 ''FrontRightQuarter'' False)"
  "Area_GetKnownArea ''BackRightQuarter'' = Some (Area_new 0 0 1 (-1) ''BackRightQuarter'' False)"
  "Area_GetKnownArea ''BackLeftQuarter'' = Some (Area_new (-1) 0 0 (-1) ''BackLeftQuarter'' False)"
  "Area_GetKnownArea ''FrontHalfLeft'' = Some (Area_new (-1) 1 (- 1 / 3) 0 ''FrontHalfLeft'' False)"
  "Area_GetKnownArea ''FrontHalfCenter'' = Some (Area_new (- 1 / 3) 1 (1 / 3) 0 ''FrontHalfCenter'' False)"
  "Area_GetKnownArea ''FrontHalfRight'' = Some (Area_new (1 / 3) 1 1 0 ''FrontHalfRight'' False)"
  "Area_GetKnownArea ''LeftHalfFront'' = Some (Area_new (-1) 1 0 (1 / 3) ''LeftHalfFront'' False)"
  "Area_GetKnownArea ''LeftHalfCenter'' = Some (Area_new (-1) (1 / 3) 0 (- 1 / 3) ''LeftHalfCenter'' False)"
  "Area_GetKnownArea ''LeftHalfBack'' = Some (Area_new (-1) (- 1 / 3) 0 (-1) ''LeftHalfBack'' False)"
  "Area_GetKnownArea ''BackHalfLeft'' = Some (Area_new (-1) 0 (- 1 / 3) (-1) ''BackHalfLeft'' False)"
  "Area_GetKnownArea ''BackHalfCenter'' = Some (Area_new (- 1 / 3) 0 (1 / 3) (-1) ''BackHalfCenter'' False)"
  "Area_GetKnownArea ''BackHalfRight'' = Some (Area_new (1 / 3) 0 1 (-1) ''BackHalfRight'' False)"
  "Area_GetKnownArea ''RightHalfFront'' = Some (Area_new 0 1 1 (1 / 3) ''RightHalfFront'' False)"
  "Area_GetKnownArea ''RightHalfCenter'' = Some (Area_new 0 (1 / 3) 1 (- 1 / 3) ''RightHalfCenter'' False)"
  "Area_GetKnownArea ''RightHalfBack'' = Some (Area_new 0 (- 1 / 3) 1 (-1) ''RightHalfBack'' False)"
  by (simp_all add: Area_GetKnownArea_def Area_knownAreas_def Area_new_def)

lemma CuboidArea_lookup:
  "CuboidArea_GetKnownArea ''All'' = Some (CuboidArea \<lparr>loc_x = (-1), loc_y = 1, loc_z = 1\<rparr> \<lparr>loc_x = 1, loc_y = (-1), loc_z = (-1)\<rparr> False ''All'')"
  "CuboidArea_GetKnownArea ''Front'' = Some (CuboidArea \<lparr>loc_x = (-1), loc_y = 1, loc_z = 1\<rparr> \<lparr>loc_x = 1, loc_y = 0, loc_z = (-1)\<rparr> False ''Front'')"
  "CuboidArea_GetKnownArea ''Back'' = Some (CuboidArea \<lparr>loc_x = (-1), loc_y = 0, loc_z = 1\<rparr> \<lparr>loc_x = 1, loc_y = (-1), loc_z = (-1)\<rparr> False ''Back'')"
  "CuboidArea_GetKnownArea ''Left'' = Some (CuboidArea \<lparr>loc_x = (-1), loc_y = 1, loc_z = 1\<rparr> \<lparr>loc_x = (- 1 / 3), loc_y = (-1), loc_z = (-1)\<rparr> False ''Left'')"
  "CuboidArea_GetKnownArea ''CenterLR'' = Some (CuboidArea \<lparr>loc_x = (- 1 / 3), loc_y = 1, loc_z = 1\<rparr> \<lparr>loc_x = (1 / 3), loc_y = (-1), loc_z = (-1)\<rparr> False ''CenterLR'')"
  "CuboidArea_GetKnownArea ''Right'' = Some (CuboidArea \<lparr>loc_x = (1 / 3), loc_y = 1, loc_z = 1\<rparr> \<lparr>loc_x = 1, loc_y = (-1), loc_z = (-1)\<rparr> False ''Right'')"
  "CuboidArea_GetKnownArea ''Top'' = Some (CuboidArea \<lparr>loc_x = (-1), loc_y = 1, loc_z = 1\<rparr> \<lparr>loc_x = 1, loc_y = (-1), loc_z = (1 / 3)\<rparr> False ''Top'')"
  "CuboidArea_GetKnownArea ''CenterTB'' = Some (CuboidArea \<lparr>loc_x = (-1), loc_y = 1, loc_z = (1 / 3)\<rparr> \<lparr>loc_x = 1, loc_y = (-1), loc_z = (- 1 / 3)\<rparr> False ''CenterTB'')"
  "CuboidArea_GetKnownArea ''Bottom'' = Some (CuboidArea \<lparr>loc_x = (-1), loc_y = 1, loc_z = (- 1 / 3)\<rparr> \<lparr>loc_x = 1, loc_y = (-1), loc_z = (-1)\<rparr> False ''Bottom'')"
  "CuboidArea_GetKnownArea ''FrontLeft'' = Some (CuboidArea \<lparr>loc_x = (-1), loc_y = 1, loc_z = 1\<rparr> \<lparr>loc_x = (- 1 / 3), loc_y = 0, loc_z = (-1)\<rparr> False ''FrontLeft'')"
  "CuboidArea_GetKnownArea ''FrontCenterLR'' = Some (CuboidArea \<lparr>loc_x = (- 1 / 3), loc_y = 1, loc_z = 1\<rparr> \<lparr>loc_x = (1 / 3), loc_y = 0, loc_z = (-1)\<rparr> False ''FrontCenterLR'')"
  "CuboidArea_GetKnownArea ''FrontRight'' = Some (CuboidArea \<lparr>loc_x = (1 / 3), loc_y = 1, loc_z = 1\<rparr> \<lparr>loc_x = 1, loc_y = 0, loc_z = (-1)\<rparr> False ''FrontRight'')"
  "CuboidArea_GetKnownArea ''BackLeft'' = Some (CuboidArea \<lparr>loc_x = (-1), loc_y = 0, loc_z = 1\<rparr> \<lparr>loc_x = (- 1 / 3), loc_y = (-1), loc_z = (-1)\<rparr> False ''BackLeft'')"
  "CuboidArea_GetKnownArea ''BackCenterLR'' = Some (CuboidArea \<lparr>loc_x = (- 1 / 3), loc_y = 0, loc_z = 1\<rparr> \<lparr>loc_x = (1 / 3), loc_y = (-1), loc_z = (-1)\<rparr> False ''BackCenterLR'')"
  "CuboidArea_GetKnownArea ''BackRight'' = Some (CuboidArea \<lparr>loc_x = (1 / 3), loc_y = 0, loc_z = 1\<rparr> \<lparr>loc_x = 1, loc_y = (-1), loc_z = (-1)\<rparr> False ''BackRight'')"
  "CuboidArea_GetKnownArea ''FrontTop'' = Some (CuboidArea \<lparr>loc_x = (-1), loc_y = 1, loc_z = 1\<rparr> \<lparr>loc_x = 1, loc_y = 0, loc_z = (1 / 3)\<rparr> False ''FrontTop'')"
  "CuboidArea_GetKnownArea ''FrontCenterTB'' = Some (CuboidArea \<lparr>loc_x = (-1), loc_y = 1, loc_z = (1 / 3)\<rparr> \<lparr>loc_x = 1, loc_y = 0, loc_z = (- 1 / 3)\<rparr> False ''FrontCenterTB'')"
  "CuboidArea_GetKnownArea ''FrontBottom'' = Some (CuboidArea \<lparr>loc_x = (-1), loc_y = 1, loc_z = (- 1 / 3)\<rparr> \<lparr>loc_x = 1, loc_y = 0, loc_z = (-1)\<rparr> False ''FrontBottom'')"
  "CuboidArea_GetKnownArea ''FrontTopLeft'' = Some (CuboidArea \<lparr>loc_x = (-1), loc_y = 1, loc_z = 1\<rparr> \<lparr>loc_x = (- 1 / 3), loc_y = 0, loc_z = (1 / 3)\<rparr> False ''FrontTopLeft'')"
  "CuboidArea_GetKnownArea ''FrontTopCenter'' = Some (CuboidArea \<lparr>loc_x = (- 1 / 3), loc_y = 1, loc_z = 1\<rparr> \<lparr>loc_x = (1 / 3), loc_y = 0, loc_z = (1 / 3)\<rparr> False ''FrontTopCenter'')"
  "CuboidArea_GetKnownArea ''FrontTopRight'' = Some (CuboidArea \<lparr>loc_x = (1 / 3), loc_y = 1, loc_z = 1\<rparr> \<lparr>loc_x = 1, loc_y = 0, loc_z = (1 / 3)\<rparr> False ''FrontTopRight'')"
  "CuboidArea_GetKnownArea ''FrontCenterLeft'' = Some (CuboidArea \<lparr>loc_x = (-1), loc_y = 1, loc_z = (1 / 3)\<rparr> \<lparr>loc_x = (- 1 / 3), loc_y = 0, loc_z = (- 1 / 3)\<rparr> False ''FrontCenterLeft'')"
  "CuboidArea_GetKnownArea ''FrontCenterCenter'' = Some (CuboidArea \<lparr>loc_x = (- 1 / 3), loc_y = 1, loc_z = (1 / 3)\<rparr> \<lparr>loc_x = (1 / 3), loc_y = 0, loc_z = (- 1 / 3)\<rparr> False ''FrontCenterCenter'')"
  "CuboidArea_GetKnownArea ''FrontCenterRight'' = Some (CuboidArea \<lparr>loc_x = (1 / 3), loc_y = 1, loc_z = (1 / 3)\<rparr> \<lparr>loc_x = 1, loc_y = 0, loc_z = (- 1 / 3)\<rparr> False ''FrontCenterRight'')"
  "CuboidArea_GetKnownArea ''FrontBottomLeft'' = Some (CuboidArea \<lparr>loc_x = (-1), loc_y = 1, loc_z = (- 1 / 3)\<rparr> \<lparr>loc_x = (- 1 / 3), loc_y = 0, loc_z = (-1)\<rparr> False ''FrontBottomLeft'')"
  "CuboidArea_GetKnownArea ''FrontBottomCenter'' = Some (CuboidArea \<lparr>loc_x = (- 1 / 3), loc_y = 1, loc_z = (- 1 / 3)\<rparr> \<lparr>loc_x = (1 / 3), loc_y = 0, loc_z = (-1)\<rparr> False ''FrontBottomCenter'')"
  "CuboidArea_GetKnownArea ''FrontBottomRight'' = Some (CuboidArea \<lparr>loc_x = (1 / 3), loc_y = 1, loc_z = (- 1 / 3)\<rparr> \<lparr>loc_x = 1, loc_y = 0, loc_z = (-1)\<rparr> False ''FrontBottomRight'')"
  by (simp_all add: CuboidArea_GetKnownArea_def CuboidArea_knownAreas_def)

lemma thirds:
  fixes x :: real
  obtains "x < - 1 / 3" | "x = - 1 / 3" | "- 1 / 3 < x" "x < 1 / 3" | "x = 1 / 3" | "1 / 3 < x"
  by linarith

lemmas place_lookup = Area_lookup CuboidArea_lookup areas_of_def

lemmas place_tests = in_room_def on_border_def abs_le_iff divides_room_def Area_new_def Let_def

abbreviation divided :: "string list list \<Rightarrow> Location \<Rightarrow> bool" where
  "divided ns l \<equiv> list_all (\<lambda>names. divides_room (areas_of Area_GetKnownArea names) l) ns"

abbreviation box_divided :: "string list list \<Rightarrow> Location \<Rightarrow> bool" where
  "box_divided ns l \<equiv> list_all (\<lambda>names. divides_room (areas_of CuboidArea_GetKnownArea names) l) ns"

lemma divided_halves: "in_room l \<Longrightarrow> divided [[''All''], [''FrontHalf'', ''BackHalf''], [''LeftHalf'', ''RightHalf''],
    [''FrontLeftQuarter'', ''FrontRightQuarter'', ''BackRightQuarter'', ''BackLeftQuarter'']] l"
  by (simp add: place_lookup; cases "loc_x l" "0::real" rule: linorder_cases; cases "loc_y l" "0::real" rule: linorder_cases; simp add: place_tests)

lemma divided_thirds: "in_room l \<Longrightarrow> divided [[''Front'', ''CenterFB'', ''Back''], [''Left'', ''CenterLR'', ''Right''],
    [''FrontLeft'', ''FrontCenter'', ''FrontRight'', ''CenterLeft'', ''Center'', ''CenterRight'', ''BackLeft'', ''BackCenter'', ''BackRight'']] l"
  by (simp add: place_lookup; cases "loc_x l" rule: thirds; cases "loc_y l" rule: thirds; simp add: place_tests)

lemma divided_sixths: "in_room l \<Longrightarrow> divided
    [[''FrontHalfLeft'', ''FrontHalfCenter'', ''FrontHalfRight'', ''BackHalfLeft'', ''BackHalfCenter'', ''BackHalfRight'']] l"
  by (simp add: place_lookup; cases "loc_x l" rule: thirds; cases "loc_y l" "0::real" rule: linorder_cases; simp add: place_tests)

lemma divided_sixths_across: "in_room l \<Longrightarrow> divided
    [[''LeftHalfFront'', ''LeftHalfCenter'', ''LeftHalfBack'', ''RightHalfFront'', ''RightHalfCenter'', ''RightHalfBack'']] l"
  by (simp add: place_lookup; cases "loc_x l" "0::real" rule: linorder_cases; cases "loc_y l" rule: thirds; simp add: place_tests)

lemma box_divided_x: "in_room l \<Longrightarrow> box_divided [[''All''], [''Front'', ''Back''], [''Left'', ''CenterLR'', ''Right''],
    [''FrontLeft'', ''FrontCenterLR'', ''FrontRight'', ''BackLeft'', ''BackCenterLR'', ''BackRight'']] l"
  by (simp add: place_lookup; cases "loc_y l" "0::real" rule: linorder_cases; cases "loc_x l" rule: thirds; simp add: place_tests)

lemma box_divided_z: "in_room l \<Longrightarrow> box_divided [[''Top'', ''CenterTB'', ''Bottom''],
    [''FrontTop'', ''FrontCenterTB'', ''FrontBottom'', ''Back'']] l"
  by (simp add: place_lookup; cases "loc_y l" "0::real" rule: linorder_cases; cases "loc_z l" rule: thirds; simp add: place_tests)

lemma box_divided_front: "in_room l \<Longrightarrow> box_divided [[''FrontTopLeft'', ''FrontTopCenter'', ''FrontTopRight'', ''FrontCenterLeft'',
    ''FrontCenterCenter'', ''FrontCenterRight'', ''FrontBottomLeft'', ''FrontBottomCenter'', ''FrontBottomRight'', ''Back'']] l"
  by (simp add: place_lookup; cases "loc_y l" "0::real" rule: linorder_cases; cases "loc_x l" rule: thirds; cases "loc_z l" rule: thirds; simp add: place_tests)

text \<open>
  Each of the divisions that the named areas offer (halves, quarters, thirds, nine
  fields, sixths, and the divisions into boxes) covers the whole room, and a place that is on no
  border line is in exactly one of its areas.
\<close>

theorem named_areas_divide_room:
  assumes "in_room l"
  shows "list_all (\<lambda>names. divides_room (areas_of Area_GetKnownArea names) l) divisions
    \<and> list_all (\<lambda>names. divides_room (areas_of CuboidArea_GetKnownArea names) l) box_divisions"
  using divided_halves[OF assms] divided_thirds[OF assms] divided_sixths[OF assms] divided_sixths_across[OF assms]
    box_divided_x[OF assms] box_divided_z[OF assms] box_divided_front[OF assms]
  by (simp only: divisions_def box_divisions_def list.pred_inject simp_thms)

theorem named_areas_divide_room_witness:
  "divides_room (areas_of Area_GetKnownArea (divisions ! 5)) \<lparr>loc_x = 1 / 2, loc_y = 1 / 4, loc_z = 0\<rparr>"
proof -
  have "in_room \<lparr>loc_x = 1 / 2, loc_y = 1 / 4, loc_z = 0\<rparr>" by (simp add: in_room_def)
  moreover have "5 < length divisions" by (simp add: divisions_def)
  ultimately show ?thesis using named_areas_divide_room by (metis list_all_length)
qed

end



