(* ===== verification/Channels.thy ===== *)
theory Channels imports Persistence "HOL-Library.Multiset" begin

text \<open>
  How \<open>huestream/effect/effects/MultiChannelEffect\<close> gives each light of a group a channel: in
  rounds, in which every channel takes one of the lights that are left, the closest pair first. A
  channel is known by its index in the list of channels.
\<close>

section \<open>Closest lights and channels\<close>

definition Vector_between :: "Location \<Rightarrow> Location \<Rightarrow> Location" where
  "Vector_between from to =
     \<lparr>loc_x = loc_x to - loc_x from, loc_y = loc_y to - loc_y from, loc_z = loc_z to - loc_z from\<rparr>"

definition Vector_GetLength :: "Location \<Rightarrow> real" where
  "Vector_GetLength v = sqrt (loc_x v * loc_x v + loc_y v * loc_y v + loc_z v * loc_z v)"

text \<open>The loops keep the best index and its distance.\<close>

fun closest_loop :: "real list \<Rightarrow> nat \<Rightarrow> nat \<Rightarrow> real \<Rightarrow> nat" where
  "closest_loop [] i best smallestDistance = best"
| "closest_loop (distance # ds) i best smallestDistance =
     (if distance < smallestDistance then closest_loop ds (i + 1) i distance
      else closest_loop ds (i + 1) best smallestDistance)"

definition FindClosestLight :: "Light list \<Rightarrow> Location \<Rightarrow> nat" where
  "FindClosestLight lights position =
     closest_loop (map (\<lambda>light. Vector_GetLength (Vector_between position (l_position light))) lights) 0 0 DBL_INF"

definition FindChannelWithClosestLight :: "(nat \<times> Location) list \<Rightarrow> Light list \<Rightarrow> nat" where
  "FindChannelWithClosestLight channels lights =
     closest_loop (map (\<lambda>(c, position). Vector_GetLength (Vector_between position
       (l_position (lights ! FindClosestLight lights position)))) channels) 0 0 DBL_INF"

section \<open>The assignment\<close>

definition erase :: "nat \<Rightarrow> 'a list \<Rightarrow> 'a list" where
  "erase i xs = take i xs @ drop (i + 1) xs"

lemma closest_loop_bound: "closest_loop ds i best d = best \<or> closest_loop ds i best d < i + length ds"
proof (induction ds arbitrary: i best d)
  case (Cons a ds)
  show ?case using Cons.IH[of "i + 1" i a] Cons.IH[of "i + 1" best d] by auto
qed simp

lemma closest_bound: "ds \<noteq> [] \<Longrightarrow> closest_loop ds 0 0 d < length ds"
  using closest_loop_bound[of ds 0 0 d] by (cases ds) auto

lemma FindClosestLight_bound: "lights \<noteq> [] \<Longrightarrow> FindClosestLight lights p < length lights"
  using closest_bound[of "map (\<lambda>light. Vector_GetLength (Vector_between p (l_position light))) lights" DBL_INF]
  by (simp add: FindClosestLight_def)

lemma FindChannel_bound: "channels \<noteq> [] \<Longrightarrow> FindChannelWithClosestLight channels lights < length channels"
  using closest_bound[of "map (\<lambda>(c, position). Vector_GetLength (Vector_between position
       (l_position (lights ! FindClosestLight lights position)))) channels" DBL_INF]
  by (simp add: FindChannelWithClosestLight_def)

lemma length_erase: "i < length xs \<Longrightarrow> length (erase i xs) = length xs - 1"
  by (simp add: erase_def)

text \<open>
  A round: pairs of a light and a channel, and the lights that are left. The channels of a round
  are all different.
\<close>

function assign_round :: "(nat \<times> Location) list \<Rightarrow> Light list \<Rightarrow> (Light \<times> nat) list \<times> Light list" where
  "assign_round channelsCopy lightsCopy =
     (if channelsCopy = [] \<or> lightsCopy = [] then ([], lightsCopy)
      else let channelIt = FindChannelWithClosestLight channelsCopy lightsCopy;
               (c, position) = channelsCopy ! channelIt;
               lightIt = FindClosestLight lightsCopy position;
               (pairs, rest) = assign_round (erase channelIt channelsCopy) (erase lightIt lightsCopy)
           in ((lightsCopy ! lightIt, c) # pairs, rest))"
  by pat_completeness auto
termination
  by (relation "measure (\<lambda>(channels, lights). length channels)") (auto simp: length_erase FindChannel_bound)

declare assign_round.simps [simp del]

lemma assign_round_Nil [simp]: "assign_round [] lights = ([], lights)" "assign_round channels [] = ([], [])"
  by (simp_all add: assign_round.simps[of "[]"] assign_round.simps[of channels])

lemma assign_round_step:
  assumes "channels \<noteq> []" "lights \<noteq> []"
  obtains i j c p pairs rest where "i < length channels" "channels ! i = (c, p)" "j < length lights"
    "assign_round (erase i channels) (erase j lights) = (pairs, rest)"
    "assign_round channels lights = ((lights ! j, c) # pairs, rest)"
    "i = FindChannelWithClosestLight channels lights" "j = FindClosestLight lights p"
proof -
  let ?i = "FindChannelWithClosestLight channels lights"
  obtain c p where cp: "channels ! ?i = (c, p)" by fastforce
  let ?j = "FindClosestLight lights p"
  obtain pairs rest where r: "assign_round (erase ?i channels) (erase ?j lights) = (pairs, rest)" by fastforce
  have "assign_round channels lights = ((lights ! ?j, c) # pairs, rest)"
    using assms cp r by (subst assign_round.simps) (simp add: Let_def)
  then show thesis
    using that[OF FindChannel_bound[OF assms(1)] cp FindClosestLight_bound[OF assms(2)] r] by simp
qed

lemma mset_erase: "i < length xs \<Longrightarrow> mset xs = add_mset (xs ! i) (mset (erase i xs))"
  by (metis add.commute append_Cons_eq_iff id_take_nth_drop erase_def Suc_eq_plus1 mset.simps(2) mset_append union_mset_add_mset_right)

text \<open>Every light is in a pair or left, and the channels of the pairs are different ones of the round.\<close>

lemma assign_round_spec:
  "assign_round channels lights = (pairs, rest) \<Longrightarrow>
   mset lights = mset (map fst pairs) + mset rest \<and> mset (map snd pairs) \<subseteq># mset (map fst channels)
   \<and> length pairs = min (length channels) (length lights)"
proof (induction "length channels" arbitrary: channels lights pairs rest)
  case (Suc n)
  show ?case
  proof (cases "lights = []")
    case False
    have "channels \<noteq> []" using Suc.hyps(2) by auto
    then obtain i j c p ps r where ij: "i < length channels" "channels ! i = (c, p)" "j < length lights"
      and r: "assign_round (erase i channels) (erase j lights) = (ps, r)"
      and e: "assign_round channels lights = ((lights ! j, c) # ps, r)"
      using False assign_round_step by metis
    have "n = length (erase i channels)" using Suc.hyps(2) ij(1) by (simp add: length_erase)
    note IH = Suc.hyps(1)[OF this r]
    have "mset (map fst channels) = add_mset c (mset (map fst (erase i channels)))"
      using mset_erase[OF ij(1)] ij(2) by (metis fst_conv image_mset_add_mset mset_map)
    then show ?thesis
      using IH mset_erase[OF ij(3)] e Suc.prems ij length_erase[OF ij(1)] length_erase[OF ij(3)] by auto
  qed (use Suc.prems in auto)
qed auto

text \<open>\<open>AssignLightsToChannels\<close>: rounds with all channels until no light is left.\<close>

function assign_rounds :: "(nat \<times> Location) list \<Rightarrow> Light list \<Rightarrow> (Light \<times> nat) list" where
  "assign_rounds channels lightsCopy =
     (if channels = [] \<or> lightsCopy = [] then []
      else let (pairs, rest) = assign_round channels lightsCopy in pairs @ assign_rounds channels rest)"
  by pat_completeness auto
termination
proof (relation "measure (\<lambda>(channels, lights). length lights)", goal_cases)
  case (2 channels lights pr pairs rest)
  have "length lights = length pairs + length rest" "length pairs = min (length channels) (length lights)"
    using assign_round_spec[of channels lights pairs rest] 2 by (metis length_map mset_append size_mset length_append)+
  moreover have "0 < length channels" "0 < length lights" using 2 by auto
  ultimately show ?case by (auto simp: min_def simp del: length_greater_0_conv split: if_splits)
qed simp

declare assign_rounds.simps [simp del]

definition AssignLightsToChannels :: "Location list \<Rightarrow> Light list \<Rightarrow> string \<rightharpoonup> nat" where
  "AssignLightsToChannels channels lights =
     map_of (map (\<lambda>(light, c). (l_id light, c)) (assign_rounds (enumerate 0 channels) lights))"

section \<open>The assignment is balanced\<close>

lemma count_round:
  assumes "assign_round channels lights = (pairs, rest)" "distinct (map fst channels)" "c \<in> set (map fst channels)"
  shows "count (mset (map snd pairs)) c \<le> 1" "length channels \<le> length lights \<Longrightarrow> count (mset (map snd pairs)) c = 1"
proof -
  have sub: "mset (map snd pairs) \<subseteq># mset (map fst channels)" and len: "length pairs = min (length channels) (length lights)"
    using assign_round_spec[OF assms(1)] by simp_all
  have one: "count (mset (map fst channels)) c = 1" using assms(2,3) by (simp add: distinct_count_atmost_1)
  then show "count (mset (map snd pairs)) c \<le> 1" using mset_subset_eq_count[OF sub, of c] by simp
  assume "length channels \<le> length lights"
  then have "size (mset (map snd pairs)) = size (mset (map fst channels))" using len by simp
  then have "mset (map snd pairs) = mset (map fst channels)" using sub by (metis mset_subset_size order_less_irrefl subset_mset.le_imp_less_or_eq)
  then show "count (mset (map snd pairs)) c = 1" using one by simp
qed

lemma assign_rounds_balanced:
  assumes "distinct (map fst channels)" "c \<in> set (map fst channels)"
  shows "length lights div length channels \<le> count (mset (map snd (assign_rounds channels lights))) c
    \<and> count (mset (map snd (assign_rounds channels lights))) c \<le> (length lights + length channels - 1) div length channels
    \<and> mset (map fst (assign_rounds channels lights)) = mset lights"
  using assms
proof (induction channels lights rule: assign_rounds.induct)
  case (1 channels lights)
  have ne: "channels \<noteq> []" using 1(3) by auto
  show ?case
  proof (cases "lights = []")
    case True
    then show ?thesis using ne by (simp add: assign_rounds.simps)
  next
    case False
    obtain pairs rest where r: "assign_round channels lights = (pairs, rest)" by fastforce
    have e: "assign_rounds channels lights = pairs @ assign_rounds channels rest"
      using ne False r by (subst assign_rounds.simps) simp
    note spec = assign_round_spec[OF r] and count = count_round[OF r 1(2,3)]
    have pairs_len: "length pairs = min (length channels) (length lights)" using spec by blast
    have len: "length lights = length pairs + length rest" using spec by (metis length_map mset_append size_mset length_append)
    have IH: "length rest div length channels \<le> count (mset (map snd (assign_rounds channels rest))) c
        \<and> count (mset (map snd (assign_rounds channels rest))) c \<le> (length rest + length channels - 1) div length channels
        \<and> mset (map fst (assign_rounds channels rest)) = mset rest"
      using 1(1)[of "(pairs, rest)" pairs rest] ne False r 1(2,3) by simp
    have c: "0 < length channels" "0 < length lights" using ne False by simp_all
    have fsts: "mset (map fst (assign_rounds channels lights)) = mset lights" using e IH spec by simp
    show ?thesis
    proof (cases "length channels \<le> length lights")
      case True
      let ?k = "length channels"
      have n: "length lights = length rest + ?k" using pairs_len True len by (simp only: min.absorb1 add.commute)
      then have "length lights + ?k - 1 = (length rest + ?k - 1) + ?k" using c by linarith
      then have "length lights div ?k = length rest div ?k + 1" "(length lights + ?k - 1) div ?k = (length rest + ?k - 1) div ?k + 1"
        using n ne by (simp_all only: div_add_self2 length_0_conv not_False_eq_True)
      then show ?thesis using count(2)[OF True] e IH fsts by simp
    next
      case False
      then have "length pairs = length lights" using pairs_len by (simp add: min.absorb2)
      then have "length rest = 0" using len by linarith
      then have "count (mset (map snd (assign_rounds channels rest))) c = 0" using IH c by simp
      moreover have "length channels \<le> length lights + length channels - 1" using c by linarith
      then have "1 \<le> (length lights + length channels - 1) div length channels" using c by (simp add: div_greater_zero_iff Suc_le_eq)
      ultimately show ?thesis using count(1) e False fsts by simp
    qed
  qed
qed

lemma map_of_pairs:
  assumes "distinct (map (l_id \<circ> fst) pairs)"
  shows "length (filter (\<lambda>l. map_of (map (\<lambda>(light, c). (l_id light, c)) pairs) (l_id l) = Some c) (map fst pairs))
    = count (mset (map snd pairs)) c"
proof -
  let ?m = "map_of (map (\<lambda>(light, c). (l_id light, c)) pairs)"
  have "distinct (map fst (map (\<lambda>(light, c). (l_id light, c)) pairs))" using assms by (simp add: comp_def case_prod_unfold)
  then have "?m (l_id l) = Some c'" if "(l, c') \<in> set pairs" for l c' using that by (force intro!: map_of_is_SomeI)
  then have "filter (\<lambda>p. ?m (l_id (fst p)) = Some c) pairs = filter (\<lambda>p. snd p = c) pairs" by (intro filter_cong) auto
  moreover have "length (filter (\<lambda>p. snd p = c) pairs) = count (mset (map snd pairs)) c"
    by (induction pairs) auto
  ultimately show ?thesis by (simp add: filter_map comp_def)
qed

text \<open>
  C40 (bounds). Every light of a group gets a channel, no other id is in the map, and the lights are
  spread evenly: of \<open>n\<close> lights each of \<open>k\<close> channels has \<open>n / k\<close>, rounded down or up.
\<close>

theorem channels_balanced:
  assumes "channels \<noteq> []" "distinct (map l_id lights)" "c < length channels"
  shows "dom (AssignLightsToChannels channels lights) = l_id ` set lights
    \<and> length (filter (\<lambda>l. AssignLightsToChannels channels lights (l_id l) = Some c) lights)
      \<in> {length lights div length channels .. (length lights + length channels - 1) div length channels}"
proof -
  let ?pairs = "assign_rounds (enumerate 0 channels) lights"
  have "distinct (map fst (enumerate 0 channels))" "c \<in> set (map fst (enumerate 0 channels))" using assms(3) by simp_all
  note bal = assign_rounds_balanced[OF this, of lights]
  have fsts: "mset (map fst ?pairs) = mset lights" using bal by blast
  then have ids: "mset (map (l_id \<circ> fst) ?pairs) = mset (map l_id lights)"
    by (metis list.map_comp mset_map)
  then have "distinct (map (l_id \<circ> fst) ?pairs)" using assms(2) by (metis mset_eq_imp_distinct_iff)
  note pairs = map_of_pairs[OF this, of c]
  have "dom (AssignLightsToChannels channels lights) = set (map (l_id \<circ> fst) ?pairs)"
    by (force simp: AssignLightsToChannels_def dom_map_of_conv_image_fst)
  also have "\<dots> = l_id ` set lights" using arg_cong[OF ids, of set_mset] by simp
  finally have dom: "dom (AssignLightsToChannels channels lights) = l_id ` set lights" .
  have "length (filter P lights) = length (filter P (map fst ?pairs))" for P
    using fsts by (metis mset_filter size_mset)
  then show ?thesis using bal pairs dom by (simp add: AssignLightsToChannels_def)
qed

definition lamp :: "string \<Rightarrow> real \<Rightarrow> Light" where
  "lamp i x = Light_new i \<lparr>loc_x = x, loc_y = 0, loc_z = 0\<rparr> [] [] [] True True"

theorem channels_balanced_witness:
  "length (filter (\<lambda>l. AssignLightsToChannels [l_position (lamp [] (-1)), l_position (lamp [] 1)]
     [lamp ''a'' 1, lamp ''b'' 0, lamp ''c'' (-1)] (l_id l) = Some 0) [lamp ''a'' 1, lamp ''b'' 0, lamp ''c'' (-1)]) \<in> {1, 2}"
proof -
  have "distinct (map l_id [lamp ''a'' 1, lamp ''b'' 0, lamp ''c'' (-1)])" by (simp add: lamp_def Light_new_def)
  from channels_balanced[OF _ this, of "[l_position (lamp [] (-1)), l_position (lamp [] 1)]" 0]
  moreover have "Suc (Suc (Suc 0)) div Suc (Suc 0) = 1" "Suc (Suc (Suc (Suc 0))) div Suc (Suc 0) = 2"
    by (simp_all add: div_nat_eqI)
  ultimately show ?thesis by (auto simp: numeral_eq_Suc simp del: filter.simps)
qed

text \<open>A round starts with a pair that is closest of all, as long as all distances are below \<open>INF\<close>.\<close>

lemma closest_loop_min:
  "(\<forall>x\<in>set ds. d \<le> x) \<and> closest_loop ds i best d = best
   \<or> (\<exists>k<length ds. closest_loop ds i best d = i + k \<and> ds ! k < d \<and> (\<forall>y\<in>set ds. ds ! k \<le> y))"
proof (induction ds arbitrary: i best d)
  case (Cons a ds)
  show ?case
  proof (cases "a < d")
    case True
    from Cons.IH[of a "i + 1" i] show ?thesis
    proof (elim disjE exE conjE)
      assume "\<forall>x\<in>set ds. a \<le> x" "closest_loop ds (i + 1) i a = i"
      then show ?thesis using True by (intro disjI2 exI[of _ 0]) auto
    next
      fix k assume "k < length ds" "closest_loop ds (i + 1) i a = i + 1 + k" "ds ! k < a" "\<forall>y\<in>set ds. ds ! k \<le> y"
      then show ?thesis using True by (intro disjI2 exI[of _ "Suc k"]) auto
    qed
  next
    case False
    from Cons.IH[of d "i + 1" best] show ?thesis
    proof (elim disjE exE conjE)
      fix k assume "k < length ds" "closest_loop ds (i + 1) best d = i + 1 + k" "ds ! k < d" "\<forall>y\<in>set ds. ds ! k \<le> y"
      then show ?thesis using False by (intro disjI2 exI[of _ "Suc k"]) auto
    qed (use False in auto)
  qed
qed simp

lemma closest_light:
  assumes "l \<in> set lights" "Vector_GetLength (Vector_between p (l_position l)) < DBL_INF"
  shows "Vector_GetLength (Vector_between p (l_position (lights ! FindClosestLight lights p)))
    \<le> Vector_GetLength (Vector_between p (l_position l))"
  using closest_loop_min[of "map (\<lambda>light. Vector_GetLength (Vector_between p (l_position light))) lights" DBL_INF 0 0] assms
  by (fastforce simp: FindClosestLight_def)

lemma closest_channel:
  assumes "(c, p) \<in> set channels" "l \<in> set lights" "Vector_GetLength (Vector_between p (l_position l)) < DBL_INF"
    and "channels ! FindChannelWithClosestLight channels lights = (c', p')"
  shows "Vector_GetLength (Vector_between p' (l_position (lights ! FindClosestLight lights p')))
    \<le> Vector_GetLength (Vector_between p (l_position l))"
proof -
  let ?d = "\<lambda>p. Vector_GetLength (Vector_between p (l_position (lights ! FindClosestLight lights p)))"
  have near: "?d p \<le> Vector_GetLength (Vector_between p (l_position l))" by (rule closest_light[OF assms(2,3)])
  then have "\<exists>k<length channels. FindChannelWithClosestLight channels lights = k \<and> (\<forall>y\<in>set channels. ?d (snd (channels ! k)) \<le> ?d (snd y))"
    using closest_loop_min[of "map (\<lambda>(c, p). ?d p) channels" DBL_INF 0 0] assms(1,3)
    by (fastforce simp: FindChannelWithClosestLight_def case_prod_unfold)
  then show ?thesis using assms(1,4) near by fastforce
qed

end
