(* ===== verification/Iteration.thy ===== *)
theory Iteration imports Animations Channels begin

text \<open>
  How \<open>huestream/effect/effects/LightIteratorEffect\<close> lets an animation wander over the lights of a
  group: it orders the lights and gives each its own copy of the colour animations, between pauses
  that are the longer the later the light has its turn. The pauses of the four channels of a light
  are one object in the source and equal objects here.
\<close>

section \<open>The order of the lights\<close>

datatype IterationOrder = IterationOrderLeftRight | IterationOrderFrontBack | IterationOrderTopBottom
  | IterationOrderClockwise | IterationOrderInOut | IterationOrderRandom | IterationOrderGroup

datatype IterationMode = IterationModeSingle | IterationModeCycle | IterationModeBounce

definition atan2 :: "real \<Rightarrow> real \<Rightarrow> real" where
  "atan2 y x = (if x > 0 then arctan (y / x)
     else if x < 0 then (if y \<ge> 0 then arctan (y / x) + pi else arctan (y / x) - pi)
     else if y > 0 then pi / 2 else if y < 0 then - pi / 2 else 0)"

definition Vector_GetAngle :: "Location \<Rightarrow> real" where
  "Vector_GetAngle v =
     (let angle = atan2 (loc_y v) (loc_x v) * 180 / (314159265 / 100000000)
      in if angle < 0 then angle + 360 else angle)"

definition plane :: "Location \<Rightarrow> Location" where
  "plane v = v\<lparr>loc_z := 0\<rparr>"

text \<open>\<open>drawn\<close> is the number that \<open>Rand\<close> gives this comparison, if it asks for one.\<close>

definition CompareLights :: "IterationOrder \<Rightarrow> bool \<Rightarrow> real \<Rightarrow> Light \<Rightarrow> Light \<Rightarrow> bool" where
  "CompareLights order invertOrder drawn i j =
     (let result = (case order of
          IterationOrderLeftRight \<Rightarrow> loc_x (l_position i) < loc_x (l_position j)
        | IterationOrderFrontBack \<Rightarrow> loc_y (l_position j) < loc_y (l_position i)
        | IterationOrderTopBottom \<Rightarrow> loc_z (l_position j) < loc_z (l_position i)
        | IterationOrderClockwise \<Rightarrow> Vector_GetAngle (l_position j) < Vector_GetAngle (l_position i)
        | IterationOrderInOut \<Rightarrow> Vector_GetLength (plane (l_position i)) < Vector_GetLength (plane (l_position j))
        | IterationOrderRandom \<Rightarrow> drawn > 1 / 2
        | IterationOrderGroup \<Rightarrow> False)
      in if invertOrder then \<not> result else result)"

section \<open>The animations of a light\<close>

definition pause :: "nat \<Rightarrow> real \<Rightarrow> animation" where
  "pause k offset = TweenAnimation_new 0 0 (real k * offset) Linear"

definition iterated :: "IterationMode \<Rightarrow> real \<Rightarrow> nat \<Rightarrow> nat \<Rightarrow> animation \<Rightarrow> animation" where
  "iterated mode offset n i animation =
     (let before = (if i \<noteq> 0 then [pause i offset] else []);
          after = (if i \<noteq> n - 1 then [pause (n - 1 - i) offset] else []);
          bounce = (if mode = IterationModeBounce then after @ [animation] @ before else [])
      in Animation 0 0 (SequenceAnimation (if mode = IterationModeSingle then 0 else DBL_INF)
           (before @ [animation] @ after @ bounce) [] 0 (-1) 0))"

text \<open>The map from the ids of the ordered lights to their animations; the first entry of an id counts.\<close>

definition CreateAnimations ::
  "IterationMode \<Rightarrow> real \<Rightarrow> animation list \<Rightarrow> Light list \<Rightarrow> (string \<times> animation list) list" where
  "CreateAnimations mode offset rgba lights =
     map (\<lambda>i. (l_id (lights ! i), map (iterated mode offset (length lights) i) rgba)) [0..<length lights]"

section \<open>The animation wanders\<close>

text \<open>What light \<open>i\<close> shows at a position of one pass.\<close>

definition in_turn :: "animation \<Rightarrow> real \<Rightarrow> nat \<Rightarrow> real \<Rightarrow> real" where
  "in_turn a offset i x =
     (let start = real i * offset in if start \<le> x \<and> x < start + GetTotalLength a then value_at a (x - start) else 0)"

definition pass_length :: "animation \<Rightarrow> real \<Rightarrow> nat \<Rightarrow> real" where
  "pass_length a offset n = real (n - 1) * offset + GetTotalLength a"

definition wandering :: "IterationMode \<Rightarrow> animation \<Rightarrow> real \<Rightarrow> nat \<Rightarrow> nat \<Rightarrow> real \<Rightarrow> real" where
  "wandering mode a offset n i x = (let l = pass_length a offset n in case mode of
      IterationModeSingle \<Rightarrow> in_turn a offset i x
    | IterationModeCycle \<Rightarrow> in_turn a offset i (fmod x l)
    | IterationModeBounce \<Rightarrow> (let y = fmod x (2 * l) in if y < l then in_turn a offset i y else in_turn a offset (n - 1 - i) (y - l)))"

lemma pause_simps [simp]:
  "GetTotalLength (pause k offset) = real k * offset" "value_at (pause k offset) = (\<lambda>x. 0)"
  "plain (pause k offset) \<longleftrightarrow> 0 < real k * offset"
  by (simp_all add: pause_def TweenAnimation_new_def fun_eq_iff tween_value_def linearTween_def)

definition iterable :: "animation \<Rightarrow> real \<Rightarrow> nat \<Rightarrow> bool" where
  "iterable a offset n \<longleftrightarrow> plain a \<and> 0 < offset \<and> 1 \<le> GetTotalLength a \<and> 2 * pass_length a offset n < DBL_INF"

lemma three_parts:
  fixes b c t d :: real
  shows "0 \<le> b \<Longrightarrow> 0 \<le> c \<Longrightarrow> 1 \<le> t \<Longrightarrow> 2 * (b + c + t) < d \<Longrightarrow> d \<noteq> b \<and> d \<noteq> c \<and> d \<noteq> t"
  by auto

lemma pass_length_split: "i < n \<Longrightarrow> pass_length a offset n = real i * offset + real (n - 1 - i) * offset + GetTotalLength a"
  by (simp add: pass_length_def algebra_simps of_nat_diff)

lemma iterated_lengths:
  assumes "iterable a offset n" "i < n"
  shows "sequence_length (map GetTotalLength (sq_sequences (an_kind (iterated mode offset n i a))))
    = (if mode = IterationModeBounce then 2 * pass_length a offset n else pass_length a offset n)"
proof -
  let ?b = "real i * offset" and ?c = "real (n - 1 - i) * offset" and ?t = "GetTotalLength a"
  have "0 \<le> ?b" "0 \<le> ?c" "1 \<le> ?t" "2 * (?b + ?c + ?t) < DBL_INF"
    using assms by (simp_all add: iterable_def pass_length_split)
  note ne = three_parts[OF this]
  have last: "i = n - 1 \<Longrightarrow> ?c = 0" by simp
  show ?thesis
    using ne last unfolding pass_length_split[OF assms(2)]
    by (auto simp: iterated_def sequence_length_def Let_def simp del: of_nat_diff)
qed

lemma pass_length_ge: "iterable a offset n \<Longrightarrow> 1 \<le> pass_length a offset n"
proof -
  assume i: "iterable a offset n"
  then have "0 \<le> real (n - 1) * offset" unfolding iterable_def by (intro mult_nonneg_nonneg) simp_all
  then show "1 \<le> pass_length a offset n" using i unfolding iterable_def pass_length_def by linarith
qed

lemma iterated_plain:
  assumes "iterable a offset n" "i < n"
  shows "plain (iterated mode offset n i a)"
proof -
  have rep: "repeats_ok (if mode = IterationModeSingle then 0 else DBL_INF)
      (if mode = IterationModeBounce then 2 * pass_length a offset n else pass_length a offset n)"
    using pass_length_ge[OF assms(1)] DBL_INF_Nats DBL_INF_pos by (auto simp: repeats_ok_def)
  have parts: "\<forall>p\<in>set (sq_sequences (an_kind (iterated mode offset n i a))). plain p"
    using assms by (auto simp: iterated_def iterable_def Let_def)
  show ?thesis
    using parts rep unfolding iterated_lengths[OF assms, of mode, symmetric] by (simp add: iterated_def Let_def)
qed

text \<open>The parts of a sequence one after the other.\<close>

fun parts_value :: "animation list \<Rightarrow> real \<Rightarrow> real" where
  "parts_value [] y = 0"
| "parts_value (p # ps) y = (if y < GetTotalLength p then value_at p y else parts_value ps (y - GetTotalLength p))"

lemma playing_part_shift:
  "playing_part (Suc k) ls y = map_option (\<lambda>(i, x). (Suc i, x)) (playing_part k ls y)"
  by (induction ls arbitrary: k y) auto

lemma parts_value_playing:
  "(case playing_part 0 (map GetTotalLength ps) y of Some (i, x) \<Rightarrow> (map value_at ps ! i) x | None \<Rightarrow> 0) = parts_value ps y"
proof (induction ps arbitrary: y)
  case (Cons p ps)
  show ?case
    using Cons.IH[of "y - GetTotalLength p"]
    by (cases "playing_part 0 (map GetTotalLength ps) (y - GetTotalLength p)") (auto simp: playing_part_shift)
qed simp

lemma value_of_parts:
  "value_at (Animation m v (SequenceAnimation rt as bm si ci offset)) x
    = parts_value as (repeat_marker rt (sequence_length (map GetTotalLength as)) x)"
  by (simp add: parts_value_playing)

lemma pause_first:
  "0 \<le> y \<Longrightarrow> parts_value ((if k \<noteq> 0 then [pause k offset] else []) @ ps) y
    = (if y < real k * offset then 0 else parts_value ps (y - real k * offset))"
  by simp

lemma one_pass:
  assumes "0 \<le> y" "0 < offset" "0 \<le> GetTotalLength a"
  shows "parts_value ((if i \<noteq> 0 then [pause i offset] else []) @ [a] @ (if j \<noteq> 0 then [pause j offset] else []) @ ps) y
    = (if y < real i * offset + GetTotalLength a + real j * offset then in_turn a offset i y
       else parts_value ps (y - (real i * offset + GetTotalLength a + real j * offset)))"
proof -
  have "0 \<le> real i * offset" "0 \<le> real j * offset" using assms(2) by simp_all
  then show ?thesis
    using assms(1,3) pause_first[of y i offset] pause_first[of "y - real i * offset - GetTotalLength a" j offset ps]
    by (auto simp: in_turn_def Let_def algebra_simps)
qed

text \<open>The length of the passes forth and back, and the place in them at a time.\<close>

definition passes_length :: "IterationMode \<Rightarrow> animation \<Rightarrow> real \<Rightarrow> nat \<Rightarrow> real" where
  "passes_length mode a offset n = (if mode = IterationModeBounce then 2 * pass_length a offset n else pass_length a offset n)"

lemma iterated_marker:
  assumes "iterable a offset n" "i < n" "0 \<le> x" "x < GetTotalLength (iterated mode offset n i a)"
  shows "value_at (iterated mode offset n i a) x
      = parts_value (sq_sequences (an_kind (iterated mode offset n i a))) (fmod x (passes_length mode a offset n))"
    and "0 \<le> fmod x (passes_length mode a offset n)" "fmod x (passes_length mode a offset n) < passes_length mode a offset n"
    and "mode = IterationModeSingle \<Longrightarrow> fmod x (passes_length mode a offset n) = x"
proof -
  let ?rt = "if mode = IterationModeSingle then 0 else DBL_INF" and ?total = "passes_length mode a offset n"
  have rep: "repeats_ok ?rt ?total"
    using pass_length_ge[OF assms(1)] DBL_INF_Nats DBL_INF_pos by (auto simp: repeats_ok_def passes_length_def)
  note sum = iterated_lengths[OF assms(1,2), of mode, folded passes_length_def]
  have x: "x < total_of ?rt ?total" using assms(4) sum by (simp add: iterated_def Let_def)
  have total: "0 < ?total" using pass_length_ge[OF assms(1)] by (simp add: passes_length_def)
  have marker: "repeat_marker ?rt ?total x = fmod x ?total"
    using repeats_over[OF rep assms(3) x] by (simp add: repeat_marker_def fmod_def Let_def)
  show "value_at (iterated mode offset n i a) x = parts_value (sq_sequences (an_kind (iterated mode offset n i a))) (fmod x ?total)"
    using sum unfolding marker[symmetric] iterated_def Let_def value_of_parts by simp
  show "0 \<le> fmod x ?total" "fmod x ?total < ?total"
    using repeat_marker_nonneg[OF total assms(3), of ?rt] repeat_marker_range[OF rep assms(3) x] marker by simp_all
  show "fmod x ?total = x" if "mode = IterationModeSingle"
    using that x assms(3) total by (simp add: total_of_def trunc_nonneg fmod_def floor_eq_iff split: if_splits)
qed

text \<open>
  The animation wanders over the lights: light \<open>i\<close> shows it from \<open>i * offset\<close> on and
  is dark before and after, once, in endless passes, or in passes forth and back.
\<close>

theorem light_iterator_wanders:
  assumes "iterable a offset n" "i < n" "0 \<le> x" "x < GetTotalLength (iterated mode offset n i a)"
  shows "value_at (iterated mode offset n i a) x = wandering mode a offset n i x"
proof -
  let ?l = "pass_length a offset n" and ?j = "n - 1 - i" and ?y = "fmod x (passes_length mode a offset n)"
  have l: "?l = real i * offset + GetTotalLength a + real ?j * offset" using pass_length_split[OF assms(2)] by simp
  have o: "0 < offset" "0 \<le> GetTotalLength a" using assms(1) by (simp_all add: iterable_def)
  define rest where "rest = (if mode = IterationModeBounce then (if ?j \<noteq> 0 then [pause ?j offset] else []) @ [a]
           @ (if i \<noteq> 0 then [pause i offset] else []) @ [] else [])"
  have parts: "sq_sequences (an_kind (iterated mode offset n i a))
      = (if i \<noteq> 0 then [pause i offset] else []) @ [a] @ (if ?j \<noteq> 0 then [pause ?j offset] else []) @ rest"
    using assms(2) by (auto simp: iterated_def rest_def Let_def)
  note marker = iterated_marker[OF assms]
  have pass: "value_at (iterated mode offset n i a) x = (if ?y < ?l then in_turn a offset i ?y else parts_value rest (?y - ?l))"
    using one_pass[OF marker(2) o, of i "?j" rest] unfolding marker(1) parts l[symmetric] by assumption
  show ?thesis
  proof (cases mode)
    case IterationModeBounce
    have mirrored: "?l = real ?j * offset + GetTotalLength a + real i * offset" using l by simp
    have "parts_value rest (?y - ?l) = in_turn a offset ?j (?y - ?l)" if "\<not> ?y < ?l"
      using one_pass[of "?y - ?l" offset a "?j" i "[]"] o that marker(3) IterationModeBounce mirrored[symmetric]
      by (simp add: rest_def passes_length_def)
    then show ?thesis using IterationModeBounce pass by (simp add: wandering_def passes_length_def Let_def cong: if_cong)
  next
    case IterationModeSingle
    then show ?thesis using pass marker(3,4) by (simp add: wandering_def passes_length_def cong: if_cong)
  next
    case IterationModeCycle
    then show ?thesis using pass marker(3) by (simp add: wandering_def passes_length_def Let_def cong: if_cong)
  qed
qed

text \<open>Three lights, half a second apart, to the right and back: the second one in the second pass.\<close>

theorem light_iterator_wanders_witness:
  "value_at (iterated IterationModeBounce 500 3 1 (TweenAnimation_new 0 1 1000 Linear)) 2750 = 1 / 4
   \<and> value_at (iterated IterationModeBounce 500 3 0 (TweenAnimation_new 0 1 1000 Linear)) 2750 = 0"
proof -
  let ?a = "TweenAnimation_new 0 1 1000 Linear"
  have a: "iterable ?a 500 3" using less_DBL_INF[of 4000] by (simp add: iterable_def pass_length_def TweenAnimation_new_def)
  have t: "GetTotalLength (iterated IterationModeBounce 500 3 i ?a) = DBL_INF" for i
    by (simp add: iterated_def total_of_def Let_def)
  have w: "wandering IterationModeBounce ?a 500 3 1 2750 = 1 / 4" "wandering IterationModeBounce ?a 500 3 0 2750 = 0"
    by (simp_all add: wandering_def pass_length_def in_turn_def fmod_def trunc_def TweenAnimation_new_def tween_value_def
        linearTween_def Let_def)
  show ?thesis
    using light_iterator_wanders[OF a, of 1 2750 IterationModeBounce] light_iterator_wanders[OF a, of 0 2750 IterationModeBounce]
      w t less_DBL_INF[of 2750] by simp
qed

text \<open>
  What \<open>std::sort\<close> asks of a comparison: nothing comes before itself, and \<open>before\<close> as well as
  \<open>neither before nor after\<close> are transitive. The orders satisfy it, but for a random one; inverted
  they do not, as a light then comes before itself.
\<close>

definition strict_weak_order :: "('a \<Rightarrow> 'a \<Rightarrow> bool) \<Rightarrow> bool" where
  "strict_weak_order comes_before \<longleftrightarrow> (\<forall>x. \<not> comes_before x x) \<and> (\<forall>x y z. comes_before x y \<and> comes_before y z \<longrightarrow> comes_before x z)
     \<and> (\<forall>x y z. \<not> comes_before x y \<and> \<not> comes_before y x \<and> \<not> comes_before y z \<and> \<not> comes_before z y \<longrightarrow> \<not> comes_before x z \<and> \<not> comes_before z x)"

lemma light_orders_sortable:
  "order \<noteq> IterationOrderRandom \<Longrightarrow> strict_weak_order (CompareLights order False drawn)"
  by (cases order) (auto simp: strict_weak_order_def CompareLights_def)

lemma inverted_order_not_sortable:
  "order \<noteq> IterationOrderRandom \<Longrightarrow> CompareLights order True drawn l l \<and> \<not> strict_weak_order (CompareLights order True drawn)"
  by (cases order) (auto simp: strict_weak_order_def CompareLights_def)

end
