(* ===== verification/Mixer.thy ===== *)
theory Mixer imports DataModel begin

text \<open>
  \<open>huestream/effect/Mixer\<close>: the effects in the order of their layers, and the colour they give
  each light of the group. The virtual methods of \<open>Effect\<close> are a record of functions; the base
  class and \<open>ManualEffect\<close> are the model's own implementation of it. An effect belongs to one
  mixer, so that its state is a value in the mixer's list.
\<close>

section \<open>Effects\<close>

datatype EffectState = FinishedState | EnabledState | DisabledState

record effect_base =
  eb_name :: string
  eb_layer :: nat
  eb_state :: EffectState

definition Effect_new :: "string \<Rightarrow> nat \<Rightarrow> effect_base" where
  "Effect_new name layer = \<lparr>eb_name = name, eb_layer = layer, eb_state = DisabledState\<rparr>"

definition Effect_Enable :: "effect_base \<Rightarrow> effect_base" where
  "Effect_Enable e = e\<lparr>eb_state := EnabledState\<rparr>"

definition Effect_Disable :: "effect_base \<Rightarrow> effect_base" where
  "Effect_Disable e = e\<lparr>eb_state := DisabledState\<rparr>"

definition Effect_Finish :: "effect_base \<Rightarrow> effect_base" where
  "Effect_Finish e = e\<lparr>eb_state := FinishedState\<rparr>"

definition Effect_IsFinished :: "effect_base \<Rightarrow> bool" where
  "Effect_IsFinished e \<longleftrightarrow> eb_state e = FinishedState"

definition Effect_IsEnabled :: "effect_base \<Rightarrow> bool" where
  "Effect_IsEnabled e \<longleftrightarrow> eb_state e = EnabledState"

definition Effect_IsDisabled :: "effect_base \<Rightarrow> bool" where
  "Effect_IsDisabled e \<longleftrightarrow> eb_state e = DisabledState"

record 'e effect_class =
  ec_name :: "'e \<Rightarrow> string"
  ec_layer :: "'e \<Rightarrow> nat"
  ec_isEnabled :: "'e \<Rightarrow> bool"
  ec_isFinished :: "'e \<Rightarrow> bool"
  ec_updateGroup :: "Group \<Rightarrow> 'e \<Rightarrow> 'e"
  ec_render :: "'e \<Rightarrow> 'e"
  ec_getColor :: "'e \<Rightarrow> Light \<Rightarrow> Color"

record manual_effect =
  me_base :: effect_base
  me_idColorMap :: "string \<rightharpoonup> Color"

definition SetIdToColor :: "string \<Rightarrow> Color \<Rightarrow> manual_effect \<Rightarrow> manual_effect" where
  "SetIdToColor i color e = e\<lparr>me_idColorMap := (me_idColorMap e)(i \<mapsto> color)\<rparr>"

definition Manual_GetColor :: "manual_effect \<Rightarrow> Light \<Rightarrow> Color" where
  "Manual_GetColor e light = (case me_idColorMap e (l_id light) of Some color \<Rightarrow> color | None \<Rightarrow> Color_default)"

definition ManualEffect :: "manual_effect effect_class" where
  "ManualEffect = \<lparr>ec_name = (\<lambda>e. eb_name (me_base e)), ec_layer = (\<lambda>e. eb_layer (me_base e)),
     ec_isEnabled = (\<lambda>e. Effect_IsEnabled (me_base e)), ec_isFinished = (\<lambda>e. Effect_IsFinished (me_base e)),
     ec_updateGroup = (\<lambda>_ e. e), ec_render = (\<lambda>e. e), ec_getColor = Manual_GetColor\<rparr>"

section \<open>The mixer\<close>

record 'e mixer =
  mx_effects :: "'e list"
  mx_group :: Group
  mx_retain_color :: bool

definition Mixer_new :: "bool \<Rightarrow> 'e mixer" where
  "Mixer_new retain = \<lparr>mx_effects = [], mx_group = Group_new, mx_retain_color = retain\<rparr>"

definition GetEffectByName :: "'e effect_class \<Rightarrow> string \<Rightarrow> 'e mixer \<Rightarrow> 'e option" where
  "GetEffectByName C name m = List.find (\<lambda>effect. ec_name C effect = name) (mx_effects m)"

fun effect_index :: "'e effect_class \<Rightarrow> 'e \<Rightarrow> 'e list \<Rightarrow> nat \<Rightarrow> nat" where
  "effect_index C newEffect [] i = i"
| "effect_index C newEffect (effect # es) i =
     (if ec_layer C newEffect < ec_layer C effect then i else effect_index C newEffect es (i + 1))"

definition FindEffectIndex :: "'e effect_class \<Rightarrow> 'e \<Rightarrow> 'e list \<Rightarrow> nat" where
  "FindEffectIndex C newEffect effects = effect_index C newEffect effects 0"

definition insert_effect :: "'e effect_class \<Rightarrow> 'e \<Rightarrow> 'e list \<Rightarrow> 'e list" where
  "insert_effect C newEffect effects =
     (let i = FindEffectIndex C newEffect effects in take i effects @ newEffect # drop i effects)"

definition AddEffect :: "'e effect_class \<Rightarrow> 'e option \<Rightarrow> 'e mixer \<Rightarrow> 'e mixer" where
  "AddEffect C newEffect m = (case newEffect of
      None \<Rightarrow> m
    | Some e \<Rightarrow> m\<lparr>mx_effects := insert_effect C (ec_updateGroup C (mx_group m) e) (mx_effects m)\<rparr>)"

definition AddEffectList :: "'e effect_class \<Rightarrow> 'e option list \<Rightarrow> 'e mixer \<Rightarrow> 'e mixer" where
  "AddEffectList C effects m = fold (AddEffect C) effects m"

definition SetGroup :: "'e effect_class \<Rightarrow> Group option \<Rightarrow> 'e mixer \<Rightarrow> 'e mixer" where
  "SetGroup C newGroup m = (case newGroup of
      None \<Rightarrow> m
    | Some g \<Rightarrow> m\<lparr>mx_group := g, mx_effects := map (ec_updateGroup C g) (mx_effects m)\<rparr>)"

definition RenderEffects :: "'e effect_class \<Rightarrow> 'e mixer \<Rightarrow> 'e mixer" where
  "RenderEffects C m =
     m\<lparr>mx_effects := map (\<lambda>effect. if ec_isEnabled C effect then ec_render C effect else effect) (mx_effects m)\<rparr>"

definition mix_layer :: "'e effect_class \<Rightarrow> Light \<Rightarrow> 'e \<Rightarrow> real \<times> real \<times> real \<Rightarrow> real \<times> real \<times> real" where
  "mix_layer C light effect = (\<lambda>(r, g, b).
     if ec_isEnabled C effect then
       (let layerColor = ec_getColor C effect light; a = alpha layerColor; prevLayersAlpha = 1 - a
        in (r * prevLayersAlpha + red layerColor * a, g * prevLayersAlpha + green layerColor * a,
            b * prevLayersAlpha + blue layerColor * a))
     else (r, g, b))"

definition ApplyEffectsOnLight :: "'e effect_class \<Rightarrow> 'e mixer \<Rightarrow> Light \<Rightarrow> Light" where
  "ApplyEffectsOnLight C m light =
     (let start = (if mx_retain_color m then (red (l_color light), green (l_color light), blue (l_color light))
                   else (0, 0, 0));
          (r, g, b) = fold (mix_layer C light) (mx_effects m) start
      in light\<lparr>l_color := Color_rgb r g b\<rparr>)"

definition ApplyEffectsOnLights :: "'e effect_class \<Rightarrow> 'e mixer \<Rightarrow> 'e mixer" where
  "ApplyEffectsOnLights C m =
     m\<lparr>mx_group := (mx_group m)\<lparr>g_lights := map (ApplyEffectsOnLight C m) (g_lights (mx_group m))\<rparr>\<rparr>"

definition RemoveFinishedEffects :: "'e effect_class \<Rightarrow> 'e mixer \<Rightarrow> 'e mixer" where
  "RemoveFinishedEffects C m = m\<lparr>mx_effects := filter (\<lambda>e. \<not> ec_isFinished C e) (mx_effects m)\<rparr>"

definition Mixer_Render :: "'e effect_class \<Rightarrow> 'e mixer \<Rightarrow> 'e mixer" where
  "Mixer_Render C m = ApplyEffectsOnLights C (RenderEffects C (RemoveFinishedEffects C m))"

section \<open>The order of the effects\<close>

lemma effect_index_eq: "effect_index C e xs i = i + length (takeWhile (\<lambda>y. \<not> ec_layer C e < ec_layer C y) xs)"
  by (induction xs arbitrary: i) auto

lemma insert_effect_split:
  "insert_effect C e xs = takeWhile (\<lambda>y. \<not> ec_layer C e < ec_layer C y) xs @ e
     # dropWhile (\<lambda>y. \<not> ec_layer C e < ec_layer C y) xs"
  by (simp add: insert_effect_def FindEffectIndex_def effect_index_eq takeWhile_eq_take[symmetric] dropWhile_eq_drop[symmetric] Let_def)


interpretation layers: ordered_insertion "ec_layer C" "insert_effect C" for C
  by unfold_locales (rule insert_effect_split)

text \<open>What the mixer relies on: an effect does not change its layer while it belongs to the mixer.\<close>

locale effect_interface =
  fixes C :: "'e effect_class"
  assumes layer_updateGroup: "ec_layer C (ec_updateGroup C g e) = ec_layer C e"
    and layer_render: "ec_layer C (ec_render C e) = ec_layer C e"
begin

lemma AddEffectList_effects:
  "mx_effects (AddEffectList C es m)
     = fold (insert_effect C) (map (ec_updateGroup C (mx_group m)) (List.map_filter id es)) (mx_effects m)
   \<and> mx_group (AddEffectList C es m) = mx_group m \<and> mx_retain_color (AddEffectList C es m) = mx_retain_color m"
  by (induction es arbitrary: m) (auto simp: AddEffectList_def AddEffect_def map_filter_simps split: option.splits)

lemma map_layers: "map (ec_layer C) (mx_effects (RenderEffects C m)) = map (ec_layer C) (mx_effects m)"
  "map (ec_layer C) (mx_effects (SetGroup C grp m)) = map (ec_layer C) (mx_effects m)"
  by (auto simp: RenderEffects_def SetGroup_def layer_render layer_updateGroup split: option.splits)

lemma Render_effects: "mx_effects (Mixer_Render C m)
    = map (\<lambda>e. if ec_isEnabled C e then ec_render C e else e) (filter (\<lambda>e. \<not> ec_isFinished C e) (mx_effects m))"
  by (simp add: Mixer_Render_def ApplyEffectsOnLights_def RenderEffects_def RemoveFinishedEffects_def)

lemma Render_sorted: "sorted (map (ec_layer C) (mx_effects m)) \<Longrightarrow> sorted (map (ec_layer C) (mx_effects (Mixer_Render C m)))"
  using sorted_filter[of "ec_layer C" "mx_effects m" "\<lambda>e. \<not> ec_isFinished C e"]
  by (simp add: Mixer_Render_def ApplyEffectsOnLights_def map_layers(1)) (simp add: RemoveFinishedEffects_def)

end

interpretation manual: effect_interface ManualEffect
  by unfold_locales (simp_all add: ManualEffect_def)

section \<open>Mixing is laying one layer over the other\<close>

text \<open>One channel of layers of given opacity and value, the uppermost first, over a ground.\<close>

fun over :: "(real \<times> real) list \<Rightarrow> real \<Rightarrow> real" where
  "over [] ground = ground"
| "over ((a, v) # below) ground = a * v + (1 - a) * over below ground"

definition enabled_layers :: "'e effect_class \<Rightarrow> (Color \<Rightarrow> real) \<Rightarrow> Light \<Rightarrow> 'e list \<Rightarrow> (real \<times> real) list" where
  "enabled_layers C channel light effects =
     map (\<lambda>e. (alpha (ec_getColor C e light), channel (ec_getColor C e light))) (filter (ec_isEnabled C) (rev effects))"

lemma over_append: "over (xs @ ys) ground = over xs (over ys ground)"
  by (induction xs ground rule: over.induct) simp_all

lemma mix_eq: "fold (mix_layer C light) es (r, g, b) =
   (over (enabled_layers C red light es) r, over (enabled_layers C green light es) g,
    over (enabled_layers C blue light es) b)"
  by (induction es arbitrary: r g b)
     (auto simp: mix_layer_def enabled_layers_def over_append Let_def algebra_simps)

lemma over_range:
  "\<forall>(a, v)\<in>set ls. 0 \<le> a \<and> a \<le> 1 \<and> 0 \<le> v \<and> v \<le> 1 \<Longrightarrow> 0 \<le> ground \<Longrightarrow> ground \<le> 1 \<Longrightarrow>
   0 \<le> over ls ground \<and> over ls ground \<le> 1"
proof (induction ls ground rule: over.induct)
  case (2 a v below ground)
  then have "0 \<le> a" "a \<le> 1" "0 \<le> v" "v \<le> 1" "0 \<le> over below ground" "over below ground \<le> 1" by auto
  then have "a * v \<le> a * 1" "(1 - a) * over below ground \<le> (1 - a) * 1" "0 \<le> a * v" "0 \<le> (1 - a) * over below ground"
    by (auto intro: mult_left_le)
  then show ?case by simp
qed simp

definition base_color :: "'e mixer \<Rightarrow> Light \<Rightarrow> (Color \<Rightarrow> real) \<Rightarrow> real" where
  "base_color m light channel = (if mx_retain_color m then channel (l_color light) else 0)"

lemma ApplyEffectsOnLight_eq:
  "ApplyEffectsOnLight C m light = light\<lparr>l_color := Color_rgb
     (over (enabled_layers C red light (mx_effects m)) (base_color m light red))
     (over (enabled_layers C green light (mx_effects m)) (base_color m light green))
     (over (enabled_layers C blue light (mx_effects m)) (base_color m light blue))\<rparr>"
  by (simp add: ApplyEffectsOnLight_def mix_eq base_color_def Let_def)

section \<open>Properties\<close>

text \<open>
  C32 (equivalence). A mixer to which effects were added holds them as a stable sort by layer
  orders them: on the same layer, the effect added later lies on top. Rendering removes the
  finished effects, lets the enabled ones render and keeps that order.
\<close>

theorem mixer_keeps_layers:
  assumes "effect_interface C"
  shows "mx_effects (AddEffectList C es (Mixer_new retain))
      = sort_key (ec_layer C) (map (ec_updateGroup C Group_new) (List.map_filter id es))
    \<and> (sorted (map (ec_layer C) (mx_effects m)) \<longrightarrow> sorted (map (ec_layer C) (mx_effects (Mixer_Render C m))))
    \<and> mx_effects (Mixer_Render C m) = map (\<lambda>e. if ec_isEnabled C e then ec_render C e else e)
          (filter (\<lambda>e. \<not> ec_isFinished C e) (mx_effects m))"
  using effect_interface.AddEffectList_effects[OF assms, of es "Mixer_new retain"]
    effect_interface.Render_sorted[OF assms, of m] effect_interface.Render_effects[OF assms, of m]
    layers.build_sort_key[of C]
  by (simp add: Mixer_new_def)

definition plain_effect :: "string \<Rightarrow> nat \<Rightarrow> Color \<Rightarrow> manual_effect" where
  "plain_effect name layer color = SetIdToColor ''1'' color
     \<lparr>me_base = Effect_Enable (Effect_new name layer), me_idColorMap = Map.empty\<rparr>"

theorem mixer_keeps_layers_witness:
  "mx_effects (AddEffectList ManualEffect [Some (plain_effect ''a'' 1 Color_default), None, Some (plain_effect ''b'' 0 Color_default),
     Some (plain_effect ''c'' 1 Color_default)] (Mixer_new False))
   = [plain_effect ''b'' 0 Color_default, plain_effect ''a'' 1 Color_default, plain_effect ''c'' 1 Color_default]"
  using mixer_keeps_layers[OF manual.effect_interface_axioms, of "[Some (plain_effect ''a'' 1 Color_default), None,
     Some (plain_effect ''b'' 0 Color_default), Some (plain_effect ''c'' 1 Color_default)]" False "Mixer_new False"]
  by (simp add: plain_effect_def SetIdToColor_def ManualEffect_def Effect_Enable_def Effect_new_def map_filter_simps)

text \<open>
  C31 (functional). The colour of a light is what an eye sees that looks down on the enabled
  layers: the uppermost weighted by its opacity, and through the rest of it the layers below,
  down to the light's own colour if it is retained and to black otherwise. What lies below an
  opaque layer does not matter, and colours and opacities between 0 and 1 give a colour between
  0 and 1.
\<close>

theorem mixer_lays_layers_over:
  assumes "channel \<in> {red, green, blue}"
  shows "channel (l_color (ApplyEffectsOnLight C m light))
      = over (enabled_layers C channel light (mx_effects m)) (base_color m light channel)
    \<and> (enabled_layers C channel light (mx_effects m) = upper @ (1, v) # lower \<longrightarrow>
         channel (l_color (ApplyEffectsOnLight C m light)) = over (upper @ [(1, v)]) 0)
    \<and> ((\<forall>(a, v)\<in>set (enabled_layers C channel light (mx_effects m)). 0 \<le> a \<and> a \<le> 1 \<and> 0 \<le> v \<and> v \<le> 1)
       \<and> 0 \<le> channel (l_color light) \<and> channel (l_color light) \<le> 1 \<longrightarrow>
         0 \<le> channel (l_color (ApplyEffectsOnLight C m light)) \<and> channel (l_color (ApplyEffectsOnLight C m light)) \<le> 1)"
proof -
  have eq: "channel (l_color (ApplyEffectsOnLight C m light))
      = over (enabled_layers C channel light (mx_effects m)) (base_color m light channel)"
    using assms by (auto simp: ApplyEffectsOnLight_eq Color_rgb_def Color_rgba_def)
  have "over (upper @ (1, v) # lower) g = over (upper @ [(1, v)]) 0" for g by (simp add: over_append)
  moreover have "0 \<le> base_color m light channel \<and> base_color m light channel \<le> 1"
    if "0 \<le> channel (l_color light)" "channel (l_color light) \<le> 1" using that by (simp add: base_color_def)
  ultimately show ?thesis unfolding eq using over_range by auto
qed

theorem mixer_lays_layers_over_witness:
  "red (l_color (ApplyEffectsOnLight ManualEffect ((Mixer_new False)\<lparr>mx_effects :=
      [plain_effect ''a'' 0 (Color_rgba 1 0 0 1), plain_effect ''b'' 1 (Color_rgba 0 1 0 (1 / 4))]\<rparr>)
      (Light_new ''1'' \<lparr>loc_x = 0, loc_y = 0, loc_z = 0\<rparr> [] [] [] True False))) = 3 / 4"
  by (subst mixer_lays_layers_over[THEN conjunct1])
     (simp_all add: enabled_layers_def ManualEffect_def plain_effect_def SetIdToColor_def Effect_Enable_def
       Effect_new_def Effect_IsEnabled_def Manual_GetColor_def Light_new_def Color_rgba_def)

end
