(* ===== verification/Effects.thy ===== *)
theory Effects imports Player AnimationJson Areas Iteration Mixer begin

text \<open>
  \<open>huestream/effect/effects\<close>: the effects whose colours are animations. The classes between
  \<open>Effect\<close> and the concrete ones (\<open>AnimationEffect\<close>, \<open>ColorAnimationEffect\<close>) are the fields that all
  have in common and a component of the constructors. An effect owns the animation objects it can
  reach; a pointer to one is its index in \<open>ef_objects\<close>, and is never null but for the intensity.
  The same parameters are also used with the animations or their values in place of the indices.

  Clones of random animations draw the same numbers as their original.

  \<open>None\<close> is an access outside a container in an animation. The clock, what \<open>std::sort\<close> makes of the
  lights and the numbers that \<open>Rand\<close> draws are the environment.
\<close>

section \<open>State\<close>

datatype 'a color_animations = ColorAnimations (col_r: 'a) (col_g: 'a) (col_b: 'a) (col_a: 'a)
  (col_i: "'a option") (opacityBoundToIntensity: bool)

datatype 'a channel = Channel (ch_position: Location) (ch_r: 'a) (ch_g: 'a) (ch_b: 'a) (ch_a: 'a)

datatype 'a effect_kind =
    AreaEffect "'a color_animations" "IArea list"
  | LightSourceEffect "'a color_animations" (fx_x: 'a) (fx_y: 'a) (fx_radius: 'a)
  | SphereLightSourceEffect "'a color_animations" (fx_x: 'a) (fx_y: 'a) (fx_z: 'a) (fx_radius: 'a)
  | RadialEffect "'a color_animations" real
  | LightIteratorEffect "'a color_animations" IterationOrder IterationMode real bool bool
  | MultiChannelEffect "'a channel list"

datatype effect_player = ClockPlayer player | PositionPlayer action_player

record light_effect =
  ef_base :: effect_base
  ef_objects :: "animation list"
  ef_speed :: nat
  ef_player :: effect_player
  ef_speedPlayer :: player
  ef_kind :: "nat effect_kind"
  ef_group :: "Group option"
  ef_effect_lights :: "Light list"
  ef_lightIdAnimationMap :: "(string \<times> nat list) list"
  ef_lightIdChannelMap :: "string \<rightharpoonup> nat"
  ef_failed :: bool

record effect_env =
  ev_now :: int
  ev_sort :: "(real \<Rightarrow> Light \<Rightarrow> Light \<Rightarrow> bool) \<Rightarrow> Light list \<Rightarrow> Light list"
  ev_draws :: "nat \<Rightarrow> nat \<Rightarrow> real"

definition steady :: "real \<Rightarrow> animation" where
  "steady v = ConstantAnimation_new v DBL_INF"

text \<open>The constructors. The speed and the components of the colour are 1; radial effects have no group.\<close>

definition AnimationEffect_new :: "string \<Rightarrow> nat \<Rightarrow> animation list \<Rightarrow> nat effect_kind \<Rightarrow> light_effect" where
  "AnimationEffect_new name layer objects kind =
     \<lparr>ef_base = Effect_new name layer, ef_objects = steady 1 # objects, ef_speed = 0,
      ef_player = ClockPlayer Player_new, ef_speedPlayer = Player_new, ef_kind = kind,
      ef_group = (case kind of RadialEffect c angle \<Rightarrow> None | _ \<Rightarrow> Some Group_new),
      ef_effect_lights = [], ef_lightIdAnimationMap = [], ef_lightIdChannelMap = Map.empty, ef_failed = False\<rparr>"

definition white :: "bool \<Rightarrow> nat color_animations" where
  "white bound = ColorAnimations 1 2 3 4 None bound"

definition AreaEffect_new :: "string \<Rightarrow> nat \<Rightarrow> bool \<Rightarrow> light_effect" where
  "AreaEffect_new name layer isAlphaBoundToBrightness =
     AnimationEffect_new name layer (replicate 4 (steady 1)) (AreaEffect (white isAlphaBoundToBrightness) [])"

definition LightSourceEffect_new :: "string \<Rightarrow> nat \<Rightarrow> light_effect" where
  "LightSourceEffect_new name layer =
     AnimationEffect_new name layer (replicate 4 (steady 1) @ [steady 0, steady 0, steady 1])
       (LightSourceEffect (white False) 5 6 7)"

definition SphereLightSourceEffect_new :: "string \<Rightarrow> nat \<Rightarrow> light_effect" where
  "SphereLightSourceEffect_new name layer =
     AnimationEffect_new name layer (replicate 4 (steady 1) @ [steady 0, steady 0, steady 0, steady 1])
       (SphereLightSourceEffect (white False) 5 6 7 8)"

definition RadialEffect_new :: "string \<Rightarrow> nat \<Rightarrow> light_effect" where
  "RadialEffect_new name layer =
     AnimationEffect_new name layer (replicate 4 (steady 1)) (RadialEffect (white False) 0)"

definition LightIteratorEffect_new ::
  "string \<Rightarrow> nat \<Rightarrow> IterationOrder \<Rightarrow> IterationMode \<Rightarrow> real \<Rightarrow> bool \<Rightarrow> bool \<Rightarrow> light_effect" where
  "LightIteratorEffect_new name layer order mode offset preamble invertOrder =
     AnimationEffect_new name layer (replicate 4 (steady 1))
       (LightIteratorEffect (white False) order mode offset preamble invertOrder)"

definition MultiChannelEffect_new :: "string \<Rightarrow> nat \<Rightarrow> light_effect" where
  "MultiChannelEffect_new name layer = AnimationEffect_new name layer [] (MultiChannelEffect [])"

text \<open>Setting a pointer to a new object, for the setters of the animations.\<close>

definition new_object :: "animation \<Rightarrow> (nat \<Rightarrow> light_effect \<Rightarrow> light_effect) \<Rightarrow> light_effect \<Rightarrow> light_effect" where
  "new_object a set_pointer e = set_pointer (length (ef_objects e)) (e\<lparr>ef_objects := ef_objects e @ [a]\<rparr>)"

section \<open>Animations of an effect\<close>

fun color_list :: "'a color_animations \<Rightarrow> 'a list" where
  "color_list (ColorAnimations r g b a i bound) = [r, g, b, a] @ (case i of None \<Rightarrow> [] | Some x \<Rightarrow> [x])"

fun channel_list :: "'a channel \<Rightarrow> 'a list" where
  "channel_list (Channel position r g b a) = [r, g, b, a]"

text \<open>The entries of a \<open>std::map\<close> in the order of their keys; the first entry for a key is kept.\<close>

definition map_entries :: "(string \<times> 'a) list \<Rightarrow> (string \<times> 'a) list" where
  "map_entries kvs = sort_key fst (AList.clearjunk kvs)"

fun kind_animations :: "(string \<times> 'a list) list \<Rightarrow> 'a effect_kind \<Rightarrow> 'a list" where
  "kind_animations m (AreaEffect c areas) = color_list c"
| "kind_animations m (LightSourceEffect c x y radius) = color_list c @ [x, y, radius]"
| "kind_animations m (SphereLightSourceEffect c x y z radius) = color_list c @ [x, y, z, radius]"
| "kind_animations m (RadialEffect c angle) = color_list c"
| "kind_animations m (LightIteratorEffect c order mode offset preamble invertOrder) = concat (map snd (map_entries m))"
| "kind_animations m (MultiChannelEffect channels) = concat (map channel_list channels)"

definition GetAnimations :: "light_effect \<Rightarrow> nat list" where
  "GetAnimations e = kind_animations (ef_lightIdAnimationMap e) (ef_kind e)"

definition Effect_GetLength :: "light_effect \<Rightarrow> real" where
  "Effect_GetLength e =
     (let (largestLength, allAnimationsAreEndless) =
            fold (\<lambda>a (largest, endless). let thisLength = GetTotalLength (ef_objects e ! a)
                   in if \<not> IsEndless (ef_objects e ! a) \<and> thisLength > largest then (thisLength, False) else (largest, endless))
              (GetAnimations e) (0, True)
      in if allAnimationsAreEndless then DBL_INF else largestLength)"

definition Effect_IsEndless :: "light_effect \<Rightarrow> bool" where
  "Effect_IsEndless e \<longleftrightarrow> Effect_GetLength e = DBL_INF"

section \<open>Players\<close>

definition bind_player :: "nat list \<Rightarrow> effect_player \<Rightarrow> animation list \<Rightarrow> (effect_player \<times> animation list) option" where
  "bind_player as p st = (case p of
      ClockPlayer q \<Rightarrow> map_option (apfst ClockPlayer) (Player_BindAnimations as q st)
    | PositionPlayer q \<Rightarrow> map_option (apfst PositionPlayer) (ActionPlayer_BindAnimations as q st))"

definition start_player :: "int \<Rightarrow> effect_player \<Rightarrow> animation list \<Rightarrow> (effect_player \<times> animation list) option" where
  "start_player now p st = (case p of
      ClockPlayer q \<Rightarrow> map_option (apfst ClockPlayer) (Player_Start now q st)
    | PositionPlayer q \<Rightarrow> Some (PositionPlayer (ActionPlayer_Start q), st))"

definition stop_player :: "effect_player \<Rightarrow> effect_player" where
  "stop_player p = (case p of
      ClockPlayer q \<Rightarrow> ClockPlayer (Player_Stop q) | PositionPlayer q \<Rightarrow> PositionPlayer (ActionPlayer_Stop q))"

definition set_player_speed :: "real \<Rightarrow> effect_player \<Rightarrow> effect_player" where
  "set_player_speed v p = (case p of
      ClockPlayer q \<Rightarrow> ClockPlayer (Player_SetSpeed v q) | PositionPlayer q \<Rightarrow> PositionPlayer (ActionPlayer_SetSpeed v q))"

definition update_player :: "int \<Rightarrow> effect_player \<Rightarrow> animation list \<Rightarrow> (effect_player \<times> animation list) option" where
  "update_player now p st = (case p of
      ClockPlayer q \<Rightarrow> map_option (apfst ClockPlayer) (Player_UpdateMarkers now q st)
    | PositionPlayer q \<Rightarrow> map_option (Pair (PositionPlayer q)) (ActionPlayer_UpdateMarkers q st))"

definition player_stopped :: "int \<Rightarrow> effect_player \<Rightarrow> animation list \<Rightarrow> (bool \<times> effect_player \<times> animation list) option" where
  "player_stopped now p st = (case p of
      ClockPlayer q \<Rightarrow> map_option (apsnd (apfst ClockPlayer)) (Player_IsStopped now q st)
    | PositionPlayer q \<Rightarrow> map_option (\<lambda>(b, st1). (b, PositionPlayer q, st1)) (ActionPlayer_IsStopped q st))"

section \<open>Operations\<close>

definition Effect_SetPlayer :: "effect_player \<Rightarrow> light_effect \<Rightarrow> light_effect" where
  "Effect_SetPlayer p e = e\<lparr>ef_player := p\<rparr>"

text \<open>\<open>CreateAnimations\<close> of the light iterator makes four new objects for each light.\<close>

definition light_objects :: "nat \<Rightarrow> (string \<times> animation list) list \<Rightarrow> (string \<times> nat list) list" where
  "light_objects n entries =
     map (\<lambda>(k, (lightId, as)). (lightId, map (\<lambda>c. n + 4 * k + c) [0..<4])) (enumerate 0 entries)"

definition Iterator_CreateAnimations :: "effect_env \<Rightarrow> light_effect \<Rightarrow> light_effect" where
  "Iterator_CreateAnimations E e = (case ef_kind e of
      LightIteratorEffect c order mode offset preamble invertOrder \<Rightarrow>
        (let lights = (case ef_group e of Some g \<Rightarrow> g_lights g | None \<Rightarrow> []);
             lights = (if order \<noteq> IterationOrderGroup then ev_sort E (CompareLights order invertOrder) lights else lights);
             rgba = map (\<lambda>a. ef_objects e ! a) [col_r c, col_g c, col_b c, col_a c];
             entries = CreateAnimations mode offset rgba lights
         in e\<lparr>ef_objects := ef_objects e @ concat (map snd entries),
              ef_lightIdAnimationMap := light_objects (length (ef_objects e)) entries\<rparr>)
    | _ \<Rightarrow> e)"

definition InitializeAnimations :: "effect_env \<Rightarrow> light_effect \<Rightarrow> light_effect option" where
  "InitializeAnimations E e =
     (let e1 = Iterator_CreateAnimations E e
      in case bind_player (GetAnimations e1) (ef_player e1) (ef_objects e1) of
           None \<Rightarrow> None
         | Some (p, st) \<Rightarrow>
             map_option (\<lambda>(q, st1). e1\<lparr>ef_player := p, ef_speedPlayer := q, ef_objects := st1\<rparr>)
               (Player_BindAnimations [ef_speed e1] (ef_speedPlayer e1) st))"

definition AnimationEffect_Enable :: "effect_env \<Rightarrow> light_effect \<Rightarrow> light_effect option" where
  "AnimationEffect_Enable E e =
     (case InitializeAnimations E (e\<lparr>ef_base := Effect_Enable (ef_base e)\<rparr>) of
        None \<Rightarrow> None
      | Some e1 \<Rightarrow>
          (case start_player (ev_now E) (ef_player e1) (ef_objects e1) of
             None \<Rightarrow> None
           | Some (p, st) \<Rightarrow>
               map_option (\<lambda>(q, st1). e1\<lparr>ef_player := p, ef_speedPlayer := q, ef_objects := st1\<rparr>)
                 (Player_Start (ev_now E) (ef_speedPlayer e1) st)))"

text \<open>\<open>MarkLights\<close> adds the lights nearest to the angle; the list is never cleared.\<close>

definition light_angles :: "Light list \<Rightarrow> (real \<times> Light) list" where
  "light_angles lights =
     sort_key fst (fold (\<lambda>light m. AList.update (Vector_GetAngle (plane (l_position light))) light m) lights [])"

definition light_pair :: "real \<Rightarrow> (real \<times> Light) list \<Rightarrow> (real \<times> Light) \<times> (real \<times> Light)" where
  "light_pair markPointDegrees m =
     (case List.find (\<lambda>i. isAngleBetween markPointDegrees (fst (m ! i)) (fst (m ! (i + 1)))) [0..<length m - 1] of
        Some i \<Rightarrow> (m ! i, m ! (i + 1)) | None \<Rightarrow> (hd m, last m))"

definition MarkLights :: "real \<Rightarrow> light_effect \<Rightarrow> light_effect" where
  "MarkLights markPointDegrees e = (case ef_group e of
      None \<Rightarrow> e
    | Some g \<Rightarrow>
        (let lightMap = light_angles (g_lights g);
             marked = (if length lightMap > 1 then
                 (let ((a, firstLight), (b, secondLight)) = light_pair markPointDegrees lightMap;
                      firstDiff = getDiffDegrees a markPointDegrees;
                      secondDiff = getDiffDegrees b markPointDegrees;
                      quarterDiff = (firstDiff + secondDiff) / 4
                  in if firstDiff < quarterDiff then [firstLight]
                     else if secondDiff < quarterDiff then [secondLight]
                     else [firstLight, secondLight])
               else map snd lightMap)
         in e\<lparr>ef_effect_lights := ef_effect_lights e @ marked\<rparr>))"

definition Effect_AssignLights :: "light_effect \<Rightarrow> light_effect" where
  "Effect_AssignLights e = (case ef_kind e of
      MultiChannelEffect channels \<Rightarrow>
        e\<lparr>ef_lightIdChannelMap := AssignLightsToChannels (map ch_position channels)
            (case ef_group e of Some g \<Rightarrow> g_lights g | None \<Rightarrow> [])\<rparr>
    | _ \<Rightarrow> e)"

definition LightEffect_Enable :: "effect_env \<Rightarrow> light_effect \<Rightarrow> light_effect option" where
  "LightEffect_Enable E e = (case ef_kind e of
      RadialEffect c angle \<Rightarrow>
        (if ef_group e = None then Some e else map_option (MarkLights angle) (AnimationEffect_Enable E e))
    | MultiChannelEffect channels \<Rightarrow> AnimationEffect_Enable E (Effect_AssignLights e)
    | _ \<Rightarrow> AnimationEffect_Enable E e)"

definition LightEffect_Disable :: "light_effect \<Rightarrow> light_effect" where
  "LightEffect_Disable e = e\<lparr>ef_base := Effect_Disable (ef_base e), ef_player := stop_player (ef_player e),
     ef_speedPlayer := Player_Stop (ef_speedPlayer e)\<rparr>"

definition LightEffect_UpdateGroup :: "effect_env \<Rightarrow> Group \<Rightarrow> light_effect \<Rightarrow> light_effect option" where
  "LightEffect_UpdateGroup E g e = (case ef_kind e of
      RadialEffect c angle \<Rightarrow> Some (MarkLights angle (e\<lparr>ef_group := Some g\<rparr>))
    | LightIteratorEffect c order mode offset preamble invertOrder \<Rightarrow> InitializeAnimations E (e\<lparr>ef_group := Some g\<rparr>)
    | MultiChannelEffect channels \<Rightarrow> Some (Effect_AssignLights (e\<lparr>ef_group := Some g\<rparr>))
    | _ \<Rightarrow> Some e)"

definition LightEffect_Render :: "effect_env \<Rightarrow> light_effect \<Rightarrow> light_effect option" where
  "LightEffect_Render E e =
     (case Player_UpdateMarkers (ev_now E) (ef_speedPlayer e) (ef_objects e) of
        None \<Rightarrow> None
      | Some (q, st) \<Rightarrow>
          (case update_player (ev_now E) (set_player_speed (an_value (st ! ef_speed e)) (ef_player e)) st of
             None \<Rightarrow> None
           | Some (p, st1) \<Rightarrow>
               map_option (\<lambda>(stopped, p1, st2).
                   e\<lparr>ef_base := (if stopped then Effect_Finish (ef_base e) else ef_base e),
                     ef_objects := st2, ef_player := p1, ef_speedPlayer := q\<rparr>)
                 (player_stopped (ev_now E) p st1)))"

section \<open>Setters\<close>

fun map_color :: "('a color_animations \<Rightarrow> 'a color_animations) \<Rightarrow> 'a effect_kind \<Rightarrow> 'a effect_kind" where
  "map_color f (AreaEffect c areas) = AreaEffect (f c) areas"
| "map_color f (LightSourceEffect c x y radius) = LightSourceEffect (f c) x y radius"
| "map_color f (SphereLightSourceEffect c x y z radius) = SphereLightSourceEffect (f c) x y z radius"
| "map_color f (RadialEffect c angle) = RadialEffect (f c) angle"
| "map_color f (LightIteratorEffect c order mode offset preamble invertOrder) =
     LightIteratorEffect (f c) order mode offset preamble invertOrder"
| "map_color f (MultiChannelEffect channels) = MultiChannelEffect channels"

definition set_kind :: "(nat effect_kind \<Rightarrow> nat effect_kind) \<Rightarrow> light_effect \<Rightarrow> light_effect" where
  "set_kind f e = e\<lparr>ef_kind := f (ef_kind e)\<rparr>"

definition SetSpeedAnimation :: "nat \<Rightarrow> light_effect \<Rightarrow> light_effect" where
  "SetSpeedAnimation speed e = e\<lparr>ef_speed := speed\<rparr>"

definition SetColorAnimation :: "nat \<Rightarrow> nat \<Rightarrow> nat \<Rightarrow> light_effect \<Rightarrow> light_effect" where
  "SetColorAnimation r g b =
     set_kind (map_color (\<lambda>c. ColorAnimations r g b (col_a c) (col_i c) (opacityBoundToIntensity c)))"

definition SetOpacityAnimation :: "nat \<Rightarrow> light_effect \<Rightarrow> light_effect" where
  "SetOpacityAnimation a =
     set_kind (map_color (\<lambda>c. ColorAnimations (col_r c) (col_g c) (col_b c) a (col_i c) (opacityBoundToIntensity c)))"

definition SetIntensityAnimation :: "nat option \<Rightarrow> light_effect \<Rightarrow> light_effect" where
  "SetIntensityAnimation i =
     set_kind (map_color (\<lambda>c. ColorAnimations (col_r c) (col_g c) (col_b c) (col_a c) i (opacityBoundToIntensity c)))"

definition SetFixedColor :: "Color \<Rightarrow> light_effect \<Rightarrow> light_effect" where
  "SetFixedColor color e =
     (let n = length (ef_objects e)
      in SetColorAnimation n (n + 1) (n + 2)
           (e\<lparr>ef_objects := ef_objects e @ [steady (red color), steady (green color), steady (blue color)]\<rparr>))"

definition SetFixedOpacity :: "real \<Rightarrow> light_effect \<Rightarrow> light_effect" where
  "SetFixedOpacity opacity = new_object (steady opacity) SetOpacityAnimation"

definition SetPositionAnimation :: "nat \<Rightarrow> nat \<Rightarrow> light_effect \<Rightarrow> light_effect" where
  "SetPositionAnimation x y = set_kind (\<lambda>k. case k of
      LightSourceEffect c x1 y1 radius \<Rightarrow> LightSourceEffect c x y radius | _ \<Rightarrow> k)"

definition SetSpherePositionAnimation :: "nat \<Rightarrow> nat \<Rightarrow> nat \<Rightarrow> light_effect \<Rightarrow> light_effect" where
  "SetSpherePositionAnimation x y z = set_kind (\<lambda>k. case k of
      SphereLightSourceEffect c x1 y1 z1 radius \<Rightarrow> SphereLightSourceEffect c x y z radius | _ \<Rightarrow> k)"

definition SetRadiusAnimation :: "nat \<Rightarrow> light_effect \<Rightarrow> light_effect" where
  "SetRadiusAnimation radius = set_kind (\<lambda>k. case k of
      LightSourceEffect c x y r \<Rightarrow> LightSourceEffect c x y radius
    | SphereLightSourceEffect c x y z r \<Rightarrow> SphereLightSourceEffect c x y z radius
    | _ \<Rightarrow> k)"

definition SetAngle :: "real \<Rightarrow> light_effect \<Rightarrow> light_effect" where
  "SetAngle angle = set_kind (\<lambda>k. case k of RadialEffect c a \<Rightarrow> RadialEffect c angle | _ \<Rightarrow> k)"

definition AddArea :: "IArea \<Rightarrow> light_effect \<Rightarrow> light_effect" where
  "AddArea area = set_kind (\<lambda>k. case k of AreaEffect c areas \<Rightarrow> AreaEffect c (areas @ [area]) | _ \<Rightarrow> k)"

definition SetArea :: "IArea \<Rightarrow> light_effect \<Rightarrow> light_effect" where
  "SetArea area e = AddArea area (set_kind (\<lambda>k. case k of AreaEffect c areas \<Rightarrow> AreaEffect c [] | _ \<Rightarrow> k) e)"

definition SetChannels :: "nat channel list \<Rightarrow> light_effect \<Rightarrow> light_effect" where
  "SetChannels channels e =
     Effect_AssignLights (set_kind (\<lambda>k. case k of MultiChannelEffect cs \<Rightarrow> MultiChannelEffect channels | _ \<Rightarrow> k) e)"

definition AddChannel :: "nat channel \<Rightarrow> light_effect \<Rightarrow> light_effect" where
  "AddChannel channel e =
     Effect_AssignLights (set_kind (\<lambda>k. case k of MultiChannelEffect cs \<Rightarrow> MultiChannelEffect (cs @ [channel]) | _ \<Rightarrow> k) e)"

definition MultiChannel_Clear :: "light_effect \<Rightarrow> light_effect" where
  "MultiChannel_Clear e = (case ef_kind e of
      MultiChannelEffect cs \<Rightarrow> e\<lparr>ef_kind := MultiChannelEffect [], ef_lightIdChannelMap := Map.empty\<rparr> | _ \<Rightarrow> e)"

section \<open>Explosions and hits\<close>

text \<open>
  \<open>ExplosionEffect\<close> is a light source whose animations are made by \<open>PrepareEffect\<close>; its other fields
  are only the arguments of that. \<open>HitEffect\<close> is a radial effect that fades.
\<close>

definition Explosion_Clip :: "real \<Rightarrow> real \<Rightarrow> real \<Rightarrow> real" where
  "Explosion_Clip val lo hi = (if val < lo then lo else if val > hi then hi else val)"

definition up_and_down :: "real \<Rightarrow> real \<Rightarrow> real \<Rightarrow> animation" where
  "up_and_down peak rise duration = Animation 0 0 (SequenceAnimation 0
     [TweenAnimation_new 0 peak rise Linear, TweenAnimation_new peak 0 (duration - rise) Linear] [] 0 (-1) 0)"

definition Explosion_PrepareColor :: "Color \<Rightarrow> real \<Rightarrow> real \<Rightarrow> light_effect \<Rightarrow> light_effect" where
  "Explosion_PrepareColor color intensity_expansion_time duration e =
     new_object (up_and_down (GetCurrentBrightness color) intensity_expansion_time duration) (\<lambda>i. SetIntensityAnimation (Some i))
       (SetFixedOpacity (alpha color) (SetFixedColor color e))"

definition Explosion_PreparePosition :: "Location \<Rightarrow> light_effect \<Rightarrow> light_effect" where
  "Explosion_PreparePosition location e =
     (let n = length (ef_objects e)
      in SetPositionAnimation n (n + 1) (e\<lparr>ef_objects := ef_objects e @ [steady (loc_x location), steady (loc_y location)]\<rparr>))"

definition Explosion_PrepareRadius :: "real \<Rightarrow> real \<Rightarrow> real \<Rightarrow> light_effect \<Rightarrow> light_effect" where
  "Explosion_PrepareRadius radius radius_expansion_time duration =
     new_object (up_and_down radius radius_expansion_time duration) SetRadiusAnimation"

definition Explosion_PrepareEffect ::
  "Color \<Rightarrow> Location \<Rightarrow> real \<Rightarrow> real \<Rightarrow> real \<Rightarrow> real \<Rightarrow> light_effect \<Rightarrow> light_effect" where
  "Explosion_PrepareEffect color location duration radius radius_expansion_time intensity_expansion_time e =
     Explosion_PrepareRadius radius (Explosion_Clip radius_expansion_time 0 duration) duration
       (Explosion_PreparePosition location
         (Explosion_PrepareColor color (Explosion_Clip intensity_expansion_time 0 duration) duration e))"

definition Hit_PrepareColor :: "Color \<Rightarrow> real \<Rightarrow> light_effect \<Rightarrow> light_effect" where
  "Hit_PrepareColor color duration_ms e =
     (let n = length (ef_objects e); fade = (\<lambda>v. TweenAnimation_new v 0 duration_ms Linear)
      in SetOpacityAnimation (n + 3) (SetColorAnimation n (n + 1) (n + 2)
           (e\<lparr>ef_objects := ef_objects e @ map fade [red color, green color, blue color, alpha color]\<rparr>)))"

definition Hit_PrepareEffect :: "Color \<Rightarrow> real \<Rightarrow> light_effect \<Rightarrow> light_effect" where
  "Hit_PrepareEffect color angle_degrees e = SetAngle angle_degrees (Hit_PrepareColor color 500 e)"

section \<open>Colours\<close>

text \<open>The colour of a light, from the values of the animations.\<close>

fun color_of :: "real color_animations \<Rightarrow> real \<Rightarrow> Color" where
  "color_of (ColorAnimations r g b a i bound) opacity = Color_rgba r g b opacity"

definition SetIntensity :: "real color_animations \<Rightarrow> Color \<Rightarrow> Color" where
  "SetIntensity c color =
     (let color = (case col_i c of Some i \<Rightarrow> ApplyBrightness color i | None \<Rightarrow> color)
      in if opacityBoundToIntensity c then color\<lparr>alpha := col_a c * GetCurrentBrightness color\<rparr> else color)"

definition Area_GetColor :: "real color_animations \<Rightarrow> IArea list \<Rightarrow> Light \<Rightarrow> Color" where
  "Area_GetColor c areas light =
     (if \<exists>area\<in>set areas. isInArea area (l_position light) then SetIntensity c (color_of c (col_a c)) else Color_default)"

definition alpha_accent :: "real \<Rightarrow> real \<Rightarrow> real \<Rightarrow> real" where
  "alpha_accent distance radius a = (if radius = 0 then 0 else easeInQuad distance 1 0 radius * a)"

definition LightSource_GetColor :: "real color_animations \<Rightarrow> real \<Rightarrow> real \<Rightarrow> real \<Rightarrow> Light \<Rightarrow> Color" where
  "LightSource_GetColor c x y radius light =
     (let vecLen = Vector_GetLength (Vector_between \<lparr>loc_x = x, loc_y = y, loc_z = 0\<rparr> (plane (l_position light)))
      in SetIntensity c (color_of c (alpha_accent vecLen radius (col_a c))))"

definition SphereLightSource_GetColor ::
  "real color_animations \<Rightarrow> real \<Rightarrow> real \<Rightarrow> real \<Rightarrow> real \<Rightarrow> Light \<Rightarrow> Color" where
  "SphereLightSource_GetColor c x y z radius light =
     (let distance = Vector_GetLength (Vector_between \<lparr>loc_x = x, loc_y = y, loc_z = z\<rparr> (l_position light))
      in SetIntensity c (color_of c (alpha_accent distance radius (col_a c))))"

definition Radial_GetColor :: "real color_animations \<Rightarrow> Light list \<Rightarrow> Light \<Rightarrow> Color" where
  "Radial_GetColor c effect_lights light =
     (if l_id light \<in> l_id ` set effect_lights then color_of c (col_a c) else Color_default)"

definition Iterator_GetColor :: "real color_animations \<Rightarrow> (string \<times> real list) list \<Rightarrow> Light \<Rightarrow> Color" where
  "Iterator_GetColor c values light = (case map_of values (l_id light) of
      Some vs \<Rightarrow>
        (let color = Color_rgba (vs ! 0) (vs ! 1) (vs ! 2) (vs ! 3)
         in if opacityBoundToIntensity c then color\<lparr>alpha := vs ! 3 * GetCurrentBrightness color\<rparr> else color)
    | None \<Rightarrow> Color_default)"

definition MultiChannel_GetColor :: "real channel list \<Rightarrow> (string \<rightharpoonup> nat) \<Rightarrow> Light \<Rightarrow> Color" where
  "MultiChannel_GetColor channels channel_of light = (case channel_of (l_id light) of
      Some i \<Rightarrow> (let c = channels ! i in Color_rgba (ch_r c) (ch_g c) (ch_b c) (ch_a c))
    | None \<Rightarrow> Color_default)"

fun kind_color :: "Light list \<Rightarrow> (string \<times> real list) list \<Rightarrow> (string \<rightharpoonup> nat) \<Rightarrow> real effect_kind \<Rightarrow> Light \<Rightarrow> Color" where
  "kind_color marked m channel_of (AreaEffect c areas) = Area_GetColor c areas"
| "kind_color marked m channel_of (LightSourceEffect c x y radius) = LightSource_GetColor c x y radius"
| "kind_color marked m channel_of (SphereLightSourceEffect c x y z radius) = SphereLightSource_GetColor c x y z radius"
| "kind_color marked m channel_of (RadialEffect c angle) = Radial_GetColor c marked"
| "kind_color marked m channel_of (LightIteratorEffect c order mode offset preamble invertOrder) = Iterator_GetColor c m"
| "kind_color marked m channel_of (MultiChannelEffect channels) = MultiChannel_GetColor channels channel_of"

definition shown_color :: "(nat \<Rightarrow> real) \<Rightarrow> light_effect \<Rightarrow> Light \<Rightarrow> Color" where
  "shown_color values e = kind_color (ef_effect_lights e) (map (apsnd (map values)) (ef_lightIdAnimationMap e))
     (ef_lightIdChannelMap e) (map_effect_kind values (ef_kind e))"

definition LightEffect_GetColor :: "light_effect \<Rightarrow> Light \<Rightarrow> Color" where
  "LightEffect_GetColor e = shown_color (\<lambda>a. an_value (ef_objects e ! a)) e"

text \<open>
  An effect of the mixer at a moment. When an operation accesses an animation in a wrong way, the
  effect is marked and nothing else is said of it.
\<close>

definition attempt :: "(light_effect \<Rightarrow> light_effect option) \<Rightarrow> light_effect \<Rightarrow> light_effect" where
  "attempt f e = (if ef_failed e then e else case f e of Some e1 \<Rightarrow> e1 | None \<Rightarrow> e\<lparr>ef_failed := True\<rparr>)"

definition LightEffect_class :: "effect_env \<Rightarrow> light_effect effect_class" where
  "LightEffect_class E =
     \<lparr>ec_name = (\<lambda>e. eb_name (ef_base e)), ec_layer = (\<lambda>e. eb_layer (ef_base e)),
      ec_isEnabled = (\<lambda>e. Effect_IsEnabled (ef_base e)), ec_isFinished = (\<lambda>e. Effect_IsFinished (ef_base e)),
      ec_updateGroup = (\<lambda>g. attempt (LightEffect_UpdateGroup E g)), ec_render = attempt (LightEffect_Render E),
      ec_getColor = LightEffect_GetColor\<rparr>"

end
