(* ===== verification/Timeline.thy ===== *)
theory Timeline imports Main begin

text \<open>
  \<open>huestream/effect/lightscript/Timeline\<close>: the position in a light script, which runs with a clock.
  The value of the clock is an argument of the operations that read it. The handler and the
  callback of state changes are one function \<open>cb\<close>, which may call the timeline again and gives the
  timeline after that; 64-bit overflow is left out.
\<close>

section \<open>State and operations\<close>

datatype TimelineState = TIMELINE_STATE_STARTED | TIMELINE_STATE_PAUSED | TIMELINE_STATE_RESUMED
  | TIMELINE_STATE_STOPPED | TIMELINE_STATE_ENDED

record timeline =
  tl_startTime :: int
  tl_position :: int
  tl_running :: bool
  tl_latencyCompensation :: int
  tl_length :: int

type_synonym timeline_callback = "TimelineState \<Rightarrow> timeline \<Rightarrow> timeline"

definition Timeline_new :: "int \<Rightarrow> timeline" where
  "Timeline_new latencyCompensation = \<lparr>tl_startTime = 0, tl_position = 0, tl_running = False,
     tl_latencyCompensation = latencyCompensation, tl_length = 2 ^ 63 - 1\<rparr>"

definition Timeline_SetPosition :: "int \<Rightarrow> int \<Rightarrow> timeline \<Rightarrow> timeline" where
  "Timeline_SetPosition now position t =
     t\<lparr>tl_startTime := now - position - tl_latencyCompensation t, tl_position := position\<rparr>"

definition Timeline_Start :: "timeline_callback \<Rightarrow> int \<Rightarrow> timeline \<Rightarrow> timeline" where
  "Timeline_Start cb now t = cb TIMELINE_STATE_STARTED ((Timeline_SetPosition now 0 t)\<lparr>tl_running := True\<rparr>)"

definition Timeline_Pause :: "timeline_callback \<Rightarrow> timeline \<Rightarrow> timeline" where
  "Timeline_Pause cb t = cb TIMELINE_STATE_PAUSED (t\<lparr>tl_running := False\<rparr>)"

definition Timeline_Resume :: "timeline_callback \<Rightarrow> int \<Rightarrow> timeline \<Rightarrow> timeline" where
  "Timeline_Resume cb now t =
     cb TIMELINE_STATE_RESUMED ((Timeline_SetPosition now (tl_position t) t)\<lparr>tl_running := True\<rparr>)"

definition Timeline_Stop :: "timeline_callback \<Rightarrow> int \<Rightarrow> timeline \<Rightarrow> timeline" where
  "Timeline_Stop cb now t = cb TIMELINE_STATE_STOPPED (Timeline_SetPosition now 0 (t\<lparr>tl_running := False\<rparr>))"

definition Timeline_End :: "timeline_callback \<Rightarrow> timeline \<Rightarrow> timeline" where
  "Timeline_End cb t = cb TIMELINE_STATE_ENDED (t\<lparr>tl_running := False\<rparr>)"

definition UpdatePosition :: "timeline_callback \<Rightarrow> int \<Rightarrow> timeline \<Rightarrow> timeline" where
  "UpdatePosition cb now t =
     (let position = now - tl_startTime t;
          (position, t) = (if position > tl_length t then (tl_length t, Timeline_End cb t) else (position, t))
      in t\<lparr>tl_position := position\<rparr>)"

definition Timeline_Now :: "timeline_callback \<Rightarrow> int \<Rightarrow> timeline \<Rightarrow> timeline \<times> int" where
  "Timeline_Now cb now t = (let t = (if tl_running t then UpdatePosition cb now t else t) in (t, tl_position t))"

lemmas timeline_defs = Timeline_SetPosition_def Timeline_Start_def Timeline_Pause_def Timeline_Resume_def
  Timeline_Stop_def Timeline_End_def UpdatePosition_def Timeline_Now_def Let_def

section \<open>Properties\<close>

text \<open>
  A session is started at a time, then paused and resumed at the times of a list of pairs. The
  position is read at every pause, as the render thread reads it before each frame.
\<close>

definition silent :: timeline_callback where "silent s t = t"

fun pauses :: "(int \<times> int) list \<Rightarrow> timeline \<Rightarrow> timeline" where
  "pauses [] t = t"
| "pauses ((paused, resumed) # ps) t =
     pauses ps (Timeline_Resume silent resumed (Timeline_Pause silent (fst (Timeline_Now silent paused t))))"

fun played :: "int \<Rightarrow> (int \<times> int) list \<Rightarrow> int \<Rightarrow> int" where
  "played start [] now = now - start"
| "played start ((paused, resumed) # ps) now = (paused - start) + played resumed ps now"

fun in_time :: "int \<Rightarrow> (int \<times> int) list \<Rightarrow> int \<Rightarrow> bool" where
  "in_time start [] now \<longleftrightarrow> start \<le> now"
| "in_time start ((paused, resumed) # ps) now \<longleftrightarrow> start \<le> paused \<and> paused \<le> resumed \<and> in_time resumed ps now"

lemma played_nonneg: "in_time start ps now \<Longrightarrow> 0 \<le> played start ps now"
  by (induction start ps now rule: played.induct) auto

lemma position_after_pauses:
  assumes "tl_running t" "tl_latencyCompensation t = l" "0 \<le> l" "tl_startTime t = start - p - l"
    "in_time start ps now" "p + played start ps now + (int (length ps) + 1) * l \<le> tl_length t"
  shows "snd (Timeline_Now silent now (pauses ps t)) = p + played start ps now + (int (length ps) + 1) * l"
  using assms
proof (induction start ps now arbitrary: t p rule: played.induct)
  case (2 start paused resumed ps now)
  let ?t1 = "fst (Timeline_Now silent paused t)"
  let ?p1 = "p + (paused - start) + l"
  let ?t2 = "Timeline_Resume silent resumed (Timeline_Pause silent ?t1)"
  have "0 \<le> played resumed ps now" "0 \<le> int (length ps) * l" using played_nonneg 2 by simp_all
  moreover have "(int (length ((paused, resumed) # ps)) + 1) * l = int (length ps) * l + 2 * l"
    by (simp add: algebra_simps)
  ultimately have "?p1 \<le> tl_length t" using 2(4,7) unfolding played.simps by linarith
  then have "tl_running ?t2" "tl_latencyCompensation ?t2 = l" "tl_startTime ?t2 = resumed - ?p1 - l"
    "tl_length ?t2 = tl_length t"
    using 2(2,3,5) by (simp_all add: timeline_defs silent_def)
  then have "snd (Timeline_Now silent now (pauses ps ?t2)) = ?p1 + played resumed ps now + (int (length ps) + 1) * l"
    using 2(4,6,7) by (intro 2(1)) (simp_all add: algebra_simps)
  then show ?case by (simp add: algebra_simps)
qed (simp add: timeline_defs)

text \<open>
  While the end is not reached, the position is the time that was played, plus
  the latency compensation once for the start and once more for every time the timeline was
  resumed. Without a latency compensation the pauses leave no trace.
\<close>

theorem timeline_position:
  assumes "in_time start ps now" "0 \<le> l" "played start ps now + (int (length ps) + 1) * l < 2 ^ 63"
  shows "snd (Timeline_Now silent now (pauses ps (Timeline_Start silent start (Timeline_new l))))
    = played start ps now + (int (length ps) + 1) * l"
  using position_after_pauses[of "Timeline_Start silent start (Timeline_new l)" l start 0 ps now] assms
  by (simp add: timeline_defs silent_def Timeline_new_def)

theorem timeline_position_witness:
  "snd (Timeline_Now silent 5000 (pauses [(1000, 4000), (4500, 4600)] (Timeline_Start silent 0 (Timeline_new 40)))) = 1900 + 3 * 40"
  using timeline_position[of 0 "[(1000, 4000), (4500, 4600)]" 5000 40] by simp

text \<open>
  At its end the timeline stops and stays there, whatever the clock says. What the callback of the
  end sets as position is overwritten: stopping there leaves the position at the end.
\<close>

lemma timeline_ends:
  assumes "tl_running t" "tl_length t < now - tl_startTime t"
  shows "snd (Timeline_Now silent now t) = tl_length t
    \<and> snd (Timeline_Now silent later (fst (Timeline_Now silent now t))) = tl_length t"
  using assms by (simp add: timeline_defs silent_def)

lemma stop_in_end_callback:
  assumes "tl_running t" "tl_length t < now - tl_startTime t" "cb TIMELINE_STATE_STOPPED = id"
    "cb TIMELINE_STATE_ENDED = Timeline_Stop (\<lambda>_ t. t) now"
  shows "snd (Timeline_Now cb now t) = tl_length t \<and> \<not> tl_running (fst (Timeline_Now cb now t))"
  using assms by (simp add: timeline_defs)

end
