(* ===== verification/LightScript.thy ===== *)
theory LightScript imports Timeline Mixer Persistence "HOL-Library.Product_Lexorder" begin

text \<open>
  \<open>huestream/effect/lightscript/Action\<close> and \<open>LightScript\<close>: an action lets an animation effect play
  from a position of the timeline on; a light script keeps its actions by layer and position, and
  is saved by layer. The virtual methods of \<open>AnimationEffect\<close> are a record of functions; an effect
  belongs to one action.
\<close>

section \<open>Actions\<close>

record 'fx animation_effect =
  fx_attach :: "'fx \<Rightarrow> 'fx"
  fx_getLength :: "'fx \<Rightarrow> real"
  fx_isEnabled :: "'fx \<Rightarrow> bool"
  fx_setPosition :: "int \<Rightarrow> 'fx \<Rightarrow> 'fx"
  fx_updateGroup :: "Group \<Rightarrow> 'fx \<Rightarrow> 'fx"
  fx_render :: "'fx \<Rightarrow> 'fx"
  fx_getColor :: "'fx \<Rightarrow> Light \<Rightarrow> Color"
  fx_serialize :: "'fx \<Rightarrow> json \<Rightarrow> json"
  fx_build :: "json \<Rightarrow> 'fx built"

record 'fx action =
  ac_base :: effect_base
  ac_startPosition :: int
  ac_endPosition :: int
  ac_effect :: "'fx option"
  ac_bound :: bool

text \<open>\<open>SetEffect\<close> connects the effect with the action's player and enables it.\<close>

definition SetEffect :: "'fx animation_effect \<Rightarrow> 'fx option \<Rightarrow> 'fx action \<Rightarrow> 'fx action" where
  "SetEffect X effect a = a\<lparr>ac_effect := map_option (fx_attach X) effect\<rparr>"

definition Action_new :: "'fx animation_effect \<Rightarrow> string \<Rightarrow> nat \<Rightarrow> 'fx option \<Rightarrow> int \<Rightarrow> int \<Rightarrow> 'fx action" where
  "Action_new X name layer effect startPosition endPosition =
     (let a = SetEffect X effect \<lparr>ac_base = Effect_new name layer, ac_startPosition = startPosition,
                ac_endPosition = endPosition, ac_effect = None, ac_bound = False\<rparr>
      in a\<lparr>ac_base := (ac_base a)\<lparr>eb_state := EnabledState\<rparr>\<rparr>)"

definition GetCalculatedEndPosition :: "'fx animation_effect \<Rightarrow> 'fx action \<Rightarrow> int" where
  "GetCalculatedEndPosition X a = (case ac_effect a of
      None \<Rightarrow> 0
    | Some effect \<Rightarrow>
        (let effectLength = fx_getLength X effect
         in if effectLength = DBL_INF then (if ac_endPosition a > 0 then ac_endPosition a else 2 ^ 63 - 1)
            else if ac_endPosition a < 0 \<or> effectLength < real_of_int (ac_endPosition a - ac_startPosition a)
              then ac_startPosition a + trunc effectLength
            else ac_endPosition a))"

definition IsBetweenStartAndEnd :: "'fx animation_effect \<Rightarrow> int \<Rightarrow> 'fx action \<Rightarrow> bool" where
  "IsBetweenStartAndEnd X position a \<longleftrightarrow>
     position > ac_startPosition a \<and> position < GetCalculatedEndPosition X a"

definition Action_IsEnabled :: "'fx animation_effect \<Rightarrow> int \<Rightarrow> 'fx action \<Rightarrow> bool" where
  "Action_IsEnabled X now a \<longleftrightarrow> (case ac_effect a of
      None \<Rightarrow> False
    | Some effect \<Rightarrow> ac_bound a \<and> fx_isEnabled X effect \<and> IsBetweenStartAndEnd X now a)"

definition Action_Render :: "'fx animation_effect \<Rightarrow> int \<Rightarrow> 'fx action \<Rightarrow> 'fx action" where
  "Action_Render X now a =
     (if \<not> ac_bound a \<or> ac_effect a = None then a
      else a\<lparr>ac_effect := map_option (\<lambda>e. fx_render X (fx_setPosition X (now - ac_startPosition a) e)) (ac_effect a)\<rparr>)"

text \<open>An action as an effect of the mixer, at a position of its timeline.\<close>

definition Action_class :: "'fx animation_effect \<Rightarrow> int \<Rightarrow> 'fx action effect_class" where
  "Action_class X now = \<lparr>ec_name = (\<lambda>a. eb_name (ac_base a)), ec_layer = (\<lambda>a. eb_layer (ac_base a)),
     ec_isEnabled = Action_IsEnabled X now, ec_isFinished = (\<lambda>a. Effect_IsFinished (ac_base a)),
     ec_updateGroup = (\<lambda>g a. a\<lparr>ac_effect := map_option (fx_updateGroup X g) (ac_effect a)\<rparr>),
     ec_render = Action_Render X now,
     ec_getColor = (\<lambda>a light. case ac_effect a of Some e \<Rightarrow> fx_getColor X e light | None \<Rightarrow> Color_default)\<rparr>"

interpretation actions: effect_interface "Action_class X now" for X now
  by unfold_locales (simp_all add: Action_class_def Action_Render_def)

section \<open>Light scripts\<close>

record 'fx light_script =
  ls_name :: string
  ls_idealSetup :: "Location list"
  ls_length :: int
  ls_actions :: "'fx action list"
  ls_timeline :: bool

definition LightScript_new :: "string \<Rightarrow> int \<Rightarrow> Location list \<Rightarrow> 'fx light_script" where
  "LightScript_new name len idealSetup = \<lparr>ls_name = name, ls_idealSetup = idealSetup, ls_length = len,
     ls_actions = [], ls_timeline = False\<rparr>"

fun action_index :: "'fx action \<Rightarrow> 'fx action list \<Rightarrow> nat \<Rightarrow> nat" where
  "action_index newEffect [] i = i"
| "action_index newEffect (a # as) i =
     (let newStartPosition = ac_startPosition newEffect; startPosition = ac_startPosition a;
          newLayer = eb_layer (ac_base newEffect); layer = eb_layer (ac_base a)
      in if newLayer < layer \<or> (newStartPosition < startPosition \<and> newLayer = layer) then i
         else action_index newEffect as (i + 1))"

definition FindActionIndex :: "'fx action \<Rightarrow> 'fx action list \<Rightarrow> nat" where
  "FindActionIndex newEffect as = action_index newEffect as 0"

definition insert_action :: "'fx action \<Rightarrow> 'fx action list \<Rightarrow> 'fx action list" where
  "insert_action newAction as = (let i = FindActionIndex newAction as in take i as @ newAction # drop i as)"

definition AddAction :: "'fx action \<Rightarrow> 'fx light_script \<Rightarrow> 'fx light_script" where
  "AddAction newAction s = s\<lparr>ls_actions := insert_action (newAction\<lparr>ac_bound := ls_timeline s\<rparr>) (ls_actions s)\<rparr>"

definition SetActions :: "'fx action list \<Rightarrow> 'fx light_script \<Rightarrow> 'fx light_script" where
  "SetActions as s = fold AddAction as (s\<lparr>ls_actions := []\<rparr>)"

definition BindTimeline :: "bool \<Rightarrow> 'fx light_script \<Rightarrow> 'fx light_script" where
  "BindTimeline t s = s\<lparr>ls_timeline := t, ls_actions := map (\<lambda>a. a\<lparr>ac_bound := t\<rparr>) (ls_actions s)\<rparr>"

definition LightScript_Finish :: "'fx light_script \<Rightarrow> 'fx light_script" where
  "LightScript_Finish s = s\<lparr>ls_actions := map (\<lambda>a. a\<lparr>ac_base := Effect_Finish (ac_base a)\<rparr>) (ls_actions s)\<rparr>"

section \<open>Saving\<close>

definition Action_Serialize :: "'fx animation_effect \<Rightarrow> 'fx action \<Rightarrow> json \<Rightarrow> json" where
  "Action_Serialize X a node =
     (let n1 = SerializeValue ''Name'' (JString (eb_name (ac_base a))) (Serializable_Serialize ''huestream.Action'' node);
          n2 = SerializeValue ''StartPosition'' (JNumber (real_of_int (ac_startPosition a))) n1;
          n3 = (if ac_endPosition a \<ge> 0 then SerializeValue ''EndPosition'' (JNumber (real_of_int (ac_endPosition a))) n2 else n2)
      in SerializeAttribute ''Effect'' (map_option (fx_serialize X) (ac_effect a)) n3)"

text \<open>\<open>None\<close>: the effect's node holds an object that is no animation effect.\<close>

definition Action_Deserialize :: "json_lib \<Rightarrow> 'fx animation_effect \<Rightarrow> json \<Rightarrow> 'fx action option" where
  "Action_Deserialize L X node =
     (let a = Action_new X (DeserializeString L node ''Name'' []) 0 None
                (DeserializeInt L node ''StartPosition'' 0) (DeserializeInt L node ''EndPosition'' (-1))
      in case json_find ''Effect'' node of
           None \<Rightarrow> Some (SetEffect X None a)
         | Some c \<Rightarrow> (case fx_build X c of
                       Built e \<Rightarrow> Some (SetEffect X (Some e) a) | NullPtr \<Rightarrow> Some (SetEffect X None a) | OtherClass \<Rightarrow> None))"

definition layer_node :: "'fx animation_effect \<Rightarrow> nat \<Rightarrow> 'fx action list \<Rightarrow> json" where
  "layer_node X layerId as = SerializeList ''timeline'' (map (Action_Serialize X) as)
     (SerializeValue ''layer'' (JNumber (real layerId)) (JNode []))"

fun layer_nodes :: "'fx animation_effect \<Rightarrow> nat \<Rightarrow> 'fx action list \<Rightarrow> 'fx action list \<Rightarrow> json list" where
  "layer_nodes X currentLayerId actionList [] = (if actionList \<noteq> [] then [layer_node X currentLayerId actionList] else [])"
| "layer_nodes X currentLayerId actionList (a # as) =
     (let layerId = eb_layer (ac_base a)
      in if layerId \<noteq> currentLayerId then
           (if actionList \<noteq> [] then [layer_node X currentLayerId actionList] else []) @ layer_nodes X layerId [a] as
         else layer_nodes X currentLayerId (actionList @ [a]) as)"

definition LightScript_Serialize :: "'fx animation_effect \<Rightarrow> 'fx light_script \<Rightarrow> json \<Rightarrow> json" where
  "LightScript_Serialize X s node =
     (let n1 = Serializable_Serialize ''huestream.LightScript'' node;
          n2 = SerializeValue ''VersionMinor'' (JNumber 0) (SerializeValue ''VerionMajor'' (JNumber 0) n1);
          n3 = SerializeValue ''Name'' (JString (ls_name s)) n2;
          n4 = (if ls_idealSetup s \<noteq> [] then SerializeList ''IdealSetup'' (map Location_Serialize (ls_idealSetup s)) n3 else n3);
          n5 = SerializeValue ''Length'' (JNumber (real_of_int (ls_length s))) n4
      in push_back ''layers'' (JArray (layer_nodes X 0 [] (ls_actions s))) n5)"

text \<open>\<open>None\<close>: an element of a timeline is not built, and the null pointer is dereferenced.\<close>

fun read_timeline :: "json_lib \<Rightarrow> 'fx animation_effect \<Rightarrow> nat \<Rightarrow> json list \<Rightarrow> 'fx light_script \<Rightarrow> 'fx light_script option" where
  "read_timeline L X currentLayer [] s = Some s"
| "read_timeline L X currentLayer (actionNode # ns) s =
     (case DeserializeFromJson L ''huestream.Action'' (Action_Deserialize L X) actionNode of
        Built (Some a) \<Rightarrow> read_timeline L X currentLayer ns (AddAction (a\<lparr>ac_base := (ac_base a)\<lparr>eb_layer := currentLayer\<rparr>\<rparr>) s)
      | _ \<Rightarrow> None)"

fun read_layers :: "json_lib \<Rightarrow> 'fx animation_effect \<Rightarrow> nat \<Rightarrow> json list \<Rightarrow> 'fx light_script \<Rightarrow> 'fx light_script option" where
  "read_layers L X currentLayer [] s = Some s"
| "read_layers L X currentLayer (layerNode # ns) s =
     (let currentLayer = (if IsAttributeSet layerNode ''layer''
                          then nat (DeserializeInt L layerNode ''layer'' 0 mod 2 ^ 32) else currentLayer)
      in case json_find ''timeline'' layerNode of
           None \<Rightarrow> read_layers L X currentLayer ns s
         | Some timelineNode \<Rightarrow>
             (case read_timeline L X currentLayer (json_children timelineNode) s of
                None \<Rightarrow> None | Some s1 \<Rightarrow> read_layers L X currentLayer ns s1))"

definition LightScript_Deserialize :: "json_lib \<Rightarrow> 'fx animation_effect \<Rightarrow> json \<Rightarrow> 'fx light_script \<Rightarrow> 'fx light_script option" where
  "LightScript_Deserialize L X node s =
     (if DeserializeInt L node ''VerionMajor'' 0 > 0 then Some s
      else case DeserializeList L node ''IdealSetup'' ''huestream.Location''
                  (\<lambda>n. Some (Location_Deserialize L n \<lparr>loc_x = 0, loc_y = 0, loc_z = 0\<rparr>)) of
             None \<Rightarrow> None
           | Some locations \<Rightarrow>
               (let s1 = s\<lparr>ls_name := DeserializeString L node ''Name'' [], ls_length := DeserializeInt L node ''Length'' 0,
                           ls_idealSetup := locations\<rparr>
                in case json_find ''layers'' node of
                     None \<Rightarrow> Some s1 | Some layersNode \<Rightarrow> read_layers L X 0 (json_children layersNode) s1))"


section \<open>The order of the actions\<close>

definition action_key :: "'fx action \<Rightarrow> nat \<times> int" where
  "action_key a = (eb_layer (ac_base a), ac_startPosition a)"

lemma action_key_less: "action_key a < action_key b \<longleftrightarrow> eb_layer (ac_base a) < eb_layer (ac_base b)
    \<or> (ac_startPosition a < ac_startPosition b \<and> eb_layer (ac_base a) = eb_layer (ac_base b))"
  by (auto simp: action_key_def less_prod_def')

lemma action_index_eq: "action_index a xs i = i + length (takeWhile (\<lambda>y. \<not> action_key a < action_key y) xs)"
  by (induction xs arbitrary: i) (auto simp: action_key_less Let_def)

interpretation script: ordered_insertion action_key insert_action
  by unfold_locales
     (simp add: insert_action_def FindActionIndex_def action_index_eq takeWhile_eq_take[symmetric]
       dropWhile_eq_drop[symmetric] Let_def)

lemma action_key_bound [simp]: "action_key (a\<lparr>ac_bound := t\<rparr>) = action_key a"
  by (simp add: action_key_def)

lemma fold_AddAction:
  "ls_actions (fold AddAction as s) = fold insert_action (map (\<lambda>a. a\<lparr>ac_bound := ls_timeline s\<rparr>) as) (ls_actions s)
   \<and> ls_timeline (fold AddAction as s) = ls_timeline s"
  by (induction as arbitrary: s) (simp_all add: AddAction_def)

lemma fold_AddAction_fields: "fold AddAction as s = s\<lparr>ls_actions := ls_actions (fold AddAction as s)\<rparr>"
proof (induction as arbitrary: s)
  case (Cons a as)
  show ?case using Cons.IH[of "AddAction a s"] by (cases s) (simp add: AddAction_def)
qed simp

text \<open>
  The actions of a light script are ordered as a stable sort by layer and start
  position orders them. A mixer without other effects takes over that order: on a layer, the
  action that starts later lies on top.
\<close>

theorem script_orders_actions:
  "ls_actions (SetActions as s) = sort_key action_key (map (\<lambda>a. a\<lparr>ac_bound := ls_timeline s\<rparr>) as)
   \<and> mx_effects (AddEffectList (Action_class X now) (map Some (ls_actions (SetActions as s))) (Mixer_new retain))
     = map (ec_updateGroup (Action_class X now) Group_new) (ls_actions (SetActions as s))"
proof -
  let ?as = "ls_actions (SetActions as s)" and ?C = "Action_class X now"
  have e: "?as = sort_key action_key (map (\<lambda>a. a\<lparr>ac_bound := ls_timeline s\<rparr>) as)"
    using fold_AddAction[of as "s\<lparr>ls_actions := []\<rparr>"] by (simp add: SetActions_def script.build_sort_key)
  then have "sorted (map action_key ?as)" by simp
  then have "sorted (map (ec_layer ?C) ?as)"
    unfolding sorted_map by (rule sorted_wrt_mono_rel[rotated]) (auto simp: action_key_def Action_class_def)
  then have "sorted (map (ec_layer ?C) (map (ec_updateGroup ?C Group_new) ?as))"
    by (simp add: comp_def actions.layer_updateGroup)
  then have "fold (insert_effect ?C) (map (ec_updateGroup ?C Group_new) ?as) [] = map (ec_updateGroup ?C Group_new) ?as"
    using layers.rebuild_sorted[of ?C "[]"] by simp
  then have "mx_effects (AddEffectList ?C (map Some ?as) (Mixer_new retain)) = map (ec_updateGroup ?C Group_new) ?as"
    using actions.AddEffectList_effects[of X now "map Some ?as" "Mixer_new retain"]
    by (simp add: Mixer_new_def List.map_filter_def comp_def)
  with e show ?thesis by simp
qed

text \<open>
  An action is never active before its start, nor after the end of its effect, nor after its own
  end if it has one.
\<close>

lemma action_window:
  assumes "Action_IsEnabled X now a" "0 \<le> ac_startPosition a"
  shows "ac_startPosition a < now
    \<and> (\<exists>e. ac_effect a = Some e \<and> (fx_getLength X e \<noteq> DBL_INF \<and> 0 \<le> fx_getLength X e \<longrightarrow>
          real_of_int now < real_of_int (ac_startPosition a) + fx_getLength X e))
    \<and> (0 < ac_endPosition a \<longrightarrow> now < ac_endPosition a)"
proof -
  obtain e where e: "ac_effect a = Some e" using assms(1) by (auto simp: Action_IsEnabled_def split: option.splits)
  have now: "ac_startPosition a < now" "now < GetCalculatedEndPosition X a"
    using assms(1) e by (simp_all add: Action_IsEnabled_def IsBetweenStartAndEnd_def)
  have len: "real_of_int (trunc x) \<le> x" if "0 \<le> x" for x using that by (simp add: trunc_nonneg)
  have neg: "trunc x \<le> 0" if "x < 0" for x using that by (simp add: trunc_def ceiling_le_zero)
  have "real_of_int now < real_of_int (ac_startPosition a) + fx_getLength X e"
    if l: "fx_getLength X e \<noteq> DBL_INF" "0 \<le> fx_getLength X e"
  proof (cases "ac_endPosition a < 0 \<or> fx_getLength X e < real_of_int (ac_endPosition a - ac_startPosition a)")
    case True
    then have "now < ac_startPosition a + trunc (fx_getLength X e)"
      using now(2) e l by (simp add: GetCalculatedEndPosition_def)
    then show ?thesis using len[OF l(2)] by linarith
  next
    case False
    then show ?thesis using now(2) e l by (auto simp: GetCalculatedEndPosition_def)
  qed
  moreover have "now < ac_endPosition a" if "0 < ac_endPosition a"
  proof (cases "fx_getLength X e < real_of_int (ac_endPosition a - ac_startPosition a) \<and> fx_getLength X e \<noteq> DBL_INF")
    case True
    then have n: "now < ac_startPosition a + trunc (fx_getLength X e)"
      using now(2) e that by (simp add: GetCalculatedEndPosition_def)
    show ?thesis
    proof (cases "0 \<le> fx_getLength X e")
      case pos: True
      then show ?thesis using n len[OF pos] True by linarith
    next
      case False
      then show ?thesis using n neg[of "fx_getLength X e"] now(1) by linarith
    qed
  next
    case False
    then show ?thesis using now(2) e that by (auto simp: GetCalculatedEndPosition_def Let_def split: if_splits)
  qed
  ultimately show ?thesis using now(1) e by blast
qed


section \<open>Reading what was saved\<close>

text \<open>The effect, and the action, that is read back.\<close>

definition stored :: "'fx animation_effect \<Rightarrow> 'fx \<Rightarrow> 'fx" where
  "stored X e = (case fx_build X (fx_serialize X e (JNode [])) of Built e1 \<Rightarrow> fx_attach X e1 | _ \<Rightarrow> e)"

definition stored_action :: "'fx animation_effect \<Rightarrow> 'fx action \<Rightarrow> 'fx action" where
  "stored_action X a = a\<lparr>ac_effect := map_option (stored X) (ac_effect a)\<rparr>"

lemma stored_action_simps [simp]:
  "ac_base (stored_action X a) = ac_base a" "ac_startPosition (stored_action X a) = ac_startPosition a"
  "ac_endPosition (stored_action X a) = ac_endPosition a" "ac_bound (stored_action X a) = ac_bound a"
  "action_key (stored_action X a) = action_key a"
  by (simp_all add: stored_action_def action_key_def)

definition saved_action :: "('fx \<Rightarrow> bool) \<Rightarrow> 'fx action \<Rightarrow> bool" where
  "saved_action savable a \<longleftrightarrow> eb_layer (ac_base a) < 2 ^ 31 \<and> eb_state (ac_base a) = EnabledState \<and> is_int (ac_startPosition a)
     \<and> is_int (ac_endPosition a) \<and> (0 \<le> ac_endPosition a \<or> ac_endPosition a = -1)
     \<and> (\<forall>e. ac_effect a = Some e \<longrightarrow> savable e)"

text \<open>
  What a script relies on: an effect that can be saved is built from what it wrote, and what is
  built and then connected with the player of an action is like the effect that was saved.
\<close>

locale effect_storage =
  fixes X :: "'fx animation_effect"
    and savable :: "'fx \<Rightarrow> bool"
    and alike :: "'fx \<Rightarrow> 'fx \<Rightarrow> bool"
  assumes build_written: "savable e \<Longrightarrow> \<exists>e1. fx_build X (fx_serialize X e (JNode [])) = Built e1"
    and stored_alike: "savable e \<Longrightarrow> alike e (stored X e)"
begin

lemma action_typed: "json_find ''type'' (Action_Serialize X a (JNode [])) = Some (JString ''huestream.Action'')"
  by (auto simp: Action_Serialize_def serialize_defs Let_def split: option.split)

lemma action_read_back:
  assumes "saved_action savable a"
  shows "Action_Deserialize L X (Action_Serialize X a (JNode []))
    = Some ((stored_action X a)\<lparr>ac_base := (ac_base a)\<lparr>eb_layer := 0\<rparr>, ac_bound := False\<rparr>)"
proof -
  let ?node = "Action_Serialize X a (JNode [])"
  have state: "eb_state (ac_base a) = EnabledState" and ends: "0 \<le> ac_endPosition a \<or> ac_endPosition a = -1"
    and built: "\<And>e. ac_effect a = Some e \<Longrightarrow> \<exists>e1. fx_build X (fx_serialize X e (JNode [])) = Built e1"
    and ints: "is_int (ac_startPosition a)" "is_int (ac_endPosition a)"
    using assms build_written by (auto simp: saved_action_def)
  have attrs: "DeserializeString L ?node ''Name'' [] = eb_name (ac_base a)"
    "DeserializeInt L ?node ''StartPosition'' 0 = ac_startPosition a"
    "DeserializeInt L ?node ''EndPosition'' (-1) = ac_endPosition a"
    "json_find ''Effect'' ?node = map_option (\<lambda>e. fx_serialize X e (JNode [])) (ac_effect a)"
    using ends ints
    by (auto simp: Action_Serialize_def serialize_defs deserialize_defs Let_def split: option.split)
  show ?thesis
    unfolding Action_Deserialize_def attrs
    using state built
    by (cases a; cases "ac_base a"; cases "ac_effect a")
       (auto simp: Action_new_def SetEffect_def Effect_new_def stored_action_def stored_def Let_def)
qed

lemma read_timeline_written:
  assumes "\<forall>a\<in>set as. saved_action savable a \<and> eb_layer (ac_base a) = l"
  shows "read_timeline L X l (map (\<lambda>a. Action_Serialize X a (JNode [])) as) s = Some (fold AddAction (map (stored_action X) as) s)"
  using assms
proof (induction as arbitrary: s)
  case (Cons a as)
  have "AddAction ((stored_action X a)\<lparr>ac_bound := t, ac_base := ac_base a\<lparr>eb_layer := l\<rparr>\<rparr>) s = AddAction (stored_action X a) s" for t s
    using Cons.prems by (cases a; cases "ac_base a") (auto simp: AddAction_def stored_action_def)
  then show ?case
    using Cons by (simp add: DeserializeFromJson_typed AttributeType_def action_typed action_read_back)
qed simp

lemma read_layer_written:
  assumes "\<forall>a\<in>set as. saved_action savable a \<and> eb_layer (ac_base a) = l" "l < 2 ^ 31"
  shows "read_layers L X c (layer_node X l as # ns) s = read_layers L X l ns (fold AddAction (map (stored_action X) as) s)"
proof -
  have "cast_int (int l) = int l" using assms(2) by (intro cast_int_same) (simp add: is_int_def)
  then have "trunc (real l) = int l" "nat (cast_int (int l) mod 2 ^ 32) = l"
    using trunc_of_int[of "int l"] assms(2) by simp_all
  then show ?thesis
    using read_timeline_written[OF assms(1)]
    by (simp add: layer_node_def serialize_defs deserialize_defs IsAttributeSet_def comp_def)
qed

lemma read_layers_written:
  assumes "\<forall>a\<in>set (acc @ as). saved_action savable a" "\<forall>a\<in>set acc. eb_layer (ac_base a) = l" "l < 2 ^ 31"
  shows "read_layers L X c (layer_nodes X l acc as) s = Some (fold AddAction (map (stored_action X) (acc @ as)) s)"
  using assms
proof (induction as arbitrary: acc l c s)
  case Nil
  have "read_layers L X c [layer_node X l acc] s = Some (fold AddAction (map (stored_action X) acc) s)"
    using read_layer_written[of acc l L c "[]" s] Nil by simp
  then show ?case by simp
next
  case (Cons a as)
  show ?case
  proof (cases "eb_layer (ac_base a) = l")
    case True
    then show ?thesis using Cons.IH[of "acc @ [a]" l c s] Cons.prems by simp
  next
    case False
    let ?l = "eb_layer (ac_base a)"
    have "?l < 2 ^ 31" using Cons.prems(1) by (simp add: saved_action_def)
    then have rest: "read_layers L X c' (layer_nodes X ?l [a] as) s' = Some (fold AddAction (map (stored_action X) (a # as)) s')" for c' s'
      using Cons.IH[of "[a]" ?l c' s'] Cons.prems(1) by simp
    have "read_layers L X c (layer_node X l acc # layer_nodes X ?l [a] as) s
        = read_layers L X l (layer_nodes X ?l [a] as) (fold AddAction (map (stored_action X) acc) s)"
      using Cons.prems by (intro read_layer_written) auto
    then show ?thesis using False rest by (simp add: Let_def)
  qed
qed

lemma locations_read_back:
  "json_find n node = Some (JArray (map (\<lambda>l. Location_Serialize l (JNode [])) ls)) \<Longrightarrow>
   DeserializeList L node n ''huestream.Location''
     (\<lambda>m. Some (Location_Deserialize L m \<lparr>loc_x = 0, loc_y = 0, loc_z = 0\<rparr>)) = Some ls"
  using DeserializeList_written[of n node Location_Serialize ls "''huestream.Location''"
    "\<lambda>m. Some (Location_Deserialize L m \<lparr>loc_x = 0, loc_y = 0, loc_z = 0\<rparr>)" id L]
  by (simp add: Location_Serialize_def Location_Deserialize_def serialize_defs deserialize_defs)

lemma script_read_back:
  assumes "\<forall>a\<in>set (ls_actions s). saved_action savable a" "sorted (map action_key (ls_actions s))" "is_int (ls_length s)"
  shows "LightScript_Deserialize L X (LightScript_Serialize X s (JNode [])) (LightScript_new [] 0 [])
    = Some (BindTimeline False (s\<lparr>ls_actions := map (stored_action X) (ls_actions s)\<rparr>))"
proof -
  let ?node = "LightScript_Serialize X s (JNode [])"
  let ?as = "map (stored_action X) (ls_actions s)"
  let ?s1 = "(LightScript_new (ls_name s) (ls_length s) (ls_idealSetup s)) :: 'fx light_script"
  have layers: "read_layers L X 0 (layer_nodes X 0 [] (ls_actions s)) ?s1 = Some (fold AddAction ?as ?s1)"
    using read_layers_written[of "[]" "ls_actions s" 0 L 0 ?s1] assms(1) by simp
  have ordered: "sorted (map action_key ([] @ map (\<lambda>a. a\<lparr>ac_bound := False\<rparr>) ?as))"
    using assms(2) by (simp add: comp_def)
  have "ls_actions (fold AddAction ?as ?s1) = map (\<lambda>a. a\<lparr>ac_bound := False\<rparr>) ?as"
    using fold_AddAction[of ?as ?s1] script.rebuild_sorted[OF ordered] by (simp add: LightScript_new_def)
  then have result: "fold AddAction ?as ?s1 = BindTimeline False (s\<lparr>ls_actions := ?as\<rparr>)"
    using fold_AddAction_fields[of ?as ?s1] by (cases s) (simp add: LightScript_new_def BindTimeline_def)
  have places: "DeserializeList L ?node ''IdealSetup'' ''huestream.Location''
      (\<lambda>m. Some (Location_Deserialize L m \<lparr>loc_x = 0, loc_y = 0, loc_z = 0\<rparr>)) = Some (ls_idealSetup s)"
  proof (cases "ls_idealSetup s = []")
    case True
    then show ?thesis by (simp add: LightScript_Serialize_def serialize_defs DeserializeList_def Let_def)
  next
    case False
    then show ?thesis by (intro locations_read_back) (simp add: LightScript_Serialize_def serialize_defs Let_def comp_def)
  qed
  have zero: "cast_int 0 = 0" by (simp add: cast_int_def)
  have attrs: "DeserializeInt L ?node ''VerionMajor'' 0 = 0" "DeserializeString L ?node ''Name'' [] = ls_name s"
    "DeserializeInt L ?node ''Length'' 0 = ls_length s"
    "json_find ''layers'' ?node = Some (JArray (layer_nodes X 0 [] (ls_actions s)))"
    using assms(3) zero by (simp_all add: LightScript_Serialize_def serialize_defs deserialize_defs Let_def)
  show ?thesis
    unfolding LightScript_Deserialize_def places attrs using layers result
    by (simp add: LightScript_new_def)
qed

lemma actions_alike:
  "\<forall>a\<in>set (ls_actions s). saved_action savable a \<Longrightarrow>
   list_all2 (\<lambda>a b. rel_option alike (ac_effect a) (ac_effect b)) (ls_actions s) (map (stored_action X) (ls_actions s))"
  using stored_alike by (auto simp: list_all2_conv_all_nth stored_action_def saved_action_def option.rel_map all_set_conv_all_nth
      intro!: option.rel_refl_strong)

end

end
