(* ===== verification/EffectJson.thy ===== *)
theory EffectJson imports Effects LightScript "HOL-Library.Monad_Syntax" begin

text \<open>
  Saving of effects: \<open>Serialize\<close> and \<open>Deserialize\<close> of the classes of \<open>huestream/effect/effects\<close> and of
  \<open>huestream/effect/animation/data/Channel\<close>. Reading makes new animation objects; what refers to an
  attribute that is not set keeps its old object. The layer of an effect is not saved.
\<close>

section \<open>Writing\<close>

fun color_Serialize :: "animation color_animations \<Rightarrow> json \<Rightarrow> json" where
  "color_Serialize (ColorAnimations r g b a i bound) node =
     (let n1 = SerializeAttribute ''R'' (Some (Animation_Serialize r)) node;
          n2 = SerializeAttribute ''G'' (Some (Animation_Serialize g)) n1;
          n3 = SerializeAttribute ''B'' (Some (Animation_Serialize b)) n2;
          n4 = SerializeAttribute ''A'' (Some (Animation_Serialize a)) n3;
          n5 = SerializeAttribute ''I'' (map_option Animation_Serialize i) n4
      in SerializeValue ''OpacityBoundToIntensity'' (JBool bound) n5)"

fun Channel_Serialize :: "animation channel \<Rightarrow> json \<Rightarrow> json" where
  "Channel_Serialize (Channel position r g b a) node =
     (let n0 = Serializable_Serialize ''huestream.Channel'' node;
          n1 = SerializeAttribute ''Position'' (Some (Location_Serialize position)) n0;
          n2 = SerializeAttribute ''R'' (Some (Animation_Serialize r)) n1;
          n3 = SerializeAttribute ''G'' (Some (Animation_Serialize g)) n2;
          n4 = SerializeAttribute ''B'' (Some (Animation_Serialize b)) n3
      in SerializeAttribute ''A'' (Some (Animation_Serialize a)) n4)"

definition order_names :: "(IterationOrder \<times> string) list" where
  "order_names = [(IterationOrderLeftRight, ''leftright''), (IterationOrderFrontBack, ''frontback''),
     (IterationOrderTopBottom, ''topbottom''), (IterationOrderClockwise, ''clockwise''), (IterationOrderInOut, ''inout''),
     (IterationOrderRandom, ''random''), (IterationOrderGroup, ''group'')]"

definition mode_names :: "(IterationMode \<times> string) list" where
  "mode_names = [(IterationModeSingle, ''single''), (IterationModeCycle, ''cycle''), (IterationModeBounce, ''bounce'')]"

definition SerializeOrder :: "IterationOrder \<Rightarrow> json \<Rightarrow> json" where
  "SerializeOrder order node =
     SerializeValue ''Order'' (JString (case map_of order_names order of Some s \<Rightarrow> s | None \<Rightarrow> ''default'')) node"

definition SerializeMode :: "IterationMode \<Rightarrow> json \<Rightarrow> json" where
  "SerializeMode mode node =
     SerializeValue ''Mode'' (JString (case map_of mode_names mode of Some s \<Rightarrow> s | None \<Rightarrow> ''default'')) node"

fun type_name :: "'a effect_kind \<Rightarrow> string" where
  "type_name (AreaEffect c areas) = ''huestream.AreaEffect''"
| "type_name (LightSourceEffect c x y radius) = ''huestream.LightSourceEffect''"
| "type_name (SphereLightSourceEffect c x y z radius) = ''huestream.SphereLightSourceEffect''"
| "type_name (RadialEffect c angle) = ''huestream.RadialEffect''"
| "type_name (LightIteratorEffect c order mode offset preamble invertOrder) = ''huestream.LightIteratorEffect''"
| "type_name (MultiChannelEffect channels) = ''huestream.MultiChannelEffect''"

fun kind_Serialize :: "animation effect_kind \<Rightarrow> json \<Rightarrow> json" where
  "kind_Serialize (AreaEffect c areas) node = SerializeList ''Areas'' (map Area_Serialize areas) (color_Serialize c node)"
| "kind_Serialize (LightSourceEffect c x y radius) node =
     SerializeAttribute ''Radius'' (Some (Animation_Serialize radius)) (SerializeAttribute ''Y'' (Some (Animation_Serialize y))
       (SerializeAttribute ''X'' (Some (Animation_Serialize x)) (color_Serialize c node)))"
| "kind_Serialize (SphereLightSourceEffect c x y z radius) node =
     SerializeAttribute ''Radius'' (Some (Animation_Serialize radius)) (SerializeAttribute ''Z'' (Some (Animation_Serialize z))
       (SerializeAttribute ''Y'' (Some (Animation_Serialize y)) (SerializeAttribute ''X'' (Some (Animation_Serialize x))
         (color_Serialize c node))))"
| "kind_Serialize (RadialEffect c angle) node = SerializeValue ''Angle'' (JNumber angle) (color_Serialize c node)"
| "kind_Serialize (LightIteratorEffect c order mode offset preamble invertOrder) node =
     SerializeValue ''InvertOrder'' (JBool invertOrder) (SerializeValue ''Preamble'' (JBool preamble)
       (SerializeValue ''Offset'' (JNumber offset) (SerializeMode mode (SerializeOrder order (color_Serialize c node)))))"
| "kind_Serialize (MultiChannelEffect channels) node = SerializeList ''Channels'' (map Channel_Serialize channels) node"

definition parameters :: "light_effect \<Rightarrow> animation effect_kind" where
  "parameters e = map_effect_kind (\<lambda>a. ef_objects e ! a) (ef_kind e)"

definition LightEffect_Serialize :: "light_effect \<Rightarrow> json \<Rightarrow> json" where
  "LightEffect_Serialize e node =
     (let n1 = SerializeValue ''Name'' (JString (eb_name (ef_base e))) (Serializable_Serialize (type_name (ef_kind e)) node);
          n2 = SerializeAttribute ''Speed'' (Some (Animation_Serialize (ef_objects e ! ef_speed e))) n1
      in kind_Serialize (parameters e) n2)"

section \<open>Reading\<close>

text \<open>
  \<open>DeserializeAttribute<Animation>\<close>: the new pointer and the objects. The reading functions are
  \<open>None\<close> when an object of another class stands where an animation, a channel or an area is needed.
\<close>

definition read_animation ::
  "json_lib \<Rightarrow> effect_env \<Rightarrow> json \<Rightarrow> string \<Rightarrow> nat \<Rightarrow> animation list \<Rightarrow> (nat \<times> animation list) option" where
  "read_animation L E node name old st = (case json_find name node of
      None \<Rightarrow> Some (old, st)
    | Some c \<Rightarrow> (case Animation_Build L (ev_draws E (length st)) c of
                  Built a \<Rightarrow> Some (length st, st @ [a]) | NullPtr \<Rightarrow> Some (old, st) | OtherClass \<Rightarrow> None))"

definition read_intensity ::
  "json_lib \<Rightarrow> effect_env \<Rightarrow> json \<Rightarrow> nat option \<Rightarrow> animation list \<Rightarrow> (nat option \<times> animation list) option" where
  "read_intensity L E node old st = (case json_find ''I'' node of
      None \<Rightarrow> Some (old, st)
    | Some c \<Rightarrow> (case Animation_Build L (ev_draws E (length st)) c of
                  Built a \<Rightarrow> Some (Some (length st), st @ [a]) | NullPtr \<Rightarrow> Some (old, st) | OtherClass \<Rightarrow> None))"

definition color_Deserialize ::
  "json_lib \<Rightarrow> effect_env \<Rightarrow> json \<Rightarrow> nat color_animations \<Rightarrow> animation list \<Rightarrow> (nat color_animations \<times> animation list) option" where
  "color_Deserialize L E node c st = do {
     (r, st) \<leftarrow> read_animation L E node ''R'' (col_r c) st;
     (g, st) \<leftarrow> read_animation L E node ''G'' (col_g c) st;
     (b, st) \<leftarrow> read_animation L E node ''B'' (col_b c) st;
     (a, st) \<leftarrow> read_animation L E node ''A'' (col_a c) st;
     (i, st) \<leftarrow> read_intensity L E node (col_i c) st;
     Some (ColorAnimations r g b a i (DeserializeBool L node ''OpacityBoundToIntensity'' False), st)
   }"

text \<open>A channel is made with four constant animations, at the origin.\<close>

definition Channel_Deserialize ::
  "json_lib \<Rightarrow> effect_env \<Rightarrow> json \<Rightarrow> animation list \<Rightarrow> (nat channel \<times> animation list) option" where
  "Channel_Deserialize L E node st0 =
     (let n = length st0
      in do {
        position \<leftarrow> read_location L node ''Position'';
        (r, st) \<leftarrow> read_animation L E node ''R'' n (st0 @ replicate 4 (steady 1));
        (g, st) \<leftarrow> read_animation L E node ''G'' (n + 1) st;
        (b, st) \<leftarrow> read_animation L E node ''B'' (n + 2) st;
        (a, st) \<leftarrow> read_animation L E node ''A'' (n + 3) st;
        Some (Channel position r g b a, st)
      })"

fun read_channels ::
  "json_lib \<Rightarrow> effect_env \<Rightarrow> json list \<Rightarrow> animation list \<Rightarrow> (nat channel list \<times> animation list) option" where
  "read_channels L E [] st = Some ([], st)"
| "read_channels L E (item # items) st =
     (case DeserializeFromJson L ''huestream.Channel'' (\<lambda>node. Channel_Deserialize L E node st) item of
        Built (Some (c, st1)) \<Rightarrow> map_option (apfst ((#) c)) (read_channels L E items st1)
      | _ \<Rightarrow> None)"

definition DeserializeOrder :: "json_lib \<Rightarrow> json \<Rightarrow> IterationOrder" where
  "DeserializeOrder L node = (case map_of (map prod.swap order_names) (DeserializeString L node ''Order'' ''default'') of
      Some order \<Rightarrow> order | None \<Rightarrow> IterationOrderGroup)"

definition DeserializeMode :: "json_lib \<Rightarrow> json \<Rightarrow> IterationMode" where
  "DeserializeMode L node = (case map_of (map prod.swap mode_names) (DeserializeString L node ''Mode'' ''default'') of
      Some mode \<Rightarrow> mode | None \<Rightarrow> IterationModeCycle)"

fun kind_Deserialize ::
  "json_lib \<Rightarrow> effect_env \<Rightarrow> json \<Rightarrow> nat effect_kind \<Rightarrow> animation list \<Rightarrow> (nat effect_kind \<times> animation list) option" where
  "kind_Deserialize L E node (AreaEffect c areas) st = do {
     (c, st) \<leftarrow> color_Deserialize L E node c st;
     areas \<leftarrow> AreaList_Deserialize L node ''Areas'';
     Some (AreaEffect c areas, st)
   }"
| "kind_Deserialize L E node (LightSourceEffect c x y radius) st = do {
     (c, st) \<leftarrow> color_Deserialize L E node c st;
     (x, st) \<leftarrow> read_animation L E node ''X'' x st;
     (y, st) \<leftarrow> read_animation L E node ''Y'' y st;
     (radius, st) \<leftarrow> read_animation L E node ''Radius'' radius st;
     Some (LightSourceEffect c x y radius, st)
   }"
| "kind_Deserialize L E node (SphereLightSourceEffect c x y z radius) st = do {
     (c, st) \<leftarrow> color_Deserialize L E node c st;
     (x, st) \<leftarrow> read_animation L E node ''X'' x st;
     (y, st) \<leftarrow> read_animation L E node ''Y'' y st;
     (z, st) \<leftarrow> read_animation L E node ''Z'' z st;
     (radius, st) \<leftarrow> read_animation L E node ''Radius'' radius st;
     Some (SphereLightSourceEffect c x y z radius, st)
   }"
| "kind_Deserialize L E node (RadialEffect c angle) st = do {
     (c, st) \<leftarrow> color_Deserialize L E node c st;
     Some (RadialEffect c (DeserializeFloat L node ''Angle'' 0), st)
   }"
| "kind_Deserialize L E node (LightIteratorEffect c order mode offset preamble invertOrder) st = do {
     (c, st) \<leftarrow> color_Deserialize L E node c st;
     Some (LightIteratorEffect c (DeserializeOrder L node) (DeserializeMode L node) (DeserializeFloat L node ''Offset'' 0)
       (DeserializeBool L node ''Preamble'' True) (DeserializeBool L node ''InvertOrder'' False), st)
   }"
| "kind_Deserialize L E node (MultiChannelEffect channels) st = do {
     (channels, st) \<leftarrow> (case json_find ''Channels'' node of
        None \<Rightarrow> Some ([], st) | Some listNode \<Rightarrow> read_channels L E (json_children listNode) st);
     Some (MultiChannelEffect channels, st)
   }"

definition LightEffect_Deserialize :: "json_lib \<Rightarrow> effect_env \<Rightarrow> json \<Rightarrow> light_effect \<Rightarrow> light_effect option" where
  "LightEffect_Deserialize L E node e = do {
     (speed, st) \<leftarrow> read_animation L E node ''Speed'' (ef_speed e) (ef_objects e);
     (kind, st) \<leftarrow> kind_Deserialize L E node (ef_kind e) st;
     Some (Effect_AssignLights (e\<lparr>ef_base := (ef_base e)\<lparr>eb_name := DeserializeString L node ''Name'' []\<rparr>,
       ef_objects := st, ef_speed := speed, ef_kind := kind\<rparr>))
   }"

text \<open>The effects that \<open>ObjectBuilder\<close> can make, as its constructors without arguments make them.\<close>

definition default_effects :: "(string \<times> light_effect) list" where
  "default_effects = [(''huestream.AreaEffect'', AreaEffect_new [] 0 False),
     (''huestream.LightSourceEffect'', LightSourceEffect_new [] 0),
     (''huestream.SphereLightSourceEffect'', SphereLightSourceEffect_new [] 0),
     (''huestream.LightIteratorEffect'', LightIteratorEffect_new [] 0 IterationOrderGroup IterationModeCycle 0 True False),
     (''huestream.MultiChannelEffect'', MultiChannelEffect_new [] 0)]"

definition LightEffect_Build :: "json_lib \<Rightarrow> effect_env \<Rightarrow> json \<Rightarrow> light_effect built" where
  "LightEffect_Build L E node =
     (if \<not> IsAttributeSet node AttributeType then NullPtr
      else case map_of default_effects (GetTypeFromJson L node) of
             Some e \<Rightarrow> (case LightEffect_Deserialize L E node e of Some e1 \<Rightarrow> Built e1 | None \<Rightarrow> OtherClass)
           | None \<Rightarrow> (if GetTypeFromJson L node \<in> set known_types then OtherClass else NullPtr))"

text \<open>
  An effect of an action: it is connected with the action's player and enabled, and its position is
  set through that player.
\<close>

definition set_position :: "int \<Rightarrow> light_effect \<Rightarrow> light_effect" where
  "set_position position e = (case ef_player e of
      PositionPlayer p \<Rightarrow> e\<lparr>ef_player := PositionPlayer (ActionPlayer_SetPosition position p)\<rparr> | ClockPlayer p \<Rightarrow> e)"

definition LightEffect_in_action :: "json_lib \<Rightarrow> effect_env \<Rightarrow> light_effect animation_effect" where
  "LightEffect_in_action L E =
     \<lparr>fx_attach = (\<lambda>e. attempt (LightEffect_Enable E) (Effect_SetPlayer (PositionPlayer ActionPlayer_new) e)),
      fx_getLength = Effect_GetLength, fx_isEnabled = (\<lambda>e. Effect_IsEnabled (ef_base e)), fx_setPosition = set_position,
      fx_updateGroup = (\<lambda>g. attempt (LightEffect_UpdateGroup E g)), fx_render = attempt (LightEffect_Render E),
      fx_getColor = LightEffect_GetColor, fx_serialize = LightEffect_Serialize, fx_build = LightEffect_Build L E\<rparr>"

section \<open>Reading what was written\<close>

definition writable :: "animation \<Rightarrow> bool" where
  "writable a \<longleftrightarrow> plain a \<and> storable a"

text \<open>A pointer to an animation that shows the same as \<open>a\<close>.\<close>

definition refers :: "animation list \<Rightarrow> animation \<Rightarrow> nat \<Rightarrow> bool" where
  "refers st a x \<longleftrightarrow> x < length st \<and> shows_same a (st ! x)"

lemma refers_prefix: "prefix st st1 \<Longrightarrow> refers st a x \<Longrightarrow> refers st1 a x"
  by (auto simp: refers_def prefix_def nth_append)

text \<open>A reading that succeeds with a result for which \<open>R\<close> holds, and only adds objects.\<close>

definition reads :: "('a \<times> animation list) option \<Rightarrow> animation list \<Rightarrow> (animation list \<Rightarrow> 'a \<Rightarrow> bool) \<Rightarrow> bool" where
  "reads r st R \<longleftrightarrow> (\<exists>x st1. r = Some (x, st1) \<and> prefix st st1 \<and> R st1 x)"

lemma reads_bind:
  assumes "reads r st R" "\<And>x st1. prefix st st1 \<Longrightarrow> R st1 x \<Longrightarrow> reads (f x st1) st1 Q"
  shows "reads (r \<bind> (\<lambda>(x, st). f x st)) st Q"
proof -
  obtain x st1 where x: "r = Some (x, st1)" "prefix st st1" "R st1 x" using assms(1) by (auto simp: reads_def)
  then show ?thesis using assms(2)[OF x(2,3)] by (auto simp: reads_def intro: prefix_order.trans)
qed

lemma reads_return: "R st x \<Longrightarrow> reads (Some (x, st)) st R"
  by (simp add: reads_def)

lemma read_written:
  assumes "json_find name node = Some (Animation_Serialize a (JNode []))" "writable a"
  shows "reads (read_animation L E node name old st) st (\<lambda>st1. refers st1 a)"
proof -
  obtain b where "Animation_Build L (ev_draws E (length st)) (Animation_Serialize a (JNode [])) = Built b" "shows_same a b"
    using built_back assms(2) unfolding writable_def by blast
  then show ?thesis using assms(1) by (simp add: read_animation_def refers_def reads_def)
qed

lemma intensity_written:
  assumes "json_find ''I'' node = map_option (\<lambda>i. Animation_Serialize i (JNode [])) i" "\<forall>a. i = Some a \<longrightarrow> writable a" "old = None"
  shows "reads (read_intensity L E node old st) st (\<lambda>st1. rel_option (refers st1) i)"
proof (cases i)
  case (Some a)
  obtain b where "Animation_Build L (ev_draws E (length st)) (Animation_Serialize a (JNode [])) = Built b" "shows_same a b"
    using built_back assms(2) Some unfolding writable_def by blast
  then show ?thesis using assms(1) Some by (simp add: read_intensity_def refers_def reads_def)
qed (use assms in \<open>simp add: read_intensity_def reads_def\<close>)

lemma rel_option_prefix: "prefix st st1 \<Longrightarrow> rel_option (refers st) i x \<Longrightarrow> rel_option (refers st1) i x"
  by (erule option.rel_mono_strong) (rule refers_prefix)

lemma rel_colors_prefix: "prefix st st1 \<Longrightarrow> rel_color_animations (refers st) c d \<Longrightarrow> rel_color_animations (refers st1) c d"
  by (erule color_animations.rel_mono_strong) (rule refers_prefix)

lemma rel_channel_prefix: "prefix st st1 \<Longrightarrow> rel_channel (refers st) c d \<Longrightarrow> rel_channel (refers st1) c d"
  by (erule channel.rel_mono_strong) (rule refers_prefix)

lemmas refer_prefix = refers_prefix rel_option_prefix rel_colors_prefix rel_channel_prefix

abbreviation animation_node :: "animation \<Rightarrow> json" where
  "animation_node a \<equiv> Animation_Serialize a (JNode [])"

definition color_entries :: "animation color_animations \<Rightarrow> (string \<times> json) list" where
  "color_entries c = [(''R'', animation_node (col_r c)), (''G'', animation_node (col_g c)), (''B'', animation_node (col_b c)),
     (''A'', animation_node (col_a c))] @ (case col_i c of None \<Rightarrow> [] | Some i \<Rightarrow> [(''I'', animation_node i)])
     @ [(''OpacityBoundToIntensity'', JBool (opacityBoundToIntensity c))]"

lemma color_Serialize_eq: "color_Serialize c (JNode kvs) = JNode (kvs @ color_entries c)"
  by (cases c) (simp add: color_entries_def serialize_defs Let_def split: option.split)

lemma color_entries_keys: "map_of (color_entries c) k = None \<longleftrightarrow>
    k \<notin> {''R'', ''G'', ''B'', ''A'', ''OpacityBoundToIntensity''} \<and> (k = ''I'' \<longrightarrow> col_i c = None)"
  by (auto simp: color_entries_def split: option.splits)

text \<open>The attributes before the colours are those of every effect.\<close>

definition effect_entries :: "light_effect \<Rightarrow> (string \<times> json) list" where
  "effect_entries e = [(AttributeType, JString (type_name (ef_kind e))), (''Name'', JString (eb_name (ef_base e))),
     (''Speed'', animation_node (ef_objects e ! ef_speed e))]"

lemma colors_written:
  assumes "node = JNode (effect_entries e @ color_entries c @ own)" "\<forall>x\<in>set_color_animations c. writable x" "col_i c0 = None"
    "map_of own ''I'' = None"
  shows "reads (color_Deserialize L E node c0 st) st (\<lambda>st1. rel_color_animations (refers st1) c)"
proof -
  obtain r g b a i bound where c: "c = ColorAnimations r g b a i bound" by (cases c)
  have found: "json_find ''R'' node = Some (animation_node r)" "json_find ''G'' node = Some (animation_node g)"
    "json_find ''B'' node = Some (animation_node b)" "json_find ''A'' node = Some (animation_node a)"
    "json_find ''I'' node = map_option animation_node i" "DeserializeBool L node ''OpacityBoundToIntensity'' False = bound"
    using assms(1,4)
    by (auto simp: c effect_entries_def color_entries_def AttributeType_def DeserializeBool_def split: option.splits)
  have w: "writable r" "writable g" "writable b" "writable a" "\<forall>x. i = Some x \<longrightarrow> writable x" using assms(2) c by auto
  show ?thesis
    unfolding color_Deserialize_def c
    by (intro reads_bind[OF read_written[OF found(1) w(1)]] reads_bind[OF read_written[OF found(2) w(2)]]
          reads_bind[OF read_written[OF found(3) w(3)]] reads_bind[OF read_written[OF found(4) w(4)]]
          reads_bind[OF intensity_written[OF found(5) w(5) assms(3)]] reads_return)
       (simp add: found(6), blast intro: refer_prefix)
qed

fun own_entries :: "animation effect_kind \<Rightarrow> (string \<times> json) list" where
  "own_entries (AreaEffect c areas) = [(''Areas'', JArray (map (\<lambda>a. Area_Serialize a (JNode [])) areas))]"
| "own_entries (LightSourceEffect c x y radius) =
     [(''X'', animation_node x), (''Y'', animation_node y), (''Radius'', animation_node radius)]"
| "own_entries (SphereLightSourceEffect c x y z radius) =
     [(''X'', animation_node x), (''Y'', animation_node y), (''Z'', animation_node z), (''Radius'', animation_node radius)]"
| "own_entries (RadialEffect c angle) = [(''Angle'', JNumber angle)]"
| "own_entries (LightIteratorEffect c order mode offset preamble invertOrder) =
     [(''Order'', JString (the (map_of order_names order))), (''Mode'', JString (the (map_of mode_names mode))),
      (''Offset'', JNumber offset), (''Preamble'', JBool preamble), (''InvertOrder'', JBool invertOrder)]"
| "own_entries (MultiChannelEffect channels) = [(''Channels'', JArray (map (\<lambda>c. Channel_Serialize c (JNode [])) channels))]"

fun kind_colors :: "'a effect_kind \<Rightarrow> 'a color_animations option" where
  "kind_colors (MultiChannelEffect channels) = None"
| "kind_colors (AreaEffect c areas) = Some c"
| "kind_colors (LightSourceEffect c x y radius) = Some c"
| "kind_colors (SphereLightSourceEffect c x y z radius) = Some c"
| "kind_colors (RadialEffect c angle) = Some c"
| "kind_colors (LightIteratorEffect c order mode offset preamble invertOrder) = Some c"

lemma kind_Serialize_eq:
  "kind_Serialize k (JNode kvs) = JNode (kvs @ (case kind_colors k of Some c \<Rightarrow> color_entries c | None \<Rightarrow> []) @ own_entries k)"
proof (cases k)
  case (LightIteratorEffect c order mode offset preamble invertOrder)
  show ?thesis unfolding LightIteratorEffect
    by (cases order; cases mode)
       (simp_all add: color_Serialize_eq serialize_defs SerializeOrder_def SerializeMode_def order_names_def mode_names_def)
qed (simp_all add: color_Serialize_eq serialize_defs comp_def)

lemma LightEffect_Serialize_eq:
  "LightEffect_Serialize e (JNode []) = JNode (effect_entries e
     @ (case kind_colors (parameters e) of Some c \<Rightarrow> color_entries c | None \<Rightarrow> []) @ own_entries (parameters e))"
  by (simp add: LightEffect_Serialize_def kind_Serialize_eq serialize_defs effect_entries_def Let_def)

text \<open>A default effect of the same class has no intensity.\<close>

lemma default_kind:
  assumes "map_of default_effects (type_name k) = Some e0"
  shows "type_name (ef_kind e0) = type_name k" "case kind_colors (ef_kind e0) of Some c0 \<Rightarrow> col_i c0 = None | None \<Rightarrow> True"
  using assms
  by (cases k; auto simp: default_effects_def AreaEffect_new_def LightSourceEffect_new_def SphereLightSourceEffect_new_def
      LightIteratorEffect_new_def MultiChannelEffect_new_def AnimationEffect_new_def white_def)+

lemma channel_written:
  assumes "\<forall>a\<in>set_channel c. writable a"
  shows "reads (Channel_Deserialize L E (Channel_Serialize c (JNode [])) st) st (\<lambda>st1. rel_channel (refers st1) c)"
proof -
  obtain position r g b a where c: "c = Channel position r g b a" by (cases c)
  let ?node = "Channel_Serialize c (JNode [])"
  have found: "json_find ''R'' ?node = Some (animation_node r)" "json_find ''G'' ?node = Some (animation_node g)"
    "json_find ''B'' ?node = Some (animation_node b)" "json_find ''A'' ?node = Some (animation_node a)"
    "json_find ''Position'' ?node = Some (Location_Serialize position (JNode []))"
    by (simp_all add: c serialize_defs Let_def)
  have w: "writable r" "writable g" "writable b" "writable a" using assms c by auto
  have "reads (Channel_Deserialize L E ?node st) (st @ replicate 4 (steady 1)) (\<lambda>st1. rel_channel (refers st1) c)"
    unfolding Channel_Deserialize_def Let_def location_read[OF found(5)] bind.bind_lunit
    by (intro reads_bind[OF read_written[OF found(1) w(1)]] reads_bind[OF read_written[OF found(2) w(2)]]
          reads_bind[OF read_written[OF found(3) w(3)]] reads_bind[OF read_written[OF found(4) w(4)]] reads_return)
       (simp add: c, blast intro: refer_prefix)
  then show ?thesis by (auto simp: reads_def prefix_def)
qed

lemma channels_written:
  assumes "\<forall>c\<in>set cs. \<forall>a\<in>set_channel c. writable a"
  shows "reads (read_channels L E (map (\<lambda>c. Channel_Serialize c (JNode [])) cs) st) st
    (\<lambda>st1. list_all2 (rel_channel (refers st1)) cs)"
  using assms
proof (induction cs arbitrary: st)
  case (Cons c cs)
  obtain d st1 where d: "Channel_Deserialize L E (Channel_Serialize c (JNode [])) st = Some (d, st1)" "prefix st st1"
    "rel_channel (refers st1) c d"
    using channel_written[of c L E st] Cons.prems by (auto simp: reads_def)
  obtain ds st2 where ds: "read_channels L E (map (\<lambda>c. Channel_Serialize c (JNode [])) cs) st1 = Some (ds, st2)" "prefix st1 st2"
    "list_all2 (rel_channel (refers st2)) cs ds"
    using Cons.IH[of st1] Cons.prems by (auto simp: reads_def)
  have t: "json_find AttributeType (Channel_Serialize c (JNode [])) = Some (JString ''huestream.Channel'')"
    by (cases c) (simp add: serialize_defs Let_def)
  have "read_channels L E (map (\<lambda>c. Channel_Serialize c (JNode [])) (c # cs)) st = Some (d # ds, st2)"
    using d(1) ds(1) by (simp add: DeserializeFromJson_typed[OF t])
  then show ?case
    using rel_channel_prefix[OF ds(2) d(3)] ds(3) d(2) ds(2) by (auto simp: reads_def intro: prefix_order.trans)
qed (simp add: reads_def)

lemma order_mode_read:
  "json_find ''Order'' node = Some (JString (the (map_of order_names order))) \<Longrightarrow> DeserializeOrder L node = order"
  "json_find ''Mode'' node = Some (JString (the (map_of mode_names mode))) \<Longrightarrow> DeserializeMode L node = mode"
  by (cases order; simp add: DeserializeOrder_def DeserializeString_def order_names_def)
     (cases mode; simp add: DeserializeMode_def DeserializeString_def mode_names_def)

text \<open>The class's own attributes are found behind those of the base classes.\<close>

lemma own_found:
  assumes "map_of (own_entries k) name = Some j"
  shows "json_find name (JNode (effect_entries e @ (case kind_colors k of Some c \<Rightarrow> color_entries c | None \<Rightarrow> []) @ own_entries k)) = Some j"
proof -
  have "name \<notin> {''type'', ''Name'', ''Speed'', ''R'', ''G'', ''B'', ''A'', ''I'', ''OpacityBoundToIntensity''}"
    using assms by (cases k) (auto split: if_splits)
  then have "map_of (effect_entries e) name = None" "\<And>c. map_of (color_entries c) name = None"
    by (auto simp: effect_entries_def AttributeType_def color_entries_def split: option.split)
  then show ?thesis using assms by (auto simp: map_add_def split: option.split)
qed

lemma kind_written:
  assumes node: "node = JNode (effect_entries e @ (case kind_colors k of Some c \<Rightarrow> color_entries c | None \<Rightarrow> []) @ own_entries k)"
    and w: "\<forall>x\<in>set_effect_kind k. writable x"
    and k0: "type_name k0 = type_name k" "case kind_colors k0 of Some c0 \<Rightarrow> col_i c0 = None | None \<Rightarrow> True"
  shows "reads (kind_Deserialize L E node k0 st) st (\<lambda>st1. rel_effect_kind (refers st1) k)"
proof -
  note found = own_found[of k _ _ e, folded node]
  have colors: "reads (color_Deserialize L E node c0 st) st (\<lambda>st1. rel_color_animations (refers st1) c)"
    if "kind_colors k = Some c" "col_i c0 = None" "\<forall>x\<in>set_color_animations c. writable x" for c c0 st
  proof -
    have "map_of (own_entries k) ''I'' = None" by (cases k) auto
    then show ?thesis using colors_written[of node e c "own_entries k" c0 L E st] node that by simp
  qed
  show ?thesis
  proof (cases k)
    case (AreaEffect c areas)
    then obtain c0 areas0 where k0': "k0 = AreaEffect c0 areas0" "col_i c0 = None" using k0 by (cases k0) auto
    have "AreaList_Deserialize L node ''Areas'' = Some areas" by (rule areas_read_back[OF found]) (simp add: AreaEffect)
    then show ?thesis
      unfolding k0'(1) kind_Deserialize.simps
      by (intro reads_bind[OF colors[OF _ k0'(2), of c]]) (use w in \<open>auto simp: AreaEffect reads_def\<close>)
  next
    case (LightSourceEffect c x y radius)
    then obtain c0 x0 y0 radius0 where k0': "k0 = LightSourceEffect c0 x0 y0 radius0" "col_i c0 = None" using k0 by (cases k0) auto
    have ws: "\<forall>x\<in>set_color_animations c. writable x" "writable x" "writable y" "writable radius" "kind_colors k = Some c"
      using w LightSourceEffect by auto
    have f: "json_find ''X'' node = Some (animation_node x)" "json_find ''Y'' node = Some (animation_node y)"
      "json_find ''Radius'' node = Some (animation_node radius)"
      by (simp_all add: found LightSourceEffect)
    show ?thesis
      unfolding k0'(1) kind_Deserialize.simps LightSourceEffect
      by (intro reads_bind[OF colors[OF ws(5) k0'(2) ws(1)]] reads_bind[OF read_written[OF f(1) ws(2)]]
            reads_bind[OF read_written[OF f(2) ws(3)]] reads_bind[OF read_written[OF f(3) ws(4)]] reads_return)
         (simp, blast intro: refer_prefix)
  next
    case (SphereLightSourceEffect c x y z radius)
    then obtain c0 x0 y0 z0 radius0 where k0': "k0 = SphereLightSourceEffect c0 x0 y0 z0 radius0" "col_i c0 = None"
      using k0 by (cases k0) auto
    have ws: "\<forall>x\<in>set_color_animations c. writable x" "writable x" "writable y" "writable z" "writable radius" "kind_colors k = Some c"
      using w SphereLightSourceEffect by auto
    have f: "json_find ''X'' node = Some (animation_node x)" "json_find ''Y'' node = Some (animation_node y)"
      "json_find ''Z'' node = Some (animation_node z)" "json_find ''Radius'' node = Some (animation_node radius)"
      by (simp_all add: found SphereLightSourceEffect)
    show ?thesis
      unfolding k0'(1) kind_Deserialize.simps SphereLightSourceEffect
      by (intro reads_bind[OF colors[OF ws(6) k0'(2) ws(1)]] reads_bind[OF read_written[OF f(1) ws(2)]]
            reads_bind[OF read_written[OF f(2) ws(3)]] reads_bind[OF read_written[OF f(3) ws(4)]]
            reads_bind[OF read_written[OF f(4) ws(5)]] reads_return)
         (simp, blast intro: refer_prefix)
  next
    case (RadialEffect c angle)
    then obtain c0 angle0 where k0': "k0 = RadialEffect c0 angle0" "col_i c0 = None" using k0 by (cases k0) auto
    have "DeserializeFloat L node ''Angle'' 0 = angle" by (simp add: DeserializeFloat_def found RadialEffect)
    then show ?thesis
      unfolding k0'(1) kind_Deserialize.simps
      by (intro reads_bind[OF colors[OF _ k0'(2), of c]]) (use w in \<open>auto simp: RadialEffect reads_def\<close>)
  next
    case (LightIteratorEffect c order mode offset preamble invertOrder)
    then obtain c0 order0 mode0 offset0 preamble0 invertOrder0 where
      k0': "k0 = LightIteratorEffect c0 order0 mode0 offset0 preamble0 invertOrder0" "col_i c0 = None" using k0 by (cases k0) auto
    have "DeserializeOrder L node = order" "DeserializeMode L node = mode" "DeserializeFloat L node ''Offset'' 0 = offset"
      "DeserializeBool L node ''Preamble'' True = preamble" "DeserializeBool L node ''InvertOrder'' False = invertOrder"
      by (simp_all add: order_mode_read DeserializeFloat_def DeserializeBool_def found LightIteratorEffect)
    then show ?thesis
      unfolding k0'(1) kind_Deserialize.simps
      by (intro reads_bind[OF colors[OF _ k0'(2), of c]]) (use w in \<open>auto simp: LightIteratorEffect reads_def\<close>)
  next
    case (MultiChannelEffect cs)
    obtain cs0 where "k0 = MultiChannelEffect cs0" using k0(1) MultiChannelEffect by (cases k0) auto
    then show ?thesis
      using channels_written[of cs L E st] w found[of "''Channels''"] by (auto simp: MultiChannelEffect reads_def)
  qed
qed

end
