(* ===== verification/EffectProperties.thy ===== *)
theory EffectProperties imports Effects begin

text \<open>
  What the effects show: an effect plays its animations from the moment it is enabled, whenever it is
  rendered, and gives each light the colour that the values of the animations make.
\<close>

section \<open>An environment\<close>

text \<open>One that sorts by insertion and always draws the middle.\<close>

fun place :: "('a \<Rightarrow> 'a \<Rightarrow> bool) \<Rightarrow> 'a \<Rightarrow> 'a list \<Rightarrow> 'a list" where
  "place before x [] = [x]"
| "place before x (y # ys) = (if before x y then x # y # ys else y # place before x ys)"

definition at_time :: "int \<Rightarrow> effect_env" where
  "at_time now = \<lparr>ev_now = now, ev_sort = (\<lambda>before lights. foldr (place (before (1 / 2))) lights []), ev_draws = (\<lambda>_ _. 1 / 2)\<rparr>"

lemma mset_place: "mset (foldr (place before) xs []) = mset xs"
proof -
  have "mset (place before x ys) = add_mset x (mset ys)" for x ys by (induction ys) auto
  then show ?thesis by (induction xs) auto
qed

section \<open>The operations keep the layer\<close>

lemma attempt_layer:
  "(\<And>e1. f e = Some e1 \<Longrightarrow> eb_layer (ef_base e1) = eb_layer (ef_base e)) \<Longrightarrow>
   eb_layer (ef_base (attempt f e)) = eb_layer (ef_base e)"
  by (auto simp: attempt_def split: option.split)

lemma created_base [simp]: "ef_base (Iterator_CreateAnimations E e) = ef_base e"
  by (simp add: Iterator_CreateAnimations_def Let_def split: effect_kind.split)

lemma assigned_base [simp]: "ef_base (Effect_AssignLights e) = ef_base e"
  by (simp add: Effect_AssignLights_def split: effect_kind.split)

lemma marked_base [simp]: "ef_base (MarkLights angle e) = ef_base e"
  by (simp add: MarkLights_def Let_def split: option.split)

lemma initialized_base: "InitializeAnimations E e = Some e1 \<Longrightarrow> ef_base e1 = ef_base e"
  by (auto simp: InitializeAnimations_def Let_def split: option.splits)

interpretation fx: effect_interface "LightEffect_class E" for E
proof
  fix g e
  show "ec_layer (LightEffect_class E) (ec_updateGroup (LightEffect_class E) g e) = ec_layer (LightEffect_class E) e"
    by (simp add: LightEffect_class_def, rule attempt_layer)
       (auto simp: LightEffect_UpdateGroup_def dest!: initialized_base split: effect_kind.splits)
  show "ec_layer (LightEffect_class E) (ec_render (LightEffect_class E) e) = ec_layer (LightEffect_class E) e"
    by (simp add: LightEffect_class_def, rule attempt_layer)
       (auto simp: LightEffect_Render_def Effect_Finish_def split: option.splits)
qed

section \<open>The colour depends on the values of the animations\<close>

lemma color_list_set: "set (color_list c) = set_color_animations c"
  by (cases c) (auto split: option.split)

lemma channel_list_set: "set (channel_list c) = set_channel c"
  by (cases c) auto

fun for_each_light :: "'a effect_kind \<Rightarrow> bool" where
  "for_each_light (LightIteratorEffect c order mode offset preamble invertOrder) \<longleftrightarrow> True"
| "for_each_light k \<longleftrightarrow> False"

lemma kind_animations_set: "\<not> for_each_light k \<Longrightarrow> set (kind_animations m k) = set_effect_kind k"
  by (cases k) (auto simp: color_list_set channel_list_set)

lemma map_of_clearjunk_some: "map_of m k = Some v \<Longrightarrow> (k, v) \<in> set (map_entries m)"
  by (auto simp: map_entries_def intro!: map_of_SomeD simp: map_of_clearjunk)

lemma kind_color_iterator:
  assumes "\<forall>a\<in>set (kind_animations m (LightIteratorEffect c order mode offset preamble invertOrder)). f a = g a"
  shows "kind_color marked (map (apsnd (map f)) m) channel_of (map_effect_kind f (LightIteratorEffect c order mode offset preamble invertOrder)) light
    = kind_color marked (map (apsnd (map g)) m) channel_of (map_effect_kind g (LightIteratorEffect c order mode offset preamble invertOrder)) light"
proof -
  have of_map: "map_of (map (apsnd (map h)) m) i = map_option (map h) (map_of m i)" for h i
    by (induction m) auto
  have same: "map f vs = map g vs" if "map_of m (l_id light) = Some vs" for vs
    using assms map_of_clearjunk_some[OF that] by force
  have bound: "opacityBoundToIntensity (map_color_animations h c) = opacityBoundToIntensity c" for h
    by (cases c) simp
  show ?thesis
  proof (cases "map_of m (l_id light)")
    case (Some vs)
    then show ?thesis using same[OF Some] by (simp add: Iterator_GetColor_def of_map bound del: map_eq_conv)
  qed (simp add: Iterator_GetColor_def of_map)
qed

lemma kind_color_other:
  "\<not> for_each_light k \<Longrightarrow> kind_color marked m channel_of (map_effect_kind f k) = kind_color marked m' channel_of (map_effect_kind f k)"
  by (cases k) simp_all

lemma shown_color_cong:
  assumes "\<forall>a\<in>set (GetAnimations e). f a = g a"
  shows "shown_color f e light = shown_color g e light"
proof (cases "for_each_light (ef_kind e)")
  case True
  then obtain c order mode offset preamble invertOrder where
    "ef_kind e = LightIteratorEffect c order mode offset preamble invertOrder" by (cases "ef_kind e") auto
  then show ?thesis using kind_color_iterator assms by (simp add: shown_color_def GetAnimations_def del: kind_animations.simps kind_color.simps)
next
  case False
  have "map_effect_kind f (ef_kind e) = map_effect_kind g (ef_kind e)"
    using assms False by (intro effect_kind.map_cong0) (simp add: GetAnimations_def kind_animations_set)
  then show ?thesis unfolding shown_color_def by (simp only:) (rule fun_cong[OF kind_color_other[OF False]])
qed

section \<open>Playing\<close>

lemma steady_simps [simp]:
  "plain (steady v)" "GetTotalLength (steady v) = DBL_INF" "value_at (steady v) = (\<lambda>x. v)" "an_value (steady v) = v"
  using DBL_INF_pos by (simp_all add: steady_def ConstantAnimation_new_def fun_eq_iff)

text \<open>
  What enabling does before it starts the players, but for the marking of a radial effect, which it
  does afterwards and which touches no animation.
\<close>

definition prepared :: "effect_env \<Rightarrow> light_effect \<Rightarrow> light_effect" where
  "prepared E e = (case ef_kind e of
      RadialEffect c angle \<Rightarrow> MarkLights angle e
    | LightIteratorEffect c order mode offset preamble invertOrder \<Rightarrow> Iterator_CreateAnimations E e
    | MultiChannelEffect channels \<Rightarrow> Effect_AssignLights e
    | _ \<Rightarrow> e)"

text \<open>An effect with playable animations at normal speed, for the clock's player.\<close>

definition playable :: "light_effect \<Rightarrow> bool" where
  "playable e \<longleftrightarrow> (\<forall>a\<in>set (ef_speed e # GetAnimations e). a < length (ef_objects e) \<and> plain (ef_objects e ! a))
     \<and> value_at (ef_objects e ! ef_speed e) = (\<lambda>x. 1) \<and> IsEndless (ef_objects e ! ef_speed e)
     \<and> pl_speed (ef_speedPlayer e) = 1 \<and> (case ef_player e of ClockPlayer p \<Rightarrow> pl_speed p = 1 | PositionPlayer p \<Rightarrow> False)"

text \<open>What the colours depend on besides the values of the animations.\<close>

definition same_effect :: "light_effect \<Rightarrow> light_effect \<Rightarrow> bool" where
  "same_effect e e1 \<longleftrightarrow> ef_kind e1 = ef_kind e \<and> ef_speed e1 = ef_speed e \<and> ef_group e1 = ef_group e
     \<and> ef_effect_lights e1 = ef_effect_lights e \<and> ef_lightIdAnimationMap e1 = ef_lightIdAnimationMap e
     \<and> ef_lightIdChannelMap e1 = ef_lightIdChannelMap e \<and> ef_failed e1 = ef_failed e
     \<and> eb_name (ef_base e1) = eb_name (ef_base e) \<and> eb_layer (ef_base e1) = eb_layer (ef_base e)"

lemma same_effect_refl [simp]: "same_effect e e"
  by (simp add: same_effect_def)

lemma same_effect_trans: "same_effect e e1 \<Longrightarrow> same_effect e1 e2 \<Longrightarrow> same_effect e e2"
  by (simp add: same_effect_def)

lemma same_effect_color: "same_effect e e1 \<Longrightarrow> shown_color f e1 = shown_color f e"
  by (simp add: same_effect_def shown_color_def)

lemma same_effect_animations: "same_effect e e1 \<Longrightarrow> GetAnimations e1 = GetAnimations e"
  by (simp add: same_effect_def GetAnimations_def)

definition playing_effect :: "int \<Rightarrow> light_effect \<Rightarrow> light_effect \<Rightarrow> bool" where
  "playing_effect t0 e e1 \<longleftrightarrow> same_effect e e1 \<and> eb_state (ef_base e1) = EnabledState
     \<and> same_at (ef_speed e # GetAnimations e) (ef_objects e) (ef_objects e1)
     \<and> playing_since t0 [ef_speed e] (ef_speedPlayer e1)
     \<and> (\<exists>p. ef_player e1 = ClockPlayer p \<and> playing_since t0 (GetAnimations e) p)"

definition effect_over :: "light_effect \<Rightarrow> real \<Rightarrow> bool" where
  "effect_over e = over_at (ef_objects e) (GetAnimations e)"

lemma set_speed_1: "pl_speed p = 1 \<Longrightarrow> Player_SetSpeed 1 p = p"
  by (simp add: Player_SetSpeed_def)

lemma is_stopped_again:
  assumes "playing_since t0 bs p" "same_at as st st1" "set bs \<subseteq> set as" "t0 \<le> now"
    "Player_UpdateMarkers now p st1 = Some (p2, st2)" "same_at as st st2" "\<forall>a\<in>set bs. shown (real_of_int (now - t0)) st st2 a"
    "p2 = (if over_at st bs (real_of_int (now - t0)) then (advance now p)\<lparr>pl_state := PlayerStopped\<rparr> else advance now p)"
    "\<not> over_at st bs (real_of_int (now - t0)) \<longrightarrow> playing_since t0 bs p2"
  shows "\<exists>p3 st3. Player_IsStopped now p2 st2 = Some (over_at st bs (real_of_int (now - t0)), p3, st3)
    \<and> same_at as st st3 \<and> (\<forall>a\<in>set bs. shown (real_of_int (now - t0)) st st3 a)
    \<and> (\<not> over_at st bs (real_of_int (now - t0)) \<longrightarrow> playing_since t0 bs p3)"
proof (cases "over_at st bs (real_of_int (now - t0))")
  case True
  then have "pl_state (advance now p2) = PlayerStopped" using assms(8) by (simp add: advance_def)
  then show ?thesis using True assms(6,7) by (auto simp: Player_IsStopped_def Player_UpdateMarkers_def Let_def)
next
  case False
  then have p2: "playing_since t0 bs p2" using assms(9) by simp
  show ?thesis
    using update_playing[OF p2 assms(6,3,4)] False playing_advance[OF p2, of now] by (auto simp: Player_IsStopped_def)
qed

lemma render_playing:
  assumes "playing_effect t0 e e1" "playable e" "t0 \<le> now" "real_of_int (now - t0) < DBL_INF" "ev_now E = now"
  shows "\<exists>e2. LightEffect_Render E e1 = Some e2 \<and> same_effect e e2
    \<and> (\<forall>a\<in>set (GetAnimations e). shown (real_of_int (now - t0)) (ef_objects e) (ef_objects e2) a)
    \<and> (if effect_over e (real_of_int (now - t0)) then eb_state (ef_base e2) = FinishedState else playing_effect t0 e e2)"
proof -
  let ?as = "GetAnimations e" and ?st = "ef_objects e" and ?m = "real_of_int (now - t0)" and ?s = "ef_speed e"
  obtain p where p: "ef_player e1 = ClockPlayer p" "playing_since t0 ?as p" using assms(1) by (auto simp: playing_effect_def)
  have same: "same_at (?s # ?as) ?st (ef_objects e1)" and sp: "playing_since t0 [?s] (ef_speedPlayer e1)"
    and eff: "same_effect e e1" "eb_state (ef_base e1) = EnabledState"
    using assms(1) by (simp_all add: playing_effect_def)
  have endless: "IsEndless (?st ! ?s)" "value_at (?st ! ?s) = (\<lambda>x. 1)" using assms(2) by (simp_all add: playable_def)
  have "\<not> over_at ?st [?s] ?m" using endless(1) by (simp add: over_at_def)
  then obtain q st1 where q: "Player_UpdateMarkers now (ef_speedPlayer e1) (ef_objects e1) = Some (q, st1)"
    "same_at (?s # ?as) ?st st1" "shown ?m ?st st1 ?s" "playing_since t0 [?s] q"
    using update_playing[OF sp same _ assms(3)] by auto
  have one: "an_value (st1 ! ?s) = 1" using q(3) endless assms(4) by (simp add: shown_def IsEndless_def)
  have speed: "Player_SetSpeed 1 p = p" using p(2) by (intro set_speed_1) (simp add: playing_since_def)
  note up = update_playing[OF p(2) q(2) _ assms(3)]
  then obtain p2 st2 where p2: "Player_UpdateMarkers now p st1 = Some (p2, st2)" "same_at (?s # ?as) ?st st2"
    "\<forall>a\<in>set ?as. shown ?m ?st st2 a"
    "p2 = (if over_at ?st ?as ?m then (advance now p)\<lparr>pl_state := PlayerStopped\<rparr> else advance now p)"
    "\<not> over_at ?st ?as ?m \<longrightarrow> playing_since t0 ?as p2" by auto
  obtain p3 st3 where p3: "Player_IsStopped now p2 st2 = Some (over_at ?st ?as ?m, p3, st3)" "same_at (?s # ?as) ?st st3"
    "\<forall>a\<in>set ?as. shown ?m ?st st3 a" "\<not> over_at ?st ?as ?m \<longrightarrow> playing_since t0 ?as p3"
    using is_stopped_again[OF p(2) q(2) _ assms(3) p2] by auto
  have speed1: "ef_speed e1 = ?s" using eff(1) by (simp add: same_effect_def)
  have r: "LightEffect_Render E e1 = Some (e1\<lparr>ef_base := (if over_at ?st ?as ?m then Effect_Finish (ef_base e1) else ef_base e1),
      ef_objects := st3, ef_player := ClockPlayer p3, ef_speedPlayer := q\<rparr>)"
    by (simp add: LightEffect_Render_def assms(5) q(1) one speed speed1 p(1) set_player_speed_def update_player_def p2(1)
        player_stopped_def p3(1))
  show ?thesis
    unfolding r using eff p3 q(4) by (auto simp: effect_over_def playing_effect_def same_effect_def Effect_Finish_def)
qed

lemma created_enabled:
  "Iterator_CreateAnimations E (e\<lparr>ef_base := b\<rparr>) = (Iterator_CreateAnimations E e)\<lparr>ef_base := b\<rparr>"
  by (simp add: Iterator_CreateAnimations_def Let_def split: effect_kind.split)

lemma player_starts:
  assumes "pl_speed p = 1" "pl_animations p = bs" "same_at as st st1" "set bs \<subseteq> set as"
  shows "\<exists>p2 st2. Player_Start t0 p st1 = Some (p2, st2) \<and> same_at as st st2 \<and> playing_since t0 bs p2"
  using rewind_all[OF assms(3,4)] assms(1,2) by (auto simp: Player_Start_def advance_speed_1 playing_since_def)

lemma player_binds:
  assumes "same_at as st st1" "set bs \<subseteq> set as"
  shows "\<exists>st2. Player_BindAnimations bs p st1 = Some (p\<lparr>pl_animations := bs\<rparr>, st2) \<and> same_at as st st2"
proof -
  have "set (filter (\<lambda>a. \<not> AnimationIsBound (pl_animations p) a) bs) \<subseteq> set as" using assms(2) by auto
  then show ?thesis using rewind_all[OF assms(1)] by (fastforce simp: Player_BindAnimations_def RewindNewAnimations_def)
qed

lemma enable_animations:
  assumes "playable (Iterator_CreateAnimations E e)"
  shows "\<exists>e1. AnimationEffect_Enable E e = Some e1 \<and> playing_effect (ev_now E) (Iterator_CreateAnimations E e) e1"
proof -
  let ?e = "Iterator_CreateAnimations E e"
  let ?as = "GetAnimations ?e" and ?st = "ef_objects ?e" and ?s = "ef_speed ?e"
  have ok: "\<forall>a\<in>set (?s # ?as). a < length ?st \<and> plain (?st ! a)" and sp: "pl_speed (ef_speedPlayer ?e) = 1"
    using assms by (simp_all add: playable_def)
  obtain p where p: "ef_player ?e = ClockPlayer p" "pl_speed p = 1"
    using assms by (auto simp: playable_def split: effect_player.splits)
  note start = same_at_refl[OF ok]
  obtain st1 where st1: "Player_BindAnimations ?as p ?st = Some (p\<lparr>pl_animations := ?as\<rparr>, st1)" "same_at (?s # ?as) ?st st1"
    using player_binds[OF start, of ?as p] by auto
  obtain st2 where st2: "Player_BindAnimations [?s] (ef_speedPlayer ?e) st1
      = Some ((ef_speedPlayer ?e)\<lparr>pl_animations := [?s]\<rparr>, st2)" "same_at (?s # ?as) ?st st2"
    using player_binds[OF st1(2), of "[?s]"] by auto
  obtain p3 st3 where p3: "Player_Start (ev_now E) (p\<lparr>pl_animations := ?as\<rparr>) st2 = Some (p3, st3)"
    "same_at (?s # ?as) ?st st3" "playing_since (ev_now E) ?as p3"
    using player_starts[of "p\<lparr>pl_animations := ?as\<rparr>" ?as, OF _ _ st2(2), of "ev_now E"] p(2) by auto
  obtain p4 st4 where p4: "Player_Start (ev_now E) ((ef_speedPlayer ?e)\<lparr>pl_animations := [?s]\<rparr>) st3 = Some (p4, st4)"
    "same_at (?s # ?as) ?st st4" "playing_since (ev_now E) [?s] p4"
    using player_starts[of "(ef_speedPlayer ?e)\<lparr>pl_animations := [?s]\<rparr>" "[?s]", OF _ _ p3(2), of "ev_now E"] sp by auto
  have animations: "GetAnimations (?e\<lparr>ef_base := b\<rparr>) = ?as" for b by (simp add: GetAnimations_def)
  have init: "InitializeAnimations E (e\<lparr>ef_base := Effect_Enable (ef_base e)\<rparr>)
      = Some (?e\<lparr>ef_base := Effect_Enable (ef_base e), ef_player := ClockPlayer (p\<lparr>pl_animations := ?as\<rparr>),
          ef_speedPlayer := (ef_speedPlayer ?e)\<lparr>pl_animations := [?s]\<rparr>, ef_objects := st2\<rparr>)"
    by (simp add: InitializeAnimations_def created_enabled animations bind_player_def p(1) st1(1) st2(1))
  have "AnimationEffect_Enable E e = Some (?e\<lparr>ef_base := Effect_Enable (ef_base e), ef_player := ClockPlayer p3,
      ef_speedPlayer := p4, ef_objects := st4\<rparr>)"
    by (simp add: AnimationEffect_Enable_def init start_player_def p3(1) p4(1))
  then show ?thesis using p3(3) p4 by (simp add: playing_effect_def same_effect_def Effect_Enable_def)
qed

lemma created_other: "\<not> for_each_light (ef_kind e) \<Longrightarrow> Iterator_CreateAnimations E e = e"
  by (cases "ef_kind e") (simp_all add: Iterator_CreateAnimations_def)

definition has_group :: "light_effect \<Rightarrow> bool" where
  "has_group e \<longleftrightarrow> (case ef_kind e of RadialEffect c angle \<Rightarrow> ef_group e \<noteq> None | _ \<Rightarrow> True)"

lemma marked_same: "same_effect e e1 \<Longrightarrow> same_effect (MarkLights angle e) (MarkLights angle e1)"
  by (auto simp: same_effect_def MarkLights_def Let_def split: option.split)

lemma marked_fields [simp]:
  "ef_objects (MarkLights angle e) = ef_objects e" "ef_speed (MarkLights angle e) = ef_speed e"
  "ef_player (MarkLights angle e) = ef_player e" "ef_speedPlayer (MarkLights angle e) = ef_speedPlayer e"
  "ef_kind (MarkLights angle e) = ef_kind e" "GetAnimations (MarkLights angle e) = GetAnimations e"
  by (simp_all add: MarkLights_def GetAnimations_def Let_def split: option.split)

lemma assigned_kind [simp]: "ef_kind (Effect_AssignLights e) = ef_kind e"
  by (simp add: Effect_AssignLights_def split: effect_kind.split)

lemma enable_playing:
  assumes "playable (prepared E e)" "has_group e"
  shows "\<exists>e1. LightEffect_Enable E e = Some e1 \<and> playing_effect (ev_now E) (prepared E e) e1"
proof (cases "ef_kind e")
  case (RadialEffect c angle)
  have "playable e" using assms(1) RadialEffect by (simp add: prepared_def playable_def)
  then obtain e1 where e1: "AnimationEffect_Enable E e = Some e1" "playing_effect (ev_now E) e e1"
    using enable_animations[of E e] RadialEffect by (auto simp: created_other)
  have "playing_effect (ev_now E) (MarkLights angle e) (MarkLights angle e1)"
    using e1(2) by (simp add: playing_effect_def marked_same)
  then show ?thesis using RadialEffect e1(1) assms(2) by (auto simp: LightEffect_Enable_def prepared_def has_group_def)
next
  case (MultiChannelEffect channels)
  then show ?thesis
    using enable_animations[of E "Effect_AssignLights e"] assms(1) by (simp add: LightEffect_Enable_def prepared_def created_other)
qed (use assms(1) enable_animations[of E e] in \<open>simp_all add: LightEffect_Enable_def prepared_def created_other\<close>)

fun render_at :: "effect_env \<Rightarrow> int list \<Rightarrow> light_effect \<Rightarrow> light_effect option" where
  "render_at E [] e = Some e"
| "render_at E (t # ts) e = Option.bind (LightEffect_Render (E\<lparr>ev_now := t\<rparr>) e) (render_at E ts)"

lemma render_all_playing:
  assumes "playing_effect t0 e e1" "playable e" "t0 \<le> t" "real_of_int (t - t0) < DBL_INF"
    and "\<forall>u\<in>set ts. t0 \<le> u \<and> u \<le> t \<and> \<not> effect_over e (real_of_int (u - t0))"
  shows "\<exists>e2. render_at E (ts @ [t]) e1 = Some e2 \<and> same_effect e e2
    \<and> (\<forall>a\<in>set (GetAnimations e). shown (real_of_int (t - t0)) (ef_objects e) (ef_objects e2) a)
    \<and> (if effect_over e (real_of_int (t - t0)) then eb_state (ef_base e2) = FinishedState else playing_effect t0 e e2)"
  using assms(1,5)
proof (induction ts arbitrary: e1)
  case Nil
  then show ?case using render_playing[OF Nil(1) assms(2-4), of "E\<lparr>ev_now := t\<rparr>"] by auto
next
  case (Cons u ts)
  have "real_of_int (u - t0) < DBL_INF" using Cons.prems(2) assms(4) by simp
  then obtain e2 where "LightEffect_Render (E\<lparr>ev_now := u\<rparr>) e1 = Some e2" "playing_effect t0 e e2"
    using render_playing[OF Cons.prems(1) assms(2), of u "E\<lparr>ev_now := u\<rparr>"] Cons.prems(2) by auto
  then show ?case using Cons.IH[of e2] Cons.prems(2) by simp
qed

lemma color_shown:
  assumes "same_effect e e2" "\<forall>a\<in>set (GetAnimations e). shown m (ef_objects e) (ef_objects e2) a"
    and "\<forall>a\<in>set (GetAnimations e). m < GetTotalLength (ef_objects e ! a)"
  shows "LightEffect_GetColor e2 = shown_color (\<lambda>a. value_at (ef_objects e ! a) m) e"
proof -
  have "shown_color (\<lambda>a. an_value (ef_objects e2 ! a)) e = shown_color (\<lambda>a. value_at (ef_objects e ! a) m) e"
    using assms(2,3) by (intro ext shown_color_cong) (simp add: shown_def)
  then show ?thesis using same_effect_color[OF assms(1)] by (simp add: LightEffect_GetColor_def)
qed

lemma enabled_and_rendered:
  assumes "playable (prepared E e)" "has_group e" "ev_now E \<le> t" "real_of_int (t - ev_now E) < DBL_INF"
    and "\<forall>u\<in>set ts. ev_now E \<le> u \<and> u \<le> t \<and> \<not> effect_over (prepared E e) (real_of_int (u - ev_now E))"
  shows "\<exists>e1 e2. LightEffect_Enable E e = Some e1 \<and> render_at E (ts @ [t]) e1 = Some e2 \<and> same_effect (prepared E e) e2
    \<and> (Effect_IsFinished (ef_base e2) \<longleftrightarrow> effect_over (prepared E e) (real_of_int (t - ev_now E)))
    \<and> (\<forall>a\<in>set (GetAnimations (prepared E e)).
         shown (real_of_int (t - ev_now E)) (ef_objects (prepared E e)) (ef_objects e2) a)"
proof -
  let ?e = "prepared E e" and ?m = "real_of_int (t - ev_now E)"
  obtain e1 where e1: "LightEffect_Enable E e = Some e1" "playing_effect (ev_now E) ?e e1"
    using enable_playing[OF assms(1,2)] by blast
  obtain e2 where e2: "render_at E (ts @ [t]) e1 = Some e2" "same_effect ?e e2"
    "\<forall>a\<in>set (GetAnimations ?e). shown ?m (ef_objects ?e) (ef_objects e2) a"
    "if effect_over ?e ?m then eb_state (ef_base e2) = FinishedState else playing_effect (ev_now E) ?e e2"
    using render_all_playing[OF e1(2) assms(1,3,4,5)] by blast
  have "Effect_IsFinished (ef_base e2) \<longleftrightarrow> effect_over ?e ?m"
    using e2(4) by (simp add: Effect_IsFinished_def playing_effect_def split: if_splits)
  then show ?thesis using e1(1) e2 by blast
qed


text \<open>Light that changes from red to blue in two seconds, in the left half of the room, seen after half a second.\<close>

definition red_to_blue :: light_effect where
  "red_to_blue = SetArea (Area_new (-1) 1 0 (-1) ''left'' False)
     (SetColorAnimation 5 6 7 ((AreaEffect_new ''fade'' 1 False)\<lparr>ef_objects := [steady 1, steady 1, steady 1, steady 1, steady 1,
        TweenAnimation_new 1 0 2000 Linear, steady 0, TweenAnimation_new 0 1 2000 Linear]\<rparr>))"

lemma red_to_blue_simps:
  "ef_kind red_to_blue = AreaEffect (ColorAnimations 5 6 7 4 None False) [Area_new (-1) 1 0 (-1) ''left'' False]"
  "ef_objects red_to_blue = [steady 1, steady 1, steady 1, steady 1, steady 1,
     TweenAnimation_new 1 0 2000 Linear, steady 0, TweenAnimation_new 0 1 2000 Linear]"
  "ef_speed red_to_blue = 0" "\<not> ef_failed red_to_blue" "ef_player red_to_blue = ClockPlayer Player_new" "ef_speedPlayer red_to_blue = Player_new"
  by (simp_all add: red_to_blue_def SetArea_def AddArea_def set_kind_def SetColorAnimation_def AreaEffect_new_def
      AnimationEffect_new_def white_def)


section \<open>Explosions\<close>

text \<open>What rises from zero to a peak and falls back to zero.\<close>

definition rise_and_fall :: "real \<Rightarrow> real \<Rightarrow> real \<Rightarrow> real" where
  "rise_and_fall rise duration x = (if x < rise then x / rise else (duration - x) / (duration - rise))"

lemma up_and_down_shows:
  assumes "0 < rise" "rise < duration" "duration < DBL_INF"
  shows "plain (up_and_down peak rise duration)" "GetTotalLength (up_and_down peak rise duration) = duration"
    and "0 \<le> x \<Longrightarrow> x < duration \<Longrightarrow> value_at (up_and_down peak rise duration) x = peak * rise_and_fall rise duration x"
proof -
  have ne: "DBL_INF \<noteq> rise" "DBL_INF \<noteq> duration - rise" "DBL_INF \<noteq> 0" "DBL_INF \<noteq> duration" using assms by auto
  have len: "sequence_length (map GetTotalLength [TweenAnimation_new 0 peak rise Linear, TweenAnimation_new peak 0 (duration - rise) Linear])
      = duration"
    using ne by (simp add: sequence_length_def TweenAnimation_new_def)
  show "GetTotalLength (up_and_down peak rise duration) = duration"
    using len ne by (simp add: up_and_down_def total_of_def)
  have "repeats_ok 0 duration" using assms ne by (simp add: repeats_ok_def)
  then show "plain (up_and_down peak rise duration)"
    using assms len by (simp add: up_and_down_def TweenAnimation_new_def)
  assume x: "0 \<le> x" "x < duration"
  then have "repeat_marker 0 duration x = x" using assms by (simp add: repeat_marker_def trunc_nonneg floor_eq_iff Let_def)
  then show "value_at (up_and_down peak rise duration) x = peak * rise_and_fall rise duration x"
    using assms x len
    by (simp add: up_and_down_def rise_and_fall_def TweenAnimation_new_def tween_value_def linearTween_def field_simps)
qed

definition explosion :: "Color \<Rightarrow> Location \<Rightarrow> real \<Rightarrow> real \<Rightarrow> real \<Rightarrow> real \<Rightarrow> light_effect" where
  "explosion color location duration radius radius_time intensity_time =
     Explosion_PrepareEffect color location duration radius radius_time intensity_time (LightSourceEffect_new ''explosion'' 0)"

lemma explosion_simps:
  assumes "0 < radius_time" "radius_time < duration" "0 < intensity_time" "intensity_time < duration"
  shows "ef_kind (explosion color location duration radius radius_time intensity_time)
      = LightSourceEffect (ColorAnimations 8 9 10 11 (Some 12) False) 13 14 15"
    "ef_objects (explosion color location duration radius radius_time intensity_time)
      = steady 1 # replicate 4 (steady 1) @ [steady 0, steady 0, steady 1, steady (red color), steady (green color), steady (blue color),
          steady (alpha color), up_and_down (GetCurrentBrightness color) intensity_time duration,
          steady (loc_x location), steady (loc_y location), up_and_down radius radius_time duration]"
    "ef_speed (explosion color location duration radius radius_time intensity_time) = 0"
    "ef_player (explosion color location duration radius radius_time intensity_time) = ClockPlayer Player_new"
    "ef_speedPlayer (explosion color location duration radius radius_time intensity_time) = Player_new"
  using assms
  by (simp_all add: explosion_def Explosion_PrepareEffect_def Explosion_PrepareRadius_def Explosion_PreparePosition_def
      Explosion_PrepareColor_def new_object_def SetRadiusAnimation_def SetPositionAnimation_def SetIntensityAnimation_def
      SetFixedOpacity_def SetOpacityAnimation_def SetFixedColor_def SetColorAnimation_def set_kind_def LightSourceEffect_new_def
      AnimationEffect_new_def white_def Explosion_Clip_def Let_def)

text \<open>Positions of one explosion at its colour's brightest, and where the light shows.\<close>

definition explosion_color :: "Color \<Rightarrow> Location \<Rightarrow> real \<Rightarrow> real \<Rightarrow> Light \<Rightarrow> Color" where
  "explosion_color color location radius share light =
     (let distance = Vector_GetLength (Vector_between (plane location) (plane (l_position light)));
          opacity = (if distance \<le> radius \<and> 0 < radius then alpha color * (1 - (distance / radius)\<^sup>2) else 0)
      in (Color_rgba (red color) (green color) (blue color) opacity)
           \<lparr>red := red color * share, green := green color * share, blue := blue color * share\<rparr>)"

lemma explosion_light:
  assumes "0 \<le> r" "0 < GetCurrentBrightness color" "GetCurrentBrightness color \<le> 1" "0 \<le> share" "share \<le> 1"
  shows "LightSource_GetColor (ColorAnimations (red color) (green color) (blue color) (alpha color)
      (Some (GetCurrentBrightness color * share)) False) (loc_x location) (loc_y location) r light
    = explosion_color color location r share light"
proof -
  have clamp: "clamp01 (GetCurrentBrightness color * share) = GetCurrentBrightness color * share"
    using assms mult_mono[of "GetCurrentBrightness color" 1 share 1]
      mult_nonneg_nonneg[of "GetCurrentBrightness color" share] by (auto simp: clamp01_def simp del: mult_nonneg_nonneg)
  have b: "GetCurrentBrightness (Color_rgba (red color) (green color) (blue color) a) = GetCurrentBrightness color" for a
    by (simp add: GetCurrentBrightness_def Color_rgba_def)
  have "ApplyBrightness (Color_rgba (red color) (green color) (blue color) a) (GetCurrentBrightness color * share)
      = (Color_rgba (red color) (green color) (blue color) a)
         \<lparr>red := red color * share, green := green color * share, blue := blue color * share\<rparr>" for a
    unfolding ApplyBrightness_def clamp b using assms(2) by (simp add: Color_rgba_def)
  moreover have "\<lparr>loc_x = loc_x location, loc_y = loc_y location, loc_z = 0\<rparr> = plane location"
    by (cases location) (simp add: plane_def)
  moreover have "alpha_accent d r a = (if d \<le> r \<and> 0 < r then a * (1 - (d / r)\<^sup>2) else 0)" for d a
    using assms(1) by (auto simp: alpha_accent_def easeInQuad_def power2_eq_square algebra_simps)
  ultimately show ?thesis by (simp add: LightSource_GetColor_def SetIntensity_def explosion_color_def Let_def)
qed

text \<open>
  C38 (functional). An explosion grows to its radius and shrinks again, and its light rises to the
  colour and falls again, both linearly and each in its own time; within the radius the opacity
  falls with the square of the distance. At its end the effect is finished.
\<close>

theorem explosion_rises_and_falls:
  assumes "0 < radius_time" "radius_time < duration" "0 < intensity_time" "intensity_time < duration" "duration < DBL_INF"
    and "0 \<le> radius" "0 < GetCurrentBrightness color" "GetCurrentBrightness color \<le> 1"
    and "ev_now E \<le> t" "real_of_int (t - ev_now E) < DBL_INF"
  shows "\<exists>e1 e2. LightEffect_Enable E (explosion color location duration radius radius_time intensity_time) = Some e1
    \<and> render_at E [t] e1 = Some e2
    \<and> (Effect_IsFinished (ef_base e2) \<longleftrightarrow> duration \<le> real_of_int (t - ev_now E))
    \<and> (real_of_int (t - ev_now E) < duration \<longrightarrow> LightEffect_GetColor e2
         = explosion_color color location (radius * rise_and_fall radius_time duration (real_of_int (t - ev_now E)))
             (rise_and_fall intensity_time duration (real_of_int (t - ev_now E))))"
proof -
  let ?e = "explosion color location duration radius radius_time intensity_time" and ?x = "real_of_int (t - ev_now E)"
  note simps = explosion_simps[OF assms(1-4)]
  note up = up_and_down_shows[OF assms(3,4,5)] up_and_down_shows[OF assms(1,2,5)]
  have p: "prepared E ?e = ?e" by (simp add: prepared_def simps)
  have refs: "GetAnimations ?e = [8, 9, 10, 11, 12, 13, 14, 15]" by (simp add: GetAnimations_def simps)
  have ne: "DBL_INF \<noteq> duration" using assms(5) by simp
  have playable: "playable (prepared E ?e)"
    using DBL_INF_pos up unfolding p
    by (simp add: playable_def refs simps nth_append IsEndless_def Player_new_def)
  have over: "effect_over ?e ?x \<longleftrightarrow> duration \<le> ?x"
    using up ne by (auto simp: effect_over_def over_at_def refs simps nth_append IsEndless_def)
  have running: "?x < duration \<Longrightarrow> \<forall>a\<in>set (GetAnimations ?e). ?x < GetTotalLength (ef_objects ?e ! a)"
    using up assms(10) by (simp add: refs simps nth_append)
  have share: "0 \<le> rise_and_fall rise duration ?x \<and> rise_and_fall rise duration ?x \<le> 1"
    if "0 < rise" "rise < duration" "?x < duration" for rise
    using that assms(9) by (simp add: rise_and_fall_def)
  have color: "shown_color (\<lambda>a. value_at (ef_objects ?e ! a) ?x) ?e
      = explosion_color color location (radius * rise_and_fall radius_time duration ?x) (rise_and_fall intensity_time duration ?x)"
    if x: "?x < duration"
    using up(3)[of ?x] up(6)[of ?x] x assms(9) share[OF assms(1,2) x] share[OF assms(3,4) x] assms(6-8)
    by (intro ext) (simp add: shown_color_def simps nth_append explosion_light)
  have g: "has_group ?e" by (simp add: has_group_def simps)
  obtain e1 e2 where "LightEffect_Enable E ?e = Some e1" "render_at E ([] @ [t]) e1 = Some e2"
    "Effect_IsFinished (ef_base e2) \<longleftrightarrow> effect_over ?e ?x" "same_effect ?e e2"
    "\<forall>a\<in>set (GetAnimations ?e). shown ?x (ef_objects ?e) (ef_objects e2) a"
    using enabled_and_rendered[of E ?e t "[]"] playable g assms(9,10) unfolding p by auto
  then show ?thesis using over running color color_shown by auto
qed

text \<open>An orange explosion of one second in the middle of the room, after 200 ms, at the front wall.\<close>

theorem explosion_rises_and_falls_witness:
  "\<exists>e1 e2. LightEffect_Enable (at_time 0) (explosion (Color_rgb 1 (1 / 2) 0) \<lparr>loc_x = 0, loc_y = 0, loc_z = 0\<rparr> 1000 4 500 250) = Some e1
     \<and> render_at (at_time 0) [200] e1 = Some e2 \<and> \<not> Effect_IsFinished (ef_base e2)
     \<and> red (LightEffect_GetColor e2 (Light_new ''1'' \<lparr>loc_x = 0, loc_y = 1, loc_z = 0\<rparr> [] [] [] True True)) = 4 / 5
     \<and> alpha (LightEffect_GetColor e2 (Light_new ''1'' \<lparr>loc_x = 0, loc_y = 1, loc_z = 0\<rparr> [] [] [] True True)) = 39 / 64"
proof -
  have b: "GetCurrentBrightness (Color_rgb 1 (1 / 2) 0) = 1" by (simp add: GetCurrentBrightness_def Color_rgb_def Color_rgba_def)
  obtain e1 e2 where e: "LightEffect_Enable (at_time 0) (explosion (Color_rgb 1 (1 / 2) 0) \<lparr>loc_x = 0, loc_y = 0, loc_z = 0\<rparr> 1000 4 500 250) = Some e1"
    "render_at (at_time 0) [200] e1 = Some e2" "\<not> Effect_IsFinished (ef_base e2)"
    "LightEffect_GetColor e2 = explosion_color (Color_rgb 1 (1 / 2) 0) \<lparr>loc_x = 0, loc_y = 0, loc_z = 0\<rparr>
       (4 * rise_and_fall 500 1000 200) (rise_and_fall 250 1000 200)"
    using explosion_rises_and_falls[of 500 1000 250 4 "Color_rgb 1 (1 / 2) 0" "at_time 0" 200 "\<lparr>loc_x = 0, loc_y = 0, loc_z = 0\<rparr>"]
      less_DBL_INF[of 1000] less_DBL_INF[of 200] b by (auto simp: at_time_def)
  then show ?thesis
    by (simp add: explosion_color_def rise_and_fall_def plane_def Vector_GetLength_def Vector_between_def Light_new_def
        Color_rgb_def Color_rgba_def power2_eq_square)
qed

end
