(* ===== verification/ScriptEffects.thy ===== *)
theory ScriptEffects imports EffectJson EffectProperties begin

text \<open>
  The effects of light scripts: what an action's player makes of an effect, and that a script and
  its effects are read back so that they show the same.
\<close>

section \<open>Effects that follow a position\<close>

text \<open>
  An effect that was connected with the player of an action: all it can refer to, \<open>as\<close>, shows the same
  as in the objects \<open>st\<close>.
\<close>

definition following :: "int \<Rightarrow> nat list \<Rightarrow> animation list \<Rightarrow> light_effect \<Rightarrow> bool" where
  "following t0 as st e \<longleftrightarrow> same_at as st (ef_objects e) \<and> set (ef_speed e # GetAnimations e) \<subseteq> set as
     \<and> playing_since t0 [ef_speed e] (ef_speedPlayer e) \<and> eb_state (ef_base e) = EnabledState \<and> \<not> ef_failed e
     \<and> (\<exists>p. ef_player e = PositionPlayer p \<and> ap_running p \<and> ap_animationList p = GetAnimations e)"

lemma following_speed: "following t0 as st e \<Longrightarrow> ef_speed e \<in> set as"
  by (simp add: following_def)

lemma connect_animations:
  assumes "\<forall>a\<in>set as. a < length (ef_objects (Iterator_CreateAnimations E e)) \<and> plain (ef_objects (Iterator_CreateAnimations E e) ! a)"
    and "set (ef_speed (Iterator_CreateAnimations E e) # GetAnimations (Iterator_CreateAnimations E e)) \<subseteq> set as"
    and "pl_speed (ef_speedPlayer (Iterator_CreateAnimations E e)) = 1"
    and "ef_player (Iterator_CreateAnimations E e) = PositionPlayer p" "\<not> ef_failed (Iterator_CreateAnimations E e)"
  shows "\<exists>e1. AnimationEffect_Enable E e = Some e1 \<and> same_effect (Iterator_CreateAnimations E e) e1
    \<and> following (ev_now E) as (ef_objects (Iterator_CreateAnimations E e)) e1"
proof -
  let ?e = "Iterator_CreateAnimations E e"
  let ?as = "GetAnimations ?e" and ?st = "ef_objects ?e" and ?s = "ef_speed ?e"
  note start = same_at_refl[OF assms(1)]
  have new: "set (filter (\<lambda>a. \<not> AnimationIsBound (ap_animationList p) a) ?as) \<subseteq> set as" using assms(2) by auto
  obtain st1 where st1: "ActionPlayer_BindAnimations ?as p ?st = Some (p\<lparr>ap_animationList := ?as\<rparr>, st1)" "same_at as ?st st1"
    using rewind_all[OF start new] by (auto simp: ActionPlayer_BindAnimations_def RewindNewAnimations_def)
  obtain st2 where st2: "Player_BindAnimations [?s] (ef_speedPlayer ?e) st1
      = Some ((ef_speedPlayer ?e)\<lparr>pl_animations := [?s]\<rparr>, st2)" "same_at as ?st st2"
    using player_binds[OF st1(2), of "[?s]" "ef_speedPlayer ?e"] assms(2) by auto
  obtain q st3 where q: "Player_Start (ev_now E) ((ef_speedPlayer ?e)\<lparr>pl_animations := [?s]\<rparr>) st2 = Some (q, st3)"
    "same_at as ?st st3" "playing_since (ev_now E) [?s] q"
    using player_starts[of "(ef_speedPlayer ?e)\<lparr>pl_animations := [?s]\<rparr>" "[?s]", OF _ _ st2(2), of "ev_now E"] assms(2,3) by auto
  have animations: "GetAnimations (?e\<lparr>ef_base := b\<rparr>) = ?as" for b by (simp add: GetAnimations_def)
  have init: "InitializeAnimations E (e\<lparr>ef_base := Effect_Enable (ef_base e)\<rparr>)
      = Some (?e\<lparr>ef_base := Effect_Enable (ef_base e), ef_player := PositionPlayer (p\<lparr>ap_animationList := ?as\<rparr>),
          ef_speedPlayer := (ef_speedPlayer ?e)\<lparr>pl_animations := [?s]\<rparr>, ef_objects := st2\<rparr>)"
    by (simp add: InitializeAnimations_def created_enabled animations bind_player_def assms(4) st1(1) st2(1))
  have "AnimationEffect_Enable E e = Some (?e\<lparr>ef_base := Effect_Enable (ef_base e), ef_speedPlayer := q, ef_objects := st3,
      ef_player := PositionPlayer (ActionPlayer_Start (p\<lparr>ap_animationList := ?as\<rparr>))\<rparr>)"
    by (simp add: AnimationEffect_Enable_def init start_player_def q(1))
  then show ?thesis
    using q assms(2,5) by (simp add: following_def same_effect_def Effect_Enable_def ActionPlayer_Start_def GetAnimations_def)
qed

lemma render_following:
  assumes "following t0 as st e" "value_at (st ! ef_speed e) (real_of_int (ev_now E - t0)) = 1" "IsEndless (st ! ef_speed e)"
    and "t0 \<le> ev_now E" "real_of_int (ev_now E - t0) < DBL_INF" "0 \<le> position"
  shows "\<exists>e1. LightEffect_Render E (set_position position e) = Some e1 \<and> same_effect e e1 \<and> following t0 as st e1
    \<and> (\<forall>a\<in>set (GetAnimations e). shown (real_of_int position) st (ef_objects e1) a)"
proof -
  let ?m = "real_of_int (ev_now E - t0)" and ?x = "real_of_int position" and ?as = "GetAnimations e" and ?s = "ef_speed e"
  obtain p where p: "ef_player e = PositionPlayer p" "ap_running p" "ap_animationList p = ?as" using assms(1) by (auto simp: following_def)
  have same: "same_at as st (ef_objects e)" and sub: "set ?as \<subseteq> set as" "set [?s] \<subseteq> set as" and sp: "playing_since t0 [?s] (ef_speedPlayer e)"
    using assms(1) by (auto simp: following_def)
  have "\<not> over_at st [?s] ?m" using assms(3) by (simp add: over_at_def)
  then obtain q st1 where q: "Player_UpdateMarkers (ev_now E) (ef_speedPlayer e) (ef_objects e) = Some (q, st1)"
    "same_at as st st1" "shown ?m st st1 ?s" "playing_since t0 [?s] q"
    using update_playing[OF sp same sub(2) assms(4)] by auto
  have one: "an_value (st1 ! ?s) = 1" using q(3) assms(2,3,5) by (simp add: shown_def IsEndless_def)
  obtain st2 where st2: "each_animation (set_marker ?x) ?as st1 = Some st2" "same_at as st st2"
    using each_set_marker[OF q(2) sub(1), of ?x "[]"] assms(6) by auto
  obtain st3 where st3: "each_animation (set_marker ?x) ?as st2 = Some st3" "same_at as st st3" "\<forall>a\<in>set ?as. shown ?x st st3 a"
    using each_set_marker[OF st2(2) sub(1), of ?x "[]"] assms(6) by auto
  let ?p = "p\<lparr>ap_position := position, ap_speed := 1\<rparr>"
  have "LightEffect_Render E (set_position position e) = Some (e\<lparr>ef_objects := st3, ef_player := PositionPlayer ?p, ef_speedPlayer := q\<rparr>)"
    using p st2(1) st3(1)
    by (simp add: LightEffect_Render_def set_position_def q(1) one set_player_speed_def ActionPlayer_SetSpeed_def
        update_player_def player_stopped_def ActionPlayer_SetPosition_def ActionPlayer_UpdateMarkers_def ActionPlayer_IsStopped_def)
  then show ?thesis
    using assms(1) p st3 q(4) by (simp add: same_effect_def following_def GetAnimations_def)
qed

section \<open>Effects that are read back\<close>

text \<open>Sorting keeps the lights; it is \<open>std::sort\<close> with a comparison of lights.\<close>

definition sorts :: "effect_env \<Rightarrow> bool" where
  "sorts E \<longleftrightarrow> (\<forall>before lights. mset (ev_sort E before lights) = mset lights)"

definition savable_effect :: "light_effect \<Rightarrow> bool" where
  "savable_effect e \<longleftrightarrow> (\<forall>a\<in>set_effect_kind (parameters e). writable a) \<and> writable (ef_objects e ! ef_speed e)
     \<and> type_name (ef_kind e) \<noteq> ''huestream.RadialEffect''"

text \<open>The parameters of \<open>e1\<close> show the same as those of \<open>e\<close>, and \<open>e1\<close> follows the position of an action.\<close>

definition alike_effect :: "int \<Rightarrow> light_effect \<Rightarrow> light_effect \<Rightarrow> bool" where
  "alike_effect t0 e e1 \<longleftrightarrow> eb_name (ef_base e1) = eb_name (ef_base e) \<and> ef_group e1 = Some Group_new
     \<and> (\<exists>as st. following t0 as st e1 \<and> refers st (ef_objects e ! ef_speed e) (ef_speed e1)
          \<and> rel_effect_kind (refers st) (parameters e) (ef_kind e1))"

lemma finite_animations: "finite (set_effect_kind k)"
proof -
  have c: "finite (set_color_animations c)" for c :: "'a color_animations" by (cases c) simp
  have "finite (set_channel c)" for c :: "'a channel" by (cases c) simp
  then show ?thesis using c by (cases k) simp_all
qed

lemma kind_animations_subset: "m = [] \<Longrightarrow> set (kind_animations m k) \<subseteq> set_effect_kind k"
  by (cases k) (auto simp: color_list_set channel_list_set map_entries_def)

lemma type_name_map: "type_name (map_effect_kind f k) = type_name k"
  by (cases k) simp_all

lemma default_effect:
  assumes "map_of default_effects t = Some e0"
  shows "eb_state (ef_base e0) = DisabledState" "ef_player e0 = ClockPlayer Player_new" "ef_speedPlayer e0 = Player_new"
    "ef_group e0 = Some Group_new" "ef_lightIdAnimationMap e0 = []" "\<not> ef_failed e0" "eb_layer (ef_base e0) = 0"
  using assms
  by (auto simp: default_effects_def AreaEffect_new_def LightSourceEffect_new_def SphereLightSourceEffect_new_def
      LightIteratorEffect_new_def MultiChannelEffect_new_def AnimationEffect_new_def Effect_new_def split: if_splits)

lemma known_effect: "type_name k \<noteq> ''huestream.RadialEffect'' \<Longrightarrow> \<exists>e0. map_of default_effects (type_name k) = Some e0"
  by (cases k) (auto simp: default_effects_def)

lemma effect_built:
  assumes "savable_effect e"
  shows "\<exists>e1. LightEffect_Build L E (LightEffect_Serialize e (JNode [])) = Built e1
    \<and> eb_name (ef_base e1) = eb_name (ef_base e) \<and> ef_speedPlayer e1 = Player_new \<and> ef_group e1 = Some Group_new
    \<and> ef_lightIdAnimationMap e1 = [] \<and> \<not> ef_failed e1 \<and> refers (ef_objects e1) (ef_objects e ! ef_speed e) (ef_speed e1)
    \<and> rel_effect_kind (refers (ef_objects e1)) (parameters e) (ef_kind e1)"
proof -
  let ?node = "LightEffect_Serialize e (JNode [])" and ?t = "type_name (ef_kind e)"
  obtain e0 where e0: "map_of default_effects ?t = Some e0" using known_effect assms by (auto simp: savable_effect_def)
  have t: "type_name (parameters e) = ?t" by (simp add: parameters_def type_name_map)
  note k0 = default_kind[OF e0[folded t]]
  note d = default_effect[OF e0]
  have attrs: "json_find AttributeType ?node = Some (JString ?t)" "json_find ''Name'' ?node = Some (JString (eb_name (ef_base e)))"
    "json_find ''Speed'' ?node = Some (animation_node (ef_objects e ! ef_speed e))"
    by (simp_all add: LightEffect_Serialize_eq effect_entries_def AttributeType_def)
  obtain speed st1 where speed: "read_animation L E ?node ''Speed'' (ef_speed e0) (ef_objects e0) = Some (speed, st1)"
    "refers st1 (ef_objects e ! ef_speed e) speed"
    using read_written[OF attrs(3)] assms by (fastforce simp: reads_def savable_effect_def)
  obtain k st2 where k: "kind_Deserialize L E ?node (ef_kind e0) st1 = Some (k, st2)" "prefix st1 st2"
    "rel_effect_kind (refers st2) (parameters e) k"
    using kind_written[OF LightEffect_Serialize_eq _ k0] assms by (fastforce simp: reads_def savable_effect_def)
  let ?e1 = "Effect_AssignLights (e0\<lparr>ef_base := (ef_base e0)\<lparr>eb_name := eb_name (ef_base e)\<rparr>, ef_objects := st2,
      ef_speed := speed, ef_kind := k\<rparr>)"
  have "LightEffect_Deserialize L E ?node e0 = Some ?e1"
    using attrs(2) by (simp add: LightEffect_Deserialize_def speed(1) k(1) DeserializeString_def)
  then have "LightEffect_Build L E ?node = Built ?e1"
    using attrs(1) e0 by (simp add: LightEffect_Build_def IsAttributeSet_def GetTypeFromJson_def GetAttributeValue_def)
  moreover have "ef_objects (Effect_AssignLights x) = ef_objects x" "ef_speed (Effect_AssignLights x) = ef_speed x"
    "ef_speedPlayer (Effect_AssignLights x) = ef_speedPlayer x" "ef_group (Effect_AssignLights x) = ef_group x"
    "ef_lightIdAnimationMap (Effect_AssignLights x) = ef_lightIdAnimationMap x" "ef_failed (Effect_AssignLights x) = ef_failed x" for x
    by (simp_all add: Effect_AssignLights_def split: effect_kind.split)
  ultimately show ?thesis
    using d k refers_prefix[OF k(2) speed(2)] by auto
qed

text \<open>Without a group there is nothing to sort and no animation to make.\<close>

lemma created_without_group:
  assumes "sorts E" "ef_group e = Some Group_new"
  shows "Iterator_CreateAnimations E e = e\<lparr>ef_lightIdAnimationMap := (if for_each_light (ef_kind e) then [] else ef_lightIdAnimationMap e)\<rparr>"
proof -
  have "mset (ev_sort E before []) = {#}" for before using assms(1) by (simp add: sorts_def)
  then have "ev_sort E before [] = []" for before by simp
  then show ?thesis
    using assms(2)
    by (cases "ef_kind e") (auto simp: Iterator_CreateAnimations_def Group_new_def CreateAnimations_def light_objects_def Let_def)
qed

lemma connect_effect:
  assumes "sorts E" "ef_group e = Some Group_new" "ef_lightIdAnimationMap e = []" "pl_speed (ef_speedPlayer e) = 1" "\<not> ef_failed e"
    and "type_name (ef_kind e) \<noteq> ''huestream.RadialEffect''"
    and "\<forall>a\<in>insert (ef_speed e) (set_effect_kind (ef_kind e)). a < length (ef_objects e) \<and> plain (ef_objects e ! a)"
  shows "\<exists>as e1. LightEffect_Enable E (Effect_SetPlayer (PositionPlayer p) e) = Some e1
    \<and> set as = insert (ef_speed e) (set_effect_kind (ef_kind e)) \<and> following (ev_now E) as (ef_objects e) e1
    \<and> ef_kind e1 = ef_kind e \<and> ef_speed e1 = ef_speed e \<and> ef_group e1 = ef_group e \<and> eb_name (ef_base e1) = eb_name (ef_base e)"
proof -
  obtain as where as: "set as = insert (ef_speed e) (set_effect_kind (ef_kind e))"
    using finite_list[of "insert (ef_speed e) (set_effect_kind (ef_kind e))"] finite_animations by auto
  let ?e = "Effect_AssignLights (Effect_SetPlayer (PositionPlayer p) e)"
  have f: "ef_objects ?e = ef_objects e" "ef_speed ?e = ef_speed e" "ef_speedPlayer ?e = ef_speedPlayer e" "ef_kind ?e = ef_kind e"
    "ef_lightIdAnimationMap ?e = ef_lightIdAnimationMap e" "ef_failed ?e = ef_failed e" "ef_group ?e = ef_group e"
    "ef_player ?e = PositionPlayer p" "eb_name (ef_base ?e) = eb_name (ef_base e)"
    by (simp_all add: Effect_AssignLights_def Effect_SetPlayer_def split: effect_kind.split)
  have created: "Iterator_CreateAnimations E ?e = ?e"
    using created_without_group[of E ?e] assms(1-3) f by simp
  have "set (GetAnimations ?e) \<subseteq> set_effect_kind (ef_kind e)"
    using kind_animations_subset[OF assms(3), of "ef_kind e"] unfolding GetAnimations_def f .
  then obtain e1 where e1: "AnimationEffect_Enable E ?e = Some e1" "same_effect ?e e1" "following (ev_now E) as (ef_objects e) e1"
    using connect_animations[of as E ?e p, unfolded created f] as assms(4,5,7) by auto
  have "Effect_AssignLights x = x" if "\<not> (\<exists>cs. ef_kind x = MultiChannelEffect cs)" for x
    using that by (auto simp: Effect_AssignLights_def split: effect_kind.split)
  then have "LightEffect_Enable E (Effect_SetPlayer (PositionPlayer p) e) = AnimationEffect_Enable E ?e"
    using assms(6) by (cases "ef_kind e") (auto simp: LightEffect_Enable_def Effect_SetPlayer_def)
  then show ?thesis using e1 as f by (auto simp: same_effect_def)
qed

lemma refers_plain: "refers st a x \<Longrightarrow> x < length st \<and> plain (st ! x)"
  by (simp add: refers_def shows_same_def)

lemma rel_kind_refers:
  assumes "rel_effect_kind (refers st) k k1" "x \<in> set_effect_kind k1"
  shows "x < length st \<and> plain (st ! x)"
proof -
  obtain z where "set_effect_kind z \<subseteq> {(a, x). refers st a x}" "map_effect_kind snd z = k1"
    using assms(1) by (auto simp: effect_kind.in_rel)
  moreover from this(2) obtain a where "(a, x) \<in> set_effect_kind z" using assms(2) by (auto simp: effect_kind.set_map)
  ultimately have "refers st a x" by blast
  then show ?thesis by (rule refers_plain)
qed

lemma effect_connected:
  assumes "savable_effect e" "sorts E"
  shows "\<exists>e1 e2. LightEffect_Build L E (LightEffect_Serialize e (JNode [])) = Built e1
    \<and> LightEffect_Enable E (Effect_SetPlayer (PositionPlayer p) e1) = Some e2 \<and> alike_effect (ev_now E) e e2"
proof -
  obtain e1 where e1: "LightEffect_Build L E (LightEffect_Serialize e (JNode [])) = Built e1"
    "eb_name (ef_base e1) = eb_name (ef_base e)" "ef_speedPlayer e1 = Player_new" "ef_group e1 = Some Group_new"
    "ef_lightIdAnimationMap e1 = []" "\<not> ef_failed e1" "refers (ef_objects e1) (ef_objects e ! ef_speed e) (ef_speed e1)"
    "rel_effect_kind (refers (ef_objects e1)) (parameters e) (ef_kind e1)"
    using effect_built[OF assms(1), of L E] by blast
  have "type_name (ef_kind e1) = type_name (ef_kind e)"
    using e1(8) by (metis effect_kind.in_rel parameters_def type_name_map)
  then have radial: "type_name (ef_kind e1) \<noteq> ''huestream.RadialEffect''" using assms(1) by (simp add: savable_effect_def)
  have ok: "\<forall>a\<in>insert (ef_speed e1) (set_effect_kind (ef_kind e1)). a < length (ef_objects e1) \<and> plain (ef_objects e1 ! a)"
    using refers_plain[OF e1(7)] rel_kind_refers[OF e1(8)] by blast
  have "pl_speed (ef_speedPlayer e1) = 1" by (simp add: e1(3) Player_new_def)
  then obtain as e2 where e2: "LightEffect_Enable E (Effect_SetPlayer (PositionPlayer p) e1) = Some e2"
    "following (ev_now E) as (ef_objects e1) e2" "ef_kind e2 = ef_kind e1" "ef_speed e2 = ef_speed e1"
    "ef_group e2 = ef_group e1" "eb_name (ef_base e2) = eb_name (ef_base e1)"
    using connect_effect[OF assms(2) e1(4,5) _ e1(6) radial ok] by blast
  then have "alike_effect (ev_now E) e e2" using e1 by (auto simp: alike_effect_def)
  then show ?thesis using e1(1) e2(1) by blast
qed

lemma effects_stored:
  assumes "sorts E"
  shows "effect_storage (LightEffect_in_action L E) savable_effect (alike_effect (ev_now E))"
proof
  fix e assume e: "savable_effect e"
  obtain e1 e2 where 1: "LightEffect_Build L E (LightEffect_Serialize e (JNode [])) = Built e1"
    "LightEffect_Enable E (Effect_SetPlayer (PositionPlayer ActionPlayer_new) e1) = Some e2" "alike_effect (ev_now E) e e2"
    using effect_connected[OF e assms, of L ActionPlayer_new] by blast
  show "\<exists>e1. fx_build (LightEffect_in_action L E) (fx_serialize (LightEffect_in_action L E) e (JNode [])) = Built e1"
    using 1(1) by (simp add: LightEffect_in_action_def)
  have "\<not> ef_failed e1" using effect_built[OF e, of L E] 1(1) by auto
  then show "alike_effect (ev_now E) e (stored (LightEffect_in_action L E) e)"
    using 1 by (simp add: stored_def LightEffect_in_action_def attempt_def Effect_SetPlayer_def)
qed

lemma at_time_sorts: "sorts (at_time now)"
  by (simp add: sorts_def at_time_def mset_place)

interpretation stored_effects: effect_storage "LightEffect_in_action L (at_time now)" savable_effect "alike_effect now" for L now
  using effects_stored[OF at_time_sorts, of L now] by (simp add: at_time_def)


section \<open>What is read back looks the same\<close>

fun placed :: "'a effect_kind \<Rightarrow> bool" where
  "placed (AreaEffect c areas) \<longleftrightarrow> True"
| "placed (LightSourceEffect c x y radius) \<longleftrightarrow> True"
| "placed (SphereLightSourceEffect c x y z radius) \<longleftrightarrow> True"
| "placed k \<longleftrightarrow> False"

lemma placed_map: "placed (map_effect_kind f k) = placed k"
  by (cases k) simp_all

lemma placed_animations: "placed k \<Longrightarrow> kind_animations m (map_effect_kind f k) = map f (kind_animations m' k)"
proof -
  have "color_list (map_color_animations f c) = map f (color_list c)" for c by (cases c) (simp split: option.split)
  then show "placed k \<Longrightarrow> kind_animations m (map_effect_kind f k) = map f (kind_animations m' k)" by (cases k) simp_all
qed

lemma placed_set: "placed k \<Longrightarrow> set (kind_animations m k) = set_effect_kind k"
  by (intro kind_animations_set) (cases k; simp)

lemma placed_color: "placed k \<Longrightarrow> kind_color marked m channel_of k = kind_color marked' m' channel_of' k"
  by (cases k) simp_all

lemma map_referred:
  assumes "rel_effect_kind (refers st) k k1" "\<And>a x. a \<in> set_effect_kind k \<Longrightarrow> refers st a x \<Longrightarrow> f a = g x"
  shows "map_effect_kind f k = map_effect_kind g k1"
proof -
  obtain z where z: "set_effect_kind z \<subseteq> {(a, x). refers st a x}" "map_effect_kind fst z = k" "map_effect_kind snd z = k1"
    using assms(1) by (auto simp: effect_kind.in_rel)
  have "f (fst p) = g (snd p)" if "p \<in> set_effect_kind z" for p
    using that z(1) assms(2)[of "fst p" "snd p"] unfolding z(2)[symmetric] by (auto simp: effect_kind.set_map)
  then have "map_effect_kind (f \<circ> fst) z = map_effect_kind (g \<circ> snd) z" by (intro effect_kind.map_cong0) simp
  then show ?thesis unfolding z(2,3)[symmetric] by (simp add: effect_kind.map_comp)
qed

definition lengths_of :: "real list \<Rightarrow> real" where
  "lengths_of ls = (let (largestLength, allAnimationsAreEndless) =
       fold (\<lambda>l (largest, endless). if l \<noteq> DBL_INF \<and> l > largest then (l, False) else (largest, endless)) ls (0, True)
     in if allAnimationsAreEndless then DBL_INF else largestLength)"

lemma GetLength_eq: "Effect_GetLength e = lengths_of (map (\<lambda>a. GetTotalLength (ef_objects e ! a)) (GetAnimations e))"
  by (simp add: Effect_GetLength_def lengths_of_def IsEndless_def fold_map comp_def Let_def)

text \<open>Effects that follow: at normal speed, with animations that end together if they end.\<close>

definition regular :: "light_effect \<Rightarrow> bool" where
  "regular e \<longleftrightarrow> placed (ef_kind e) \<and> value_at (ef_objects e ! ef_speed e) = (\<lambda>x. 1) \<and> IsEndless (ef_objects e ! ef_speed e)
     \<and> (\<forall>a\<in>set (GetAnimations e). Effect_GetLength e \<le> GetTotalLength (ef_objects e ! a))"

text \<open>What a regular effect with parameters \<open>k\<close> shows at a position.\<close>

definition reference_color :: "animation effect_kind \<Rightarrow> real \<Rightarrow> Light \<Rightarrow> Color" where
  "reference_color k x = kind_color [] [] Map.empty (map_effect_kind (\<lambda>a. value_at a x) k)"

lemma shown_reference:
  assumes "placed (ef_kind e)" "\<forall>a\<in>set (GetAnimations e). shown x st (ef_objects e) a \<and> x < GetTotalLength (st ! a)"
  shows "LightEffect_GetColor e = reference_color (map_effect_kind (\<lambda>a. st ! a) (ef_kind e)) x"
proof -
  have "map_effect_kind (\<lambda>a. an_value (ef_objects e ! a)) (ef_kind e) = map_effect_kind (\<lambda>a. value_at (st ! a) x) (ef_kind e)"
    using assms(2) unfolding GetAnimations_def placed_set[OF assms(1)] by (intro effect_kind.map_cong0) (simp add: shown_def)
  then show ?thesis
    using placed_color[of "map_effect_kind (\<lambda>a. value_at (st ! a) x) (ef_kind e)"] assms(1)
    by (simp add: LightEffect_GetColor_def shown_color_def reference_color_def effect_kind.map_comp comp_def placed_map)
qed

lemma same_at_length: "same_at as st st1 \<Longrightarrow> a \<in> set as \<Longrightarrow> GetTotalLength (st1 ! a) = GetTotalLength (st ! a)"
  by (simp add: same_at_def same_animation_def)

lemma regular_following:
  assumes "following t0 as st e" "placed (ef_kind e)" "\<forall>x\<in>{0..<DBL_INF}. value_at (st ! ef_speed e) x = 1" "IsEndless (st ! ef_speed e)"
    and "\<forall>a\<in>set (GetAnimations e). real_of_int position < GetTotalLength (st ! a)"
    and "t0 \<le> ev_now E" "real_of_int (ev_now E - t0) < DBL_INF" "0 \<le> position"
  shows "\<exists>e1. attempt (LightEffect_Render E) (set_position position e) = e1 \<and> same_effect e e1 \<and> following t0 as st e1
    \<and> Effect_GetLength e1 = Effect_GetLength e
    \<and> LightEffect_GetColor e1 = reference_color (map_effect_kind (\<lambda>a. st ! a) (ef_kind e)) (real_of_int position)"
proof -
  have one: "value_at (st ! ef_speed e) (real_of_int (ev_now E - t0)) = 1" using assms(3,6,7) by simp
  obtain e1 where e1: "LightEffect_Render E (set_position position e) = Some e1" "same_effect e e1" "following t0 as st e1"
    "\<forall>a\<in>set (GetAnimations e). shown (real_of_int position) st (ef_objects e1) a"
    using render_following[OF assms(1) one assms(4,6-8)] by blast
  have same: "GetAnimations e1 = GetAnimations e" "ef_kind e1 = ef_kind e"
    using same_effect_animations[OF e1(2)] e1(2) by (simp_all add: same_effect_def)
  have at: "same_at as st (ef_objects e)" "same_at as st (ef_objects e1)" "set (GetAnimations e) \<subseteq> set as"
    using assms(1) e1(3) by (simp_all add: following_def)
  then have "\<forall>a\<in>set (GetAnimations e). GetTotalLength (ef_objects e1 ! a) = GetTotalLength (ef_objects e ! a)"
    using same_at_length by (metis subsetD)
  then have len: "Effect_GetLength e1 = Effect_GetLength e" unfolding GetLength_eq same by (intro arg_cong[of _ _ lengths_of]) simp
  have "\<not> ef_failed (set_position position e)"
    using assms(1) by (auto simp: following_def set_position_def split: effect_player.split)
  moreover have "LightEffect_GetColor e1 = reference_color (map_effect_kind (\<lambda>a. st ! a) (ef_kind e)) (real_of_int position)"
    using shown_reference[of e1 "real_of_int position" st] assms(2,5) e1(4) same by simp
  ultimately show ?thesis using e1 len by (simp add: attempt_def)
qed

lemma lengths_of_nonneg: "0 \<le> lengths_of ls"
proof -
  have "0 \<le> m \<Longrightarrow> 0 \<le> fst (fold (\<lambda>l (largest, endless). if l \<noteq> DBL_INF \<and> l > largest then (l, False) else (largest, endless)) ls (m, b))"
    for m b by (induction ls arbitrary: m b) auto
  from this[of 0 True] show ?thesis using DBL_INF_pos by (auto simp: lengths_of_def split: prod.split)
qed

lemma regular_renders:
  assumes "following t0 as (ef_objects e) e" "regular e" "t0 \<le> ev_now E" "real_of_int (ev_now E - t0) < DBL_INF" "0 \<le> position"
    and "real_of_int position < Effect_GetLength e"
  shows "\<exists>e1. attempt (LightEffect_Render E) (set_position position e) = e1 \<and> Effect_IsEnabled (ef_base e1)
    \<and> Effect_GetLength e1 = Effect_GetLength e \<and> LightEffect_GetColor e1 = reference_color (parameters e) (real_of_int position)"
proof -
  have r: "placed (ef_kind e)" "\<forall>x\<in>{0..<DBL_INF}. value_at (ef_objects e ! ef_speed e) x = 1" "IsEndless (ef_objects e ! ef_speed e)"
    "\<forall>a\<in>set (GetAnimations e). real_of_int position < GetTotalLength (ef_objects e ! a)"
    using assms(2,6) by (auto simp: regular_def)
  obtain e1 where "attempt (LightEffect_Render E) (set_position position e) = e1" "following t0 as (ef_objects e) e1"
    "Effect_GetLength e1 = Effect_GetLength e" "LightEffect_GetColor e1 = reference_color (parameters e) (real_of_int position)"
    using regular_following[OF assms(1) r assms(3-5)] unfolding parameters_def by blast
  then show ?thesis by (simp add: following_def Effect_IsEnabled_def)
qed

lemma alike_lengths:
  assumes "rel_effect_kind (refers st) (parameters e) (ef_kind e1)" "placed (ef_kind e)"
  shows "placed (ef_kind e1)" "map (\<lambda>a. GetTotalLength (st ! a)) (GetAnimations e1) = map (\<lambda>a. GetTotalLength (ef_objects e ! a)) (GetAnimations e)"
proof -
  have "map_effect_kind (\<lambda>_. ()) (parameters e) = map_effect_kind (\<lambda>_. ()) (ef_kind e1)" by (rule map_referred[OF assms(1)]) simp
  then show p: "placed (ef_kind e1)" using assms(2) placed_map by (metis parameters_def)
  have "map_effect_kind GetTotalLength (parameters e) = map_effect_kind (\<lambda>a. GetTotalLength (st ! a)) (ef_kind e1)"
    by (rule map_referred[OF assms(1)]) (simp add: refers_def shows_same_def)
  then have "map_effect_kind (\<lambda>a. GetTotalLength (ef_objects e ! a)) (ef_kind e) = map_effect_kind (\<lambda>a. GetTotalLength (st ! a)) (ef_kind e1)"
    by (simp add: parameters_def effect_kind.map_comp comp_def)
  then show "map (\<lambda>a. GetTotalLength (st ! a)) (GetAnimations e1) = map (\<lambda>a. GetTotalLength (ef_objects e ! a)) (GetAnimations e)"
    unfolding GetAnimations_def using placed_animations[OF p] placed_animations[OF assms(2)] by metis
qed

lemma alike_length:
  assumes "following t1 as st e1" "rel_effect_kind (refers st) (parameters e) (ef_kind e1)" "regular e"
  shows "Effect_GetLength e1 = Effect_GetLength e"
proof -
  have "placed (ef_kind e)" using assms(3) by (simp add: regular_def)
  note len = alike_lengths(2)[OF assms(2) this]
  have "same_at as st (ef_objects e1)" "set (GetAnimations e1) \<subseteq> set as" using assms(1) by (simp_all add: following_def)
  then have "map (\<lambda>a. GetTotalLength (ef_objects e1 ! a)) (GetAnimations e1) = map (\<lambda>a. GetTotalLength (st ! a)) (GetAnimations e1)"
    using same_at_length by (intro map_cong) auto
  then show ?thesis unfolding GetLength_eq len[symmetric] by (simp only:)
qed

lemma alike_enabled:
  "alike_effect t1 e e1 \<Longrightarrow> regular e \<Longrightarrow> Effect_IsEnabled (ef_base e1) \<and> Effect_GetLength e1 = Effect_GetLength e"
  using alike_length by (auto simp: alike_effect_def following_def Effect_IsEnabled_def)

lemma alike_renders:
  assumes "alike_effect t1 e e1" "regular e" "t1 \<le> ev_now E" "real_of_int (ev_now E - t1) < DBL_INF" "0 \<le> position"
    and "real_of_int position < Effect_GetLength e"
  shows "\<exists>e2. attempt (LightEffect_Render E) (set_position position e1) = e2 \<and> Effect_IsEnabled (ef_base e2)
    \<and> Effect_GetLength e2 = Effect_GetLength e \<and> LightEffect_GetColor e2 = reference_color (parameters e) (real_of_int position)"
proof -
  let ?x = "real_of_int position"
  obtain as st where f: "following t1 as st e1" and sp: "refers st (ef_objects e ! ef_speed e) (ef_speed e1)"
    and k: "rel_effect_kind (refers st) (parameters e) (ef_kind e1)" using assms(1) by (auto simp: alike_effect_def)
  have placed: "placed (ef_kind e)" using assms(2) by (simp add: regular_def)
  note len = alike_lengths[OF k placed]
  have same_len: "Effect_GetLength e1 = Effect_GetLength e" by (rule alike_length[OF f k assms(2)])
  have all: "\<forall>l\<in>set (map (\<lambda>a. GetTotalLength (ef_objects e ! a)) (GetAnimations e)). ?x < l"
    using assms(2,6) by (auto simp: regular_def)
  have "\<forall>l\<in>set (map (\<lambda>a. GetTotalLength (st ! a)) (GetAnimations e1)). ?x < l" unfolding len(2) by (rule all)
  then have short: "\<forall>a\<in>set (GetAnimations e1). ?x < GetTotalLength (st ! a)" by simp
  have speed: "\<forall>x\<in>{0..<DBL_INF}. value_at (st ! ef_speed e1) x = 1" "IsEndless (st ! ef_speed e1)"
    using sp assms(2) by (auto simp: refers_def shows_same_def regular_def IsEndless_def)
  obtain e2 where e2: "attempt (LightEffect_Render E) (set_position position e1) = e2" "following t1 as st e2"
    "Effect_GetLength e2 = Effect_GetLength e1" "LightEffect_GetColor e2 = reference_color (map_effect_kind (\<lambda>a. st ! a) (ef_kind e1)) ?x"
    using regular_following[OF f len(1) speed short assms(3-5)] by blast
  have "set_effect_kind (parameters e) = (\<lambda>a. ef_objects e ! a) ` set (GetAnimations e)"
    by (simp add: parameters_def effect_kind.set_map GetAnimations_def placed_set[OF placed])
  then have "\<forall>a\<in>set_effect_kind (parameters e). ?x < GetTotalLength a" using all by auto
  then have "map_effect_kind (\<lambda>a. value_at a ?x) (parameters e) = map_effect_kind (\<lambda>a. value_at (st ! a) ?x) (ef_kind e1)"
    using assms(5) by (intro map_referred[OF k]) (simp add: refers_def shows_same_def)
  then have "reference_color (map_effect_kind (\<lambda>a. st ! a) (ef_kind e1)) ?x = reference_color (parameters e) ?x"
    by (simp add: reference_color_def effect_kind.map_comp comp_def)
  then show ?thesis using e2 same_len by (simp add: following_def Effect_IsEnabled_def)
qed

lemma fold_mix_same:
  "list_all2 (\<lambda>a b. ec_isEnabled C a = ec_isEnabled C b \<and> (ec_isEnabled C a \<longrightarrow> ec_getColor C a light = ec_getColor C b light)) as bs \<Longrightarrow>
   fold (mix_layer C light) as c = fold (mix_layer C light) bs c"
  by (induction arbitrary: c rule: list_all2_induct) (auto simp: mix_layer_def)

lemma render_same:
  assumes "list_all2 (\<lambda>a b. ec_isFinished C a = ec_isFinished C b \<and> ec_isEnabled C a = ec_isEnabled C b
      \<and> (ec_isEnabled C a \<longrightarrow> ec_isEnabled C (ec_render C a) = ec_isEnabled C (ec_render C b)
            \<and> ec_getColor C (ec_render C a) = ec_getColor C (ec_render C b))) as bs"
  shows "mx_group (Mixer_Render C (m\<lparr>mx_effects := as\<rparr>)) = mx_group (Mixer_Render C (m\<lparr>mx_effects := bs\<rparr>))"
proof -
  let ?f = "\<lambda>es. map (\<lambda>e. if ec_isEnabled C e then ec_render C e else e) (filter (\<lambda>e. \<not> ec_isFinished C e) es)"
  have "list_all2 (\<lambda>a b. ec_isEnabled C a = ec_isEnabled C b \<and> (ec_isEnabled C a \<longrightarrow> ec_getColor C a light = ec_getColor C b light))
      (?f as) (?f bs)" for light
    using assms by (induction rule: list_all2_induct) auto
  then have "fold (mix_layer C light) (?f as) c = fold (mix_layer C light) (?f bs) c" for light c by (rule fold_mix_same)
  then show ?thesis
    by (simp add: Mixer_Render_def ApplyEffectsOnLights_def RenderEffects_def RemoveFinishedEffects_def ApplyEffectsOnLight_def
        cong: if_cong)
qed

text \<open>An action whose effect plays and can be saved.\<close>

definition playing_action :: "int \<Rightarrow> light_effect action \<Rightarrow> bool" where
  "playing_action t0 a \<longleftrightarrow> 0 \<le> ac_startPosition a
     \<and> (\<forall>e. ac_effect a = Some e \<longrightarrow> regular e \<and> (\<exists>as. following t0 as (ef_objects e) e))"

lemma action_same:
  fixes L :: json_lib
  assumes "playing_action t0 a" "ac_base b = ac_base a" "ac_startPosition b = ac_startPosition a" "ac_endPosition b = ac_endPosition a"
    and "rel_option (alike_effect t1) (ac_effect a) (ac_effect b)" "ac_bound b = ac_bound a"
    and "t0 \<le> ev_now E" "t1 \<le> ev_now E" "real_of_int (ev_now E - t0) < DBL_INF" "real_of_int (ev_now E - t1) < DBL_INF"
    and "real_of_int now < DBL_INF"
  defines "X \<equiv> LightEffect_in_action L E"
  shows "Action_IsEnabled X now a = Action_IsEnabled X now b" "Action_IsEnabled X now a \<Longrightarrow>
     Action_IsEnabled X now (Action_Render X now a) \<and> Action_IsEnabled X now (Action_Render X now b)
     \<and> ec_getColor (Action_class X now) (Action_Render X now a) = ec_getColor (Action_class X now) (Action_Render X now b)"
proof -
  have same: "\<exists>e1. ac_effect b = Some e1 \<and> alike_effect t1 e e1 \<and> Effect_IsEnabled (ef_base e1) \<and> Effect_IsEnabled (ef_base e)
      \<and> Effect_GetLength e1 = Effect_GetLength e" if "ac_effect a = Some e" for e
  proof -
    obtain e1 where e1: "ac_effect b = Some e1" "alike_effect t1 e e1" using assms(5) \<open>ac_effect a = Some e\<close> by (cases "ac_effect b") auto
    moreover have "regular e" "Effect_IsEnabled (ef_base e)"
      using assms(1) that by (auto simp: playing_action_def following_def Effect_IsEnabled_def)
    ultimately show ?thesis using alike_enabled by blast
  qed
  have none: "ac_effect a = None \<Longrightarrow> ac_effect b = None" using assms(5) by (cases "ac_effect b") auto
  have fields: "fx_isEnabled X e = Effect_IsEnabled (ef_base e)" "fx_getLength X = Effect_GetLength" "fx_render X = attempt (LightEffect_Render E)"
    "fx_setPosition X = set_position" "fx_getColor X = LightEffect_GetColor" for e
    by (simp_all add: X_def LightEffect_in_action_def)
  show same_enabled: "Action_IsEnabled X now a = Action_IsEnabled X now b"
    using same none assms(3,4,6)
    by (cases "ac_effect a") (auto simp: Action_IsEnabled_def IsBetweenStartAndEnd_def GetCalculatedEndPosition_def fields Let_def cong: if_cong)
  assume on: "Action_IsEnabled X now a"
  then obtain e where e: "ac_effect a = Some e" by (auto simp: Action_IsEnabled_def split: option.splits)
  obtain e1 where e1: "ac_effect b = Some e1" "alike_effect t1 e e1" "Effect_GetLength e1 = Effect_GetLength e" using same[OF e] by blast
  have start: "0 \<le> ac_startPosition a" using assms(1) by (simp add: playing_action_def)
  have window: "ac_startPosition a < now" "Effect_GetLength e \<noteq> DBL_INF \<longrightarrow> real_of_int now < real_of_int (ac_startPosition a) + Effect_GetLength e"
    using action_window[OF on start] e lengths_of_nonneg by (auto simp: fields GetLength_eq)
  have pos: "0 \<le> now - ac_startPosition a" "real_of_int (now - ac_startPosition a) < Effect_GetLength e"
    using window start assms(11) by (cases "Effect_GetLength e = DBL_INF"; simp)+
  obtain as where f: "following t0 as (ef_objects e) e" and reg: "regular e" using assms(1) e by (auto simp: playing_action_def)
  let ?p = "now - ac_startPosition a"
  note r = regular_renders[OF f reg assms(7,9) pos] alike_renders[OF e1(2) reg assms(8,10) pos]
  have bound: "ac_bound a" "IsBetweenStartAndEnd X now a" using on e by (simp_all add: Action_IsEnabled_def)
  have render: "Action_Render X now a = a\<lparr>ac_effect := Some (attempt (LightEffect_Render E) (set_position ?p e))\<rparr>"
    "Action_Render X now b = b\<lparr>ac_effect := Some (attempt (LightEffect_Render E) (set_position ?p e1))\<rparr>"
    using bound(1) e e1(1) assms(3,6) by (simp_all add: Action_Render_def fields)
  show "Action_IsEnabled X now (Action_Render X now a) \<and> Action_IsEnabled X now (Action_Render X now b)
     \<and> ec_getColor (Action_class X now) (Action_Render X now a) = ec_getColor (Action_class X now) (Action_Render X now b)"
    using r bound e e1 assms(3,4,6) unfolding render
    by (auto simp: Action_IsEnabled_def IsBetweenStartAndEnd_def GetCalculatedEndPosition_def Action_class_def fields Let_def cong: if_cong)
qed


section \<open>A script\<close>

text \<open>The fading area of before as the effect of an action.\<close>

lemma rewind_simps:
  "rewind (Animation m v (ConstantAnimation l)) = Some (Animation 0 v (ConstantAnimation l))"
  "rewind (Animation m v (TweenAnimation b e t True ty first)) = Some (Animation 0 (tween_value ty 0 b e t) (TweenAnimation b e t True ty True))"
  by (simp_all add: rewind_def)

definition faded :: light_effect where
  "faded = attempt (LightEffect_Enable (at_time 0)) (Effect_SetPlayer (PositionPlayer ActionPlayer_new) red_to_blue)"

lemma faded_eq: "faded = red_to_blue\<lparr>ef_base := Effect_Enable (ef_base red_to_blue),
    ef_objects := [steady 1, steady 1, steady 1, steady 1, steady 1,
       Animation 0 1 (TweenAnimation 1 0 2000 True Linear True), steady 0, Animation 0 0 (TweenAnimation 0 1 2000 True Linear True)],
    ef_player := PositionPlayer \<lparr>ap_animationList = [5, 6, 7, 4], ap_speed = 1, ap_running = True, ap_position = 0\<rparr>,
    ef_speedPlayer := Player_new\<lparr>pl_animations := [0], pl_state := PlayerRunning\<rparr>\<rparr>"
  by (simp add: faded_def attempt_def LightEffect_Enable_def Effect_SetPlayer_def red_to_blue_simps AnimationEffect_Enable_def
    InitializeAnimations_def Iterator_CreateAnimations_def GetAnimations_def bind_player_def ActionPlayer_BindAnimations_def
    RewindNewAnimations_def Player_BindAnimations_def AnimationIsBound_def ActionPlayer_new_def Player_new_def start_player_def
    Player_Start_def advance_def at_time_def ActionPlayer_Start_def steady_def ConstantAnimation_new_def TweenAnimation_new_def nth_append
    rewind_simps llround_def trunc_def tween_value_def linearTween_def)

lemma faded_simps:
  "ef_kind faded = AreaEffect (ColorAnimations 5 6 7 4 None False) [Area_new (-1) 1 0 (-1) ''left'' False]" "ef_speed faded = 0"
  "ef_objects faded = [steady 1, steady 1, steady 1, steady 1, steady 1,
       Animation 0 1 (TweenAnimation 1 0 2000 True Linear True), steady 0, Animation 0 0 (TweenAnimation 0 1 2000 True Linear True)]"
  "GetAnimations faded = [5, 6, 7, 4]"
  by (simp_all add: faded_eq red_to_blue_simps GetAnimations_def)

lemma faded_savable: "savable_effect faded"
  by (simp add: savable_effect_def parameters_def faded_simps writable_def) (simp add: steady_def ConstantAnimation_new_def)

lemma faded_regular: "regular faded" "following 0 [0, 5, 6, 7, 4] (ef_objects faded) faded"
proof -
  have "DBL_INF \<noteq> 2000" "2000 \<le> DBL_INF" using less_DBL_INF[of 2000] by auto
  then show "regular faded"
    by (simp add: regular_def faded_simps GetLength_eq lengths_of_def IsEndless_def)
  show "following 0 [0, 5, 6, 7, 4] (ef_objects faded) faded"
    unfolding following_def faded_simps
    by (simp add: same_at_def same_refl)
       (simp add: faded_eq playing_since_def Player_new_def Effect_Enable_def red_to_blue_simps)
qed

definition parser :: json_lib where
  "parser = \<lparr>jl_text = (\<lambda>_. []), jl_number = (\<lambda>_. 0), jl_bool = (\<lambda>_. False)\<rparr>"

definition fading_script :: "light_effect light_script" where
  "fading_script = (let X = LightEffect_in_action parser (at_time 0)
     in SetActions [Action_new X ''fade'' 1 (Some red_to_blue) 500 (-1), Action_new X ''gap'' 0 None 2000 9000]
          (LightScript_new ''fire'' 10000 [\<lparr>loc_x = 0, loc_y = 1, loc_z = 0\<rparr>]))"

lemma fading_script_simps:
  "map (\<lambda>a. (eb_name (ac_base a), eb_layer (ac_base a), eb_state (ac_base a), ac_startPosition a, ac_endPosition a, ac_effect a)) (ls_actions fading_script)
     = [(''gap'', 0, EnabledState, 2000, 9000, None), (''fade'', 1, EnabledState, 500, -1, Some faded)]" "ls_length fading_script = 10000"
proof -
  have f: "fx_attach (LightEffect_in_action parser (at_time 0)) red_to_blue = faded" by (simp add: LightEffect_in_action_def faded_def)
  show "map (\<lambda>a. (eb_name (ac_base a), eb_layer (ac_base a), eb_state (ac_base a), ac_startPosition a, ac_endPosition a, ac_effect a)) (ls_actions fading_script)
     = [(''gap'', 0, EnabledState, 2000, 9000, None), (''fade'', 1, EnabledState, 500, -1, Some faded)]"
    by (simp add: fading_script_def SetActions_def AddAction_def insert_action_def FindActionIndex_def LightScript_new_def
        Action_new_def SetEffect_def Effect_new_def f Let_def)
  show "ls_length fading_script = 10000"
    unfolding fading_script_def SetActions_def Let_def by (subst fold_AddAction_fields) (simp add: LightScript_new_def)
qed

lemma fading_script_ok:
  "\<forall>a\<in>set (ls_actions fading_script). saved_action savable_effect a \<and> playing_action 0 a"
  "sorted (map action_key (ls_actions fading_script))" "is_int (ls_length fading_script)"
proof -
  have "saved_action savable_effect a \<and> playing_action 0 a" if "a \<in> set (ls_actions fading_script)" for a
  proof -
    have "(eb_name (ac_base a), eb_layer (ac_base a), eb_state (ac_base a), ac_startPosition a, ac_endPosition a, ac_effect a)
        \<in> set [(''gap'', 0, EnabledState, 2000, 9000, None), (''fade'', 1, EnabledState, 500, -1, Some faded)]"
      unfolding fading_script_simps(1)[symmetric] using that by force
    then show ?thesis
      using faded_savable faded_regular by (auto simp: saved_action_def playing_action_def is_int_def)
  qed
  then show "\<forall>a\<in>set (ls_actions fading_script). saved_action savable_effect a \<and> playing_action 0 a" by blast
  have "map action_key (ls_actions fading_script) = map (\<lambda>(n, l, st, p, e, f). (l, p)) (map (\<lambda>a. (eb_name (ac_base a),
      eb_layer (ac_base a), eb_state (ac_base a), ac_startPosition a, ac_endPosition a, ac_effect a)) (ls_actions fading_script))"
    by (simp add: action_key_def)
  then show "sorted (map action_key (ls_actions fading_script))" unfolding fading_script_simps(1) by simp
  show "is_int (ls_length fading_script)" by (simp add: fading_script_simps(2) is_int_def)
qed



end
