(* ===== verification/SequenceEffect.thy ===== *)
theory SequenceEffect imports Areas Mixer "HOL-Library.Word" begin

text \<open>
  \<open>huestream/effect/effects/SequenceEffect\<close>: colours that step through the areas of the room in which
  there is a light. \<open>None\<close> is the division by the number of areas when there is none.
\<close>

section \<open>State and operations\<close>

datatype SequenceMode = SequenceModeAll | SequenceModeRound | SequenceModeFrontBack | SequenceModeLeftRight | SequenceModeLast

record sequence_effect =
  se_base :: effect_base
  se_sequenceList :: "IArea list"
  se_bri :: real
  se_colors :: "Color list"
  se_stepCount :: "64 word"
  se_mode :: SequenceMode
  se_group :: "Group option"

definition Sequence_AddArea :: "IArea \<Rightarrow> sequence_effect \<Rightarrow> bool \<times> sequence_effect" where
  "Sequence_AddArea area e = (case se_group e of
      None \<Rightarrow> (False, e)
    | Some g \<Rightarrow>
        (let found = (\<exists>light\<in>set (g_lights g). isInArea area (l_position light))
         in (found, if found then e\<lparr>se_sequenceList := se_sequenceList e @ [area]\<rparr> else e)))"

text \<open>The named areas that the modes use.\<close>

definition Area_All :: IArea where "Area_All = Area_new (-1) 1 1 (-1) ''All'' False"
definition Area_FrontHalf :: IArea where "Area_FrontHalf = Area_new (-1) 1 1 0 ''FrontHalf'' False"
definition Area_BackHalf :: IArea where "Area_BackHalf = Area_new (-1) 0 1 (-1) ''BackHalf'' False"
definition Area_Left :: IArea where "Area_Left = Area_new (-1) 1 (- 1 / 3) (-1) ''Left'' False"
definition Area_CenterLR :: IArea where "Area_CenterLR = Area_new (- 1 / 3) 1 (1 / 3) (-1) ''CenterLR'' False"
definition Area_Right :: IArea where "Area_Right = Area_new (1 / 3) 1 1 (-1) ''Right'' False"
definition Area_FrontLeft :: IArea where "Area_FrontLeft = Area_new (-1) 1 (- 1 / 3) (1 / 3) ''FrontLeft'' False"
definition Area_FrontCenter :: IArea where "Area_FrontCenter = Area_new (- 1 / 3) 1 (1 / 3) (1 / 3) ''FrontCenter'' False"
definition Area_FrontRight :: IArea where "Area_FrontRight = Area_new (1 / 3) 1 1 (1 / 3) ''FrontRight'' False"
definition Area_CenterLeft :: IArea where "Area_CenterLeft = Area_new (-1) (1 / 3) (- 1 / 3) (- 1 / 3) ''CenterLeft'' False"
definition Area_Center :: IArea where "Area_Center = Area_new (- 1 / 3) (1 / 3) (1 / 3) (- 1 / 3) ''Center'' False"
definition Area_CenterRight :: IArea where "Area_CenterRight = Area_new (1 / 3) (1 / 3) 1 (- 1 / 3) ''CenterRight'' False"
definition Area_BackLeft :: IArea where "Area_BackLeft = Area_new (-1) (- 1 / 3) (- 1 / 3) (-1) ''BackLeft'' False"
definition Area_BackCenter :: IArea where "Area_BackCenter = Area_new (- 1 / 3) (- 1 / 3) (1 / 3) (-1) ''BackCenter'' False"
definition Area_BackRight :: IArea where "Area_BackRight = Area_new (1 / 3) (- 1 / 3) 1 (-1) ''BackRight'' False"

definition add_areas :: "IArea list \<Rightarrow> sequence_effect \<Rightarrow> sequence_effect" where
  "add_areas areas e = fold (\<lambda>area e. snd (Sequence_AddArea area e)) areas e"

definition Sequence_SetMode :: "SequenceMode \<Rightarrow> sequence_effect \<Rightarrow> sequence_effect" where
  "Sequence_SetMode mode e0 =
     (let e = e0\<lparr>se_mode := mode, se_sequenceList := []\<rparr>
      in case mode of
           SequenceModeAll \<Rightarrow> e\<lparr>se_sequenceList := [Area_All]\<rparr>
         | SequenceModeRound \<Rightarrow>
             (let e1 = add_areas [Area_FrontLeft] e;
                  (found, e2) = Sequence_AddArea Area_FrontCenter e1;
                  e3 = (if \<not> found then add_areas [Area_Center] e2 else e2)
              in add_areas [Area_FrontRight, Area_CenterRight, Area_BackRight, Area_BackCenter, Area_BackLeft, Area_CenterLeft] e3)
         | SequenceModeFrontBack \<Rightarrow> add_areas [Area_FrontHalf, Area_BackHalf] e
         | SequenceModeLeftRight \<Rightarrow> add_areas [Area_Left, Area_CenterLR, Area_Right] e
         | SequenceModeLast \<Rightarrow> e)"

definition SequenceEffect_new :: "string \<Rightarrow> nat \<Rightarrow> sequence_effect" where
  "SequenceEffect_new name layer = Sequence_SetMode SequenceModeAll \<lparr>se_base = Effect_new name layer, se_sequenceList = [],
     se_bri = 1 / 2, se_colors = [], se_stepCount = 0, se_mode = SequenceModeAll, se_group = None\<rparr>"

definition GetCurrentStepColor :: "sequence_effect \<Rightarrow> Color" where
  "GetCurrentStepColor e =
     (if se_colors e = [] then Color_default
      else ApplyBrightness (se_colors e ! (unat (se_stepCount e) mod length (se_colors e))) (se_bri e))"

definition Sequence_GetColor :: "sequence_effect \<Rightarrow> Light \<Rightarrow> Color option" where
  "Sequence_GetColor e light =
     (if se_colors e = [] then Some Color_default
      else if se_sequenceList e = [] then None
      else let activeArea = unat (se_stepCount e) mod length (se_sequenceList e)
           in Some (if isInArea (se_sequenceList e ! activeArea) (l_position light) then GetCurrentStepColor e else Color_default))"

definition Sequence_Step :: "sequence_effect \<Rightarrow> sequence_effect" where
  "Sequence_Step e = e\<lparr>se_stepCount := se_stepCount e + 1\<rparr>"

definition Sequence_AddColor :: "Color \<Rightarrow> sequence_effect \<Rightarrow> sequence_effect" where
  "Sequence_AddColor color e = e\<lparr>se_colors := se_colors e @ [color]\<rparr>"

definition Sequence_SetBri :: "real \<Rightarrow> sequence_effect \<Rightarrow> sequence_effect" where
  "Sequence_SetBri bri e = e\<lparr>se_bri := bri\<rparr>"

definition InceaseBri :: "real \<Rightarrow> sequence_effect \<Rightarrow> sequence_effect" where
  "InceaseBri amount e = e\<lparr>se_bri := min (se_bri e + amount) 1\<rparr>"

definition DecreaseBri :: "real \<Rightarrow> sequence_effect \<Rightarrow> sequence_effect" where
  "DecreaseBri amount e = e\<lparr>se_bri := max (se_bri e - amount) 0\<rparr>"

definition Sequence_UpdateGroup :: "Group option \<Rightarrow> sequence_effect \<Rightarrow> sequence_effect" where
  "Sequence_UpdateGroup g e = Sequence_SetMode (se_mode e) (e\<lparr>se_group := g\<rparr>)"

section \<open>The areas of a mode\<close>

definition lit :: "Light list \<Rightarrow> IArea \<Rightarrow> bool" where
  "lit lights area \<longleftrightarrow> (\<exists>light\<in>set lights. isInArea area (l_position light))"

lemma AddArea_eq:
  "se_group e = Some g \<Longrightarrow> Sequence_AddArea area e
    = (lit (g_lights g) area, if lit (g_lights g) area then e\<lparr>se_sequenceList := se_sequenceList e @ [area]\<rparr> else e)"
  by (simp add: Sequence_AddArea_def lit_def Let_def)

lemma add_areas_eq:
  "se_group e = Some g \<Longrightarrow> add_areas areas e = e\<lparr>se_sequenceList := se_sequenceList e @ filter (lit (g_lights g)) areas\<rparr>"
  unfolding add_areas_def by (induction areas arbitrary: e) (auto simp: AddArea_eq)

fun mode_areas :: "SequenceMode \<Rightarrow> (IArea \<Rightarrow> bool) \<Rightarrow> IArea list" where
  "mode_areas SequenceModeAll is_lit = [Area_All]"
| "mode_areas SequenceModeRound is_lit = filter is_lit ([Area_FrontLeft] @ (if is_lit Area_FrontCenter then [Area_FrontCenter] else [Area_Center])
     @ [Area_FrontRight, Area_CenterRight, Area_BackRight, Area_BackCenter, Area_BackLeft, Area_CenterLeft])"
| "mode_areas SequenceModeFrontBack is_lit = filter is_lit [Area_FrontHalf, Area_BackHalf]"
| "mode_areas SequenceModeLeftRight is_lit = filter is_lit [Area_Left, Area_CenterLR, Area_Right]"
| "mode_areas SequenceModeLast is_lit = []"

lemma SetMode_areas:
  "se_group e = Some g \<Longrightarrow> Sequence_SetMode mode e
    = e\<lparr>se_mode := mode, se_sequenceList := mode_areas mode (lit (g_lights g))\<rparr>"
  by (cases mode) (simp_all add: Sequence_SetMode_def add_areas_eq AddArea_eq Let_def)

text \<open>The areas of each mode but the last cover the floor.\<close>

definition on_floor :: "Location \<Rightarrow> bool" where
  "on_floor l \<longleftrightarrow> \<bar>loc_x l\<bar> \<le> 1 \<and> \<bar>loc_y l\<bar> \<le> 1"

lemma in_known:
  "isInArea Area_All l \<longleftrightarrow> (-1) \<le> loc_x l \<and> loc_x l \<le> 1 \<and> loc_y l \<le> 1 \<and> (-1) \<le> loc_y l"
  "isInArea Area_FrontHalf l \<longleftrightarrow> (-1) \<le> loc_x l \<and> loc_x l \<le> 1 \<and> loc_y l \<le> 1 \<and> 0 \<le> loc_y l"
  "isInArea Area_BackHalf l \<longleftrightarrow> (-1) \<le> loc_x l \<and> loc_x l \<le> 1 \<and> loc_y l \<le> 0 \<and> (-1) \<le> loc_y l"
  "isInArea Area_Left l \<longleftrightarrow> (-1) \<le> loc_x l \<and> loc_x l \<le> (- 1 / 3) \<and> loc_y l \<le> 1 \<and> (-1) \<le> loc_y l"
  "isInArea Area_CenterLR l \<longleftrightarrow> (- 1 / 3) \<le> loc_x l \<and> loc_x l \<le> (1 / 3) \<and> loc_y l \<le> 1 \<and> (-1) \<le> loc_y l"
  "isInArea Area_Right l \<longleftrightarrow> (1 / 3) \<le> loc_x l \<and> loc_x l \<le> 1 \<and> loc_y l \<le> 1 \<and> (-1) \<le> loc_y l"
  "isInArea Area_FrontLeft l \<longleftrightarrow> (-1) \<le> loc_x l \<and> loc_x l \<le> (- 1 / 3) \<and> loc_y l \<le> 1 \<and> (1 / 3) \<le> loc_y l"
  "isInArea Area_FrontCenter l \<longleftrightarrow> (- 1 / 3) \<le> loc_x l \<and> loc_x l \<le> (1 / 3) \<and> loc_y l \<le> 1 \<and> (1 / 3) \<le> loc_y l"
  "isInArea Area_FrontRight l \<longleftrightarrow> (1 / 3) \<le> loc_x l \<and> loc_x l \<le> 1 \<and> loc_y l \<le> 1 \<and> (1 / 3) \<le> loc_y l"
  "isInArea Area_CenterLeft l \<longleftrightarrow> (-1) \<le> loc_x l \<and> loc_x l \<le> (- 1 / 3) \<and> loc_y l \<le> (1 / 3) \<and> (- 1 / 3) \<le> loc_y l"
  "isInArea Area_Center l \<longleftrightarrow> (- 1 / 3) \<le> loc_x l \<and> loc_x l \<le> (1 / 3) \<and> loc_y l \<le> (1 / 3) \<and> (- 1 / 3) \<le> loc_y l"
  "isInArea Area_CenterRight l \<longleftrightarrow> (1 / 3) \<le> loc_x l \<and> loc_x l \<le> 1 \<and> loc_y l \<le> (1 / 3) \<and> (- 1 / 3) \<le> loc_y l"
  "isInArea Area_BackLeft l \<longleftrightarrow> (-1) \<le> loc_x l \<and> loc_x l \<le> (- 1 / 3) \<and> loc_y l \<le> (- 1 / 3) \<and> (-1) \<le> loc_y l"
  "isInArea Area_BackCenter l \<longleftrightarrow> (- 1 / 3) \<le> loc_x l \<and> loc_x l \<le> (1 / 3) \<and> loc_y l \<le> (- 1 / 3) \<and> (-1) \<le> loc_y l"
  "isInArea Area_BackRight l \<longleftrightarrow> (1 / 3) \<le> loc_x l \<and> loc_x l \<le> 1 \<and> loc_y l \<le> (- 1 / 3) \<and> (-1) \<le> loc_y l"
  by (simp_all add: Area_All_def Area_FrontHalf_def Area_BackHalf_def Area_Left_def Area_CenterLR_def Area_Right_def Area_FrontLeft_def Area_FrontCenter_def Area_FrontRight_def Area_CenterLeft_def Area_Center_def Area_CenterRight_def Area_BackLeft_def Area_BackCenter_def Area_BackRight_def Area_new_def)

definition floor_areas :: "IArea list" where
  "floor_areas = [Area_All, Area_FrontHalf, Area_BackHalf, Area_Left, Area_CenterLR, Area_Right, Area_FrontLeft, Area_FrontCenter, Area_FrontRight,
     Area_CenterLeft, Area_Center, Area_CenterRight, Area_BackLeft, Area_BackCenter, Area_BackRight]"

lemma areas_on_floor: "list_all (\<lambda>area. isInArea area l \<longrightarrow> on_floor l) floor_areas"
  unfolding floor_areas_def list.pred_inject in_known on_floor_def abs_le_iff by (intro conjI impI list.pred_inject(1); (elim conjE)?; linarith)

lemma floor_covered:
  assumes "on_floor l"
  shows "isInArea Area_FrontHalf l \<or> isInArea Area_BackHalf l"
    "isInArea Area_Left l \<or> isInArea Area_CenterLR l \<or> isInArea Area_Right l"
    "list_ex (\<lambda>area. isInArea area l) (drop 6 floor_areas)"
proof -
  have b: "-1 \<le> loc_x l" "loc_x l \<le> 1" "-1 \<le> loc_y l" "loc_y l \<le> 1" using assms by (auto simp: on_floor_def abs_le_iff)
  then show "isInArea Area_FrontHalf l \<or> isInArea Area_BackHalf l"
    "isInArea Area_Left l \<or> isInArea Area_CenterLR l \<or> isInArea Area_Right l"
    by (simp_all add: in_known) linarith+
  have "loc_x l \<le> - 1 / 3 \<or> - 1 / 3 \<le> loc_x l \<and> loc_x l \<le> 1 / 3 \<or> 1 / 3 \<le> loc_x l"
    "loc_y l \<le> - 1 / 3 \<or> - 1 / 3 \<le> loc_y l \<and> loc_y l \<le> 1 / 3 \<or> 1 / 3 \<le> loc_y l" by linarith+
  then show "list_ex (\<lambda>area. isInArea area l) (drop 6 floor_areas)"
    using b by (elim disjE) (simp_all add: in_known floor_areas_def)
qed

lemma mode_areas_empty_iff:
  assumes "mode \<noteq> SequenceModeLast"
  shows "mode_areas mode (lit lights) = [] \<longleftrightarrow> mode \<noteq> SequenceModeAll \<and> (\<forall>light\<in>set lights. \<not> on_floor (l_position light))"
proof -
  show ?thesis
  proof (cases "\<forall>light\<in>set lights. \<not> on_floor (l_position light)")
    case True
    have "list_all (\<lambda>area. \<not> lit lights area) floor_areas"
      using True areas_on_floor unfolding list_all_iff lit_def by blast
    note out = this[unfolded floor_areas_def list.pred_inject]
    show ?thesis using assms True out by (cases mode) simp_all
  next
    case False
    then obtain light where light: "light \<in> set lights" "on_floor (l_position light)" by blast
    have halves: "lit lights Area_FrontHalf \<or> lit lights Area_BackHalf"
      and thirds: "lit lights Area_Left \<or> lit lights Area_CenterLR \<or> lit lights Area_Right"
      using floor_covered(1,2)[OF light(2)] light(1) unfolding lit_def by blast+
    have "list_ex (lit lights) (drop 6 floor_areas)"
      using floor_covered(3)[OF light(2)] light(1) unfolding lit_def list_ex_iff by blast
    then have ninths: "mode_areas SequenceModeRound (lit lights) \<noteq> []" by (auto simp: floor_areas_def)
    show ?thesis using assms False halves thirds ninths by (cases mode) (simp_all del: mode_areas.simps(2), auto)
  qed
qed

text \<open>
  C39 (error). For every group and every mode but the last, the effect gives the lights their colours
  exactly if it has no colours, or shows the whole room, or some light of the group is on the
  floor of the room: otherwise it divides by zero.
\<close>

theorem sequence_color_defined_iff:
  assumes "se_mode e \<noteq> SequenceModeLast"
  shows "Sequence_GetColor (Sequence_UpdateGroup (Some g) e) light \<noteq> None \<longleftrightarrow>
    se_colors e = [] \<or> se_mode e = SequenceModeAll \<or> (\<exists>l\<in>set (g_lights g). on_floor (l_position l))"
proof -
  have "Sequence_UpdateGroup (Some g) e
      = e\<lparr>se_group := Some g, se_sequenceList := mode_areas (se_mode e) (lit (g_lights g))\<rparr>"
    unfolding Sequence_UpdateGroup_def by (subst SetMode_areas[of _ g]) simp_all
  then show ?thesis
    using mode_areas_empty_iff[OF assms, of "g_lights g"] by (auto simp: Sequence_GetColor_def Let_def)
qed

theorem sequence_color_defined_iff_witness:
  "Sequence_GetColor (Sequence_UpdateGroup (Some Group_new) (Sequence_AddColor (Color_rgb 1 0 0)
     (Sequence_SetMode SequenceModeRound (SequenceEffect_new ''round'' 0)))) Light_default = None"
proof -
  let ?e = "Sequence_AddColor (Color_rgb 1 0 0) (Sequence_SetMode SequenceModeRound (SequenceEffect_new ''round'' 0))"
  have "se_mode ?e = SequenceModeRound" "se_colors ?e \<noteq> []"
    by (simp_all add: Sequence_AddColor_def Sequence_SetMode_def SequenceEffect_new_def add_areas_def Sequence_AddArea_def Let_def)
  then show ?thesis using sequence_color_defined_iff[of ?e Group_new Light_default] by (simp add: Group_new_def)
qed

end
