(* ===== verification/OperationalQueue.thy ===== *)
theory OperationalQueue imports Prelude "HOL-Library.Sublist" begin

text \<open>
  \<open>support/src/threading/OperationalQueue\<close>: tickets that any thread creates, schedules, discards and
  waits for, and the loop that a thread of the pool runs to process them. A step is what a thread
  does in one section under \<open>sync_mutex\<close>, or between two of them. While a ticket runs, the processing
  thread can call every operation, as the other threads can; waiting for another ticket makes it
  enter the loop again. So a thread is a stack of loops, each with the condition on which it ends
  and its place in the code, and the operation that its innermost code has called.

  Tickets and threads are numbers. The tick handlers that run after a ticket count as its code.
\<close>

section \<open>State\<close>

datatype break_condition = Main | Has_no_ticket nat | Given

datatype loop_pc = L_Begin | L_Test | L_Take | L_Run nat | L_Erase nat | L_Complete nat | L_Check

datatype call = C_Idle | C_AddTask | C_SetValue nat | C_Wait nat | C_Found nat | C_Blocked nat | C_Stopping

record thread =
  th_loops :: "(break_condition \<times> loop_pc) list"
  th_call :: call

record operational_queue =
  oq_processing_thread :: "nat option"
  oq_processing_queue :: "nat list"
  oq_registry :: "nat set"
  oq_was_scheduled :: "nat set"
  oq_current_ticket_stack :: "nat list"
  oq_stop_requested :: bool
  oq_is_scheduled :: bool
  oq_completed :: "nat set"
  oq_tickets :: nat
  oq_pool_tasks :: nat
  oq_threads :: "nat \<Rightarrow> thread"

definition OperationalQueue_new :: operational_queue where
  "OperationalQueue_new = \<lparr>oq_processing_thread = None, oq_processing_queue = [], oq_registry = {}, oq_was_scheduled = {},
     oq_current_ticket_stack = [], oq_stop_requested = False, oq_is_scheduled = False, oq_completed = {},
     oq_tickets = 0, oq_pool_tasks = 0, oq_threads = (\<lambda>_. \<lparr>th_loops = [], th_call = C_Idle\<rparr>)\<rparr>"

text \<open>A thread can call an operation when it is outside the loops or runs a ticket.\<close>

definition runs_code :: "thread \<Rightarrow> bool" where
  "runs_code th \<longleftrightarrow> th_call th = C_Idle \<and> (case th_loops th of [] \<Rightarrow> True | (b, pc) # ls \<Rightarrow> \<exists>t. pc = L_Run t)"

definition set_call :: "nat \<Rightarrow> call \<Rightarrow> operational_queue \<Rightarrow> operational_queue" where
  "set_call k c s = s\<lparr>oq_threads := (oq_threads s)(k := (oq_threads s k)\<lparr>th_call := c\<rparr>)\<rparr>"

definition set_loops :: "nat \<Rightarrow> (break_condition \<times> loop_pc) list \<Rightarrow> operational_queue \<Rightarrow> operational_queue" where
  "set_loops k ls s = s\<lparr>oq_threads := (oq_threads s)(k := (oq_threads s k)\<lparr>th_loops := ls\<rparr>)\<rparr>"

section \<open>Operations\<close>

text \<open>The sections under the lock of \<open>create_ticket\<close>, \<open>schedule_ticket\<close> and \<open>discard_ticket\<close>.\<close>

definition create_ticket :: "operational_queue \<Rightarrow> nat option \<times> operational_queue" where
  "create_ticket s = (if oq_stop_requested s then (None, s)
     else (Some (oq_tickets s), s\<lparr>oq_registry := insert (oq_tickets s) (oq_registry s), oq_tickets := oq_tickets s + 1\<rparr>))"

definition schedule_ticket :: "nat \<Rightarrow> operational_queue \<Rightarrow> bool \<times> operational_queue" where
  "schedule_ticket t s =
     (if oq_stop_requested s \<or> t \<notin> oq_registry s \<or> t \<in> oq_was_scheduled s then (False, s)
      else (\<not> oq_is_scheduled s, s\<lparr>oq_is_scheduled := True, oq_was_scheduled := insert t (oq_was_scheduled s),
        oq_processing_queue := oq_processing_queue s @ [t]\<rparr>))"

definition discard_ticket :: "nat \<Rightarrow> operational_queue \<Rightarrow> call \<times> operational_queue" where
  "discard_ticket t s =
     (if t \<notin> oq_registry s then (C_Idle, s)
      else if t \<in> set (oq_current_ticket_stack s) then (C_Wait t, s)
      else (C_SetValue t, s\<lparr>oq_processing_queue := filter (\<lambda>d. d \<noteq> t) (oq_processing_queue s),
              oq_registry := oq_registry s - {t}\<rparr>))"

definition is_done :: "operational_queue \<Rightarrow> bool" where
  "is_done s \<longleftrightarrow> oq_processing_queue s = [] \<or> oq_stop_requested s"

text \<open>What happens is seen from outside as an event.\<close>

datatype queue_event = Scheduled nat | Discarded nat | Runs nat | Ends nat | Returns nat nat | Stops | Silent

text \<open>The operations, called by thread \<open>k\<close>.\<close>

inductive call_step :: "nat \<Rightarrow> operational_queue \<Rightarrow> queue_event \<Rightarrow> operational_queue \<Rightarrow> bool" for k where
  create: "runs_code (oq_threads s k) \<Longrightarrow> call_step k s Silent (snd (create_ticket s))"
| schedule: "runs_code (oq_threads s k) \<Longrightarrow> schedule_ticket t s = (new, s1) \<Longrightarrow>
    call_step k s (if oq_processing_queue s1 = oq_processing_queue s then Silent else Scheduled t) (if new then set_call k C_AddTask s1 else s1)"
| add_task: "th_call (oq_threads s k) = C_AddTask \<Longrightarrow>
    call_step k s Silent (set_call k C_Idle (s\<lparr>oq_pool_tasks := oq_pool_tasks s + 1\<rparr>))"
| discard: "runs_code (oq_threads s k) \<Longrightarrow> discard_ticket t s = (c, s1) \<Longrightarrow>
    call_step k s (if c = C_SetValue t then Discarded t else Silent) (set_call k c s1)"
| set_value: "th_call (oq_threads s k) = C_SetValue t \<Longrightarrow>
    call_step k s Silent (set_call k C_Idle (s\<lparr>oq_completed := insert t (oq_completed s)\<rparr>))"
| wait: "runs_code (oq_threads s k) \<Longrightarrow> call_step k s Silent (set_call k (C_Wait t) s)"
| find: "th_call (oq_threads s k) = C_Wait t \<Longrightarrow>
    call_step k s (if t \<in> oq_registry s then Silent else Returns k t)
      (set_call k (if t \<in> oq_registry s then C_Found t else C_Idle) s)"
| other_thread: "th_call (oq_threads s k) = C_Found t \<Longrightarrow> oq_processing_thread s \<noteq> Some k \<Longrightarrow>
    call_step k s Silent (set_call k (C_Blocked t) s)"
| own_ticket: "th_call (oq_threads s k) = C_Found t \<Longrightarrow> oq_processing_thread s = Some k \<Longrightarrow>
    t \<in> set (oq_current_ticket_stack s) \<Longrightarrow> call_step k s Silent (set_call k C_Idle s)"
| enter: "th_call (oq_threads s k) = C_Found t \<Longrightarrow> oq_processing_thread s = Some k \<Longrightarrow>
    t \<notin> set (oq_current_ticket_stack s) \<Longrightarrow>
    call_step k s Silent (set_call k C_Idle (set_loops k ((Has_no_ticket t, L_Test) # th_loops (oq_threads s k)) s))"
| unblock: "th_call (oq_threads s k) = C_Blocked t \<Longrightarrow> t \<in> oq_completed s \<Longrightarrow>
    call_step k s (Returns k t) (set_call k C_Idle s)"
| run_recursive: "runs_code (oq_threads s k) \<Longrightarrow> oq_processing_thread s = Some k \<Longrightarrow>
    call_step k s Silent (set_loops k ((Given, L_Test) # th_loops (oq_threads s k)) s)"
| stop: "runs_code (oq_threads s k) \<Longrightarrow> \<not> oq_stop_requested s \<Longrightarrow>
    call_step k s Stops (set_call k C_Stopping (s\<lparr>oq_stop_requested := True\<rparr>))"
| idle: "th_call (oq_threads s k) = C_Stopping \<Longrightarrow> \<not> oq_is_scheduled s \<Longrightarrow> call_step k s Silent (set_call k C_Idle s)"

text \<open>
  \<open>processing_loop\<close> and the task of \<open>schedule_processing_loop\<close> around it. The condition that the caller
  of \<open>run_recursive_process_tickets_loop\<close> gives may hold at any time.
\<close>

definition breaks :: "operational_queue \<Rightarrow> break_condition \<Rightarrow> bool \<Rightarrow> bool" where
  "breaks s b given = (case b of Main \<Rightarrow> is_done s | Has_no_ticket t \<Rightarrow> t \<notin> oq_registry s | Given \<Rightarrow> given)"

text \<open>The loops after the innermost one has ended.\<close>

definition after_loop :: "break_condition \<Rightarrow> (break_condition \<times> loop_pc) list \<Rightarrow> (break_condition \<times> loop_pc) list" where
  "after_loop b ls = (if b = Main then (Main, L_Check) # ls else ls)"

inductive loop_step :: "nat \<Rightarrow> operational_queue \<Rightarrow> queue_event \<Rightarrow> operational_queue \<Rightarrow> bool" for k where
  start: "oq_threads s k = \<lparr>th_loops = [], th_call = C_Idle\<rparr> \<Longrightarrow> oq_pool_tasks s = Suc n \<Longrightarrow>
    loop_step k s Silent (set_loops k [(Main, L_Begin)] (s\<lparr>oq_pool_tasks := n\<rparr>))"
| begin_processing: "oq_threads s k = \<lparr>th_loops = (b, L_Begin) # ls, th_call = C_Idle\<rparr> \<Longrightarrow>
    loop_step k s Silent (set_loops k ((b, L_Test) # ls) (s\<lparr>oq_processing_thread := Some k\<rparr>))"
| test: "oq_threads s k = \<lparr>th_loops = (b, L_Test) # ls, th_call = C_Idle\<rparr> \<Longrightarrow>
    loop_step k s Silent (set_loops k (if breaks s b given then after_loop b ls else (b, L_Take) # ls) s)"
| stopped: "oq_threads s k = \<lparr>th_loops = (b, L_Take) # ls, th_call = C_Idle\<rparr> \<Longrightarrow> oq_stop_requested s \<Longrightarrow>
    loop_step k s Silent (set_loops k (after_loop b ls) s)"
| take_ticket: "oq_threads s k = \<lparr>th_loops = (b, L_Take) # ls, th_call = C_Idle\<rparr> \<Longrightarrow> \<not> oq_stop_requested s \<Longrightarrow>
    oq_processing_queue s = t # ts \<Longrightarrow>
    loop_step k s (Runs t) (set_loops k ((b, L_Run t) # ls)
      (s\<lparr>oq_current_ticket_stack := oq_current_ticket_stack s @ [t], oq_processing_queue := ts\<rparr>))"
| finished: "oq_threads s k = \<lparr>th_loops = (b, L_Run t) # ls, th_call = C_Idle\<rparr> \<Longrightarrow>
    loop_step k s Silent (set_loops k ((b, L_Erase t) # ls) s)"
| erase: "oq_threads s k = \<lparr>th_loops = (b, L_Erase t) # ls, th_call = C_Idle\<rparr> \<Longrightarrow>
    loop_step k s Silent (set_loops k ((b, L_Complete t) # ls)
      (s\<lparr>oq_current_ticket_stack := butlast (oq_current_ticket_stack s), oq_registry := oq_registry s - {t}\<rparr>))"
| complete: "oq_threads s k = \<lparr>th_loops = (b, L_Complete t) # ls, th_call = C_Idle\<rparr> \<Longrightarrow>
    loop_step k s (Ends t) (set_loops k ((b, L_Test) # ls) (s\<lparr>oq_completed := insert t (oq_completed s)\<rparr>))"
| again: "oq_threads s k = \<lparr>th_loops = (b, L_Check) # ls, th_call = C_Idle\<rparr> \<Longrightarrow> \<not> is_done s \<Longrightarrow>
    loop_step k s Silent (set_loops k ((b, L_Test) # ls) (s\<lparr>oq_is_scheduled := True\<rparr>))"
| leave: "oq_threads s k = \<lparr>th_loops = (b, L_Check) # ls, th_call = C_Idle\<rparr> \<Longrightarrow> is_done s \<Longrightarrow>
    loop_step k s Silent (set_loops k ls (s\<lparr>oq_is_scheduled := False, oq_processing_thread := None\<rparr>))"

inductive queue_step :: "operational_queue \<Rightarrow> queue_event \<Rightarrow> operational_queue \<Rightarrow> bool" where
  call: "call_step k s a s' \<Longrightarrow> queue_step s a s'"
| loop: "loop_step k s a s' \<Longrightarrow> queue_step s a s'"

inductive queue_run :: "operational_queue \<Rightarrow> queue_event list \<Rightarrow> operational_queue \<Rightarrow> bool" where
  none: "queue_run s [] s"
| step: "queue_run s tr s1 \<Longrightarrow> queue_step s1 a s2 \<Longrightarrow> queue_run s (tr @ [a]) s2"

inductive_cases call_stepE: "call_step k s a s'"
inductive_cases loop_stepE: "loop_step k s a s'"
inductive_simps queue_step_iff: "queue_step s a s'"

lemma set_call_simps [simp]:
  "oq_threads (set_call k c s) = (oq_threads s)(k := (oq_threads s k)\<lparr>th_call := c\<rparr>)"
  "oq_processing_thread (set_call k c s) = oq_processing_thread s" "oq_processing_queue (set_call k c s) = oq_processing_queue s"
  "oq_registry (set_call k c s) = oq_registry s" "oq_was_scheduled (set_call k c s) = oq_was_scheduled s"
  "oq_current_ticket_stack (set_call k c s) = oq_current_ticket_stack s" "oq_stop_requested (set_call k c s) = oq_stop_requested s"
  "oq_is_scheduled (set_call k c s) = oq_is_scheduled s" "oq_completed (set_call k c s) = oq_completed s"
  "oq_tickets (set_call k c s) = oq_tickets s" "oq_pool_tasks (set_call k c s) = oq_pool_tasks s"
  by (simp_all add: set_call_def)

lemma set_loops_simps [simp]:
  "oq_threads (set_loops k ls s) = (oq_threads s)(k := (oq_threads s k)\<lparr>th_loops := ls\<rparr>)"
  "oq_processing_thread (set_loops k ls s) = oq_processing_thread s" "oq_processing_queue (set_loops k ls s) = oq_processing_queue s"
  "oq_registry (set_loops k ls s) = oq_registry s" "oq_was_scheduled (set_loops k ls s) = oq_was_scheduled s"
  "oq_current_ticket_stack (set_loops k ls s) = oq_current_ticket_stack s" "oq_stop_requested (set_loops k ls s) = oq_stop_requested s"
  "oq_is_scheduled (set_loops k ls s) = oq_is_scheduled s" "oq_completed (set_loops k ls s) = oq_completed s"
  "oq_tickets (set_loops k ls s) = oq_tickets s" "oq_pool_tasks (set_loops k ls s) = oq_pool_tasks s"
  by (simp_all add: set_loops_def)

section \<open>The processing thread\<close>

text \<open>
  Who is to process the tickets: a thread that has not yet given the task to the pool, the pool, or a
  worker. There is one exactly if processing is scheduled.
\<close>

datatype owner = Nobody | Starter nat | Pool | Worker nat

fun running :: "break_condition \<times> loop_pc \<Rightarrow> nat list" where
  "running (b, L_Run t) = [t]"
| "running (b, L_Erase t) = [t]"
| "running (b, pc) = []"

definition suspended :: "break_condition \<times> loop_pc \<Rightarrow> bool" where
  "suspended l \<longleftrightarrow> (\<exists>t. snd l = L_Run t)"

text \<open>The loops of a worker: the innermost first, the others suspended while their ticket runs.\<close>

fun nested :: "(break_condition \<times> loop_pc) list \<Rightarrow> bool" where
  "nested [] \<longleftrightarrow> True"
| "nested [(b, pc)] \<longleftrightarrow> b = Main"
| "nested ((b, pc) # l # ls) \<longleftrightarrow> b \<noteq> Main \<and> pc \<noteq> L_Begin \<and> pc \<noteq> L_Check \<and> suspended l \<and> nested (l # ls)"

definition tickets_of :: "(break_condition \<times> loop_pc) list \<Rightarrow> nat list" where
  "tickets_of ls = concat (map running (rev ls))"

definition owned :: "operational_queue \<Rightarrow> owner \<Rightarrow> bool" where
  "owned s x \<longleftrightarrow> (\<forall>k. th_call (oq_threads s k) = C_AddTask \<longleftrightarrow> x = Starter k)
     \<and> (\<forall>k. th_loops (oq_threads s k) \<noteq> [] \<longleftrightarrow> x = Worker k)
     \<and> oq_pool_tasks s = (if x = Pool then 1 else 0) \<and> (oq_is_scheduled s \<longleftrightarrow> x \<noteq> Nobody)"

definition working :: "operational_queue \<Rightarrow> owner \<Rightarrow> bool" where
  "working s x \<longleftrightarrow> (case x of
      Worker k \<Rightarrow> nested (th_loops (oq_threads s k)) \<and> oq_current_ticket_stack s = tickets_of (th_loops (oq_threads s k))
        \<and> oq_processing_thread s = (if th_loops (oq_threads s k) = [(Main, L_Begin)] then None else Some k)
    | _ \<Rightarrow> oq_current_ticket_stack s = [] \<and> oq_processing_thread s = None)"

definition owner_inv :: "operational_queue \<Rightarrow> owner \<Rightarrow> bool" where
  "owner_inv s x \<longleftrightarrow> owned s x \<and> working s x"

lemma tickets_of_simps [simp]: "tickets_of [] = []" "tickets_of (l # ls) = tickets_of ls @ running l"
  by (simp_all add: tickets_of_def)

lemma nested_Cons: "nested ((b, pc) # ls) \<longleftrightarrow>
    (if ls = [] then b = Main else b \<noteq> Main \<and> pc \<noteq> L_Begin \<and> pc \<noteq> L_Check \<and> suspended (hd ls) \<and> nested ls)"
  by (cases ls) auto

lemma after_loop_nested:
  assumes "nested ((b, pc) # ls)" "running (b, pc) = []"
  shows "nested (after_loop b ls)" "after_loop b ls \<noteq> []" "after_loop b ls \<noteq> [(Main, L_Begin)]"
    "tickets_of (after_loop b ls) = tickets_of ((b, pc) # ls)"
  using assms by (auto simp: nested_Cons after_loop_def suspended_def split: if_splits)

lemma owner_inv_loops: "owner_inv s x \<Longrightarrow> th_loops (oq_threads s k) \<noteq> [] \<longleftrightarrow> x = Worker k"
  by (simp add: owner_inv_def owned_def)

lemma owner_inv_processing: "owner_inv s x \<Longrightarrow> oq_processing_thread s = Some k \<Longrightarrow> x = Worker k"
  by (auto simp: owner_inv_def working_def split: owner.splits if_splits)

text \<open>Steps that leave the loops as they are, and steps of the worker.\<close>

lemma owner_inv_cong:
  assumes "owner_inv s x" "\<And>j. th_loops (oq_threads s' j) = th_loops (oq_threads s j)"
    and "\<And>j. th_call (oq_threads s' j) = C_AddTask \<longleftrightarrow> th_call (oq_threads s j) = C_AddTask"
    and "oq_pool_tasks s' = oq_pool_tasks s" "oq_is_scheduled s' = oq_is_scheduled s"
    and "oq_current_ticket_stack s' = oq_current_ticket_stack s" "oq_processing_thread s' = oq_processing_thread s"
  shows "owner_inv s' x"
  using assms(1) unfolding owner_inv_def owned_def working_def assms(2-7) by (cases x) auto

lemma owner_inv_work:
  assumes "owner_inv s (Worker k)" "\<And>j. j \<noteq> k \<Longrightarrow> oq_threads s' j = oq_threads s j"
    and "th_loops (oq_threads s' k) \<noteq> []" "nested (th_loops (oq_threads s' k))" "th_call (oq_threads s' k) = C_Idle"
    and "oq_pool_tasks s' = oq_pool_tasks s" "oq_is_scheduled s'" "oq_current_ticket_stack s' = tickets_of (th_loops (oq_threads s' k))"
    and "oq_processing_thread s' = Some k" "th_loops (oq_threads s' k) \<noteq> [(Main, L_Begin)]"
  shows "owner_inv s' (Worker k)"
proof -
  have "th_loops (oq_threads s' j) \<noteq> [] \<longleftrightarrow> j = k" "th_call (oq_threads s' j) \<noteq> C_AddTask" for j
    using assms(1,2,3,5) by (cases "j = k"; simp add: owner_inv_def owned_def)+
  then show ?thesis using assms(1,4,6-10) by (auto simp: owner_inv_def owned_def working_def)
qed

lemma worker_at:
  assumes "owner_inv s x" "th_loops (oq_threads s k) = l # ls"
  shows "x = Worker k" "nested (l # ls)" "oq_current_ticket_stack s = tickets_of (l # ls)"
    "oq_processing_thread s = (if l # ls = [(Main, L_Begin)] then None else Some k)" "oq_is_scheduled s"
proof -
  show x: "x = Worker k" using owner_inv_loops[OF assms(1), of k] assms(2) by simp
  show "nested (l # ls)" "oq_current_ticket_stack s = tickets_of (l # ls)"
    "oq_processing_thread s = (if l # ls = [(Main, L_Begin)] then None else Some k)" "oq_is_scheduled s"
    using assms unfolding x by (simp_all add: owner_inv_def owned_def working_def)
qed

text \<open>An operation is called by code: outside the loops, or while a ticket runs.\<close>

definition code_calls :: "operational_queue \<Rightarrow> bool" where
  "code_calls s \<longleftrightarrow> (\<forall>k. th_call (oq_threads s k) \<noteq> C_Idle \<longrightarrow> th_loops (oq_threads s k) \<noteq> [] \<longrightarrow>
     suspended (hd (th_loops (oq_threads s k))))"

lemma code_calls_at:
  "code_calls s \<Longrightarrow> th_call (oq_threads s k) \<noteq> C_Idle \<Longrightarrow> th_loops (oq_threads s k) \<noteq> [] \<Longrightarrow>
    suspended (hd (th_loops (oq_threads s k)))"
  by (simp add: code_calls_def)

lemma runs_code_suspended: "runs_code th \<Longrightarrow> th_loops th \<noteq> [] \<Longrightarrow> suspended (hd (th_loops th))"
  by (auto simp: runs_code_def suspended_def split: list.splits)

lemma code_calls_other:
  assumes "code_calls s" "\<And>j. j \<noteq> k \<Longrightarrow> oq_threads s' j = oq_threads s j"
    and "th_call (oq_threads s' k) \<noteq> C_Idle \<Longrightarrow> th_loops (oq_threads s' k) \<noteq> [] \<Longrightarrow> suspended (hd (th_loops (oq_threads s' k)))"
  shows "code_calls s'"
  using assms unfolding code_calls_def by metis

lemma call_code_calls:
  assumes "call_step k s a s'" "code_calls s" shows "code_calls s'"
  using assms(1)
proof cases
  case (schedule t new s1)
  then show ?thesis using runs_code_suspended[of "oq_threads s k"]
    by (intro code_calls_other[OF assms(2), of k]) (auto simp: schedule_ticket_def split: if_splits)
next
  case (discard t c s1)
  then show ?thesis using runs_code_suspended[of "oq_threads s k"]
    by (intro code_calls_other[OF assms(2), of k]) (auto simp: discard_ticket_def split: if_splits)
next
  case run_recursive
  then show ?thesis by (intro code_calls_other[OF assms(2), of k]) (simp_all add: runs_code_def)
qed (rule code_calls_other[OF assms(2), of k];
  use runs_code_suspended[of "oq_threads s k"] code_calls_at[OF assms(2), of k] in \<open>simp add: create_ticket_def split: if_splits\<close>)+

lemma loop_code_calls:
  assumes "loop_step k s a s'" "code_calls s" shows "code_calls s'"
  using assms(1) by cases (rule code_calls_other[OF assms(2), of k]; simp)+

lemma enter_loop:
  assumes "owner_inv s (Worker k)" "th_loops (oq_threads s k) = l # ls" "suspended l" "b \<noteq> Main"
  shows "owner_inv (set_call k C_Idle (set_loops k ((b, L_Test) # th_loops (oq_threads s k)) s)) (Worker k)"
  using worker_at[OF assms(1,2)] assms(3,4)
  by (intro owner_inv_work[OF assms(1)]) (auto simp: assms(2) suspended_def)

lemma owner_inv_call:
  assumes "call_step k s a s'" "owner_inv s x" "code_calls s" shows "\<exists>x'. owner_inv s' x'"
  using assms(1)
proof cases
  case (schedule t new s1)
  show ?thesis
  proof (cases new)
    case True
    then have "owner_inv s' (Starter k)"
      using schedule assms(2) by (auto simp: owner_inv_def owned_def working_def schedule_ticket_def runs_code_def split: if_splits)
    then show ?thesis ..
  next
    case False
    then have "owner_inv s' x"
      using schedule by (intro owner_inv_cong[OF assms(2)]) (auto simp: schedule_ticket_def split: if_splits)
    then show ?thesis ..
  qed
next
  case add_task
  then have "x = Starter k" using assms(2) by (simp add: owner_inv_def owned_def)
  then have "owner_inv s' Pool" using add_task assms(2) by (auto simp: owner_inv_def owned_def working_def)
  then show ?thesis ..
next
  case (enter t)
  have x: "x = Worker k" by (rule owner_inv_processing[OF assms(2) enter(4)])
  then obtain l ls where l: "th_loops (oq_threads s k) = l # ls"
    using owner_inv_loops[OF assms(2), of k] by (cases "th_loops (oq_threads s k)") auto
  have "suspended l" using code_calls_at[OF assms(3), of k] enter(3) l by simp
  then show ?thesis using enter_loop[OF _ l, of "Has_no_ticket t"] assms(2) x enter(2) by auto
next
  case run_recursive
  have x: "x = Worker k" by (rule owner_inv_processing[OF assms(2) run_recursive(4)])
  then obtain l ls where l: "th_loops (oq_threads s k) = l # ls"
    using owner_inv_loops[OF assms(2), of k] by (cases "th_loops (oq_threads s k)") auto
  have "th_call (oq_threads s k) = C_Idle" using run_recursive(3) by (simp add: runs_code_def)
  then have "s' = set_call k C_Idle (set_loops k ((Given, L_Test) # th_loops (oq_threads s k)) s)"
    unfolding run_recursive(2) by (cases "oq_threads s k") (simp add: set_call_def set_loops_def)
  then show ?thesis using enter_loop[OF _ l, of Given] runs_code_suspended[OF run_recursive(3)] l assms(2) x by auto
qed (rule exI[of _ x], rule owner_inv_cong[OF assms(2)]; force simp: runs_code_def create_ticket_def discard_ticket_def split: if_splits)+

lemma work_step:
  assumes "owner_inv s x" "oq_threads s k = \<lparr>th_loops = l # ls, th_call = C_Idle\<rparr>"
    and "nested (l # ls) \<Longrightarrow> nested ls' \<and> ls' \<noteq> [] \<and> ls' \<noteq> [(Main, L_Begin)]"
    and "oq_threads s1 = oq_threads s" "oq_pool_tasks s1 = oq_pool_tasks s" "oq_is_scheduled s \<Longrightarrow> oq_is_scheduled s1"
    and "oq_current_ticket_stack s = tickets_of (l # ls) \<Longrightarrow> nested (l # ls) \<Longrightarrow> oq_current_ticket_stack s1 = tickets_of ls'"
    and "nested (l # ls) \<Longrightarrow> oq_processing_thread s = (if l # ls = [(Main, L_Begin)] then None else Some k) \<Longrightarrow>
      oq_processing_thread s1 = Some k"
  shows "\<exists>x'. owner_inv (set_loops k ls' s1) x'"
proof -
  have w: "x = Worker k" "nested (l # ls)" "oq_current_ticket_stack s = tickets_of (l # ls)"
    "oq_processing_thread s = (if l # ls = [(Main, L_Begin)] then None else Some k)" "oq_is_scheduled s"
    by (rule worker_at[OF assms(1), of k l ls]; simp add: assms(2))+
  have "owner_inv (set_loops k ls' s1) (Worker k)"
  proof (rule owner_inv_work)
    show "owner_inv s (Worker k)" using assms(1) w(1) by simp
    show "oq_is_scheduled (set_loops k ls' s1)" using assms(6)[OF w(5)] by simp
    show "oq_current_ticket_stack (set_loops k ls' s1) = tickets_of (th_loops (oq_threads (set_loops k ls' s1) k))"
      using assms(7)[OF w(3,2)] by simp
    show "oq_processing_thread (set_loops k ls' s1) = Some k" using assms(8)[OF w(2,4)] by simp
  qed (use assms(3)[OF w(2)] assms(2,4,5) in simp_all)
  then show ?thesis ..
qed

lemma owner_inv_loop:
  assumes "loop_step k s a s'" "owner_inv s x" shows "\<exists>x'. owner_inv s' x'"
  using assms(1)
proof cases
  case (start n)
  then have "x = Pool" using assms(2) by (auto simp: owner_inv_def owned_def split: if_splits)
  then have "owner_inv s' (Worker k)" using start assms(2) by (auto simp: owner_inv_def owned_def working_def)
  then show ?thesis ..
next
  case (leave b ls)
  have w: "x = Worker k" "nested ((b, L_Check) # ls)" "oq_current_ticket_stack s = tickets_of ((b, L_Check) # ls)"
    using worker_at[OF assms(2), of k] leave(3) by auto
  then have "ls = []" by (auto simp: nested_Cons split: if_splits)
  then have "owner_inv s' Nobody" using leave w assms(2) by (auto simp: owner_inv_def owned_def working_def)
  then show ?thesis ..
next
  case (test b ls given)
  show ?thesis unfolding test(2)
    by (rule work_step[OF assms(2) test(3)]) (use after_loop_nested[of b L_Test ls] in \<open>auto simp: nested_Cons\<close>)
next
  case (stopped b ls)
  show ?thesis unfolding stopped(2)
    by (rule work_step[OF assms(2) stopped(3)]) (use after_loop_nested[of b L_Take ls] in \<open>auto simp: nested_Cons\<close>)
next
  case (take_ticket b ls t ts)
  show ?thesis unfolding take_ticket(2) by (rule work_step[OF assms(2) take_ticket(3)]) (auto simp: nested_Cons split: if_splits)
next
  case (begin_processing b ls)
  show ?thesis unfolding begin_processing(2) by (rule work_step[OF assms(2) begin_processing(3)]) (auto simp: nested_Cons split: if_splits)
next
  case (finished b t ls)
  show ?thesis unfolding finished(2) by (rule work_step[OF assms(2) finished(3)]) (auto simp: nested_Cons split: if_splits)
next
  case (erase b t ls)
  show ?thesis unfolding erase(2) by (rule work_step[OF assms(2) erase(3)]) (auto simp: nested_Cons split: if_splits)
next
  case (complete b t ls)
  show ?thesis unfolding complete(2) by (rule work_step[OF assms(2) complete(3)]) (auto simp: nested_Cons split: if_splits)
next
  case (again b ls)
  show ?thesis unfolding again(2) by (rule work_step[OF assms(2) again(3)]) (auto simp: nested_Cons split: if_splits)
qed

section \<open>Tickets\<close>

fun scheduled_of :: "queue_event list \<Rightarrow> nat list" where
  "scheduled_of [] = []"
| "scheduled_of (Scheduled t # tr) = t # scheduled_of tr"
| "scheduled_of (e # tr) = scheduled_of tr"

fun runs_of :: "queue_event list \<Rightarrow> nat list" where
  "runs_of [] = []"
| "runs_of (Runs t # tr) = t # runs_of tr"
| "runs_of (e # tr) = runs_of tr"

lemma scheduled_of_append [simp]: "scheduled_of (tr @ tr') = scheduled_of tr @ scheduled_of tr'"
  by (induction tr rule: scheduled_of.induct) simp_all

lemma runs_of_append [simp]: "runs_of (tr @ tr') = runs_of tr @ runs_of tr'"
  by (induction tr rule: runs_of.induct) simp_all

lemma set_runs_of: "set (runs_of tr) = {t. Runs t \<in> set tr}"
  by (induction tr rule: runs_of.induct) auto

lemma set_scheduled_of: "set (scheduled_of tr) = {t. Scheduled t \<in> set tr}"
  by (induction tr rule: scheduled_of.induct) auto

text \<open>The tickets of a queue, and what has happened to them.\<close>

definition registered :: "operational_queue \<Rightarrow> bool" where
  "registered s \<longleftrightarrow> distinct (oq_current_ticket_stack s @ oq_processing_queue s)
     \<and> set (oq_current_ticket_stack s @ oq_processing_queue s) \<subseteq> oq_registry s \<inter> oq_was_scheduled s
     \<and> oq_registry s \<union> oq_was_scheduled s \<subseteq> {..<oq_tickets s}"

definition recorded :: "queue_event list \<Rightarrow> operational_queue \<Rightarrow> bool" where
  "recorded tr s \<longleftrightarrow> distinct (scheduled_of tr) \<and> set (scheduled_of tr) = oq_was_scheduled s
     \<and> subseq (runs_of tr @ oq_processing_queue s) (scheduled_of tr)
     \<and> (\<forall>t. Runs t \<in> set tr \<longrightarrow> t \<in> oq_registry s \<longrightarrow> t \<in> set (oq_current_ticket_stack s))
     \<and> (\<forall>t. Discarded t \<in> set tr \<longrightarrow> Runs t \<notin> set tr \<and> t \<notin> oq_registry s \<and> t < oq_tickets s)"

definition ticket_inv :: "queue_event list \<Rightarrow> operational_queue \<Rightarrow> bool" where
  "ticket_inv tr s \<longleftrightarrow> registered s \<and> recorded tr s"

lemma ticket_inv_cong:
  assumes "ticket_inv tr s" "oq_processing_queue s' = oq_processing_queue s" "oq_registry s' = oq_registry s"
    "oq_was_scheduled s' = oq_was_scheduled s" "oq_current_ticket_stack s' = oq_current_ticket_stack s"
    "oq_tickets s' = oq_tickets s" "\<And>t. a \<noteq> Scheduled t" "\<And>t. a \<noteq> Runs t" "\<And>t. a \<noteq> Discarded t"
  shows "ticket_inv (tr @ [a]) s'"
proof -
  have "scheduled_of [a] = []" "runs_of [a] = []" using assms(7-9) by (cases a; simp)+
  then show ?thesis
    using assms(1,7-9) unfolding ticket_inv_def registered_def recorded_def assms(2-6) by auto
qed

lemma subseq_set: "subseq xs ys \<Longrightarrow> set xs \<subseteq> set ys"
  by (induction rule: list_emb.induct) auto

lemma subseq_filter_right: "subseq (xs @ ys) zs \<Longrightarrow> subseq (xs @ filter P ys) zs"
  using list_emb_append_mono[of "(=)" xs xs "filter P ys" ys] subseq_order.trans[of "xs @ filter P ys" "xs @ ys" zs] by simp

lemma ticket_inv_call:
  assumes "call_step k s a s'" "ticket_inv tr s" shows "ticket_inv (tr @ [a]) s'"
  using assms(1)
proof cases
  case create
  show ?thesis
  proof (cases "oq_stop_requested s")
    case True
    then show ?thesis using create by (intro ticket_inv_cong[OF assms(2)]) (simp_all add: create_ticket_def)
  next
    case False
    then have s': "s' = s\<lparr>oq_registry := insert (oq_tickets s) (oq_registry s), oq_tickets := oq_tickets s + 1\<rparr>"
      using create(2) by (simp add: create_ticket_def)
    have inv: "registered s" "recorded tr s" using assms(2) by (simp_all add: ticket_inv_def)
    have "registered s'" using inv(1) unfolding s' by (auto simp: registered_def)
    moreover have "Runs (oq_tickets s) \<notin> set tr"
    proof
      assume "Runs (oq_tickets s) \<in> set tr"
      then have "oq_tickets s \<in> set (scheduled_of tr)"
        using inv(2) subseq_set[of "runs_of tr @ oq_processing_queue s" "scheduled_of tr"]
        by (auto simp: recorded_def set_runs_of)
      then show False using inv by (auto simp: recorded_def registered_def)
    qed
    then have "recorded (tr @ [a]) s'" using inv create(1) unfolding s' by (auto simp: recorded_def registered_def)
    ultimately show ?thesis by (simp add: ticket_inv_def)
  qed
next
  case (schedule t new s1)
  show ?thesis
  proof (cases "oq_processing_queue s1 = oq_processing_queue s")
    case True
    then have "s1 = s" using schedule(4) by (auto simp: schedule_ticket_def split: if_splits)
    then show ?thesis using schedule by (intro ticket_inv_cong[OF assms(2)]) auto
  next
    case False
    then have *: "s1 = s\<lparr>oq_is_scheduled := True, oq_was_scheduled := insert t (oq_was_scheduled s),
        oq_processing_queue := oq_processing_queue s @ [t]\<rparr>" "t \<in> oq_registry s" "t \<notin> oq_was_scheduled s"
      using schedule(4) by (auto simp: schedule_ticket_def split: if_splits)
    have inv: "registered s" "recorded tr s" using assms(2) by (simp_all add: ticket_inv_def)
    have "registered s'" using inv(1) schedule(2) * by (auto simp: registered_def)
    moreover have "recorded (tr @ [a]) s'"
      using inv(2) schedule(1,2) False * list_emb_append_mono[of "(=)" "runs_of tr @ oq_processing_queue s" "scheduled_of tr" "[t]" "[t]"]
      by (auto simp: recorded_def)
    ultimately show ?thesis by (simp add: ticket_inv_def)
  qed
next
  case (discard t c s1)
  show ?thesis
  proof (cases "c = C_SetValue t")
    case True
    then have *: "s1 = s\<lparr>oq_processing_queue := filter (\<lambda>d. d \<noteq> t) (oq_processing_queue s), oq_registry := oq_registry s - {t}\<rparr>"
      "t \<in> oq_registry s" "t \<notin> set (oq_current_ticket_stack s)"
      using discard(4) by (auto simp: discard_ticket_def split: if_splits)
    have inv: "registered s" "recorded tr s" using assms(2) by (simp_all add: ticket_inv_def)
    have "registered s'" using inv(1) discard(2) * by (auto simp: registered_def)
    moreover have "recorded (tr @ [a]) s'"
      using inv discard(1,2) True * subseq_filter_right[of "runs_of tr" "oq_processing_queue s" "scheduled_of tr"]
      by (auto simp: recorded_def registered_def)
    ultimately show ?thesis by (simp add: ticket_inv_def)
  next
    case False
    then have "s1 = s" using discard(4) by (auto simp: discard_ticket_def split: if_splits)
    then show ?thesis using discard False by (intro ticket_inv_cong[OF assms(2)]) auto
  qed
qed (rule ticket_inv_cong[OF assms(2)]; simp split: if_splits)+

lemma ticket_inv_loop:
  assumes "loop_step k s a s'" "ticket_inv tr s" "owner_inv s x" shows "ticket_inv (tr @ [a]) s'"
  using assms(1)
proof cases
  case (take_ticket b ls t ts)
  then show ?thesis using assms(2) by (auto simp: ticket_inv_def registered_def recorded_def)
next
  case (erase b t ls)
  have stack: "oq_current_ticket_stack s = tickets_of ls @ [t]" using worker_at(3)[OF assms(3), of k] erase(3) by simp
  then show ?thesis using erase assms(2)
    by (auto simp: ticket_inv_def registered_def recorded_def)
qed (rule ticket_inv_cong[OF assms(2)]; simp)+

section \<open>Waiting and stopping\<close>

text \<open>
  Completed tickets and those about to be completed have left the registry; only threads outside the
  loops are blocked; as long as the queue is not stopped, waiting tickets have their processing scheduled.
\<close>

definition call_inv :: "operational_queue \<Rightarrow> nat \<Rightarrow> bool" where
  "call_inv s k \<longleftrightarrow> (case th_call (oq_threads s k) of
      C_SetValue t \<Rightarrow> t \<notin> oq_registry s \<and> t < oq_tickets s
    | C_Blocked t \<Rightarrow> th_loops (oq_threads s k) = []
    | C_Stopping \<Rightarrow> oq_stop_requested s
    | _ \<Rightarrow> True)
     \<and> (\<forall>b t ls. th_loops (oq_threads s k) = (b, L_Complete t) # ls \<longrightarrow> t \<notin> oq_registry s \<and> t < oq_tickets s)"

definition waiting_inv :: "operational_queue \<Rightarrow> bool" where
  "waiting_inv s \<longleftrightarrow> (\<forall>k. call_inv s k) \<and> (\<forall>t\<in>oq_completed s. t \<notin> oq_registry s \<and> t < oq_tickets s)
     \<and> (oq_processing_queue s \<noteq> [] \<longrightarrow> oq_stop_requested s \<or> oq_is_scheduled s)"

lemma waiting_invI:
  assumes "waiting_inv s" "\<And>j. j \<noteq> k \<Longrightarrow> oq_threads s' j = oq_threads s j" "call_inv s' k"
    and "oq_registry s' \<inter> {..<oq_tickets s} \<subseteq> oq_registry s" "oq_tickets s \<le> oq_tickets s'"
    and "oq_stop_requested s \<longrightarrow> oq_stop_requested s'"
    and "\<And>t. t \<in> oq_completed s' \<Longrightarrow> t \<in> oq_completed s \<or> t \<notin> oq_registry s' \<and> t < oq_tickets s'"
    and "oq_processing_queue s' \<noteq> [] \<Longrightarrow> oq_stop_requested s' \<or> oq_is_scheduled s'"
  shows "waiting_inv s'"
proof -
  have "call_inv s' j" for j
  proof (cases "j = k")
    case False
    then have "call_inv s j" "oq_threads s' j = oq_threads s j" using assms(1,2) by (simp_all add: waiting_inv_def)
    then show ?thesis using assms(4-6) by (auto simp: call_inv_def split: call.splits)
  qed (simp add: assms(3))
  moreover have "t \<notin> oq_registry s' \<and> t < oq_tickets s'" if "t \<in> oq_completed s'" for t
  proof (cases "t \<in> oq_completed s")
    case True
    then have "t \<notin> oq_registry s" "t < oq_tickets s" using assms(1) by (auto simp: waiting_inv_def)
    then show ?thesis using assms(4,5) by auto
  next
    case False
    then show ?thesis using assms(7)[OF that] by blast
  qed
  ultimately show ?thesis using assms(8) unfolding waiting_inv_def by blast
qed

lemma waiting_inv_call:
  assumes "call_step k s a s'" "waiting_inv s" "owner_inv s x" "code_calls s" "registered s" shows "waiting_inv s'"
proof -
  have inv: "call_inv s k" "oq_processing_queue s \<noteq> [] \<longrightarrow> oq_stop_requested s \<or> oq_is_scheduled s"
    using assms(2) by (simp_all add: waiting_inv_def)
  show ?thesis using assms(1)
  proof cases
    case (schedule t new s1)
    have idle: "th_call (oq_threads s k) = C_Idle" using schedule(3) by (simp add: runs_code_def)
    consider "s1 = s" "\<not> new" | "s1 = s\<lparr>oq_is_scheduled := True, oq_was_scheduled := insert t (oq_was_scheduled s),
        oq_processing_queue := oq_processing_queue s @ [t]\<rparr>"
      using schedule(4) by (auto simp: schedule_ticket_def split: if_splits)
    then show ?thesis
    proof cases
      case 2
      show ?thesis unfolding schedule(2) 2
        by (rule waiting_invI[OF assms(2), of k]) (use inv(1) idle in \<open>auto simp: call_inv_def split: if_splits\<close>)
    qed (use schedule(2) assms(2) in simp)
  next
    case (discard t c s1)
    have idle: "th_call (oq_threads s k) = C_Idle" using discard(3) by (simp add: runs_code_def)
    consider "s1 = s" "c = C_Idle \<or> c = C_Wait t" | "s1 = s\<lparr>oq_processing_queue := filter (\<lambda>d. d \<noteq> t) (oq_processing_queue s),
        oq_registry := oq_registry s - {t}\<rparr>" "c = C_SetValue t" "t \<in> oq_registry s"
      using discard(4) by (auto simp: discard_ticket_def split: if_splits)
    then show ?thesis
    proof cases
      case 1
      show ?thesis unfolding discard(2) 1(1)
        by (rule waiting_invI[OF assms(2), of k]) (use inv idle 1(2) in \<open>auto simp: call_inv_def\<close>)
    next
      case 2
      have "oq_processing_queue s \<noteq> []" if "filter (\<lambda>d. d \<noteq> t) (oq_processing_queue s) \<noteq> []" using that by auto
      then show ?thesis unfolding discard(2) 2(1)
        by (intro waiting_invI[OF assms(2), of k]) (use inv idle 2 assms(5) in \<open>auto simp: call_inv_def registered_def\<close>)
    qed
  next
    case (other_thread t)
    have "th_loops (oq_threads s k) = []"
    proof (rule ccontr)
      assume "th_loops (oq_threads s k) \<noteq> []"
      then obtain l ls where l: "th_loops (oq_threads s k) = l # ls" by (meson list.exhaust)
      then have "suspended l" using code_calls_at[OF assms(4), of k] other_thread(3) by simp
      then show False using worker_at(4)[OF assms(3) l] other_thread(4) by (auto simp: suspended_def split: if_splits)
    qed
    then show ?thesis using other_thread inv by (intro waiting_invI[OF assms(2), of k]) (auto simp: call_inv_def)
  next
    case create
    then show ?thesis using inv assms(5)
      by (intro waiting_invI[OF assms(2), of k]) (auto simp: create_ticket_def call_inv_def runs_code_def split: if_splits)
  qed (use inv in \<open>intro waiting_invI[OF assms(2), of k]; force simp: call_inv_def runs_code_def split: if_splits\<close>)+
qed

lemma after_loop_not_complete:
  assumes "nested ((b, pc) # ls)" "after_loop b ls = (b', L_Complete t) # ls'" shows False
  using assms by (auto simp: after_loop_def nested_Cons suspended_def split: if_splits)

lemma waiting_inv_loop:
  assumes "loop_step k s a s'" "waiting_inv s" "owner_inv s x" "registered s" shows "waiting_inv s'"
proof -
  have inv: "call_inv s k" "oq_processing_queue s \<noteq> [] \<longrightarrow> oq_stop_requested s \<or> oq_is_scheduled s"
    using assms(2) by (simp_all add: waiting_inv_def)
  show ?thesis using assms(1)
  proof cases
    case (test b ls given)
    then show ?thesis using inv worker_at(2)[OF assms(3), of k "(b, L_Test)" ls] after_loop_not_complete[of b L_Test ls]
      by (intro waiting_invI[OF assms(2), of k]) (auto simp: call_inv_def split: if_splits)
  next
    case (stopped b ls)
    then show ?thesis using inv worker_at(2)[OF assms(3), of k "(b, L_Take)" ls] after_loop_not_complete[of b L_Take ls]
      by (intro waiting_invI[OF assms(2), of k]) (auto simp: call_inv_def)
  next
    case (leave b ls)
    then have "ls = []" using worker_at(2)[OF assms(3), of k "(b, L_Check)" ls] by (simp add: nested_Cons split: if_splits)
    then show ?thesis using leave inv by (intro waiting_invI[OF assms(2), of k]) (auto simp: call_inv_def is_done_def)
  next
    case (erase b t ls)
    then show ?thesis using inv assms(4) worker_at(3)[OF assms(3), of k "(b, L_Erase t)" ls]
      by (intro waiting_invI[OF assms(2), of k]) (auto simp: call_inv_def registered_def)
  qed (use inv in \<open>intro waiting_invI[OF assms(2), of k]; force simp: call_inv_def\<close>)+
qed

text \<open>The invariant of the queue.\<close>

definition queue_inv :: "queue_event list \<Rightarrow> operational_queue \<Rightarrow> bool" where
  "queue_inv tr s \<longleftrightarrow> (\<exists>x. owner_inv s x) \<and> code_calls s \<and> ticket_inv tr s \<and> waiting_inv s"

lemma queue_inv_step: "queue_inv tr s \<Longrightarrow> queue_step s a s' \<Longrightarrow> queue_inv (tr @ [a]) s'"
  unfolding queue_inv_def queue_step_iff
  by (meson call_code_calls loop_code_calls owner_inv_call owner_inv_loop ticket_inv_call ticket_inv_loop waiting_inv_call
      waiting_inv_loop ticket_inv_def)

lemma queue_inv_new: "queue_inv [] OperationalQueue_new"
proof -
  have "owner_inv OperationalQueue_new Nobody"
    by (simp add: owner_inv_def owned_def working_def OperationalQueue_new_def)
  then show ?thesis unfolding queue_inv_def
    by (auto simp: OperationalQueue_new_def code_calls_def ticket_inv_def registered_def recorded_def waiting_inv_def call_inv_def)
qed

lemma queue_inv_run:
  assumes "queue_run OperationalQueue_new tr s" shows "queue_inv tr s"
proof -
  have "queue_run s0 tr s \<Longrightarrow> s0 = OperationalQueue_new \<Longrightarrow> queue_inv tr s" for s0
    by (induction rule: queue_run.induct) (auto intro: queue_inv_new queue_inv_step)
  with assms show ?thesis by simp
qed

lemma queue_run_trans: "queue_run s1 tr' s2 \<Longrightarrow> queue_run s tr s1 \<Longrightarrow> queue_run s (tr @ tr') s2"
  by (induction rule: queue_run.induct) (auto intro: queue_run.intros simp flip: append_assoc)

section \<open>Properties\<close>

text \<open>
  C18 (invariant). Tickets run in the order in which they were scheduled, each at most once, and those
  that were discarded never; at most one thread is inside the loops.
\<close>

theorem tickets_run_in_order:
  assumes "queue_run OperationalQueue_new tr s"
  shows "subseq (runs_of tr) (scheduled_of tr) \<and> distinct (scheduled_of tr)
    \<and> (\<forall>t. Discarded t \<in> set tr \<longrightarrow> Runs t \<notin> set tr)
    \<and> (\<forall>j k. th_loops (oq_threads s j) \<noteq> [] \<longrightarrow> th_loops (oq_threads s k) \<noteq> [] \<longrightarrow> j = k)"
proof -
  obtain x where x: "owner_inv s x" and r: "recorded tr s"
    using queue_inv_run[OF assms] by (auto simp: queue_inv_def ticket_inv_def)
  have "subseq (runs_of tr) (runs_of tr @ oq_processing_queue s)" by (simp add: prefix_imp_subseq)
  then have "subseq (runs_of tr) (scheduled_of tr)" using r unfolding recorded_def by (blast intro: subseq_order.trans)
  moreover have "\<forall>j k. th_loops (oq_threads s j) \<noteq> [] \<longrightarrow> th_loops (oq_threads s k) \<noteq> [] \<longrightarrow> j = k"
    using owner_inv_loops[OF x] by auto
  ultimately show ?thesis using r unfolding recorded_def by blast
qed

text \<open>Thread 0 creates a ticket and schedules it; thread 1 of the pool begins to run it.\<close>

definition idle_thread :: thread where "idle_thread = \<lparr>th_loops = [], th_call = C_Idle\<rparr>"

definition scheduled_ticket :: operational_queue where
  "scheduled_ticket = OperationalQueue_new\<lparr>oq_registry := {0}, oq_tickets := 1, oq_was_scheduled := {0},
     oq_processing_queue := [0], oq_is_scheduled := True, oq_pool_tasks := 1\<rparr>"

definition running_ticket :: operational_queue where
  "running_ticket = OperationalQueue_new\<lparr>oq_registry := {0}, oq_tickets := 1, oq_was_scheduled := {0},
     oq_is_scheduled := True, oq_current_ticket_stack := [0], oq_processing_thread := Some 1,
     oq_threads := (\<lambda>_. idle_thread)(1 := \<lparr>th_loops = [(Main, L_Run 0)], th_call = C_Idle\<rparr>)\<rparr>"

lemma run_call: "queue_run s tr s1 \<Longrightarrow> call_step k s1 a s2 \<Longrightarrow> s2 = s3 \<Longrightarrow> queue_run s (tr @ [a]) s3"
  by (blast intro: queue_run.intros queue_step.intros)

lemma run_loop: "queue_run s tr s1 \<Longrightarrow> loop_step k s1 a s2 \<Longrightarrow> s2 = s3 \<Longrightarrow> queue_run s (tr @ [a]) s3"
  by (blast intro: queue_run.intros queue_step.intros)

lemma idle_runs_code [simp]: "runs_code \<lparr>th_loops = [], th_call = C_Idle\<rparr>"
  by (simp add: runs_code_def)

lemma scheduled_ticket_run: "queue_run OperationalQueue_new [Silent, Scheduled 0, Silent] scheduled_ticket"
proof -
  let ?a = "OperationalQueue_new\<lparr>oq_registry := {0}, oq_tickets := 1\<rparr>"
  let ?b = "set_call 0 C_AddTask (?a\<lparr>oq_was_scheduled := {0}, oq_processing_queue := [0], oq_is_scheduled := True\<rparr>)"
  have a: "queue_run OperationalQueue_new ([] @ [Silent]) ?a"
    by (rule run_call[OF queue_run.none call_step.create[of _ 0]]) (simp_all add: OperationalQueue_new_def create_ticket_def)
  have b: "queue_run OperationalQueue_new (([] @ [Silent]) @ [Scheduled 0]) ?b"
    by (rule run_call[OF a, of 0], rule call_step.schedule[of _ 0 0 True, THEN back_subst[of "\<lambda>e. call_step _ _ e _"]])
      (auto simp: OperationalQueue_new_def schedule_ticket_def set_call_def)
  show ?thesis
    by (rule run_call[OF b call_step.add_task[of _ 0], simplified])
      (simp_all add: scheduled_ticket_def OperationalQueue_new_def set_call_def fun_eq_iff)
qed

lemma running_ticket_run: "queue_run OperationalQueue_new [Silent, Scheduled 0, Silent, Silent, Silent, Silent, Runs 0] running_ticket"
proof -
  let ?s = scheduled_ticket
  let ?a = "set_loops 1 [(Main, L_Begin)] (?s\<lparr>oq_pool_tasks := 0\<rparr>)"
  let ?b = "set_loops 1 [(Main, L_Test)] (?s\<lparr>oq_pool_tasks := 0, oq_processing_thread := Some 1\<rparr>)"
  let ?c = "set_loops 1 [(Main, L_Take)] (?s\<lparr>oq_pool_tasks := 0, oq_processing_thread := Some 1\<rparr>)"
  have threads: "oq_threads ?s = (\<lambda>_. idle_thread)" "oq_pool_tasks ?s = Suc 0" "oq_processing_queue ?s = [0]" "\<not> oq_stop_requested ?s"
    "oq_current_ticket_stack ?s = []"
    by (simp_all add: scheduled_ticket_def OperationalQueue_new_def idle_thread_def)
  note simps = threads idle_thread_def set_loops_def
  have a: "queue_run OperationalQueue_new ([Silent, Scheduled 0, Silent] @ [Silent]) ?a"
    by (rule run_loop[OF scheduled_ticket_run loop_step.start[of _ 1 0]]) (simp_all add: simps)
  have b: "queue_run OperationalQueue_new (([Silent, Scheduled 0, Silent] @ [Silent]) @ [Silent]) ?b"
    by (rule run_loop[OF a loop_step.begin_processing[of _ 1 Main "[]"]]) (simp_all add: simps)
  have c: "queue_run OperationalQueue_new ((([Silent, Scheduled 0, Silent] @ [Silent]) @ [Silent]) @ [Silent]) ?c"
    by (rule run_loop[OF b loop_step.test[of _ 1 Main "[]" False]]) (simp_all add: simps breaks_def is_done_def)
  show ?thesis
    by (rule run_loop[OF c loop_step.take_ticket[of _ 1 Main "[]" 0 "[]"], simplified])
      (simp_all add: simps running_ticket_def scheduled_ticket_def OperationalQueue_new_def)
qed

theorem tickets_run_in_order_witness:
  "runs_of [Silent, Scheduled 0, Silent, Silent, Silent, Silent, Runs 0] = [0]
    \<and> subseq (runs_of [Silent, Scheduled 0, Silent, Silent, Silent, Silent, Runs 0]) [0]"
  using tickets_run_in_order[OF running_ticket_run] by simp

lemma step_keeps_gone:
  assumes "queue_step s a s'" "registered s" "t \<notin> oq_registry s" "t < oq_tickets s"
  shows "t \<notin> oq_registry s' \<and> t < oq_tickets s' \<and> a \<noteq> Runs t"
proof -
  from assms(1) obtain k where "call_step k s a s' \<or> loop_step k s a s'" by (auto simp: queue_step_iff)
  then show ?thesis
  proof
    assume "call_step k s a s'"
    then show ?thesis
      by cases (use assms(3,4) in \<open>auto simp: create_ticket_def schedule_ticket_def discard_ticket_def split: if_splits\<close>)
  next
    assume "loop_step k s a s'"
    then show ?thesis by cases (use assms(2-4) in \<open>auto simp: registered_def\<close>)
  qed
qed

lemma run_keeps_gone:
  assumes "queue_run s tr' s'" "queue_inv tr s" "t \<notin> oq_registry s" "t < oq_tickets s"
  shows "queue_inv (tr @ tr') s' \<and> t \<notin> oq_registry s' \<and> t < oq_tickets s' \<and> Runs t \<notin> set tr'"
  using assms
proof (induction rule: queue_run.induct)
  case (step s tr' s1 a s2)
  then have "queue_inv (tr @ tr') s1" "registered s1" by (auto simp: queue_inv_def ticket_inv_def)
  then show ?case using step queue_inv_step[of "tr @ tr'" s1 a s2] step_keeps_gone[of s1 a s2 t] by auto
qed simp

lemma returned_ticket_gone:
  assumes "queue_step s (Returns k t) s'" "waiting_inv s" shows "t \<notin> oq_registry s'"
proof -
  from assms(1) obtain j where "call_step j s (Returns k t) s' \<or> loop_step j s (Returns k t) s'" by (auto simp: queue_step_iff)
  then show ?thesis
  proof
    assume "call_step j s (Returns k t) s'"
    then show ?thesis by cases (use assms(2) in \<open>auto simp: waiting_inv_def split: if_splits\<close>)
  next
    assume "loop_step j s (Returns k t) s'"
    then show ?thesis by cases
  qed
qed

text \<open>
  When a thread that waited for a ticket goes on, the ticket is not running, and it will
  not run afterwards.
\<close>

theorem waiting_ends_with_ticket:
  assumes "queue_run OperationalQueue_new tr s" "queue_step s (Returns k t) s1" "t < oq_tickets s1" "queue_run s1 tr' s2"
  shows "t \<notin> set (oq_current_ticket_stack s1) \<and> Runs t \<notin> set tr' \<and> t \<notin> set (oq_current_ticket_stack s2)"
proof -
  have inv: "queue_inv tr s" "queue_inv (tr @ [Returns k t]) s1"
    using queue_inv_run[OF assms(1)] queue_inv_step[OF _ assms(2)] by blast+
  have "t \<notin> oq_registry s1" using returned_ticket_gone[OF assms(2)] inv(1) by (simp add: queue_inv_def)
  then have "queue_inv ((tr @ [Returns k t]) @ tr') s2" "t \<notin> oq_registry s2" "Runs t \<notin> set tr'" "t \<notin> oq_registry s1"
    using run_keeps_gone[OF assms(4) inv(2) _ assms(3)] by blast+
  then show ?thesis using inv(2) by (auto simp: queue_inv_def ticket_inv_def registered_def)
qed

text \<open>
  C19 (liveness). As long as the queue is not stopped, a ticket that waits is on its way: some thread is
  about to hand the processing to the pool, the pool has it, or a thread is inside the loops and
  can go on there.
\<close>

theorem queue_never_stalls:
  assumes "queue_run OperationalQueue_new tr s" "\<not> oq_stop_requested s" "oq_processing_queue s \<noteq> []"
  shows "(\<exists>k. th_call (oq_threads s k) = C_AddTask) \<or> oq_pool_tasks s > 0
    \<or> (\<exists>k a s'. th_loops (oq_threads s k) \<noteq> []
         \<and> (loop_step k s a s' \<or> call_step k s a s' \<and> th_call (oq_threads s k) \<noteq> C_Idle))"
proof -
  obtain x where inv: "owner_inv s x" "waiting_inv s" and "code_calls s"
    using queue_inv_run[OF assms(1)] by (auto simp: queue_inv_def)
  have "oq_is_scheduled s" using inv(2) assms(2,3) by (simp add: waiting_inv_def)
  then have "x \<noteq> Nobody" using inv(1) by (simp add: owner_inv_def owned_def)
  show ?thesis
  proof (cases x)
    case (Worker k)
    then obtain b pc ls where l: "th_loops (oq_threads s k) = (b, pc) # ls"
      using owner_inv_loops[OF inv(1), of k] by (metis list.exhaust surj_pair)
    have "\<exists>a s'. loop_step k s a s' \<or> call_step k s a s' \<and> th_call (oq_threads s k) \<noteq> C_Idle"
    proof (cases "th_call (oq_threads s k)")
      case C_Idle
      then have th: "oq_threads s k = \<lparr>th_loops = (b, pc) # ls, th_call = C_Idle\<rparr>" using l by (cases "oq_threads s k") simp
      obtain t ts where "oq_processing_queue s = t # ts" using assms(3) by (meson list.exhaust)
      then show ?thesis using th assms(2) by (cases pc) (metis loop_step.intros)+
    next
      case (C_Found t)
      then show ?thesis by (metis call_step.intros(8,9,10) call.distinct(7))
    next
      case (C_Blocked t)
      then show ?thesis using inv(2) l by (auto simp: waiting_inv_def call_inv_def dest: spec[of _ k])
    next
      case C_Stopping
      then show ?thesis using inv(2) assms(2) by (auto simp: waiting_inv_def call_inv_def dest: spec[of _ k])
    qed (metis call_step.intros call.distinct)+
    moreover have "th_loops (oq_threads s k) \<noteq> []" using l by simp
    ultimately have "\<exists>k a s'. th_loops (oq_threads s k) \<noteq> []
         \<and> (loop_step k s a s' \<or> call_step k s a s' \<and> th_call (oq_threads s k) \<noteq> C_Idle)"
      by metis
    then show ?thesis by (intro disjI2)
  qed (use inv(1) \<open>x \<noteq> Nobody\<close> in \<open>auto simp: owner_inv_def owned_def\<close>)
qed

theorem queue_never_stalls_witness: "oq_pool_tasks scheduled_ticket > 0"
proof -
  have "th_call (oq_threads scheduled_ticket k) \<noteq> C_AddTask" "th_loops (oq_threads scheduled_ticket k) = []" for k
    by (simp_all add: scheduled_ticket_def OperationalQueue_new_def)
  then show ?thesis using queue_never_stalls[OF scheduled_ticket_run]
    by (auto simp: scheduled_ticket_def OperationalQueue_new_def)
qed

text \<open>A ticket that was discarded is not waited for.\<close>

definition discarded_ticket :: operational_queue where
  "discarded_ticket = OperationalQueue_new\<lparr>oq_tickets := 1,
     oq_threads := (\<lambda>_. idle_thread)(0 := \<lparr>th_loops = [], th_call = C_SetValue 0\<rparr>, 1 := \<lparr>th_loops = [], th_call = C_Wait 0\<rparr>)\<rparr>"

lemma discarded_ticket_run: "queue_run OperationalQueue_new [Silent, Discarded 0, Silent] discarded_ticket"
proof -
  let ?a = "OperationalQueue_new\<lparr>oq_registry := {0}, oq_tickets := 1\<rparr>"
  let ?b = "set_call 0 (C_SetValue 0) (OperationalQueue_new\<lparr>oq_tickets := 1\<rparr>)"
  have a: "queue_run OperationalQueue_new ([] @ [Silent]) ?a"
    by (rule run_call[OF queue_run.none call_step.create[of _ 0]]) (simp_all add: OperationalQueue_new_def create_ticket_def)
  have b: "queue_run OperationalQueue_new (([] @ [Silent]) @ [Discarded 0]) ?b"
    by (rule run_call[OF a, of 0], rule call_step.discard[of _ 0 0 "C_SetValue 0", THEN back_subst[of "\<lambda>e. call_step _ _ e _"]])
      (auto simp: OperationalQueue_new_def discard_ticket_def set_call_def)
  show ?thesis
    by (rule run_call[OF b call_step.wait[of _ 1 0], simplified])
      (simp_all add: discarded_ticket_def OperationalQueue_new_def set_call_def idle_thread_def)
qed

theorem waiting_ends_with_ticket_witness:
  "(0::nat) \<notin> set (oq_current_ticket_stack (set_call 1 C_Idle discarded_ticket))"
proof -
  have "call_step 1 discarded_ticket (Returns 1 0) (set_call 1 C_Idle discarded_ticket)"
    using call_step.find[of discarded_ticket 1 0] by (simp add: discarded_ticket_def OperationalQueue_new_def)
  then have "queue_step discarded_ticket (Returns 1 0) (set_call 1 C_Idle discarded_ticket)" by (rule queue_step.call)
  moreover have "0 < oq_tickets (set_call 1 C_Idle discarded_ticket)" by (simp add: discarded_ticket_def)
  ultimately show ?thesis using waiting_ends_with_ticket[OF discarded_ticket_run _ _ queue_run.none] by blast
qed

section \<open>After a stop\<close>

lemma step_keeps_queued:
  assumes "queue_step s a s'" "oq_stop_requested s" "t \<in> set (oq_processing_queue s)" "a \<noteq> Discarded t"
  shows "oq_stop_requested s' \<and> t \<in> set (oq_processing_queue s')"
proof -
  from assms(1) obtain k where "call_step k s a s' \<or> loop_step k s a s'" by (auto simp: queue_step_iff)
  then show ?thesis
  proof
    assume "call_step k s a s'"
    then show ?thesis
      by cases (use assms(2-4) in \<open>auto simp: create_ticket_def schedule_ticket_def discard_ticket_def split: if_splits\<close>)
  next
    assume "loop_step k s a s'"
    then show ?thesis by cases (use assms(2,3) in auto)
  qed
qed

lemma step_keeps_blocked:
  assumes "queue_step s a s'" "th_call (oq_threads s k) = C_Blocked t" "t \<notin> oq_completed s"
  shows "th_call (oq_threads s' k) = C_Blocked t"
proof -
  from assms(1) obtain j where "call_step j s a s' \<or> loop_step j s a s'" by (auto simp: queue_step_iff)
  then show ?thesis
  proof
    assume "call_step j s a s'"
    then show ?thesis
      by cases (use assms(2,3) in \<open>auto simp: runs_code_def create_ticket_def schedule_ticket_def discard_ticket_def split: if_splits\<close>)
  next
    assume "loop_step j s a s'"
    then show ?thesis by cases (use assms(2) in \<open>auto simp: set_loops_def\<close>)
  qed
qed

lemma step_keeps_stopping:
  assumes "queue_step s a s'" "th_call (oq_threads s k) = C_Stopping" "oq_is_scheduled s" "th_loops (oq_threads s k) \<noteq> []"
    "owner_inv s x"
  shows "th_call (oq_threads s' k) = C_Stopping \<and> th_loops (oq_threads s' k) \<noteq> []"
proof -
  from assms(1) obtain j where "call_step j s a s' \<or> loop_step j s a s'" by (auto simp: queue_step_iff)
  then show ?thesis
  proof
    assume "call_step j s a s'"
    then show ?thesis
      by cases (use assms(2-4) in \<open>auto simp: runs_code_def create_ticket_def schedule_ticket_def discard_ticket_def split: if_splits\<close>)
  next
    assume l: "loop_step j s a s'"
    have "j \<noteq> k" using l by cases (use assms(2) in auto)
    from l show ?thesis by cases (use \<open>j \<noteq> k\<close> assms(2,4) in \<open>auto simp: set_loops_def\<close>)
  qed
qed

text \<open>
  C20 (safety). Stopping can leave threads waiting for ever: a thread that waits for a ticket that was
  scheduled but not yet taken when the queue was stopped, unless the ticket is discarded; and a
  ticket that stops the queue it runs on.
\<close>

theorem stopping_leaves_waiters:
  assumes "queue_run OperationalQueue_new tr s" "queue_run s tr' s'"
  shows "(oq_stop_requested s \<and> t \<in> set (oq_processing_queue s) \<and> Discarded t \<notin> set tr'
      \<and> th_call (oq_threads s k) = C_Blocked t \<longrightarrow> th_call (oq_threads s' k) = C_Blocked t)
    \<and> (th_call (oq_threads s k) = C_Stopping \<and> th_loops (oq_threads s k) \<noteq> [] \<longrightarrow> th_call (oq_threads s' k) = C_Stopping)"
proof -
  have inv: "queue_inv tr s" by (rule queue_inv_run[OF assms(1)])
  have "queue_inv (tr @ tr') s'
    \<and> (oq_stop_requested s \<and> t \<in> set (oq_processing_queue s) \<and> Discarded t \<notin> set tr' \<and> th_call (oq_threads s k) = C_Blocked t \<longrightarrow>
         oq_stop_requested s' \<and> t \<in> set (oq_processing_queue s') \<and> th_call (oq_threads s' k) = C_Blocked t)
    \<and> (th_call (oq_threads s k) = C_Stopping \<and> th_loops (oq_threads s k) \<noteq> [] \<longrightarrow>
         th_call (oq_threads s' k) = C_Stopping \<and> th_loops (oq_threads s' k) \<noteq> [])"
    using assms(2) inv
  proof (induction rule: queue_run.induct)
    case (step s tr' s1 a s2)
    then have i: "queue_inv (tr @ tr') s1" "queue_inv (tr @ tr' @ [a]) s2" using queue_inv_step[of "tr @ tr'" s1 a s2] by auto
    then obtain x where x: "owner_inv s1 x" "registered s1" "waiting_inv s1" by (auto simp: queue_inv_def ticket_inv_def)
    have "t \<notin> oq_completed s1" if "t \<in> set (oq_processing_queue s1)"
      using that x(2,3) by (auto simp: registered_def waiting_inv_def)
    moreover have "oq_is_scheduled s1" if "th_loops (oq_threads s1 k) \<noteq> []"
      using that x(1) by (auto simp: owner_inv_def owned_def)
    ultimately show ?case
      using step i step_keeps_queued[of s1 a s2 t] step_keeps_blocked[of s1 a s2 k t] step_keeps_stopping[of s1 a s2 k x] x(1)
      by auto
  qed simp
  then show ?thesis by blast
qed

text \<open>Thread 2 waits for a ticket when thread 0 stops the queue; then thread 1 of the pool finds nothing to do.\<close>

definition stopped_queue :: "nat \<Rightarrow> (break_condition \<times> loop_pc) list \<Rightarrow> bool \<Rightarrow> nat option \<Rightarrow> operational_queue" where
  "stopped_queue pool_tasks ls is_scheduled processing_thread = OperationalQueue_new\<lparr>oq_registry := {0}, oq_tickets := 1,
     oq_was_scheduled := {0}, oq_processing_queue := [0], oq_is_scheduled := is_scheduled, oq_pool_tasks := pool_tasks,
     oq_stop_requested := True, oq_processing_thread := processing_thread,
     oq_threads := (\<lambda>_. idle_thread)(0 := \<lparr>th_loops = [], th_call = C_Stopping\<rparr>, 1 := \<lparr>th_loops = ls, th_call = C_Idle\<rparr>,
       2 := \<lparr>th_loops = [], th_call = C_Blocked 0\<rparr>)\<rparr>"

lemma stopped_queue_run:
  "queue_run OperationalQueue_new [Silent, Scheduled 0, Silent, Silent, Silent, Silent, Stops] (stopped_queue 1 [] True None)"
proof -
  let ?s = scheduled_ticket
  have threads: "oq_threads ?s = (\<lambda>_. idle_thread)" "oq_registry ?s = {0}" "\<not> oq_stop_requested ?s" "oq_processing_thread ?s = None"
    by (simp_all add: scheduled_ticket_def OperationalQueue_new_def idle_thread_def)
  note simps = threads idle_thread_def
  have a: "queue_run OperationalQueue_new ([Silent, Scheduled 0, Silent] @ [Silent]) (set_call 2 (C_Wait 0) ?s)"
    by (rule run_call[OF scheduled_ticket_run call_step.wait[of _ 2 0]]) (simp_all add: simps)
  have b: "queue_run OperationalQueue_new (([Silent, Scheduled 0, Silent] @ [Silent]) @ [Silent]) (set_call 2 (C_Found 0) ?s)"
    by (rule run_call[OF a, of 2], rule call_step.find[of _ 2 0, THEN back_subst[of "\<lambda>e. call_step _ _ e _"]])
      (simp_all add: simps set_call_def)
  have c: "queue_run OperationalQueue_new ((([Silent, Scheduled 0, Silent] @ [Silent]) @ [Silent]) @ [Silent]) (set_call 2 (C_Blocked 0) ?s)"
    by (rule run_call[OF b call_step.other_thread[of _ 2 0]]) (simp_all add: simps set_call_def)
  show ?thesis
    by (rule run_call[OF c call_step.stop[of _ 0], simplified])
      (simp_all add: simps set_call_def stopped_queue_def scheduled_ticket_def OperationalQueue_new_def fun_eq_iff)
qed

theorem stopping_leaves_waiters_witness:
  "th_call (oq_threads (stopped_queue 0 [] False None) 2) = C_Blocked 0"
proof -
  note simps = stopped_queue_def OperationalQueue_new_def set_loops_def idle_thread_def
  have a: "queue_run (stopped_queue 1 [] True None) ([] @ [Silent]) (stopped_queue 0 [(Main, L_Begin)] True None)"
    by (rule run_loop[OF queue_run.none loop_step.start[of _ 1 0]]) (simp_all add: simps fun_eq_iff)
  have b: "queue_run (stopped_queue 1 [] True None) (([] @ [Silent]) @ [Silent]) (stopped_queue 0 [(Main, L_Test)] True (Some 1))"
    by (rule run_loop[OF a loop_step.begin_processing[of _ 1 Main "[]"]]) (simp_all add: simps fun_eq_iff)
  have c: "queue_run (stopped_queue 1 [] True None) ((([] @ [Silent]) @ [Silent]) @ [Silent]) (stopped_queue 0 [(Main, L_Check)] True (Some 1))"
    by (rule run_loop[OF b loop_step.test[of _ 1 Main "[]" False]]) (simp_all add: simps breaks_def is_done_def after_loop_def fun_eq_iff)
  have d: "queue_run (stopped_queue 1 [] True None) (((([] @ [Silent]) @ [Silent]) @ [Silent]) @ [Silent]) (stopped_queue 0 [] False None)"
    by (rule run_loop[OF c loop_step.leave[of _ 1 Main "[]"]]) (simp_all add: simps is_done_def fun_eq_iff)
  show ?thesis using stopping_leaves_waiters[OF stopped_queue_run d, of 0 2] by (simp add: simps)
qed

end
