(* ===== verification/ColorSpace.thy ===== *)
theory ColorSpace imports DataModel begin

text \<open>
  The conversions of \<open>huestream/common/data/Color\<close> from and to the CIE coordinates of a bridge's
  light, and from its colour temperature. A \<open>double[2]\<close> is a pair; \<open>std::pow\<close> is the real power.
\<close>

definition gamma_corrected :: "real \<Rightarrow> real" where
  "gamma_corrected v = (if v > 0.0031308 then v powr (1 / 2.4) * 1.055 - 0.055 else v * 12.92)"

definition SetXY :: "real \<times> real \<Rightarrow> real \<Rightarrow> real \<Rightarrow> Color \<Rightarrow> Color" where
  "SetXY xy brightness maxBrightness c =
     (if brightness \<le> 0 \<or> snd xy \<le> 0
      then c\<lparr>red := 0, green := 0, blue := 0, rawRed := 0, rawGreen := 0, rawBlue := 0\<rparr>
      else let z = 1 - fst xy - snd xy;
               Y = brightness / maxBrightness;
               X = (Y / snd xy) * fst xy;
               Z = (Y / snd xy) * z;
               r = gamma_corrected (X * 3.2406 + Y * - 1.5372 + Z * - 0.4986);
               g = gamma_corrected (X * - 0.9689 + Y * 1.8758 + Z * 0.0415);
               b = gamma_corrected (X * 0.0557 + Y * - 0.2040 + Z * 1.0570);
               m = max r (max g b);
               s = (if m > 1 then m else 1)
           in Color_Clamp (c\<lparr>red := r / s, green := g / s, blue := b / s, rawRed := r, rawGreen := g, rawBlue := b\<rparr>))"

definition Color_xy :: "real \<times> real \<Rightarrow> real \<Rightarrow> real \<Rightarrow> Color" where
  "Color_xy xy brightness maxBrightness = SetXY xy brightness maxBrightness (Color_rgb 0 0 0)"

definition Color_ct :: "int \<Rightarrow> real \<Rightarrow> real \<Rightarrow> Color" where
  "Color_ct ct brightness maxBrightness =
     (let xy = (if ct \<le> 196 then (0.312987362, 0.323103173)
                else if ct \<le> 279 then (0.372681144, 0.371764524)
                else if ct \<le> 365 then (0.431628222, 0.402182599)
                else if ct \<le> 454 then (0.483089605, 0.414386536)
                else (0.526685851, 0.413295716))
      in SetXY xy brightness maxBrightness (Color_rgb 0 0 0))"

definition linear_component :: "real \<Rightarrow> real" where
  "linear_component v = (if v > 0.04045 then ((v + 0.055) / 1.055) powr 2.4 else v / 12.92) * 100"

definition GetYxy :: "Color \<Rightarrow> real \<times> real \<times> real" where
  "GetYxy c =
     (if rawRed c = 0 \<and> rawGreen c = 0 \<and> rawBlue c = 0 then (0, 0, 0)
      else let r = linear_component (rawRed c); g = linear_component (rawGreen c); b = linear_component (rawBlue c);
               X = r * 0.4124 + g * 0.3576 + b * 0.1805;
               Y = r * 0.2126 + g * 0.7152 + b * 0.0722;
               Z = r * 0.0193 + g * 0.1192 + b * 0.9505
           in (Y, X / (X + Y + Z), Y / (X + Y + Z)))"

text \<open>A converted colour can be shown, and its brightest component is kept in proportion.\<close>

lemma SetXY_range:
  "red (SetXY xy bri m c) \<in> {0..1}" "green (SetXY xy bri m c) \<in> {0..1}" "blue (SetXY xy bri m c) \<in> {0..1}"
  by (simp_all add: SetXY_def Let_def Color_Clamp_def clamp01_range)

lemma Color_xy_dark: "brightness \<le> 0 \<Longrightarrow> Color_xy xy brightness m = Color_rgb 0 0 0"
  by (simp add: Color_xy_def SetXY_def Color_rgb_def Color_rgba_def)

end
