(* ===== verification/ConfigRetriever.thy ===== *)
theory ConfigRetriever imports Storage ColorSpace "HOL-Library.Monad_Syntax" begin

text \<open>
  \<open>huestream/connect/FullConfigRetriever\<close> (the class \<open>ConfigRetriever\<close>): it asks a bridge for its
  configuration and fills the bridge object from the answer. The parser is a parameter; the
  answer of the HTTP client is an argument. \<open>None\<close>: an exception leaves the callback (a number in a
  text that does not fit into an \<open>int\<close>), or an element outside an array is accessed.
\<close>

section \<open>State\<close>

datatype ConfigType = SmallConfig | FullConfig

record config_retriever =
  cr_configType :: ConfigType
  cr_useForcedActivation :: bool
  cr_busy :: bool

definition ConfigRetriever_new :: "bool \<Rightarrow> ConfigType \<Rightarrow> config_retriever" where
  "ConfigRetriever_new useForcedActivation configType =
     \<lparr>cr_configType = configType, cr_useForcedActivation = useForcedActivation, cr_busy = False\<rparr>"

section \<open>Access to the tree\<close>

fun json_entries :: "json \<Rightarrow> (string \<times> json) list" where
  "json_entries (JNode kvs) = kvs"
| "json_entries (JArray js) = map (Pair []) js"
| "json_entries j = []"

definition json_at :: "json \<Rightarrow> nat \<Rightarrow> json option" where
  "json_at j i = (if i < length (json_children j) then Some (json_children j ! i) else None)"

section \<open>Regular expressions\<close>

text \<open>\<open>regex_search\<close> with \<open>/lights/(\d+)\<close>: the leftmost match, its digits as the sub-match.\<close>

fun proxy_light :: "string \<Rightarrow> string option" where
  "proxy_light [] = None"
| "proxy_light (c # cs) =
     (let ds = takeWhile isdigit (drop 8 (c # cs))
      in if take 8 (c # cs) = ''/lights/'' \<and> ds \<noteq> [] then Some ds else proxy_light cs)"

text \<open>
  \<open>.*_r(\d+)_d.*\<close> and \<open>.*_d(\d+)\<close>: a dot matches all but the ends of lines, and the star takes as much
  as it can, so the last match of the first line that has one.
\<close>

fun text_lines :: "string \<Rightarrow> string list" where
  "text_lines [] = [[]]"
| "text_lines (c # cs) = (if c = chr 10 \<or> c = chr 13 then [] # text_lines cs
     else case text_lines cs of l # ls \<Rightarrow> (c # l) # ls | [] \<Rightarrow> [[c]])"

fun last_match :: "(string \<Rightarrow> string option) \<Rightarrow> string \<Rightarrow> string option" where
  "last_match f [] = None"
| "last_match f (c # cs) = (case last_match f cs of Some ds \<Rightarrow> Some ds | None \<Rightarrow> f (c # cs))"

definition search_lines :: "(string \<Rightarrow> string option) \<Rightarrow> string \<Rightarrow> string option" where
  "search_lines f s = (case List.find (\<lambda>l. last_match f l \<noteq> None) (text_lines s) of
      Some l \<Rightarrow> last_match f l | None \<Rightarrow> None)"

definition group_digits :: "string \<Rightarrow> string option" where
  "group_digits s = (let ds = takeWhile isdigit (drop 2 s)
     in if take 2 s = ''_r'' \<and> ds \<noteq> [] \<and> take 2 (drop (2 + length ds) s) = ''_d'' then Some ds else None)"

definition default_scene_digits :: "string \<Rightarrow> string option" where
  "default_scene_digits s = (let ds = takeWhile isdigit (drop 2 s)
     in if take 2 s = ''_d'' \<and> ds \<noteq> [] then Some ds else None)"

definition Scene_GetGroupId :: "Scene \<Rightarrow> string option" where
  "Scene_GetGroupId s = (case search_lines group_digits (s_appData s) of
      None \<Rightarrow> Some []
    | Some ds \<Rightarrow> (case stoi ds of Inl e \<Rightarrow> None | Inr intId \<Rightarrow> Some (show_int intId)))"

definition GetDefaultSceneId :: "Scene \<Rightarrow> int option" where
  "GetDefaultSceneId s = (case search_lines default_scene_digits (s_appData s) of
      None \<Rightarrow> Some (-1)
    | Some ds \<Rightarrow> (case stoi ds of Inl e \<Rightarrow> None | Inr n \<Rightarrow> Some n))"

section \<open>Parsing\<close>

definition CLIP_ERROR_TYPE_UNAUTHORIZED_USER :: int where
  "CLIP_ERROR_TYPE_UNAUTHORIZED_USER = 1"

text \<open>The first entry of an array that holds an error: whether there is one, and whether it says unauthorized.\<close>

fun error_in_response :: "json_lib \<Rightarrow> json list \<Rightarrow> bool \<times> bool" where
  "error_in_response L [] = (False, False)"
| "error_in_response L (j # js) = (case json_find ''error'' j of
      None \<Rightarrow> error_in_response L js
    | Some entry \<Rightarrow> (True, case json_find ''type'' entry of
          None \<Rightarrow> False | Some i \<Rightarrow> as_int L i = CLIP_ERROR_TYPE_UNAUTHORIZED_USER))"

definition CheckForNoErrorsInResponse :: "json_lib \<Rightarrow> ConfigType \<Rightarrow> json \<Rightarrow> Bridge \<Rightarrow> bool \<times> Bridge" where
  "CheckForNoErrorsInResponse L configType doc b =
     (let (hasError, hasUnauthorizedError) = (case doc of JArray js \<Rightarrow> error_in_response L js | _ \<Rightarrow> (False, False))
      in if hasError
         then (False, if hasUnauthorizedError then b\<lparr>b_isAuthorized := False, b_isValidIp := True\<rparr> else b\<lparr>b_isValidIp := False\<rparr>)
         else (True, (if configType = FullConfig then b\<lparr>b_isAuthorized := True\<rparr> else b)\<lparr>b_isValidIp := True\<rparr>))"

definition ParseConfig :: "json_lib \<Rightarrow> ConfigType \<Rightarrow> json \<Rightarrow> Bridge \<Rightarrow> (bool \<times> Bridge) option" where
  "ParseConfig L configType doc b =
     (if configType = FullConfig \<and> \<not> IsAttributeSet doc ''config'' then Some (False, b\<lparr>b_isValidIp := False\<rparr>)
      else let config = (if configType = FullConfig then GetAttributeValue doc ''config'' else doc);
               b1 = b\<lparr>b_name := DeserializeString L config ''name'' [], b_modelId := DeserializeString L config ''modelid'' [],
                      b_apiversion := DeserializeString L config ''apiversion'' [],
                      b_swversion := DeserializeString L config ''swversion'' []\<rparr>
           in case (ApiVersion_of_string (b_apiversion b1), ApiVersion_of_string ''1.8.0'') of
                (Inr thisVersion, Inr modelIdSupportVersion) \<Rightarrow>
                  (let b2 = (if b_modelId b1 = [] \<and> v_valid thisVersion \<and> version_less thisVersion modelIdSupportVersion
                             then b1\<lparr>b_modelId := ''BSB001''\<rparr> else b1);
                       b3 = b2\<lparr>b_id := DeserializeString L config ''bridgeid'' []\<rparr>
                   in if configType = FullConfig \<and> (\<not> IsAttributeSet doc ''groups'' \<or> \<not> IsAttributeSet doc ''lights'')
                      then Some (False, b3\<lparr>b_isValidIp := False\<rparr>)
                      else Some (True, b3\<lparr>b_isValidIp := True\<rparr>))
              | _ \<Rightarrow> None)"

definition GroupIsEntertainment :: "json_lib \<Rightarrow> json \<Rightarrow> bool" where
  "GroupIsEntertainment L j \<longleftrightarrow> (case json_find ''type'' j of Some t \<Rightarrow> as_string L t = ''Entertainment'' | None \<Rightarrow> False)"

definition ParseClass :: "json_lib \<Rightarrow> json \<Rightarrow> Group \<Rightarrow> Group" where
  "ParseClass L node g = (case json_find ''class'' node of
      None \<Rightarrow> g
    | Some c \<Rightarrow> g\<lparr>g_classType := if as_string L c = ''TV'' then GROUPCLASS_TV
                    else if as_string L c = ''Free'' then GROUPCLASS_FREE else GROUPCLASS_OTHER\<rparr>)"

text \<open>
  \<open>LightInfo\<close> keeps a brightness of its own, which hides the one of \<open>Light\<close>: the latter stays 0.
\<close>

definition light_state :: "json_lib \<Rightarrow> json \<Rightarrow> (bool \<times> real \<times> (real \<times> real)) option" where
  "light_state L state =
     (let reachable = DeserializeBool L state ''reachable'' True
      in if DeserializeBool L state ''on'' True
         then let bri = DeserializeFloat L state ''bri'' 1
              in case json_find ''xy'' state of
                   None \<Rightarrow> Some (reachable, bri, (0, 0))
                 | Some xy \<Rightarrow> (case (json_at xy 0, json_at xy 1) of
                     (Some x, Some y) \<Rightarrow> Some (reachable, bri, (as_float L x, as_float L y)) | _ \<Rightarrow> None)
         else Some (reachable, 0, (0, 0)))"

definition GetLightInfo :: "json_lib \<Rightarrow> json \<Rightarrow> string \<Rightarrow> (Light \<times> real) option" where
  "GetLightInfo L doc i =
     (let light = (case json_find i (GetAttributeValue doc ''lights'') of Some l \<Rightarrow> l | None \<Rightarrow> JNode [])
      in case (case json_find ''state'' light of Some s \<Rightarrow> light_state L s | None \<Rightarrow> Some (True, 0, (0, 0))) of
           None \<Rightarrow> None
         | Some (reachable, bri, xy) \<Rightarrow>
             Some (Light_default\<lparr>l_id := i, l_name := DeserializeString L light ''name'' [],
               l_model := DeserializeString L light ''modelid'' [], l_reachable := reachable, l_color := Color_xy xy bri 254\<rparr>, bri))"

text \<open>A lamp of seven pixels is given seven lights at fixed places.\<close>

definition pxls_models :: "string list" where
  "pxls_models = [''LCX001'', ''LCX002'', ''LCX003'']"

definition pxls_lights :: "(string \<times> Location) list" where
  "pxls_lights =
     [(''100'', \<lparr>loc_x = - 0.4, loc_y = 0.8, loc_z = - 0.4\<rparr>), (''101'', \<lparr>loc_x = - 0.4, loc_y = 0.8, loc_z = 0\<rparr>),
      (''102'', \<lparr>loc_x = - 0.4, loc_y = 0.8, loc_z = 0.4\<rparr>), (''103'', \<lparr>loc_x = 0, loc_y = 0.8, loc_z = 0.4\<rparr>),
      (''104'', \<lparr>loc_x = 0.4, loc_y = 0.8, loc_z = 0.4\<rparr>), (''105'', \<lparr>loc_x = 0.4, loc_y = 0.8, loc_z = 0\<rparr>),
      (''106'', \<lparr>loc_x = 0.4, loc_y = 0.8, loc_z = - 0.4\<rparr>)]"

definition coordinates_of :: "json_lib \<Rightarrow> json \<Rightarrow> Location option" where
  "coordinates_of L coordinates = do {
     x \<leftarrow> json_at coordinates 0;
     y \<leftarrow> json_at coordinates 1;
     z \<leftarrow> json_at coordinates 2;
     Some \<lparr>loc_x = Clip (as_float L x) (-1) 1, loc_y = Clip (as_float L y) (-1) 1, loc_z = Clip (as_float L z) (-1) 1\<rparr>
   }"

text \<open>The group, its lamps, the sum of the brightness of the reachable ones and their number.\<close>

type_synonym lights_read = "Group \<times> Light list \<times> real \<times> nat"

definition read_light :: "json_lib \<Rightarrow> json \<Rightarrow> string \<times> json \<Rightarrow> lights_read \<Rightarrow> lights_read option" where
  "read_light L doc entry acc = (case (entry, acc) of ((lightId, coordinates), (g, physicalLights, avgBri, reachableLights)) \<Rightarrow>
     (case GetLightInfo L doc lightId of
        None \<Rightarrow> None
      | Some (light, bri) \<Rightarrow>
          (let avgBri = (if l_reachable light then avgBri + bri else avgBri);
               reachableLights = (if l_reachable light then reachableLights + 1 else reachableLights)
           in if l_model light \<in> set pxls_models
              then Some (foldl (\<lambda>g (i, p). AddLight g (light\<lparr>l_id := i, l_position := p\<rparr>)) g pxls_lights,
                     physicalLights @ [light], avgBri, reachableLights)
              else map_option (\<lambda>p. (AddLight g (light\<lparr>l_position := p\<rparr>), physicalLights @ [light\<lparr>l_position := p\<rparr>],
                     avgBri, reachableLights)) (coordinates_of L coordinates))))"

fun read_lights :: "json_lib \<Rightarrow> json \<Rightarrow> (string \<times> json) list \<Rightarrow> lights_read \<Rightarrow> lights_read option" where
  "read_lights L doc [] acc = Some acc"
| "read_lights L doc (e # es) acc = (case read_light L doc e acc of None \<Rightarrow> None | Some acc1 \<Rightarrow> read_lights L doc es acc1)"

definition ParseLightsAndLocations :: "json_lib \<Rightarrow> json \<Rightarrow> json \<Rightarrow> Group \<Rightarrow> Group option" where
  "ParseLightsAndLocations L doc node g =
     map_option (\<lambda>(g1, physicalLights, avgBri, n).
         g1\<lparr>g_brightnessState := (if n > 0 then avgBri / real n else avgBri) / 254, g_physicalLights := physicalLights\<rparr>)
       (read_lights L doc (case json_find ''locations'' node of Some l \<Rightarrow> json_entries l | None \<Rightarrow> []) (g, [], 0, 0))"

definition GetOwnerName :: "json_lib \<Rightarrow> json \<Rightarrow> string \<Rightarrow> string" where
  "GetOwnerName L doc userName =
     (case json_find ''whitelist'' (GetAttributeValue doc ''config'') of
        None \<Rightarrow> []
      | Some whitelist \<Rightarrow> (case json_find userName whitelist of
          None \<Rightarrow> [] | Some user \<Rightarrow> DeserializeString L user ''name'' []))"

definition ParseStreamActive :: "json_lib \<Rightarrow> json \<Rightarrow> json \<Rightarrow> Group \<Rightarrow> Group" where
  "ParseStreamActive L doc node g = (case (json_find ''active'' node, json_find ''owner'' node) of
      (Some active, Some own) \<Rightarrow>
        (let g1 = g\<lparr>g_active := as_bool L active\<rparr>
         in if as_bool L active
            then g1\<lparr>g_owner := as_string L own, g_ownerName := GetOwnerName L doc (as_string L own)\<rparr> else g1)
    | _ \<Rightarrow> g)"

definition ParseStreamProxy :: "json_lib \<Rightarrow> json \<Rightarrow> Bridge \<Rightarrow> json \<Rightarrow> Group \<Rightarrow> Group option" where
  "ParseStreamProxy L doc b node g = (case (json_find ''proxymode'' node, json_find ''proxynode'' node) of
      (Some mode, Some uri) \<Rightarrow>
        (let uri = as_string L uri; mode = as_string L mode
         in case proxy_light uri of
              Some i \<Rightarrow> map_option (\<lambda>(light, bri). g\<lparr>g_proxyNode := \<lparr>pn_uri = uri, pn_mode = mode, pn_name = l_name light,
                          pn_model = l_model light, pn_isReachable = l_reachable light\<rparr>\<rparr>) (GetLightInfo L doc i)
            | None \<Rightarrow> Some (g\<lparr>g_proxyNode := \<lparr>pn_uri = uri, pn_mode = mode, pn_name = b_name b, pn_model = b_modelId b,
                          pn_isReachable = True\<rparr>\<rparr>))
    | _ \<Rightarrow> Some g)"

definition ParseStream :: "json_lib \<Rightarrow> json \<Rightarrow> Bridge \<Rightarrow> json \<Rightarrow> Group \<Rightarrow> Group option" where
  "ParseStream L doc b node g = (case json_find ''stream'' node of
      None \<Rightarrow> Some g | Some stream \<Rightarrow> ParseStreamProxy L doc b stream (ParseStreamActive L doc stream g))"

definition ParseGroupState :: "json_lib \<Rightarrow> json \<Rightarrow> Group \<Rightarrow> Group" where
  "ParseGroupState L node g = (case json_find ''state'' node of
      None \<Rightarrow> g
    | Some state \<Rightarrow> (case json_find ''any_on'' state of None \<Rightarrow> g | Some anyOn \<Rightarrow> g\<lparr>g_onState := as_bool L anyOn\<rparr>))"

definition SceneIsNotRecyclable :: "json_lib \<Rightarrow> json \<Rightarrow> bool" where
  "SceneIsNotRecyclable L j \<longleftrightarrow> (case json_find ''recycle'' j of Some r \<Rightarrow> \<not> as_bool L r | None \<Rightarrow> False)"

definition ParseScene :: "json_lib \<Rightarrow> string \<times> json \<Rightarrow> Scene" where
  "ParseScene L entry = (case entry of (tag, node) \<Rightarrow>
     Scene_new [] tag (DeserializeString L node ''name'' [])
       (case json_find ''appdata'' node of Some appData \<Rightarrow> DeserializeString L appData ''data'' [] | None \<Rightarrow> []) [])"

fun parse_scenes :: "json_lib \<Rightarrow> string \<Rightarrow> (string \<times> json) list \<Rightarrow> Scene list option" where
  "parse_scenes L groupId [] = Some []"
| "parse_scenes L groupId (e # es) =
     (if SceneIsNotRecyclable L (snd e)
      then case Scene_GetGroupId (ParseScene L e) of
             None \<Rightarrow> None
           | Some i \<Rightarrow> map_option (\<lambda>ss. if i = groupId then ParseScene L e # ss else ss) (parse_scenes L groupId es)
      else parse_scenes L groupId es)"

definition ParseScenes :: "json_lib \<Rightarrow> json \<Rightarrow> Group \<Rightarrow> Group option" where
  "ParseScenes L doc g = (case json_find ''scenes'' doc of
      None \<Rightarrow> Some g
    | Some scenes \<Rightarrow> map_option (\<lambda>ss. g\<lparr>g_scenes := ss\<rparr>) (parse_scenes L (g_id g) (json_entries scenes)))"

definition ParseEntertainmentGroup :: "json_lib \<Rightarrow> json \<Rightarrow> Bridge \<Rightarrow> string \<times> json \<Rightarrow> Group option" where
  "ParseEntertainmentGroup L doc b entry = (case entry of (groupId, node) \<Rightarrow> do {
     g \<leftarrow> ParseLightsAndLocations L doc node
            (ParseClass L node (Group_new\<lparr>g_id := groupId, g_name := DeserializeString L node ''name'' []\<rparr>));
     g \<leftarrow> ParseStream L doc b node g;
     ParseScenes L doc (ParseGroupState L node g)
   })"

definition ParseGroups :: "json_lib \<Rightarrow> json \<Rightarrow> store \<Rightarrow> ref \<Rightarrow> store option" where
  "ParseGroups L doc h r =
     map_option (\<lambda>gs. let (h1, rs) = alloc_groups gs h; (h2, gl) = alloc_grouplist rs h1
                     in upd_bridge r (\<lambda>b. b\<lparr>b_groups := gl\<rparr>) h2)
       (those (map (ParseEntertainmentGroup L doc (bridges_at h r))
         (filter (\<lambda>e. GroupIsEntertainment L (snd e)) (json_entries (GetAttributeValue doc ''groups'')))))"

text \<open>\<open>GetStatus\<close> throws when the bridge is found and its model number does not fit into an \<open>int\<close>.\<close>

definition status_throws :: "Bridge \<Rightarrow> bool" where
  "status_throws b \<longleftrightarrow> IsFound b \<and> isl (IsValidModelId_r b)"

definition ParseCapabilities :: "json_lib \<Rightarrow> bool \<Rightarrow> json \<Rightarrow> store \<Rightarrow> ref \<Rightarrow> store option" where
  "ParseCapabilities L useForcedActivation doc h r =
     (case json_find ''capabilities'' doc of
        None \<Rightarrow> Some h
      | Some capabilities \<Rightarrow> (case json_find ''streaming'' capabilities of
          None \<Rightarrow> Some h
        | Some streaming \<Rightarrow>
            (let h1 = upd_bridge r (\<lambda>b. b\<lparr>b_maxNoStreamingSessions := DeserializeInt L streaming ''total'' 0\<rparr>) h;
                 b = bridges_at h1 r
             in if status_throws b then None
                else if IsStreaming h1 b then Some h1
                else let selectedGroupCanBeOvertaken = (case GetGroup h1 b of
                           Some g \<Rightarrow> g_active (groups_at h1 g) \<and> useForcedActivation | None \<Rightarrow> False);
                         available = DeserializeInt L streaming ''available'' (-1);
                         busy = (available = 0 \<and> \<not> selectedGroupCanBeOvertaken)
                     in Some (upd_bridge r (\<lambda>b. b\<lparr>b_isBusy := busy\<rparr>) h1))))"

section \<open>Operations\<close>

text \<open>\<open>Execute\<close>: whether the request is accepted, and the address that is asked.\<close>

definition Retriever_Execute :: "Bridge \<Rightarrow> config_retriever \<Rightarrow> config_retriever \<times> string option" where
  "Retriever_Execute b cr =
     (if cr_busy cr then (cr, None)
      else let configType = (if IsSupportingClipV2 b then SmallConfig else cr_configType cr)
           in (cr\<lparr>cr_busy := True, cr_configType := configType\<rparr>,
               Some (if configType = SmallConfig then GetSmallConfigUrl b else GetBaseUrl b False False)))"

definition ParseResponse :: "json_lib \<Rightarrow> config_retriever \<Rightarrow> json \<Rightarrow> store \<Rightarrow> ref \<Rightarrow> (OperationResult \<times> store) option" where
  "ParseResponse L cr doc h r =
     (if doc = JNull then Some (OPERATION_FAILED, upd_bridge r (\<lambda>b. b\<lparr>b_isValidIp := False\<rparr>) h)
      else let (ok, b1) = CheckForNoErrorsInResponse L (cr_configType cr) doc (bridges_at h r);
               h1 = upd_bridge r (\<lambda>_. b1) h
           in if \<not> ok then Some (OPERATION_FAILED, h1)
              else case ParseConfig L (cr_configType cr) doc b1 of
                     None \<Rightarrow> None
                   | Some (ok, b2) \<Rightarrow>
                       (let h2 = upd_bridge r (\<lambda>_. b2) h1
                        in if \<not> ok then Some (OPERATION_FAILED, h2)
                           else if cr_configType cr = FullConfig then do {
                             h3 \<leftarrow> ParseGroups L doc h2 r;
                             h4 \<leftarrow> ParseCapabilities L (cr_useForcedActivation cr) doc h3 r;
                             Some (OPERATION_SUCCESS, h4)
                           } else Some (OPERATION_SUCCESS, h2)))"

definition Retriever_Finish :: "OperationResult \<Rightarrow> store \<Rightarrow> ref \<Rightarrow> store" where
  "Retriever_Finish result h r = (case GetGroup h (bridges_at h r) of
      None \<Rightarrow> h
    | Some g \<Rightarrow>
        (if result = OPERATION_FAILED \<and> g_active (groups_at h g) \<and> g_owner (groups_at h g) = b_user (bridges_at h r)
         then upd_group g (\<lambda>x. x\<lparr>g_active := False, g_owner := []\<rparr>) h else h))"

text \<open>
  The answer of the HTTP client: the result that the callback is given, if it is called. A cancelled
  request calls nothing.
\<close>

definition Retriever_Response ::
  "json_lib \<Rightarrow> (string \<Rightarrow> json) \<Rightarrow> ErrorCode \<Rightarrow> string \<Rightarrow> ref \<Rightarrow> config_retriever \<times> store
     \<Rightarrow> (OperationResult option \<times> config_retriever \<times> store) option" where
  "Retriever_Response L parse code body r s = (case s of (cr, h) \<Rightarrow>
     (let h1 = upd_bridge r (\<lambda>b. b\<lparr>b_lastHttpErrorCode := code\<rparr>) h
      in if code = HTTP_REQUEST_ERROR_CODE_SUCCESS
         then map_option (\<lambda>(result, h2). (Some result, cr\<lparr>cr_busy := False\<rparr>, Retriever_Finish result h2 r))
                (ParseResponse L cr (parse body) h1 r)
         else if code \<noteq> HTTP_REQUEST_ERROR_CODE_CANCELED
         then Some (Some OPERATION_FAILED, cr\<lparr>cr_busy := False\<rparr>,
                Retriever_Finish OPERATION_FAILED (upd_bridge r (\<lambda>b. b\<lparr>b_isValidIp := False\<rparr>) h1) r)
         else Some (None, cr, h1)))"

section \<open>Groups\<close>

definition inside_room :: "Location \<Rightarrow> bool" where
  "inside_room p \<longleftrightarrow> \<bar>loc_x p\<bar> \<le> 1 \<and> \<bar>loc_y p\<bar> \<le> 1 \<and> \<bar>loc_z p\<bar> \<le> 1"

text \<open>What the parser keeps true of the lights of a group.\<close>

definition placed_lights :: "Group \<Rightarrow> bool" where
  "placed_lights g \<longleftrightarrow> distinct (map l_id (g_lights g)) \<and> (\<forall>l\<in>set (g_lights g). inside_room (l_position l))"

lemma add_light_loop_placed:
  "add_light_loop ls light = Some ls' \<Longrightarrow> \<forall>l\<in>set ls. inside_room (l_position l) \<Longrightarrow> inside_room (l_position light) \<Longrightarrow>
    \<forall>l\<in>set ls'. inside_room (l_position l)"
  by (induction ls arbitrary: ls') (auto split: if_splits simp: update_light_def)

lemma AddLight_placed: "placed_lights g \<Longrightarrow> inside_room (l_position light) \<Longrightarrow> placed_lights (AddLight g light)"
  using AddLight_distinct[of g light] add_light_loop_placed[of "g_lights g" light]
  by (auto simp: placed_lights_def AddLight_def split: option.splits)

lemma AddLight_frame [simp]: "g_id (AddLight g light) = g_id g" "g_scenes (AddLight g light) = g_scenes g"
  by (simp_all add: AddLight_def split: option.split)

lemma Clip_room: "\<bar>Clip v (-1) 1\<bar> \<le> 1"
  by (auto simp: Clip_def)

lemma coordinates_room: "coordinates_of L c = Some p \<Longrightarrow> inside_room p"
  by (auto simp: coordinates_of_def inside_room_def Clip_room split: bind_splits)

lemma pxls_placed:
  "placed_lights g \<Longrightarrow> \<forall>(i, p)\<in>set ps. inside_room p \<Longrightarrow>
    placed_lights (foldl (\<lambda>g (i, p). AddLight g (light\<lparr>l_id := i, l_position := p\<rparr>)) g ps)
    \<and> g_id (foldl (\<lambda>g (i, p). AddLight g (light\<lparr>l_id := i, l_position := p\<rparr>)) g ps) = g_id g
    \<and> g_scenes (foldl (\<lambda>g (i, p). AddLight g (light\<lparr>l_id := i, l_position := p\<rparr>)) g ps) = g_scenes g"
  by (induction ps arbitrary: g) (auto simp: AddLight_placed)

lemma pxls_room: "\<forall>(i, p)\<in>set pxls_lights. inside_room p"
  by (simp add: pxls_lights_def inside_room_def)

lemma read_lights_placed:
  assumes "read_lights L doc es (g, ls, a, n) = Some (g', ls', a', n')" "placed_lights g"
  shows "placed_lights g' \<and> g_id g' = g_id g \<and> g_scenes g' = g_scenes g"
  using assms
proof (induction es arbitrary: g ls a n)
  case (Cons e es)
  obtain i c where e: "e = (i, c)" by (cases e)
  from Cons.prems(1) obtain g1 ls1 a1 n1 where step: "read_light L doc e (g, ls, a, n) = Some (g1, ls1, a1, n1)"
    and rest: "read_lights L doc es (g1, ls1, a1, n1) = Some (g', ls', a', n')"
    by (auto split: option.splits)
  then obtain light bri where light: "GetLightInfo L doc i = Some (light, bri)"
    by (auto simp: read_light_def e split: option.splits)
  have "placed_lights g1 \<and> g_id g1 = g_id g \<and> g_scenes g1 = g_scenes g"
  proof (cases "l_model light \<in> set pxls_models")
    case True
    then have "g1 = foldl (\<lambda>g (i, p). AddLight g (light\<lparr>l_id := i, l_position := p\<rparr>)) g pxls_lights"
      using step by (simp add: read_light_def e light Let_def)
    then show ?thesis using pxls_placed[OF Cons.prems(2) pxls_room] by simp
  next
    case False
    then obtain p where "coordinates_of L c = Some p" "g1 = AddLight g (light\<lparr>l_position := p\<rparr>)"
      using step by (auto simp: read_light_def e light Let_def)
    then show ?thesis using AddLight_placed[OF Cons.prems(2), of "light\<lparr>l_position := p\<rparr>"] coordinates_room by simp
  qed
  then show ?case using Cons.IH[OF rest] by simp
qed simp

lemma parse_scenes_group:
  "parse_scenes L i es = Some ss \<Longrightarrow> \<forall>s\<in>set ss. Scene_GetGroupId s = Some i"
  by (induction es arbitrary: ss) (auto split: if_splits option.splits)

definition well_read :: "Group \<Rightarrow> bool" where
  "well_read g \<longleftrightarrow> placed_lights g \<and> (\<forall>s\<in>set (g_scenes g). Scene_GetGroupId s = Some (g_id g))"

lemma group_parsed:
  assumes "ParseEntertainmentGroup L doc b (i, node) = Some g"
  shows "g_id g = i \<and> well_read g"
proof -
  let ?g0 = "ParseClass L node (Group_new\<lparr>g_id := i, g_name := DeserializeString L node ''name'' []\<rparr>)"
  from assms obtain g1 g2 where g1: "ParseLightsAndLocations L doc node ?g0 = Some g1"
    and g2: "ParseStream L doc b node g1 = Some g2" and g3: "ParseScenes L doc (ParseGroupState L node g2) = Some g"
    by (auto simp: ParseEntertainmentGroup_def split: bind_splits)
  have g0: "placed_lights ?g0" "g_id ?g0 = i" "g_scenes ?g0 = []"
    by (auto simp: ParseClass_def placed_lights_def Group_new_def split: option.split)
  have p1: "placed_lights g1 \<and> g_id g1 = i \<and> g_scenes g1 = []"
    using g1 read_lights_placed[OF _ g0(1)] g0(2,3)
    by (auto simp: ParseLightsAndLocations_def placed_lights_def)
  have p2: "g_lights g2 = g_lights g1 \<and> g_id g2 = g_id g1 \<and> g_scenes g2 = g_scenes g1"
    using g2 by (auto simp: ParseStream_def ParseStreamProxy_def ParseStreamActive_def Let_def split: option.splits if_splits)
  have p3: "g_lights (ParseGroupState L node g2) = g_lights g2 \<and> g_id (ParseGroupState L node g2) = g_id g2
      \<and> g_scenes (ParseGroupState L node g2) = g_scenes g2"
    by (simp add: ParseGroupState_def split: option.split)
  have "g_id g = i \<and> g_lights g = g_lights g1 \<and> (\<forall>s\<in>set (g_scenes g). Scene_GetGroupId s = Some i)"
    using g3 p1 p2 p3 parse_scenes_group[of L i] by (auto simp: ParseScenes_def split: option.splits)
  then show ?thesis using p1 by (auto simp: well_read_def placed_lights_def)
qed

section \<open>The answer\<close>

text \<open>The groups of a bridge are those of the answer that are for entertainment, in order.\<close>

definition entertainment_entries :: "json_lib \<Rightarrow> json \<Rightarrow> (string \<times> json) list" where
  "entertainment_entries L doc =
     filter (\<lambda>e. GroupIsEntertainment L (snd e)) (json_entries (GetAttributeValue doc ''groups''))"

lemma those_map: "those (map f xs) = Some ys \<Longrightarrow> list_all2 (\<lambda>x y. f x = Some y) xs ys"
  by (induction xs arbitrary: ys) (auto split: option.splits)

lemma groups_parsed:
  assumes "ParseGroups L doc h r = Some h'" "wf_store h" "r < next_ref h"
  shows "map (\<lambda>g. g_id (groups_at h' g)) (grouplists_at h' (b_groups (bridges_at h' r))) = map fst (entertainment_entries L doc)
    \<and> (\<forall>g\<in>set (grouplists_at h' (b_groups (bridges_at h' r))). well_read (groups_at h' g))
    \<and> (\<exists>gl. bridges_at h' r = (bridges_at h r)\<lparr>b_groups := gl\<rparr>)
    \<and> (\<forall>x<next_ref h. x \<noteq> r \<longrightarrow> bridges_at h' x = bridges_at h x)
    \<and> (\<forall>x<next_ref h. grouplists_at h' x = grouplists_at h x \<and> groups_at h' x = groups_at h x)"
proof -
  obtain gs where gs: "those (map (ParseEntertainmentGroup L doc (bridges_at h r)) (entertainment_entries L doc)) = Some gs"
    and h': "h' = (let (h1, rs) = alloc_groups gs h; (h2, gl) = alloc_grouplist rs h1
                   in upd_bridge r (\<lambda>b. b\<lparr>b_groups := gl\<rparr>) h2)"
    using assms(1) by (auto simp: ParseGroups_def entertainment_entries_def)
  obtain h1 rs where al: "alloc_groups gs h = (h1, rs)" by fastforce
  note sp = alloc_groups_spec[OF al]
  have h'_eq: "h' = upd_bridge r (\<lambda>b. b\<lparr>b_groups := next_ref h1\<rparr>) (fst (alloc_grouplist rs h1))"
    by (simp add: h' al alloc_grouplist_def)
  have "list_all2 (\<lambda>e g. g_id g = fst e \<and> well_read g) (entertainment_entries L doc) gs"
    by (rule list_all2_mono[OF those_map[OF gs]]) (metis group_parsed prod.collapse)
  then have parsed: "map g_id gs = map fst (entertainment_entries L doc)" "\<forall>g\<in>set gs. well_read g"
    by (induction rule: list_all2_induct) auto
  have rs: "map (groups_at h') rs = gs" using sp by (simp add: h'_eq upd_bridge_def alloc_grouplist_def)
  have "map (\<lambda>g. g_id (groups_at h' g)) rs = map fst (entertainment_entries L doc)" "\<forall>g\<in>set rs. well_read (groups_at h' g)"
    using parsed unfolding rs[symmetric] by (simp_all add: comp_def)
  moreover have "grouplists_at h' (b_groups (bridges_at h' r)) = rs"
    by (simp add: h'_eq upd_bridge_def alloc_grouplist_def)
  moreover have "bridges_at h' r = (bridges_at h r)\<lparr>b_groups := next_ref h1\<rparr>"
    using sp by (simp add: h'_eq upd_bridge_def alloc_grouplist_def)
  moreover have "\<forall>x<next_ref h. x \<noteq> r \<longrightarrow> bridges_at h' x = bridges_at h x"
    "\<forall>x<next_ref h. grouplists_at h' x = grouplists_at h x \<and> groups_at h' x = groups_at h x"
    using sp by (auto simp: h'_eq upd_bridge_def alloc_grouplist_def store_ext_def)
  ultimately show ?thesis by auto
qed

lemma capabilities_parsed:
  assumes "ParseCapabilities L forced doc h r = Some h'"
  shows "groups_at h' = groups_at h \<and> grouplists_at h' = grouplists_at h \<and> next_ref h' = next_ref h
    \<and> (\<forall>x. x \<noteq> r \<longrightarrow> bridges_at h' x = bridges_at h x)
    \<and> (bridges_at h' r)\<lparr>b_maxNoStreamingSessions := 0, b_isBusy := False\<rparr>
        = (bridges_at h r)\<lparr>b_maxNoStreamingSessions := 0, b_isBusy := False\<rparr>"
  using assms
  by (auto simp: ParseCapabilities_def upd_bridge_def Let_def split: option.splits if_splits)

lemma ParseConfig_frame:
  "ParseConfig L t doc b = Some (ok, b') \<Longrightarrow> b_isValidIp b' = ok \<and> b_isAuthorized b' = b_isAuthorized b \<and> b_groups b' = b_groups b
    \<and> b_selectedGroup b' = b_selectedGroup b \<and> b_user b' = b_user b"
  by (auto simp: ParseConfig_def Let_def split: if_splits sum.splits)

lemma CheckForNoErrors_frame:
  "CheckForNoErrorsInResponse L t doc b = (ok, b') \<Longrightarrow> (ok \<longrightarrow> b_isValidIp b') \<and> (\<not> ok \<longrightarrow> \<not> b_isValidIp b' \<or> \<not> b_isAuthorized b')
    \<and> (ok \<longrightarrow> t = FullConfig \<longrightarrow> b_isAuthorized b')
    \<and> b_groups b' = b_groups b \<and> b_selectedGroup b' = b_selectedGroup b \<and> b_user b' = b_user b"
  by (auto simp: CheckForNoErrorsInResponse_def Let_def split: if_splits prod.splits)

lemma upd_bridge_simps [simp]:
  "bridges_at (upd_bridge r f h) = (bridges_at h)(r := f (bridges_at h r))" "groups_at (upd_bridge r f h) = groups_at h"
  "grouplists_at (upd_bridge r f h) = grouplists_at h" "next_ref (upd_bridge r f h) = next_ref h"
  by (simp_all add: upd_bridge_def)

lemma upd_bridge_groups: "b_groups (f (bridges_at h r)) = b_groups (bridges_at h r) \<Longrightarrow> wf_store h \<Longrightarrow> wf_store (upd_bridge r f h)"
  by (auto simp: wf_store_def)

text \<open>A failed answer leaves the groups of the bridge alone, and the bridge is not connected.\<close>

lemma ParseResponse_failed:
  assumes "ParseResponse L cr doc h r = Some (OPERATION_FAILED, h')"
  shows "\<not> IsConnected (bridges_at h' r) \<and> groups_at h' = groups_at h \<and> grouplists_at h' = grouplists_at h
    \<and> b_groups (bridges_at h' r) = b_groups (bridges_at h r) \<and> (\<forall>x. x \<noteq> r \<longrightarrow> bridges_at h' x = bridges_at h x)"
proof (cases "doc = JNull")
  case True
  then show ?thesis using assms by (auto simp: ParseResponse_def IsConnected_def)
next
  case False
  obtain ok b1 where c: "CheckForNoErrorsInResponse L (cr_configType cr) doc (bridges_at h r) = (ok, b1)" by fastforce
  note c1 = CheckForNoErrors_frame[OF c]
  show ?thesis
  proof (cases ok)
    case False
    then show ?thesis using assms \<open>doc \<noteq> JNull\<close> c c1 by (auto simp: ParseResponse_def IsConnected_def IsConnectable_def)
  next
    case True
    then obtain b2 where p: "ParseConfig L (cr_configType cr) doc b1 = Some (False, b2)"
      and h': "h' = upd_bridge r (\<lambda>_. b2) (upd_bridge r (\<lambda>_. b1) h)"
      using assms \<open>doc \<noteq> JNull\<close> c
      by (auto simp: ParseResponse_def Let_def split: option.splits if_splits bind_splits prod.splits)
    show ?thesis using ParseConfig_frame[OF p] c1 by (simp add: h' IsConnected_def)
  qed
qed

lemma ParseResponse_read:
  assumes "ParseResponse L cr doc h r = Some (OPERATION_SUCCESS, h')" "cr_configType cr = FullConfig" "wf_store h" "r < next_ref h"
  shows "b_isValidIp (bridges_at h' r) \<and> b_isAuthorized (bridges_at h' r)
    \<and> b_name (bridges_at h' r) = DeserializeString L (GetAttributeValue doc ''config'') ''name'' []
    \<and> b_id (bridges_at h' r) = DeserializeString L (GetAttributeValue doc ''config'') ''bridgeid'' []
    \<and> map (\<lambda>g. g_id (groups_at h' g)) (grouplists_at h' (b_groups (bridges_at h' r))) = map fst (entertainment_entries L doc)
    \<and> (\<forall>g\<in>set (grouplists_at h' (b_groups (bridges_at h' r))). well_read (groups_at h' g))
    \<and> (\<forall>x<next_ref h. x \<noteq> r \<longrightarrow> bridges_at h' x = bridges_at h x)
    \<and> (\<forall>x<next_ref h. grouplists_at h' x = grouplists_at h x \<and> groups_at h' x = groups_at h x)"
proof -
  obtain ok b1 where c: "CheckForNoErrorsInResponse L (cr_configType cr) doc (bridges_at h r) = (ok, b1)" by fastforce
  note c1 = CheckForNoErrors_frame[OF c]
  let ?h1 = "upd_bridge r (\<lambda>_. b1) h"
  from assms(1,2) c obtain b2 h3 where ok: ok and p: "ParseConfig L FullConfig doc b1 = Some (True, b2)"
    and g: "ParseGroups L doc (upd_bridge r (\<lambda>_. b2) ?h1) r = Some h3"
    and cap: "ParseCapabilities L (cr_useForcedActivation cr) doc h3 r = Some h'"
    by (auto simp: ParseResponse_def Let_def split: option.splits if_splits bind_splits prod.splits)
  let ?h2 = "upd_bridge r (\<lambda>_. b2) ?h1"
  note p1 = ParseConfig_frame[OF p]
  have wf: "wf_store ?h2" using assms(3) c1 p1 by (auto simp: wf_store_def)
  note g1 = groups_parsed[OF g wf, simplified, OF assms(4)] and cap1 = capabilities_parsed[OF cap]
  obtain gl where h3: "bridges_at h3 r = b2\<lparr>b_groups := gl\<rparr>" using g1 by auto
  have fields: "b_groups (bridges_at h' r) = b_groups (bridges_at h3 r)" "b_isValidIp (bridges_at h' r) = b_isValidIp b2"
    "b_isAuthorized (bridges_at h' r) = b_isAuthorized b2" "b_name (bridges_at h' r) = b_name b2" "b_id (bridges_at h' r) = b_id b2"
    using cap1[THEN conjunct2, THEN conjunct2, THEN conjunct2, THEN conjunct2] unfolding h3
    by (auto dest: arg_cong[of _ _ b_groups] arg_cong[of _ _ b_isValidIp] arg_cong[of _ _ b_isAuthorized] arg_cong[of _ _ b_name]
        arg_cong[of _ _ b_id])
  have "b_name b2 = DeserializeString L (GetAttributeValue doc ''config'') ''name'' []"
    "b_id b2 = DeserializeString L (GetAttributeValue doc ''config'') ''bridgeid'' []"
    using p by (auto simp: ParseConfig_def Let_def split: if_splits sum.splits)
  then show ?thesis using fields g1 cap1 p1 c1 ok assms(2) by auto
qed

section \<open>Properties\<close>

lemma GetGroup_released:
  "GetGroup (upd_group x (\<lambda>y. y\<lparr>g_active := a, g_owner := w\<rparr>) h) b = GetGroup h b"
  by (rule GetGroup_cong) (auto simp: upd_group_def)

lemma Finish_frame [simp]:
  "bridges_at (Retriever_Finish result h r) = bridges_at h" "grouplists_at (Retriever_Finish result h r) = grouplists_at h"
  "Retriever_Finish OPERATION_SUCCESS h r = h"
  by (auto simp: Retriever_Finish_def upd_group_def split: option.split)



text \<open>A retriever whose request was cancelled calls nobody and accepts no other request.\<close>

lemma cancelled_stays_busy:
  "cr_busy cr \<Longrightarrow> \<exists>h'. Retriever_Response L parse HTTP_REQUEST_ERROR_CODE_CANCELED body r (cr, h) = Some (None, cr, h')
     \<and> Retriever_Execute b cr = (cr, None)"
  by (simp add: Retriever_Response_def Let_def Retriever_Execute_def)

text \<open>An answer with an entertainment group and a room, and an answer that is no JSON text.\<close>

definition sample_answer :: json where
  "sample_answer = JNode
     [(''config'', JNode [(''name'', JString ''Hue''), (''modelid'', JString ''BSB002''), (''apiversion'', JString ''1.24.0''),
         (''bridgeid'', JString ''001788'')]),
      (''groups'', JNode [(''1'', JNode [(''type'', JString ''Entertainment''), (''name'', JString ''TV''),
           (''locations'', JNode [(''3'', JArray [JNumber 2, JNumber 0, JNumber 0])])]), (''2'', JNode [(''type'', JString ''Room'')])]),
      (''lights'', JNode [(''3'', JNode [(''name'', JString ''left''), (''state'', JNode [(''on'', JBool False)])])])]"

definition sample_bridge_store :: store where
  "sample_bridge_store = fst (new_bridge BridgeSettings_default
     \<lparr>bridges_at = (\<lambda>_. new_bridge_value [] [] False BridgeSettings_default 0), grouplists_at = (\<lambda>_. []),
      groups_at = (\<lambda>_. Group_new), next_ref = 1\<rparr>)"

definition sample_json_lib :: json_lib where
  "sample_json_lib = \<lparr>jl_text = (\<lambda>_. []), jl_number = (\<lambda>_. 0), jl_bool = (\<lambda>_. False)\<rparr>"

lemma sample_answered: "map_option fst (Retriever_Response sample_json_lib (\<lambda>_. sample_answer) HTTP_REQUEST_ERROR_CODE_SUCCESS [] 2
    (ConfigRetriever_new True FullConfig, sample_bridge_store)) = Some (Some OPERATION_SUCCESS)"
  by code_simp



end
