(* ===== verification/ClipResources.thy ===== *)
theory ClipResources imports ConfigRetriever "HOL-Library.AList" begin

text \<open>
  The resources of the clip v2 interface as \<open>huestream/connect/BridgeConfigRetriever\<close> keeps them, and
  what it reads from their nodes: references from one resource to another, lights, channels and the
  light positions of an entertainment configuration.

  An \<open>unordered_map\<close> from identifiers to nodes is an association list: its order stands for the order of
  iteration, which the standard leaves open. \<open>None\<close>: a member is accessed that the node does not
  have, a null pointer in the library (with \<open>at\<close>, an exception that nothing catches).
\<close>

section \<open>Access to nodes\<close>

type_synonym resources = "(string \<times> json) list"

definition element :: "string \<Rightarrow> json \<Rightarrow> json option" where
  "element n j = json_find n j"

fun as_array :: "json \<Rightarrow> json list" where
  "as_array (JArray js) = js"
| "as_array (JNode kvs) = map snd kvs"
| "as_array j = []"

fun as_node :: "json \<Rightarrow> json" where
  "as_node (JNode kvs) = JNode kvs"
| "as_node (JArray js) = JNode (map (Pair []) js)"
| "as_node j = JNode []"

definition is_string :: "json \<Rightarrow> bool" where
  "is_string j \<longleftrightarrow> (case j of JString s \<Rightarrow> True | _ \<Rightarrow> False)"

definition is_node :: "json \<Rightarrow> bool" where
  "is_node j \<longleftrightarrow> (case j of JNode kvs \<Rightarrow> True | _ \<Rightarrow> False)"

text \<open>The first element for which a test holds; the test itself can fail.\<close>

fun search_first :: "('a \<Rightarrow> bool option) \<Rightarrow> 'a list \<Rightarrow> 'a option option" where
  "search_first p [] = Some None"
| "search_first p (x # xs) = (case p x of None \<Rightarrow> None | Some True \<Rightarrow> Some (Some x) | Some False \<Rightarrow> search_first p xs)"

text \<open>A loop whose body can fail.\<close>

fun each :: "('a \<Rightarrow> 's \<Rightarrow> 's option) \<Rightarrow> 'a list \<Rightarrow> 's \<Rightarrow> 's option" where
  "each f [] s = Some s"
| "each f (x # xs) s = (case f x s of None \<Rightarrow> None | Some s1 \<Rightarrow> each f xs s1)"

lemma each_append: "each f (xs @ ys) s = Option.bind (each f xs s) (each f ys)"
  by (induction xs arbitrary: s) (auto split: option.split)

section \<open>References\<close>

text \<open>A service of a device: \<open>rtype\<close> and \<open>rid\<close>.\<close>

definition services_of :: "json \<Rightarrow> json list option" where
  "services_of device = map_option as_array (element ''services'' device)"

definition service_refers :: "string \<Rightarrow> json \<Rightarrow> bool option" where
  "service_refers i service = map_option (\<lambda>rid. rid = JString i) (element ''rid'' (as_node service))"

definition device_refers :: "string \<Rightarrow> json \<Rightarrow> bool option" where
  "device_refers i device = do {
     services \<leftarrow> services_of device;
     r \<leftarrow> search_first (service_refers i) services;
     Some (r \<noteq> None)
   }"

definition GetDeviceIdFromServiceReferenceId :: "resources \<Rightarrow> string \<Rightarrow> string option" where
  "GetDeviceIdFromServiceReferenceId devices i =
     map_option (\<lambda>r. case r of Some (deviceId, d) \<Rightarrow> deviceId | None \<Rightarrow> [])
       (search_first (\<lambda>(deviceId, d). device_refers i d) devices)"

definition GetDeviceReferenceIdFromReferenceType :: "json_lib \<Rightarrow> resources \<Rightarrow> string \<Rightarrow> string \<Rightarrow> string option" where
  "GetDeviceReferenceIdFromReferenceType L devices deviceId referenceType =
     (if deviceId = [] then Some []
      else do {
        device \<leftarrow> map_of devices deviceId;
        services \<leftarrow> services_of device;
        r \<leftarrow> search_first (\<lambda>s. map_option (\<lambda>t. t = JString referenceType) (element ''rtype'' (as_node s))) services;
        case r of None \<Rightarrow> Some [] | Some s \<Rightarrow> map_option (as_string L) (element ''rid'' (as_node s))
      })"

definition related_id :: "json_lib \<Rightarrow> resources \<Rightarrow> string \<Rightarrow> string \<Rightarrow> string option" where
  "related_id L devices referenceType i = do {
     deviceId \<leftarrow> GetDeviceIdFromServiceReferenceId devices i;
     if deviceId = [] then Some [] else GetDeviceReferenceIdFromReferenceType L devices deviceId referenceType
   }"

definition GetLightIdFromZigbeeConnectivityId :: "json_lib \<Rightarrow> resources \<Rightarrow> string \<Rightarrow> string option" where
  "GetLightIdFromZigbeeConnectivityId L devices zcId = related_id L devices ''light'' zcId"

definition GetLightIdFromEntertainmentId :: "json_lib \<Rightarrow> resources \<Rightarrow> string \<Rightarrow> string option" where
  "GetLightIdFromEntertainmentId L devices entertainmentId = related_id L devices ''light'' entertainmentId"

definition GetZigbeeConnectivityIdFromLightId :: "json_lib \<Rightarrow> resources \<Rightarrow> string \<Rightarrow> string option" where
  "GetZigbeeConnectivityIdFromLightId L devices lightId = related_id L devices ''zigbee_connectivity'' lightId"

text \<open>Whether there is a service of the type, and the entertainment resource it names (if that is known).\<close>

definition GetServiceByType :: "json_lib \<Rightarrow> resources \<Rightarrow> string \<Rightarrow> json \<Rightarrow> (bool \<times> json) option" where
  "GetServiceByType L entertainments rtype node =
     (case json_find ''services'' node of
        Some (JArray services) \<Rightarrow> do {
          r \<leftarrow> search_first (\<lambda>s. map_option (\<lambda>t. t = JString rtype) (element ''rtype'' (as_node s))) services;
          case r of
            None \<Rightarrow> Some (False, JNode [])
          | Some s \<Rightarrow> map_option (\<lambda>rid. (True, case map_of entertainments (as_string L rid) of Some e \<Rightarrow> e | None \<Rightarrow> JNode []))
                        (element ''rid'' (as_node s))
        }
      | _ \<Rightarrow> Some (False, JNode []))"

definition GetIdV1 :: "json_lib \<Rightarrow> json \<Rightarrow> string" where
  "GetIdV1 L node = (let idv1 = DeserializeString L node ''id_v1'' []
     in if CHR ''/'' \<in> set idv1 then rev (takeWhile (\<lambda>c. c \<noteq> CHR ''/'') (rev idv1)) else [])"

section \<open>Lights\<close>

definition member_of :: "string \<Rightarrow> string \<Rightarrow> json \<Rightarrow> json option" where
  "member_of a b j = do { x \<leftarrow> element a j; element b x }"

text \<open>\<open>node[a].as_node()[b]\<close>: the copy made by \<open>as_node\<close> has the members of a node, and none of another value.\<close>

definition node_member_of :: "string \<Rightarrow> string \<Rightarrow> json \<Rightarrow> json option" where
  "node_member_of a b j = do { x \<leftarrow> element a j; element b (as_node x) }"

definition read_xy :: "json_lib \<Rightarrow> json \<Rightarrow> (real \<times> real) option" where
  "read_xy L j = do { x \<leftarrow> element ''x'' j; y \<leftarrow> element ''y'' j; Some (as_float L x, as_float L y) }"

definition clip_location :: "json_lib \<Rightarrow> json \<Rightarrow> Location option" where
  "clip_location L j = do {
     x \<leftarrow> element ''x'' j; y \<leftarrow> element ''y'' j; z \<leftarrow> element ''z'' j;
     Some \<lparr>loc_x = as_float L x, loc_y = as_float L y, loc_z = as_float L z\<rparr>
   }"

definition light_xy :: "json_lib \<Rightarrow> json \<Rightarrow> (real \<times> real) option" where
  "light_xy L node = (case json_find ''color'' node of
      None \<Rightarrow> Some (0, 0)
    | Some color \<Rightarrow> (case json_find ''xy'' color of None \<Rightarrow> Some (0, 0) | Some xy \<Rightarrow> read_xy L (as_node xy)))"

text \<open>Whether a light can show dynamic scenes, and whether it does.\<close>

definition light_dynamics :: "json_lib \<Rightarrow> json \<Rightarrow> bool \<times> bool" where
  "light_dynamics L node = (case json_find ''dynamics'' node of
      None \<Rightarrow> (False, False)
    | Some d \<Rightarrow> (case json_find ''status_values'' d of
                    Some vs \<Rightarrow> list_ex (\<lambda>v. as_string L v = ''dynamic_palette'') (as_array vs) | None \<Rightarrow> False,
                  case json_find ''status'' d of Some s \<Rightarrow> as_string L s \<noteq> ''none'' | None \<Rightarrow> False))"

text \<open>The model of the first device that has the light as a service.\<close>

definition light_model :: "json_lib \<Rightarrow> resources \<Rightarrow> string \<Rightarrow> string option" where
  "light_model L devices i = do {
     r \<leftarrow> search_first (\<lambda>(deviceId, d). device_refers i d) devices;
     case r of None \<Rightarrow> Some []
     | Some (deviceId, d) \<Rightarrow> map_option (as_string L) (node_member_of ''product_data'' ''model_id'' d)
   }"

definition light_brightness :: "json_lib \<Rightarrow> json \<Rightarrow> real option" where
  "light_brightness L node = (if IsAttributeSet node ''dimming''
     then map_option (as_float L) (node_member_of ''dimming'' ''brightness'' node) else Some 0)"

definition light_reachable :: "json_lib \<Rightarrow> resources \<Rightarrow> resources \<Rightarrow> string \<Rightarrow> bool option" where
  "light_reachable L devices zigbee i = do {
     zcId \<leftarrow> GetZigbeeConnectivityIdFromLightId L devices i;
     zc \<leftarrow> map_of zigbee zcId;
     status \<leftarrow> element ''status'' zc;
     Some (as_string L status = ''connected'')
   }"

definition ParseLightInfo :: "json_lib \<Rightarrow> resources \<Rightarrow> resources \<Rightarrow> json \<Rightarrow> Light option" where
  "ParseLightInfo L devices zigbee node =
     (let metadata = (case json_find ''metadata'' node of Some m \<Rightarrow> as_node m | None \<Rightarrow> JNode []);
          (dynamic, dynamicEnabled) = light_dynamics L node
      in do {
        brightness \<leftarrow> light_brightness L node;
        on \<leftarrow> node_member_of ''on'' ''on'' node;
        xy \<leftarrow> light_xy L node;
        i \<leftarrow> map_option (as_string L) (element ''id'' node);
        modelId \<leftarrow> light_model L devices i;
        reachable \<leftarrow> light_reachable L devices zigbee i;
        Some (Light_default\<lparr>l_id := i, l_idV1 := GetIdV1 L node, l_name := DeserializeString L metadata ''name'' [],
          l_model := modelId, l_archetype := DeserializeString L metadata ''archetype'' [], l_brightness := brightness,
          l_color := Color_xy xy brightness 100, l_on := as_bool L on, l_dynamic := dynamic,
          l_dynamicEnabled := dynamicEnabled, l_reachable := reachable\<rparr>)
      })"

text \<open>
  In \<open>light_reachable\<close> an identifier that is not in the map of connectivities is entered with an empty
  node, whose \<open>status\<close> is then accessed: the entry is not seen by anything.
\<close>

section \<open>Light positions and channels\<close>

text \<open>
  \<open>ParseLights\<close>: the lights of the group, whether one that can be reached is on, and the mean of the
  brightness of those. \<open>position\<close> is the first of \<open>positions\<close>.
\<close>

definition service_position :: "json \<Rightarrow> json option" where
  "service_position location = (case json_find ''positions'' location of
      Some ps \<Rightarrow> (case as_array ps of p # _ \<Rightarrow> Some p | [] \<Rightarrow> None)
    | None \<Rightarrow> (case json_find ''position'' location of Some p \<Rightarrow> Some (as_node p) | None \<Rightarrow> Some JNull))"

type_synonym clip_lights = "Light list \<times> real \<times> nat \<times> bool"

definition read_service_location ::
  "json_lib \<Rightarrow> resources \<Rightarrow> resources \<Rightarrow> resources \<Rightarrow> json \<Rightarrow> clip_lights \<Rightarrow> clip_lights option" where
  "read_service_location L devices zigbee lights item acc =
     (let location = as_node item; (ls, avgBri, n, on) = acc
      in do {
        service \<leftarrow> map_option as_node (element ''service'' location);
        refId \<leftarrow> map_option (as_string L) (element ''rid'' service);
        lightId \<leftarrow> GetLightIdFromEntertainmentId L devices refId;
        case map_of lights lightId of
          None \<Rightarrow> Some acc
        | Some lightNode \<Rightarrow> do {
            light \<leftarrow> ParseLightInfo L devices zigbee lightNode;
            position \<leftarrow> service_position location;
            light \<leftarrow> (if position = JNull then Some light
                       else map_option (\<lambda>p. light\<lparr>l_position := p\<rparr>) (clip_location L position));
            Some (ls @ [light], if l_reachable light then avgBri + l_brightness light else avgBri,
              if l_reachable light then Suc n else n, if l_reachable light then on \<or> l_on light else on)
          }
      })"

definition Clip_ParseLights ::
  "json_lib \<Rightarrow> resources \<Rightarrow> resources \<Rightarrow> resources \<Rightarrow> json \<Rightarrow> Group \<Rightarrow> (bool \<times> Group \<times> Light list) option" where
  "Clip_ParseLights L devices zigbee lights node g =
     (case json_find ''locations'' node of
        None \<Rightarrow> Some (False, g, [])
      | Some location \<Rightarrow> (case json_find ''service_locations'' location of
          None \<Rightarrow> Some (False, g, [])
        | Some locationArr \<Rightarrow> do {
            (ls, avgBri, n, on) \<leftarrow> each (read_service_location L devices zigbee lights) (as_array locationArr) ([], 0, 0, False);
            Some (True, g\<lparr>g_brightnessState := (if n > 0 then avgBri / real n else avgBri) / 100, g_onState := on\<rparr>, ls)
          }))"

text \<open>\<open>ParseChannels\<close>: a light for each channel, and the physical lights behind it.\<close>

definition channel_members :: "json_lib \<Rightarrow> resources \<Rightarrow> json list \<Rightarrow> string list option" where
  "channel_members L devices members =
     each (\<lambda>item ids. case GetAttributeValue (GetAttributeValue (as_node item) ''service'') ''rid'' of
             JString rid \<Rightarrow> map_option (\<lambda>lightId. if lightId = [] then ids else ids @ [lightId])
                             (GetLightIdFromEntertainmentId L devices rid)
           | _ \<Rightarrow> Some ids) members []"

type_synonym channels_read = "Light list \<times> (string \<rightharpoonup> string list)"

definition read_channel :: "json_lib \<Rightarrow> resources \<Rightarrow> json \<Rightarrow> channels_read \<Rightarrow> channels_read option" where
  "read_channel L devices item acc =
     (let channel = as_node item
      in do {
        channelId \<leftarrow> map_option (\<lambda>c. show_int (cast_int (as_int L c))) (element ''channel_id'' channel);
        position \<leftarrow> map_option as_node (element ''position'' channel);
        case json_find ''members'' channel of
          None \<Rightarrow> Some acc
        | Some members \<Rightarrow> do {
            p \<leftarrow> clip_location L position;
            ids \<leftarrow> channel_members L devices (as_array members);
            Some (fst acc @ [Light_default\<lparr>l_id := channelId, l_position := p\<rparr>],
              if snd acc channelId = None then (snd acc)(channelId \<mapsto> ids) else snd acc)
          }
      })"

definition ParseChannels :: "json_lib \<Rightarrow> resources \<Rightarrow> json \<Rightarrow> (bool \<times> channels_read) option" where
  "ParseChannels L devices node = (case json_find ''channels'' node of
      None \<Rightarrow> Some (False, [], Map.empty)
    | Some channels \<Rightarrow> map_option (Pair True) (each (read_channel L devices) (as_array channels) ([], Map.empty)))"

text \<open>\<open>ParseZoneLights\<close>: the lights among the children (or, without children, the services) of a zone.\<close>

definition read_zone_light ::
  "json_lib \<Rightarrow> resources \<Rightarrow> resources \<Rightarrow> resources \<Rightarrow> json \<Rightarrow> Light list \<Rightarrow> Light list option" where
  "read_zone_light L devices zigbee lights item ls = do {
     rtype \<leftarrow> element ''rtype'' (as_node item);
     if rtype \<noteq> JString ''light'' then Some ls
     else do {
       lightId \<leftarrow> map_option (as_string L) (element ''rid'' (as_node item));
       case map_of lights lightId of
         None \<Rightarrow> Some ls
       | Some lightNode \<Rightarrow> map_option (\<lambda>light. ls @ [light]) (ParseLightInfo L devices zigbee lightNode)
     }
   }"

definition ParseZoneLights ::
  "json_lib \<Rightarrow> resources \<Rightarrow> resources \<Rightarrow> resources \<Rightarrow> json \<Rightarrow> (bool \<times> Light list) option" where
  "ParseZoneLights L devices zigbee lights node =
     (case (if IsAttributeSet node ''children'' then GetAttributeValue node ''children'' else GetAttributeValue node ''services'') of
        JArray items \<Rightarrow> map_option (Pair True) (each (read_zone_light L devices zigbee lights) items [])
      | _ \<Rightarrow> Some (False, []))"

section \<open>Scenes\<close>

text \<open>The light of an action of a scene; the light itself gives what the action does not say.\<close>

definition action_color :: "json_lib \<Rightarrow> json \<Rightarrow> real \<Rightarrow> Color \<Rightarrow> Color option" where
  "action_color L action bri c = (case json_find ''color'' action of
      Some color \<Rightarrow> (case json_find ''xy'' color of
          None \<Rightarrow> Some c | Some xy \<Rightarrow> map_option (\<lambda>xy. Color_xy xy bri 100) (read_xy L xy))
    | None \<Rightarrow> (if IsAttributeSet action ''color_temperature''
        then map_option (\<lambda>m. Color_ct (cast_int (as_int L m)) bri 100) (member_of ''color_temperature'' ''mirek'' action)
        else Some (Color_rgb 0 0 0)))"

definition read_scene_action ::
  "json_lib \<Rightarrow> resources \<Rightarrow> resources \<Rightarrow> resources \<Rightarrow> json \<Rightarrow> Light list \<Rightarrow> Light list option" where
  "read_scene_action L devices zigbee lights item ls = do {
     action \<leftarrow> element ''action'' (as_node item);
     target \<leftarrow> element ''target'' (as_node item);
     case (GetAttributeValue target ''rtype'', GetAttributeValue target ''rid'') of
       (JString rtype, JString rid) \<Rightarrow>
         (if rtype \<noteq> ''light'' then Some ls
          else case map_of lights rid of
                 None \<Rightarrow> Some ls
               | Some lightNode \<Rightarrow> do {
                   light \<leftarrow> ParseLightInfo L devices zigbee lightNode;
                   bri \<leftarrow> (if IsAttributeSet action ''dimming''
                            then map_option (as_float L) (member_of ''dimming'' ''brightness'' action) else Some 0);
                   on \<leftarrow> (if IsAttributeSet action ''on''
                           then map_option (as_bool L) (member_of ''on'' ''on'' action) else Some False);
                   c \<leftarrow> action_color L action bri (l_color light);
                   Some (ls @ [light\<lparr>l_color := c, l_brightness := bri, l_on := on\<rparr>])
                 })
     | _ \<Rightarrow> Some ls
   }"

text \<open>Whether the palette says anything about being dynamic, and what.\<close>

definition read_palette :: "json \<Rightarrow> bool \<times> bool" where
  "read_palette node = (case json_find ''palette'' node of
      None \<Rightarrow> (False, False)
    | Some palette \<Rightarrow>
        fold (\<lambda>n (updated, dynamic). if \<not> dynamic \<and> IsAttributeSet palette n
                then (True, as_array (GetAttributeValue palette n) \<noteq> []) else (updated, dynamic))
          [''color'', ''color_temperature'', ''brightness''] (False, False))"

definition Clip_ParseScene ::
  "json_lib \<Rightarrow> resources \<Rightarrow> resources \<Rightarrow> resources \<Rightarrow> json \<Rightarrow> Scene option \<Rightarrow> (bool \<times> Scene option) option" where
  "Clip_ParseScene L devices zigbee lights node scene =
     (let i = DeserializeString L node ''id'' [];
          idv1 = GetIdV1 L node;
          metadata = GetAttributeValue node ''metadata'';
          name = GetAttributeValue metadata ''name'';
          image = GetAttributeValue metadata ''image'';
          imageId = (case GetAttributeValue image ''rid'' of JString s \<Rightarrow> s | _ \<Rightarrow> []);
          (dynamicUpdated, dynamic) = read_palette node
      in if i = [] \<or> idv1 = [] then Some (False, scene)
         else if scene = None \<and> (\<not> is_string name \<or> \<not> is_node image) then Some (False, scene)
         else do {
           lightList \<leftarrow> (case GetAttributeValue node ''actions'' of
               JArray actions \<Rightarrow> each (read_scene_action L devices zigbee lights) actions [] | _ \<Rightarrow> Some []);
           case scene of
             None \<Rightarrow> Some (True, Some ((Scene_new i idv1 (as_string L name) [] imageId)
                                          \<lparr>s_lights := lightList, s_dynamic := dynamic\<rparr>))
           | Some s \<Rightarrow>
               (let s1 = (if is_string name then s\<lparr>s_name := as_string L name\<rparr> else s);
                    s2 = (if imageId \<noteq> [] then s1\<lparr>s_image := imageId\<rparr> else s1);
                    s3 = (if lightList \<noteq> [] then s2\<lparr>s_lights := lightList\<rparr> else s2);
                    s4 = (if dynamicUpdated then s3\<lparr>s_dynamic := dynamic\<rparr> else s3)
                in Some (is_string name \<or> imageId \<noteq> [] \<or> lightList \<noteq> [] \<or> dynamicUpdated, Some s4))
         })"

end
