(* ===== verification/ClipEvents.thy ===== *)
theory ClipEvents imports ClipResources FeedbackMessage begin

text \<open>
  \<open>huestream/connect/BridgeConfigRetriever\<close>: what the resources and the events of the clip v2 interface
  do to the bridge. One function per method \<open>Add\<close>, \<open>Update\<close> and \<open>Delete\<close> of a kind of resource, and
  \<open>ParseJsonEvent\<close>, which sorts the resources of an event by kind.

  The groups of the bridge live in the store; zones, scenes and lights are values of the bridge and of
  its groups (each was made for its holder). A message for the application is an output.
\<close>

section \<open>State\<close>

datatype clip_output = Feedback Id | ScheduleFeedback Id | AskWhitelist string string

record clip_state =
  ct_store :: store
  ct_bridge :: ref
  ct_useForcedActivation :: bool
  ct_whitelist :: json
  ct_lights :: resources
  ct_zigbee :: resources
  ct_devices :: resources
  ct_zoneNodes :: resources
  ct_entertainments :: resources
  ct_sceneNodes :: resources
  ct_bridgeNode :: json
  ct_sendFeedback :: bool
  ct_canSendStreamingDisconnected :: bool
  ct_updatingWhitelist :: bool
  ct_output :: "clip_output list"

definition clip_bridge :: "clip_state \<Rightarrow> Bridge" where
  "clip_bridge s = bridges_at (ct_store s) (ct_bridge s)"

definition on_store :: "(store \<Rightarrow> store) \<Rightarrow> clip_state \<Rightarrow> clip_state" where
  "on_store f s = s\<lparr>ct_store := f (ct_store s)\<rparr>"

definition on_bridge :: "(Bridge \<Rightarrow> Bridge) \<Rightarrow> clip_state \<Rightarrow> clip_state" where
  "on_bridge f s = on_store (upd_bridge (ct_bridge s) f) s"

definition on_group :: "ref \<Rightarrow> (Group \<Rightarrow> Group) \<Rightarrow> clip_state \<Rightarrow> clip_state" where
  "on_group g f s = on_store (upd_group g f) s"

definition clip_groups :: "clip_state \<Rightarrow> ref list" where
  "clip_groups s = grouplists_at (ct_store s) (b_groups (clip_bridge s))"

definition clip_group :: "clip_state \<Rightarrow> ref \<Rightarrow> Group" where
  "clip_group s g = groups_at (ct_store s) g"

definition emit_output :: "clip_output \<Rightarrow> clip_state \<Rightarrow> clip_state" where
  "emit_output out s = s\<lparr>ct_output := ct_output s @ [out]\<rparr>"

text \<open>A message that is sent once the first configuration was read (\<open>_sendFeedback\<close>).\<close>

definition tell :: "bool \<Rightarrow> Id \<Rightarrow> clip_state \<Rightarrow> clip_state" where
  "tell b msg s = (if ct_sendFeedback s \<and> b then emit_output (Feedback msg) s else s)"

definition tell_later :: "bool \<Rightarrow> Id \<Rightarrow> clip_state \<Rightarrow> clip_state" where
  "tell_later b msg s = (if ct_sendFeedback s \<and> b then emit_output (ScheduleFeedback msg) s else s)"

text \<open>An assignment to a member that exists; \<open>None\<close> where it does not.\<close>

fun set_element :: "string \<Rightarrow> (json \<Rightarrow> json option) \<Rightarrow> json \<Rightarrow> json option" where
  "set_element n f (JNode []) = None"
| "set_element n f (JNode ((k, v) # kvs)) =
     (if k = n then map_option (\<lambda>v1. JNode ((k, v1) # kvs)) (f v)
      else case set_element n f (JNode kvs) of Some (JNode kvs1) \<Rightarrow> Some (JNode ((k, v) # kvs1)) | _ \<Rightarrow> None)"
| "set_element n f j = None"

section \<open>Entertainment configurations\<close>

definition ParseName :: "json_lib \<Rightarrow> json \<Rightarrow> Group \<Rightarrow> bool \<times> Group" where
  "ParseName L node g = (case json_find ''metadata'' node of
      Some metadata \<Rightarrow> (True, g\<lparr>g_name := DeserializeString L metadata ''name'' []\<rparr>)
    | None \<Rightarrow> (if IsAttributeSet node ''name''
        then (True, g\<lparr>g_name := DeserializeString L node ''name'' []\<rparr>) else (False, g)))"

definition Clip_ParseClass :: "json_lib \<Rightarrow> json \<Rightarrow> Group \<Rightarrow> bool \<times> Group" where
  "Clip_ParseClass L node g =
     (if \<not> IsAttributeSet node ''configuration_type'' then (False, g)
      else let classType = DeserializeString L node ''configuration_type'' []
           in (True, g\<lparr>g_classType := if classType = ''screen'' then GROUPCLASS_SCREEN
                 else if classType = ''music'' then GROUPCLASS_MUSIC
                 else if classType = ''3dspace'' then GROUPCLASS_3DSPACE else GROUPCLASS_OTHER\<rparr>))"

text \<open>A name that is not known is asked for, unless an answer is still waited for.\<close>

definition Clip_GetOwnerName :: "json_lib \<Rightarrow> string \<Rightarrow> string \<Rightarrow> clip_state \<Rightarrow> string \<times> clip_state" where
  "Clip_GetOwnerName L userName ecId s = (case json_find userName (ct_whitelist s) of
      Some user \<Rightarrow> (DeserializeString L user ''name'' [], s)
    | None \<Rightarrow> (if ct_updatingWhitelist s then ([], s)
        else ([], emit_output (AskWhitelist userName ecId) (s\<lparr>ct_updatingWhitelist := True\<rparr>))))"

definition update_busy :: "clip_state \<Rightarrow> clip_state option" where
  "update_busy s =
     (let h = ct_store s; b = clip_bridge s
      in if status_throws b then None
         else if IsStreaming h b then Some s
         else let availableSessionCount = b_maxNoStreamingSessions b - GetCurrentNoStreamingSessions h b;
                  selectedGroupCanBeOvertaken = (case GetGroup h b of
                      Some g \<Rightarrow> g_active (groups_at h g) \<and> ct_useForcedActivation s | None \<Rightarrow> False)
              in Some (on_bridge (\<lambda>b. b\<lparr>b_isBusy := availableSessionCount \<le> 0 \<and> \<not> selectedGroupCanBeOvertaken\<rparr>) s))"

definition Clip_ParseStreamActive :: "json_lib \<Rightarrow> json \<Rightarrow> ref \<Rightarrow> clip_state \<Rightarrow> (bool \<times> clip_state) option" where
  "Clip_ParseStreamActive L node g s = do {
     let (parsed1, s1) = (case json_find ''status'' node of
         None \<Rightarrow> (False, s)
       | Some status \<Rightarrow> (True, on_group g (\<lambda>x. if as_string L status = ''active'' then x\<lparr>g_active := True\<rparr>
                               else x\<lparr>g_active := False, g_owner := [], g_ownerName := []\<rparr>) s));
     (parsed2, s2) \<leftarrow> (case json_find ''active_streamer'' node of
         None \<Rightarrow> Some (False, s1)
       | Some streamer \<Rightarrow> do {
           own \<leftarrow> map_option (as_string L) (element ''rid'' streamer);
           let (name, s') = Clip_GetOwnerName L own (g_id (clip_group s1 g)) s1;
           Some (True, on_group g (\<lambda>x. x\<lparr>g_owner := own, g_ownerName := name\<rparr>) s')
         });
     s3 \<leftarrow> update_busy s2;
     Some (parsed1 \<or> parsed2, s3)
   }"

text \<open>
  The proxy is given the name, the model and the state of its device only if all three are known;
  otherwise those of the bridge. A connectivity that is not in the map is entered with an empty node.
\<close>

definition Clip_ParseStreamProxy :: "json_lib \<Rightarrow> json \<Rightarrow> ref \<Rightarrow> clip_state \<Rightarrow> (bool \<times> clip_state) option" where
  "Clip_ParseStreamProxy L node g s = (case json_find ''stream_proxy'' node of
      None \<Rightarrow> Some (False, s)
    | Some streamProxy \<Rightarrow>
        (let p = as_node streamProxy;
             mode = (case json_find ''mode'' p of Some m \<Rightarrow> as_string L m | None \<Rightarrow> [])
         in case json_find ''node'' p of
              None \<Rightarrow> Some (False, s)
            | Some n \<Rightarrow>
                (let uri = (case json_find ''rid'' (as_node n) of Some r \<Rightarrow> as_string L r | None \<Rightarrow> []);
                     proxy = \<lparr>pn_uri = uri, pn_mode = mode, pn_name = b_name (clip_bridge s),
                       pn_model = b_modelId (clip_bridge s), pn_isReachable = True\<rparr>
                 in do {
                   deviceId \<leftarrow> GetDeviceIdFromServiceReferenceId (ct_devices s) uri;
                   if deviceId = [] then Some (False, s)
                   else do {
                     device \<leftarrow> map_of (ct_devices s) deviceId;
                     (proxy, s) \<leftarrow> (case (json_find ''metadata'' device, json_find ''product_data'' device) of
                         (Some metadata, Some productData) \<Rightarrow> do {
                           zigbeeId \<leftarrow> GetDeviceReferenceIdFromReferenceType L (ct_devices s) deviceId ''zigbee_connectivity'';
                           Some (case map_of (ct_zigbee s) zigbeeId of
                               None \<Rightarrow> (proxy, s\<lparr>ct_zigbee := ct_zigbee s @ [(zigbeeId, JNode [])]\<rparr>)
                             | Some zigbee \<Rightarrow> (case json_find ''status'' zigbee of
                                 None \<Rightarrow> (proxy, s)
                               | Some status \<Rightarrow> (proxy\<lparr>pn_name := DeserializeString L metadata ''name'' [],
                                   pn_model := DeserializeString L productData ''model_id'' [],
                                   pn_isReachable := as_string L status = ''connected''\<rparr>, s)))
                         }
                       | _ \<Rightarrow> Some (proxy, s));
                     Some (True, on_group g (\<lambda>x. x\<lparr>g_proxyNode := proxy\<rparr>) s)
                   }
                 })))"

text \<open>A new group, which is not in the list of the bridge yet.\<close>

definition ParseEntertainmentConfig :: "json_lib \<Rightarrow> json \<Rightarrow> clip_state \<Rightarrow> (ref \<times> clip_state) option" where
  "ParseEntertainmentConfig L node s0 = do {
     let (h, g) = alloc_group (Group_new\<lparr>g_id := DeserializeString L node ''id'' []\<rparr>) (ct_store s0);
     let s1 = on_group g (\<lambda>x. snd (Clip_ParseClass L node (snd (ParseName L node x)))) (s0\<lparr>ct_store := h\<rparr>);
     (p1, s2) \<leftarrow> Clip_ParseStreamActive L node g s1;
     (p2, s3) \<leftarrow> Clip_ParseStreamProxy L node g s2;
     (p3, x, physicalLights) \<leftarrow> Clip_ParseLights L (ct_devices s3) (ct_zigbee s3) (ct_lights s3) node (clip_group s3 g);
     (p4, channels, physicalLightsMap) \<leftarrow> ParseChannels L (ct_devices s3) node;
     Some (g, on_group g (\<lambda>_. x\<lparr>g_physicalLights := physicalLights, g_lights := channels,
       g_channelToPhysicalLightsMap := physicalLightsMap\<rparr>) s3)
   }"

definition AddEntertainmentConfiguration :: "json_lib \<Rightarrow> json \<Rightarrow> clip_state \<Rightarrow> clip_state option" where
  "AddEntertainmentConfiguration L ec s = do {
     let old = clip_groups s;
     (g, s1) \<leftarrow> ParseEntertainmentConfig L ec s;
     let (h, gl) = alloc_grouplist (old @ [g]) (ct_store s1);
     Some (tell True ID_GROUPLIST_UPDATED (on_bridge (\<lambda>b. b\<lparr>b_groups := gl\<rparr>) (s1\<lparr>ct_store := h\<rparr>)))
   }"

definition UpdateEntertainmentConfiguration :: "json_lib \<Rightarrow> json \<Rightarrow> clip_state \<Rightarrow> clip_state option" where
  "UpdateEntertainmentConfiguration L ec s = do {
     i \<leftarrow> map_option (as_string L) (element ''id'' ec);
     case GetGroupById (ct_store s) (clip_bridge s) i of
       None \<Rightarrow> Some s
     | Some g \<Rightarrow>
         if status_throws (clip_bridge s) then None
         else do {
           let (p1, x1) = ParseName L ec (clip_group s g);
           let (p2, x2) = Clip_ParseClass L ec x1;
           (p3, s1) \<leftarrow> Clip_ParseStreamActive L ec g (on_group g (\<lambda>_. x2) s);
           (p4, s2) \<leftarrow> Clip_ParseStreamProxy L ec g s1;
           let s3 = tell (p1 \<or> p2 \<or> p3 \<or> p4) ID_GROUPLIST_UPDATED s2;
           (channelsChanged, channels, physicalLightsMap) \<leftarrow> ParseChannels L (ct_devices s3) ec;
           let s4 = (if channelsChanged then on_group g (\<lambda>x. x\<lparr>g_lights := channels,
                       g_channelToPhysicalLightsMap := physicalLightsMap\<rparr>) s3 else s3);
           (lightsChanged, x5, ls) \<leftarrow>
             Clip_ParseLights L (ct_devices s4) (ct_zigbee s4) (ct_lights s4) ec (clip_group s4 g);
           let s5 = (if lightsChanged then on_group g (\<lambda>_. x5\<lparr>g_physicalLights := ls,
                       g_channelToPhysicalLightsMap := physicalLightsMap\<rparr>) s4 else s4);
           Some (tell (channelsChanged \<or> lightsChanged) ID_GROUP_LIGHTSTATE_UPDATED s5)
         }
   }"

definition DeleteEntertainmentConfiguration :: "json_lib \<Rightarrow> json \<Rightarrow> clip_state \<Rightarrow> clip_state option" where
  "DeleteEntertainmentConfiguration L ec s = do {
     i \<leftarrow> map_option (as_string L) (element ''id'' ec);
     let s1 = tell True ID_GROUPLIST_UPDATED
       (on_store (upd_grouplist (b_groups (clip_bridge s)) (erase_first (\<lambda>g. g_id (clip_group s g) = i))) s);
     Some (if ct_sendFeedback s1 \<and> b_selectedGroup (clip_bridge s1) = i
           then emit_output (Feedback ID_SELECT_GROUP) (on_bridge (\<lambda>b. b\<lparr>b_selectedGroup := []\<rparr>) s1) else s1)
   }"

section \<open>Devices and connectivity\<close>

definition has_service :: "json_lib \<Rightarrow> string list \<Rightarrow> json \<Rightarrow> bool option" where
  "has_service L types device = do {
     services \<leftarrow> services_of device;
     r \<leftarrow> search_first (\<lambda>s. map_option (\<lambda>t. as_string L t \<in> set types) (element ''rtype'' s)) services;
     Some (r \<noteq> None)
   }"

definition AddDevice :: "json_lib \<Rightarrow> json \<Rightarrow> clip_state \<Rightarrow> clip_state option" where
  "AddDevice L device s = do {
     i \<leftarrow> map_option (as_string L) (element ''id'' device);
     found \<leftarrow> has_service L [''light'', ''bridge''] device;
     Some (if found then s\<lparr>ct_devices := AList.update i device (ct_devices s)\<rparr> else s)
   }"

definition UpdateDevice :: "json_lib \<Rightarrow> json \<Rightarrow> clip_state \<Rightarrow> clip_state option" where
  "UpdateDevice L device s = do {
     i \<leftarrow> map_option (as_string L) (element ''id'' device);
     case map_of (ct_devices s) i of
       None \<Rightarrow> Some s
     | Some curDevice \<Rightarrow> do {
         isABridge \<leftarrow> has_service L [''bridge''] curDevice;
         case json_find ''metadata'' device of
           None \<Rightarrow> Some s
         | Some metadata \<Rightarrow>
             (let name = (if metadata = JNumber 0 then [] else DeserializeString L metadata ''name'' [])
              in if \<not> isABridge \<or> b_name (clip_bridge s) = name then Some s
                 else map_option (\<lambda>d. emit_output (Feedback ID_BRIDGE_CHANGED) (on_bridge (\<lambda>b. b\<lparr>b_name := name\<rparr>)
                          (s\<lparr>ct_devices := AList.update i d (ct_devices s)\<rparr>)))
                        (set_element ''metadata'' (set_element ''name'' (\<lambda>_. Some (JString name))) curDevice))
       }
   }"

definition DeleteDevice :: "json_lib \<Rightarrow> json \<Rightarrow> clip_state \<Rightarrow> clip_state option" where
  "DeleteDevice L device s = map_option
     (\<lambda>i. s\<lparr>ct_devices := AList.delete (as_string L i) (ct_devices s)\<rparr>) (element ''id'' device)"

text \<open>A connectivity is kept if a device that is known has it as a service.\<close>

definition AddZigbeeConnectivity :: "json_lib \<Rightarrow> json \<Rightarrow> clip_state \<Rightarrow> clip_state option" where
  "AddZigbeeConnectivity L zc s = do {
     i \<leftarrow> map_option (as_string L) (element ''id'' zc);
     r \<leftarrow> search_first (\<lambda>(deviceId, d). device_refers i d) (ct_devices s);
     Some (if r \<noteq> None then s\<lparr>ct_zigbee := AList.update i zc (ct_zigbee s)\<rparr> else s)
   }"

fun change_first :: "('a \<Rightarrow> bool) \<Rightarrow> ('a \<Rightarrow> 'a) \<Rightarrow> 'a list \<Rightarrow> 'a list" where
  "change_first p f [] = []"
| "change_first p f (x # xs) = (if p x then f x # xs else x # change_first p f xs)"

definition has_light :: "string \<Rightarrow> Group \<Rightarrow> bool" where
  "has_light i g \<longleftrightarrow> list_ex (\<lambda>l. l_id l = i) (g_physicalLights g)"

definition change_light :: "string \<Rightarrow> (Light \<Rightarrow> Light) \<Rightarrow> Group \<Rightarrow> Group" where
  "change_light i f g = g\<lparr>g_physicalLights := change_first (\<lambda>l. l_id l = i) f (g_physicalLights g)\<rparr>"

text \<open>Whether the selected group, as the object it is, has the light.\<close>

definition in_current_group :: "string \<Rightarrow> clip_state \<Rightarrow> bool" where
  "in_current_group i s = (case GetGroup (ct_store s) (clip_bridge s) of
     Some g \<Rightarrow> has_light i (clip_group s g) | None \<Rightarrow> False)"

definition UpdateZigbeeConnectivity :: "json_lib \<Rightarrow> json \<Rightarrow> clip_state \<Rightarrow> clip_state option" where
  "UpdateZigbeeConnectivity L zc s = do {
     i \<leftarrow> map_option (as_string L) (element ''id'' zc);
     case (map_of (ct_zigbee s) i, json_find ''status'' zc) of
       (Some curZC, Some status) \<Rightarrow> do {
         curZC \<leftarrow> set_element ''status'' (\<lambda>_. Some (JString (as_string L status))) curZC;
         let s1 = s\<lparr>ct_zigbee := AList.update i curZC (ct_zigbee s)\<rparr>;
         lightId \<leftarrow> GetLightIdFromZigbeeConnectivityId L (ct_devices s1) i;
         if lightId = [] then Some s1
         else Some (tell (in_current_group lightId s1) ID_LIGHTS_UPDATED
                (fold (\<lambda>g. on_group g (change_light lightId (\<lambda>l. l\<lparr>l_reachable := as_string L status = ''connected''\<rparr>)))
                   (clip_groups s1) s1))
       }
     | _ \<Rightarrow> Some s
   }"

definition DeleteZigbeeConnectivity :: "json_lib \<Rightarrow> json \<Rightarrow> clip_state \<Rightarrow> clip_state option" where
  "DeleteZigbeeConnectivity L zc s = map_option
     (\<lambda>i. s\<lparr>ct_zigbee := AList.delete (as_string L i) (ct_zigbee s)\<rparr>) (element ''id'' zc)"

definition AddEntertainment :: "json_lib \<Rightarrow> json \<Rightarrow> clip_state \<Rightarrow> clip_state option" where
  "AddEntertainment L entertainment s = map_option
     (\<lambda>i. s\<lparr>ct_entertainments := AList.update (as_string L i) entertainment (ct_entertainments s)\<rparr>) (element ''id'' entertainment)"

definition DeleteEntertainment :: "json_lib \<Rightarrow> json \<Rightarrow> clip_state \<Rightarrow> clip_state option" where
  "DeleteEntertainment L entertainment s = map_option
     (\<lambda>i. s\<lparr>ct_entertainments := AList.delete (as_string L i) (ct_entertainments s)\<rparr>) (element ''id'' entertainment)"

section \<open>Lights\<close>

definition AddLight_node :: "json_lib \<Rightarrow> json \<Rightarrow> clip_state \<Rightarrow> clip_state option" where
  "AddLight_node L light s = map_option
     (\<lambda>i. s\<lparr>ct_lights := AList.update (as_string L i) light (ct_lights s)\<rparr>) (element ''id'' light)"

text \<open>
  The one attribute of the light that an update changes. The node of the light that is written is a
  copy of the one in the map: the map keeps the old value, but the member has to exist.
\<close>

datatype light_change = Change_none | Change_name string | Change_on bool | Change_brightness real
  | Change_color "real \<times> real" | Change_dynamic bool

definition read_light_change :: "json_lib \<Rightarrow> json \<Rightarrow> json \<Rightarrow> light_change option" where
  "read_light_change L curLight node = (case json_find ''metadata'' node of
      Some metadata \<Rightarrow> (case json_find ''name'' (as_node metadata) of
          None \<Rightarrow> Some Change_none
        | Some name \<Rightarrow> map_option (\<lambda>_. Change_name (as_string L name)) (member_of ''metadata'' ''name'' curLight))
    | None \<Rightarrow> (case json_find ''on'' node of
      Some onState \<Rightarrow> (case json_find ''on'' onState of
          None \<Rightarrow> Some Change_none
        | Some on \<Rightarrow> map_option (\<lambda>_. Change_on (as_bool L on)) (member_of ''on'' ''on'' curLight))
    | None \<Rightarrow> (case json_find ''dimming'' node of
      Some dimming \<Rightarrow> (case json_find ''brightness'' dimming of
          None \<Rightarrow> Some Change_none
        | Some bri \<Rightarrow> map_option (\<lambda>_. Change_brightness (as_float L bri)) (member_of ''dimming'' ''brightness'' curLight))
    | None \<Rightarrow> (case json_find ''color'' node of
      Some color \<Rightarrow> (case json_find ''xy'' color of
          None \<Rightarrow> Some Change_none
        | Some xy \<Rightarrow> do {
            newXY \<leftarrow> read_xy L (as_node xy);
            cur \<leftarrow> member_of ''color'' ''xy'' curLight;
            map_option (\<lambda>_. Change_color newXY) (read_xy L cur)
          })
    | None \<Rightarrow> (case json_find ''dynamics'' node of
      Some dynamics \<Rightarrow> (case json_find ''status'' dynamics of
          None \<Rightarrow> Some Change_none
        | Some status \<Rightarrow> map_option (\<lambda>_. Change_dynamic (as_string L status \<noteq> ''none'')) (member_of ''dynamics'' ''status'' curLight))
    | None \<Rightarrow> Some Change_none)))))"

definition apply_change :: "light_change \<Rightarrow> Light \<Rightarrow> Light" where
  "apply_change c l = (case c of
      Change_none \<Rightarrow> l
    | Change_name n \<Rightarrow> l\<lparr>l_name := n\<rparr>
    | Change_on b \<Rightarrow> l\<lparr>l_on := b\<rparr>
    | Change_brightness v \<Rightarrow> l\<lparr>l_brightness := v\<rparr>
    | Change_color xy \<Rightarrow> l\<lparr>l_color := Color_xy xy (l_brightness l) 100\<rparr>
    | Change_dynamic b \<Rightarrow> l\<lparr>l_dynamicEnabled := b\<rparr>)"

definition UpdateGroupOn :: "Group \<Rightarrow> bool \<times> Group" where
  "UpdateGroupOn g = (let on = list_ex (\<lambda>l. l_reachable l \<and> l_on l) (g_physicalLights g)
     in (g_onState g \<noteq> on, g\<lparr>g_onState := on\<rparr>))"

definition UpdateGroupBrightness :: "Group \<Rightarrow> bool \<times> Group" where
  "UpdateGroupBrightness g =
     (let reachable = filter l_reachable (g_physicalLights g);
          averageBrightness = sum_list (map l_brightness reachable) / (if reachable = [] then 1 else real (length reachable))
      in (\<bar>g_brightnessState g * 100 - averageBrightness\<bar> > 0.1, g\<lparr>g_brightnessState := averageBrightness / 100\<rparr>))"

text \<open>
  The groups, one after the other: the change that is still to be made, and whether the state of a
  group changed. A colour that the light has already is not given to the groups that follow.
\<close>

definition color_same :: "Color \<Rightarrow> Color \<Rightarrow> bool" where
  "color_same a b \<longleftrightarrow> \<bar>red a - red b\<bar> \<le> 0.01 \<and> \<bar>green a - green b\<bar> \<le> 0.01 \<and> \<bar>blue a - blue b\<bar> \<le> 0.01
     \<and> \<bar>alpha a - alpha b\<bar> \<le> 0.01"

definition next_change :: "light_change \<Rightarrow> Light \<Rightarrow> light_change" where
  "next_change c l = (case c of
      Change_color xy \<Rightarrow> if color_same (l_color l) (Color_xy xy (l_brightness l) 100) then Change_none else c
    | _ \<Rightarrow> c)"

fun update_groups_light :: "string \<Rightarrow> ref list \<Rightarrow> light_change \<times> bool \<times> clip_state \<Rightarrow> light_change \<times> bool \<times> clip_state" where
  "update_groups_light i [] acc = acc"
| "update_groups_light i (g # gs) (c, updated, s) =
     (case List.find (\<lambda>l. l_id l = i) (g_physicalLights (clip_group s g)) of
        None \<Rightarrow> update_groups_light i gs (c, updated, s)
      | Some l \<Rightarrow>
          (let (on, x1) = UpdateGroupOn (change_light i (apply_change c) (clip_group s g));
               (bri, x2) = UpdateGroupBrightness x1
           in update_groups_light i gs (next_change c l, updated \<or> on \<or> bri, on_group g (\<lambda>_. x2) s)))"

text \<open>In a zone, whether a light is dynamic is not changed.\<close>

definition update_zone_light :: "string \<Rightarrow> light_change \<Rightarrow> Zone \<Rightarrow> Zone" where
  "update_zone_light i c z = (case c of Change_dynamic b \<Rightarrow> z
     | _ \<Rightarrow> z\<lparr>z_group := change_light i (apply_change c) (z_group z)\<rparr>)"

definition UpdateLight :: "json_lib \<Rightarrow> json \<Rightarrow> clip_state \<Rightarrow> clip_state option" where
  "UpdateLight L node s = do {
     i \<leftarrow> map_option (as_string L) (element ''id'' node);
     case map_of (ct_lights s) i of
       None \<Rightarrow> Some s
     | Some curLight \<Rightarrow> do {
         c \<leftarrow> read_light_change L curLight node;
         let (c1, groupsUpdated, s1) = update_groups_light i (clip_groups s) (c, False, s);
         let s2 = on_bridge (\<lambda>b. b\<lparr>b_zones := map (update_zone_light i c1) (b_zones b)\<rparr>) s1;
         Some (tell_later (in_current_group i s \<and> (case c1 of Change_name n \<Rightarrow> True | Change_color xy \<Rightarrow> True
                   | Change_dynamic b \<Rightarrow> True | _ \<Rightarrow> False)) ID_LIGHTS_UPDATED
                 (tell_later groupsUpdated ID_GROUP_LIGHTSTATE_UPDATED s2))
       }
   }"

text \<open>
  For each place of the light, in order, the group is given the list it had at the start without
  that place.
\<close>

definition delete_light_at :: "string \<Rightarrow> Light list \<Rightarrow> nat \<Rightarrow> Group \<Rightarrow> Group" where
  "delete_light_at i ls k g = (if l_id (ls ! k) = i
     then snd (UpdateGroupOn (g\<lparr>g_physicalLights := take k ls @ drop (Suc k) ls\<rparr>)) else g)"

definition delete_group_light :: "string \<Rightarrow> Group \<Rightarrow> Group" where
  "delete_group_light i g = fold (delete_light_at i (g_physicalLights g)) [0..<length (g_physicalLights g)] g"

definition DeleteLight :: "json_lib \<Rightarrow> json \<Rightarrow> clip_state \<Rightarrow> clip_state option" where
  "DeleteLight L light s = do {
     i \<leftarrow> map_option (as_string L) (element ''id'' light);
     let s1 = s\<lparr>ct_lights := AList.delete i (ct_lights s)\<rparr>;
     let s2 = fold (\<lambda>g. on_group g (delete_group_light i)) (clip_groups s1) s1;
     Some (if list_ex (\<lambda>g. has_light i (clip_group s1 g)) (clip_groups s1)
           then emit_output (ScheduleFeedback ID_LIGHTS_UPDATED) s2 else s2)
   }"

section \<open>Zones\<close>

definition zone_archetype :: "string \<Rightarrow> ZoneArchetype" where
  "zone_archetype t = (if t = ''computer'' then ZONEARCHETYPE_COMPUTER else ZONEARCHETYPE_OTHER)"

text \<open>The identifier of the grouped light among the services of a zone.\<close>

definition grouped_light_id :: "json_lib \<Rightarrow> json \<Rightarrow> string option" where
  "grouped_light_id L zone =
     (case (if IsAttributeSet zone ''children'' then GetAttributeValue zone ''services''
            else if IsAttributeSet zone ''grouped_services'' then GetAttributeValue zone ''grouped_services'' else JNull) of
        JNull \<Rightarrow> Some []
      | services \<Rightarrow> do {
          r \<leftarrow> search_first (\<lambda>s. map_option (\<lambda>t. t = JString ''grouped_light'') (element ''rtype'' (as_node s))) (as_array services);
          case r of None \<Rightarrow> Some [] | Some s \<Rightarrow> map_option (as_string L) (element ''rid'' (as_node s))
        })"

definition AddZone :: "json_lib \<Rightarrow> json \<Rightarrow> clip_state \<Rightarrow> clip_state option" where
  "AddZone L zone s =
     (let i = DeserializeString L zone ''id'' [];
          (name, archetype) = (case json_find ''metadata'' zone of
              Some m \<Rightarrow> (DeserializeString L m ''name'' [], zone_archetype (DeserializeString L m ''archetype'' []))
            | None \<Rightarrow> ([], ZONEARCHETYPE_OTHER))
      in if i = [] then Some s
         else do {
           groupedLightId \<leftarrow> grouped_light_id L zone;
           (ok, ls) \<leftarrow> ParseZoneLights L (ct_devices s) (ct_zigbee s) (ct_lights s) zone;
           let newZone = Zone_default\<lparr>z_idV1 := GetIdV1 L zone, z_archetype := archetype,
             z_group := (z_group Zone_default)\<lparr>g_id := i, g_name := name, g_groupedLightId := groupedLightId,
               g_physicalLights := ls\<rparr>\<rparr>;
           let s1 = tell True ID_ZONELIST_UPDATED (on_bridge (\<lambda>b. b\<lparr>b_zones := b_zones b @ [newZone]\<rparr>) s);
           Some (s1\<lparr>ct_zoneNodes := AList.update i zone (ct_zoneNodes s1)\<rparr>)
         })"

definition zone_is :: "string \<Rightarrow> Zone \<Rightarrow> bool" where
  "zone_is i z \<longleftrightarrow> g_id (z_group z) = i"

definition change_zone :: "string \<Rightarrow> (Zone \<Rightarrow> Zone) \<Rightarrow> clip_state \<Rightarrow> clip_state" where
  "change_zone i f s = on_bridge (\<lambda>b. b\<lparr>b_zones := change_first (zone_is i) f (b_zones b)\<rparr>) s"

text \<open>What an update says of the name and the archetype; the second overwrites what the first reports.\<close>

definition update_zone_metadata :: "json_lib \<Rightarrow> json \<Rightarrow> Zone \<Rightarrow> bool \<times> Zone" where
  "update_zone_metadata L zone z = (case json_find ''metadata'' zone of
      None \<Rightarrow> (False, z)
    | Some metadata \<Rightarrow>
        (let (u1, z1) = (case json_find ''name'' metadata of
               None \<Rightarrow> (False, z)
             | Some n \<Rightarrow> (g_name (z_group z) \<noteq> as_string L n, z\<lparr>z_group := (z_group z)\<lparr>g_name := as_string L n\<rparr>\<rparr>))
         in case json_find ''archetype'' metadata of
              None \<Rightarrow> (u1, z1)
            | Some a \<Rightarrow> (let t = zone_archetype (map tolower (as_string L a))
                in (z_archetype z1 \<noteq> t, z1\<lparr>z_archetype := t\<rparr>))))"

definition UpdateZone :: "json_lib \<Rightarrow> json \<Rightarrow> clip_state \<Rightarrow> clip_state option" where
  "UpdateZone L zone s =
     (let i = DeserializeString L zone ''id'' []
      in if i = [] then Some s
         else case List.find (zone_is i) (b_zones (clip_bridge s)) of
                None \<Rightarrow> Some s
              | Some z \<Rightarrow> do {
                  let (updated, z1) = update_zone_metadata L zone z;
                  (ok, ls) \<leftarrow> ParseZoneLights L (ct_devices s) (ct_zigbee s) (ct_lights s) zone;
                  let z2 = (if ok then z1\<lparr>z_group := (z_group z1)\<lparr>g_physicalLights := ls\<rparr>\<rparr> else z1);
                  Some (tell (ok \<or> updated) ID_ZONELIST_UPDATED (change_zone i (\<lambda>_. z2) s))
                })"

definition DeleteZone :: "json_lib \<Rightarrow> json \<Rightarrow> clip_state \<Rightarrow> clip_state option" where
  "DeleteZone L zone s = do {
     i \<leftarrow> map_option (as_string L) (element ''id'' zone);
     Some (tell True ID_ZONELIST_UPDATED (on_bridge (\<lambda>b. b\<lparr>b_zones := erase_first (zone_is i) (b_zones b)\<rparr>)
       (s\<lparr>ct_zoneNodes := AList.delete i (ct_zoneNodes s)\<rparr>)))
   }"

section \<open>The bridge\<close>

definition AddBridge_node :: "json_lib \<Rightarrow> json \<Rightarrow> clip_state \<Rightarrow> clip_state option" where
  "AddBridge_node L bs s0 =
     (let s = s0\<lparr>ct_bridgeNode := bs\<rparr>
      in do {
        i \<leftarrow> map_option (as_string L) (element ''id'' bs);
        deviceId \<leftarrow> GetDeviceIdFromServiceReferenceId (ct_devices s) i;
        if deviceId = [] then Some s
        else do {
          device \<leftarrow> map_of (ct_devices s) deviceId;
          (found, service) \<leftarrow> GetServiceByType L (ct_entertainments s) ''entertainment'' device;
          let name = (case json_find ''metadata'' device of
            Some m \<Rightarrow> DeserializeString L m ''name'' [] | None \<Rightarrow> b_name (clip_bridge s));
          let modelId = (case json_find ''product_data'' device of
            Some p \<Rightarrow> DeserializeString L p ''model_id'' [] | None \<Rightarrow> []);
          let sessions = (case json_find ''max_streams'' service of
            Some n \<Rightarrow> if found then cast_int (as_int L n) else 1 | None \<Rightarrow> 1);
          Some (on_bridge (\<lambda>b. b\<lparr>b_name := name, b_modelId := modelId,
            b_id := map toupper (DeserializeString L bs ''bridge_id'' []), b_maxNoStreamingSessions := sessions\<rparr>) s)
        }
      })"

section \<open>Scenes\<close>

text \<open>The zone of a scene, from the node or from the one that was kept.\<close>

definition GetZoneFromScene :: "json_lib \<Rightarrow> json \<Rightarrow> clip_state \<Rightarrow> Zone option" where
  "GetZoneFromScene L scene s =
     (let groupNode = GetAttributeValue scene ''group'';
          groupNode = (if is_string (GetAttributeValue groupNode ''rtype'') then groupNode
            else case GetAttributeValue scene ''id'' of
                   JString i \<Rightarrow> (case map_of (ct_sceneNodes s) i of
                     Some n \<Rightarrow> GetAttributeValue n ''group'' | None \<Rightarrow> groupNode)
                 | _ \<Rightarrow> JNode [])
      in case (GetAttributeValue groupNode ''rtype'', json_find ''rid'' groupNode) of
           (JString rtype, Some rid) \<Rightarrow>
             (if rtype = ''zone'' then List.find (zone_is (as_string L rid)) (b_zones (clip_bridge s)) else None)
         | _ \<Rightarrow> None)"

definition zone_scenes :: "(Scene list \<Rightarrow> Scene list) \<Rightarrow> Zone \<Rightarrow> Zone" where
  "zone_scenes f z = z\<lparr>z_group := (z_group z)\<lparr>g_scenes := f (g_scenes (z_group z))\<rparr>\<rparr>"

definition AddScene :: "json_lib \<Rightarrow> json \<Rightarrow> clip_state \<Rightarrow> clip_state option" where
  "AddScene L scene s = (case GetZoneFromScene L scene s of
      None \<Rightarrow> Some s
    | Some z \<Rightarrow> do {
        (ok, newScene) \<leftarrow> Clip_ParseScene L (ct_devices s) (ct_zigbee s) (ct_lights s) scene None;
        case newScene of
          None \<Rightarrow> Some s
        | Some sc \<Rightarrow>
            (let s1 = tell True ID_ZONE_SCENELIST_UPDATED (change_zone (g_id (z_group z)) (zone_scenes (\<lambda>ss. ss @ [sc])) s)
             in Some (s1\<lparr>ct_sceneNodes := AList.update (s_id sc) scene (ct_sceneNodes s1)\<rparr>))
      })"

definition UpdateScene :: "json_lib \<Rightarrow> json \<Rightarrow> clip_state \<Rightarrow> clip_state option" where
  "UpdateScene L scene s = (case GetZoneFromScene L scene s of
      None \<Rightarrow> Some s
    | Some z \<Rightarrow>
        (let i = DeserializeString L scene ''id'' []
         in case List.find (\<lambda>sc. s_id sc = i) (g_scenes (z_group z)) of
              None \<Rightarrow> Some s
            | Some sc \<Rightarrow> do {
                (updated, sc1) \<leftarrow> Clip_ParseScene L (ct_devices s) (ct_zigbee s) (ct_lights s) scene (Some sc);
                Some (tell_later updated ID_ZONE_SCENELIST_UPDATED
                  (change_zone (g_id (z_group z)) (zone_scenes (change_first (\<lambda>sc. s_id sc = i) (\<lambda>_. the sc1))) s))
              }))"

definition DeleteScene :: "json_lib \<Rightarrow> json \<Rightarrow> clip_state \<Rightarrow> clip_state option" where
  "DeleteScene L scene s = (case GetZoneFromScene L scene s of
      None \<Rightarrow> Some s
    | Some z \<Rightarrow>
        (let i = DeserializeString L scene ''id'' [];
             s1 = s\<lparr>ct_sceneNodes := AList.delete i (ct_sceneNodes s)\<rparr>
         in Some (if list_ex (\<lambda>sc. s_id sc = i) (g_scenes (z_group z))
                  then tell True ID_ZONE_SCENELIST_UPDATED
                         (change_zone (g_id (z_group z)) (zone_scenes (erase_first (\<lambda>sc. s_id sc = i))) s1)
                  else s1)))"

section \<open>Events\<close>

datatype resource_kind = RDevice | RZigbee | RBridge | REntertainment | RLight | RZone | RConfiguration | RScene

definition resource_kind_of :: "string \<Rightarrow> resource_kind option" where
  "resource_kind_of = map_of [(''entertainment_configuration'', RConfiguration), (''light'', RLight), (''device'', RDevice),
     (''zigbee_connectivity'', RZigbee), (''bridge'', RBridge), (''zone'', RZone), (''entertainment'', REntertainment),
     (''scene'', RScene)]"

definition add_resource :: "json_lib \<Rightarrow> resource_kind \<Rightarrow> json \<Rightarrow> clip_state \<Rightarrow> clip_state option" where
  "add_resource L k = (case k of
      RDevice \<Rightarrow> AddDevice L | RZigbee \<Rightarrow> AddZigbeeConnectivity L | RBridge \<Rightarrow> AddBridge_node L
    | REntertainment \<Rightarrow> AddEntertainment L | RLight \<Rightarrow> AddLight_node L | RZone \<Rightarrow> AddZone L
    | RConfiguration \<Rightarrow> AddEntertainmentConfiguration L | RScene \<Rightarrow> AddScene L)"

definition update_resource :: "json_lib \<Rightarrow> resource_kind \<Rightarrow> json \<Rightarrow> clip_state \<Rightarrow> clip_state option" where
  "update_resource L k = (case k of
      RDevice \<Rightarrow> UpdateDevice L | RZigbee \<Rightarrow> UpdateZigbeeConnectivity L | RBridge \<Rightarrow> (\<lambda>_. Some)
    | REntertainment \<Rightarrow> (\<lambda>_. Some) | RLight \<Rightarrow> UpdateLight L | RZone \<Rightarrow> UpdateZone L
    | RConfiguration \<Rightarrow> UpdateEntertainmentConfiguration L | RScene \<Rightarrow> UpdateScene L)"

definition delete_resource :: "json_lib \<Rightarrow> resource_kind \<Rightarrow> json \<Rightarrow> clip_state \<Rightarrow> clip_state option" where
  "delete_resource L k = (case k of
      RDevice \<Rightarrow> DeleteDevice L | RZigbee \<Rightarrow> DeleteZigbeeConnectivity L | RBridge \<Rightarrow> (\<lambda>_. Some)
    | REntertainment \<Rightarrow> DeleteEntertainment L | RLight \<Rightarrow> DeleteLight L | RZone \<Rightarrow> DeleteZone L
    | RConfiguration \<Rightarrow> DeleteEntertainmentConfiguration L | RScene \<Rightarrow> DeleteScene L)"

type_synonym clip_item = "resource_kind \<times> string \<times> json"

definition handle_item :: "json_lib \<Rightarrow> clip_item \<Rightarrow> clip_state \<Rightarrow> clip_state option" where
  "handle_item L item s = (case item of (k, eventType, node) \<Rightarrow>
      if eventType = ''add'' then add_resource L k node s
      else if eventType = ''update'' then update_resource L k node s
      else if eventType = ''delete'' then delete_resource L k node s
      else Some s)"

text \<open>
  The resources of one entry of the array. An entry without \<open>type\<close> or \<open>data\<close> fails: the code compares
  the end of the entry with the end of the array.
\<close>

definition data_items :: "json_lib \<Rightarrow> string \<Rightarrow> json list \<Rightarrow> clip_item list" where
  "data_items L eventType ds = concat (map (\<lambda>d. let n = as_node d in
      case resource_kind_of (DeserializeString L n ''type'' []) of
        Some k \<Rightarrow> if DeserializeString L n ''id'' [] = [] then [] else [(k, eventType, n)]
      | None \<Rightarrow> []) ds)"

definition entry_items :: "json_lib \<Rightarrow> json \<Rightarrow> clip_item list option" where
  "entry_items L entry = do {
     typeNode \<leftarrow> json_find ''type'' entry;
     if \<not> is_string typeNode then Some []
     else do {
       data \<leftarrow> json_find ''data'' entry;
       Some (if data = JNull then [] else data_items L (as_string L typeNode) (as_array data))
     }
   }"

definition event_items :: "json_lib \<Rightarrow> json list \<Rightarrow> clip_item list option" where
  "event_items L entries = map_option concat (those (map (entry_items L) entries))"

definition items_of :: "resource_kind \<Rightarrow> clip_item list \<Rightarrow> clip_item list" where
  "items_of k items = filter (\<lambda>item. fst item = k) items"

text \<open>Of the resources of kind bridge only the last one is handled.\<close>

definition last_bridge :: "clip_item list \<Rightarrow> clip_item list" where
  "last_bridge items = (case rev (items_of RBridge items) of [] \<Rightarrow> [] | item # _ \<Rightarrow> [item])"

definition before_configurations :: "clip_item list \<Rightarrow> clip_item list" where
  "before_configurations items = items_of RDevice items @ items_of RZigbee items @ last_bridge items
     @ items_of REntertainment items @ items_of RLight items @ items_of RZone items"

definition ParseJsonEvent :: "json_lib \<Rightarrow> json \<Rightarrow> clip_state \<Rightarrow> (bool \<times> clip_state) option" where
  "ParseJsonEvent L doc s = (case doc of
      JArray entries \<Rightarrow> do {
        items \<leftarrow> event_items L entries;
        s1 \<leftarrow> each (handle_item L) (before_configurations items) s;
        if status_throws (clip_bridge s1) then None
        else do {
          let bridgeWasStreaming = IsStreaming (ct_store s1) (clip_bridge s1);
          s2 \<leftarrow> each (handle_item L) (items_of RConfiguration items) s1;
          if status_throws (clip_bridge s2) \<and> ct_canSendStreamingDisconnected s2 \<and> bridgeWasStreaming then None
          else do {
            let s3 = (if ct_canSendStreamingDisconnected s2 \<and> bridgeWasStreaming
                         \<and> \<not> IsStreaming (ct_store s2) (clip_bridge s2)
                      then emit_output (Feedback ID_STREAMING_DISCONNECTED) s2 else s2);
            s4 \<leftarrow> each (handle_item L) (items_of RScene items) s3;
            Some (True, s4)
          }
        }
      }
    | _ \<Rightarrow> Some (False, s))"

text \<open>A bridge that nothing is known of yet, and an event that adds a device with a light, a zone and a configuration.\<close>

definition sample_clip_state :: clip_state where
  "sample_clip_state = \<lparr>ct_store = sample_bridge_store, ct_bridge = 2, ct_useForcedActivation = True, ct_whitelist = JNode [],
     ct_lights = [], ct_zigbee = [], ct_devices = [], ct_zoneNodes = [], ct_entertainments = [], ct_sceneNodes = [],
     ct_bridgeNode = JNode [], ct_sendFeedback = True, ct_canSendStreamingDisconnected = True, ct_updatingWhitelist = False,
     ct_output = []\<rparr>"

definition sample_reference :: "string \<Rightarrow> string \<Rightarrow> json" where
  "sample_reference t i = JNode [(''rtype'', JString t), (''rid'', JString i)]"

definition sample_device :: json where
  "sample_device = JNode [(''type'', JString ''device''), (''id'', JString ''d1''),
     (''services'', JArray [sample_reference ''light'' ''l1'', sample_reference ''zigbee_connectivity'' ''z1'']),
     (''product_data'', JNode [(''model_id'', JString ''LCT015'')]), (''metadata'', JNode [(''name'', JString ''left'')])]"

definition sample_connectivity :: json where
  "sample_connectivity = JNode [(''type'', JString ''zigbee_connectivity''), (''id'', JString ''z1''), (''status'', JString ''connected'')]"

definition sample_light :: json where
  "sample_light = JNode [(''type'', JString ''light''), (''id'', JString ''l1''), (''on'', JNode [(''on'', JBool True)])]"

definition sample_entries :: "json list" where
  "sample_entries = [JNode [(''type'', JString ''add''), (''data'', JArray
     [JNode [(''type'', JString ''zone''), (''id'', JString ''a1''), (''children'', JArray [sample_reference ''light'' ''l1''])],
      sample_light, sample_connectivity, sample_device,
      JNode [(''type'', JString ''entertainment_configuration''), (''id'', JString ''e1''),
        (''channels'', JArray [JNode [(''channel_id'', JNumber 0), (''members'', JArray []),
           (''position'', JNode [(''x'', JNumber 0), (''y'', JNumber 1), (''z'', JNumber 0)])]])]])]]"

end
