(* ===== verification/ClipTypes.thy ===== *)
theory ClipTypes imports ClipEvents begin

text \<open>
  When the handlers of \<open>BridgeConfigRetriever\<close> access a member that is missing. A schema says which
  members a resource has; a state is typed if the resources it holds follow the schema and every known
  light leads, over its device, to a connectivity with a status. An event is handled without failure,
  and leaves a typed state, if its resources follow the schema and it deletes no device or connectivity
  that a known light needs.
\<close>

section \<open>Loops that do not fail\<close>

lemma search_first_total: "\<forall>x\<in>set xs. p x \<noteq> None \<Longrightarrow> \<exists>r. search_first p xs = Some r"
  by (induction xs) (auto split: option.split bool.split)

lemma search_first_found: "search_first p xs = Some (Some x) \<Longrightarrow> x \<in> set xs \<and> p x = Some True"
  by (induction xs) (auto split: option.splits bool.splits)

lemma each_total:
  assumes "\<And>x s. x \<in> set xs \<Longrightarrow> P s \<Longrightarrow> \<exists>s'. f x s = Some s' \<and> P s'" "P s"
  shows "\<exists>s'. each f xs s = Some s' \<and> P s'"
  using assms
proof (induction xs arbitrary: s)
  case (Cons x xs)
  then obtain s1 where "f x s = Some s1" "P s1" by (meson list.set_intros(1))
  then show ?case using Cons by auto
qed simp

lemma each_defined: "(\<And>x s. x \<in> set xs \<Longrightarrow> f x s \<noteq> None) \<Longrightarrow> \<exists>s'. each f xs s = Some s'"
  using each_total[of xs "\<lambda>_. True" f s] by auto

section \<open>The schema\<close>

definition has_members :: "string list \<Rightarrow> json \<Rightarrow> bool" where
  "has_members ns j \<longleftrightarrow> list_all (IsAttributeSet j) ns"

definition service_ok :: "json \<Rightarrow> bool" where
  "service_ok s \<longleftrightarrow> is_node s \<and> has_members [''rtype'', ''rid''] s"

text \<open>The number in a model fits into an \<open>int\<close>.\<close>

definition model_ok :: "string \<Rightarrow> bool" where
  "model_ok m \<longleftrightarrow> (case model_digits m of None \<Rightarrow> True | Some ds \<Rightarrow> \<not> isl (stoi ds))"

definition device_ok :: "json_lib \<Rightarrow> json \<Rightarrow> bool" where
  "device_ok L d \<longleftrightarrow> has_members [''id'', ''services''] d \<and> list_all service_ok (as_array (GetAttributeValue d ''services''))
     \<and> is_node (GetAttributeValue d ''product_data'') \<and> has_members [''model_id''] (GetAttributeValue d ''product_data'')
     \<and> model_ok (DeserializeString L (GetAttributeValue d ''product_data'') ''model_id'' [])
     \<and> has_members [''name''] (GetAttributeValue d ''metadata'')"

definition connectivity_ok :: "json \<Rightarrow> bool" where
  "connectivity_ok zc \<longleftrightarrow> has_members [''id'', ''status''] zc"

text \<open>A light, as it is added; each part that is there is complete.\<close>

definition part_ok :: "string \<Rightarrow> string list \<Rightarrow> json \<Rightarrow> bool" where
  "part_ok a ns j \<longleftrightarrow> (case json_find a j of None \<Rightarrow> True | Some p \<Rightarrow> is_node p \<and> has_members ns p)"

definition light_ok :: "json \<Rightarrow> bool" where
  "light_ok n \<longleftrightarrow> has_members [''id'', ''on''] n \<and> part_ok ''on'' [''on''] n \<and> part_ok ''dimming'' [''brightness''] n
     \<and> (case json_find ''color'' n of None \<Rightarrow> True | Some c \<Rightarrow> part_ok ''xy'' [''x'', ''y''] c)"

text \<open>An update of a light names members that the light has.\<close>

definition update_fits :: "json \<Rightarrow> json \<Rightarrow> bool" where
  "update_fits cur n \<longleftrightarrow>
     list_all (\<lambda>(a, b). case json_find a n of None \<Rightarrow> True
         | Some p \<Rightarrow> is_node p \<and> (IsAttributeSet p b \<longrightarrow> has_members [b] (GetAttributeValue cur a)))
       [(''metadata'', ''name''), (''on'', ''on''), (''dimming'', ''brightness''), (''color'', ''xy''), (''dynamics'', ''status'')]
     \<and> part_ok ''xy'' [''x'', ''y''] (GetAttributeValue n ''color'')
     \<and> part_ok ''xy'' [''x'', ''y''] (GetAttributeValue cur ''color'')"

definition position_ok :: "json \<Rightarrow> bool" where
  "position_ok p \<longleftrightarrow> has_members [''x'', ''y'', ''z''] p"

definition location_ok :: "json \<Rightarrow> bool" where
  "location_ok j \<longleftrightarrow> is_node j \<and> part_ok ''service'' [''rid''] j \<and> has_members [''service''] j
     \<and> (case json_find ''positions'' j of Some ps \<Rightarrow> as_array ps \<noteq> [] \<and> position_ok (hd (as_array ps)) | None \<Rightarrow> True)
     \<and> part_ok ''position'' [''x'', ''y'', ''z''] j"

definition channel_ok :: "json \<Rightarrow> bool" where
  "channel_ok c \<longleftrightarrow> is_node c \<and> has_members [''channel_id'', ''position''] c \<and> part_ok ''position'' [''x'', ''y'', ''z''] c"

definition configuration_ok :: "json \<Rightarrow> bool" where
  "configuration_ok n \<longleftrightarrow> has_members [''id''] n \<and> part_ok ''active_streamer'' [''rid''] n
     \<and> list_all location_ok (as_array (GetAttributeValue (GetAttributeValue n ''locations'') ''service_locations''))
     \<and> list_all channel_ok (as_array (GetAttributeValue n ''channels''))"

definition zone_ok :: "json \<Rightarrow> bool" where
  "zone_ok n \<longleftrightarrow> has_members [''id''] n \<and> list_all service_ok (as_array (GetAttributeValue n ''children''))
     \<and> list_all service_ok (as_array (GetAttributeValue n ''services''))
     \<and> list_all service_ok (as_array (GetAttributeValue n ''grouped_services''))"

definition action_ok :: "json \<Rightarrow> bool" where
  "action_ok j \<longleftrightarrow> is_node j \<and> has_members [''action'', ''target''] j
     \<and> (let a = GetAttributeValue j ''action''
        in part_ok ''dimming'' [''brightness''] a \<and> part_ok ''on'' [''on''] a \<and> part_ok ''color_temperature'' [''mirek''] a
           \<and> (case json_find ''color'' a of None \<Rightarrow> True | Some c \<Rightarrow> part_ok ''xy'' [''x'', ''y''] c))"

definition scene_ok :: "json \<Rightarrow> bool" where
  "scene_ok n \<longleftrightarrow> list_all action_ok (as_array (GetAttributeValue n ''actions''))"

lemma member_simps [simp]:
  "has_members [] j" "has_members (n # ns) j \<longleftrightarrow> IsAttributeSet j n \<and> has_members ns j"
  by (simp_all add: has_members_def)

lemma attribute_set: "IsAttributeSet j n \<Longrightarrow> json_find n j = Some (GetAttributeValue j n)"
  by (auto simp: IsAttributeSet_def GetAttributeValue_def)

lemma node_is [simp]: "is_node j \<Longrightarrow> as_node j = j"
  by (cases j) (simp_all add: is_node_def)

section \<open>References\<close>

lemma device_services: "device_ok L d \<Longrightarrow> \<exists>ss. services_of d = Some ss \<and> list_all service_ok ss"
  using attribute_set[of d "''services''"] by (auto simp: device_ok_def services_of_def element_def)

lemma service_lookup: "service_ok s \<Longrightarrow> element ''rid'' (as_node s) \<noteq> None \<and> element ''rtype'' (as_node s) \<noteq> None
    \<and> element ''rtype'' s \<noteq> None"
  by (auto simp: service_ok_def element_def IsAttributeSet_def)

lemma services_searched: "list_all service_ok ss \<Longrightarrow> \<exists>r. search_first (service_refers i) ss = Some r"
  "list_all service_ok ss \<Longrightarrow> \<exists>r. search_first (\<lambda>s. map_option (\<lambda>t. t = JString ty) (element ''rtype'' (as_node s))) ss = Some r"
  "list_all service_ok ss \<Longrightarrow> \<exists>r. search_first (\<lambda>s. map_option (\<lambda>t. as_string L t \<in> T) (element ''rtype'' s)) ss = Some r"
  by (rule search_first_total, use service_lookup in \<open>auto simp: list_all_iff service_refers_def\<close>)+

lemma device_searched:
  assumes "device_ok L d"
  shows "\<exists>b. device_refers i d = Some b"
proof -
  obtain ss where ss: "services_of d = Some ss" "list_all service_ok ss" using device_services[OF assms] by blast
  then show ?thesis using services_searched(1)[OF ss(2), of i] by (auto simp: device_refers_def)
qed

definition devices_ok :: "json_lib \<Rightarrow> resources \<Rightarrow> bool" where
  "devices_ok L ds \<longleftrightarrow> list_all (\<lambda>(k, d). device_ok L d) ds"

lemma devices_searched: "devices_ok L ds \<Longrightarrow> \<exists>r. search_first (\<lambda>(k, d). device_refers i d) ds = Some r"
  using device_searched[of L _ i] by (intro search_first_total) (fastforce simp: devices_ok_def list_all_iff)

lemma device_known: "devices_ok L ds \<Longrightarrow> map_of ds k = Some d \<Longrightarrow> device_ok L d"
  using map_of_SomeD by (fastforce simp: devices_ok_def list_all_iff)

lemma device_id_found:
  assumes "devices_ok L ds"
  shows "\<exists>k. GetDeviceIdFromServiceReferenceId ds i = Some k \<and> (k = [] \<or> (\<exists>d. map_of ds k = Some d \<and> device_ok L d))"
proof -
  obtain r where r: "search_first (\<lambda>(k, d). device_refers i d) ds = Some r" using devices_searched[OF assms] by blast
  show ?thesis
  proof (cases r)
    case None
    then show ?thesis using r by (simp add: GetDeviceIdFromServiceReferenceId_def)
  next
    case (Some kd)
    then obtain k d where kd: "r = Some (k, d)" "(k, d) \<in> set ds" using search_first_found r by (cases kd) fastforce
    then obtain d' where "map_of ds k = Some d'" using weak_map_of_SomeI[of k d ds] by blast
    then show ?thesis using kd r device_known[OF assms] by (simp add: GetDeviceIdFromServiceReferenceId_def)
  qed
qed

lemma reference_found:
  assumes "devices_ok L ds" "map_of ds k = Some d"
  shows "\<exists>i. GetDeviceReferenceIdFromReferenceType L ds k ty = Some i"
proof -
  obtain ss where ss: "services_of d = Some ss" "list_all service_ok ss"
    using device_services[OF device_known[OF assms]] by blast
  obtain r where r: "search_first (\<lambda>s. map_option (\<lambda>t. t = JString ty) (element ''rtype'' (as_node s))) ss = Some r"
    using services_searched(2)[OF ss(2)] by blast
  have "\<exists>v. element ''rid'' (as_node s) = Some v" if "r = Some s" for s
    using that ss(2) r search_first_found service_lookup by (fastforce simp: list_all_iff)
  then show ?thesis using assms(2) ss r by (cases r) (auto simp: GetDeviceReferenceIdFromReferenceType_def)
qed

lemma related_found: "devices_ok L ds \<Longrightarrow> \<exists>r. related_id L ds ty i = Some r"
  using device_id_found[of L ds i] reference_found[of L ds] by (auto simp: related_id_def)

section \<open>Lights\<close>

lemma part_found:
  assumes "part_ok a ns j" "json_find a j = Some p"
  shows "is_node p" "has_members ns p"
  using assms by (simp_all add: part_ok_def)

lemma part_member:
  assumes "part_ok a [b] j" "IsAttributeSet j a"
  shows "\<exists>v. node_member_of a b j = Some v" "\<exists>v. member_of a b j = Some v"
  using assms attribute_set[of j a] attribute_set[of "GetAttributeValue j a" b]
  by (auto simp: part_ok_def node_member_of_def member_of_def element_def)

lemma xy_read: "has_members [''x'', ''y''] p \<Longrightarrow> \<exists>xy. read_xy L p = Some xy"
  by (auto simp: read_xy_def element_def IsAttributeSet_def)

lemma location_found: "has_members [''x'', ''y'', ''z''] p \<Longrightarrow> \<exists>l. clip_location L p = Some l"
  by (auto simp: clip_location_def element_def IsAttributeSet_def)

lemma light_model_found:
  assumes "devices_ok L ds"
  shows "\<exists>m. light_model L ds i = Some m"
proof -
  obtain r where r: "search_first (\<lambda>(k, d). device_refers i d) ds = Some r" using devices_searched[OF assms] by blast
  have "\<exists>v. node_member_of ''product_data'' ''model_id'' d = Some v" if "r = Some (k, d)" for k d
  proof -
    have "device_ok L d" using search_first_found that r assms by (fastforce simp: devices_ok_def list_all_iff)
    then show ?thesis
      using attribute_set[of "GetAttributeValue d ''product_data''" "''model_id''"]
      by (cases "json_find ''product_data'' d")
        (auto simp: device_ok_def node_member_of_def element_def GetAttributeValue_def IsAttributeSet_def)
  qed
  then show ?thesis using r by (cases r) (auto simp: light_model_def)
qed

definition node_id :: "json_lib \<Rightarrow> json \<Rightarrow> string" where
  "node_id L n = DeserializeString L n ''id'' []"

lemma node_id_element: "IsAttributeSet n ''id'' \<Longrightarrow> map_option (as_string L) (element ''id'' n) = Some (node_id L n)"
  by (auto simp: IsAttributeSet_def element_def node_id_def DeserializeString_def)

definition reachable_known :: "json_lib \<Rightarrow> resources \<Rightarrow> resources \<Rightarrow> string \<Rightarrow> bool" where
  "reachable_known L ds zs i \<longleftrightarrow> light_reachable L ds zs i \<noteq> None"

lemma light_parsed:
  assumes "devices_ok L ds" "light_ok n" "reachable_known L ds zs (node_id L n)"
  shows "\<exists>light. ParseLightInfo L ds zs n = Some light"
proof -
  obtain b where b: "light_brightness L n = Some b"
    using assms(2) part_member(1)[of "''dimming''"] by (fastforce simp: light_brightness_def light_ok_def)
  obtain v where v: "node_member_of ''on'' ''on'' n = Some v"
    using assms(2) part_member(1)[of "''on''"] by (auto simp: light_ok_def)
  obtain xy where xy: "light_xy L n = Some xy"
    using assms(2) xy_read part_found[of "''xy''" "[''x'', ''y'']"]
    by (fastforce simp: light_xy_def light_ok_def split: option.splits)
  obtain x where x: "element ''id'' n = Some x" "as_string L x = node_id L n"
    using assms(2) node_id_element[of n L] by (auto simp: light_ok_def)
  obtain m where m: "light_model L ds (node_id L n) = Some m" using light_model_found[OF assms(1)] by blast
  obtain r where r: "light_reachable L ds zs (node_id L n) = Some r" using assms(3) by (auto simp: reachable_known_def)
  show ?thesis using b v xy x m r by (simp add: ParseLightInfo_def case_prod_unfold Let_def)
qed

definition lights_ok :: "json_lib \<Rightarrow> resources \<Rightarrow> resources \<Rightarrow> resources \<Rightarrow> bool" where
  "lights_ok L ds zs ls \<longleftrightarrow> list_all (\<lambda>(k, n). light_ok n \<and> reachable_known L ds zs (node_id L n)) ls"

lemma known_light_parsed:
  assumes "devices_ok L ds" "lights_ok L ds zs ls" "map_of ls i = Some n"
  shows "\<exists>light. ParseLightInfo L ds zs n = Some light"
  using light_parsed[OF assms(1)] assms(2) map_of_SomeD[OF assms(3)] by (fastforce simp: lights_ok_def list_all_iff)

text \<open>The resources that a light is read from.\<close>

definition resources_ok :: "json_lib \<Rightarrow> resources \<Rightarrow> resources \<Rightarrow> resources \<Rightarrow> bool" where
  "resources_ok L ds zs ls \<longleftrightarrow> devices_ok L ds \<and> lights_ok L ds zs ls"

lemma service_position_found:
  assumes "location_ok j"
  shows "\<exists>p. service_position j = Some p \<and> (p = JNull \<or> position_ok p)"
proof (cases "json_find ''positions'' j")
  case None
  then show ?thesis using assms
    by (cases "json_find ''position'' j") (auto simp: location_ok_def service_position_def part_ok_def position_ok_def)
next
  case (Some ps)
  then show ?thesis using assms by (cases "as_array ps") (auto simp: location_ok_def service_position_def)
qed

lemma service_location_read:
  assumes "resources_ok L ds zs ls" "location_ok j"
  shows "read_service_location L ds zs ls j acc \<noteq> None"
proof -
  obtain acc1 a n on where acc: "acc = (acc1, a, n, on)" by (cases acc)
  have j: "is_node j" "IsAttributeSet j ''service''" using assms(2) by (simp_all add: location_ok_def)
  then obtain service where service: "json_find ''service'' j = Some service" "is_node service" "IsAttributeSet service ''rid''"
    using assms(2) by (auto simp: location_ok_def part_ok_def dest: attribute_set)
  then obtain rid where rid: "element ''rid'' service = Some rid" by (auto simp: element_def IsAttributeSet_def)
  obtain i where i: "GetLightIdFromEntertainmentId L ds (as_string L rid) = Some i"
    using related_found assms(1) by (fastforce simp: GetLightIdFromEntertainmentId_def resources_ok_def)
  obtain p where p: "service_position j = Some p" "p = JNull \<or> position_ok p"
    using service_position_found[OF assms(2)] by blast
  show ?thesis
  proof (cases "map_of ls i")
    case None
    then show ?thesis using j service rid i acc by (simp add: read_service_location_def element_def Let_def)
  next
    case (Some n)
    then obtain light where "ParseLightInfo L ds zs n = Some light"
      using known_light_parsed assms(1) by (fastforce simp: resources_ok_def)
    moreover obtain l where "p \<noteq> JNull \<Longrightarrow> clip_location L p = Some l"
      using p(2) location_found[of p L] by (auto simp: position_ok_def)
    ultimately show ?thesis
      using j service rid i Some p acc by (simp add: read_service_location_def element_def Let_def)
  qed
qed

lemma lights_parsed:
  assumes "resources_ok L ds zs ls" "configuration_ok n"
  shows "\<exists>r. Clip_ParseLights L ds zs ls n g = Some r"
proof -
  have "\<exists>acc. each (read_service_location L ds zs ls) (as_array ps) ([], 0, 0, False) = Some acc"
    if "json_find ''locations'' n = Some l" "json_find ''service_locations'' l = Some ps" for l ps
    using that assms service_location_read
    by (intro each_defined) (auto simp: configuration_ok_def list_all_iff GetAttributeValue_def)
  then show ?thesis by (fastforce simp: Clip_ParseLights_def split: option.splits)
qed

lemma channel_read:
  assumes "devices_ok L ds" "channel_ok c"
  shows "read_channel L ds c acc \<noteq> None"
proof -
  have c: "is_node c" "IsAttributeSet c ''channel_id''" "IsAttributeSet c ''position''" using assms(2) by (simp_all add: channel_ok_def)
  then obtain p where p: "json_find ''position'' c = Some p" "is_node p" "has_members [''x'', ''y'', ''z''] p"
    using assms(2) by (auto simp: channel_ok_def part_ok_def dest: attribute_set)
  have ids: "\<exists>ids. channel_members L ds ms = Some ids" for ms
    unfolding channel_members_def
    by (rule each_defined) (use related_found[OF assms(1)] in \<open>fastforce simp: GetLightIdFromEntertainmentId_def split: json.split\<close>)
  obtain l where l: "clip_location L p = Some l" using location_found[OF p(3)] by blast
  show ?thesis
  proof (cases "json_find ''members'' c")
    case None
    then show ?thesis using c p attribute_set[OF c(2)] by (simp add: read_channel_def element_def Let_def)
  next
    case (Some ms)
    then show ?thesis using c p l attribute_set[OF c(2)] ids[of "as_array ms"]
      by (auto simp: read_channel_def element_def Let_def)
  qed
qed

lemma channels_parsed:
  assumes "devices_ok L ds" "configuration_ok n"
  shows "\<exists>r. ParseChannels L ds n = Some r"
proof -
  have "\<exists>acc. each (read_channel L ds) (as_array cs) ([], Map.empty) = Some acc" if "json_find ''channels'' n = Some cs" for cs
    using that assms channel_read by (intro each_defined) (auto simp: configuration_ok_def list_all_iff GetAttributeValue_def)
  then show ?thesis by (fastforce simp: ParseChannels_def split: option.splits)
qed

section \<open>Zones and scenes\<close>

lemma zone_light_read:
  assumes "resources_ok L ds zs ls" "service_ok j"
  shows "read_zone_light L ds zs ls j acc \<noteq> None"
proof -
  obtain t r where t: "element ''rtype'' j = Some t" "element ''rid'' j = Some r" "is_node j"
    using service_lookup[OF assms(2)] assms(2) by (auto simp: service_ok_def)
  show ?thesis
  proof (cases "map_of ls (as_string L r)")
    case (Some n)
    then show ?thesis using t known_light_parsed[of L ds zs ls "as_string L r" n] assms(1)
      by (auto simp: read_zone_light_def resources_ok_def)
  qed (use t in \<open>auto simp: read_zone_light_def\<close>)
qed

lemma zone_lights_parsed:
  assumes "resources_ok L ds zs ls" "zone_ok n"
  shows "\<exists>r. ParseZoneLights L ds zs ls n = Some r"
proof -
  have "\<exists>acc. each (read_zone_light L ds zs ls) js [] = Some acc" if "list_all service_ok js" for js
    using that zone_light_read[OF assms(1)] by (intro each_defined) (auto simp: list_all_iff)
  then show ?thesis
    using assms(2) by (cases "GetAttributeValue n ''children''"; cases "GetAttributeValue n ''services''")
      (fastforce simp: ParseZoneLights_def zone_ok_def)+
qed

lemma grouped_light_found:
  assumes "zone_ok n"
  shows "\<exists>i. grouped_light_id L n = Some i"
proof -
  have "\<exists>i. (do {
          r \<leftarrow> search_first (\<lambda>s. map_option (\<lambda>t. t = JString ''grouped_light'') (element ''rtype'' (as_node s))) ss;
          case r of None \<Rightarrow> Some [] | Some s \<Rightarrow> map_option (as_string L) (element ''rid'' (as_node s))
        }) = Some i" if ss: "list_all service_ok ss" for ss
  proof -
    obtain r where r: "search_first (\<lambda>s. map_option (\<lambda>t. t = JString ''grouped_light'') (element ''rtype'' (as_node s))) ss = Some r"
      using services_searched(2)[OF ss] by blast
    have "\<exists>v. element ''rid'' (as_node s) = Some v" if "r = Some s" for s
      using that ss r search_first_found service_lookup by (fastforce simp: list_all_iff)
    then show ?thesis using r by (cases r) auto
  qed
  then show ?thesis using assms by (auto simp: grouped_light_id_def zone_ok_def split: json.split)
qed

lemma action_color_read:
  assumes "part_ok ''color_temperature'' [''mirek''] a"
    "case json_find ''color'' a of None \<Rightarrow> True | Some c \<Rightarrow> part_ok ''xy'' [''x'', ''y''] c"
  shows "\<exists>c. action_color L a bri c0 = Some c"
proof (cases "json_find ''color'' a")
  case None
  then show ?thesis using part_member(2)[OF assms(1)] by (auto simp: action_color_def)
next
  case (Some c)
  then have c: "part_ok ''xy'' [''x'', ''y''] c" using assms(2) by simp
  show ?thesis
  proof (cases "json_find ''xy'' c")
    case None
    then show ?thesis using Some by (simp add: action_color_def)
  next
    case (Some xy)
    then obtain v where "read_xy L xy = Some v" using xy_read[OF part_found(2)[OF c Some]] by blast
    then show ?thesis using \<open>json_find ''color'' a = Some c\<close> Some by (simp add: action_color_def)
  qed
qed

lemma part_read:
  assumes "part_ok a [b] j"
  shows "\<exists>v. (if IsAttributeSet j a then map_option f (member_of a b j) else Some d) = Some v"
  using part_member(2)[OF assms] by (cases "IsAttributeSet j a") auto

lemma scene_action_read:
  assumes "resources_ok L ds zs ls" "action_ok j"
  shows "read_scene_action L ds zs ls j acc \<noteq> None"
proof -
  let ?a = "GetAttributeValue j ''action''" let ?t = "GetAttributeValue j ''target''"
  have j: "is_node j" "json_find ''action'' j = Some ?a" "json_find ''target'' j = Some ?t"
    using assms(2) by (simp_all add: action_ok_def attribute_set)
  have a: "part_ok ''dimming'' [''brightness''] ?a" "part_ok ''on'' [''on''] ?a"
    using assms(2) by (simp_all add: action_ok_def Let_def)
  from part_read[OF a(1)] obtain b where b: "(if IsAttributeSet ?a ''dimming''
        then map_option (as_float L) (member_of ''dimming'' ''brightness'' ?a) else Some 0) = Some b" ..
  from part_read[OF a(2)] obtain v where v: "(if IsAttributeSet ?a ''on''
        then map_option (as_bool L) (member_of ''on'' ''on'' ?a) else Some False) = Some v" ..
  have c: "\<exists>c. action_color L ?a bri c0 = Some c" for bri c0
    using assms(2) by (intro action_color_read) (simp_all add: action_ok_def Let_def)
  show ?thesis
  proof (cases "\<exists>i n. GetAttributeValue ?t ''rid'' = JString i \<and> map_of ls i = Some n")
    case True
    then obtain i n where i: "GetAttributeValue ?t ''rid'' = JString i" "map_of ls i = Some n" by blast
    obtain light where light: "ParseLightInfo L ds zs n = Some light"
      using known_light_parsed i(2) assms(1) by (fastforce simp: resources_ok_def)
    obtain c1 where "action_color L ?a b (l_color light) = Some c1" using c by blast
    then show ?thesis
      using j i light unfolding read_scene_action_def node_is[OF j(1)] element_def
      by (cases "GetAttributeValue ?t ''rtype''") (simp_all add: b v)
  next
    case False
    then show ?thesis using j by (auto simp: read_scene_action_def element_def split: json.split option.split)
  qed
qed

lemma scene_parsed:
  assumes "resources_ok L ds zs ls" "scene_ok n"
  shows "\<exists>u s. Clip_ParseScene L ds zs ls n sc = Some (u, s) \<and> (sc \<noteq> None \<longrightarrow> s \<noteq> None)"
proof -
  have "\<exists>lights. (case GetAttributeValue n ''actions'' of
      JArray actions \<Rightarrow> each (read_scene_action L ds zs ls) actions [] | _ \<Rightarrow> Some []) = Some lights"
    using assms(2) scene_action_read[OF assms(1)]
    by (cases "GetAttributeValue n ''actions''") (simp_all add: scene_ok_def list_all_iff each_defined)
  then show ?thesis by (cases sc) (auto simp: Clip_ParseScene_def case_prod_unfold Let_def)
qed

end
