(* ===== verification/ClipTyped.thy ===== *)
theory ClipTyped imports ClipTypes begin

text \<open>
  Events of the clip v2 interface that are well typed: no handler fails, and the resources that are
  known afterwards follow the schema again.
\<close>

section \<open>Members that are assigned\<close>

lemma set_element_total:
  assumes "json_find n j = Some v" "f v = Some w"
  shows "\<exists>j'. set_element n f j = Some j'"
proof (cases j)
  case (JNode kvs)
  have "\<exists>kvs'. set_element n f (JNode kvs) = Some (JNode kvs')" if "map_of kvs n = Some v"
    using that assms(2) by (induction kvs) (auto split: if_splits)
  then show ?thesis using assms(1) JNode by auto
qed (use assms(1) in auto)

lemma set_element_node: "set_element n f (JNode kvs) = Some j \<Longrightarrow> \<exists>kvs'. j = JNode kvs'
    \<and> map_of kvs' n = Option.bind (map_of kvs n) f \<and> (\<forall>m. m \<noteq> n \<longrightarrow> map_of kvs' m = map_of kvs m)"
proof (induction kvs arbitrary: j)
  case (Cons kv kvs)
  obtain k v where kv: "kv = (k, v)" by (cases kv)
  show ?case
  proof (cases "k = n")
    case True
    then show ?thesis using Cons.prems kv by auto
  next
    case False
    then obtain kvs' where "set_element n f (JNode kvs) = Some (JNode kvs')" "j = JNode ((k, v) # kvs')"
      using Cons.prems kv by (auto split: option.splits json.splits)
    then show ?thesis using Cons.IH[of "JNode kvs'"] kv False by auto
  qed
qed simp

lemma set_element_found:
  assumes "set_element n f j = Some j'"
  shows "json_find n j' = Option.bind (json_find n j) f" "m \<noteq> n \<Longrightarrow> json_find m j' = json_find m j"
  using assms set_element_node[of n f _ j'] by (cases j; fastforce)+

section \<open>The state\<close>

text \<open>A connectivity with a name has a status; the nameless one is what a proxy without connectivity enters.\<close>

definition zigbee_ok :: "resources \<Rightarrow> bool" where
  "zigbee_ok zs \<longleftrightarrow> list_all (\<lambda>(k, zc). k = [] \<or> IsAttributeSet zc ''status'') zs"

definition clip_typed :: "json_lib \<Rightarrow> clip_state \<Rightarrow> bool" where
  "clip_typed L s \<longleftrightarrow> resources_ok L (ct_devices s) (ct_zigbee s) (ct_lights s) \<and> zigbee_ok (ct_zigbee s)
     \<and> model_ok (b_modelId (clip_bridge s))"

text \<open>What the typing depends on.\<close>

definition view :: "clip_state \<Rightarrow> resources \<times> resources \<times> resources \<times> string" where
  "view s = (ct_devices s, ct_zigbee s, ct_lights s, b_modelId (clip_bridge s))"

lemma typed_view: "view s' = view s \<Longrightarrow> clip_typed L s' = clip_typed L s"
  by (simp add: view_def clip_typed_def)

lemma view_resources: "view s' = view s \<Longrightarrow> ct_devices s' = ct_devices s \<and> ct_zigbee s' = ct_zigbee s \<and> ct_lights s' = ct_lights s"
  by (simp add: view_def)

lemma on_bridge_read: "clip_bridge (on_bridge f s) = f (clip_bridge s)"
  by (simp add: clip_bridge_def on_bridge_def on_store_def upd_bridge_def)

lemma view_changes [simp]:
  "view (on_group g f' s) = view s" "view (emit_output out s) = view s" "view (tell b msg s) = view s"
  "view (tell_later b msg s) = view s" "view (s\<lparr>ct_updatingWhitelist := b\<rparr>) = view s"
  "view (s\<lparr>ct_entertainments := rs\<rparr>) = view s" "view (s\<lparr>ct_zoneNodes := rs\<rparr>) = view s"
  "view (s\<lparr>ct_sceneNodes := rs\<rparr>) = view s" "view (s\<lparr>ct_bridgeNode := j\<rparr>) = view s"
  "view (on_store (upd_grouplist gl f'') s) = view s"
  by (simp_all add: view_def clip_bridge_def on_group_def on_store_def upd_group_def upd_grouplist_def emit_output_def
      tell_def tell_later_def)

lemma view_on_bridge [simp]:
  "b_modelId (f (clip_bridge s)) = b_modelId (clip_bridge s) \<Longrightarrow> view (on_bridge f s) = view s"
  by (simp add: view_def on_bridge_read) (simp add: on_bridge_def on_store_def)

lemma view_change_zone [simp]: "view (change_zone i f s) = view s"
  by (simp add: change_zone_def)

lemmas typed_changes [simp] = view_changes[THEN typed_view] view_on_bridge[THEN typed_view] view_change_zone[THEN typed_view]

lemma view_fold: "(\<And>x s. view (f x s) = view s) \<Longrightarrow> view (fold f xs s) = view s"
  by (induction xs arbitrary: s) auto

lemma model_accepted: "model_ok (b_modelId b) \<Longrightarrow> \<not> status_throws b"
  by (auto simp: model_ok_def status_throws_def IsValidModelId_r_def split: option.splits sum.splits)

lemma typed_status: "clip_typed L s \<Longrightarrow> \<not> status_throws (clip_bridge s)"
  by (simp add: clip_typed_def model_accepted)

section \<open>References that stay\<close>

text \<open>What a device says of the resources it serves.\<close>

definition services_view :: "resources \<Rightarrow> (string \<times> json list option) list" where
  "services_view ds = map (\<lambda>(k, d). (k, services_of d)) ds"

lemma search_first_map: "search_first p (map f xs) = map_option (map_option f) (search_first (\<lambda>x. p (f x)) xs)"
  by (induction xs) (auto split: option.split bool.split)

lemma services_id:
  assumes "services_view ds' = services_view ds"
  shows "GetDeviceIdFromServiceReferenceId ds' i = GetDeviceIdFromServiceReferenceId ds i"
proof -
  let ?p = "\<lambda>(k :: string, ss). Option.bind ss (\<lambda>ss. Option.bind (search_first (service_refers i) ss) (\<lambda>r. Some (r \<noteq> None)))"
  have p: "(\<lambda>x. ?p (case x of (k, d) \<Rightarrow> (k, services_of d))) = (\<lambda>(k, d). device_refers i d)"
    by (simp add: fun_eq_iff device_refers_def)
  have "GetDeviceIdFromServiceReferenceId ds i
      = map_option (\<lambda>r. case r of Some (k, ss) \<Rightarrow> k | None \<Rightarrow> []) (search_first ?p (services_view ds))" for ds
    unfolding services_view_def search_first_map p
    by (auto simp: GetDeviceIdFromServiceReferenceId_def option.map_comp intro!: map_option_cong split: option.split)
  then show ?thesis using assms by metis
qed

lemma services_lookup: "map_of (services_view ds) k = map_option services_of (map_of ds k)"
  by (induction ds) (auto simp: services_view_def)

lemma services_reference:
  assumes "services_view ds' = services_view ds"
  shows "GetDeviceReferenceIdFromReferenceType L ds' k ty = GetDeviceReferenceIdFromReferenceType L ds k ty"
proof -
  have "map_option services_of (map_of ds' k) = map_option services_of (map_of ds k)"
    using assms by (simp flip: services_lookup)
  then show ?thesis
    by (cases "map_of ds' k"; cases "map_of ds k") (simp_all add: GetDeviceReferenceIdFromReferenceType_def)
qed

lemma services_reachable:
  "services_view ds' = services_view ds \<Longrightarrow> light_reachable L ds' zs i = light_reachable L ds zs i"
  by (simp add: light_reachable_def GetZigbeeConnectivityIdFromLightId_def related_id_def services_id[of ds' ds]
      services_reference[of ds' ds] cong: if_cong)

lemma status_reachable:
  assumes "reachable_known L ds zs i"
    "\<And>k zc. map_of zs k = Some zc \<Longrightarrow> IsAttributeSet zc ''status'' \<Longrightarrow> \<exists>zc'. map_of zs' k = Some zc' \<and> IsAttributeSet zc' ''status''"
  shows "reachable_known L ds zs' i"
proof -
  obtain k zc where "GetZigbeeConnectivityIdFromLightId L ds i = Some k" "map_of zs k = Some zc" "IsAttributeSet zc ''status''"
    using assms(1) by (auto simp: reachable_known_def light_reachable_def element_def IsAttributeSet_def split: bind_splits)
  then show ?thesis
    using assms(2) by (fastforce simp: reachable_known_def light_reachable_def element_def IsAttributeSet_def)
qed

lemma lights_stay:
  assumes "lights_ok L ds zs ls" "\<And>i. reachable_known L ds zs i \<Longrightarrow> reachable_known L ds' zs' i"
  shows "lights_ok L ds' zs' ls"
  using assms by (auto simp: lights_ok_def list_all_iff)

lemma updated_all: "list_all P kvs \<Longrightarrow> P (k, v) \<Longrightarrow> list_all P (AList.update k v kvs)"
  by (induction kvs) auto

lemma deleted_all: "list_all P kvs \<Longrightarrow> list_all P (AList.delete k kvs)"
  by (induction kvs) auto

section \<open>Well-typed resources of an event\<close>

text \<open>The connectivity of the device behind a stream proxy is known, if there is one.\<close>

definition proxy_uri :: "json_lib \<Rightarrow> json \<Rightarrow> string" where
  "proxy_uri L node = (case json_find ''node'' (as_node (GetAttributeValue node ''stream_proxy'')) of
     Some n \<Rightarrow> (case json_find ''rid'' (as_node n) of Some r \<Rightarrow> as_string L r | None \<Rightarrow> []) | None \<Rightarrow> [])"

definition proxy_ok :: "json_lib \<Rightarrow> json \<Rightarrow> clip_state \<Rightarrow> bool" where
  "proxy_ok L node s \<longleftrightarrow> (case related_id L (ct_devices s) ''zigbee_connectivity'' (proxy_uri L node) of
     None \<Rightarrow> False | Some z \<Rightarrow> z = [] \<or> map_of (ct_zigbee s) z \<noteq> None)"

text \<open>
  A resource that is added or updated follows the schema. A device may only be added or deleted, and a
  connectivity deleted, if every known light still leads to a connectivity.
\<close>

definition add_ok :: "json_lib \<Rightarrow> resource_kind \<Rightarrow> json \<Rightarrow> clip_state \<Rightarrow> bool" where
  "add_ok L k n s = (case k of
      RDevice \<Rightarrow> device_ok L n
        \<and> lights_ok L (AList.update (node_id L n) n (ct_devices s)) (ct_zigbee s) (ct_lights s)
    | RZigbee \<Rightarrow> connectivity_ok n
    | RLight \<Rightarrow> light_ok n \<and> reachable_known L (ct_devices s) (ct_zigbee s) (node_id L n)
    | RZone \<Rightarrow> zone_ok n
    | RConfiguration \<Rightarrow> configuration_ok n \<and> proxy_ok L n s
    | RScene \<Rightarrow> scene_ok n
    | _ \<Rightarrow> True)"

definition update_ok :: "json_lib \<Rightarrow> resource_kind \<Rightarrow> json \<Rightarrow> clip_state \<Rightarrow> bool" where
  "update_ok L k n s = (case k of
      RLight \<Rightarrow> (case map_of (ct_lights s) (node_id L n) of None \<Rightarrow> True | Some cur \<Rightarrow> update_fits cur n)
    | RZone \<Rightarrow> zone_ok n
    | RConfiguration \<Rightarrow> configuration_ok n \<and> proxy_ok L n s
    | RScene \<Rightarrow> scene_ok n
    | _ \<Rightarrow> True)"

definition delete_ok :: "json_lib \<Rightarrow> resource_kind \<Rightarrow> json \<Rightarrow> clip_state \<Rightarrow> bool" where
  "delete_ok L k n s = (case k of
      RDevice \<Rightarrow> lights_ok L (AList.delete (node_id L n) (ct_devices s)) (ct_zigbee s) (ct_lights s)
    | RZigbee \<Rightarrow> lights_ok L (ct_devices s) (AList.delete (node_id L n) (ct_zigbee s)) (ct_lights s)
    | _ \<Rightarrow> True)"

definition item_ok :: "json_lib \<Rightarrow> clip_item \<Rightarrow> clip_state \<Rightarrow> bool" where
  "item_ok L item s = (case item of (k, eventType, n) \<Rightarrow> node_id L n \<noteq> []
     \<and> (eventType = ''add'' \<longrightarrow> add_ok L k n s) \<and> (eventType = ''update'' \<longrightarrow> update_ok L k n s)
     \<and> (eventType = ''delete'' \<longrightarrow> delete_ok L k n s))"

fun items_ok :: "json_lib \<Rightarrow> clip_item list \<Rightarrow> clip_state \<Rightarrow> bool" where
  "items_ok L [] s = True"
| "items_ok L (item # items) s = (item_ok L item s
     \<and> (case handle_item L item s of None \<Rightarrow> True | Some s1 \<Rightarrow> items_ok L items s1))"

text \<open>An event: the scenes, which come last, depend on nothing that is checked.\<close>

definition event_ok :: "json_lib \<Rightarrow> clip_item list \<Rightarrow> clip_state \<Rightarrow> bool" where
  "event_ok L items s \<longleftrightarrow> items_ok L (before_configurations items @ items_of RConfiguration items) s
     \<and> list_all (\<lambda>(k, e, n). node_id L n \<noteq> [] \<and> scene_ok n) (items_of RScene items)"

lemma named: "node_id L n \<noteq> [] \<Longrightarrow> \<exists>v. element ''id'' n = Some v \<and> as_string L v = node_id L n"
  by (auto simp: node_id_def element_def DeserializeString_def split: option.splits)

lemma typed_parts:
  assumes "clip_typed L s"
  shows "devices_ok L (ct_devices s)" "lights_ok L (ct_devices s) (ct_zigbee s) (ct_lights s)"
    "resources_ok L (ct_devices s) (ct_zigbee s) (ct_lights s)" "zigbee_ok (ct_zigbee s)"
    "model_ok (b_modelId (clip_bridge s))"
  using assms by (simp_all add: clip_typed_def resources_ok_def)

section \<open>Devices and connectivity\<close>

definition handled_well :: "json_lib \<Rightarrow> clip_state option \<Rightarrow> bool" where
  "handled_well L r \<longleftrightarrow> (\<exists>s'. r = Some s' \<and> clip_typed L s')"

lemma handled_view: "r = Some s' \<Longrightarrow> view s' = view s \<Longrightarrow> clip_typed L s \<Longrightarrow> handled_well L r"
  using typed_view[of s' s L] by (simp add: handled_well_def)

lemma has_service_found:
  assumes "device_ok L d"
  shows "\<exists>b. has_service L T d = Some b"
proof -
  obtain ss where ss: "services_of d = Some ss" "list_all service_ok ss" using device_services[OF assms] by blast
  then show ?thesis using services_searched(3)[OF ss(2), of L "set T"] by (auto simp: has_service_def)
qed

lemma typed_fields:
  "clip_typed L (s\<lparr>ct_devices := ds\<rparr>) \<longleftrightarrow> resources_ok L ds (ct_zigbee s) (ct_lights s) \<and> zigbee_ok (ct_zigbee s)
     \<and> model_ok (b_modelId (clip_bridge s))"
  "clip_typed L (s\<lparr>ct_zigbee := zs\<rparr>) \<longleftrightarrow> resources_ok L (ct_devices s) zs (ct_lights s) \<and> zigbee_ok zs
     \<and> model_ok (b_modelId (clip_bridge s))"
  "clip_typed L (s\<lparr>ct_lights := ls\<rparr>) \<longleftrightarrow> resources_ok L (ct_devices s) (ct_zigbee s) ls \<and> zigbee_ok (ct_zigbee s)
     \<and> model_ok (b_modelId (clip_bridge s))"
  by (simp_all add: clip_typed_def clip_bridge_def)

lemma AddDevice_typed:
  assumes "clip_typed L s" "node_id L n \<noteq> []" "add_ok L RDevice n s"
  shows "handled_well L (AddDevice L n s)"
proof -
  have d: "device_ok L n" "lights_ok L (AList.update (node_id L n) n (ct_devices s)) (ct_zigbee s) (ct_lights s)"
    using assms(3) by (simp_all add: add_ok_def)
  obtain v where v: "element ''id'' n = Some v" "as_string L v = node_id L n" using named[OF assms(2)] by blast
  obtain b where b: "has_service L [''light'', ''bridge''] n = Some b" using has_service_found[OF d(1)] by blast
  have "clip_typed L (s\<lparr>ct_devices := AList.update (node_id L n) n (ct_devices s)\<rparr>)"
    using assms(1) d typed_parts[OF assms(1)] by (simp add: typed_fields resources_ok_def devices_ok_def updated_all)
  then show ?thesis
    unfolding AddDevice_def handled_well_def by (cases b) (simp_all add: v b assms(1))
qed

lemma DeleteDevice_typed:
  assumes "clip_typed L s" "node_id L n \<noteq> []" "delete_ok L RDevice n s"
  shows "handled_well L (DeleteDevice L n s)"
  using named[OF assms(2)] assms(3) typed_parts[OF assms(1)]
  unfolding DeleteDevice_def handled_well_def
  by (auto simp: typed_fields resources_ok_def devices_ok_def deleted_all delete_ok_def)

lemma DeleteZigbee_typed:
  assumes "clip_typed L s" "node_id L n \<noteq> []" "delete_ok L RZigbee n s"
  shows "handled_well L (DeleteZigbeeConnectivity L n s)"
  using named[OF assms(2)] assms(3) typed_parts[OF assms(1)]
  unfolding DeleteZigbeeConnectivity_def handled_well_def
  by (auto simp: typed_fields resources_ok_def zigbee_ok_def deleted_all delete_ok_def)

lemma updated_lookup: "map_of (AList.update k v kvs) i = (if i = k then Some v else map_of kvs i)"
  by (simp add: update_conv)

text \<open>A connectivity that has a status may be set.\<close>

lemma typed_zigbee:
  assumes "clip_typed L s" "IsAttributeSet zc ''status''"
  shows "clip_typed L (s\<lparr>ct_zigbee := AList.update i zc (ct_zigbee s)\<rparr>)"
proof -
  have "lights_ok L (ct_devices s) (AList.update i zc (ct_zigbee s)) (ct_lights s)"
  proof (rule lights_stay[OF typed_parts(2)[OF assms(1)]])
    fix j
    assume "reachable_known L (ct_devices s) (ct_zigbee s) j"
    then show "reachable_known L (ct_devices s) (AList.update i zc (ct_zigbee s)) j"
      by (rule status_reachable) (auto simp: updated_lookup assms(2))
  qed
  moreover have "zigbee_ok (AList.update i zc (ct_zigbee s))"
    using typed_parts(4)[OF assms(1)] assms(2) by (simp add: zigbee_ok_def updated_all)
  ultimately show ?thesis using typed_parts[OF assms(1)] by (simp add: typed_fields resources_ok_def)
qed

lemma AddZigbee_typed:
  assumes "clip_typed L s" "node_id L n \<noteq> []" "connectivity_ok n"
  shows "handled_well L (AddZigbeeConnectivity L n s)"
proof -
  obtain v where v: "element ''id'' n = Some v" "as_string L v = node_id L n" using named[OF assms(2)] by blast
  obtain r where r: "search_first (\<lambda>(k, d). device_refers (node_id L n) d) (ct_devices s) = Some r"
    using devices_searched[OF typed_parts(1)[OF assms(1)]] by blast
  have "clip_typed L (s\<lparr>ct_zigbee := AList.update (node_id L n) n (ct_zigbee s)\<rparr>)"
    using typed_zigbee[OF assms(1)] assms(3) by (simp add: connectivity_ok_def)
  then show ?thesis
    unfolding AddZigbeeConnectivity_def handled_well_def by (cases r) (simp_all add: v r assms(1))
qed

lemma UpdateZigbee_typed:
  assumes "clip_typed L s" "node_id L n \<noteq> []"
  shows "handled_well L (UpdateZigbeeConnectivity L n s)"
proof -
  obtain v where v: "element ''id'' n = Some v" "as_string L v = node_id L n" using named[OF assms(2)] by blast
  show ?thesis
  proof (cases "map_of (ct_zigbee s) (node_id L n) = None \<or> json_find ''status'' n = None")
    case True
    then show ?thesis
      unfolding UpdateZigbeeConnectivity_def handled_well_def using v assms(1) by (auto split: option.splits)
  next
    case False
    then obtain cur status where cur: "map_of (ct_zigbee s) (node_id L n) = Some cur" "json_find ''status'' n = Some status"
      by auto
    then have "IsAttributeSet cur ''status''"
      using typed_parts(4)[OF assms(1)] assms(2) map_of_SomeD by (fastforce simp: zigbee_ok_def list_all_iff)
    then obtain old where old: "json_find ''status'' cur = Some old" by (auto simp: IsAttributeSet_def)
    obtain cur' where cur': "set_element ''status'' (\<lambda>_. Some (JString (as_string L status))) cur = Some cur'"
      using set_element_total[OF old, of "\<lambda>_. Some (JString (as_string L status))"] by auto
    let ?s = "s\<lparr>ct_zigbee := AList.update (node_id L n) cur' (ct_zigbee s)\<rparr>"
    have "IsAttributeSet cur' ''status''" using set_element_found(1)[OF cur'] old by (simp add: IsAttributeSet_def)
    then have typed: "clip_typed L ?s" using typed_zigbee[OF assms(1)] by simp
    then obtain i where i: "GetLightIdFromZigbeeConnectivityId L (ct_devices ?s) (node_id L n) = Some i"
      using related_found[OF typed_parts(1)] by (fastforce simp: GetLightIdFromZigbeeConnectivityId_def)
    have "view (tell b msg (fold (\<lambda>g. on_group g (f g)) gs ?s)) = view ?s" for b msg f gs
      using view_fold[of "\<lambda>g. on_group g (f g)"] by simp
    then have "clip_typed L (tell b msg (fold (\<lambda>g. on_group g (f g)) gs ?s))" for b msg f gs
      using typed typed_view by blast
    then show ?thesis
      unfolding UpdateZigbeeConnectivity_def handled_well_def
      by (cases "i = []") (simp_all add: v cur cur' i[simplified] Let_def typed)
  qed
qed

text \<open>A device whose services are what they were may be set.\<close>

lemma services_updated:
  assumes "map_of ds i = Some cur" "services_of d = services_of cur"
  shows "services_view (AList.update i d ds) = services_view ds"
  using assms by (induction ds) (auto simp: services_view_def)

lemma renamed_device:
  assumes "device_ok L d" "set_element ''metadata'' (set_element ''name'' f) d = Some d'" "\<And>v. f v \<noteq> None"
  shows "device_ok L d' \<and> services_of d' = services_of d"
proof -
  have same: "json_find m d' = json_find m d" if "m \<noteq> ''metadata''" for m using set_element_found(2)[OF assms(2) that] .
  have "IsAttributeSet (GetAttributeValue d' ''metadata'') ''name''"
  proof -
    have "json_find ''metadata'' d' = Option.bind (json_find ''metadata'' d) (set_element ''name'' f)"
      using set_element_found(1)[OF assms(2)] .
    moreover have "IsAttributeSet (GetAttributeValue d ''metadata'') ''name''" using assms(1) by (simp add: device_ok_def)
    ultimately obtain m m' where m: "json_find ''metadata'' d = Some m" "set_element ''name'' f m = Some m'"
      "json_find ''metadata'' d' = Some m'" "IsAttributeSet m ''name''"
      using set_element_total[where f = f and n = "''name''"] assms(3)
      by (fastforce simp: GetAttributeValue_def IsAttributeSet_def split: option.splits)
    show ?thesis using set_element_found(1)[OF m(2)] m(3,4) assms(3) by (auto simp: GetAttributeValue_def IsAttributeSet_def)
  qed
  then show ?thesis
    using assms(1) same[of "''id''"] same[of "''services''"] same[of "''product_data''"]
    by (simp add: device_ok_def services_of_def element_def IsAttributeSet_def GetAttributeValue_def)
qed

lemma typed_device:
  assumes "clip_typed L s" "map_of (ct_devices s) i = Some cur" "device_ok L d" "services_of d = services_of cur"
  shows "clip_typed L (s\<lparr>ct_devices := AList.update i d (ct_devices s)\<rparr>)"
proof -
  have "light_reachable L (AList.update i d (ct_devices s)) (ct_zigbee s) j = light_reachable L (ct_devices s) (ct_zigbee s) j"
    for j using services_reachable[OF services_updated[OF assms(2,4)]] .
  then have "lights_ok L (AList.update i d (ct_devices s)) (ct_zigbee s) (ct_lights s)"
    using lights_stay[OF typed_parts(2)[OF assms(1)]] by (simp add: reachable_known_def)
  then show ?thesis
    using typed_parts[OF assms(1)] assms(3) by (simp add: typed_fields resources_ok_def devices_ok_def updated_all)
qed

lemma UpdateDevice_typed:
  assumes "clip_typed L s" "node_id L n \<noteq> []"
  shows "handled_well L (UpdateDevice L n s)"
proof -
  obtain v where v: "element ''id'' n = Some v" "as_string L v = node_id L n" using named[OF assms(2)] by blast
  show ?thesis
  proof (cases "map_of (ct_devices s) (node_id L n)")
    case None
    then show ?thesis unfolding UpdateDevice_def handled_well_def by (simp add: v assms(1))
  next
    case (Some cur)
    have cur: "device_ok L cur" using device_known[OF typed_parts(1)[OF assms(1)] Some] .
    obtain b where b: "has_service L [''bridge''] cur = Some b" using has_service_found[OF cur] by blast
    show ?thesis
    proof (cases "json_find ''metadata'' n")
      case None
      then show ?thesis unfolding UpdateDevice_def handled_well_def by (simp add: v Some b assms(1))
    next
      case (Some metadata)
      define name where "name = (if metadata = JNumber 0 then [] else DeserializeString L metadata ''name'' [])"
      have "IsAttributeSet (GetAttributeValue cur ''metadata'') ''name''" using cur by (simp add: device_ok_def)
      then obtain m old where "json_find ''metadata'' cur = Some m" "json_find ''name'' m = Some old"
        by (auto simp: GetAttributeValue_def IsAttributeSet_def split: option.splits)
      then obtain d where d: "set_element ''metadata'' (set_element ''name'' (\<lambda>_. Some (JString name))) cur = Some d"
        using set_element_total set_element_total[of "''name''" m old "\<lambda>_. Some (JString name)"] by fastforce
      let ?s = "s\<lparr>ct_devices := AList.update (node_id L n) d (ct_devices s)\<rparr>"
      have "clip_typed L ?s"
        using renamed_device[OF cur d] typed_device[OF assms(1) \<open>map_of (ct_devices s) (node_id L n) = Some cur\<close>] by simp
      then have typed: "clip_typed L (emit_output out (on_bridge (\<lambda>b. b\<lparr>b_name := name\<rparr>) ?s))" for out
        using typed_view[of "emit_output out (on_bridge (\<lambda>b. b\<lparr>b_name := name\<rparr>) ?s)" ?s] by simp
      show ?thesis
      proof (cases "\<not> b \<or> b_name (clip_bridge s) = name")
        case True
        then show ?thesis unfolding UpdateDevice_def handled_well_def
          by (simp add: v Some b assms(1) \<open>map_of (ct_devices s) (node_id L n) = Some cur\<close> Let_def name_def)
      next
        case False
        then show ?thesis unfolding UpdateDevice_def handled_well_def
          using typed by (simp add: v Some b d \<open>map_of (ct_devices s) (node_id L n) = Some cur\<close> Let_def flip: name_def)
      qed
    qed
  qed
qed

section \<open>Entertainment resources and lights\<close>

lemma entertainment_typed:
  assumes "clip_typed L s" "node_id L n \<noteq> []"
  shows "handled_well L (AddEntertainment L n s)" "handled_well L (DeleteEntertainment L n s)"
  using named[OF assms(2)] assms(1) typed_view[OF view_changes(6)]
  unfolding AddEntertainment_def DeleteEntertainment_def handled_well_def by auto

lemma AddLight_typed:
  assumes "clip_typed L s" "node_id L n \<noteq> []" "add_ok L RLight n s"
  shows "handled_well L (AddLight_node L n s)"
  using named[OF assms(2)] assms(3) typed_parts[OF assms(1)]
  unfolding AddLight_node_def handled_well_def
  by (auto simp: typed_fields resources_ok_def lights_ok_def updated_all add_ok_def)

lemma DeleteLight_typed:
  assumes "clip_typed L s" "node_id L n \<noteq> []"
  shows "handled_well L (DeleteLight L n s)"
proof -
  obtain v where v: "element ''id'' n = Some v" "as_string L v = node_id L n" using named[OF assms(2)] by blast
  let ?s = "s\<lparr>ct_lights := AList.delete (node_id L n) (ct_lights s)\<rparr>"
  have s: "clip_typed L ?s"
    using typed_parts[OF assms(1)] by (simp add: typed_fields resources_ok_def lights_ok_def deleted_all)
  have v1: "view (fold (\<lambda>g. on_group g (f g)) gs ?s) = view ?s" for f gs
    using view_fold[of "\<lambda>g. on_group g (f g)"] by simp
  then have "view (emit_output out (fold (\<lambda>g. on_group g (f g)) gs ?s)) = view ?s" for out f gs by simp
  then have "clip_typed L (emit_output out (fold (\<lambda>g. on_group g (f g)) gs ?s))"
    "clip_typed L (fold (\<lambda>g. on_group g (f g)) gs ?s)" for out f gs
    using s v1 typed_view by blast+
  then show ?thesis unfolding DeleteLight_def handled_well_def by (simp add: v Let_def)
qed

lemma update_groups_view: "view (snd (snd (update_groups_light i gs (c, u, s)))) = view s"
proof (induction gs arbitrary: c u s)
  case (Cons g gs)
  show ?case
    by (cases "List.find (\<lambda>l. l_id l = i) (g_physicalLights (clip_group s g))")
      (simp_all add: Cons.IH case_prod_unfold Let_def)
qed simp

lemma member_there: "IsAttributeSet (GetAttributeValue cur a) b \<Longrightarrow> \<exists>v. member_of a b cur = Some v \<and> json_find b (GetAttributeValue cur a) = Some v"
  by (auto simp: IsAttributeSet_def GetAttributeValue_def member_of_def element_def split: option.splits)

lemma fits_member:
  assumes "update_fits cur n" "json_find a n = Some p" "json_find b p = Some v"
    "(a, b) \<in> {(''metadata'', ''name''), (''on'', ''on''), (''dimming'', ''brightness''), (''color'', ''xy''), (''dynamics'', ''status'')}"
  shows "is_node p" "\<exists>v. member_of a b cur = Some v \<and> json_find b (GetAttributeValue cur a) = Some v"
proof -
  have *: "is_node p \<and> (IsAttributeSet p b \<longrightarrow> has_members [b] (GetAttributeValue cur a))"
    using assms(1,2,4) unfolding update_fits_def list_all_iff by fastforce
  then show "is_node p" by simp
  have "IsAttributeSet p b" using assms(3) by (simp add: IsAttributeSet_def)
  then show "\<exists>v. member_of a b cur = Some v \<and> json_find b (GetAttributeValue cur a) = Some v"
    using * member_there by simp
qed

lemma color_change_read:
  assumes "update_fits cur n" "json_find ''color'' n = Some p" "json_find ''xy'' p = Some xy"
  shows "\<exists>c. (do { newXY \<leftarrow> read_xy L (as_node xy); cur \<leftarrow> member_of ''color'' ''xy'' cur;
     map_option (\<lambda>_. Change_color newXY) (read_xy L cur) }) = Some c"
proof -
  obtain v where v: "member_of ''color'' ''xy'' cur = Some v" "json_find ''xy'' (GetAttributeValue cur ''color'') = Some v"
    using fits_member(2)[OF assms] by auto
  have p: "part_ok ''xy'' [''x'', ''y''] p" "part_ok ''xy'' [''x'', ''y''] (GetAttributeValue cur ''color'')"
    using assms(1,2) by (simp_all add: update_fits_def GetAttributeValue_def)
  obtain a b where "read_xy L xy = Some a" "read_xy L v = Some b"
    using xy_read[OF part_found(2)[OF p(1) assms(3)]] xy_read[OF part_found(2)[OF p(2) v(2)]] by blast
  then show ?thesis using v(1) part_found(1)[OF p(1) assms(3)] by simp
qed

lemma change_read:
  assumes "update_fits cur n"
  shows "\<exists>c. read_light_change L cur n = Some c"
proof -
  note fits = fits_member[OF assms]
  consider p where "json_find ''metadata'' n = Some p"
    | p where "json_find ''metadata'' n = None" "json_find ''on'' n = Some p"
    | p where "json_find ''metadata'' n = None" "json_find ''on'' n = None" "json_find ''dimming'' n = Some p"
    | p where "json_find ''metadata'' n = None" "json_find ''on'' n = None" "json_find ''dimming'' n = None" "json_find ''color'' n = Some p"
    | "json_find ''metadata'' n = None" "json_find ''on'' n = None" "json_find ''dimming'' n = None" "json_find ''color'' n = None"
    by fastforce
  then show ?thesis
  proof cases
    case (1 p)
    have "is_node p" using assms 1 by (simp add: update_fits_def)
    then show ?thesis using 1 fits(2)[of "''metadata''" p "''name''"]
      by (cases "json_find ''name'' p") (auto simp: read_light_change_def)
  next
    case (2 p)
    then show ?thesis using fits(2)[of "''on''" p "''on''"] by (cases "json_find ''on'' p") (auto simp: read_light_change_def)
  next
    case (3 p)
    then show ?thesis using fits(2)[of "''dimming''" p "''brightness''"]
      by (cases "json_find ''brightness'' p") (auto simp: read_light_change_def)
  next
    case (4 p)
    then show ?thesis using color_change_read[OF assms, of p]
      by (cases "json_find ''xy'' p") (simp_all add: read_light_change_def)
  next
    case 5
    show ?thesis
    proof (cases "json_find ''dynamics'' n")
      case (Some p)
      then show ?thesis using 5 fits(2)[of "''dynamics''" p "''status''"]
        by (cases "json_find ''status'' p") (auto simp: read_light_change_def)
    qed (use 5 in \<open>simp add: read_light_change_def\<close>)
  qed
qed

lemma UpdateLight_typed:
  assumes "clip_typed L s" "node_id L n \<noteq> []" "update_ok L RLight n s"
  shows "handled_well L (UpdateLight L n s)"
proof -
  obtain v where v: "element ''id'' n = Some v" "as_string L v = node_id L n" using named[OF assms(2)] by blast
  show ?thesis
  proof (cases "map_of (ct_lights s) (node_id L n)")
    case None
    then show ?thesis unfolding UpdateLight_def handled_well_def by (simp add: v assms(1))
  next
    case (Some cur)
    obtain c where c: "read_light_change L cur n = Some c"
      using change_read assms(3) Some by (fastforce simp: update_ok_def)
    obtain c1 u s1 where s1: "update_groups_light (node_id L n) (clip_groups s) (c, False, s) = (c1, u, s1)"
      by (cases "update_groups_light (node_id L n) (clip_groups s) (c, False, s)") auto
    have "view s1 = view s" using update_groups_view[of "node_id L n" "clip_groups s" c False s] s1 by simp
    then have "view (tell_later p m (tell_later q m' (on_bridge (\<lambda>b. b\<lparr>b_zones := f (b_zones b)\<rparr>) s1))) = view s" for p m q m' f
      by simp
    then have "clip_typed L (tell_later p m (tell_later q m' (on_bridge (\<lambda>b. b\<lparr>b_zones := f (b_zones b)\<rparr>) s1)))" for p m q m' f
      using assms(1) typed_view by blast
    then show ?thesis unfolding UpdateLight_def handled_well_def by (simp add: v Some c s1 Let_def)
  qed
qed

section \<open>Zones, scenes and the bridge\<close>

lemma AddZone_typed:
  assumes "clip_typed L s" "zone_ok n"
  shows "handled_well L (AddZone L n s)"
proof -
  obtain gl where gl: "grouped_light_id L n = Some gl" using grouped_light_found[OF assms(2)] by blast
  obtain r where r: "ParseZoneLights L (ct_devices s) (ct_zigbee s) (ct_lights s) n = Some r"
    using zone_lights_parsed[OF typed_parts(3)[OF assms(1)] assms(2)] by blast
  show ?thesis
  proof (cases "DeserializeString L n ''id'' [] = []")
    case True
    then show ?thesis unfolding AddZone_def handled_well_def by (simp add: Let_def case_prod_unfold assms(1))
  next
    case False
    show ?thesis unfolding AddZone_def handled_well_def
      by (simp add: Let_def case_prod_unfold False gl r assms(1))
  qed
qed

lemma UpdateZone_typed:
  assumes "clip_typed L s" "zone_ok n"
  shows "handled_well L (UpdateZone L n s)"
proof -
  obtain ok ls where r: "ParseZoneLights L (ct_devices s) (ct_zigbee s) (ct_lights s) n = Some (ok, ls)"
    using zone_lights_parsed[OF typed_parts(3)[OF assms(1)] assms(2)] by fastforce
  show ?thesis
  proof (cases "DeserializeString L n ''id'' [] = []
      \<or> List.find (zone_is (DeserializeString L n ''id'' [])) (b_zones (clip_bridge s)) = None")
    case True
    then show ?thesis unfolding UpdateZone_def handled_well_def by (auto simp: Let_def assms(1))
  next
    case False
    then show ?thesis unfolding UpdateZone_def handled_well_def
      by (auto simp: Let_def case_prod_unfold r assms(1))
  qed
qed

lemma DeleteZone_typed:
  assumes "clip_typed L s" "node_id L n \<noteq> []"
  shows "handled_well L (DeleteZone L n s)"
proof -
  obtain v where v: "element ''id'' n = Some v" "as_string L v = node_id L n" using named[OF assms(2)] by blast
  show ?thesis unfolding DeleteZone_def handled_well_def by (simp add: v assms(1))
qed

lemma scene_typed:
  assumes "clip_typed L s" "scene_ok n"
  shows "handled_well L (AddScene L n s)" "handled_well L (UpdateScene L n s)"
proof -
  note parsed = scene_parsed[OF typed_parts(3)[OF assms(1)] assms(2)]
  obtain u sc where sc: "Clip_ParseScene L (ct_devices s) (ct_zigbee s) (ct_lights s) n None = Some (u, sc)"
    using parsed by blast
  show "handled_well L (AddScene L n s)"
    unfolding AddScene_def handled_well_def
    by (cases "GetZoneFromScene L n s"; cases sc) (simp_all add: sc Let_def assms(1))
  show "handled_well L (UpdateScene L n s)"
  proof (cases "GetZoneFromScene L n s")
    case None
    then show ?thesis unfolding UpdateScene_def handled_well_def by (simp add: assms(1))
  next
    case (Some z)
    show ?thesis
    proof (cases "List.find (\<lambda>sc. s_id sc = DeserializeString L n ''id'' []) (g_scenes (z_group z))")
      case None
      then show ?thesis unfolding UpdateScene_def handled_well_def by (simp add: Some assms(1) Let_def)
    next
      case (Some old)
      obtain u sc where "Clip_ParseScene L (ct_devices s) (ct_zigbee s) (ct_lights s) n (Some old) = Some (u, sc)"
        using parsed by blast
      then show ?thesis unfolding UpdateScene_def handled_well_def
        by (simp add: \<open>GetZoneFromScene L n s = Some z\<close> Some Let_def assms(1))
    qed
  qed
qed

lemma DeleteScene_typed: "clip_typed L s \<Longrightarrow> handled_well L (DeleteScene L n s)"
  unfolding DeleteScene_def handled_well_def
  by (cases "GetZoneFromScene L n s")
    (simp_all add: Let_def)

lemma service_type_found:
  assumes "device_ok L d"
  shows "\<exists>b e. GetServiceByType L es ty d = Some (b, e)"
proof (cases "json_find ''services'' d")
  case (Some v)
  show ?thesis
  proof (cases v)
    case (JArray ss)
    then have ss: "list_all service_ok ss" using assms Some by (simp add: device_ok_def GetAttributeValue_def)
    obtain r where r: "search_first (\<lambda>s. map_option (\<lambda>t. t = JString ty) (element ''rtype'' (as_node s))) ss = Some r"
      using services_searched(2)[OF ss] by blast
    have "\<exists>v. element ''rid'' (as_node s) = Some v" if "r = Some s" for s
      using that ss r search_first_found service_lookup by (fastforce simp: list_all_iff)
    then show ?thesis using Some JArray r by (cases r) (auto simp: GetServiceByType_def)
  qed (use Some in \<open>auto simp: GetServiceByType_def\<close>)
qed (auto simp: GetServiceByType_def)

lemma AddBridge_typed:
  assumes "clip_typed L s" "node_id L n \<noteq> []"
  shows "handled_well L (AddBridge_node L n s)"
proof -
  obtain v where v: "element ''id'' n = Some v" "as_string L v = node_id L n" using named[OF assms(2)] by blast
  let ?s = "s\<lparr>ct_bridgeNode := n\<rparr>"
  have s: "clip_typed L ?s" using typed_view[of ?s s] assms(1) by simp
  obtain k where k: "GetDeviceIdFromServiceReferenceId (ct_devices s) (node_id L n) = Some k"
    and d: "k = [] \<or> (\<exists>d. map_of (ct_devices s) k = Some d \<and> device_ok L d)"
    using device_id_found[OF typed_parts(1)[OF assms(1)]] by blast
  show ?thesis
  proof (cases "k = []")
    case True
    then show ?thesis unfolding AddBridge_node_def handled_well_def by (simp add: v k assms(1) Let_def)
  next
    case False
    then obtain d where d: "map_of (ct_devices s) k = Some d" "device_ok L d" using d by blast
    obtain found e where e: "GetServiceByType L (ct_entertainments s) ''entertainment'' d = Some (found, e)"
      using service_type_found[OF d(2)] by fastforce
    define m where "m = (case json_find ''product_data'' d of Some p \<Rightarrow> DeserializeString L p ''model_id'' [] | None \<Rightarrow> [])"
    have m: "model_ok m"
      using d(2) by (auto simp: m_def device_ok_def GetAttributeValue_def model_ok_def split: option.splits)
    have "clip_typed L (on_bridge (\<lambda>b. b\<lparr>b_name := x, b_modelId := m, b_id := i, b_maxNoStreamingSessions := j\<rparr>) ?s)" for x i j
      using s m by (simp add: clip_typed_def on_bridge_read) (simp add: on_bridge_def on_store_def)
    then show ?thesis unfolding AddBridge_node_def handled_well_def
      by (simp add: v k d e False Let_def flip: m_def)
  qed
qed

section \<open>Entertainment configurations\<close>

lemma clip_bridge_group: "clip_bridge (on_group g f s) = clip_bridge s"
  by (simp add: clip_bridge_def on_group_def on_store_def upd_group_def)

lemma busy_typed: "clip_typed L s \<Longrightarrow> \<exists>s'. update_busy s = Some s' \<and> view s' = view s"
  using typed_status[of L s] by (auto simp: update_busy_def Let_def)

lemma owner_view: "view (snd (Clip_GetOwnerName L u ec s)) = view s"
  by (simp add: Clip_GetOwnerName_def split: option.split)

lemma active_typed:
  assumes "clip_typed L s" "configuration_ok n"
  shows "\<exists>p s'. Clip_ParseStreamActive L n g s = Some (p, s') \<and> view s' = view s"
proof -
  have streamer: "\<exists>v. element ''rid'' a = Some v" if "json_find ''active_streamer'' n = Some a" for a
    using that assms(2) by (auto simp: configuration_ok_def part_ok_def element_def IsAttributeSet_def)
  have busy: "\<exists>p s'. Option.bind (update_busy t) (\<lambda>s3. Some (q, s3)) = Some (p, s') \<and> view s' = view s"
    if "view t = view s" for t q
    using busy_typed[of L t] typed_view[OF that] assms(1) that by auto
  show ?thesis
    unfolding Clip_ParseStreamActive_def
    by (cases "json_find ''status'' n"; cases "json_find ''active_streamer'' n")
      (use streamer in \<open>fastforce simp: case_prod_unfold Let_def owner_view intro!: busy\<close>)+
qed

text \<open>What a proxy may enter: an empty connectivity without a name.\<close>

lemma typed_nameless: "clip_typed L s \<Longrightarrow> clip_typed L (s\<lparr>ct_zigbee := ct_zigbee s @ [([], JNode [])]\<rparr>)"
proof -
  assume s: "clip_typed L s"
  have "lights_ok L (ct_devices s) (ct_zigbee s @ [([], JNode [])]) (ct_lights s)"
  proof (rule lights_stay[OF typed_parts(2)[OF s]])
    fix j
    assume "reachable_known L (ct_devices s) (ct_zigbee s) j"
    then show "reachable_known L (ct_devices s) (ct_zigbee s @ [([], JNode [])]) j"
      by (rule status_reachable) (simp add: map_add_def)
  qed
  then show ?thesis using typed_parts[OF s] by (simp add: typed_fields resources_ok_def zigbee_ok_def)
qed

lemma proxy_typed:
  assumes "clip_typed L s" "proxy_ok L n s"
  shows "\<exists>p s'. Clip_ParseStreamProxy L n g s = Some (p, s') \<and> clip_typed L s'
    \<and> ct_devices s' = ct_devices s \<and> ct_lights s' = ct_lights s"
proof (cases "json_find ''stream_proxy'' n = None \<or> json_find ''node'' (as_node (GetAttributeValue n ''stream_proxy'')) = None")
  case True
  then show ?thesis using assms(1)
    by (cases "json_find ''stream_proxy'' n") (auto simp: Clip_ParseStreamProxy_def GetAttributeValue_def Let_def)
next
  case False
  then obtain sp m where sp: "json_find ''stream_proxy'' n = Some sp" "json_find ''node'' (as_node sp) = Some m"
    by (auto simp: GetAttributeValue_def)
  define uri where "uri = proxy_uri L n"
  have uri: "uri = (case json_find ''rid'' (as_node m) of Some r \<Rightarrow> as_string L r | None \<Rightarrow> [])"
    using sp by (simp add: uri_def proxy_uri_def GetAttributeValue_def)
  obtain k where k: "GetDeviceIdFromServiceReferenceId (ct_devices s) uri = Some k"
    and d: "k = [] \<or> (\<exists>d. map_of (ct_devices s) k = Some d \<and> device_ok L d)"
    using device_id_found[OF typed_parts(1)[OF assms(1)]] by blast
  show ?thesis
  proof (cases "k = []")
    case True
    then show ?thesis using assms(1) unfolding Clip_ParseStreamProxy_def by (auto simp: sp Let_def k uri[symmetric])
  next
    case False
    then obtain d where d: "map_of (ct_devices s) k = Some d" using d by blast
    obtain z where z: "GetDeviceReferenceIdFromReferenceType L (ct_devices s) k ''zigbee_connectivity'' = Some z"
      using reference_found[OF typed_parts(1)[OF assms(1)] d] by blast
    have known: "z = [] \<or> map_of (ct_zigbee s) z \<noteq> None"
      using assms(2) k z False by (simp add: proxy_ok_def related_id_def uri_def split: option.splits)
    have frame: "ct_devices (on_group g f t) = ct_devices t" "ct_lights (on_group g f t) = ct_lights t" for f t
      by (simp_all add: on_group_def on_store_def)
    show ?thesis
      using known assms(1) typed_nameless[OF assms(1)] unfolding Clip_ParseStreamProxy_def
      by (cases "map_of (ct_zigbee s) z")
        (auto simp: sp Let_def k d z False uri[symmetric] frame split: option.split)
  qed
qed

lemma proxy_ok_view: "ct_devices s' = ct_devices s \<Longrightarrow> ct_zigbee s' = ct_zigbee s \<Longrightarrow> proxy_ok L n s' = proxy_ok L n s"
  unfolding proxy_ok_def by presburger

lemma config_parsed:
  assumes "clip_typed L s" "configuration_ok n" "proxy_ok L n s"
  shows "\<exists>g s'. ParseEntertainmentConfig L n s = Some (g, s') \<and> clip_typed L s'"
proof -
  obtain h g where al: "alloc_group (Group_new\<lparr>g_id := DeserializeString L n ''id'' []\<rparr>) (ct_store s) = (h, g)" by fastforce
  define s1 where "s1 = on_group g (\<lambda>x. snd (Clip_ParseClass L n (snd (ParseName L n x)))) (s\<lparr>ct_store := h\<rparr>)"
  have "view (s\<lparr>ct_store := h\<rparr>) = view s" using al by (auto simp: view_def clip_bridge_def alloc_group_def)
  then have v1: "view s1 = view s" by (simp add: s1_def)
  then have t1: "clip_typed L s1" using assms(1) typed_view by blast
  obtain p1 s2 where s2: "Clip_ParseStreamActive L n g s1 = Some (p1, s2)" "view s2 = view s1"
    using active_typed[OF t1 assms(2)] by blast
  then have t2: "clip_typed L s2" using t1 typed_view by blast
  have "proxy_ok L n s2" using assms(3) s2(2) v1 proxy_ok_view[of s2 s] by (simp add: view_def)
  then obtain p2 s3 where s3: "Clip_ParseStreamProxy L n g s2 = Some (p2, s3)" "clip_typed L s3"
    using proxy_typed[OF t2] by blast
  obtain p3 x ls where x: "Clip_ParseLights L (ct_devices s3) (ct_zigbee s3) (ct_lights s3) n (clip_group s3 g) = Some (p3, x, ls)"
    using lights_parsed[OF typed_parts(3)[OF s3(2)] assms(2)] by fastforce
  obtain p4 cs m where c: "ParseChannels L (ct_devices s3) n = Some (p4, cs, m)"
    using channels_parsed[OF typed_parts(1)[OF s3(2)] assms(2)] by fastforce
  show ?thesis
    unfolding ParseEntertainmentConfig_def al
    by (simp add: Let_def s2 s3 x c flip: s1_def)
qed

lemma AddConfiguration_typed:
  assumes "clip_typed L s" "add_ok L RConfiguration n s"
  shows "handled_well L (AddEntertainmentConfiguration L n s)"
proof -
  obtain g s1 where s1: "ParseEntertainmentConfig L n s = Some (g, s1)" "clip_typed L s1"
    using config_parsed[OF assms(1), of n] assms(2) by (auto simp: add_ok_def)
  have "view (s1\<lparr>ct_store := fst (alloc_grouplist l (ct_store s1))\<rparr>) = view s1" for l
    by (simp add: view_def clip_bridge_def alloc_grouplist_def)
  then have "clip_typed L (s1\<lparr>ct_store := fst (alloc_grouplist l (ct_store s1))\<rparr>)" for l using s1(2) typed_view by blast
  then show ?thesis
    unfolding AddEntertainmentConfiguration_def handled_well_def by (simp add: s1(1) Let_def case_prod_unfold)
qed

lemma DeleteConfiguration_typed:
  assumes "clip_typed L s" "node_id L n \<noteq> []"
  shows "handled_well L (DeleteEntertainmentConfiguration L n s)"
proof -
  obtain v where v: "element ''id'' n = Some v" "as_string L v = node_id L n" using named[OF assms(2)] by blast
  show ?thesis
    unfolding DeleteEntertainmentConfiguration_def handled_well_def by (simp add: v Let_def assms(1))
qed

lemma UpdateConfiguration_typed:
  assumes "clip_typed L s" "node_id L n \<noteq> []" "update_ok L RConfiguration n s"
  shows "handled_well L (UpdateEntertainmentConfiguration L n s)"
proof -
  have n: "configuration_ok n" "proxy_ok L n s" using assms(3) by (simp_all add: update_ok_def)
  obtain v where v: "element ''id'' n = Some v" "as_string L v = node_id L n" using named[OF assms(2)] by blast
  show ?thesis
  proof (cases "GetGroupById (ct_store s) (clip_bridge s) (node_id L n)")
    case None
    then show ?thesis unfolding UpdateEntertainmentConfiguration_def handled_well_def by (simp add: v assms(1))
  next
    case (Some g)
    obtain q1 x1 where x1: "ParseName L n (clip_group s g) = (q1, x1)" by fastforce
    obtain q2 x2 where x2: "Clip_ParseClass L n x1 = (q2, x2)" by fastforce
    define s0 where "s0 = on_group g (\<lambda>_. x2) s"
    have t0: "clip_typed L s0" "view s0 = view s" using assms(1) by (simp_all add: s0_def)
    obtain p1 s1 where s1: "Clip_ParseStreamActive L n g s0 = Some (p1, s1)" "view s1 = view s0"
      using active_typed[OF t0(1) n(1)] by blast
    then have t1: "clip_typed L s1" using t0 typed_view by blast
    have "proxy_ok L n s1" using n(2) s1(2) t0(2) proxy_ok_view[of s1 s] by (simp add: view_def)
    then obtain p2 s2 where s2: "Clip_ParseStreamProxy L n g s1 = Some (p2, s2)" "clip_typed L s2"
      using proxy_typed[OF t1] by blast
    define s3 where "s3 = tell (q1 \<or> q2 \<or> p1 \<or> p2) ID_GROUPLIST_UPDATED s2"
    have t3: "clip_typed L s3" using s2(2) by (simp add: s3_def)
    obtain p4 cs m where c: "ParseChannels L (ct_devices s3) n = Some (p4, cs, m)"
      using channels_parsed[OF typed_parts(1)[OF t3] n(1)] by fastforce
    define s4 where "s4 = (if p4 then on_group g (\<lambda>x. x\<lparr>g_lights := cs, g_channelToPhysicalLightsMap := m\<rparr>) s3 else s3)"
    have t4: "clip_typed L s4" using t3 by (simp add: s4_def)
    obtain p5 x ls where x: "Clip_ParseLights L (ct_devices s4) (ct_zigbee s4) (ct_lights s4) n (clip_group s4 g) = Some (p5, x, ls)"
      using lights_parsed[OF typed_parts(3)[OF t4] n(1)] by fastforce
    show ?thesis
      unfolding UpdateEntertainmentConfiguration_def handled_well_def v(1) option.map bind.bind_lunit v(2) Some option.case
        x1 x2 Let_def prod.case s0_def[symmetric] s1(1) s2(1) s3_def[symmetric] c s4_def[symmetric] x
      using t4 typed_status[OF assms(1)] by simp
  qed
qed

section \<open>Events\<close>

lemma item_handled:
  assumes "clip_typed L s" "item_ok L item s"
  shows "handled_well L (handle_item L item s)"
proof -
  obtain k e n where item: "item = (k, e, n)" by (cases item) auto
  have n: "node_id L n \<noteq> []" using assms(2) item by (simp add: item_ok_def)
  have same: "handled_well L (Some s)" using assms(1) by (simp add: handled_well_def)
  consider "e = ''add''" "add_ok L k n s" | "e = ''update''" "update_ok L k n s" | "e = ''delete''" "delete_ok L k n s"
    | "e \<noteq> ''add''" "e \<noteq> ''update''" "e \<noteq> ''delete''"
    using assms(2) item by (auto simp: item_ok_def)
  then show ?thesis
  proof cases
    case 1
    then show ?thesis
      using assms(1) n item AddDevice_typed AddLight_typed AddConfiguration_typed AddZigbee_typed AddZone_typed
        AddBridge_typed entertainment_typed(1) scene_typed(1)
      by (cases k) (simp_all add: handle_item_def add_resource_def add_ok_def)
  next
    case 2
    then show ?thesis
      using assms(1) n item UpdateDevice_typed UpdateZigbee_typed UpdateLight_typed UpdateZone_typed
        UpdateConfiguration_typed scene_typed(2) same
      by (cases k) (simp_all add: handle_item_def update_resource_def update_ok_def)
  next
    case 3
    then show ?thesis
      using assms(1) n item DeleteDevice_typed DeleteZigbee_typed DeleteLight_typed DeleteZone_typed
        DeleteConfiguration_typed DeleteScene_typed entertainment_typed(2) same
      by (cases k) (simp_all add: handle_item_def delete_resource_def delete_ok_def)
  next
    case 4
    then show ?thesis using same item by (simp add: handle_item_def)
  qed
qed

lemma items_handled:
  assumes "clip_typed L s" "items_ok L items s"
  shows "\<exists>s'. each (handle_item L) items s = Some s' \<and> clip_typed L s'"
  using assms
proof (induction items arbitrary: s)
  case (Cons item items)
  obtain s1 where "handle_item L item s = Some s1" "clip_typed L s1"
    using item_handled[OF Cons.prems(1), of item] Cons.prems(2) by (auto simp: handled_well_def)
  then show ?case using Cons by simp
qed simp

lemma items_ok_prefix: "items_ok L (xs @ ys) s \<Longrightarrow> items_ok L xs s"
  by (induction xs arbitrary: s) (auto split: option.splits)

lemma scenes_handled:
  assumes "clip_typed L s" "\<forall>item\<in>set items. fst item = RScene \<and> node_id L (snd (snd item)) \<noteq> [] \<and> scene_ok (snd (snd item))"
  shows "\<exists>s'. each (handle_item L) items s = Some s' \<and> clip_typed L s'"
proof (rule each_total)
  fix item s
  assume "item \<in> set items" "clip_typed L s"
  then have "handled_well L (handle_item L item s)"
    using assms(2) by (intro item_handled) (auto simp: item_ok_def add_ok_def update_ok_def delete_ok_def split: prod.split)
  then show "\<exists>s'. handle_item L item s = Some s' \<and> clip_typed L s'" by (simp add: handled_well_def)
qed (rule assms(1))



text \<open>
  Once the connectivity that a light leads to is deleted, the node of the light cannot be read
  any more: the handler that next needs the light accesses a member that is missing.
\<close>

theorem deleted_connectivity_breaks_light:
  assumes "GetZigbeeConnectivityIdFromLightId L (ct_devices s) (node_id L light) = Some (node_id L zc)"
    "DeleteZigbeeConnectivity L zc s = Some s'" "node_id L zc \<noteq> []"
  shows "ParseLightInfo L (ct_devices s') (ct_zigbee s') light = None"
proof -
  obtain v where v: "element ''id'' zc = Some v" "as_string L v = node_id L zc" using named[OF assms(3)] by blast
  then have s': "s' = s\<lparr>ct_zigbee := AList.delete (node_id L zc) (ct_zigbee s)\<rparr>"
    using assms(2) by (simp add: DeleteZigbeeConnectivity_def)
  have "light_reachable L (ct_devices s') (ct_zigbee s') (node_id L light) = None"
    using assms(1) by (simp add: s' light_reachable_def delete_conv)
  moreover have "map_option (as_string L) (element ''id'' light) \<in> {None, Some (node_id L light)}"
    by (auto simp: node_id_def DeserializeString_def element_def split: option.split)
  ultimately show ?thesis by (auto simp: ParseLightInfo_def Let_def case_prod_unfold split: bind_splits option.split)
qed

theorem deleted_connectivity_breaks_light_witness:
  "\<exists>s'. DeleteZigbeeConnectivity sample_json_lib sample_connectivity
     (sample_clip_state\<lparr>ct_devices := [(''d1'', sample_device)], ct_zigbee := [(''z1'', sample_connectivity)]\<rparr>) = Some s'
   \<and> ParseLightInfo sample_json_lib (ct_devices s') (ct_zigbee s') sample_light = None"
proof -
  let ?s = "sample_clip_state\<lparr>ct_devices := [(''d1'', sample_device)], ct_zigbee := [(''z1'', sample_connectivity)]\<rparr>"
  have "DeleteZigbeeConnectivity sample_json_lib sample_connectivity ?s \<noteq> None" by code_simp
  then obtain s' where s': "DeleteZigbeeConnectivity sample_json_lib sample_connectivity ?s = Some s'" by blast
  have "GetZigbeeConnectivityIdFromLightId sample_json_lib (ct_devices ?s) (node_id sample_json_lib sample_light)
      = Some (node_id sample_json_lib sample_connectivity)" "node_id sample_json_lib sample_connectivity \<noteq> []"
    by code_simp+
  then show ?thesis using deleted_connectivity_breaks_light[OF _ s'] s' by blast
qed

end
