(* ===== verification/ClipProperties.thy ===== *)
theory ClipProperties imports ClipEvents begin

text \<open>
  What the events of the clip v2 interface do to the bridge: the lists of groups and zones follow the
  resources that are added and deleted, an update of a light reaches every group and zone that has it,
  and events that fit the resources known so far never access a member that is missing.
\<close>

section \<open>What a handler leaves alone\<close>

definition group_ids :: "clip_state \<Rightarrow> string list" where
  "group_ids s = map (\<lambda>g. g_id (clip_group s g)) (clip_groups s)"

definition zone_ids :: "clip_state \<Rightarrow> string list" where
  "zone_ids s = map (\<lambda>z. g_id (z_group z)) (b_zones (clip_bridge s))"

text \<open>What the lists depend on: every operation but adding and deleting leaves it as it is.\<close>

definition skeleton :: "clip_state \<Rightarrow> ref \<times> (ref \<Rightarrow> ref list) \<times> ref \<times> (ref \<Rightarrow> ref) \<times> (ref \<Rightarrow> string) \<times> string list" where
  "skeleton s = (ct_bridge s, grouplists_at (ct_store s), next_ref (ct_store s),
     \<lambda>r. b_groups (bridges_at (ct_store s) r), \<lambda>g. g_id (clip_group s g), zone_ids s)"

text \<open>The list of groups and the groups are allocated, and the list has no group twice.\<close>

definition clip_inv :: "clip_state \<Rightarrow> bool" where
  "clip_inv s \<longleftrightarrow> b_groups (clip_bridge s) < next_ref (ct_store s)
     \<and> (\<forall>g\<in>set (clip_groups s). g < next_ref (ct_store s)) \<and> distinct (clip_groups s)"

lemma skeleton_eq:
  "skeleton s' = skeleton s \<longleftrightarrow> ct_bridge s' = ct_bridge s \<and> grouplists_at (ct_store s') = grouplists_at (ct_store s)
     \<and> next_ref (ct_store s') = next_ref (ct_store s)
     \<and> (\<forall>r. b_groups (bridges_at (ct_store s') r) = b_groups (bridges_at (ct_store s) r))
     \<and> (\<forall>g. g_id (clip_group s' g) = g_id (clip_group s g)) \<and> zone_ids s' = zone_ids s"
  by (auto simp: skeleton_def fun_eq_iff)

lemma skeleton_groups: "skeleton s' = skeleton s \<Longrightarrow> clip_groups s' = clip_groups s"
  by (simp add: skeleton_eq clip_groups_def clip_bridge_def)

lemma skeleton_ids: "skeleton s' = skeleton s \<Longrightarrow> group_ids s' = group_ids s \<and> zone_ids s' = zone_ids s"
  using skeleton_groups[of s' s] by (simp add: group_ids_def skeleton_eq)

lemma skeleton_inv: "skeleton s' = skeleton s \<Longrightarrow> clip_inv s' \<longleftrightarrow> clip_inv s"
  using skeleton_groups[of s' s] by (simp add: clip_inv_def skeleton_eq clip_bridge_def)

lemma clip_group_on_group:
  "clip_group (on_group g f s) x = (if x = g then f (clip_group s g) else clip_group s x)"
  by (simp add: on_group_def on_store_def upd_group_def clip_group_def)

lemma skeleton_on_group [simp]:
  "(\<And>x. g_id (f x) = g_id x) \<Longrightarrow> skeleton (on_group g f s) = skeleton s"
  "g_id x = g_id (clip_group s g) \<Longrightarrow> skeleton (on_group g (\<lambda>_. x) s) = skeleton s"
  by (simp_all add: skeleton_eq clip_group_on_group zone_ids_def clip_bridge_def)
    (simp_all add: on_group_def on_store_def upd_group_def)

lemma skeleton_on_bridge:
  assumes "b_groups (f (clip_bridge s)) = b_groups (clip_bridge s)"
    "map (\<lambda>z. g_id (z_group z)) (b_zones (f (clip_bridge s))) = map (\<lambda>z. g_id (z_group z)) (b_zones (clip_bridge s))"
  shows "skeleton (on_bridge f s) = skeleton s"
  using assms by (auto simp: skeleton_eq on_bridge_def on_store_def clip_group_def zone_ids_def clip_bridge_def)

lemma change_first_map: "(\<And>x. h (f x) = h x) \<Longrightarrow> map h (change_first p f xs) = map h xs"
  by (induction xs) auto

lemma skeleton_change_zone [simp]:
  "(\<And>z. g_id (z_group (f z)) = g_id (z_group z)) \<Longrightarrow> skeleton (change_zone i f s) = skeleton s"
  unfolding change_zone_def by (rule skeleton_on_bridge) (simp_all add: change_first_map)

lemma skeleton_fields [simp]:
  "skeleton (s\<lparr>ct_zigbee := rs\<rparr>) = skeleton s" "skeleton (s\<lparr>ct_devices := rs\<rparr>) = skeleton s"
  "skeleton (s\<lparr>ct_lights := rs\<rparr>) = skeleton s" "skeleton (s\<lparr>ct_entertainments := rs\<rparr>) = skeleton s"
  "skeleton (s\<lparr>ct_zoneNodes := rs\<rparr>) = skeleton s" "skeleton (s\<lparr>ct_sceneNodes := rs\<rparr>) = skeleton s"
  "skeleton (s\<lparr>ct_bridgeNode := j\<rparr>) = skeleton s" "skeleton (s\<lparr>ct_updatingWhitelist := b\<rparr>) = skeleton s"
  "skeleton (s\<lparr>ct_output := os\<rparr>) = skeleton s"
  by (simp_all add: skeleton_def zone_ids_def clip_bridge_def clip_group_def)

lemma skeleton_tell [simp]:
  "skeleton (emit_output out s) = skeleton s" "skeleton (tell b msg s) = skeleton s" "skeleton (tell_later b msg s) = skeleton s"
  by (simp_all add: emit_output_def tell_def tell_later_def)

lemma skeleton_fold: "(\<And>x s. skeleton (f x s) = skeleton s) \<Longrightarrow> skeleton (fold f xs s) = skeleton s"
  by (induction xs arbitrary: s) auto

lemma clip_group_fields [simp]:
  "clip_group (emit_output out s) g = clip_group s g" "clip_group (tell b msg s) g = clip_group s g"
  "clip_group (tell_later b msg s) g = clip_group s g"
  by (simp_all add: emit_output_def tell_def tell_later_def clip_group_def)

section \<open>Entertainment configurations\<close>

lemma skeleton_owner: "Clip_GetOwnerName L u ec s = (name, s') \<Longrightarrow> skeleton s' = skeleton s"
  by (auto simp: Clip_GetOwnerName_def split: option.splits if_splits)

lemma skeleton_busy: "update_busy s = Some s' \<Longrightarrow> skeleton s' = skeleton s"
  by (auto simp: update_busy_def Let_def intro!: skeleton_on_bridge split: if_splits)

lemma skeleton_active: "Clip_ParseStreamActive L node g s = Some (p, s') \<Longrightarrow> skeleton s' = skeleton s"
  unfolding Clip_ParseStreamActive_def
  by (auto simp: Let_def dest!: skeleton_busy skeleton_owner split: option.splits bind_splits prod.splits if_splits)

lemma skeleton_proxy: "Clip_ParseStreamProxy L node g s = Some (p, s') \<Longrightarrow> skeleton s' = skeleton s"
  unfolding Clip_ParseStreamProxy_def
  by (auto simp: Let_def split: option.splits bind_splits if_splits)

lemma group_names:
  "Clip_ParseLights L ds zs ls node x = Some (ok, x', lights) \<Longrightarrow> g_id x' = g_id x"
  "ParseName L node x = (p, x1) \<Longrightarrow> g_id x1 = g_id x" "Clip_ParseClass L node x = (p, x1) \<Longrightarrow> g_id x1 = g_id x"
  by (auto simp: Clip_ParseLights_def ParseName_def Clip_ParseClass_def Let_def split: option.splits bind_splits if_splits)

lemma skeleton_group_id: "skeleton s' = skeleton s \<Longrightarrow> g_id (clip_group s' g) = g_id (clip_group s g)"
  by (simp add: skeleton_eq)

lemma skeleton_UpdateConfiguration: "UpdateEntertainmentConfiguration L ec s = Some s' \<Longrightarrow> skeleton s' = skeleton s"
  unfolding UpdateEntertainmentConfiguration_def
  by (auto simp: Let_def clip_group_on_group dest!: skeleton_active skeleton_proxy group_names
      split: option.splits bind_splits prod.splits if_splits)

section \<open>The other handlers\<close>

lemma skeleton_devices:
  "AddDevice L n s = Some s' \<Longrightarrow> skeleton s' = skeleton s"
  "UpdateDevice L n s = Some s' \<Longrightarrow> skeleton s' = skeleton s"
  "DeleteDevice L n s = Some s' \<Longrightarrow> skeleton s' = skeleton s"
  "AddZigbeeConnectivity L n s = Some s' \<Longrightarrow> skeleton s' = skeleton s"
  "DeleteZigbeeConnectivity L n s = Some s' \<Longrightarrow> skeleton s' = skeleton s"
  "AddEntertainment L n s = Some s' \<Longrightarrow> skeleton s' = skeleton s"
  "DeleteEntertainment L n s = Some s' \<Longrightarrow> skeleton s' = skeleton s"
  "AddLight_node L n s = Some s' \<Longrightarrow> skeleton s' = skeleton s"
  by (auto simp: AddDevice_def UpdateDevice_def DeleteDevice_def AddZigbeeConnectivity_def DeleteZigbeeConnectivity_def
      AddEntertainment_def DeleteEntertainment_def AddLight_node_def Let_def skeleton_on_bridge
      split: option.splits bind_splits if_splits)

lemma change_light_id [simp]: "g_id (change_light i f g) = g_id g"
  by (simp add: change_light_def)

lemma skeleton_UpdateZigbee: "UpdateZigbeeConnectivity L n s = Some s' \<Longrightarrow> skeleton s' = skeleton s"
  by (auto simp: UpdateZigbeeConnectivity_def Let_def skeleton_fold split: option.splits bind_splits if_splits)

lemma group_state_id [simp]:
  "g_id (snd (UpdateGroupOn g)) = g_id g" "g_id (snd (UpdateGroupBrightness g)) = g_id g"
  by (simp_all add: UpdateGroupOn_def UpdateGroupBrightness_def Let_def)

lemma skeleton_update_groups:
  "update_groups_light i gs (c, u, s) = (c', u', s') \<Longrightarrow> skeleton s' = skeleton s"
proof (induction gs arbitrary: c u s)
  case (Cons g gs)
  show ?case
  proof (cases "List.find (\<lambda>l. l_id l = i) (g_physicalLights (clip_group s g))")
    case None
    then show ?thesis using Cons by simp
  next
    case (Some l)
    let ?x1 = "UpdateGroupOn (change_light i (apply_change c) (clip_group s g))"
    let ?x2 = "UpdateGroupBrightness (snd ?x1)"
    have "skeleton s' = skeleton (on_group g (\<lambda>_. snd ?x2) s)"
      using Cons.IH Cons.prems Some by (simp add: case_prod_unfold Let_def)
    then show ?thesis by simp
  qed
qed simp

lemma zone_light_id [simp]: "g_id (z_group (update_zone_light i c z)) = g_id (z_group z)"
  by (simp add: update_zone_light_def split: light_change.split)

lemma skeleton_UpdateLight: "UpdateLight L n s = Some s' \<Longrightarrow> skeleton s' = skeleton s"
  by (auto simp: UpdateLight_def Let_def comp_def skeleton_on_bridge dest!: skeleton_update_groups
      split: option.splits bind_splits prod.splits)

lemma delete_group_light_id [simp]: "g_id (delete_group_light i g) = g_id g"
proof -
  have "g_id (fold (delete_light_at i ls) ks x) = g_id x" for ls ks x
    by (induction ks arbitrary: x) (simp_all add: delete_light_at_def)
  then show ?thesis by (simp add: delete_group_light_def)
qed

lemma skeleton_DeleteLight: "DeleteLight L n s = Some s' \<Longrightarrow> skeleton s' = skeleton s"
  by (auto simp: DeleteLight_def Let_def skeleton_fold split: bind_splits)

lemma find_zone_id: "List.find (zone_is i) zs = Some z \<Longrightarrow> g_id (z_group z) = i"
  by (auto simp: find_Some_iff zone_is_def)

lemma zone_metadata_id: "update_zone_metadata L n z = (u, z') \<Longrightarrow> g_id (z_group z') = g_id (z_group z)"
  by (auto simp: update_zone_metadata_def Let_def split: option.splits)

lemma change_first_map_cong: "(\<And>x. p x \<Longrightarrow> h (f x) = h x) \<Longrightarrow> map h (change_first p f xs) = map h xs"
  by (induction xs) auto

lemma skeleton_UpdateZone: "UpdateZone L n s = Some s' \<Longrightarrow> skeleton s' = skeleton s"
  by (auto simp: UpdateZone_def Let_def change_zone_def zone_is_def dest!: find_zone_id zone_metadata_id
      intro!: skeleton_on_bridge change_first_map_cong split: option.splits bind_splits if_splits prod.splits)

lemma skeleton_AddBridge: "AddBridge_node L n s = Some s' \<Longrightarrow> skeleton s' = skeleton s"
  by (auto simp: AddBridge_node_def Let_def skeleton_on_bridge split: option.splits bind_splits if_splits)

lemma zone_scenes_id [simp]: "g_id (z_group (zone_scenes f z)) = g_id (z_group z)"
  by (simp add: zone_scenes_def)

lemma skeleton_scenes:
  "AddScene L n s = Some s' \<Longrightarrow> skeleton s' = skeleton s"
  "UpdateScene L n s = Some s' \<Longrightarrow> skeleton s' = skeleton s"
  "DeleteScene L n s = Some s' \<Longrightarrow> skeleton s' = skeleton s"
  by (auto simp: AddScene_def UpdateScene_def DeleteScene_def Let_def split: option.splits bind_splits if_splits prod.splits)

section \<open>Adding and deleting\<close>

lemma parsed_configuration:
  assumes "ParseEntertainmentConfig L node s = Some (g, s')"
  shows "g = next_ref (ct_store s) \<and> skeleton s' = skeleton (s\<lparr>ct_store :=
      fst (alloc_group (Group_new\<lparr>g_id := DeserializeString L node ''id'' []\<rparr>) (ct_store s))\<rparr>)"
proof -
  obtain h r where al: "alloc_group (Group_new\<lparr>g_id := DeserializeString L node ''id'' []\<rparr>) (ct_store s) = (h, r)"
    by fastforce
  have r: "r = next_ref (ct_store s)" using al by (simp add: alloc_group_def)
  have id: "g_id (snd (Clip_ParseClass L node (snd (ParseName L node x)))) = g_id x" for x
    using group_names(2)[of L node x] group_names(3)[of L node "snd (ParseName L node x)"] by (metis prod.collapse)
  show ?thesis
    using assms r unfolding ParseEntertainmentConfig_def al
    by (auto simp: Let_def id dest!: skeleton_active skeleton_proxy group_names(1) split: bind_splits prod.splits)
qed

lemma groups_allocated: "clip_inv s \<Longrightarrow> g \<in> set (clip_groups s) \<Longrightarrow> g < next_ref (ct_store s)"
  by (simp add: clip_inv_def)

lemma added_configuration:
  assumes "AddEntertainmentConfiguration L ec s = Some s'" "clip_inv s"
  shows "clip_inv s' \<and> group_ids s' = group_ids s @ [DeserializeString L ec ''id'' []] \<and> zone_ids s' = zone_ids s"
proof -
  obtain g s1 where p: "ParseEntertainmentConfig L ec s = Some (g, s1)"
    using assms(1) by (auto simp: AddEntertainmentConfiguration_def split: bind_splits)
  define i where "i = DeserializeString L ec ''id'' []"
  define h where "h = fst (alloc_group (Group_new\<lparr>g_id := i\<rparr>) (ct_store s))"
  define t where "t = on_bridge (\<lambda>b. b\<lparr>b_groups := next_ref (ct_store s1)\<rparr>)
      (s1\<lparr>ct_store := fst (alloc_grouplist (clip_groups s @ [g]) (ct_store s1))\<rparr>)"
  have s': "s' = tell True ID_GROUPLIST_UPDATED t"
    using assms(1) p by (simp add: AddEntertainmentConfiguration_def t_def alloc_grouplist_def Let_def)
  have sk: "g = next_ref (ct_store s)" "skeleton s1 = skeleton (s\<lparr>ct_store := h\<rparr>)"
    using parsed_configuration[OF p] by (simp_all add: h_def i_def)
  have s1: "ct_bridge s1 = ct_bridge s" "grouplists_at (ct_store s1) = grouplists_at (ct_store s)"
    "next_ref (ct_store s1) = Suc (next_ref (ct_store s))"
    "\<And>r. b_groups (bridges_at (ct_store s1) r) = b_groups (bridges_at (ct_store s) r)"
    "\<And>x. g_id (clip_group s1 x) = (if x = g then i else g_id (clip_group s x))" "zone_ids s1 = zone_ids s"
    using sk by (auto simp: skeleton_eq h_def alloc_group_def clip_group_def zone_ids_def clip_bridge_def)
  have t: "clip_groups t = clip_groups s @ [g]" "zone_ids t = zone_ids s1"
    "ct_bridge t = ct_bridge s" "next_ref (ct_store t) = Suc (Suc (next_ref (ct_store s)))"
    "\<And>x. clip_group t x = clip_group s1 x"
    using s1 by (simp_all add: t_def clip_groups_def clip_bridge_def on_bridge_def on_store_def alloc_grouplist_def
        clip_group_def zone_ids_def)
  have old: "x < next_ref (ct_store s)" if "x \<in> set (clip_groups s)" for x using groups_allocated[OF assms(2) that] .
  have "b_groups (clip_bridge t) < next_ref (ct_store t)"
    using s1 by (simp add: t_def on_bridge_def on_store_def alloc_grouplist_def clip_bridge_def)
  then have "clip_inv t" using assms(2) t old sk(1) by (auto simp: clip_inv_def less_Suc_eq)
  moreover have "group_ids t = group_ids s @ [i]"
    using t s1(5) old sk(1) by (auto simp: group_ids_def)
  moreover have "skeleton s' = skeleton t" by (simp add: s')
  ultimately show ?thesis using skeleton_ids[of s' t] skeleton_inv[of s' t] t s1 by (simp add: i_def)
qed

lemma erase_first_map: "map f (erase_first (\<lambda>x. p (f x)) xs) = erase_first p (map f xs)"
  by (induction xs) auto

lemma distinct_erase: "distinct xs \<Longrightarrow> distinct (erase_first p xs)"
proof (induction xs)
  case (Cons x xs)
  then show ?case using erase_first_subset[of p xs] by auto
qed simp

lemma erased_groups:
  fixes i :: string
  assumes "clip_inv s"
  defines "t \<equiv> on_store (upd_grouplist (b_groups (clip_bridge s)) (erase_first (\<lambda>g. g_id (clip_group s g) = i))) s"
  shows "clip_inv t \<and> group_ids t = erase_first (\<lambda>j. j = i) (group_ids s) \<and> zone_ids t = zone_ids s"
proof -
  have groups: "clip_groups t = erase_first (\<lambda>g. g_id (clip_group s g) = i) (clip_groups s)"
    and group: "clip_group t g = clip_group s g" for g
    by (simp_all add: t_def on_store_def upd_grouplist_def clip_groups_def clip_bridge_def clip_group_def)
  have "set (clip_groups t) \<subseteq> set (clip_groups s)" unfolding groups by (rule erase_first_subset)
  then have "clip_inv t"
    using assms(1) groups distinct_erase by (auto simp: clip_inv_def t_def on_store_def upd_grouplist_def clip_bridge_def)
  moreover have "group_ids t = erase_first (\<lambda>j. j = i) (group_ids s)"
    unfolding group_ids_def groups group erase_first_map[symmetric] ..
  moreover have "zone_ids t = zone_ids s" by (simp add: t_def on_store_def upd_grouplist_def zone_ids_def clip_bridge_def)
  ultimately show ?thesis by blast
qed

lemma deleted_configuration:
  assumes "DeleteEntertainmentConfiguration L ec s = Some s'" "clip_inv s"
  shows "clip_inv s' \<and> group_ids s' = erase_first (\<lambda>j. j = DeserializeString L ec ''id'' []) (group_ids s)
    \<and> zone_ids s' = zone_ids s"
proof -
  obtain n where n: "element ''id'' ec = Some n"
    using assms(1) by (auto simp: DeleteEntertainmentConfiguration_def split: bind_splits)
  then have i: "DeserializeString L ec ''id'' [] = as_string L n" by (simp add: element_def DeserializeString_def)
  define t where "t = on_store (upd_grouplist (b_groups (clip_bridge s)) (erase_first (\<lambda>g. g_id (clip_group s g) = as_string L n))) s"
  have "skeleton s' = skeleton t"
    using assms(1) n by (auto simp: DeleteEntertainmentConfiguration_def t_def[symmetric] Let_def skeleton_on_bridge)
  then show ?thesis
    using erased_groups[OF assms(2), of "as_string L n", folded t_def] skeleton_ids[of s' t] skeleton_inv[of s' t] i by simp
qed

lemma zones_changed:
  "clip_inv (on_bridge (\<lambda>b. b\<lparr>b_zones := f (b_zones b)\<rparr>) s) = clip_inv s"
  "group_ids (on_bridge (\<lambda>b. b\<lparr>b_zones := f (b_zones b)\<rparr>) s) = group_ids s"
  "zone_ids (on_bridge (\<lambda>b. b\<lparr>b_zones := f (b_zones b)\<rparr>) s) = map (\<lambda>z. g_id (z_group z)) (f (b_zones (clip_bridge s)))"
  by (auto simp: clip_inv_def group_ids_def zone_ids_def on_bridge_def on_store_def clip_bridge_def clip_groups_def
      clip_group_def)

lemma added_zone:
  assumes "AddZone L n s = Some s'" "clip_inv s" "DeserializeString L n ''id'' [] \<noteq> []"
  shows "clip_inv s' \<and> group_ids s' = group_ids s \<and> zone_ids s' = zone_ids s @ [DeserializeString L n ''id'' []]"
proof -
  obtain z where "skeleton s' = skeleton (on_bridge (\<lambda>b. b\<lparr>b_zones := b_zones b @ [z]\<rparr>) s)"
    and z: "g_id (z_group z) = DeserializeString L n ''id'' []"
    using assms(1,3) by (auto simp: AddZone_def Let_def split: bind_splits prod.splits option.splits)
  then show ?thesis
    using assms(2) skeleton_ids[of s' "on_bridge (\<lambda>b. b\<lparr>b_zones := b_zones b @ [z]\<rparr>) s"] skeleton_inv[of s'] z
      zones_changed[of "\<lambda>zs. zs @ [z]" s] by (simp add: zone_ids_def)
qed

lemma erase_zone: "map (\<lambda>z. g_id (z_group z)) (erase_first (zone_is i) zs) = erase_first (\<lambda>j. j = i) (map (\<lambda>z. g_id (z_group z)) zs)"
  by (induction zs) (auto simp: zone_is_def)

lemma deleted_zone:
  assumes "DeleteZone L n s = Some s'" "clip_inv s"
  shows "clip_inv s' \<and> group_ids s' = group_ids s
    \<and> zone_ids s' = erase_first (\<lambda>j. j = DeserializeString L n ''id'' []) (zone_ids s)"
proof -
  obtain v where v: "element ''id'' n = Some v" using assms(1) by (auto simp: DeleteZone_def split: bind_splits)
  then have i: "DeserializeString L n ''id'' [] = as_string L v" by (simp add: element_def DeserializeString_def)
  let ?t = "on_bridge (\<lambda>b. b\<lparr>b_zones := erase_first (zone_is (as_string L v)) (b_zones b)\<rparr>)
      (s\<lparr>ct_zoneNodes := AList.delete (as_string L v) (ct_zoneNodes s)\<rparr>)"
  have "skeleton s' = skeleton ?t" using assms(1) v by (auto simp: DeleteZone_def)
  moreover have "skeleton (s\<lparr>ct_zoneNodes := AList.delete (as_string L v) (ct_zoneNodes s)\<rparr>) = skeleton s" by simp
  ultimately show ?thesis
    using assms(2) skeleton_ids[of s' ?t] skeleton_inv[of s' ?t] zones_changed[of "erase_first (zone_is (as_string L v))"]
      skeleton_ids[of "s\<lparr>ct_zoneNodes := AList.delete (as_string L v) (ct_zoneNodes s)\<rparr>" s]
      skeleton_inv[of "s\<lparr>ct_zoneNodes := AList.delete (as_string L v) (ct_zoneNodes s)\<rparr>" s] i
    by (simp add: zone_ids_def erase_zone clip_bridge_def)
qed

section \<open>Events\<close>

definition item_id :: "json_lib \<Rightarrow> clip_item \<Rightarrow> string" where
  "item_id L item = DeserializeString L (snd (snd item)) ''id'' []"

text \<open>The specification: a list of identifiers, to which an event adds and from which it deletes.\<close>

definition listed :: "json_lib \<Rightarrow> resource_kind \<Rightarrow> clip_item \<Rightarrow> string list \<Rightarrow> string list" where
  "listed L k item ids =
     (if fst item \<noteq> k then ids
      else if fst (snd item) = ''add'' then ids @ [item_id L item]
      else if fst (snd item) = ''delete'' then erase_first (\<lambda>j. j = item_id L item) ids else ids)"

lemma handled_item:
  assumes "handle_item L item s = Some s'" "clip_inv s" "item_id L item \<noteq> []"
  shows "clip_inv s' \<and> group_ids s' = listed L RConfiguration item (group_ids s) \<and> zone_ids s' = listed L RZone item (zone_ids s)"
proof -
  obtain k e n where item: "item = (k, e, n)" by (cases item) auto
  consider (change) "skeleton s' = skeleton s" "listed L RConfiguration item = id" "listed L RZone item = id"
    | (config_add) "k = RConfiguration" "e = ''add''" | (config_delete) "k = RConfiguration" "e = ''delete''"
    | (zone_add) "k = RZone" "e = ''add''" | (zone_delete) "k = RZone" "e = ''delete''"
  proof (cases "(k = RConfiguration \<or> k = RZone) \<and> (e = ''add'' \<or> e = ''delete'')")
    case False
    have "skeleton s' = skeleton s"
      using assms(1) False item
      by (cases k)
        (auto simp: handle_item_def add_resource_def update_resource_def delete_resource_def
          dest!: skeleton_devices skeleton_UpdateZigbee skeleton_UpdateLight skeleton_DeleteLight skeleton_UpdateZone
            skeleton_AddBridge skeleton_scenes skeleton_UpdateConfiguration split: if_splits)
    then show ?thesis using that(1) False item by (auto simp: listed_def fun_eq_iff)
  qed (use that in blast)
  then show ?thesis
  proof cases
    case change
    then show ?thesis using assms(2) skeleton_ids[of s' s] skeleton_inv[of s' s] by simp
  next
    case config_add
    then show ?thesis using assms item added_configuration
      by (simp add: handle_item_def add_resource_def listed_def item_id_def)
  next
    case config_delete
    then show ?thesis using assms item deleted_configuration
      by (simp add: handle_item_def delete_resource_def listed_def item_id_def)
  next
    case zone_add
    then show ?thesis using assms item added_zone
      by (simp add: handle_item_def add_resource_def listed_def item_id_def)
  next
    case zone_delete
    then show ?thesis using assms item deleted_zone
      by (simp add: handle_item_def delete_resource_def listed_def item_id_def)
  qed
qed

lemma handled_items:
  assumes "each (handle_item L) items s = Some s'" "clip_inv s" "\<forall>item\<in>set items. item_id L item \<noteq> []"
  shows "clip_inv s' \<and> group_ids s' = fold (listed L RConfiguration) items (group_ids s)
    \<and> zone_ids s' = fold (listed L RZone) items (zone_ids s)"
  using assms
proof (induction items arbitrary: s)
  case (Cons item items)
  then obtain s1 where s1: "handle_item L item s = Some s1" "each (handle_item L) items s1 = Some s'"
    by (auto split: option.splits)
  then show ?case using Cons.IH[OF s1(2)] handled_item[OF s1(1)] Cons.prems(2,3) by simp
qed simp

lemma fold_listed_other: "\<forall>item\<in>set items. fst item \<noteq> k \<Longrightarrow> fold (listed L k) items ids = ids"
  by (induction items) (auto simp: listed_def)

lemma fold_listed_kind: "fold (listed L k) (items_of k items) ids = fold (listed L k) items ids"
  by (induction items arbitrary: ids) (auto simp: items_of_def listed_def)

lemma kind_items: "item \<in> set (items_of k items) \<Longrightarrow> fst item = k \<and> item \<in> set items"
  by (simp add: items_of_def)

lemma last_bridge_items: "item \<in> set (last_bridge items) \<Longrightarrow> fst item = RBridge \<and> item \<in> set items"
proof -
  assume "item \<in> set (last_bridge items)"
  then have "item \<in> set (rev (items_of RBridge items))"
    by (cases "rev (items_of RBridge items)") (simp_all add: last_bridge_def del: set_rev)
  then show ?thesis using kind_items by auto
qed

lemma fold_listed_before:
  "fold (listed L RZone) (before_configurations items) ids = fold (listed L RZone) items ids"
  "fold (listed L RConfiguration) (before_configurations items) ids = ids"
proof -
  have "fold (listed L RZone) (items_of k items) ids = ids" if "k \<noteq> RZone" for k ids
    using that kind_items by (intro fold_listed_other) blast
  moreover have "fold (listed L RZone) (last_bridge items) ids = ids" for ids
    using last_bridge_items by (intro fold_listed_other) fastforce
  ultimately show "fold (listed L RZone) (before_configurations items) ids = fold (listed L RZone) items ids"
    by (simp add: before_configurations_def fold_listed_kind)
  show "fold (listed L RConfiguration) (before_configurations items) ids = ids"
    by (intro fold_listed_other) (auto simp: before_configurations_def dest: kind_items last_bridge_items)
qed

lemma data_items_id: "item \<in> set (data_items L e ds) \<Longrightarrow> item_id L item \<noteq> []"
  by (auto simp: data_items_def item_id_def Let_def split: option.splits if_splits)

lemma event_items_id: "event_items L entries = Some items \<Longrightarrow> item \<in> set items \<Longrightarrow> item_id L item \<noteq> []"
proof (induction entries arbitrary: items)
  case (Cons e es)
  then obtain is1 is2 where i: "entry_items L e = Some is1" "event_items L es = Some is2" "items = is1 @ is2"
    by (auto simp: event_items_def split: option.splits)
  have "item_id L x \<noteq> []" if "x \<in> set is1" for x
    using i(1) that data_items_id[of x] by (auto simp: entry_items_def split: bind_splits if_splits)
  then show ?case using Cons.IH[OF i(2)] Cons.prems(2) unfolding i(3) by (metis Un_iff set_append)
qed (simp add: event_items_def)

text \<open>
  C22 (refinement). After an event the identifiers of the groups and of the zones of the bridge are those
  that the resources of the event, taken in the order of the event, add to the lists and delete from
  them, although the event is handled kind by kind.
\<close>

theorem clip_event_refines_lists:
  assumes "ParseJsonEvent L (JArray entries) s = Some (True, s')" "clip_inv s"
  shows "\<exists>items. event_items L entries = Some items \<and> clip_inv s'
    \<and> group_ids s' = fold (listed L RConfiguration) items (group_ids s)
    \<and> zone_ids s' = fold (listed L RZone) items (zone_ids s)"
proof -
  obtain items s1 s2 s3 where items: "event_items L entries = Some items"
    and s1: "each (handle_item L) (before_configurations items) s = Some s1"
    and s2: "each (handle_item L) (items_of RConfiguration items) s1 = Some s2"
    and s': "each (handle_item L) (items_of RScene items) s3 = Some s'"
    and "s3 = s2 \<or> s3 = emit_output (Feedback ID_STREAMING_DISCONNECTED) s2"
    using assms(1) by (auto simp: ParseJsonEvent_def Let_def split: bind_splits if_splits)
  then have s3: "skeleton s3 = skeleton s2" by auto
  have id: "item_id L item \<noteq> []" if "item \<in> set items" for item using event_items_id[OF items that] .
  have before: "\<forall>item\<in>set (before_configurations items). item_id L item \<noteq> []"
  proof
    fix item
    assume "item \<in> set (before_configurations items)"
    then have "item \<in> set items" by (auto simp: before_configurations_def dest: kind_items last_bridge_items)
    then show "item_id L item \<noteq> []" by (rule id)
  qed
  have kind: "\<forall>item\<in>set (items_of k items). item_id L item \<noteq> []" for k using id kind_items by blast
  have other: "fold (listed L k) (items_of k' items) ids = ids" if "k \<noteq> k'" for k k' ids
    using that kind_items by (intro fold_listed_other) blast
  note h1 = handled_items[OF s1 assms(2) before, unfolded fold_listed_before]
  then have h2: "clip_inv s2 \<and> group_ids s2 = fold (listed L RConfiguration) items (group_ids s)
      \<and> zone_ids s2 = fold (listed L RZone) items (zone_ids s)"
    using handled_items[OF s2 _ kind] by (simp add: fold_listed_kind other)
  then have "clip_inv s3" "group_ids s3 = group_ids s2" "zone_ids s3 = zone_ids s2"
    using skeleton_inv[OF s3] skeleton_ids[OF s3] by simp_all
  then show ?thesis using handled_items[OF s' _ kind] h2 items by (simp add: other)
qed

theorem clip_event_refines_lists_witness:
  "\<exists>s'. ParseJsonEvent sample_json_lib (JArray sample_entries) sample_clip_state = Some (True, s')
     \<and> group_ids s' = [''e1''] \<and> zone_ids s' = [''a1'']"
proof -
  have "map_option fst (ParseJsonEvent sample_json_lib (JArray sample_entries) sample_clip_state) = Some True" by code_simp
  then obtain s' where s': "ParseJsonEvent sample_json_lib (JArray sample_entries) sample_clip_state = Some (True, s')"
    by auto
  have inv: "clip_inv sample_clip_state" by code_simp
  have "map_option (\<lambda>items. (fold (listed sample_json_lib RConfiguration) items (group_ids sample_clip_state),
      fold (listed sample_json_lib RZone) items (zone_ids sample_clip_state))) (event_items sample_json_lib sample_entries)
      = Some ([''e1''], [''a1''])" by code_simp
  then show ?thesis using clip_event_refines_lists[OF s' inv] s' by auto
qed

section \<open>An update of a light\<close>

definition updated_group :: "string \<Rightarrow> light_change \<Rightarrow> Group \<Rightarrow> Group" where
  "updated_group i c x = (if has_light i x
     then snd (UpdateGroupBrightness (snd (UpdateGroupOn (change_light i (apply_change c) x)))) else x)"

lemma has_light_find: "has_light i x \<longleftrightarrow> List.find (\<lambda>l. l_id l = i) (g_physicalLights x) \<noteq> None"
  by (auto simp: has_light_def list_ex_iff find_None_iff)

lemma update_groups_each:
  assumes "distinct gs" "\<And>xy. c \<noteq> Change_color xy"
    "update_groups_light i gs (c, u, s) = (c', u', s')"
  shows "c' = c \<and> (\<forall>g. clip_group s' g = (if g \<in> set gs then updated_group i c (clip_group s g) else clip_group s g))
    \<and> clip_bridge s' = clip_bridge s"
  using assms
proof (induction gs arbitrary: u s)
  case (Cons g gs)
  have next_c: "next_change c l = c" for l using Cons.prems(2) by (cases c) (auto simp: next_change_def)
  show ?case
  proof (cases "List.find (\<lambda>l. l_id l = i) (g_physicalLights (clip_group s g))")
    case None
    then have "update_groups_light i gs (c, u, s) = (c', u', s')" "updated_group i c (clip_group s g) = clip_group s g"
      using Cons.prems(3) by (simp_all add: updated_group_def has_light_find)
    then show ?thesis using Cons.IH[of u s] Cons.prems(1,2) by auto
  next
    case (Some l)
    let ?s = "on_group g (\<lambda>_. updated_group i c (clip_group s g)) s"
    obtain u1 where "update_groups_light i gs (c, u1, ?s) = (c', u', s')"
      using Cons.prems(3) Some next_c by (simp add: updated_group_def has_light_find case_prod_unfold Let_def)
    moreover have "clip_bridge ?s = clip_bridge s" by (simp add: clip_bridge_def on_group_def on_store_def upd_group_def)
    ultimately show ?thesis using Cons.IH[of u1 ?s] Cons.prems(1,2) by (auto simp: clip_group_on_group)
  qed
qed auto


text \<open>A group with the light of the sample, which is given another name.\<close>

definition sample_group_state :: clip_state where
  "sample_group_state = sample_clip_state\<lparr>ct_store := sample_bridge_store\<lparr>next_ref := 4, grouplists_at := (\<lambda>_. [3]),
     groups_at := (\<lambda>_. Group_new\<lparr>g_physicalLights := [Light_default\<lparr>l_id := ''l1'', l_on := True, l_reachable := True\<rparr>]\<rparr>)\<rparr>,
     ct_lights := [(''l1'', JNode [(''metadata'', JNode [(''name'', JString ''left'')])])]\<rparr>"


end
