(* ===== verification/ClipRetriever.thy ===== *)
theory ClipRetriever imports ClipProperties begin

text \<open>
  \<open>huestream/connect/BridgeConfigRetriever\<close>: fetching the configuration of a clip v2 bridge and following
  its events. A request is an output; the callback of the HTTP client is an operation with the answer. The
  parser and the check of the JSON library are parameters; \<open>None\<close> is a failure as in \<open>ClipEvents\<close>.
\<close>

section \<open>State\<close>

text \<open>What is done when the whitelist has been read: go on with the fetch, or name the owner of a group.\<close>

datatype after_whitelist = Fetch_config | Name_owner string string

datatype retriever_request = Get_whitelist after_whitelist | Get_appId | Get_resource | Get_events

datatype retriever_output = Request nat retriever_request string | Cancel nat | Answered nat OperationResult
  | Message Id | Dispatch

record clip_answer =
  an_code :: ErrorCode
  an_status :: int
  an_body :: string
  an_appId :: string

text \<open>The feedback messages that wait are a list; the map's order of iteration is left open. Times are in nanoseconds.\<close>

record clip_retriever =
  rv_clip :: clip_state
  rv_hasBridge :: bool
  rv_connected :: bool
  rv_refreshing :: bool
  rv_busy :: bool
  rv_cb :: "nat option"
  rv_responseEvent :: string
  rv_eventRequestId :: "nat option"
  rv_resourceToGet :: nat
  rv_feedbackMessageMap :: "Id list"
  rv_nextSendFeedbackIsScheduled :: bool
  rv_lastFeedbackTime :: int
  rv_sendConnectFeedback :: bool
  rv_previouslySelectedGroupName :: string
  rv_nextRequest :: nat
  rv_output :: "retriever_output list"

definition rv_bridge :: "clip_retriever \<Rightarrow> Bridge" where
  "rv_bridge r = clip_bridge (rv_clip r)"

definition put :: "retriever_output \<Rightarrow> clip_retriever \<Rightarrow> clip_retriever" where
  "put out r = r\<lparr>rv_output := rv_output r @ [out]\<rparr>"

definition change_clip :: "(clip_state \<Rightarrow> clip_state) \<Rightarrow> clip_retriever \<Rightarrow> clip_retriever" where
  "change_clip f r = r\<lparr>rv_clip := f (rv_clip r)\<rparr>"

definition change_bridge :: "(Bridge \<Rightarrow> Bridge) \<Rightarrow> clip_retriever \<Rightarrow> clip_retriever" where
  "change_bridge f = change_clip (on_bridge f)"

definition resource_list :: "(string \<times> resource_kind) list" where
  "resource_list = [(''/device'', RDevice), (''/zigbee_connectivity'', RZigbee), (''/entertainment'', REntertainment),
     (''/bridge'', RBridge), (''/light'', RLight), (''/zone'', RZone),
     (''/entertainment_configuration'', RConfiguration), (''/scene'', RScene)]"

section \<open>Feedback that is sent later\<close>

definition DispatchFeedback :: "clip_retriever \<Rightarrow> clip_retriever" where
  "DispatchFeedback r = put Dispatch (r\<lparr>rv_nextSendFeedbackIsScheduled := True\<rparr>)"

definition Clip_ScheduleFeedback :: "int \<Rightarrow> Id \<Rightarrow> clip_retriever \<Rightarrow> clip_retriever" where
  "Clip_ScheduleFeedback now msg r =
     (let r1 = r\<lparr>rv_feedbackMessageMap := List.insert msg (rv_feedbackMessageMap r), rv_lastFeedbackTime := now\<rparr>
      in if rv_nextSendFeedbackIsScheduled r1 then r1 else DispatchFeedback r1)"

text \<open>The task that \<open>DispatchFeedback\<close> schedules, 250 ms later.\<close>

definition run_dispatch :: "int \<Rightarrow> clip_retriever \<Rightarrow> clip_retriever" where
  "run_dispatch now r =
     (if now - rv_lastFeedbackTime r > 250000000
      then (fold (\<lambda>msg. put (Message msg)) (rv_feedbackMessageMap r) r)
             \<lparr>rv_feedbackMessageMap := [], rv_nextSendFeedbackIsScheduled := False\<rparr>
      else DispatchFeedback r)"

section \<open>Requests\<close>

definition send_request :: "retriever_request \<Rightarrow> string \<Rightarrow> clip_retriever \<Rightarrow> clip_retriever" where
  "send_request q url r = put (Request (rv_nextRequest r) q url) (r\<lparr>rv_nextRequest := Suc (rv_nextRequest r)\<rparr>)"

definition UpdateWhitelist :: "after_whitelist \<Rightarrow> clip_retriever \<Rightarrow> clip_retriever" where
  "UpdateWhitelist k r = send_request (Get_whitelist k) (GetBaseUrl (rv_bridge r) False False @ ''config'') r"

definition GetApplicationId :: "clip_retriever \<Rightarrow> clip_retriever" where
  "GetApplicationId r = send_request Get_appId (GetAppIdUrl (rv_bridge r)) r"

definition GetResource :: "string \<Rightarrow> clip_retriever \<Rightarrow> clip_retriever" where
  "GetResource cursor r = send_request Get_resource
     (GetBaseUrl (rv_bridge r) True False @ fst (resource_list ! rv_resourceToGet r) @ cursor) r"

definition ListenToEvents :: "clip_retriever \<Rightarrow> clip_retriever" where
  "ListenToEvents r = (send_request Get_events (GetBaseUrl (rv_bridge r) True True) r)
     \<lparr>rv_eventRequestId := Some (rv_nextRequest r)\<rparr>"

text \<open>What the handlers have put out: messages, messages to be sent later, a name that is asked for.\<close>

definition pass_output :: "int \<Rightarrow> clip_output \<Rightarrow> clip_retriever \<Rightarrow> clip_retriever" where
  "pass_output now out r = (case out of
      Feedback msg \<Rightarrow> put (Message msg) r
    | ScheduleFeedback msg \<Rightarrow> Clip_ScheduleFeedback now msg r
    | AskWhitelist userName ecId \<Rightarrow> UpdateWhitelist (Name_owner userName ecId) r)"

definition run_clip :: "int \<Rightarrow> (clip_state \<Rightarrow> clip_state option) \<Rightarrow> clip_retriever \<Rightarrow> clip_retriever option" where
  "run_clip now f r = map_option (\<lambda>s. fold (pass_output now) (ct_output s) (r\<lparr>rv_clip := s\<lparr>ct_output := []\<rparr>\<rparr>)) (f (rv_clip r))"

section \<open>Connecting and disconnecting\<close>

definition Clip_Finish :: "OperationResult \<Rightarrow> bool \<Rightarrow> clip_retriever \<Rightarrow> clip_retriever" where
  "Clip_Finish result unBusy r =
     (let r1 = (if result = OPERATION_FAILED \<and> rv_cb r \<noteq> None then r\<lparr>rv_connected := False\<rparr> else r);
          r2 = (if rv_sendConnectFeedback r1 \<and> rv_connected r1
                then (put (Message ID_BRIDGE_CONNECTED) r1)\<lparr>rv_sendConnectFeedback := False\<rparr> else r1);
          r3 = (case rv_cb r2 of None \<Rightarrow> r2 | Some cb \<Rightarrow> put (Answered cb result) r2)
      in if unBusy then r3\<lparr>rv_busy := False, rv_refreshing := False\<rparr> else r3)"

definition Clip_Abort :: "clip_retriever \<Rightarrow> clip_retriever" where
  "Clip_Abort r = (case rv_eventRequestId r of
      None \<Rightarrow> r | Some i \<Rightarrow> (put (Cancel i) r)\<lparr>rv_eventRequestId := None\<rparr>)"

definition OnBridgeDisconnect :: "clip_retriever \<Rightarrow> clip_retriever" where
  "OnBridgeDisconnect r =
     (if \<not> rv_connected r then r
      else (change_clip (\<lambda>s. s\<lparr>ct_sendFeedback := False\<rparr>) (Clip_Abort (r\<lparr>rv_connected := False\<rparr>)))
             \<lparr>rv_sendConnectFeedback := True\<rparr>)"

definition OnBridgeMonitorEvent :: "Id \<Rightarrow> RequestType \<Rightarrow> clip_retriever \<Rightarrow> clip_retriever" where
  "OnBridgeMonitorEvent msg request r =
     (if msg = ID_BRIDGE_DISCONNECTED then OnBridgeDisconnect r
      else if msg = ID_USERPROCEDURE_STARTED \<and> (request = REQUEST_TYPE_DEACTIVATE \<or> request = REQUEST_TYPE_ACTIVATE)
      then change_clip (\<lambda>s. s\<lparr>ct_canSendStreamingDisconnected := False\<rparr>) r
      else if msg = ID_USERPROCEDURE_FINISHED \<and> (request = REQUEST_TYPE_DEACTIVATE \<or> request = REQUEST_TYPE_ACTIVATE)
      then change_clip (\<lambda>s. s\<lparr>ct_canSendStreamingDisconnected := True\<rparr>) r
      else r)"

definition forget_resources :: "clip_state \<Rightarrow> clip_state" where
  "forget_resources s = s\<lparr>ct_devices := [], ct_lights := [], ct_zigbee := [], ct_zoneNodes := [], ct_entertainments := [],
     ct_sceneNodes := [], ct_whitelist := JNode []\<rparr>"

text \<open>\<open>DoExecute\<close> for a bridge of the store; whether the fetch has started.\<close>

definition DoExecute :: "ref \<Rightarrow> nat option \<Rightarrow> clip_retriever \<Rightarrow> bool \<times> clip_retriever" where
  "DoExecute bridge cb r0 =
     (let h = ct_store (rv_clip r0);
          r = (if rv_hasBridge r0 \<and> b_id (rv_bridge r0) \<noteq> b_id (bridges_at h bridge) then OnBridgeDisconnect r0 else r0)
      in if rv_connected r
         then let result = (if \<not> b_isAuthorized (rv_bridge r) \<or> \<not> b_isValidIp (rv_bridge r)
                            then OPERATION_FAILED else OPERATION_SUCCESS)
              in (False, (case cb of None \<Rightarrow> r | Some c \<Rightarrow> put (Answered c result) r)\<lparr>rv_busy := False\<rparr>)
         else let r1 = change_clip (\<lambda>s. forget_resources (s\<lparr>ct_bridge := bridge\<rparr>))
                         (r\<lparr>rv_connected := True, rv_hasBridge := True, rv_cb := cb\<rparr>);
                  name = (case GetGroup h (bridges_at h bridge) of
                    None \<Rightarrow> [] | Some g \<Rightarrow> g_name (groups_at h g))
              in (True, UpdateWhitelist Fetch_config (r1\<lparr>rv_previouslySelectedGroupName := name\<rparr>)))"

definition clone_bridge :: "ref \<Rightarrow> clip_retriever \<Rightarrow> ref \<times> clip_retriever" where
  "clone_bridge bridge r = (let (h, b) = Clone (ct_store (rv_clip r)) bridge in (b, change_clip (\<lambda>s. s\<lparr>ct_store := h\<rparr>) r))"

text \<open>\<open>Execute\<close>, after at most ten seconds of waiting: busy then means that it still is.\<close>

definition Clip_Execute :: "ref \<Rightarrow> nat \<Rightarrow> clip_retriever \<Rightarrow> bool \<times> clip_retriever" where
  "Clip_Execute bridge cb r =
     (if rv_busy r then (False, put (Answered cb OPERATION_FAILED) r)
      else let (b, r1) = clone_bridge bridge (r\<lparr>rv_busy := True\<rparr>) in DoExecute b (Some cb) r1)"

definition RefreshBridgeConnection :: "clip_retriever \<Rightarrow> clip_retriever" where
  "RefreshBridgeConnection r0 =
     (if rv_busy r0 then r0
      else let r = r0\<lparr>rv_busy := True\<rparr>
      in if rv_refreshing r \<or> \<not> rv_connected r then r
      else let r1 = (change_clip (\<lambda>s. s\<lparr>ct_sendFeedback := False\<rparr>) (Clip_Abort (r\<lparr>rv_connected := False\<rparr>)))
                      \<lparr>rv_sendConnectFeedback := False, rv_refreshing := True\<rparr>;
               (b, r2) = clone_bridge (ct_bridge (rv_clip r1)) r1;
               (started, r3) = DoExecute b None r2
           in if started then r3 else r3\<lparr>rv_refreshing := False\<rparr>)"

section \<open>Answers\<close>

definition ValidateHttpRequestStatus :: "clip_answer \<Rightarrow> clip_retriever \<Rightarrow> bool \<times> clip_retriever" where
  "ValidateHttpRequestStatus a r =
     (if an_code a \<noteq> HTTP_REQUEST_ERROR_CODE_SUCCESS then (False, r)
      else if an_status a = 200 then (True, r)
      else if an_status a = 401 \<or> an_status a = 403 then (False, change_bridge (\<lambda>b. b\<lparr>b_isAuthorized := False\<rparr>) r)
      else (False, change_bridge (\<lambda>b. b\<lparr>b_isValidIp := False\<rparr>) r))"

text \<open>The first entry of the array that has an error: whether it says that the user is not authorized.\<close>

definition first_error :: "json_lib \<Rightarrow> json list \<Rightarrow> bool option" where
  "first_error L entries = (case List.find (\<lambda>e. json_find ''error'' e \<noteq> None) entries of
      None \<Rightarrow> None
    | Some e \<Rightarrow> Some (case json_find ''type'' (the (json_find ''error'' e)) of
        None \<Rightarrow> False | Some t \<Rightarrow> cast_int (as_int L t) = 1))"

text \<open>What an answer with the whitelist lacks: nothing, or the authorization, or anything else.\<close>

definition whitelist_error :: "json_lib \<Rightarrow> (string \<Rightarrow> json) \<Rightarrow> clip_answer \<Rightarrow> bool option" where
  "whitelist_error L parse a =
     (if an_code a \<noteq> HTTP_REQUEST_ERROR_CODE_SUCCESS then Some False
      else case parse (an_body a) of
        JNull \<Rightarrow> Some False
      | JArray entries \<Rightarrow> first_error L entries
      | doc \<Rightarrow> (if IsAttributeSet doc ''whitelist'' then None else Some True))"

definition name_owner :: "json_lib \<Rightarrow> string \<Rightarrow> string \<Rightarrow> clip_state \<Rightarrow> clip_state" where
  "name_owner L userName ecId s = (case GetGroupById (ct_store s) (clip_bridge s) ecId of
      None \<Rightarrow> s\<lparr>ct_updatingWhitelist := False\<rparr>
    | Some g \<Rightarrow>
        (let (ownerName, s1) = Clip_GetOwnerName L userName ecId s;
             s2 = on_group g (\<lambda>x. x\<lparr>g_ownerName := ownerName\<rparr>) s1
         in (tell (ownerName \<noteq> []) ID_GROUPLIST_UPDATED s2)\<lparr>ct_updatingWhitelist := False\<rparr>))"

definition answer_whitelist ::
  "json_lib \<Rightarrow> (string \<Rightarrow> json) \<Rightarrow> after_whitelist \<Rightarrow> int \<Rightarrow> clip_answer \<Rightarrow> clip_retriever \<Rightarrow> clip_retriever option" where
  "answer_whitelist L parse k now a r = (case whitelist_error L parse a of
      Some unauthorized \<Rightarrow> Some (Clip_Finish OPERATION_FAILED True (change_bridge
        (\<lambda>b. if unauthorized then b\<lparr>b_isAuthorized := False, b_isValidIp := True\<rparr> else b\<lparr>b_isValidIp := False\<rparr>) r))
    | None \<Rightarrow> do {
        whitelist \<leftarrow> map_option as_node (element ''whitelist'' (parse (an_body a)));
        let r1 = change_bridge (\<lambda>b. b\<lparr>b_isAuthorized := True, b_isValidIp := True\<rparr>)
                   (change_clip (\<lambda>s. s\<lparr>ct_whitelist := whitelist\<rparr>) r);
        case k of
          Fetch_config \<Rightarrow> Some (GetApplicationId r1)
        | Name_owner userName ecId \<Rightarrow> run_clip now (\<lambda>s. Some (name_owner L userName ecId s)) r1
      })"

definition GetFullConfig :: "clip_retriever \<Rightarrow> clip_retriever" where
  "GetFullConfig r = GetResource [] ((change_clip (\<lambda>s. on_bridge (\<lambda>b. b\<lparr>b_zones := []\<rparr>)
     (on_store (upd_grouplist (b_groups (clip_bridge s)) (\<lambda>_. [])) s)) r)\<lparr>rv_resourceToGet := 0\<rparr>)"

definition answer_appId :: "clip_answer \<Rightarrow> clip_retriever \<Rightarrow> clip_retriever" where
  "answer_appId a r = (case ValidateHttpRequestStatus a r of
      (True, r1) \<Rightarrow> GetFullConfig (change_bridge (\<lambda>b. b\<lparr>b_appId := an_appId a\<rparr>) r1)
    | (False, r1) \<Rightarrow> Clip_Finish OPERATION_FAILED True r1)"

text \<open>The last page has been read.\<close>

definition select_by_name :: "clip_retriever \<Rightarrow> clip_retriever" where
  "select_by_name r =
     (let h = ct_store (rv_clip r); b = rv_bridge r
      in if rv_cb r \<noteq> None \<and> b_selectedGroup b \<noteq> [] \<and> GetGroup h b = None
         then (case List.find (\<lambda>g. g_name (groups_at h g) = rv_previouslySelectedGroupName r) (grouplists_at h (b_groups b)) of
                 None \<Rightarrow> r | Some g \<Rightarrow> change_bridge (\<lambda>b. b\<lparr>b_selectedGroup := g_id (groups_at h g)\<rparr>) r)
         else r)"

definition report_refresh :: "clip_retriever \<Rightarrow> clip_retriever" where
  "report_refresh r =
     (if \<not> rv_refreshing r then r
      else let r1 = fold (\<lambda>msg. put (Message msg))
                 [ID_BRIDGE_REFRESHED, ID_ZONELIST_UPDATED, ID_GROUPLIST_UPDATED, ID_ZONE_SCENELIST_UPDATED] r;
               b = rv_bridge r1;
               r2 = (if b_selectedGroup b \<noteq> [] \<and> GetGroup (ct_store (rv_clip r1)) b = None
                     then put (Message ID_SELECT_GROUP) (change_bridge (\<lambda>b. b\<lparr>b_selectedGroup := []\<rparr>) r1) else r1)
           in r2\<lparr>rv_refreshing := False\<rparr>)"

definition finish_fetch :: "clip_retriever \<Rightarrow> clip_retriever" where
  "finish_fetch r =
     (let r1 = (Clip_Finish OPERATION_SUCCESS False (select_by_name r))\<lparr>rv_cb := None\<rparr>;
          r2 = change_clip (\<lambda>s. s\<lparr>ct_sendFeedback := True\<rparr>) r1
      in (ListenToEvents (report_refresh r2))\<lparr>rv_busy := False\<rparr>)"

definition OnGetResource :: "json_lib \<Rightarrow> int \<Rightarrow> json \<Rightarrow> clip_retriever \<Rightarrow> clip_retriever option" where
  "OnGetResource L now n r = (case json_find ''data'' n of
      None \<Rightarrow> Some (Clip_Finish OPERATION_FAILED True (change_bridge (\<lambda>b. b\<lparr>b_isValidIp := False\<rparr>) r))
    | Some data \<Rightarrow> do {
        r1 \<leftarrow> run_clip now (each (add_resource L (snd (resource_list ! rv_resourceToGet r))) (as_array data)) r;
        case json_find ''cursor'' n of
          Some c \<Rightarrow> Some (GetResource (''?cursor='' @ as_string L c) r1)
        | None \<Rightarrow>
            (let r2 = r1\<lparr>rv_resourceToGet := Suc (rv_resourceToGet r1)\<rparr>
             in Some (if rv_resourceToGet r2 < length resource_list then GetResource [] r2 else finish_fetch r2))
      })"

definition answer_resource ::
  "json_lib \<Rightarrow> (string \<Rightarrow> json) \<Rightarrow> int \<Rightarrow> clip_answer \<Rightarrow> clip_retriever \<Rightarrow> clip_retriever option" where
  "answer_resource L parse now a r = (case ValidateHttpRequestStatus a r of
      (True, r1) \<Rightarrow> OnGetResource L now (parse (an_body a)) r1
    | (False, r1) \<Rightarrow> Some (Clip_Finish OPERATION_FAILED True r1))"

section \<open>The event stream\<close>

text \<open>
  The texts of the events in the buffer, and what is left of it. An event is the text between
  \<open>data: \<close> and the \<open>id: \<close> of the next one, or the end; it is left in the buffer while it is no JSON text.
\<close>

lemma taken_char:
  assumes "take (length t) (drop i s) = t" "k < length t"
  shows "s ! (i + k) = t ! k"
proof -
  have "length (drop i s) \<ge> length t" using assms(1) by (metis length_take min.cobounded1)
  then have "drop i s ! k = s ! (i + k)" using assms(2) by (intro nth_drop) simp
  moreover have "take (length t) (drop i s) ! k = drop i s ! k" using assms(2) by (rule nth_take)
  ultimately show ?thesis using assms(1) by simp
qed

lemma event_end:
  assumes "find_sub s ''data: '' = Some p" "find_sub_from s ''id: '' p = Some e"
  shows "p + 6 \<le> e"
proof (rule ccontr)
  assume "\<not> p + 6 \<le> e"
  moreover have "p \<le> e" using find_sub_from_Some[OF assms(2)] by simp
  ultimately obtain k where k: "e = p + k" "k < 6" by (metis add_less_cancel_left le_Suc_ex linorder_not_le)
  have "s ! e = CHR ''i''" using taken_char[of "''id: ''" e s 0] find_sub_from_Some[OF assms(2)] by simp
  moreover have "s ! (p + k) = ''data: '' ! k" using taken_char[of "''data: ''" p s k] find_sub_Some[OF assms(1)] k(2) by simp
  moreover have "\<forall>c\<in>set ''data: ''. c \<noteq> CHR ''i''" by simp
  moreover have "''data: '' ! k \<in> set ''data: ''" using k(2) by (intro nth_mem) simp
  ultimately show False using k(1) by metis
qed

function event_texts :: "(string \<Rightarrow> bool) \<Rightarrow> string \<Rightarrow> string list \<times> string" where
  "event_texts is_valid buffer = (case find_sub buffer ''data: '' of
      None \<Rightarrow> ([], buffer)
    | Some startPos \<Rightarrow>
        (let endPos = (case find_sub_from buffer ''id: '' startPos of None \<Rightarrow> length buffer | Some e \<Rightarrow> e);
             jsonstr = take (endPos - (startPos + 6)) (drop (startPos + 6) buffer)
         in if \<not> is_valid jsonstr then ([], buffer)
            else let (texts, rest) = event_texts is_valid (drop endPos buffer) in (jsonstr # texts, rest)))"
  by pat_completeness auto
termination
proof (relation "measure (\<lambda>(is_valid, buffer). length buffer)")
  fix is_valid :: "string \<Rightarrow> bool" and buffer p x jsonstr
  assume p: "find_sub buffer ''data: '' = Some p"
    and x: "x = (case find_sub_from buffer ''id: '' p of None \<Rightarrow> length buffer | Some e \<Rightarrow> e)"
  have "length buffer > 0" using find_sub_Some[OF p] by (cases buffer) auto
  moreover have "x > 0"
  proof (cases "find_sub_from buffer ''id: '' p")
    case (Some e)
    then show ?thesis using event_end[OF p Some] x by simp
  qed (use x calculation in simp)
  ultimately show "((is_valid, drop x buffer), is_valid, buffer) \<in> measure (\<lambda>(is_valid, buffer). length buffer)" by simp
qed auto

declare event_texts.simps [simp del]

definition handle_text :: "json_lib \<Rightarrow> (string \<Rightarrow> json) \<Rightarrow> int \<Rightarrow> string \<Rightarrow> clip_retriever \<Rightarrow> clip_retriever option" where
  "handle_text L parse now text r = do {
     (ok, s) \<leftarrow> ParseJsonEvent L (parse text) (rv_clip r);
     r1 \<leftarrow> run_clip now (\<lambda>_. Some s) r;
     Some (Clip_Finish (if ok then OPERATION_SUCCESS else OPERATION_FAILED) True r1)
   }"

definition answer_events :: "json_lib \<Rightarrow> (string \<Rightarrow> bool) \<Rightarrow> (string \<Rightarrow> json) \<Rightarrow> int \<Rightarrow> clip_answer
    \<Rightarrow> clip_retriever \<Rightarrow> clip_retriever option" where
  "answer_events L is_valid parse now a r =
     (if an_code a = HTTP_REQUEST_ERROR_CODE_SUCCESS
      then let (texts, rest) = event_texts is_valid (rv_responseEvent r @ an_body a)
           in each (handle_text L parse now) texts (r\<lparr>rv_responseEvent := rest\<rparr>)
      else Some (if an_code a \<noteq> HTTP_REQUEST_ERROR_CODE_CANCELED then Clip_Finish OPERATION_FAILED True r else r))"

text \<open>The callback of a request.\<close>

definition answer_request :: "json_lib \<Rightarrow> (string \<Rightarrow> bool) \<Rightarrow> (string \<Rightarrow> json) \<Rightarrow> int \<Rightarrow> retriever_request \<Rightarrow> clip_answer
    \<Rightarrow> clip_retriever \<Rightarrow> clip_retriever option" where
  "answer_request L is_valid parse now q a r = (case q of
      Get_whitelist k \<Rightarrow> answer_whitelist L parse k now a r
    | Get_appId \<Rightarrow> Some (answer_appId a r)
    | Get_resource \<Rightarrow> answer_resource L parse now a r
    | Get_events \<Rightarrow> answer_events L is_valid parse now a r)"

text \<open>A retriever that is connected to the bridge of the sample.\<close>

definition sample_retriever :: clip_retriever where
  "sample_retriever = \<lparr>rv_clip = sample_clip_state, rv_hasBridge = True, rv_connected = True, rv_refreshing = False,
     rv_busy = False, rv_cb = None, rv_responseEvent = [], rv_eventRequestId = Some 0, rv_resourceToGet = 8,
     rv_feedbackMessageMap = [], rv_nextSendFeedbackIsScheduled = False, rv_lastFeedbackTime = 0,
     rv_sendConnectFeedback = False, rv_previouslySelectedGroupName = [], rv_nextRequest = 1, rv_output = []\<rparr>"

end
