(* ===== verification/EventStream.thy ===== *)
theory EventStream imports ClipRetriever begin

text \<open>
  The stream of events of a clip v2 bridge: it arrives in fragments of any size, and the retriever puts its
  events together again, unless the text of an event itself contains the mark of the next one.
\<close>

section \<open>Searching in a text that grows\<close>

lemma plus_nothing [simp]: "map_option ((+) (0 :: nat)) x = x"
  by (cases x) simp_all

lemma find_sub_skip: "c \<notin> set u \<Longrightarrow> find_sub (u @ s) (c # t) = map_option ((+) (length u)) (find_sub s (c # t))"
proof (induction u)
  case Nil
  then show ?case by (cases "find_sub s (c # t)") simp_all
next
  case (Cons a u)
  then show ?case by (cases "find_sub s (c # t)") auto
qed

lemma find_sub_longer: "find_sub s t = Some i \<Longrightarrow> find_sub (s @ r) t = Some i"
proof (induction s arbitrary: i)
  case Nil
  then show ?case by (cases r) (auto split: if_splits)
next
  case (Cons x xs)
  show ?case
  proof (cases "take (length t) (x # xs) = t")
    case True
    then have "length t \<le> length (x # xs)" by (metis length_take min.cobounded1)
    then have "take (length t) ((x # xs) @ r) = t" using True by (simp only: take_append) simp
    then show ?thesis using True Cons.prems by simp
  next
    case False
    then obtain j where j: "find_sub xs t = Some j" "i = Suc j" using Cons.prems by auto
    then have "length t \<le> length (x # xs)" using find_sub_Some[OF j(1)] by simp
    then have "take (length t) ((x # xs) @ r) \<noteq> t" using False by (simp only: take_append) simp
    then show ?thesis using Cons.IH[OF j(1)] j(2) by simp
  qed
qed

text \<open>A newline, which the marks do not have, separates what is found.\<close>

abbreviation newline :: char where "newline \<equiv> CHR 0x0A"

lemma find_sub_newline:
  assumes "find_sub s t = None" "newline \<notin> set t" "r = [] \<or> hd r = newline"
  shows "find_sub (s @ r) t = map_option ((+) (length s)) (find_sub r t)"
  using assms(1)
proof (induction s)
  case (Cons x xs)
  have "take (length t) ((x # xs) @ r) \<noteq> t"
  proof
    assume *: "take (length t) ((x # xs) @ r) = t"
    have no: "take (length t) (x # xs) \<noteq> t" "find_sub xs t = None" using Cons.prems by (auto split: if_splits)
    have short: "length (x # xs) < length t" "r \<noteq> []"
    proof -
      show "length (x # xs) < length t"
      proof (rule ccontr)
        assume "\<not> length (x # xs) < length t"
        then have "take (length t) ((x # xs) @ r) = take (length t) (x # xs)" by (simp only: take_append) simp
        then show False using * no(1) by simp
      qed
      show "r \<noteq> []" using * no(1) by (cases r) auto
    qed
    then have "(take (length t) ((x # xs) @ r)) ! length (x # xs) = newline"
      using assms(3) by (simp only: nth_take nth_append_length_plus[of _ _ 0, simplified]) (simp add: nth_append hd_conv_nth)
    then show False using assms(2) short(1) * by (metis nth_mem)
  qed
  then show ?case using Cons by (auto simp: option.map_comp comp_def split: if_splits)
qed (use assms in \<open>auto simp: option.map_ident split: if_splits\<close>)

section \<open>The format\<close>

definition event_frame :: "string \<times> string \<Rightarrow> string" where
  "event_frame e = ''id: '' @ fst e @ [newline] @ ''data: '' @ snd e @ [newline, newline]"

text \<open>The text of an event: its prefixes are no JSON texts, white space behind it changes nothing, and it has no mark.\<close>

definition event_text :: "(string \<Rightarrow> bool) \<Rightarrow> string \<Rightarrow> bool" where
  "event_text is_valid t \<longleftrightarrow> find_sub t ''id: '' = None \<and> list_all (\<lambda>i. \<not> is_valid (take i t)) [0..<length t]
     \<and> list_all (\<lambda>w. is_valid (t @ w)) [[], [newline], [newline, newline]]
     \<and> list_all (\<lambda>w. \<not> is_valid (t @ newline # newline # w)) [''i'', ''id'', ''id:'']"

definition event_ready :: "(string \<Rightarrow> bool) \<Rightarrow> string \<times> string \<Rightarrow> bool" where
  "event_ready is_valid e \<longleftrightarrow> CHR ''d'' \<notin> set (fst e) \<and> event_text is_valid (snd e)"

abbreviation frames :: "(string \<times> string) list \<Rightarrow> string" where
  "frames es \<equiv> concat (map event_frame es)"

abbreviation frame_head :: "string \<Rightarrow> string \<Rightarrow> string" where
  "frame_head g k \<equiv> g @ ''id: '' @ k @ [newline]"

lemma frames_Cons: "frames ((k, t) # es) = ''id: '' @ k @ [newline] @ ''data: '' @ t @ [newline, newline] @ frames es"
  by (simp add: event_frame_def)

lemma data_found:
  assumes "CHR ''d'' \<notin> set g" "CHR ''d'' \<notin> set k"
  shows "find_sub (frame_head g k @ ''data: '' @ s) ''data: '' = Some (length (frame_head g k))"
proof -
  have "find_sub (''id: '' @ k @ [newline] @ ''data: '' @ s) ''data: ''
      = map_option ((+) 2) (find_sub (('': '' @ k @ [newline]) @ ''data: '' @ s) ''data: '')"
    by (simp add: option.map_comp comp_def)
  also have "\<dots> = map_option ((+) 2) (map_option ((+) (length ('': '' @ k @ [newline]))) (find_sub (''data: '' @ s) ''data: ''))"
    using assms(2) by (subst find_sub_skip) simp_all
  finally have "find_sub (''id: '' @ k @ [newline] @ ''data: '' @ s) ''data: '' = Some (length (''id: '' @ k @ [newline]))"
    by simp
  then show ?thesis using find_sub_skip[OF assms(1)] by simp
qed

lemma data_not_found:
  assumes "CHR ''d'' \<notin> set g" "CHR ''d'' \<notin> set k" "b @ r = frame_head g k @ ''data: '' @ s" "length b < length (frame_head g k) + 6"
  shows "find_sub b ''data: '' = None"
proof (cases "find_sub b ''data: ''")
  case (Some i)
  then have "i = length (frame_head g k)" using find_sub_longer[OF Some, of r] data_found[OF assms(1,2)] assms(3) by simp
  then show ?thesis using find_sub_Some[OF Some] assms(4) by simp
qed simp

text \<open>The step of the loop at a buffer that begins with an event.\<close>

lemma texts_step:
  assumes "CHR ''d'' \<notin> set g" "CHR ''d'' \<notin> set k"
  shows "event_texts v (frame_head g k @ ''data: '' @ s)
    = (let n = (case find_sub s ''id: '' of None \<Rightarrow> length s | Some n \<Rightarrow> n)
       in if \<not> v (take n s) then ([], frame_head g k @ ''data: '' @ s)
          else let (texts, rest) = event_texts v (drop n s) in (take n s # texts, rest))"
proof -
  define h where "h = frame_head g k"
  have p: "find_sub (h @ ''data: '' @ s) ''data: '' = Some (length h)"
    unfolding h_def by (rule data_found[OF assms])
  have "find_sub_from (h @ ''data: '' @ s) ''id: '' (length h) = map_option ((+) (length h)) (find_sub (''data: '' @ s) ''id: '')"
    by (simp add: find_sub_from_def)
  also have "find_sub (''data: '' @ s) ''id: '' = map_option ((+) 6) (find_sub s ''id: '')"
    by (cases "find_sub s ''id: ''") simp_all
  finally have e: "find_sub_from (h @ ''data: '' @ s) ''id: '' (length h) = map_option (\<lambda>n. length h + 6 + n) (find_sub s ''id: '')"
    by (cases "find_sub s ''id: ''") simp_all
  have rhs: "event_texts v (h @ ''data: '' @ s) = (let x = (case map_option (\<lambda>n. length h + 6 + n) (find_sub s ''id: '') of
        None \<Rightarrow> length (h @ ''data: '' @ s) | Some e \<Rightarrow> e); j = take (x - (length h + 6)) (drop (length h + 6) (h @ ''data: '' @ s))
      in if \<not> v j then ([], h @ ''data: '' @ s)
         else let (texts, rest) = event_texts v (drop x (h @ ''data: '' @ s)) in (j # texts, rest))"
    by (subst event_texts.simps) (simp only: p e option.case)
  have drop_head: "drop (length h + 6) (h @ ''data: '' @ s) = s" by simp
  then have "drop (length h + 6 + n) (h @ ''data: '' @ s) = drop n s" for n by (metis add.commute drop_drop)
  note drops = drop_head this
  show ?thesis
    unfolding h_def[symmetric] rhs drops
    by (cases "find_sub s ''id: ''") (simp_all only: option.map option.case Let_def drops, simp_all)
qed

section \<open>Reassembly\<close>

text \<open>What is told from an event: its text, perhaps with white space.\<close>

definition delivered :: "string \<Rightarrow> string \<times> string \<Rightarrow> bool" where
  "delivered u e \<longleftrightarrow> (\<exists>w. set w \<subseteq> {newline} \<and> u = snd e @ w)"

lemma text_cut:
  assumes "event_text v t" "n < length t"
  shows "find_sub (take n t) ''id: '' = None" "\<not> v (take n t)"
proof -
  show "find_sub (take n t) ''id: '' = None"
    using assms(1) find_sub_longer[of "take n t" "''id: ''" _ "drop n t"] by (cases "find_sub (take n t) ''id: ''") (simp_all add: event_text_def)
  show "\<not> v (take n t)" using assms by (auto simp: event_text_def list_all_iff)
qed

lemma text_mark:
  assumes "event_text v t" "r = [] \<or> hd r = newline"
  shows "find_sub (t @ r) ''id: '' = map_option ((+) (length t)) (find_sub r ''id: '')"
  using assms find_sub_newline[of t "''id: ''" r] by (simp add: event_text_def)

lemma frames_start: "frames es = [] \<or> (\<exists>z. frames es = ''id: '' @ z)"
  by (cases es) (auto simp: event_frame_def)

lemma frames_empty: "frames es = [] \<longleftrightarrow> es = []"
  by (cases es) (auto simp: event_frame_def)

lemma prefix_split: "b @ r = u @ x \<Longrightarrow> length u \<le> length b \<Longrightarrow> \<exists>s. b = u @ s \<and> s @ r = x"
  by (auto simp: append_eq_append_conv2)

lemma short_prefix: "z @ r = ''id: '' @ w \<Longrightarrow> length z < 4 \<Longrightarrow> z \<in> {[], ''i'', ''id'', ''id:''}"
  by (cases z rule: list.exhaust; cases "tl z" rule: list.exhaust; cases "tl (tl z)" rule: list.exhaust;
      cases "tl (tl (tl z))" rule: list.exhaust) auto

definition reassembled :: "(string \<times> string) list \<Rightarrow> string list \<Rightarrow> string \<Rightarrow> string \<Rightarrow> bool" where
  "reassembled es us b r \<longleftrightarrow> (\<exists>es1 es2 g. es = es1 @ es2 \<and> list_all2 delivered us es1
     \<and> b @ r = g @ frames es2 \<and> set g \<subseteq> {newline} \<and> (r = [] \<longrightarrow> es2 = []))"

lemma reassembled_Cons: "reassembled es us b r \<Longrightarrow> delivered u e \<Longrightarrow> reassembled (e # es) (u # us) b r"
proof -
  assume "reassembled es us b r" and u: "delivered u e"
  then obtain es1 es2 g where "es = es1 @ es2" "list_all2 delivered us es1" "b @ r = g @ frames es2" "set g \<subseteq> {newline}"
    "r = [] \<longrightarrow> es2 = []" by (auto simp: reassembled_def)
  then show ?thesis using u unfolding reassembled_def by (intro exI[of _ "e # es1"] exI[of _ es2] exI[of _ g]) simp
qed

lemma nothing_yet: "b @ r = g @ frames es \<Longrightarrow> set g \<subseteq> {newline} \<Longrightarrow> (r = [] \<Longrightarrow> es = []) \<Longrightarrow> reassembled es [] b r"
  unfolding reassembled_def by (intro exI[of _ "[]"] exI[of _ es] exI[of _ g]) simp

lemma nothing_told:
  assumes "event_texts v b = ([], b)" "event_texts v b = (us, rest)" "b @ r = g @ frames es" "set g \<subseteq> {newline}" "r = [] \<Longrightarrow> es = []"
  shows "reassembled es us rest r"
  using assms nothing_yet[OF assms(3-5)] by simp

lemma no_data: "find_sub b ''data: '' = None \<Longrightarrow> event_texts v b = ([], b)"
  by (simp add: event_texts.simps[of v b])

lemma texts_reassembled:
  assumes "b @ r = g @ frames es" "set g \<subseteq> {newline}" "list_all (event_ready v) es" "event_texts v b = (us, rest)"
  shows "reassembled es us rest r"
  using assms
proof (induction es arbitrary: b g us rest)
  case Nil
  have "CHR ''d'' \<notin> set b" using arg_cong[OF Nil.prems(1), of set] Nil.prems(2) by auto
  then have "find_sub b ''data: '' = None" using find_sub_skip[of "CHR ''d''" b "[]" "''ata: ''"] by simp
  then show ?case using nothing_told[OF no_data Nil.prems(4,1,2)] by simp
next
  case (Cons e es)
  obtain k t where e: "e = (k, t)" by (cases e)
  have k: "CHR ''d'' \<notin> set k" and t: "event_text v t" using Cons.prems(3) e by (simp_all add: event_ready_def)
  have g: "CHR ''d'' \<notin> set g" using Cons.prems(2) by auto
  define h where "h = frame_head g k"
  have br: "b @ r = h @ ''data: '' @ t @ [newline, newline] @ frames es"
    using Cons.prems(1) unfolding e frames_Cons h_def by simp
  show ?case
  proof (cases "length b < length h + 6")
    case True
    then have "event_texts v b = ([], b)" using data_not_found[OF g k br[unfolded h_def]] by (intro no_data) (simp add: h_def)
    moreover have "r \<noteq> []" using br True by (auto dest: arg_cong[of _ _ length])
    ultimately show ?thesis using nothing_told[OF _ Cons.prems(4,1,2)] by simp
  next
    case False
    then obtain s where s: "b = h @ ''data: '' @ s" "s @ r = t @ [newline, newline] @ frames es"
      using prefix_split[of b r "h @ ''data: ''"] br by auto
    note step = texts_step[OF g k, of v s, folded h_def, folded s(1)]
    show ?thesis
    proof (cases "length s < length t")
      case True
      then have cut: "s = take (length s) t"
        using prefix_split[of t "[newline, newline] @ frames es" s r] s(2) by auto
      then have "event_texts v b = ([], b)" using text_cut[OF t True] step by simp
      moreover have "r \<noteq> []" using s(2) True by (auto dest: arg_cong[of _ _ length])
      ultimately show ?thesis using nothing_told[OF _ Cons.prems(4,1,2)] by simp
    next
      case False
      then obtain y where y: "s = t @ y" "y @ r = [newline, newline] @ frames es"
        using prefix_split[OF s(2)] by auto
      have mark: "find_sub s ''id: '' = map_option ((+) (length t)) (find_sub y ''id: '')"
        using text_mark[OF t, of y] y by (cases y) auto
      show ?thesis
      proof (cases "length y \<le> 2")
        case True
        then obtain w where w: "[newline, newline] = y @ w" "w @ frames es = r"
          using prefix_split[of "[newline, newline]" "frames es" y r] y(2) by auto
        then have "y \<in> {[], [newline], [newline, newline]}" by (auto simp: Cons_eq_append_conv)
        then have "find_sub y ''id: '' = None" "v s" "set y \<subseteq> {newline}" "set w \<subseteq> {newline}"
          using t y(1) w(1) by (auto simp: event_text_def)
        then have "event_texts v b = ([s], [])" "delivered s e"
          using step mark by (auto simp: event_texts.simps[of v "[]"] delivered_def e y(1))
        moreover have "reassembled es [] [] r"
          using w(2) \<open>set w \<subseteq> {newline}\<close> frames_empty[of es] by (intro nothing_yet[of "[]" r w]) auto
        ultimately show ?thesis using reassembled_Cons Cons.prems(4) by simp
      next
        case False
        then have "length [newline, newline] \<le> length y" by simp
        then obtain z where z: "y = [newline, newline] @ z" "z @ r = frames es" using prefix_split[OF y(2)] by blast
        then have "z \<noteq> []" using False by auto
        then obtain q where q: "frames es = ''id: '' @ q" using frames_start[of es] z(2) \<open>z \<noteq> []\<close> by fastforce
        show ?thesis
        proof (cases "length z < 4")
          case True
          then have *: "z \<in> {''i'', ''id'', ''id:''}" using short_prefix[of z r q] z(2) \<open>z \<noteq> []\<close> q by simp
          then have "find_sub y ''id: '' = None" "\<not> v s" using t z(1) y(1) by (auto simp: event_text_def)
          then have "event_texts v b = ([], b)" using step mark by simp
          moreover have "r \<noteq> []" using z(2) q True by (auto dest: arg_cong[of _ _ length])
          ultimately show ?thesis using nothing_told[OF _ Cons.prems(4,1,2)] by simp
        next
          case False
          then obtain z' where z': "z = ''id: '' @ z'" using prefix_split[of z r "''id: ''" q] z(2) q by auto
          obtain us' rest' where rec: "event_texts v z = (us', rest')" by fastforce
          have "find_sub y ''id: '' = Some 2" using z(1) z' by simp
          moreover have "v (t @ [newline, newline])" using t by (simp add: event_text_def)
          ultimately have "event_texts v b = ((t @ [newline, newline]) # us', rest')"
            using step mark rec by (simp add: y(1) z(1))
          moreover have "reassembled es us' rest' r"
            using Cons.IH[of z "[]" us' rest'] z(2) rec Cons.prems(3) by simp
          moreover have "delivered (t @ [newline, newline]) e" by (auto simp: delivered_def e)
          ultimately show ?thesis using reassembled_Cons Cons.prems(4) by simp
        qed
      qed
    qed
  qed
qed

section \<open>The retriever\<close>

text \<open>The fragments arrive one after the other.\<close>

definition fragment :: "string \<Rightarrow> clip_answer" where
  "fragment c = \<lparr>an_code = HTTP_REQUEST_ERROR_CODE_SUCCESS, an_status = 200, an_body = c, an_appId = []\<rparr>"

fun read_fragments :: "(string \<Rightarrow> bool) \<Rightarrow> string list \<Rightarrow> string \<Rightarrow> string list \<times> string" where
  "read_fragments v [] b = ([], b)"
| "read_fragments v (c # cs) b = (let (us, b1) = event_texts v (b @ c); (us', b2) = read_fragments v cs b1 in (us @ us', b2))"

lemma fragments_reassembled:
  assumes "b @ concat cs = g @ frames es" "set g \<subseteq> {newline}" "list_all (event_ready v) es" "es = [] \<or> cs \<noteq> []"
  shows "list_all2 delivered (fst (read_fragments v cs b)) es"
  using assms
proof (induction cs arbitrary: b g es)
  case (Cons c cs)
  obtain us b1 where t: "event_texts v (b @ c) = (us, b1)" by fastforce
  obtain es1 es2 g' where es: "es = es1 @ es2" "list_all2 delivered us es1" "b1 @ concat cs = g' @ frames es2"
    "set g' \<subseteq> {newline}" "concat cs = [] \<longrightarrow> es2 = []"
    using texts_reassembled[of "b @ c" "concat cs" g es v us b1] Cons.prems t by (auto simp: reassembled_def)
  then have "list_all2 delivered (fst (read_fragments v cs b1)) es2"
    using Cons.prems(3) by (intro Cons.IH[of b1 g' es2]) auto
  then show ?case using t es(1,2) by (simp add: case_prod_unfold Let_def list_all2_appendI)
qed simp

lemma stored_output: "put out (r\<lparr>rv_responseEvent := b\<rparr>) = (put out r)\<lparr>rv_responseEvent := b\<rparr>"
  by (simp add: put_def)

lemma stored_finish: "Clip_Finish res u (r\<lparr>rv_responseEvent := b\<rparr>) = (Clip_Finish res u r)\<lparr>rv_responseEvent := b\<rparr>"
  by (simp add: Clip_Finish_def Let_def put_def split: option.split)

lemma stored_pass: "pass_output now out (r\<lparr>rv_responseEvent := b\<rparr>) = (pass_output now out r)\<lparr>rv_responseEvent := b\<rparr>"
  by (simp add: pass_output_def put_def Clip_ScheduleFeedback_def DispatchFeedback_def UpdateWhitelist_def send_request_def
      rv_bridge_def Let_def split: clip_output.split)

lemma stored_outputs:
  "fold (pass_output now) outs (r\<lparr>rv_responseEvent := b\<rparr>) = (fold (pass_output now) outs r)\<lparr>rv_responseEvent := b\<rparr>"
  by (induction outs arbitrary: r) (simp_all add: stored_pass)

lemma stored_text:
  "handle_text L parse now t (r\<lparr>rv_responseEvent := b\<rparr>) = map_option (rv_responseEvent_update (\<lambda>_. b)) (handle_text L parse now t r)"
proof -
  have "fold (pass_output now) outs (r\<lparr>rv_responseEvent := b, rv_clip := s\<rparr>)
      = (fold (pass_output now) outs (r\<lparr>rv_clip := s\<rparr>))\<lparr>rv_responseEvent := b\<rparr>" for outs s
  proof -
    have "r\<lparr>rv_responseEvent := b, rv_clip := s\<rparr> = r\<lparr>rv_clip := s, rv_responseEvent := b\<rparr>" by simp
    then show ?thesis by (simp only: stored_outputs)
  qed
  then show ?thesis
    by (cases "ParseJsonEvent L (parse t) (rv_clip r)") (simp_all add: handle_text_def run_clip_def stored_finish case_prod_unfold)
qed

lemma stored_texts:
  "each (handle_text L parse now) ts (r\<lparr>rv_responseEvent := b\<rparr>) = map_option (rv_responseEvent_update (\<lambda>_. b)) (each (handle_text L parse now) ts r)"
  by (induction ts arbitrary: r) (auto simp: stored_text split: option.split)

lemma stored_again: "x\<lparr>rv_responseEvent := a, rv_responseEvent := b\<rparr> = x\<lparr>rv_responseEvent := b\<rparr>"
  by simp

lemma fragments_handled:
  "each (\<lambda>c. answer_events L v parse now (fragment c)) cs r
   = map_option (rv_responseEvent_update (\<lambda>_. snd (read_fragments v cs (rv_responseEvent r))))
       (each (handle_text L parse now) (fst (read_fragments v cs (rv_responseEvent r))) r)"
proof (induction cs arbitrary: r)
  case Nil
  then show ?case by simp
next
  case (Cons c cs)
  obtain us b1 where t: "event_texts v (rv_responseEvent r @ c) = (us, b1)" by fastforce
  obtain us' b2 where t': "read_fragments v cs b1 = (us', b2)" by fastforce
  have first: "answer_events L v parse now (fragment c) r
      = map_option (rv_responseEvent_update (\<lambda>_. b1)) (each (handle_text L parse now) us r)"
    using t by (simp add: answer_events_def fragment_def stored_texts)
  show ?case
  proof (cases "each (handle_text L parse now) us r")
    case None
    then show ?thesis using first t t' by (simp add: each_append)
  next
    case (Some r1)
    have "each (\<lambda>c. answer_events L v parse now (fragment c)) cs (r1\<lparr>rv_responseEvent := b1\<rparr>)
      = map_option (rv_responseEvent_update (\<lambda>_. b2)) (map_option (rv_responseEvent_update (\<lambda>_. b1)) (each (handle_text L parse now) us' r1))"
      using Cons.IH[of "r1\<lparr>rv_responseEvent := b1\<rparr>"] t' by (simp add: stored_texts)
    then show ?thesis using first t t' Some by (simp add: each_append option.map_comp comp_def)
  qed
qed


lemma mark_found:
  assumes "find_sub (t @ ''id:'') ''id: '' = None"
  shows "find_sub (t @ ''id: '' @ w) ''id: '' = Some (length t)"
proof -
  let ?s = "t @ ''id: ''"
  have at: "take 4 (drop (length t) ?s) = ''id: ''" by simp
  then obtain i where i: "find_sub ?s ''id: '' = Some i" using find_sub_None[of ?s "''id: ''" "length t"] by fastforce
  have len: "length ''id: '' = 4" by simp
  have i4: "take 4 (drop i ?s) = ''id: ''" "i \<le> length t" using find_sub_Some[OF i, unfolded len] by (blast, simp)
  have cut: "take n ''id: '' = take n ''id:''" if "n \<le> 3" for n using that take_append[of n "''id:''" "'' ''"] by simp
  have "take 4 (drop i ?s) \<noteq> ''id: ''" if "i < length t"
  proof -
    have "take 4 (drop i ?s) = take 4 (drop i (t @ ''id:''))" using that cut by (simp add: take_append)
    then show ?thesis using find_sub_None[OF assms, of i, unfolded len] by metis
  qed
  then have "i = length t" using i4 by (metis le_neq_implies_less)
  then show ?thesis using find_sub_longer[OF i, of w] by simp
qed

text \<open>
  C26 (liveness). Once the text of an event contains the mark of the next event, as in the name of a light, and the part
  before it is no JSON text, no event is handled any more, whatever arrives.
\<close>

theorem cut_event_blocks_stream:
  assumes "rv_responseEvent r = frame_head g k @ ''data: '' @ t @ ''id: '' @ rest" "CHR ''d'' \<notin> set (g @ k)"
    "find_sub (t @ ''id:'') ''id: '' = None" "\<not> v t"
  shows "each (\<lambda>c. answer_events L v parse now (fragment c)) cs r
    = Some (r\<lparr>rv_responseEvent := rv_responseEvent r @ concat cs\<rparr>)"
  using assms(1)
proof (induction cs arbitrary: r rest)
  case (Cons c cs)
  have "find_sub (t @ ''id: '' @ w) ''id: '' = Some (length t)" for w using mark_found[OF assms(3)] .
  then have "event_texts v (rv_responseEvent r @ c) = ([], rv_responseEvent r @ c)"
    using texts_step[of g k v "t @ ''id: '' @ rest @ c"] Cons.prems assms(2,4) by (simp add: Let_def)
  then show ?case using Cons by (simp add: answer_events_def fragment_def)
qed simp

text \<open>A checker that accepts the empty array followed by white space, and the texts it is tried on.\<close>

definition empty_array :: "string \<Rightarrow> bool" where
  "empty_array t \<longleftrightarrow> t \<in> {''[]'', ''[]'' @ [newline], ''[]'' @ [newline, newline]}"

definition empty_parse :: "string \<Rightarrow> json" where
  "empty_parse t = (if takeWhile (\<lambda>c. c \<noteq> newline) t = ''[]'' then JArray [] else JNull)"

definition sample_fragments :: "string list" where
  "sample_fragments = [''id: 1'', [newline] @ ''data: ['', '']'' @ [newline], [newline] @ ''id'', '': 2'' @ [newline] @ ''data: []'' @ [newline, newline]]"


theorem cut_event_blocks_stream_witness:
  "each (\<lambda>c. answer_events sample_json_lib empty_array empty_parse 0 (fragment c)) sample_fragments
     (sample_retriever\<lparr>rv_responseEvent := ''id: 0'' @ [newline] @ ''data: [gr'' @ ''id: left]''\<rparr>) \<noteq> None"
proof -
  define r where "r = sample_retriever\<lparr>rv_responseEvent := ''id: 0'' @ [newline] @ ''data: [gr'' @ ''id: left]''\<rparr>"
  have *: "rv_responseEvent r = frame_head [] ''0'' @ ''data: '' @ ''[gr'' @ ''id: '' @ ''left]''" "CHR ''d'' \<notin> set ([] @ ''0'')"
    "find_sub (''[gr'' @ ''id:'') ''id: '' = None" "\<not> empty_array ''[gr''"
    by (simp_all add: r_def empty_array_def)
  show ?thesis
    unfolding r_def[symmetric] cut_event_blocks_stream[where r = r and v = empty_array, OF *] by simp
qed

end
