(* ===== verification/ClipFetch.thy ===== *)
theory ClipFetch imports ClipRetriever begin

text \<open>
  The fetch of a configuration over the pages of its resources, and what a refresh of the connection can
  leave behind.
\<close>

section \<open>What the outputs leave alone\<close>

lemma put_kept [simp]:
  "rv_clip (put out r) = rv_clip r" "rv_connected (put out r) = rv_connected r" "rv_busy (put out r) = rv_busy r"
  "rv_refreshing (put out r) = rv_refreshing r" "rv_cb (put out r) = rv_cb r" "rv_hasBridge (put out r) = rv_hasBridge r"
  "rv_eventRequestId (put out r) = rv_eventRequestId r" "rv_resourceToGet (put out r) = rv_resourceToGet r"
  "rv_output (put out r) = rv_output r @ [out]" "rv_sendConnectFeedback (put out r) = rv_sendConnectFeedback r"
  by (simp_all add: put_def)

lemma request_kept [simp]:
  "rv_clip (send_request q u r) = rv_clip r" "rv_connected (send_request q u r) = rv_connected r"
  "rv_busy (send_request q u r) = rv_busy r" "rv_refreshing (send_request q u r) = rv_refreshing r"
  "rv_cb (send_request q u r) = rv_cb r" "rv_hasBridge (send_request q u r) = rv_hasBridge r"
  "rv_eventRequestId (send_request q u r) = rv_eventRequestId r" "rv_resourceToGet (send_request q u r) = rv_resourceToGet r"
  "rv_output (send_request q u r) = rv_output r @ [Request (rv_nextRequest r) q u]"
  "rv_sendConnectFeedback (send_request q u r) = rv_sendConnectFeedback r"
  by (simp_all add: send_request_def)

lemma change_kept [simp]:
  "rv_clip (change_clip f r) = f (rv_clip r)" "rv_connected (change_clip f r) = rv_connected r"
  "rv_busy (change_clip f r) = rv_busy r" "rv_refreshing (change_clip f r) = rv_refreshing r"
  "rv_cb (change_clip f r) = rv_cb r" "rv_hasBridge (change_clip f r) = rv_hasBridge r"
  "rv_eventRequestId (change_clip f r) = rv_eventRequestId r" "rv_resourceToGet (change_clip f r) = rv_resourceToGet r"
  "rv_output (change_clip f r) = rv_output r" "rv_sendConnectFeedback (change_clip f r) = rv_sendConnectFeedback r"
  by (simp_all add: change_clip_def)

lemma pass_kept:
  "rv_clip (pass_output now out r) = rv_clip r" "rv_connected (pass_output now out r) = rv_connected r"
  "rv_busy (pass_output now out r) = rv_busy r" "rv_refreshing (pass_output now out r) = rv_refreshing r"
  "rv_cb (pass_output now out r) = rv_cb r" "rv_eventRequestId (pass_output now out r) = rv_eventRequestId r"
  "rv_resourceToGet (pass_output now out r) = rv_resourceToGet r"
  "set (rv_output r) \<subseteq> set (rv_output (pass_output now out r))"
  by (auto simp: pass_output_def Clip_ScheduleFeedback_def DispatchFeedback_def UpdateWhitelist_def Let_def split: clip_output.split)

lemma passed_kept:
  "rv_clip (fold (pass_output now) outs r) = rv_clip r" "rv_connected (fold (pass_output now) outs r) = rv_connected r"
  "rv_busy (fold (pass_output now) outs r) = rv_busy r" "rv_refreshing (fold (pass_output now) outs r) = rv_refreshing r"
  "rv_cb (fold (pass_output now) outs r) = rv_cb r" "rv_eventRequestId (fold (pass_output now) outs r) = rv_eventRequestId r"
  "rv_resourceToGet (fold (pass_output now) outs r) = rv_resourceToGet r"
  by (induction outs arbitrary: r) (simp_all add: pass_kept)

section \<open>The pages of a fetch\<close>

definition page_data :: "json \<Rightarrow> json list" where
  "page_data d = as_array (GetAttributeValue d ''data'')"

definition next_resource :: "nat \<Rightarrow> json \<Rightarrow> nat" where
  "next_resource k d = (if IsAttributeSet d ''cursor'' then k else Suc k)"

text \<open>Pages that end with the last one of the last kind of resource, and the resources on them.\<close>

fun pages_complete :: "nat \<Rightarrow> json list \<Rightarrow> bool" where
  "pages_complete k [] = (k = length resource_list)"
| "pages_complete k (d # ds) = (k < length resource_list \<and> IsAttributeSet d ''data'' \<and> pages_complete (next_resource k d) ds)"

fun page_resources :: "nat \<Rightarrow> json list \<Rightarrow> (resource_kind \<times> json) list" where
  "page_resources k [] = []"
| "page_resources k (d # ds) = map (Pair (snd (resource_list ! k))) (page_data d) @ page_resources (next_resource k d) ds"

definition resource_ids :: "json_lib \<Rightarrow> resource_kind \<Rightarrow> (resource_kind \<times> json) list \<Rightarrow> string list" where
  "resource_ids L k rs = map (\<lambda>(_, n). DeserializeString L n ''id'' []) (filter (\<lambda>(k', _). k' = k) rs)"

definition page :: "string \<Rightarrow> clip_answer" where
  "page body = \<lparr>an_code = HTTP_REQUEST_ERROR_CODE_SUCCESS, an_status = 200, an_body = body, an_appId = []\<rparr>"

lemma added_resource:
  assumes "add_resource L k n s = Some s'" "clip_inv s"
  shows "clip_inv s' \<and> group_ids s' = group_ids s @ resource_ids L RConfiguration [(k, n)]
    \<and> zone_ids s' = zone_ids s @ filter (\<lambda>i. i \<noteq> []) (resource_ids L RZone [(k, n)])"
proof -
  consider "k = RConfiguration" | "k = RZone" | "k \<noteq> RConfiguration" "k \<noteq> RZone" by blast
  then show ?thesis
  proof cases
    case 1
    then show ?thesis using assms added_configuration by (simp add: add_resource_def resource_ids_def)
  next
    case 2
    show ?thesis
    proof (cases "DeserializeString L n ''id'' [] = []")
      case True
      then show ?thesis using 2 assms by (simp add: add_resource_def resource_ids_def AddZone_def Let_def case_prod_unfold)
    next
      case False
      then show ?thesis using 2 assms added_zone by (simp add: add_resource_def resource_ids_def)
    qed
  next
    case 3
    then have "skeleton s' = skeleton s"
      using assms(1) by (cases k) (auto simp: add_resource_def dest: skeleton_devices skeleton_AddBridge skeleton_scenes)
    then show ?thesis using 3 assms(2) skeleton_ids[of s' s] skeleton_inv[of s' s] by (simp add: resource_ids_def)
  qed
qed

lemma added_resources:
  assumes "each (add_resource L k) ns s = Some s'" "clip_inv s"
  shows "clip_inv s' \<and> group_ids s' = group_ids s @ resource_ids L RConfiguration (map (Pair k) ns)
    \<and> zone_ids s' = zone_ids s @ filter (\<lambda>i. i \<noteq> []) (resource_ids L RZone (map (Pair k) ns))"
  using assms
proof (induction ns arbitrary: s)
  case (Cons n ns)
  then obtain s1 where s1: "add_resource L k n s = Some s1" "each (add_resource L k) ns s1 = Some s'"
    by (auto split: option.splits)
  then show ?case using Cons.IH[OF s1(2)] added_resource[OF s1(1) Cons.prems(2)] by (simp add: resource_ids_def)
qed (simp add: resource_ids_def)

lemma resource_ids_append: "resource_ids L k (xs @ ys) = resource_ids L k xs @ resource_ids L k ys"
  by (simp add: resource_ids_def)

text \<open>What the retriever is when the last page has been read.\<close>

definition fetched :: "clip_retriever \<Rightarrow> nat option \<Rightarrow> bool" where
  "fetched r cb \<longleftrightarrow> \<not> rv_busy r \<and> \<not> rv_refreshing r \<and> rv_cb r = None \<and> rv_eventRequestId r \<noteq> None \<and> ct_sendFeedback (rv_clip r)
     \<and> (\<forall>c. cb = Some c \<longrightarrow> Answered c OPERATION_SUCCESS \<in> set (rv_output r))"

lemma selected_skeleton: "skeleton (rv_clip (select_by_name r)) = skeleton (rv_clip r)"
  by (auto simp: select_by_name_def change_bridge_def Let_def skeleton_on_bridge split: option.split)

lemma select_kept: "rv_cb (select_by_name r) = rv_cb r" "rv_connected (select_by_name r) = rv_connected r"
  by (auto simp: select_by_name_def change_bridge_def Let_def split: option.split)

lemma reported_skeleton: "skeleton (rv_clip (report_refresh r)) = skeleton (rv_clip r)"
  by (auto simp: report_refresh_def change_bridge_def Let_def skeleton_on_bridge)

lemma skeleton_send: "skeleton (s\<lparr>ct_sendFeedback := b\<rparr>) = skeleton s"
  by (simp add: skeleton_def zone_ids_def clip_bridge_def clip_group_def)

lemma finish_clip: "rv_clip (Clip_Finish res u r) = rv_clip r"
  by (simp add: Clip_Finish_def Let_def split: option.split)

lemma finished_fetch:
  "fetched (finish_fetch r) (rv_cb r)" "skeleton (rv_clip (finish_fetch r)) = skeleton (rv_clip r)"
proof -
  show "skeleton (rv_clip (finish_fetch r)) = skeleton (rv_clip r)"
    by (simp add: finish_fetch_def Let_def ListenToEvents_def reported_skeleton skeleton_send finish_clip selected_skeleton)
  let ?x = "change_clip (\<lambda>s. s\<lparr>ct_sendFeedback := True\<rparr>) ((Clip_Finish OPERATION_SUCCESS False (select_by_name r))\<lparr>rv_cb := None\<rparr>)"
  have answered: "Answered c OPERATION_SUCCESS \<in> set (rv_output ?x)" if "rv_cb r = Some c" for c
    using that by (simp add: Clip_Finish_def Let_def select_kept)
  have reported: "set (rv_output x) \<subseteq> set (rv_output (report_refresh x))" "rv_cb (report_refresh x) = rv_cb x"
    "\<not> rv_refreshing (report_refresh x)" "ct_sendFeedback (rv_clip (report_refresh x)) = ct_sendFeedback (rv_clip x)" for x
    by (auto simp: report_refresh_def change_bridge_def Let_def on_bridge_def on_store_def)
  show "fetched (finish_fetch r) (rv_cb r)"
    using answered reported(1)[of ?x] by (auto simp: fetched_def finish_fetch_def Let_def ListenToEvents_def reported)
qed

lemma cleared_groups:
  assumes "clip_inv s"
  defines "t \<equiv> on_bridge (\<lambda>b. b\<lparr>b_zones := []\<rparr>) (on_store (upd_grouplist (b_groups (clip_bridge s)) (\<lambda>_. [])) s)"
  shows "clip_inv t" "group_ids t = []" "zone_ids t = []"
  using assms(1) by (simp_all add: t_def clip_inv_def group_ids_def zone_ids_def clip_groups_def clip_bridge_def on_bridge_def
      on_store_def upd_grouplist_def upd_bridge_def)

lemma full_config_cleared:
  assumes "clip_inv (rv_clip r)"
  shows "clip_inv (rv_clip (GetFullConfig r))" "group_ids (rv_clip (GetFullConfig r)) = []" "zone_ids (rv_clip (GetFullConfig r)) = []"
    "rv_resourceToGet (GetFullConfig r) = 0" "rv_cb (GetFullConfig r) = rv_cb r"
  using cleared_groups[OF assms] by (simp_all add: GetFullConfig_def GetResource_def)

lemma clip_output_skeleton: "skeleton (s\<lparr>ct_output := os\<rparr>) = skeleton s"
  by simp

text \<open>One page.\<close>

lemma page_read:
  assumes "OnGetResource L now d r = Some r'" "IsAttributeSet d ''data''" "clip_inv (rv_clip r)"
  defines "k \<equiv> rv_resourceToGet r"
  shows "clip_inv (rv_clip r') \<and> group_ids (rv_clip r') = group_ids (rv_clip r) @ resource_ids L RConfiguration (page_resources k [d])
    \<and> zone_ids (rv_clip r') = zone_ids (rv_clip r) @ filter (\<lambda>i. i \<noteq> []) (resource_ids L RZone (page_resources k [d]))
    \<and> (if next_resource k d < length resource_list then rv_resourceToGet r' = next_resource k d \<and> rv_cb r' = rv_cb r
       else if k < length resource_list then fetched r' (rv_cb r) else True)"
proof -
  obtain data where data: "json_find ''data'' d = Some data" using assms(2) by (auto simp: IsAttributeSet_def)
  obtain s where s: "each (add_resource L (snd (resource_list ! k))) (as_array data) (rv_clip r) = Some s"
    using assms(1) data by (auto simp: OnGetResource_def run_clip_def k_def split: bind_splits)
  define r1 where "r1 = fold (pass_output now) (ct_output s) (r\<lparr>rv_clip := s\<lparr>ct_output := []\<rparr>\<rparr>)"
  have r1: "rv_clip r1 = s\<lparr>ct_output := []\<rparr>" "rv_resourceToGet r1 = k" "rv_cb r1 = rv_cb r"
    by (simp_all add: r1_def passed_kept k_def)
  let ?r2 = "r1\<lparr>rv_resourceToGet := Suc k\<rparr>"
  have r': "r' = (case json_find ''cursor'' d of Some c \<Rightarrow> GetResource (''?cursor='' @ as_string L c) r1
      | None \<Rightarrow> if Suc k < length resource_list then GetResource [] ?r2 else finish_fetch ?r2)"
    using assms(1) data s r1(2) by (auto simp: OnGetResource_def run_clip_def k_def Let_def r1_def[symmetric] split: option.splits)
  have sk: "skeleton (rv_clip r') = skeleton s"
    using finished_fetch(2)[of ?r2] r1(1) unfolding r' by (simp add: GetResource_def split: option.split)
  have "next_resource k d < length resource_list \<longrightarrow> rv_resourceToGet r' = next_resource k d \<and> rv_cb r' = rv_cb r"
    "\<not> next_resource k d < length resource_list \<Longrightarrow> k < length resource_list \<Longrightarrow> fetched r' (rv_cb r)"
    using finished_fetch(1)[of ?r2] r1 unfolding r'
    by (auto simp: next_resource_def IsAttributeSet_def GetResource_def split: option.splits if_splits)
  moreover have "clip_inv s \<and> group_ids s = group_ids (rv_clip r) @ resource_ids L RConfiguration (page_resources k [d])
    \<and> zone_ids s = zone_ids (rv_clip r) @ filter (\<lambda>i. i \<noteq> []) (resource_ids L RZone (page_resources k [d]))"
    using added_resources[OF s assms(3)] data by (simp add: page_data_def GetAttributeValue_def)
  ultimately show ?thesis using skeleton_ids[OF sk] skeleton_inv[OF sk] by auto
qed

lemma page_answered: "answer_resource L parse now (page b) r = OnGetResource L now (parse b) r"
  by (simp add: answer_resource_def ValidateHttpRequestStatus_def page_def)

lemma pages_read:
  assumes "each (\<lambda>b. answer_resource L parse now (page b)) bodies r = Some r'" "clip_inv (rv_clip r)"
    "pages_complete (rv_resourceToGet r) (map parse bodies)" "bodies \<noteq> []"
  shows "fetched r' (rv_cb r) \<and> clip_inv (rv_clip r')
    \<and> group_ids (rv_clip r') = group_ids (rv_clip r) @ resource_ids L RConfiguration (page_resources (rv_resourceToGet r) (map parse bodies))
    \<and> zone_ids (rv_clip r') = zone_ids (rv_clip r)
        @ filter (\<lambda>i. i \<noteq> []) (resource_ids L RZone (page_resources (rv_resourceToGet r) (map parse bodies)))"
  using assms
proof (induction bodies arbitrary: r)
  case (Cons b bodies)
  define d where "d = parse b"
  define k where "k = rv_resourceToGet r"
  obtain r1 where "answer_resource L parse now (page b) r = Some r1"
    and rest: "each (\<lambda>b. answer_resource L parse now (page b)) bodies r1 = Some r'"
    using Cons.prems(1) by (auto split: option.splits)
  then have r1: "OnGetResource L now d r = Some r1" by (simp add: page_answered d_def)
  have d: "IsAttributeSet d ''data''" "k < length resource_list" "pages_complete (next_resource k d) (map parse bodies)"
    using Cons.prems(3) by (simp_all add: d_def k_def)
  note read = page_read[OF r1 d(1) Cons.prems(2), folded k_def]
  have split: "page_resources k (map parse (b # bodies)) = page_resources k [d] @ page_resources (next_resource k d) (map parse bodies)"
    by (simp add: d_def)
  show ?case
  proof (cases "bodies = []")
    case True
    then show ?thesis using read rest d split by (simp flip: k_def)
  next
    case False
    then have "next_resource k d < length resource_list" using d(3) by (cases bodies) simp_all
    then have "rv_resourceToGet r1 = next_resource k d" "rv_cb r1 = rv_cb r" using read by simp_all
    then show ?thesis
      using Cons.IH[OF rest] read d(3) False unfolding k_def[symmetric] split by (simp add: resource_ids_append)
  qed
qed simp

text \<open>
  C24 (functional). A fetch that gets all pages of all kinds of resource, split into pages in whatever way,
  ends with a success to its caller, not busy and with the event stream requested, and the bridge has exactly the
  groups and zones of the pages, in their order.
\<close>

theorem fetch_reads_all_pages:
  assumes "each (\<lambda>b. answer_resource L parse now (page b)) bodies (GetFullConfig r) = Some r'" "clip_inv (rv_clip r)"
    "pages_complete 0 (map parse bodies)"
  shows "fetched r' (rv_cb r) \<and> clip_inv (rv_clip r')
    \<and> group_ids (rv_clip r') = resource_ids L RConfiguration (page_resources 0 (map parse bodies))
    \<and> zone_ids (rv_clip r') = filter (\<lambda>i. i \<noteq> []) (resource_ids L RZone (page_resources 0 (map parse bodies)))"
proof -
  have "bodies \<noteq> []" using assms(3) by (auto simp: resource_list_def)
  then show ?thesis using pages_read[OF assms(1)] assms(3) full_config_cleared[OF assms(2)] by simp
qed

text \<open>Nine pages: the zones come on two.\<close>

definition sample_page :: "json list \<Rightarrow> json" where
  "sample_page ds = JNode [(''data'', JArray ds)]"

definition sample_parse :: "string \<Rightarrow> json" where
  "sample_parse b = (if b = ''6'' then JNode [(''data'', JArray [JNode [(''id'', JString ''a1'')]]), (''cursor'', JString ''next'')]
     else if b = ''7'' then sample_page [JNode [(''id'', JString ''a2'')]] else sample_page [])"

theorem fetch_reads_all_pages_witness:
  "\<exists>r'. each (\<lambda>b. answer_resource sample_json_lib sample_parse 0 (page b)) [[], [], [], [], [], ''6'', ''7'', [], []]
     (GetFullConfig (sample_retriever\<lparr>rv_cb := Some 7\<rparr>)) = Some r'
   \<and> group_ids (rv_clip r') = [] \<and> zone_ids (rv_clip r') = [''a1'', ''a2''] \<and> Answered 7 OPERATION_SUCCESS \<in> set (rv_output r')"
proof -
  let ?bs = "[[], [], [], [], [], ''6'', ''7'', [], []]" let ?r = "sample_retriever\<lparr>rv_cb := Some 7\<rparr>"
  have "map_option (\<lambda>_. True) (each (\<lambda>b. answer_resource sample_json_lib sample_parse 0 (page b)) ?bs (GetFullConfig ?r)) = Some True"
    by code_simp
  then obtain r' where r': "each (\<lambda>b. answer_resource sample_json_lib sample_parse 0 (page b)) ?bs (GetFullConfig ?r) = Some r'"
    by auto
  have pages: "clip_inv (rv_clip ?r)" "pages_complete 0 (map sample_parse ?bs)"
    "resource_ids sample_json_lib RConfiguration (page_resources 0 (map sample_parse ?bs)) = []"
    "filter (\<lambda>i. i \<noteq> []) (resource_ids sample_json_lib RZone (page_resources 0 (map sample_parse ?bs))) = [''a1'', ''a2'']"
    "rv_cb ?r = Some 7"
    by code_simp+
  show ?thesis
    using fetch_reads_all_pages[OF r' pages(1,2)] r' unfolding pages(3-5) fetched_def by blast
qed

section \<open>Refreshing the connection\<close>

text \<open>What the application and the monitor call; the last is the task that sends feedback.\<close>

datatype retriever_call = Call_execute ref nat | Call_refresh | Call_monitor Id RequestType | Call_dispatch int

definition run_call :: "retriever_call \<Rightarrow> clip_retriever \<Rightarrow> clip_retriever" where
  "run_call c r = (case c of
      Call_execute b cb \<Rightarrow> snd (Clip_Execute b cb r)
    | Call_refresh \<Rightarrow> RefreshBridgeConnection r
    | Call_monitor msg q \<Rightarrow> OnBridgeMonitorEvent msg q r
    | Call_dispatch now \<Rightarrow> run_dispatch now r)"

definition executions :: "retriever_call list \<Rightarrow> nat list" where
  "executions cs = List.map_filter (\<lambda>c. case c of Call_execute b cb \<Rightarrow> Some cb | _ \<Rightarrow> None) cs"

definition answers_of :: "retriever_output list \<Rightarrow> (nat \<times> OperationResult) list" where
  "answers_of outs = List.map_filter (\<lambda>out. case out of Answered cb res \<Rightarrow> Some (cb, res) | _ \<Rightarrow> None) outs"

definition requests_of :: "retriever_output list \<Rightarrow> nat list" where
  "requests_of outs = List.map_filter (\<lambda>out. case out of Request i q u \<Rightarrow> Some i | _ \<Rightarrow> None) outs"

lemma output_lists [simp]:
  "answers_of (xs @ ys) = answers_of xs @ answers_of ys" "requests_of (xs @ ys) = requests_of xs @ requests_of ys"
  "answers_of [] = []" "requests_of [] = []"
  "answers_of [Answered cb res] = [(cb, res)]" "answers_of [Message m] = []" "answers_of [Cancel i] = []" "answers_of [Dispatch] = []"
  "answers_of [Request i q u] = []" "requests_of [Request i q u] = [i]"
  "requests_of [Answered cb res] = []" "requests_of [Message m] = []" "requests_of [Cancel i] = []" "requests_of [Dispatch] = []"
  by (simp_all add: answers_of_def requests_of_def List.map_filter_def)

lemma messages_put: "rv_output (fold (\<lambda>msg. put (Message msg)) ms r) = rv_output r @ map Message ms
    \<and> rv_busy (fold (\<lambda>msg. put (Message msg)) ms r) = rv_busy r"
  by (induction ms arbitrary: r) simp_all

lemma message_lists: "answers_of (map Message ms) = []" "requests_of (map Message ms) = []"
  by (simp_all add: answers_of_def requests_of_def List.map_filter_def)

lemma busy_call:
  assumes "rv_busy r"
  shows "rv_busy (run_call c r) \<and> requests_of (rv_output (run_call c r)) = requests_of (rv_output r)
    \<and> answers_of (rv_output (run_call c r)) = answers_of (rv_output r) @ map (\<lambda>cb. (cb, OPERATION_FAILED)) (executions [c])"
proof (cases c)
  case (Call_monitor msg q)
  then show ?thesis
    using assms by (auto simp: run_call_def executions_def map_filter_simps OnBridgeMonitorEvent_def OnBridgeDisconnect_def
        Clip_Abort_def split: option.split)
next
  case (Call_dispatch now)
  then show ?thesis
    using assms messages_put message_lists
    by (simp add: run_call_def executions_def map_filter_simps run_dispatch_def DispatchFeedback_def)
qed (use assms in \<open>simp_all add: run_call_def executions_def map_filter_simps Clip_Execute_def RefreshBridgeConnection_def\<close>)

lemma executions_Cons: "executions (c # cs) = executions [c] @ executions cs"
  by (simp add: executions_def map_filter_simps split: option.split)



lemma clone_groups_frame:
  "clone_groups gs h = (h', gs') \<Longrightarrow> bridges_at h' = bridges_at h \<and> grouplists_at h' = grouplists_at h \<and> next_ref h \<le> next_ref h'"
proof (induction gs arbitrary: h h' gs')
  case (Cons g gs)
  obtain h1 g1 where a: "alloc_group (groups_at h g) h = (h1, g1)" by fastforce
  obtain h2 gs2 where c: "clone_groups gs h1 = (h2, gs2)" by fastforce
  have "h2 = h'" using Cons.prems a c by simp
  then show ?case using Cons.IH[OF c] a by (auto simp: alloc_group_def)
qed simp

lemma clone_frame:
  assumes "Clone h r = (h', r')"
  shows "next_ref h \<le> r'" "r' < next_ref h'" "b_groups (bridges_at h' r') < next_ref h'"
    "b_id (bridges_at h' r') = b_id (bridges_at h r)"
    "x < next_ref h \<Longrightarrow> bridges_at h' x = bridges_at h x" "x < next_ref h \<Longrightarrow> grouplists_at h' x = grouplists_at h x"
proof -
  obtain h1 gs where c: "clone_groups (grouplists_at h (b_groups (bridges_at h r))) h = (h1, gs)" by fastforce
  note f = clone_groups_frame[OF c]
  have h': "r' = Suc (next_ref h1)" "next_ref h' = Suc (Suc (next_ref h1))"
    "bridges_at h' = (bridges_at h)(r' := (bridges_at h r)\<lparr>b_groups := next_ref h1\<rparr>)"
    "grouplists_at h' = (grouplists_at h)(next_ref h1 := gs)"
    using assms c f by (auto simp: Clone_def alloc_grouplist_def alloc_bridge_def Let_def)
  show "next_ref h \<le> r'" "r' < next_ref h'" "b_groups (bridges_at h' r') < next_ref h'"
    "b_id (bridges_at h' r') = b_id (bridges_at h r)"
    "x < next_ref h \<Longrightarrow> bridges_at h' x = bridges_at h x" "x < next_ref h \<Longrightarrow> grouplists_at h' x = grouplists_at h x"
    using h' f by auto
qed

text \<open>The bridge of a retriever and its list of groups are allocated.\<close>

definition bridge_allocated :: "clip_state \<Rightarrow> bool" where
  "bridge_allocated s \<longleftrightarrow> ct_bridge s < next_ref (ct_store s) \<and> b_groups (clip_bridge s) < next_ref (ct_store s)"

lemma allocated_bridge [simp]:
  "b_groups (f (clip_bridge s)) = b_groups (clip_bridge s) \<Longrightarrow> bridge_allocated (on_bridge f s) = bridge_allocated s"
  by (simp add: bridge_allocated_def on_bridge_def on_store_def upd_bridge_def clip_bridge_def)

lemma bridge_changed: "clip_bridge (on_bridge f s) = f (clip_bridge s)" "clip_groups (on_store (upd_grouplist gl g) s) =
    (if b_groups (clip_bridge s) = gl then g (clip_groups s) else clip_groups s)"
  by (simp_all add: clip_bridge_def clip_groups_def on_bridge_def on_store_def upd_bridge_def upd_grouplist_def)

text \<open>What a refresh has done when the first resource is asked for.\<close>

definition refreshed :: "clip_retriever \<Rightarrow> string \<Rightarrow> bool" where
  "refreshed r i \<longleftrightarrow> rv_connected r \<and> rv_hasBridge r \<and> rv_cb r = None \<and> rv_eventRequestId r = None \<and> \<not> rv_sendConnectFeedback r
     \<and> bridge_allocated (rv_clip r) \<and> b_id (rv_bridge r) = i"

lemma refresh_started:
  assumes "rv_connected r" "\<not> rv_busy r" "\<not> rv_refreshing r"
  shows "refreshed (RefreshBridgeConnection r) (b_id (rv_bridge r))"
proof -
  obtain h c where c: "Clone (ct_store (rv_clip r)) (ct_bridge (rv_clip r)) = (h, c)" by fastforce
  have id: "b_id (bridges_at h c) = b_id (rv_bridge r)"
    using clone_frame(4)[OF c] by (simp add: rv_bridge_def clip_bridge_def)
  have abort: "rv_clip (Clip_Abort x) = rv_clip x" "rv_connected (Clip_Abort x) = rv_connected x"
    "rv_hasBridge (Clip_Abort x) = rv_hasBridge x" "rv_eventRequestId (Clip_Abort x) = None" "rv_busy (Clip_Abort x) = rv_busy x" for x
    by (auto simp: Clip_Abort_def split: option.split)
  show ?thesis
    using assms c id clone_frame(2,3)[OF c]
    by (auto simp: RefreshBridgeConnection_def clone_bridge_def DoExecute_def Let_def OnBridgeDisconnect_def abort refreshed_def
        UpdateWhitelist_def rv_bridge_def bridge_allocated_def clip_bridge_def forget_resources_def)
qed

lemma refreshed_put [simp]:
  "refreshed (put out r) i = refreshed r i" "refreshed (send_request q u r) i = refreshed r i"
  by (simp_all add: refreshed_def rv_bridge_def)

lemma refreshed_change:
  assumes "refreshed r i" "\<And>b. b_groups (f b) = b_groups b" "\<And>b. b_id (f b) = b_id b"
  shows "refreshed (change_bridge f r) i" "rv_bridge (change_bridge f r) = f (rv_bridge r)"
  using assms by (simp_all add: refreshed_def change_bridge_def rv_bridge_def bridge_changed)

lemma whitelist_refreshed:
  assumes "answer_whitelist L parse Fetch_config now w r = Some r1" "whitelist_error L parse w = None" "refreshed r i"
  shows "refreshed r1 i \<and> b_isAuthorized (rv_bridge r1) \<and> b_isValidIp (rv_bridge r1)"
proof -
  obtain v where v: "r1 = GetApplicationId (change_bridge (\<lambda>b. b\<lparr>b_isAuthorized := True, b_isValidIp := True\<rparr>)
      (change_clip (\<lambda>s. s\<lparr>ct_whitelist := v\<rparr>) r))"
    using assms(1,2) by (auto simp: answer_whitelist_def split: bind_splits)
  have "refreshed (change_clip (\<lambda>s. s\<lparr>ct_whitelist := v\<rparr>) r) i"
    using assms(3) by (simp add: refreshed_def rv_bridge_def bridge_allocated_def clip_bridge_def)
  note c = refreshed_change[OF this, of "\<lambda>b. b\<lparr>b_isAuthorized := True, b_isValidIp := True\<rparr>"]
  then show ?thesis unfolding v GetApplicationId_def by (simp add: rv_bridge_def)
qed

lemma appId_refreshed:
  assumes "an_code a = HTTP_REQUEST_ERROR_CODE_SUCCESS" "an_status a = 200" "refreshed r i"
  shows "refreshed (answer_appId a r) i \<and> clip_groups (rv_clip (answer_appId a r)) = []
    \<and> b_isAuthorized (rv_bridge (answer_appId a r)) = b_isAuthorized (rv_bridge r)
    \<and> b_isValidIp (rv_bridge (answer_appId a r)) = b_isValidIp (rv_bridge r)"
proof -
  let ?c = "change_bridge (\<lambda>b. b\<lparr>b_appId := an_appId a\<rparr>) r"
  note c = refreshed_change[OF assms(3), of "\<lambda>b. b\<lparr>b_appId := an_appId a\<rparr>"]
  have r: "answer_appId a r = GetFullConfig ?c" using assms(1,2) by (simp add: answer_appId_def ValidateHttpRequestStatus_def)
  have "bridge_allocated (on_store (upd_grouplist gl g) s) = bridge_allocated s"
    "clip_bridge (on_store (upd_grouplist gl g) s) = clip_bridge s" for gl g s
    by (simp_all add: bridge_allocated_def on_store_def upd_grouplist_def clip_bridge_def)
  moreover have "clip_groups (on_bridge (\<lambda>b. b\<lparr>b_zones := []\<rparr>) s) = clip_groups s" for s
    by (simp add: clip_groups_def bridge_changed) (simp add: on_bridge_def on_store_def)
  ultimately show ?thesis
    using c by (simp add: r GetFullConfig_def GetResource_def refreshed_def rv_bridge_def bridge_changed)
qed

text \<open>
  C27 (error). A refresh whose first resource cannot be fetched, because the bridge is not reached, leaves the retriever
  connected, without an event stream and with a bridge that has lost its groups; a following \<open>Execute\<close> reports success
  at once.
\<close>

theorem failed_refresh_reports_success:
  assumes "rv_connected r" "\<not> rv_busy r" "\<not> rv_refreshing r"
    "answer_whitelist L parse Fetch_config now w (RefreshBridgeConnection r) = Some r1" "whitelist_error L parse w = None"
    "an_code a = HTTP_REQUEST_ERROR_CODE_SUCCESS" "an_status a = 200"
    "an_code e \<noteq> HTTP_REQUEST_ERROR_CODE_SUCCESS" "answer_resource L parse now e (answer_appId a r1) = Some r2"
    "b_id (bridges_at (ct_store (rv_clip r2)) b) = b_id (rv_bridge r)" "Clip_Execute b cb r2 = (started, r3)"
  shows "\<not> started \<and> last (rv_output r3) = Answered cb OPERATION_SUCCESS \<and> rv_connected r3 \<and> rv_eventRequestId r3 = None
    \<and> clip_groups (rv_clip r3) = []"
proof -
  let ?i = "b_id (rv_bridge r)" let ?r = "answer_appId a r1"
  note w = whitelist_refreshed[OF assms(4,5) refresh_started[OF assms(1-3)]]
  then have a: "refreshed ?r ?i" "clip_groups (rv_clip ?r) = []" "b_isAuthorized (rv_bridge ?r)" "b_isValidIp (rv_bridge ?r)"
    using appId_refreshed[OF assms(6,7), of r1 ?i] by simp_all
  have r2: "r2 = Clip_Finish OPERATION_FAILED True ?r"
    using assms(8,9) by (simp add: answer_resource_def ValidateHttpRequestStatus_def)
  have kept: "rv_clip r2 = rv_clip ?r" "rv_connected r2" "rv_hasBridge r2" "\<not> rv_busy r2" "rv_eventRequestId r2 = None"
    using a(1) by (simp_all add: r2 Clip_Finish_def refreshed_def Let_def)
  obtain h c where c: "Clone (ct_store (rv_clip r2)) b = (h, c)" by fastforce
  have alloc: "bridge_allocated (rv_clip r2)" using a(1) kept(1) by (simp add: refreshed_def)
  define x where "x = change_clip (\<lambda>s. s\<lparr>ct_store := h\<rparr>) (r2\<lparr>rv_busy := True\<rparr>)"
  have bridge: "rv_bridge x = rv_bridge ?r"
    using clone_frame(5)[OF c, of "ct_bridge (rv_clip r2)"] alloc kept(1)
    by (simp add: x_def rv_bridge_def clip_bridge_def bridge_allocated_def)
  have groups: "clip_groups (rv_clip x) = []"
    using clone_frame(6)[OF c, of "b_groups (clip_bridge (rv_clip r2))"] alloc kept(1) a(2) bridge
    by (simp add: x_def rv_bridge_def clip_groups_def bridge_allocated_def clip_bridge_def)
  have "b_id (bridges_at h c) = b_id (rv_bridge x)"
    using clone_frame(4)[OF c] assms(10) a(1) bridge by (simp add: refreshed_def)
  then have "Clip_Execute b cb r2 = (False, (put (Answered cb OPERATION_SUCCESS) x)\<lparr>rv_busy := False\<rparr>)"
    using kept c a(3,4) bridge by (simp add: Clip_Execute_def clone_bridge_def DoExecute_def Let_def x_def)
  then show ?thesis using assms(11) kept groups by (auto simp: x_def)
qed

text \<open>The bridge of the sample is refreshed; the third request fails.\<close>

definition sample_failure :: clip_answer where
  "sample_failure = \<lparr>an_code = HTTP_REQUEST_ERROR_CODE_CANNOT_CONNECT, an_status = 0, an_body = [], an_appId = []\<rparr>"

definition sample_whitelist :: "string \<Rightarrow> json" where
  "sample_whitelist b = JNode [(''whitelist'', JNode [])]"

theorem failed_refresh_reports_success_witness:
  "\<exists>r1 r2 r3. answer_whitelist sample_json_lib sample_whitelist Fetch_config 0 (page []) (RefreshBridgeConnection sample_retriever) = Some r1
     \<and> answer_resource sample_json_lib sample_whitelist 0 sample_failure (answer_appId (page []) r1) = Some r2
     \<and> Clip_Execute 2 5 r2 = (False, r3) \<and> last (rv_output r3) = Answered 5 OPERATION_SUCCESS \<and> rv_eventRequestId r3 = None"
proof -
  have r: "rv_connected sample_retriever" "\<not> rv_busy sample_retriever" "\<not> rv_refreshing sample_retriever"
    by (simp_all add: sample_retriever_def)
  have w: "whitelist_error sample_json_lib sample_whitelist (page []) = None" by code_simp
  then obtain r1 where r1: "answer_whitelist sample_json_lib sample_whitelist Fetch_config 0 (page []) (RefreshBridgeConnection sample_retriever) = Some r1"
    by (simp add: answer_whitelist_def sample_whitelist_def element_def)
  have a: "an_code (page []) = HTTP_REQUEST_ERROR_CODE_SUCCESS" "an_status (page []) = 200" by (simp_all add: page_def)
  have e: "an_code sample_failure \<noteq> HTTP_REQUEST_ERROR_CODE_SUCCESS" by (simp add: sample_failure_def)
  then obtain r2 where r2: "answer_resource sample_json_lib sample_whitelist 0 sample_failure (answer_appId (page []) r1) = Some r2"
    by (simp add: answer_resource_def ValidateHttpRequestStatus_def)
  have "map_option (\<lambda>r2. b_id (bridges_at (ct_store (rv_clip r2)) 2)) (Option.bind
      (answer_whitelist sample_json_lib sample_whitelist Fetch_config 0 (page []) (RefreshBridgeConnection sample_retriever))
      (\<lambda>r1. answer_resource sample_json_lib sample_whitelist 0 sample_failure (answer_appId (page []) r1)))
    = Some (b_id (rv_bridge sample_retriever))" by code_simp
  then have id: "b_id (bridges_at (ct_store (rv_clip r2)) 2) = b_id (rv_bridge sample_retriever)" using r1 r2 by simp
  obtain started r3 where r3: "Clip_Execute 2 5 r2 = (started, r3)" by fastforce
  from failed_refresh_reports_success[OF r r1 w a e r2 id r3] show ?thesis
    using r1 r2 r3 by (intro exI[of _ r1] exI[of _ r2] exI[of _ r3]) simp
qed

end
