(* ===== verification/Spec2Isabelle.thy ===== *)
theory Spec2Isabelle imports
  DataProperties Connect Scheduler Storage StreamThreads ScriptEffects SequenceEffect
  OperationalQueue ConfigRetriever ClipTyped EventStream ClipFetch
begin

text \<open>
  The EDK library (\<open>src/libhuestream\<close>) connects an application to a Hue bridge, keeps the
  configuration of the bridges it knows, and streams light colours to one of them. This development
  models its C++ code in HOL and proves what makes its parts correct. Paths below are relative to
  \<open>src/libhuestream\<close>.

  \<^bold>\<open>The program.\<close> The application gives requests to \<open>Connect\<close>, which hands them to the
  \<open>ConnectionFlow\<close> over a \<open>MessageDispatcher\<close> with a thread of its own. The flow is a state machine that loads
  the bridges from a file, searches, authenticates and retrieves the configuration, each by a
  collaborator that answers by a callback, and reports to the application by feedback messages. Two retrievers
  read the configuration: \<open>FullConfigRetriever\<close> asks once for the document of clip v1, \<open>BridgeConfigRetriever\<close>
  fetches the resources of clip v2 and then follows their events. The \<open>Stream\<close> starts a session at the bridge
  (\<open>StreamStarter\<close>), opens a DTLS connection and has a thread that renders frames: the \<open>Mixer\<close> gives the colour
  of each light from the effects, effects play animations, light scripts enable effects along a timeline, and
  \<open>ProtocolSerializer\<close> makes packets of the colours.
\<close>

section \<open>Which theory models what\<close>

text \<open>
  \<^bold>\<open>Foundations.\<close> \<open>Prelude\<close> holds the searches and list functions that stand for members of
  \<open>std::string\<close> and \<open>std::vector\<close>, and the interfaces that several components share. \<open>CReal\<close> and
  \<open>CStdlib\<close> model what the sources use of the C and C++ libraries (character classes, \<open>strtoll\<close>, \<open>stoi\<close>,
  casts and rounding); \<open>StringUtil\<close> and \<open>Codec\<close> the functions of \<open>support/src/util\<close>, \<open>support/src/crypto\<close>
  and the URL encoder. \<open>Json\<close> has the trees of the vendored JSON library and the functions of
  \<open>huestream/common/serialize\<close> on them.

  \<^bold>\<open>Data of a bridge.\<close> \<open>ApiVersion\<close>, \<open>DataModel\<close>, \<open>ColorSpace\<close> and \<open>Areas\<close> model
  \<open>huestream/common/data\<close>. \<open>Bridge\<close> has the bridge itself: an explicit store maps references to bridges, groups and lists of groups, because
  these are shared pointers that clones and the application see changing. \<open>HueStreamData\<close> is the list of
  known bridges; \<open>Persistence\<close> and \<open>Storage\<close> save and load it (\<open>BridgeFileStorageAccessor\<close>).

  \<^bold>\<open>Connecting.\<close> \<open>FeedbackMessage\<close>, \<open>BridgeStreamingChecker\<close>, \<open>ConnectionFlow\<close>, \<open>MessageDispatcher\<close> and
  \<open>Connect\<close> model the files of these names in \<open>huestream/connect\<close>. A handler of the flow is a function on its state that appends
  to the lists of messages sent and calls made; the callbacks of collaborators are events, in any
  order. \<open>FlowInvariant\<close> and \<open>FlowProperties\<close> prove what holds in every state that can be reached;
  \<open>Connect\<close> composes queue, flow and the busy flag into one step relation.

  \<^bold>\<open>Configuration.\<close> \<open>ConfigRetriever\<close> models \<open>FullConfigRetriever\<close>. \<open>ClipResources\<close> and \<open>ClipEvents\<close> model
  \<open>BridgeConfigRetriever\<close>: the maps of resources, the readers of their nodes, one function for each
  handler, and \<open>ParseJsonEvent\<close>; \<open>ClipRetriever\<close> the requests of the fetch, the event stream and the calls of
  the application, as operations on one state. \<open>ClipTypes\<close> states the schema of the resources and
  shows that readers of nodes that follow it do not fail, \<open>ClipTyped\<close> that whole events do not;
  \<open>ClipProperties\<close> shows what events do to the lists and lights of the bridge, \<open>EventStream\<close> how they are put together
  from fragments, \<open>ClipFetch\<close> what a fetch reads and what a failed refresh leaves.

  \<^bold>\<open>Streaming.\<close> \<open>StreamStarter\<close>, \<open>Stream\<close> and \<open>ProtocolSerializer\<close> model \<open>huestream/stream\<close>: the requests of a start at each override level, the
  attempts to connect, and both packet formats with their bytes as words. \<open>StreamThreads\<close> splits \<open>Stop\<close> and the
  render thread into the steps that are atomic in the code and interleaves them.

  \<^bold>\<open>Effects.\<close> \<open>HueMath\<close>, \<open>Curve\<close>, \<open>Animations\<close>, \<open>AnimationJson\<close> and \<open>Player\<close> model \<open>huestream/effect/animation\<close>;
  \<open>Mixer\<close>, \<open>Effects\<close>, \<open>Iteration\<close>, \<open>Channels\<close> and \<open>SequenceEffect\<close> the mixer and \<open>huestream/effect/effects\<close>; \<open>Timeline\<close> and
  \<open>LightScript\<close> the light scripts. \<open>EffectJson\<close>, \<open>EffectProperties\<close> and \<open>ScriptEffects\<close> show what effects show,
  and that they show the same after they were saved and read.

  \<^bold>\<open>Support.\<close> \<open>Scheduler\<close> models \<open>support/src/scheduler\<close> with the schedule of an executor's tasks, \<open>OperationalQueue\<close> the
  queue of that name, with its nested processing loops and waiting threads as steps.
\<close>

section \<open>How state, errors and loops are modelled\<close>

text \<open>
  A class is a record with the fields of the class; a method is a function from state to state, and
  returns its messages, calls and requests by appending them to a list of the state, in order. Where threads
  meet, the atomic actions are rules of an inductive step relation, and claims are about every
  reachable state.

  Exceptions and null pointers are values: \<open>stdexcept + 'a\<close> in \<open>CStdlib\<close>, \<open>None\<close> where a method leaves through an
  access to something that is missing. Loops that are not structural recursions have a measure:
  \<open>connect_loop\<close> (at most 5 attempts), \<open>upper_bound_loop\<close> (the length of the range), \<open>assign_round\<close> and \<open>assign_rounds\<close> (the lights that
  are left), the loops of \<open>StringUtil\<close> and \<open>Codec\<close> (the characters that are left). The one loop that need not end, that of
  \<open>replace_all\<close>, is a partial function in \<open>option\<close>, and a theorem says exactly when it ends. No fuel is
  used anywhere.

  Integers keep their width where it shows: \<open>word\<close> in packets, random numbers and compressed frames, \<open>cast_int\<close> for
  the casts of \<open>libjson\<close>'s numbers, the wrap-around of unsigned conversions in \<open>Codec\<close>. Floating-point
  numbers are real numbers: rounding is not modelled, and nothing rests on a quotient by
  zero. Time is a parameter or a field that events move on.
\<close>

section \<open>Interfaces\<close>

text \<open>
  \<open>transition_system\<close> (an invariant, kept by the steps, holds in each reachable state) is interpreted by the flow, the dispatcher,
  \<open>Connect\<close>, the scheduler and the threads of the stream. \<open>fifo_queue\<close> is what a dispatcher relies on of its
  vector. \<open>ordered_insertion\<close> (inserting behind the last smaller key gives a stable sort) is shared
  by the mixer's effects, the actions of a light script and the plan of an executor.
  \<open>effect_interface\<close> is what the mixer relies on of an effect, given by manual effects, actions and all
  effects with animations; \<open>effect_storage\<close> what a light script relies on of effects when it is
  saved, given by the effects of \<open>EffectJson\<close>.
\<close>

section \<open>What is assumed, and what is not modelled\<close>

text \<open>
  Code outside the repository's own sources is a parameter: the JSON library's parser and its conversions of values of another
  type (\<open>json_lib\<close>), the cipher, the hash and the file of the storage, the answers of the HTTP client and the
  outcome of a DTLS connection, the random numbers of an animation. What is relied on of them is a
  hypothesis of the theorem that uses it: that the parser reads back what the writer wrote, that decrypting
  undoes encrypting, that white space behind a JSON text changes nothing.

  An \<open>unordered_map\<close> that is only looked up is a map; where it is iterated over, an association list stands for
  the order of iteration, which the standard leaves open.

  Not modelled: sockets, HTTP, TLS and DTLS themselves (\<open>support/src/network\<close>, \<open>huestream/common/http\<close>, mbedtls), the vendored JSON
  library, discovery by UPNP and by addresses, logging, files, the C library's calendar and time zones,
  the JNI binding, the facade \<open>HueStream\<close> that builds the objects and forwards calls, and the example
  applications with the bridge simulator: they are input and output, glue, or code of others.
\<close>

end
